(* ===== verification/Http_Prelude.thy ===== *)
theory Http_Prelude
  imports Main "HOL-Library.Word" "HOL-Library.Monad_Syntax" "HOL-Library.Code_Target_Numeral"
begin

text \<open>
  Shared vocabulary of the development: the machine types of the C sources, the parts of the C
  standard library they call (character classes, string search, \<open>strtoul\<close>, block copies), and
  the generic list, option and word lemmas on which the component theories rest.

  Conventions. A byte is a \<^typ>\<open>char\<close>; a C string or a block of memory is a list of bytes.
  \<open>size_t\<close> and \<open>unsigned long\<close> are 64 bits wide (LP64). A C function that can run into
  undefined behaviour (a read or write outside a block, a failed \<open>assert\<close>) or that may loop
  forever has an \<open>option\<close> result: \<^const>\<open>None\<close> is that outcome, so a theorem that
  such a function returns \<open>Some\<close> states that it terminates and stays inside its memory.
\<close>

unbundle bit_operations_syntax

section \<open>Collections and types\<close>

named_theorems buf_simps \<open>abstract effect of the buffer operations\<close>
named_theorems ctype_simps \<open>unfolding of the C character classes\<close>
named_theorems parser_simps \<open>transitions of the parsers\<close>

type_synonym size_t = "64 word"
type_synonym bytes = "char list"

abbreviation NUL :: char where "NUL \<equiv> CHR 0x00"
abbreviation LF :: char where "LF \<equiv> CHR 0x0A"
abbreviation CR :: char where "CR \<equiv> CHR 0x0D"
abbreviation TAB :: char where "TAB \<equiv> CHR 0x09"
abbreviation SP :: char where "SP \<equiv> CHR '' ''"

text \<open>The numeric value of a byte, unsigned and as the \<open>signed char\<close> of the supported ABIs.\<close>

abbreviation uchar :: "char \<Rightarrow> nat" where "uchar c \<equiv> of_char c"

definition schar :: "char \<Rightarrow> int" where
  "schar c = (if uchar c < 128 then int (uchar c) else int (uchar c) - 256)"

section \<open>ctype.h in the C locale\<close>

definition isspace :: "char \<Rightarrow> bool" where [ctype_simps]:
  "isspace c \<longleftrightarrow> c = SP \<or> (9 \<le> uchar c \<and> uchar c \<le> 13)"
definition isupper :: "char \<Rightarrow> bool" where [ctype_simps]:
  "isupper c \<longleftrightarrow> 65 \<le> uchar c \<and> uchar c \<le> 90"
definition islower :: "char \<Rightarrow> bool" where [ctype_simps]:
  "islower c \<longleftrightarrow> 97 \<le> uchar c \<and> uchar c \<le> 122"
definition isdigit :: "char \<Rightarrow> bool" where [ctype_simps]:
  "isdigit c \<longleftrightarrow> 48 \<le> uchar c \<and> uchar c \<le> 57"
definition isalpha :: "char \<Rightarrow> bool" where [ctype_simps]:
  "isalpha c \<longleftrightarrow> isupper c \<or> islower c"
definition isalnum :: "char \<Rightarrow> bool" where [ctype_simps]:
  "isalnum c \<longleftrightarrow> isalpha c \<or> isdigit c"
definition isxdigit :: "char \<Rightarrow> bool" where [ctype_simps]:
  "isxdigit c \<longleftrightarrow> isdigit c \<or> (65 \<le> uchar c \<and> uchar c \<le> 70) \<or> (97 \<le> uchar c \<and> uchar c \<le> 102)"

definition tolower :: "char \<Rightarrow> char" where
  "tolower c = (if isupper c then char_of (uchar c + 32) else c)"
definition toupper :: "char \<Rightarrow> char" where
  "toupper c = (if islower c then char_of (uchar c - 32) else c)"

lemma uchar_less_256 [simp]: "uchar c < 256"
  using nat_of_char_less_256 [of c] by simp

lemma uchar_char_of [simp]: "n < 256 \<Longrightarrow> uchar (char_of n) = n"
  by simp

lemma uchar_tolower: "uchar (tolower c) = (if isupper c then uchar c + 32 else uchar c)"
  by (simp add: tolower_def ctype_simps)

lemma uchar_toupper: "uchar (toupper c) = (if islower c then uchar c - 32 else uchar c)"
proof -
  have "uchar c - 32 < 256" using uchar_less_256 [of c] by linarith
  then show ?thesis by (simp add: toupper_def)
qed

lemma uchar_inj: "uchar c = uchar d \<Longrightarrow> c = d"
  by (metis char_of_char)

lemma isalpha_tolower [simp]: "isalpha (tolower c) = isalpha c"
  by (auto simp: ctype_simps uchar_tolower)

lemma isalpha_toupper [simp]: "isalpha (toupper c) = isalpha c"
  by (auto simp: ctype_simps uchar_toupper)

lemma tolower_idem [simp]: "tolower (tolower c) = tolower c"
  by (rule uchar_inj) (auto simp: ctype_simps uchar_tolower)

lemma tolower_toupper [simp]: "tolower (toupper c) = tolower c"
  by (rule uchar_inj) (auto simp: ctype_simps uchar_tolower uchar_toupper)

lemma toupper_tolower [simp]: "toupper (tolower c) = toupper c"
  by (rule uchar_inj) (auto simp: ctype_simps uchar_tolower uchar_toupper)

lemma toupper_idem [simp]: "toupper (toupper c) = toupper c"
  by (rule uchar_inj) (auto simp: ctype_simps uchar_toupper)

lemma toupper_eq_if_tolower_eq: "tolower c = tolower d \<Longrightarrow> toupper c = toupper d"
  by (metis toupper_tolower)

lemma tolower_nonalpha: "\<not> isalpha c \<Longrightarrow> tolower c = c"
  by (simp add: tolower_def isalpha_def)

section \<open>string.h\<close>

text \<open>
  A pointer into memory is the list of the bytes from there on. \<open>rd m i\<close> reads byte \<open>i\<close>;
  beyond the bytes the list knows it reads the terminator.
\<close>

definition rd :: "bytes \<Rightarrow> nat \<Rightarrow> char" where
  "rd m i = (if i < length m then m ! i else NUL)"

lemma rd_Nil [simp]: "rd [] i = NUL"
  by (simp add: rd_def)

lemma rd_Cons_0 [simp]: "rd (x # xs) 0 = x"
  by (simp add: rd_def)

lemma rd_Cons_Suc [simp]: "rd (x # xs) (Suc i) = rd xs i"
  by (simp add: rd_def)

text \<open>The bytes of the C string at a pointer (up to the first NUL).\<close>

definition cstr :: "bytes \<Rightarrow> bytes" where
  "cstr m = takeWhile (\<lambda>c. c \<noteq> NUL) m"

lemma cstr_no_NUL [simp]: "NUL \<notin> set s \<Longrightarrow> cstr s = s"
  by (auto simp: cstr_def takeWhile_eq_all_conv)

definition strspn :: "bytes \<Rightarrow> bytes \<Rightarrow> nat" where
  "strspn s accept = length (takeWhile (\<lambda>c. c \<in> set accept) s)"

definition strcaseeq :: "bytes \<Rightarrow> bytes \<Rightarrow> bool" where
  "strcaseeq a b \<longleftrightarrow> map tolower a = map tolower b"

text \<open>Comparison of the first \<open>n\<close> bytes of C strings (\<open>strncasecmp\<close>).\<close>

definition strncaseeq :: "bytes \<Rightarrow> bytes \<Rightarrow> nat \<Rightarrow> bool" where
  "strncaseeq a b n = strcaseeq (take n (cstr a)) (take n (cstr b))"

text \<open>Position of the first byte that satisfies a predicate (\<open>memchr\<close>, \<open>strchr\<close>, \<open>strpbrk\<close>).\<close>

fun index_of :: "('a \<Rightarrow> bool) \<Rightarrow> 'a list \<Rightarrow> nat option" where
  "index_of p [] = None"
| "index_of p (x # xs) = (if p x then Some 0 else map_option Suc (index_of p xs))"

lemma index_of_None: "index_of p xs = None \<longleftrightarrow> (\<forall>x\<in>set xs. \<not> p x)"
  by (induction xs) auto

lemma index_of_SomeD:
  "index_of p xs = Some i \<Longrightarrow> i < length xs \<and> p (xs ! i) \<and> (\<forall>j<i. \<not> p (xs ! j))"
proof (induction xs arbitrary: i)
  case Nil
  then show ?case by simp
next
  case (Cons x xs)
  show ?case
  proof (cases "p x")
    case True
    with Cons.prems show ?thesis by simp
  next
    case False
    with Cons.prems obtain k where "index_of p xs = Some k" "i = Suc k" by auto
    with Cons.IH [of k] False show ?thesis
      by (auto simp: nth_Cons split: nat.splits)
  qed
qed

lemma index_of_append:
  "index_of p (xs @ ys) =
     (case index_of p xs of Some i \<Rightarrow> Some i | None \<Rightarrow> map_option (\<lambda>i. i + length xs) (index_of p ys))"
  by (induction xs) (auto simp: option.map_comp comp_def option.map_ident split: option.splits)

lemma index_of_takeWhile:
  "index_of p xs = Some i \<Longrightarrow> take i xs = takeWhile (\<lambda>x. \<not> p x) xs"
  by (induction xs arbitrary: i) (auto split: if_splits)

lemma index_of_split:
  assumes "\<forall>x\<in>set xs. \<not> p x" "p y"
  shows "index_of p (xs @ y # ys) = Some (length xs)"
proof -
  from assms(1) have "index_of p xs = None" by (simp add: index_of_None)
  with assms(2) show ?thesis by (simp add: index_of_append)
qed

text \<open>First occurrence of a needle (\<open>zend_memnstr\<close>, \<open>php_stristr\<close>), up to an equivalence of bytes.\<close>

fun memnstr_by :: "(char \<Rightarrow> char) \<Rightarrow> bytes \<Rightarrow> bytes \<Rightarrow> nat option" where
  "memnstr_by f h n =
     (if map f (take (length n) h) = map f n then Some 0
      else case h of [] \<Rightarrow> None | x # xs \<Rightarrow> map_option Suc (memnstr_by f xs n))"

declare memnstr_by.simps [simp del]

abbreviation memnstr :: "bytes \<Rightarrow> bytes \<Rightarrow> nat option" where "memnstr \<equiv> memnstr_by id"

lemma memnstr_by_SomeD:
  "memnstr_by f h n = Some i \<Longrightarrow> i \<le> length h \<and> map f (take (length n) (drop i h)) = map f n"
proof (induction f h n arbitrary: i rule: memnstr_by.induct)
  case (1 f h n)
  show ?case
  proof (cases "map f (take (length n) h) = map f n")
    case True
    with "1.prems" show ?thesis by (simp add: memnstr_by.simps [of f h n])
  next
    case False
    with "1.prems" obtain x xs j where "h = x # xs" "memnstr_by f xs n = Some j" "i = Suc j"
      by (auto simp: memnstr_by.simps [of f h n] split: list.splits)
    with "1.IH" [OF False, of x xs j] show ?thesis by simp
  qed
qed

lemma memnstr_by_length:
  "memnstr_by f h n = Some i \<Longrightarrow> i + length n \<le> length h"
proof -
  assume "memnstr_by f h n = Some i"
  then have "i \<le> length h" and "map f (take (length n) (drop i h)) = map f n"
    by (auto dest: memnstr_by_SomeD)
  then have "length (take (length n) (drop i h)) = length n"
    by (metis length_map)
  with \<open>i \<le> length h\<close> show ?thesis by simp
qed

lemma memnstr_by_prefix [simp]: "memnstr_by f (n @ r) n = Some 0"
  by (simp add: memnstr_by.simps)

section \<open>stdlib.h: strtoul\<close>

definition digit_val :: "char \<Rightarrow> nat option" where
  "digit_val c =
     (if isdigit c then Some (uchar c - 48)
      else if isupper c then Some (uchar c - 55)
      else if islower c then Some (uchar c - 87) else None)"

definition is_digit_in :: "nat \<Rightarrow> char \<Rightarrow> bool" where
  "is_digit_in base c = (case digit_val c of None \<Rightarrow> False | Some d \<Rightarrow> d < base)"

definition digits_val :: "nat \<Rightarrow> bytes \<Rightarrow> nat" where
  "digits_val base ds = foldl (\<lambda>a c. a * base + the (digit_val c)) 0 ds"

text \<open>
  \<open>strtoul s base\<close>: value and number of bytes consumed (0 when there is no number). White space,
  a sign and, for base 16, a prefix \<open>0x\<close> are skipped; the value saturates at \<open>ULONG_MAX\<close> and
  a minus sign negates it modulo \<open>2^64\<close>.
\<close>

definition ulong_max :: nat where "ulong_max = 2 ^ 64 - 1"

definition strtoul_digits :: "nat \<Rightarrow> bytes \<Rightarrow> nat \<times> nat" where
  "strtoul_digits base s =
     (let ds = takeWhile (is_digit_in base) s in (digits_val base ds, length ds))"

definition strtoul_unsigned :: "nat \<Rightarrow> bytes \<Rightarrow> nat \<times> nat" where
  "strtoul_unsigned base s =
     (if base = 16 \<and> rd s 0 = CHR ''0'' \<and> tolower (rd s 1) = CHR ''x'' \<and> is_digit_in 16 (rd s 2)
      then (let (v, n) = strtoul_digits base (drop 2 s) in (v, n + 2))
      else strtoul_digits base s)"

definition strtoul :: "nat \<Rightarrow> bytes \<Rightarrow> nat \<times> nat" where
  "strtoul base s =
     (let sp = length (takeWhile isspace s);
          r = drop sp s;
          sg = (if rd r 0 = CHR ''+'' \<or> rd r 0 = CHR ''-'' then 1 else 0);
          (v, n) = strtoul_unsigned base (drop sg r)
      in if n = 0 then (0, 0)
         else (if ulong_max < v then ulong_max
               else if rd r 0 = CHR ''-'' then (2 ^ 64 - v) mod 2 ^ 64 else v, sp + sg + n))"

lemma is_digit_in_not_space: "is_digit_in base c \<Longrightarrow> \<not> isspace c"
  by (auto simp: is_digit_in_def digit_val_def ctype_simps split: if_splits)

lemma is_digit_in_not_sign: "is_digit_in base c \<Longrightarrow> c \<noteq> CHR ''+'' \<and> c \<noteq> CHR ''-''"
  by (auto simp: is_digit_in_def digit_val_def ctype_simps split: if_splits)

lemma strtoul_digits_append:
  assumes "\<forall>c\<in>set ds. is_digit_in base c" "\<not> is_digit_in base c"
  shows "strtoul_digits base (ds @ c # r) = (digits_val base ds, length ds)"
  using assms by (simp add: strtoul_digits_def takeWhile_append)

section \<open>stdio.h: numbers in text\<close>

text \<open>The conversions \<open>%u\<close>, \<open>%lu\<close> (base 10) and \<open>%lx\<close> (base 16).\<close>

definition digit_chr :: "nat \<Rightarrow> char" where
  "digit_chr d = char_of (if d < 10 then 48 + d else 87 + d)"

fun print_num :: "nat \<Rightarrow> nat \<Rightarrow> bytes" where
  "print_num base n =
     (if n < base \<or> base < 2 then [digit_chr n] else print_num base (n div base) @ [digit_chr (n mod base)])"

declare print_num.simps [simp del]

abbreviation dec :: "nat \<Rightarrow> bytes" where "dec \<equiv> print_num 10"
abbreviation hex :: "nat \<Rightarrow> bytes" where "hex \<equiv> print_num 16"

lemma digit_val_chr: "d < 36 \<Longrightarrow> digit_val (digit_chr d) = Some d"
  by (simp add: digit_val_def digit_chr_def ctype_simps)

lemma is_digit_in_chr: "d < base \<Longrightarrow> base \<le> 36 \<Longrightarrow> is_digit_in base (digit_chr d)"
  by (simp add: is_digit_in_def digit_val_chr)

lemma print_num_nonempty [simp]: "print_num base n \<noteq> []"
  by (subst print_num.simps) simp

lemma print_num_digits:
  "2 \<le> base \<Longrightarrow> base \<le> 36 \<Longrightarrow> \<forall>c\<in>set (print_num base n). is_digit_in base c"
proof (induction base n rule: print_num.induct)
  case (1 base n)
  then show ?case
    by (subst print_num.simps) (auto simp: is_digit_in_chr)
qed

lemma dec_isdigit: "\<forall>c\<in>set (dec n). isdigit c"
proof
  fix c assume "c \<in> set (dec n)"
  then have "is_digit_in 10 c" using print_num_digits [of 10 n] by auto
  then show "isdigit c" by (auto simp: is_digit_in_def digit_val_def ctype_simps split: if_splits)
qed

lemma digits_val_snoc: "digits_val base (ds @ [c]) = digits_val base ds * base + the (digit_val c)"
  by (simp add: digits_val_def)

lemma digits_val_print_num: "2 \<le> base \<Longrightarrow> base \<le> 36 \<Longrightarrow> digits_val base (print_num base n) = n"
proof (induction base n rule: print_num.induct)
  case (1 base n)
  show ?case
  proof (cases "n < base")
    case True
    with "1.prems" show ?thesis
      by (subst print_num.simps) (simp add: digits_val_def digit_val_chr)
  next
    case False
    have "n mod base < base" using "1.prems" by simp
    then have "n mod base < 36" using "1.prems" by linarith
    with False "1.prems" "1.IH" show ?thesis
      by (subst print_num.simps) (simp add: digits_val_snoc digit_val_chr)
  qed
qed

text \<open>A number that was read lies inside the text and ends with a digit.\<close>

lemma strtoul_digits_last:
  "strtoul_digits base s = (v, n) \<Longrightarrow> 0 < n \<Longrightarrow> n \<le> length s \<and> is_digit_in base (s ! (n - 1))"
proof -
  assume "strtoul_digits base s = (v, n)" "0 < n"
  then have n: "n = length (takeWhile (is_digit_in base) s)" by (simp add: strtoul_digits_def Let_def)
  with \<open>0 < n\<close> have "takeWhile (is_digit_in base) s ! (n - 1) \<in> set (takeWhile (is_digit_in base) s)" by simp
  then have "is_digit_in base (takeWhile (is_digit_in base) s ! (n - 1))" by (rule set_takeWhileD [THEN conjunct2])
  with n \<open>0 < n\<close> show ?thesis by (simp add: length_takeWhile_le takeWhile_nth)
qed

lemma strtoul_unsigned_last:
  assumes "strtoul_unsigned base s = (v, n)" "0 < n"
  shows "n \<le> length s \<and> is_digit_in base (s ! (n - 1))"
proof (cases "base = 16 \<and> rd s 0 = CHR ''0'' \<and> tolower (rd s 1) = CHR ''x'' \<and> is_digit_in 16 (rd s 2)")
  case True
  then have "2 < length s" by (auto simp: rd_def is_digit_in_def digit_val_def ctype_simps split: if_splits)
  from True have "is_digit_in 16 (rd s 2)" by blast
  with \<open>2 < length s\<close> have hd: "is_digit_in 16 (hd (drop 2 s))" by (simp add: rd_def hd_drop_conv_nth)
  obtain v' k where k: "strtoul_digits 16 (drop 2 s) = (v', k)" by force
  have "0 < k"
    using k hd \<open>2 < length s\<close> by (cases "drop 2 s") (auto simp: strtoul_digits_def Let_def)
  from strtoul_digits_last [OF k this] True k assms \<open>0 < k\<close> \<open>2 < length s\<close> show ?thesis
    by (auto simp: strtoul_unsigned_def nth_append)
next
  case False
  with assms have "strtoul_digits base s = (v, n)" by (auto simp: strtoul_unsigned_def)
  then show ?thesis using strtoul_digits_last assms(2) by blast
qed

lemma strtoul_last:
  assumes "strtoul base s = (v, n)" "0 < n"
  shows "n \<le> length s \<and> is_digit_in base (s ! (n - 1))"
proof -
  define sp where "sp = length (takeWhile isspace s)"
  define sg :: nat where "sg = (if rd (drop sp s) 0 = CHR ''+'' \<or> rd (drop sp s) 0 = CHR ''-'' then 1 else 0)"
  obtain v' k where k: "strtoul_unsigned base (drop sg (drop sp s)) = (v', k)" by force
  with assms have "0 < k" and n: "n = sp + sg + k"
    by (auto simp: strtoul_def Let_def sp_def [symmetric] sg_def [symmetric] split: if_splits)
  from strtoul_unsigned_last [OF k \<open>0 < k\<close>] \<open>0 < k\<close> have "k \<le> length s - (sp + sg)"
    and "is_digit_in base (drop (sg + sp) s ! (k - 1))" by (simp_all add: add.commute)
  moreover from \<open>0 < k\<close> calculation(1) have "sp + sg + k \<le> length s" by simp
  ultimately show ?thesis using \<open>0 < k\<close> by (simp add: n ac_simps)
qed

text \<open>A printed number that is followed by something else reads back.\<close>

definition ends_number :: "nat \<Rightarrow> bytes \<Rightarrow> bool" where
  "ends_number base r \<longleftrightarrow> r = [] \<or> (\<not> is_digit_in base (hd r) \<and> tolower (hd r) \<noteq> CHR ''x'')"

lemma strtoul_number:
  assumes ds: "ds \<noteq> []" "\<forall>d\<in>set ds. is_digit_in base d" "digits_val base ds \<le> ulong_max"
    and base: "base \<le> 16" and r: "ends_number base r"
  shows "strtoul base (ds @ r) = (digits_val base ds, length ds)"
proof -
  obtain d ds' where d: "ds = d # ds'" using ds(1) by (cases ds) auto
  have d0: "is_digit_in base d" using ds(2) d by simp
  have nox: "tolower e \<noteq> CHR ''x''" if "is_digit_in base e" for e
  proof
    assume "tolower e = CHR ''x''"
    then have "uchar (tolower e) = 120" by simp
    then have "uchar e = 120 \<or> uchar e = 88" by (auto simp: uchar_tolower ctype_simps split: if_splits)
    with that base show False by (auto simp: is_digit_in_def digit_val_def ctype_simps)
  qed
  have "tolower (rd (ds @ r) 1) \<noteq> CHR ''x''"
  proof (cases ds')
    case Nil
    with d r show ?thesis by (cases r) (auto simp: ends_number_def tolower_def ctype_simps)
  next
    case (Cons e es)
    with d ds(2) nox show ?thesis by simp
  qed
  moreover have "takeWhile (is_digit_in base) (ds @ r) = ds"
    using ds(2) r by (cases r) (auto simp: takeWhile_append ends_number_def)
  ultimately have "strtoul_unsigned base (ds @ r) = (digits_val base ds, length ds)"
    by (simp add: strtoul_unsigned_def strtoul_digits_def)
  with d is_digit_in_not_space [OF d0] is_digit_in_not_sign [OF d0] ds(3) show ?thesis
    by (simp add: strtoul_def Let_def)
qed

lemma strtoul_hex: "n \<le> ulong_max \<Longrightarrow> ends_number 16 r \<Longrightarrow> strtoul 16 (hex n @ r) = (n, length (hex n))"
  using strtoul_number [of "hex n" 16 r] print_num_digits [of 16 n] digits_val_print_num [of 16 n]
  by simp

section \<open>Blocks of memory\<close>

definition mem_read :: "bytes \<Rightarrow> nat \<Rightarrow> nat \<Rightarrow> bytes option" where
  "mem_read m off n = (if off + n \<le> length m then Some (take n (drop off m)) else None)"

definition mem_write :: "bytes \<Rightarrow> nat \<Rightarrow> bytes \<Rightarrow> bytes option" where
  "mem_write m off s =
     (if off + length s \<le> length m then Some (take off m @ s @ drop (off + length s) m) else None)"

definition mem_move :: "bytes \<Rightarrow> nat \<Rightarrow> nat \<Rightarrow> nat \<Rightarrow> bytes option" where
  "mem_move m dst src n = do { s \<leftarrow> mem_read m src n; mem_write m dst s }"

lemma mem_write_length: "mem_write m off s = Some m' \<Longrightarrow> length m' = length m"
  by (auto simp: mem_write_def split: if_splits)

lemma mem_move_down:
  "src + n \<le> length m \<Longrightarrow> dst \<le> src \<Longrightarrow>
   mem_move m dst src n = Some (take dst m @ take n (drop src m) @ drop (dst + n) m)"
proof -
  assume a: "src + n \<le> length m" "dst \<le> src"
  then have l: "length (take n (drop src m)) = n" by simp
  from a show ?thesis
    by (simp add: mem_move_def mem_read_def mem_write_def l del: length_take length_drop)
qed

section \<open>Words\<close>

lemma unat_less_exp64 [simp]: "unat (w :: size_t) < 2 ^ 64"
  using unsigned_less [of w] by simp

lemma unat_of_nat_size_t: "n < 2 ^ 64 \<Longrightarrow> unat (of_nat n :: size_t) = n"
  by (simp add: unat_of_nat)

lemma unat_plus_size_t:
  "unat (a :: size_t) + unat b < 2 ^ 64 \<Longrightarrow> unat (a + b) = unat a + unat b"
  by (simp add: unat_word_ariths)

lemma unat_minus_size_t: "(b :: size_t) \<le> a \<Longrightarrow> unat (a - b) = unat a - unat b"
  by (rule unat_sub)

end
