(* ===== verification/Http_Buffer.thy ===== *)
theory Http_Buffer
  imports Http_Prelude
begin

text \<open>
  The growing byte buffer \<open>php_http_buffer_t\<close> of \<open>php_http_buffer.c\<close>, the carrier of all
  parsers and serialisers. The record keeps the allocated block itself, so that every copy into and
  out of it is checked against its size. Sizes are 64-bit words and wrap as \<open>size_t\<close> does.

  The memory manager is outside the sources: it is the argument \<open>ra\<close> of the operations
  (\<open>perealloc\<close> and, on a null block, \<open>pemalloc\<close>; \<^const>\<open>None\<close> is a null result), and the
  locale \<open>allocator\<close> states what is documented of it.
\<close>

section \<open>State and operations\<close>

record php_http_buffer =
  buf_data :: "bytes option"
  buf_used :: size_t
  buf_free :: size_t
  buf_size :: size_t
  buf_pmem :: bool

type_synonym realloc = "bytes option \<Rightarrow> size_t \<Rightarrow> bytes option"

definition PHP_HTTP_BUFFER_DEFAULT_SIZE :: size_t where "PHP_HTTP_BUFFER_DEFAULT_SIZE = 256"
definition PHP_HTTP_BUFFER_NOMEM :: size_t where "PHP_HTTP_BUFFER_NOMEM = -1"
abbreviation PHP_HTTP_BUFFER_PASS0 :: size_t where "PHP_HTTP_BUFFER_PASS0 \<equiv> PHP_HTTP_BUFFER_NOMEM"
definition PHP_HTTP_BUFFER_INIT_PREALLOC :: "32 word" where "PHP_HTTP_BUFFER_INIT_PREALLOC = 1"
definition PHP_HTTP_BUFFER_INIT_PERSISTENT :: "32 word" where "PHP_HTTP_BUFFER_INIT_PERSISTENT = 2"

text \<open>The block of a buffer (a null pointer has no bytes) and the bytes in use.\<close>

definition buf_blk :: "php_http_buffer \<Rightarrow> bytes" where
  "buf_blk b = (case buf_data b of None \<Rightarrow> [] | Some m \<Rightarrow> m)"

definition buf_str :: "php_http_buffer \<Rightarrow> bytes" where
  "buf_str b = take (unat (buf_used b)) (buf_blk b)"

definition php_http_buffer_init_ex :: "realloc \<Rightarrow> size_t \<Rightarrow> 32 word \<Rightarrow> php_http_buffer" where
  "php_http_buffer_init_ex ra chunk_size flags =
     (let sz = (if chunk_size \<noteq> 0 then chunk_size else PHP_HTTP_BUFFER_DEFAULT_SIZE);
          pre = (flags AND PHP_HTTP_BUFFER_INIT_PREALLOC \<noteq> 0)
      in \<lparr>buf_data = (if pre then ra None sz else None), buf_used = 0,
          buf_free = (if pre then sz else 0), buf_size = sz,
          buf_pmem = (flags AND PHP_HTTP_BUFFER_INIT_PERSISTENT \<noteq> 0)\<rparr>)"

definition php_http_buffer_init :: "realloc \<Rightarrow> php_http_buffer" where
  "php_http_buffer_init ra = php_http_buffer_init_ex ra PHP_HTTP_BUFFER_DEFAULT_SIZE 0"

text \<open>The doubling loop of \<open>php_http_buffer_resize_ex\<close>; \<^const>\<open>None\<close> is a loop that never ends.\<close>

partial_function (option) resize_loop :: "size_t \<Rightarrow> size_t \<Rightarrow> size_t \<Rightarrow> size_t option" where
  "resize_loop sz fr len =
     (if sz + fr < len then resize_loop (push_bit 1 sz) fr len else Some sz)"

declare resize_loop.simps [code]

definition php_http_buffer_resize_ex ::
  "realloc \<Rightarrow> php_http_buffer \<Rightarrow> size_t \<Rightarrow> size_t \<Rightarrow> (size_t \<times> php_http_buffer) option" where
  "php_http_buffer_resize_ex ra buf len override_size =
     (if buf_free buf < len then do {
        sz \<leftarrow> resize_loop (if override_size \<noteq> 0 then override_size else buf_size buf)
                (buf_free buf) len;
        case ra (buf_data buf) (buf_used buf + buf_free buf + sz) of
          None \<Rightarrow> Some (PHP_HTTP_BUFFER_NOMEM, buf)
        | Some ptr \<Rightarrow> Some (sz, buf\<lparr>buf_data := Some ptr, buf_free := buf_free buf + sz\<rparr>)
      } else Some (0, buf))"

abbreviation php_http_buffer_resize ::
  "realloc \<Rightarrow> php_http_buffer \<Rightarrow> size_t \<Rightarrow> (size_t \<times> php_http_buffer) option" where
  "php_http_buffer_resize ra buf len \<equiv> php_http_buffer_resize_ex ra buf len 0"

text \<open>\<open>php_http_buffer_account\<close>: a failing \<open>assert\<close> does not return.\<close>

definition php_http_buffer_account :: "php_http_buffer \<Rightarrow> size_t \<Rightarrow> php_http_buffer option" where
  "php_http_buffer_account buf to_account =
     (if to_account \<le> buf_free buf
      then Some (buf\<lparr>buf_free := buf_free buf - to_account, buf_used := buf_used buf + to_account\<rparr>)
      else None)"

definition php_http_buffer_shrink :: "realloc \<Rightarrow> php_http_buffer \<Rightarrow> size_t \<times> php_http_buffer" where
  "php_http_buffer_shrink ra buf =
     (if 1 < buf_free buf
      then (case ra (buf_data buf) (buf_used buf + 1) of
              None \<Rightarrow> (PHP_HTTP_BUFFER_NOMEM, buf)
            | Some ptr \<Rightarrow> (buf_used buf, buf\<lparr>buf_data := Some ptr, buf_free := 1\<rparr>))
      else (buf_used buf, buf))"

text \<open>Replace the block, keeping a null pointer null (copies of no bytes).\<close>

definition set_blk :: "php_http_buffer \<Rightarrow> bytes \<Rightarrow> php_http_buffer" where
  "set_blk buf m = buf\<lparr>buf_data := map_option (\<lambda>_. m) (buf_data buf)\<rparr>"

definition php_http_buffer_append ::
  "realloc \<Rightarrow> php_http_buffer \<Rightarrow> bytes \<Rightarrow> (size_t \<times> php_http_buffer) option" where
  "php_http_buffer_append ra buf app =
     (let append_len = of_nat (length app) in do {
        (rs, buf) \<leftarrow> (if buf_free buf < append_len then php_http_buffer_resize ra buf append_len
                      else Some (0, buf));
        if rs = PHP_HTTP_BUFFER_NOMEM then Some (PHP_HTTP_BUFFER_NOMEM, buf)
        else if append_len \<noteq> 0 then do {
          m \<leftarrow> mem_write (buf_blk buf) (unat (buf_used buf)) app;
          Some (append_len, (set_blk buf m)\<lparr>buf_used := buf_used buf + append_len,
                                             buf_free := buf_free buf - append_len\<rparr>)
        } else Some (append_len, buf)
      })"

text \<open>\<open>php_http_buffer_data\<close>: the zero-terminated copy and its length.\<close>

definition php_http_buffer_data :: "php_http_buffer \<Rightarrow> (bytes \<times> size_t) option" where
  "php_http_buffer_data buf =
     (case buf_data buf of
        None \<Rightarrow> Some (replicate (unat (buf_used buf) + 1) NUL, buf_used buf)
      | Some m \<Rightarrow> do {
          s \<leftarrow> mem_read m 0 (unat (buf_used buf));
          Some (s @ [NUL], buf_used buf)
        })"

definition php_http_buffer_cut ::
  "php_http_buffer \<Rightarrow> size_t \<Rightarrow> size_t \<Rightarrow> (size_t \<times> php_http_buffer) option" where
  "php_http_buffer_cut buf offset len0 =
     (if buf_used buf < offset then Some (0, buf)
      else let len = (if buf_used buf < offset + len0 then buf_used buf - offset else len0) in do {
        m \<leftarrow> mem_move (buf_blk buf) (unat offset) (unat offset + unat len)
               (unat (buf_used buf - len - offset));
        Some (len, (set_blk buf m)\<lparr>buf_used := buf_used buf - len, buf_free := buf_free buf + len\<rparr>)
      })"

text \<open>\<open>php_http_buffer_fix\<close>: the flag is false for the null result.\<close>

definition php_http_buffer_fix :: "realloc \<Rightarrow> php_http_buffer \<Rightarrow> (bool \<times> php_http_buffer) option" where
  "php_http_buffer_fix ra buf = do {
     (rs, buf) \<leftarrow> (if buf_free buf < 1 then php_http_buffer_resize_ex ra buf 1 1 else Some (0, buf));
     if rs = PHP_HTTP_BUFFER_NOMEM then Some (False, buf)
     else do {
       m \<leftarrow> mem_write (buf_blk buf) (unat (buf_used buf)) [NUL];
       Some (True, set_blk buf m)
     }
   }"

definition php_http_buffer_reset :: "php_http_buffer \<Rightarrow> php_http_buffer" where
  "php_http_buffer_reset buf = buf\<lparr>buf_free := buf_free buf + buf_used buf, buf_used := 0\<rparr>"

definition php_http_buffer_dtor :: "php_http_buffer \<Rightarrow> php_http_buffer" where
  "php_http_buffer_dtor buf = buf\<lparr>buf_data := None, buf_used := 0, buf_free := 0\<rparr>"

text \<open>\<open>php_http_buffer_from_string_ex\<close>: \<open>Some None\<close> is its null result.\<close>

definition php_http_buffer_from_string_ex :: "realloc \<Rightarrow> bytes \<Rightarrow> php_http_buffer option option" where
  "php_http_buffer_from_string_ex ra str = do {
     (rs, buf) \<leftarrow> php_http_buffer_append ra (php_http_buffer_init ra) str;
     Some (if rs = PHP_HTTP_BUFFER_NOMEM then None else Some buf)
   }"

text \<open>
  \<open>php_http_buffer_chunk_buffer\<close>: the buffer pointer \<open>*s\<close> is an option, \<^const>\<open>None\<close> when null;
  the chunk handed out, if any, is the first result.
\<close>

definition php_http_buffer_chunk_buffer ::
  "realloc \<Rightarrow> php_http_buffer option \<Rightarrow> bytes \<Rightarrow> size_t \<Rightarrow>
     (bytes option \<times> size_t \<times> php_http_buffer option) option" where
  "php_http_buffer_chunk_buffer ra s dat chunk_size =
     (let storage = (case s of Some b \<Rightarrow> b
                     | None \<Rightarrow> php_http_buffer_init_ex ra (push_bit 1 chunk_size)
                         (if chunk_size \<noteq> 0 then PHP_HTTP_BUFFER_INIT_PREALLOC else 0)) in do {
        (_, storage) \<leftarrow> (if dat \<noteq> [] then php_http_buffer_append ra storage dat
                          else Some (0, storage));
        if chunk_size = 0 then do {
          (chunk, len) \<leftarrow> php_http_buffer_data storage;
          Some (Some (butlast chunk), len, None)
        } else if chunk_size \<le> buf_used storage then do {
          chunk \<leftarrow> mem_read (buf_blk storage) 0 (unat chunk_size);
          (_, storage) \<leftarrow> php_http_buffer_cut storage 0 chunk_size;
          Some (Some chunk, chunk_size, Some storage)
        } else Some (None, 0, Some storage)
      })"

text \<open>
  \<open>php_http_buffer_chunked_output\<close>: the pass-on callback is a function from its opaque state and
  the chunk to the returned size and the new state.
\<close>

type_synonym 'o pass_func = "'o \<Rightarrow> bytes \<Rightarrow> size_t \<times> 'o"

partial_function (option) chunked_output_loop ::
  "realloc \<Rightarrow> 'o pass_func \<Rightarrow> size_t \<Rightarrow> php_http_buffer option \<Rightarrow> bytes \<Rightarrow> 'o \<Rightarrow> size_t \<Rightarrow>
     (size_t \<times> php_http_buffer option \<times> 'o) option" where
  "chunked_output_loop ra passout chunk_len s dat opaque passed = do {
     (chunk, got, s) \<leftarrow> php_http_buffer_chunk_buffer ra s dat chunk_len;
     if got = 0 then Some (passed, s, opaque)
     else let (r, opaque) = passout opaque (case chunk of None \<Rightarrow> [] | Some c \<Rightarrow> c) in
       if r = PHP_HTTP_BUFFER_PASS0 then Some (PHP_HTTP_BUFFER_PASS0, s, opaque)
       else if chunk_len = 0 then Some (passed + 1, s, opaque)
       else chunked_output_loop ra passout chunk_len s [] opaque (passed + 1)
   }"

declare chunked_output_loop.simps [code]

definition php_http_buffer_chunked_output ::
  "realloc \<Rightarrow> php_http_buffer option \<Rightarrow> bytes \<Rightarrow> size_t \<Rightarrow> 'o pass_func \<Rightarrow> 'o \<Rightarrow>
     (size_t \<times> php_http_buffer option \<times> 'o) option" where
  "php_http_buffer_chunked_output ra s dat chunk_len passout opaque =
     chunked_output_loop ra passout chunk_len s dat opaque 0"

text \<open>
  \<open>php_http_buffer_chunked_input\<close>: the pass-in callback fills the free part of the block. Its
  answer is the returned size and the bytes it stored; it must not store more than it was offered
  room for, which the copy checks.
\<close>

type_synonym 'o pass_in = "'o \<Rightarrow> size_t \<Rightarrow> size_t \<times> bytes \<times> 'o"

definition php_http_buffer_chunked_input ::
  "realloc \<Rightarrow> php_http_buffer option \<Rightarrow> size_t \<Rightarrow> 'o pass_in \<Rightarrow> 'o \<Rightarrow>
     (size_t \<times> php_http_buffer \<times> 'o) option" where
  "php_http_buffer_chunked_input ra s chunk_size passin opaque =
     (let str = (case s of Some b \<Rightarrow> b
                 | None \<Rightarrow> php_http_buffer_init_ex ra chunk_size
                     (if chunk_size \<noteq> 0 then PHP_HTTP_BUFFER_INIT_PREALLOC else 0)) in do {
        (_, str) \<leftarrow> php_http_buffer_resize ra str chunk_size;
        let (passed, stored, opaque) = passin opaque chunk_size in do {
          m \<leftarrow> mem_write (buf_blk str) (unat (buf_used str)) stored;
          let str = set_blk str m;
              str = (if passed \<noteq> PHP_HTTP_BUFFER_PASS0
                     then str\<lparr>buf_used := buf_used str + passed, buf_free := buf_free str - passed\<rparr>
                     else str) in do {
            (_, str) \<leftarrow> php_http_buffer_fix ra str;
            Some (passed, str, opaque)
          }
        }
      })"

definition php_http_buffer_passthru ::
  "realloc \<Rightarrow> php_http_buffer option \<Rightarrow> size_t \<Rightarrow> 'i pass_in \<Rightarrow> 'i \<Rightarrow> 'o pass_func \<Rightarrow> 'o \<Rightarrow>
     (size_t \<times> php_http_buffer \<times> 'i \<times> 'o) option" where
  "php_http_buffer_passthru ra s chunk_size passin in_arg passon on_arg = do {
     (passed_in, str, in_arg) \<leftarrow> php_http_buffer_chunked_input ra s chunk_size passin in_arg;
     if passed_in = PHP_HTTP_BUFFER_PASS0 then Some (passed_in, str, in_arg, on_arg)
     else if passed_in \<noteq> 0 \<or> buf_used str \<noteq> 0 then do {
       txt \<leftarrow> mem_read (buf_blk str) 0 (unat (buf_used str));
       let (passed_on, on_arg) = passon on_arg txt in
         if passed_on = PHP_HTTP_BUFFER_PASS0 then Some (passed_on, str, in_arg, on_arg)
         else do {
           (_, str) \<leftarrow> (if passed_on \<noteq> 0 then php_http_buffer_cut str 0 passed_on else Some (0, str));
           Some (passed_on - passed_in, str, in_arg, on_arg)
         }
     } else Some (0 - passed_in, str, in_arg, on_arg)
   }"


section \<open>The memory manager\<close>

text \<open>
  What the buffer relies on: a block that is handed out has the requested size, keeps the bytes of
  the block it replaces, and no object is larger than \<open>PTRDIFF_MAX\<close>. A request may fail.
\<close>

definition opt_blk :: "bytes option \<Rightarrow> bytes" where
  "opt_blk b = (case b of None \<Rightarrow> [] | Some m \<Rightarrow> m)"

lemma buf_blk_opt: "buf_blk b = opt_blk (buf_data b)"
  by (simp add: buf_blk_def opt_blk_def)

locale allocator =
  fixes ra :: realloc
  assumes ra_length: "ra b n = Some m \<Longrightarrow> length m = unat n"
    and ra_keeps: "ra b n = Some m \<Longrightarrow> k \<le> length (opt_blk b) \<Longrightarrow> k \<le> unat n \<Longrightarrow>
           take k m = take k (opt_blk b)"
    and ra_limit: "ra b n = Some m \<Longrightarrow> unat n < 2 ^ 63"

text \<open>A memory manager with a limit: fresh bytes are zero.\<close>

definition zend_mm :: "nat \<Rightarrow> realloc" where
  "zend_mm limit b n =
     (if unat n \<le> limit \<and> unat n < 2 ^ 63
      then Some (take (unat n) (opt_blk b) @ replicate (unat n - length (opt_blk b)) NUL)
      else None)"

interpretation zmm: allocator "zend_mm limit" for limit
  by unfold_locales (auto simp: zend_mm_def split: if_splits)

section \<open>Representation invariant\<close>

text \<open>
  The block is exactly the used and the free part, a positive growth step is set, and sizes are far
  enough from the end of the address space for their sums not to wrap.
\<close>

definition buf_inv :: "php_http_buffer \<Rightarrow> bool" where
  "buf_inv b \<longleftrightarrow>
     length (buf_blk b) = unat (buf_used b) + unat (buf_free b) \<and> length (buf_blk b) < 2 ^ 63 \<and>
     0 < unat (buf_size b) \<and> unat (buf_size b) < 2 ^ 62"

lemma buf_invD:
  assumes "buf_inv b"
  shows "length (buf_blk b) = unat (buf_used b) + unat (buf_free b)"
    and "length (buf_blk b) < 2 ^ 63"
    and "0 < unat (buf_size b)" and "unat (buf_size b) < 2 ^ 62"
    and "unat (buf_used b) \<le> length (buf_blk b)"
    and "unat (buf_used b) < 2 ^ 63" and "unat (buf_free b) < 2 ^ 63"
  using assms by (auto simp: buf_inv_def)

lemma length_buf_str [simp]: "buf_inv b \<Longrightarrow> length (buf_str b) = unat (buf_used b)"
  using buf_invD(5) by (simp add: buf_str_def)

lemma buf_used_eq: "buf_inv b \<Longrightarrow> buf_used b = of_nat (length (buf_str b))"
  by simp

lemma buf_blk_set_blk:
  "length m = length (buf_blk b) \<Longrightarrow> buf_blk (set_blk b m) = m"
  by (auto simp: buf_blk_def set_blk_def split: option.splits)

lemma set_blk_sel [simp]:
  "buf_used (set_blk b m) = buf_used b" "buf_free (set_blk b m) = buf_free b"
  "buf_size (set_blk b m) = buf_size b" "buf_pmem (set_blk b m) = buf_pmem b"
  by (simp_all add: set_blk_def)

lemma buf_blk_update [simp]:
  "buf_blk (b\<lparr>buf_used := u\<rparr>) = buf_blk b" "buf_blk (b\<lparr>buf_free := f\<rparr>) = buf_blk b"
  "buf_blk (b\<lparr>buf_size := z\<rparr>) = buf_blk b" "buf_blk (b\<lparr>buf_data := Some m\<rparr>) = m"
  by (simp_all add: buf_blk_def)

lemma NOMEM_unat [simp]: "unat PHP_HTTP_BUFFER_NOMEM = 2 ^ 64 - 1"
  by (simp add: PHP_HTTP_BUFFER_NOMEM_def unsigned_minus_1_eq_mask mask_eq_exp_minus_1)

lemma not_NOMEM: "unat w < 2 ^ 63 \<Longrightarrow> w \<noteq> PHP_HTTP_BUFFER_NOMEM"
  by (auto simp del: word_unat_eq_iff)

section \<open>Growing\<close>

lemma unat_push_bit_1: "unat (sz :: size_t) < 2 ^ 63 \<Longrightarrow> unat (push_bit 1 sz) = 2 * unat sz"
  by (simp add: push_bit_eq_mult unat_word_ariths)

text \<open>The doubling loop ends with enough room, and less than twice what was asked for.\<close>

lemma resize_loop_returns:
  fixes sz fr len :: size_t
  assumes "0 < unat sz" "unat fr < unat len" "unat len < 2 ^ 62" "unat sz < 2 ^ 63"
  shows "\<exists>r. resize_loop sz fr len = Some r \<and> unat len \<le> unat r + unat fr \<and>
             unat r \<le> max (unat sz) (2 * unat len)"
  using assms
proof (induction "unat len - unat sz" arbitrary: sz rule: less_induct)
  case less
  have nowrap: "unat (sz + fr) = unat sz + unat fr"
    using less.prems by (intro unat_plus_size_t) simp
  show ?case
  proof (cases "sz + fr < len")
    case False
    then have "unat len \<le> unat sz + unat fr"
      by (simp add: word_less_nat_alt nowrap)
    with False show ?thesis by (simp add: resize_loop.simps)
  next
    case True
    then have lt: "unat sz + unat fr < unat len"
      by (simp add: word_less_nat_alt nowrap)
    have dbl: "unat (push_bit 1 sz) = 2 * unat sz"
      using less.prems by (intro unat_push_bit_1) simp
    have d63: "unat (push_bit 1 sz) < 2 ^ 63"
      unfolding dbl using lt less.prems by simp
    have "\<exists>r. resize_loop (push_bit 1 sz) fr len = Some r \<and> unat len \<le> unat r + unat fr \<and>
             unat r \<le> max (unat (push_bit 1 sz)) (2 * unat len)"
      using less.prems lt dbl d63 by (intro less.hyps) linarith+
    with True lt dbl show ?thesis by (auto simp: resize_loop.simps [of sz])
  qed
qed

context allocator
begin

lemma resize_ex_returns:
  assumes inv: "buf_inv b" and len: "unat len < 2 ^ 62" and ov: "unat ov < 2 ^ 62"
  shows "\<exists>r b'. php_http_buffer_resize_ex ra b len ov = Some (r, b') \<and> buf_inv b' \<and>
           buf_str b' = buf_str b \<and> buf_used b' = buf_used b \<and> buf_size b' = buf_size b \<and>
           (r = PHP_HTTP_BUFFER_NOMEM \<and> b' = b \<or>
            r \<noteq> PHP_HTTP_BUFFER_NOMEM \<and> len \<le> buf_free b')"
proof (cases "buf_free b < len")
  case False
  with inv show ?thesis
    by (auto simp: php_http_buffer_resize_ex_def PHP_HTTP_BUFFER_NOMEM_def)
next
  case True
  note I = buf_invD [OF inv]
  define sz where "sz = (if ov \<noteq> 0 then ov else buf_size b)"
  have "0 < unat sz" "unat sz < 2 ^ 62"
    using I ov by (auto simp: sz_def unat_gt_0)
  moreover have "unat (buf_free b) < unat len"
    using True by (simp add: word_less_nat_alt)
  ultimately obtain r where r: "resize_loop sz (buf_free b) len = Some r"
      "unat len \<le> unat r + unat (buf_free b)" "unat r \<le> max (unat sz) (2 * unat len)"
    using resize_loop_returns [of sz "buf_free b" len] len by auto
  have rlt: "unat r < 2 ^ 63"
    using r(3) \<open>unat sz < 2 ^ 62\<close> len by (simp add: max_def split: if_splits)
  have tot: "unat (buf_used b + buf_free b + r) = unat (buf_used b) + unat (buf_free b) + unat r"
    using I(1,2) rlt by (subst unat_plus_size_t; simp add: unat_plus_size_t)
  have fr: "unat (buf_free b + r) = unat (buf_free b) + unat r"
    using I(7) rlt by (intro unat_plus_size_t) simp
  show ?thesis
  proof (cases "ra (buf_data b) (buf_used b + buf_free b + r)")
    case None
    with True r(1) inv show ?thesis
      by (simp add: php_http_buffer_resize_ex_def sz_def [symmetric])
  next
    case (Some m)
    define b' where "b' = b\<lparr>buf_data := Some m, buf_free := buf_free b + r\<rparr>"
    have lm: "length m = unat (buf_used b) + unat (buf_free b) + unat r" "length m < 2 ^ 63"
      using ra_length [OF Some] ra_limit [OF Some] by (simp_all add: tot)
    have "take (unat (buf_used b)) m = take (unat (buf_used b)) (opt_blk (buf_data b))"
      using I(5) by (intro ra_keeps [OF Some]) (simp_all add: buf_blk_opt tot)
    then have str: "buf_str b' = buf_str b"
      by (simp add: b'_def buf_str_def buf_blk_opt opt_blk_def)
    have "buf_inv b'"
      using lm I fr by (simp add: b'_def buf_inv_def buf_blk_def)
    moreover have "len \<le> buf_free b'"
      using r(2) fr by (simp add: b'_def word_le_nat_alt)
    moreover have "php_http_buffer_resize_ex ra b len ov = Some (r, b')"
      using True r(1) Some by (simp add: php_http_buffer_resize_ex_def sz_def [symmetric] b'_def)
    ultimately show ?thesis
      using str not_NOMEM [OF rlt] by (auto simp: b'_def)
  qed
qed


lemma append_returns:
  assumes inv: "buf_inv b" and len: "length s < 2 ^ 62"
  shows "\<exists>r b'. php_http_buffer_append ra b s = Some (r, b') \<and> buf_inv b' \<and>
           buf_size b' = buf_size b \<and>
           (r = PHP_HTTP_BUFFER_NOMEM \<and> b' = b \<or>
            r = of_nat (length s) \<and> r \<noteq> PHP_HTTP_BUFFER_NOMEM \<and> buf_str b' = buf_str b @ s)"
proof -
  define n :: size_t where "n = of_nat (length s)"
  have un: "unat n = length s" using len by (simp add: n_def unat_of_nat)
  have "\<exists>r b1. (if buf_free b < n then php_http_buffer_resize ra b n else Some (0, b)) = Some (r, b1) \<and>
          buf_inv b1 \<and> buf_str b1 = buf_str b \<and> buf_size b1 = buf_size b \<and>
          (r = PHP_HTTP_BUFFER_NOMEM \<and> b1 = b \<or> r \<noteq> PHP_HTTP_BUFFER_NOMEM \<and> n \<le> buf_free b1)"
  proof (cases "buf_free b < n")
    case True
    then show ?thesis using resize_ex_returns [OF inv, of n 0] len un by auto
  next
    case False
    then show ?thesis using inv by (auto simp: PHP_HTTP_BUFFER_NOMEM_def)
  qed
  then obtain r b1 where rs: "(if buf_free b < n then php_http_buffer_resize ra b n else Some (0, b)) = Some (r, b1)"
      and b1: "buf_inv b1" "buf_str b1 = buf_str b" "buf_size b1 = buf_size b"
      and room: "r = PHP_HTTP_BUFFER_NOMEM \<and> b1 = b \<or> r \<noteq> PHP_HTTP_BUFFER_NOMEM \<and> n \<le> buf_free b1" by blast
  show ?thesis
  proof (cases "r = PHP_HTTP_BUFFER_NOMEM")
    case True
    with rs room inv show ?thesis
      by (auto simp: php_http_buffer_append_def Let_def n_def [symmetric])
  next
    case False
    with room have fits: "length s \<le> unat (buf_free b1)"
      by (simp add: word_le_nat_alt un)
    note I = buf_invD [OF b1(1)]
    define m where "m = take (unat (buf_used b1)) (buf_blk b1) @ s @ drop (unat (buf_used b1) + length s) (buf_blk b1)"
    define b2 where "b2 = (set_blk b1 m)\<lparr>buf_used := buf_used b1 + n, buf_free := buf_free b1 - n\<rparr>"
    have lm: "length m = length (buf_blk b1)"
      using fits I(1) by (simp add: m_def)
    have u2: "unat (buf_used b2) = unat (buf_used b1) + length s"
      using fits I un by (subst un [symmetric]) (simp add: b2_def unat_plus_size_t)
    have f2: "unat (buf_free b2) = unat (buf_free b1) - length s"
      using fits un by (simp add: b2_def unat_minus_size_t word_le_nat_alt)
    have blk2: "buf_blk b2 = m" using lm by (simp add: b2_def buf_blk_set_blk)
    have "buf_inv b2"
      using I lm u2 f2 fits by (simp add: buf_inv_def blk2) (simp add: b2_def)
    moreover have "buf_str b2 = buf_str b @ s"
      using I(5) by (simp add: buf_str_def [of b2] u2 blk2 m_def b1(2) [symmetric])
        (simp add: buf_str_def min_def)
    moreover have "php_http_buffer_append ra b s = Some (n, if s = [] then b1 else b2)"
      using rs False fits I un
      by (auto simp: php_http_buffer_append_def Let_def n_def [symmetric] mem_write_def m_def b2_def
          unat_eq_zero [symmetric])
    moreover have "n \<noteq> PHP_HTTP_BUFFER_NOMEM"
      using len un by (intro not_NOMEM) simp
    ultimately show ?thesis using b1 by (auto simp: n_def b2_def)
  qed
qed

lemma fix_returns:
  assumes inv: "buf_inv b"
  shows "\<exists>ok b'. php_http_buffer_fix ra b = Some (ok, b') \<and> buf_inv b' \<and> buf_str b' = buf_str b \<and>
           buf_size b' = buf_size b \<and> (ok \<longrightarrow> buf_blk b' ! unat (buf_used b') = NUL \<and>
           unat (buf_used b') < length (buf_blk b'))"
proof -
  have "\<exists>r b1. (if buf_free b < 1 then php_http_buffer_resize_ex ra b 1 1 else Some (0, b)) = Some (r, b1) \<and>
          buf_inv b1 \<and> buf_str b1 = buf_str b \<and> buf_size b1 = buf_size b \<and>
          (r \<noteq> PHP_HTTP_BUFFER_NOMEM \<longrightarrow> 1 \<le> buf_free b1)"
  proof (cases "buf_free b < 1")
    case True
    then show ?thesis using resize_ex_returns [OF inv, of 1 1] by auto
  next
    case False
    then show ?thesis using inv by (auto simp: word_le_nat_alt Suc_le_eq unat_gt_0)
  qed
  then obtain r b1 where rs: "(if buf_free b < 1 then php_http_buffer_resize_ex ra b 1 1 else Some (0, b)) = Some (r, b1)"
      and b1: "buf_inv b1" "buf_str b1 = buf_str b" "buf_size b1 = buf_size b"
      and room: "r \<noteq> PHP_HTTP_BUFFER_NOMEM \<longrightarrow> 1 \<le> buf_free b1" by blast
  show ?thesis
  proof (cases "r = PHP_HTTP_BUFFER_NOMEM")
    case True
    with rs b1 show ?thesis by (auto simp: php_http_buffer_fix_def)
  next
    case False
    note I = buf_invD [OF b1(1)]
    let ?u = "unat (buf_used b1)"
    have "1 \<le> unat (buf_free b1)"
      using room False by (simp add: word_le_nat_alt)
    then have fits: "?u + 1 \<le> length (buf_blk b1)" using I(1) by simp
    define m where "m = take ?u (buf_blk b1) @ [NUL] @ drop (?u + 1) (buf_blk b1)"
    have lm: "length m = length (buf_blk b1)" using fits by (simp add: m_def)
    have "buf_inv (set_blk b1 m)"
      using I lm by (simp add: buf_inv_def buf_blk_set_blk)
    moreover have "buf_str (set_blk b1 m) = buf_str b1"
      using fits by (simp add: buf_str_def buf_blk_set_blk lm) (simp add: m_def)
    moreover have "buf_blk (set_blk b1 m) ! ?u = NUL"
      using fits by (simp add: buf_blk_set_blk lm) (simp add: m_def nth_append)
    moreover have "php_http_buffer_fix ra b = Some (True, set_blk b1 m)"
      using rs False fits by (simp add: php_http_buffer_fix_def mem_write_def m_def)
    ultimately show ?thesis using b1 fits by (auto simp: buf_blk_set_blk lm)
  qed
qed

end

section \<open>Operations that do not allocate\<close>

lemma cut_returns:
  assumes inv: "buf_inv b" and nowrap: "unat off + unat len < 2 ^ 64"
  shows "\<exists>r b'. php_http_buffer_cut b off len = Some (r, b') \<and> buf_inv b' \<and>
           buf_size b' = buf_size b \<and>
           buf_str b' = take (unat off) (buf_str b) @ drop (unat off + unat len) (buf_str b) \<and>
           unat r = length (buf_str b) - length (buf_str b')"
proof (cases "buf_used b < off")
  case True
  then have "unat (buf_used b) < unat off" by (simp add: word_less_nat_alt)
  with inv have "take (unat off) (buf_str b) @ drop (unat off + unat len) (buf_str b) = buf_str b"
    by simp
  with True inv show ?thesis by (simp add: php_http_buffer_cut_def)
next
  case False
  note I = buf_invD [OF inv]
  let ?u = "unat (buf_used b)" and ?o = "unat off"
  define l where "l = (if buf_used b < off + len then buf_used b - off else len)"
  from False have ou: "?o \<le> ?u" by (simp add: word_less_nat_alt)
  have ul: "unat l = min (unat len) (?u - ?o)"
    using False ou nowrap
    by (auto simp: l_def word_less_nat_alt unat_plus_size_t unat_minus_size_t word_le_nat_alt min_def)
  then have lu: "?o + unat l \<le> ?u" using ou by simp
  have rest: "unat (buf_used b - l - off) = ?u - unat l - ?o"
    using lu by (simp add: unat_minus_size_t word_le_nat_alt)
  have used': "unat (buf_used b - l) = ?u - unat l"
    using lu by (simp add: unat_minus_size_t word_le_nat_alt)
  have free': "unat (buf_free b + l) = unat (buf_free b) + unat l"
    using lu I by (intro unat_plus_size_t) simp
  define m where "m = take ?o (buf_blk b) @ take (?u - unat l - ?o) (drop (?o + unat l) (buf_blk b)) @
                      drop (?o + (?u - unat l - ?o)) (buf_blk b)"
  define b' where "b' = (set_blk b m)\<lparr>buf_used := buf_used b - l, buf_free := buf_free b + l\<rparr>"
  have mv: "mem_move (buf_blk b) ?o (?o + unat l) (?u - unat l - ?o) = Some m"
    using lu I(5) unfolding m_def by (intro mem_move_down) simp_all
  have lm: "length m = length (buf_blk b)"
    using mv by (auto simp: mem_move_def dest!: mem_write_length split: bind_splits)
  have blk': "buf_blk b' = m" by (simp add: b'_def buf_blk_set_blk lm)
  have "buf_inv b'"
    using I lu lm used' free' by (simp add: buf_inv_def blk') (simp add: b'_def)
  moreover have str': "buf_str b' = take ?o (buf_str b) @ drop (?o + unat len) (buf_str b)"
  proof -
    let ?k = "?u - unat l - ?o"
    have "unat (buf_used b') = ?o + ?k" using lu used' by (simp add: b'_def)
    moreover have "length (take ?o (buf_blk b)) = ?o"
      "length (take ?k (drop (?o + unat l) (buf_blk b))) = ?k" using lu I(5) by simp_all
    ultimately have "buf_str b' = take ?o (buf_blk b) @ take ?k (drop (?o + unat l) (buf_blk b))"
      unfolding buf_str_def [of b'] blk' m_def by (simp only: take_append diff_add_inverse) simp
    also have "take (?u - unat l - ?o) (drop (?o + unat l) (buf_blk b)) = drop (?o + unat len) (buf_str b)"
      using ou by (cases "unat len \<le> ?u - ?o") (auto simp: ul buf_str_def drop_take min_def add.commute)
    finally show ?thesis using ou by (simp add: buf_str_def min_def)
  qed
  moreover have "php_http_buffer_cut b off len = Some (l, b')"
    using False mv by (simp add: php_http_buffer_cut_def l_def [symmetric] Let_def rest b'_def)
  moreover have "unat l = length (buf_str b) - length (buf_str b')"
    using \<open>buf_inv b'\<close> inv used' lu by (simp add: b'_def)
  ultimately show ?thesis by (auto simp: b'_def)
qed

lemma reset_spec:
  "buf_inv b \<Longrightarrow> buf_inv (php_http_buffer_reset b) \<and> buf_str (php_http_buffer_reset b) = []"
proof -
  assume inv: "buf_inv b"
  note I = buf_invD [OF this]
  have "unat (buf_free b + buf_used b) = unat (buf_free b) + unat (buf_used b)"
    using I(6,7) by (intro unat_plus_size_t) simp
  with I show ?thesis
    unfolding buf_inv_def php_http_buffer_reset_def buf_str_def by simp
qed

lemma dtor_spec:
  "buf_inv b \<Longrightarrow> buf_inv (php_http_buffer_dtor b) \<and> buf_str (php_http_buffer_dtor b) = []"
  by (simp add: buf_inv_def php_http_buffer_dtor_def buf_str_def buf_blk_def)

text \<open>Accounting publishes bytes that were written behind the used part.\<close>

lemma account_spec:
  assumes "buf_inv b" "n \<le> buf_free b"
  shows "\<exists>b'. php_http_buffer_account b n = Some b' \<and> buf_inv b' \<and>
           buf_str b' = buf_str b @ take (unat n) (drop (unat (buf_used b)) (buf_blk b))"
proof -
  note I = buf_invD [OF assms(1)]
  have "unat n \<le> unat (buf_free b)" using assms(2) by (simp add: word_le_nat_alt)
  then have "unat (buf_used b + n) = unat (buf_used b) + unat n"
    using I by (intro unat_plus_size_t) simp
  then show ?thesis
    using assms I \<open>unat n \<le> unat (buf_free b)\<close>
    by (auto simp: php_http_buffer_account_def buf_inv_def buf_str_def unat_minus_size_t take_add)
qed

lemma data_spec: "buf_inv b \<Longrightarrow> php_http_buffer_data b = Some (buf_str b @ [NUL], buf_used b)"
  by (auto simp: php_http_buffer_data_def buf_inv_def buf_str_def buf_blk_def mem_read_def
      split: option.splits)

section \<open>The byte-string interface\<close>

text \<open>
  Clients of the buffer see a byte string: \<open>inv\<close> and \<open>str\<close> abstract the representation, the laws
  say what each operation does to the string and that it returns (so that it neither loops nor
  leaves its block). An append may report that there is no memory, and then changes nothing.
\<close>

fun append_all :: "('b \<Rightarrow> bytes \<Rightarrow> (size_t \<times> 'b) option) \<Rightarrow> 'b \<Rightarrow> bytes list \<Rightarrow> (bool \<times> 'b) option" where
  "append_all app b [] = Some (True, b)"
| "append_all app b (s # ss) = do {
     (r, b) \<leftarrow> app b s;
     (ok, b) \<leftarrow> append_all app b ss;
     Some (r \<noteq> PHP_HTTP_BUFFER_NOMEM \<and> ok, b)
   }"

locale byte_buffer =
  fixes binv :: "'b \<Rightarrow> bool" and bstr :: "'b \<Rightarrow> bytes"
    and bappend :: "'b \<Rightarrow> bytes \<Rightarrow> (size_t \<times> 'b) option"
    and bcut :: "'b \<Rightarrow> size_t \<Rightarrow> size_t \<Rightarrow> (size_t \<times> 'b) option"
    and bfix :: "'b \<Rightarrow> (bool \<times> 'b) option"
    and breset :: "'b \<Rightarrow> 'b"
  assumes append_law: "binv b \<Longrightarrow> length s < 2 ^ 62 \<Longrightarrow> \<exists>r b'. bappend b s = Some (r, b') \<and> binv b' \<and>
        (r = PHP_HTTP_BUFFER_NOMEM \<and> bstr b' = bstr b \<or>
         r \<noteq> PHP_HTTP_BUFFER_NOMEM \<and> bstr b' = bstr b @ s)"
    and cut_law: "binv b \<Longrightarrow> unat off + unat len < 2 ^ 64 \<Longrightarrow> \<exists>r b'. bcut b off len = Some (r, b') \<and>
        binv b' \<and> bstr b' = take (unat off) (bstr b) @ drop (unat off + unat len) (bstr b)"
    and fix_law: "binv b \<Longrightarrow> \<exists>ok b'. bfix b = Some (ok, b') \<and> binv b' \<and> bstr b' = bstr b"
    and reset_law: "binv b \<Longrightarrow> binv (breset b) \<and> bstr (breset b) = []"
    and length_law: "binv b \<Longrightarrow> length (bstr b) < 2 ^ 63"
begin

lemma append_all_returns:
  assumes "binv b" "\<forall>s\<in>set ss. length s < 2 ^ 62"
  shows "\<exists>ok b'. append_all bappend b ss = Some (ok, b') \<and> binv b' \<and>
           (ok \<longrightarrow> bstr b' = bstr b @ concat ss)"
  using assms
proof (induction ss arbitrary: b)
  case Nil
  then show ?case by auto
next
  case (Cons s ss)
  obtain r b1 where b1: "bappend b s = Some (r, b1)" "binv b1"
      "r = PHP_HTTP_BUFFER_NOMEM \<and> bstr b1 = bstr b \<or>
       r \<noteq> PHP_HTTP_BUFFER_NOMEM \<and> bstr b1 = bstr b @ s"
    using append_law [of b s] Cons.prems by auto
  moreover obtain ok b2 where "append_all bappend b1 ss = Some (ok, b2)" "binv b2"
      "ok \<longrightarrow> bstr b2 = bstr b1 @ concat ss"
    using Cons.IH [OF b1(2)] Cons.prems by auto
  ultimately show ?case by auto
qed

lemma cut_front:
  assumes "binv b" "n \<le> length (bstr b)"
  shows "\<exists>r b'. bcut b 0 (of_nat n) = Some (r, b') \<and> binv b' \<and> bstr b' = drop n (bstr b)"
proof -
  have "n < 2 ^ 64" using assms(2) length_law [OF assms(1)] by simp
  then have "unat (of_nat n :: size_t) = n" by (rule unat_of_nat_size_t)
  with cut_law [OF assms(1), of 0 "of_nat n"] \<open>n < 2 ^ 64\<close> show ?thesis by auto
qed

end

sublocale allocator \<subseteq> zb: byte_buffer buf_inv buf_str "php_http_buffer_append ra"
  php_http_buffer_cut "php_http_buffer_fix ra" php_http_buffer_reset
proof unfold_locales
  fix b :: php_http_buffer and s :: bytes and off len :: size_t
  assume inv: "buf_inv b"
  show "length s < 2 ^ 62 \<Longrightarrow> \<exists>r b'. php_http_buffer_append ra b s = Some (r, b') \<and> buf_inv b' \<and>
      (r = PHP_HTTP_BUFFER_NOMEM \<and> buf_str b' = buf_str b \<or>
       r \<noteq> PHP_HTTP_BUFFER_NOMEM \<and> buf_str b' = buf_str b @ s)"
    using append_returns [OF inv, of s] by blast
  show "unat off + unat len < 2 ^ 64 \<Longrightarrow> \<exists>r b'. php_http_buffer_cut b off len = Some (r, b') \<and>
      buf_inv b' \<and> buf_str b' = take (unat off) (buf_str b) @ drop (unat off + unat len) (buf_str b)"
    using cut_returns [OF inv, of off len] by blast
  show "\<exists>ok b'. php_http_buffer_fix ra b = Some (ok, b') \<and> buf_inv b' \<and> buf_str b' = buf_str b"
    using fix_returns [OF inv] by blast
  show "buf_inv (php_http_buffer_reset b) \<and> buf_str (php_http_buffer_reset b) = []"
    by (rule reset_spec [OF inv])
  show "length (buf_str b) < 2 ^ 63"
    using buf_invD [OF inv] inv by simp
qed

section \<open>Chunked output\<close>

context allocator
begin

text \<open>With the data stored, one round hands out the first \<open>n\<close> bytes or nothing.\<close>

lemma chunk_buffer_step:
  assumes st: "(if dat \<noteq> [] then php_http_buffer_append ra b dat else Some (0, b)) = Some (r, b1)"
    and inv: "buf_inv b1" and n: "n \<noteq> 0"
  shows "\<exists>b2. php_http_buffer_chunk_buffer ra (Some b) dat n =
           (if unat n \<le> length (buf_str b1)
            then Some (Some (take (unat n) (buf_str b1)), n, Some b2)
            else Some (None, 0, Some b1)) \<and> buf_inv b2 \<and> buf_str b2 = drop (unat n) (buf_str b1)"
proof -
  note I = buf_invD [OF inv]
  obtain c b2 where cut: "php_http_buffer_cut b1 0 n = Some (c, b2)" "buf_inv b2"
      "buf_str b2 = drop (unat n) (buf_str b1)"
    using cut_returns [OF inv, of 0 n] unat_less_exp64 [of n] by auto
  have rd: "mem_read (buf_blk b1) 0 (unat n) = Some (take (unat n) (buf_str b1))"
    if "unat n \<le> length (buf_str b1)"
  proof -
    from that inv have "unat n \<le> unat (buf_used b1)" by simp
    with I(5) show ?thesis by (simp add: mem_read_def buf_str_def min_def)
  qed
  have le: "n \<le> buf_used b1 \<longleftrightarrow> unat n \<le> length (buf_str b1)"
    using inv by (simp add: word_le_nat_alt)
  have "php_http_buffer_chunk_buffer ra (Some b) dat n =
          (if unat n \<le> length (buf_str b1)
           then Some (Some (take (unat n) (buf_str b1)), n, Some b2) else Some (None, 0, Some b1))"
    using n cut rd by (simp add: php_http_buffer_chunk_buffer_def st le)
  with cut show ?thesis by blast
qed

text \<open>The loop with an invariant of the callback, which may speak of the chunks it has seen.\<close>

lemma chunked_output_loop_keeps:
  assumes st: "(if dat \<noteq> [] then php_http_buffer_append ra b dat else Some (0, b)) = Some (r, b1)"
    and inv: "buf_inv b1" and n: "n \<noteq> 0" and I: "I x ds"
    and cb: "\<And>x ds c. I x ds \<Longrightarrow> length c = unat n \<Longrightarrow> fst (cb x c) \<noteq> PHP_HTTP_BUFFER_PASS0 \<and> I (snd (cb x c)) (ds @ [c])"
  shows "\<exists>b' cs x'. chunked_output_loop ra cb n (Some b) dat x k = Some (k + of_nat (length cs), Some b', x') \<and>
           I x' (ds @ cs) \<and> buf_inv b' \<and> concat cs @ buf_str b' = buf_str b1 \<and> (\<forall>c\<in>set cs. length c = unat n) \<and>
           length (buf_str b') < unat n"
  using st inv I
proof (induction "length (buf_str b1)" arbitrary: b b1 dat r x k ds rule: less_induct)
  case less
  obtain b2 where b2: "php_http_buffer_chunk_buffer ra (Some b) dat n =
         (if unat n \<le> length (buf_str b1)
          then Some (Some (take (unat n) (buf_str b1)), n, Some b2) else Some (None, 0, Some b1))"
      "buf_inv b2" "buf_str b2 = drop (unat n) (buf_str b1)"
    using chunk_buffer_step [OF less.prems(1,2) n] by blast
  show ?case
  proof (cases "unat n \<le> length (buf_str b1)")
    case False
    then show ?thesis
      using b2(1) less.prems
      by (intro exI [of _ b1] exI [of _ "[]"] exI [of _ x]) (simp add: chunked_output_loop.simps)
  next
    case True
    let ?c = "take (unat n) (buf_str b1)"
    have c: "fst (cb x ?c) \<noteq> PHP_HTTP_BUFFER_PASS0" "I (snd (cb x ?c)) (ds @ [?c])"
      using cb [OF less.prems(3), of ?c] True by simp_all
    have n0: "0 < unat n" using n by (simp add: unat_gt_0)
    have "length (buf_str b2) < length (buf_str b1)" using True n0 b2(3) by simp
    from less.hyps [OF this, of "[]" b2 0 "snd (cb x ?c)" "ds @ [?c]" "k + 1"] b2(2) c(2)
    obtain b' cs x' where IH: "chunked_output_loop ra cb n (Some b2) [] (snd (cb x ?c)) (k + 1) =
           Some (k + 1 + of_nat (length cs), Some b', x')" "I x' ((ds @ [?c]) @ cs)"
        "buf_inv b'" "concat cs @ buf_str b' = buf_str b2" "\<forall>c\<in>set cs. length c = unat n"
        "length (buf_str b') < unat n" by auto
    have "chunked_output_loop ra cb n (Some b) dat x k =
            chunked_output_loop ra cb n (Some b2) [] (snd (cb x ?c)) (k + 1)"
      using b2(1) True n c(1)
      by (subst chunked_output_loop.simps) (auto split: prod.splits)
    moreover have "?c @ concat cs @ buf_str b' = buf_str b1"
      using IH(4) b2(3) by simp
    ultimately show ?thesis
      using IH True
      by (intro exI [of _ b'] exI [of _ "?c # cs"] exI [of _ x']) (auto simp: add.assoc)
  qed
qed

lemma chunked_output_loop_returns:
  assumes st: "(if dat \<noteq> [] then php_http_buffer_append ra b dat else Some (0, b)) = Some (r, b1)"
    and inv: "buf_inv b1" and n: "n \<noteq> 0" and cb: "\<And>x c. fst (cb x c) \<noteq> PHP_HTTP_BUFFER_PASS0"
  shows "\<exists>b' cs. chunked_output_loop ra cb n (Some b) dat x k =
           Some (k + of_nat (length cs), Some b', fold (\<lambda>c x. snd (cb x c)) cs x) \<and> buf_inv b' \<and>
           concat cs @ buf_str b' = buf_str b1 \<and> (\<forall>c\<in>set cs. length c = unat n) \<and>
           length (buf_str b') < unat n"
  using chunked_output_loop_keeps [OF st inv n, where cb = cb and x = x and k = k and ds = "[]"
      and I = "\<lambda>x' cs. x' = fold (\<lambda>c x. snd (cb x c)) cs x"] cb by fastforce

text \<open>A request the memory manager may not refuse is never refused for lack of address space.\<close>

lemma append_succeeds:
  assumes inv: "buf_inv b" and len: "length (buf_str b) < 2 ^ 60" "length s < 2 ^ 60"
    and mm: "\<And>m n. unat n < 2 ^ 63 \<Longrightarrow> ra m n \<noteq> None"
  shows "\<exists>b'. php_http_buffer_append ra b s = Some (of_nat (length s), b') \<and> buf_inv b' \<and> buf_str b' = buf_str b @ s"
proof -
  note I = buf_invD [OF inv]
  define n :: size_t where "n = of_nat (length s)"
  have un: "unat n = length s" using len by (simp add: n_def unat_of_nat)
  have "fst (the (php_http_buffer_resize ra b n)) \<noteq> PHP_HTTP_BUFFER_NOMEM" if lt: "buf_free b < n"
  proof -
    have fl: "unat (buf_free b) < unat n" using lt by (simp add: word_less_nat_alt)
    with resize_loop_returns [of "buf_size b" "buf_free b" n] I un len
    obtain r where r: "resize_loop (buf_size b) (buf_free b) n = Some r" "unat r \<le> max (unat (buf_size b)) (2 * unat n)"
      by auto
    have rl: "unat r < 2 ^ 62" using r(2) I(4) un len by (simp add: max_def split: if_splits)
    have used: "unat (buf_used b) < 2 ^ 60" using len inv by simp
    have "unat (buf_used b + buf_free b + r) = unat (buf_used b) + unat (buf_free b) + unat r"
      using used fl un len rl by (subst unat_plus_size_t; simp add: unat_plus_size_t)
    then have "unat (buf_used b + buf_free b + r) < 2 ^ 63" using used fl un len rl by simp
    then obtain m where "ra (buf_data b) (buf_used b + buf_free b + r) = Some m" using mm by blast
    with lt r(1) not_NOMEM [of r] rl show ?thesis by (simp add: php_http_buffer_resize_ex_def)
  qed
  moreover obtain r b' where app: "php_http_buffer_append ra b s = Some (r, b')" "buf_inv b'"
      "r = PHP_HTTP_BUFFER_NOMEM \<and> b' = b \<or> r = of_nat (length s) \<and> r \<noteq> PHP_HTTP_BUFFER_NOMEM \<and> buf_str b' = buf_str b @ s"
    using append_returns [OF inv, of s] len by auto
  moreover have "r \<noteq> PHP_HTTP_BUFFER_NOMEM"
    if "buf_free b < n \<Longrightarrow> fst (the (php_http_buffer_resize ra b n)) \<noteq> PHP_HTTP_BUFFER_NOMEM"
  proof
    assume r: "r = PHP_HTTP_BUFFER_NOMEM"
    have "n \<noteq> PHP_HTTP_BUFFER_NOMEM" using un len by (intro not_NOMEM) simp
    with app(1) r that show False
      by (auto simp: php_http_buffer_append_def Let_def n_def [symmetric] PHP_HTTP_BUFFER_NOMEM_def
          split: if_splits bind_splits)
  qed
  ultimately show ?thesis by blast
qed

end

section \<open>Results\<close>

lemma buf_inv_init:
  "buf_inv (php_http_buffer_init ra)" "buf_str (php_http_buffer_init ra) = []"
  by (simp_all add: php_http_buffer_init_def php_http_buffer_init_ex_def buf_inv_def buf_blk_def
      buf_str_def PHP_HTTP_BUFFER_DEFAULT_SIZE_def)

text \<open>
  Resizing terminates and makes room: for any well-formed buffer and any request below
  \<open>2^62\<close> bytes the doubling loop of \<open>php_http_buffer_resize_ex\<close> ends; the buffer keeps its
  contents and its invariant, and has at least the requested room unless the memory manager refused,
  in which case it is unchanged.
\<close>

theorem buffer_resize_makes_room:
  assumes "allocator ra" "buf_inv b" "unat len < 2 ^ 62" "unat override_size < 2 ^ 62"
  shows "\<exists>r b'. php_http_buffer_resize_ex ra b len override_size = Some (r, b') \<and> buf_inv b' \<and>
           buf_str b' = buf_str b \<and>
           (r = PHP_HTTP_BUFFER_NOMEM \<and> b' = b \<or>
            r \<noteq> PHP_HTTP_BUFFER_NOMEM \<and> len \<le> buf_free b')"
  using allocator.resize_ex_returns [OF assms] by blast

theorem buffer_resize_makes_room_witness:
  "\<exists>r b'. php_http_buffer_resize_ex (zend_mm 4096) (php_http_buffer_init (zend_mm 4096)) 1000 0 = Some (r, b') \<and>
     buf_inv b' \<and> buf_str b' = buf_str (php_http_buffer_init (zend_mm 4096)) \<and>
     (r = PHP_HTTP_BUFFER_NOMEM \<and> b' = php_http_buffer_init (zend_mm 4096) \<or>
      r \<noteq> PHP_HTTP_BUFFER_NOMEM \<and> 1000 \<le> buf_free b')"
  by (rule buffer_resize_makes_room [OF zmm.allocator_axioms buf_inv_init(1)]) simp_all

text \<open>
  C35. Appending refines concatenation and is memory safe: \<open>php_http_buffer_append\<close> returns (it
  neither loops nor writes outside the block), keeps the invariant, and either adds exactly the given
  bytes behind the contents and reports their number, or reports \<open>NOMEM\<close> and changes nothing.
\<close>

theorem buffer_append_refines_concat:
  assumes "allocator ra" "buf_inv b" "length s < 2 ^ 62"
  shows "\<exists>r b'. php_http_buffer_append ra b s = Some (r, b') \<and> buf_inv b' \<and>
           (r = PHP_HTTP_BUFFER_NOMEM \<and> b' = b \<or>
            r = of_nat (length s) \<and> r \<noteq> PHP_HTTP_BUFFER_NOMEM \<and> buf_str b' = buf_str b @ s)"
  using allocator.append_returns [OF assms] by blast

theorem buffer_append_refines_concat_witness:
  "\<exists>r b'. php_http_buffer_append (zend_mm 4096) (php_http_buffer_init (zend_mm 4096)) ''HTTP'' = Some (r, b') \<and>
     buf_inv b' \<and>
     (r = PHP_HTTP_BUFFER_NOMEM \<and> b' = php_http_buffer_init (zend_mm 4096) \<or>
      r = of_nat (length ''HTTP'') \<and> r \<noteq> PHP_HTTP_BUFFER_NOMEM \<and>
      buf_str b' = buf_str (php_http_buffer_init (zend_mm 4096)) @ ''HTTP'')"
  by (rule buffer_append_refines_concat [OF zmm.allocator_axioms buf_inv_init(1)]) simp

text \<open>
  C36. Cutting refines the removal of a slice and is memory safe: if the sum of offset and length does
  not wrap, \<open>php_http_buffer_cut\<close> stays inside the block, keeps the invariant, removes exactly the
  bytes of the slice that lie in the contents and returns how many these are.
\<close>

theorem buffer_cut_refines_removal:
  assumes "buf_inv b" "unat off + unat len < 2 ^ 64"
  shows "\<exists>r b'. php_http_buffer_cut b off len = Some (r, b') \<and> buf_inv b' \<and>
           buf_str b' = take (unat off) (buf_str b) @ drop (unat off + unat len) (buf_str b) \<and>
           unat r = length (buf_str b) - length (buf_str b')"
  using cut_returns [OF assms] by blast

definition sample_buffer :: php_http_buffer where
  "sample_buffer = \<lparr>buf_data = Some ''abcdef??'', buf_used = 6, buf_free = 2, buf_size = 256, buf_pmem = False\<rparr>"

lemma sample_buffer_inv: "buf_inv sample_buffer" "buf_str sample_buffer = ''abcdef''"
  by (simp_all add: sample_buffer_def buf_inv_def buf_blk_def buf_str_def)

theorem buffer_cut_refines_removal_witness:
  "\<exists>r b'. php_http_buffer_cut sample_buffer 1 3 = Some (r, b') \<and> buf_inv b' \<and>
     buf_str b' = take (unat (1 :: size_t)) (buf_str sample_buffer) @
       drop (unat (1 :: size_t) + unat (3 :: size_t)) (buf_str sample_buffer) \<and>
     unat r = length (buf_str sample_buffer) - length (buf_str b')"
  by (rule buffer_cut_refines_removal [OF sample_buffer_inv(1)]) simp

text \<open>
  Chunked output delivers everything, in order, in chunks of the requested size: when the data
  could be stored and the receiving callback never fails, \<open>php_http_buffer_chunked_output\<close> returns;
  the chunks it passed on all have length \<open>n\<close>, they and the bytes kept back concatenate to the old
  contents followed by the data, fewer than \<open>n\<close> bytes are kept back, and the result counts the
  chunks.
\<close>

theorem chunked_output_delivers:
  assumes "allocator ra" "buf_inv b" "length dat < 2 ^ 62" "n \<noteq> 0"
    "\<And>x c. fst (cb x c) \<noteq> PHP_HTTP_BUFFER_PASS0"
    "fst (the (php_http_buffer_append ra b dat)) \<noteq> PHP_HTTP_BUFFER_NOMEM"
  shows "\<exists>b' cs. php_http_buffer_chunked_output ra (Some b) dat n cb x =
           Some (of_nat (length cs), Some b', fold (\<lambda>c x. snd (cb x c)) cs x) \<and> buf_inv b' \<and>
           concat cs @ buf_str b' = buf_str b @ dat \<and> (\<forall>c\<in>set cs. length c = unat n) \<and>
           length (buf_str b') < unat n"
proof -
  obtain r b1 where b1: "php_http_buffer_append ra b dat = Some (r, b1)" "buf_inv b1" "buf_str b1 = buf_str b @ dat"
    using allocator.append_returns [OF assms(1-3)] assms(6) by auto
  define r' b1' where "r' = (if dat \<noteq> [] then r else 0)" and "b1' = (if dat \<noteq> [] then b1 else b)"
  have st: "(if dat \<noteq> [] then php_http_buffer_append ra b dat else Some (0, b)) = Some (r', b1')"
    using b1(1) by (simp add: r'_def b1'_def)
  have "buf_inv b1'" "buf_str b1' = buf_str b @ dat"
    using b1 assms(2) by (simp_all add: b1'_def)
  with allocator.chunked_output_loop_returns [OF assms(1) st _ assms(4,5), where x = x and k = 0] show ?thesis
    by (simp add: php_http_buffer_chunked_output_def)
qed

theorem chunked_output_delivers_witness:
  "\<exists>b' cs. php_http_buffer_chunked_output (zend_mm 4096) (Some sample_buffer) ''g'' 2
       (\<lambda>x c. (1, x @ [c])) [] =
     Some (of_nat (length cs), Some b', fold (\<lambda>c x. snd (1 :: size_t, x @ [c])) cs []) \<and>
     buf_inv b' \<and> concat cs @ buf_str b' = buf_str sample_buffer @ ''g'' \<and>
     (\<forall>c\<in>set cs. length c = unat (2 :: size_t)) \<and> length (buf_str b') < unat (2 :: size_t)"
proof (rule chunked_output_delivers [OF zmm.allocator_axioms sample_buffer_inv(1)])
  show "fst (the (php_http_buffer_append (zend_mm 4096) sample_buffer ''g'')) \<noteq> PHP_HTTP_BUFFER_NOMEM"
    by (simp add: php_http_buffer_append_def sample_buffer_def mem_write_def buf_blk_def set_blk_def
        PHP_HTTP_BUFFER_NOMEM_def)
qed (simp_all add: PHP_HTTP_BUFFER_NOMEM_def)

end
