(* ===== verification/Http_Misc.thy ===== *)
theory Http_Misc
  imports Http_Prelude
begin

text \<open>
  The string utilities of \<open>php_http_misc.c\<close> and \<open>php_http_misc.h\<close>: locating line ends, matching
  words, choosing among strings, and the canonical spelling of header names.
\<close>

section \<open>Line ends\<close>

definition is_eol :: "char \<Rightarrow> bool" where
  "is_eol c \<longleftrightarrow> c = CR \<or> c = LF"

text \<open>
  Position and length of the first line end of a C string (\<open>php_http_locate_eol\<close>). The argument
  is the memory at the pointer.
\<close>

definition php_http_locate_eol :: "bytes \<Rightarrow> (nat \<times> nat) option" where
  "php_http_locate_eol line =
     (case index_of is_eol (cstr line) of
        None \<Rightarrow> None
      | Some i \<Rightarrow> Some (i, if rd line i = CR \<and> rd line (Suc i) = LF then 2 else 1))"

text \<open>
  The same on \<open>len\<close> bytes that may hold NUL (\<open>php_http_locate_bin_eol\<close>). The code looks at the
  byte after a carriage return even when that is the byte behind the data: it is the argument
  \<open>past\<close>.
\<close>

definition php_http_locate_bin_eol :: "bytes \<Rightarrow> char \<Rightarrow> (nat \<times> nat) option" where
  "php_http_locate_bin_eol bin past =
     (case index_of is_eol bin of
        None \<Rightarrow> None
      | Some i \<Rightarrow> Some (i, if bin ! i = CR \<and> rd (bin @ [past]) (Suc i) = LF then 2 else 1))"

lemma locate_bin_eol_None: "php_http_locate_bin_eol bin past = None \<longleftrightarrow> (\<forall>c\<in>set bin. \<not> is_eol c)"
  using index_of_None [of is_eol bin]
  by (cases "index_of is_eol bin") (auto simp: php_http_locate_bin_eol_def)

lemma locate_bin_eol_SomeD:
  assumes "php_http_locate_bin_eol bin past = Some (i, l)"
  shows "i < length bin" "is_eol (bin ! i)" "\<forall>j<i. \<not> is_eol (bin ! j)" "0 < l" "l \<le> 2"
  using assms index_of_SomeD [of is_eol bin]
  by (auto simp: php_http_locate_bin_eol_def split: option.splits if_splits)

text \<open>What is left behind the line end does not depend on the byte behind the data.\<close>

lemma locate_bin_eol_past:
  assumes "php_http_locate_bin_eol bin p = Some (i, l)"
  shows "\<exists>l'. php_http_locate_bin_eol bin q = Some (i, l') \<and> drop (i + l') bin = drop (i + l) bin"
proof (cases "Suc i < length bin")
  case True
  with assms show ?thesis
    by (auto simp: php_http_locate_bin_eol_def rd_def nth_append split: option.splits)
next
  case False
  with locate_bin_eol_SomeD(1) [OF assms] have len: "length bin = Suc i" by simp
  from assms have idx: "index_of is_eol bin = Some i"
    by (auto simp: php_http_locate_bin_eol_def split: option.splits)
  then obtain l' where l': "php_http_locate_bin_eol bin q = Some (i, l')"
    by (simp add: php_http_locate_bin_eol_def)
  have "0 < l" "0 < l'" using locate_bin_eol_SomeD(4) assms l' by blast+
  then have "drop (i + l') bin = []" "drop (i + l) bin = []" using len by simp_all
  with l' show ?thesis by simp
qed

lemma locate_bin_eol_append:
  assumes "php_http_locate_bin_eol a p = Some (i, l)"
  shows "\<exists>l'. php_http_locate_bin_eol (a @ b) q = Some (i, l')"
  using assms by (auto simp: php_http_locate_bin_eol_def index_of_append split: option.splits)

lemma locate_bin_eol_line:
  assumes "\<forall>c\<in>set line. \<not> is_eol c"
  shows "php_http_locate_bin_eol (line @ CR # LF # r) past = Some (length line, 2)"
    and "php_http_locate_bin_eol (line @ LF # r) past = Some (length line, 1)"
  using assms
  by (simp_all add: php_http_locate_bin_eol_def index_of_split is_eol_def rd_def nth_append)

section \<open>Matching\<close>

definition PHP_HTTP_MATCH_LOOSE :: "32 word" where "PHP_HTTP_MATCH_LOOSE = 0"
definition PHP_HTTP_MATCH_CASE :: "32 word" where "PHP_HTTP_MATCH_CASE = 0x01"
definition PHP_HTTP_MATCH_WORD :: "32 word" where "PHP_HTTP_MATCH_WORD = 0x10"
definition PHP_HTTP_MATCH_FULL :: "32 word" where "PHP_HTTP_MATCH_FULL = 0x20"

lemmas match_flags = PHP_HTTP_MATCH_LOOSE_def PHP_HTTP_MATCH_CASE_def PHP_HTTP_MATCH_WORD_def
  PHP_HTTP_MATCH_FULL_def

definition php_http_match :: "bytes option \<Rightarrow> bytes option \<Rightarrow> 32 word \<Rightarrow> bool" where
  "php_http_match haystack_str needle_str flags =
     (case (haystack_str, needle_str) of
        (Some haystack, Some needle) \<Rightarrow>
          if flags AND PHP_HTTP_MATCH_FULL \<noteq> 0
          then (if flags AND PHP_HTTP_MATCH_CASE \<noteq> 0 then haystack = needle
                else strcaseeq haystack needle)
          else (case (if flags AND PHP_HTTP_MATCH_CASE \<noteq> 0 then memnstr haystack needle
                      else memnstr_by tolower haystack needle) of
                  None \<Rightarrow> False
                | Some found \<Rightarrow>
                    flags AND PHP_HTTP_MATCH_WORD = 0 \<or>
                    ((found = 0 \<or> \<not> isalnum (haystack ! (found - 1))) \<and>
                     (rd haystack (found + length needle) = NUL \<or>
                      \<not> isalnum (rd haystack (found + length needle)))))
      | _ \<Rightarrow> False)"

text \<open>\<open>php_http_select_str\<close>: index of the first candidate equal up to case, or \<open>-1\<close>.\<close>

definition php_http_select_str :: "bytes option \<Rightarrow> bytes list \<Rightarrow> int" where
  "php_http_select_str cmp argv =
     (case cmp of None \<Rightarrow> -1
      | Some s \<Rightarrow> (case index_of (strcaseeq s) argv of None \<Rightarrow> -1 | Some i \<Rightarrow> int i))"

section \<open>Canonical header names\<close>

fun pretty_key_loop :: "bool \<Rightarrow> bool \<Rightarrow> bool \<Rightarrow> bytes \<Rightarrow> bytes" where
  "pretty_key_loop uctitle xhyphen wasalpha [] = []"
| "pretty_key_loop uctitle xhyphen wasalpha (c # cs) =
     (if isalpha c
      then (if wasalpha then tolower c else if uctitle then toupper c else tolower c)
             # pretty_key_loop uctitle xhyphen True cs
      else (if xhyphen \<and> c = CHR ''_'' then CHR ''-'' else c)
             # pretty_key_loop uctitle xhyphen False cs)"

definition php_http_pretty_key :: "bytes \<Rightarrow> bool \<Rightarrow> bool \<Rightarrow> bytes" where
  "php_http_pretty_key key uctitle xhyphen =
     (case key of [] \<Rightarrow> []
      | c # cs \<Rightarrow> (if isalpha c then (if uctitle then toupper c else tolower c) else c)
                   # pretty_key_loop uctitle xhyphen (isalpha c) cs)"

text \<open>The spelling a name stands for: lower case, underscores behind the first byte as hyphens.\<close>

definition hyphenate :: "bool \<Rightarrow> char \<Rightarrow> char" where
  "hyphenate xhyphen c = (if xhyphen \<and> c = CHR ''_'' then CHR ''-'' else c)"

definition key_name :: "bool \<Rightarrow> bytes \<Rightarrow> bytes" where
  "key_name xhyphen key =
     (case key of [] \<Rightarrow> [] | c # cs \<Rightarrow> tolower c # map (tolower \<circ> hyphenate xhyphen) cs)"

lemma isalpha_hyphenate [simp]: "isalpha (hyphenate x c) = isalpha c"
  by (auto simp: hyphenate_def ctype_simps)

lemma hyphenate_alpha: "isalpha c \<Longrightarrow> hyphenate x c = c"
  by (auto simp: hyphenate_def ctype_simps)

lemma hyphenate_idem [simp]: "hyphenate x (hyphenate x c) = hyphenate x c"
  by (simp add: hyphenate_def)

lemma length_pretty_key_loop [simp]: "length (pretty_key_loop u x w cs) = length cs"
  by (induction cs arbitrary: w) auto

lemma length_pretty_key [simp]: "length (php_http_pretty_key key u x) = length key"
  by (simp add: php_http_pretty_key_def split: list.splits)

lemma lower_pretty_key_loop:
  "map tolower (pretty_key_loop u x w cs) = map (tolower \<circ> hyphenate x) cs"
  by (induction cs arbitrary: w) (auto simp: hyphenate_def ctype_simps)

lemma pretty_key_loop_cong:
  assumes "map (tolower \<circ> hyphenate x) cs = map (tolower \<circ> hyphenate x) ds"
  shows "pretty_key_loop u x w cs = pretty_key_loop u x w ds"
  using assms
proof (induction cs arbitrary: ds w)
  case Nil
  then show ?case by simp
next
  case (Cons c cs)
  then obtain d ds' where ds: "ds = d # ds'" by (cases ds) auto
  with Cons.prems have eq: "tolower (hyphenate x c) = tolower (hyphenate x d)"
    and rest: "map (tolower \<circ> hyphenate x) cs = map (tolower \<circ> hyphenate x) ds'"
    by (auto simp: comp_def)
  have al: "isalpha c = isalpha d" by (metis eq isalpha_hyphenate isalpha_tolower)
  show ?case
  proof (cases "isalpha c")
    case True
    with al eq have low: "tolower c = tolower d" by (simp add: hyphenate_alpha)
    have up: "toupper c = toupper d" using low by (rule toupper_eq_if_tolower_eq)
    from True al Cons.IH [OF rest, of True] show ?thesis
      by (simp add: ds low up)
  next
    case False
    with al eq have "hyphenate x c = hyphenate x d" by (simp add: tolower_nonalpha)
    then have "(if x \<and> c = CHR ''_'' then CHR ''-'' else c) = (if x \<and> d = CHR ''_'' then CHR ''-'' else d)"
      by (simp only: hyphenate_def)
    with False al Cons.IH [OF rest, of False] show ?thesis
      by (simp only: ds pretty_key_loop.simps if_False)
  qed
qed

lemma lower_pretty_key: "map tolower (php_http_pretty_key key u x) = key_name x key"
  by (auto simp: php_http_pretty_key_def key_name_def lower_pretty_key_loop split: list.splits)

lemma pretty_key_cong:
  assumes "key_name x a = key_name x b"
  shows "php_http_pretty_key a u x = php_http_pretty_key b u x"
proof (cases a)
  case Nil
  with assms show ?thesis by (simp add: key_name_def split: list.splits)
next
  case (Cons c cs)
  with assms obtain d ds where b: "b = d # ds" and eq: "tolower c = tolower d"
    and rest: "map (tolower \<circ> hyphenate x) cs = map (tolower \<circ> hyphenate x) ds"
    by (auto simp: key_name_def split: list.splits)
  have al: "isalpha c = isalpha d" by (metis eq isalpha_tolower)
  have up: "toupper c = toupper d" using eq by (rule toupper_eq_if_tolower_eq)
  show ?thesis
  proof (cases "isalpha c")
    case True
    with Cons b eq up al pretty_key_loop_cong [OF rest, of u True] show ?thesis
      by (simp add: php_http_pretty_key_def)
  next
    case False
    then have "c = d" using eq al by (simp add: tolower_nonalpha)
    with Cons b pretty_key_loop_cong [OF rest, of u "isalpha d"] show ?thesis
      by (simp add: php_http_pretty_key_def)
  qed
qed

lemma hyphenate_cases_alpha:
  "isalpha c \<Longrightarrow> hyphenate x (tolower c) = tolower c"
  "isalpha c \<Longrightarrow> hyphenate x (toupper c) = toupper c"
  by (simp_all add: hyphenate_alpha)

lemma name_pretty_key_loop:
  "map (tolower \<circ> hyphenate x) (pretty_key_loop u x w cs) = map (tolower \<circ> hyphenate x) cs"
proof (induction cs arbitrary: w)
  case Nil
  then show ?case by simp
next
  case (Cons c cs)
  show ?case
  proof (cases "isalpha c")
    case True
    with Cons.IH show ?thesis by (simp add: hyphenate_cases_alpha hyphenate_alpha)
  next
    case False
    with Cons.IH show ?thesis by (simp flip: hyphenate_def)
  qed
qed

section \<open>Results\<close>

text \<open>
  \<open>php_http_pretty_key\<close> computes a canonical spelling: two names become the same key exactly
  when they are equal up to case (and, with \<open>xhyphen\<close>, up to underscores for hyphens behind the
  first byte). Header lookup by prettified keys is therefore case-insensitive and confuses no
  other names.
\<close>

theorem pretty_key_canonical:
  "php_http_pretty_key a u x = php_http_pretty_key b u x \<longleftrightarrow> key_name x a = key_name x b"
  by (metis lower_pretty_key pretty_key_cong)

text \<open>Prettifying a key twice changes nothing more.\<close>

theorem pretty_key_idempotent:
  "php_http_pretty_key (php_http_pretty_key a u x) u x = php_http_pretty_key a u x"
proof -
  have "key_name x (php_http_pretty_key a u x) = key_name x a"
  proof (cases a)
    case Nil
    then show ?thesis by (simp add: php_http_pretty_key_def)
  next
    case (Cons c cs)
    then show ?thesis
      by (auto simp: php_http_pretty_key_def key_name_def name_pretty_key_loop)
  qed
  then show ?thesis by (rule pretty_key_cong)
qed

end
