(* ===== verification/Http_Encoding.thy ===== *)
theory Http_Encoding
  imports Http_Misc
begin

text \<open>
  Content and transfer codings of \<open>php_http_encoding.c\<close>: the one-shot decoder of the chunked
  transfer coding, the generic encoding stream over a table of operations, and the incremental chunk
  decoder that implements the table.

  The one-shot decoder is modelled with its pointers: its input is a zero-terminated block, and a copy
  that would leave the input or the output block has the result \<^const>\<open>None\<close>. The
  incremental decoder sees its \<open>php_http_buffer_t\<close> as the byte string the buffer holds (the
  operations it uses are refined in \<open>Http_Buffer\<close>); the branch for an allocation failure of that
  buffer is not modelled.
\<close>

section \<open>One-shot decoder\<close>

text \<open>\<open>eol_match\<close>: whether only spaces precede the line end, how far to advance, its length.\<close>

definition eol_match :: "bytes \<Rightarrow> bool \<times> nat \<times> nat" where
  "eol_match line =
     (let ptr = length (takeWhile (\<lambda>c. c = SP) line) in
      case php_http_locate_eol line of
        None \<Rightarrow> (False, 0, 0)
      | Some (i, l) \<Rightarrow> if i = ptr then (True, ptr, l) else (False, 0, l))"

text \<open>
  Behind the chunk size at \<open>n_ptr\<close>: skip spaces and find the line end; \<open>eol_len\<close> keeps its old
  value when the data ends there. Then the bytes that remain, and the chunk length clamped to them.
\<close>

definition chunk_line_end :: "bytes \<Rightarrow> nat \<Rightarrow> nat \<Rightarrow> nat \<times> nat" where
  "chunk_line_end encoded n_ptr eol_len =
     (if rd encoded n_ptr \<noteq> NUL
      then let (_, adv, l) = eol_match (drop n_ptr encoded) in (n_ptr + adv + l, l)
      else (n_ptr + eol_len, eol_len))"

definition chunk_rest :: "bytes \<Rightarrow> nat \<Rightarrow> size_t" where
  "chunk_rest encoded n_ptr = of_int (int (length encoded) - int n_ptr)"

definition chunk_clamp :: "size_t \<Rightarrow> nat \<Rightarrow> size_t" where
  "chunk_clamp rest chunk_len = (if rest < of_nat chunk_len then rest else of_nat chunk_len)"

text \<open>
  The loop of \<open>php_http_encoding_dechunk\<close>: \<open>encoded\<close> is the data without its terminator,
  \<open>e_ptr\<close> an offset, \<open>decoded\<close> the output so far. \<open>Some None\<close> is the null result; a regular
  result is the offset of the returned pointer and the decoded bytes.
\<close>

function dechunk_loop :: "bytes \<Rightarrow> nat \<Rightarrow> nat \<Rightarrow> bytes \<Rightarrow> (nat \<times> bytes) option option" where
  "dechunk_loop encoded e_ptr eol_len decoded =
     (if length encoded \<le> e_ptr then Some (Some (e_ptr, decoded))
      else let (len, n) = strtoul 16 (drop e_ptr encoded) in
      if n = 0 then
        (if e_ptr = 0 then Some (Some (length encoded, encoded)) else Some None)
      else if len = 0 then
        Some (Some (e_ptr + strspn (drop e_ptr encoded) [CHR ''0'', CR, LF], decoded))
      else
        let (n_ptr, eol_len) = chunk_line_end encoded (e_ptr + n) eol_len;
            rest = chunk_rest encoded n_ptr;
            chunk_len = chunk_clamp rest len
        in case mem_read (encoded @ [NUL]) n_ptr (unat chunk_len) of
             None \<Rightarrow> None
           | Some chunk \<Rightarrow>
               if length encoded + 1 < length decoded + unat chunk_len then None
               else if chunk_len = rest then Some (Some (n_ptr + unat chunk_len, decoded @ chunk))
               else dechunk_loop encoded (n_ptr + unat chunk_len + eol_len) eol_len (decoded @ chunk))"
  by auto
termination
  by (relation "measure (\<lambda>(encoded, e_ptr, _). length encoded - e_ptr)")
     (auto simp: chunk_line_end_def split: if_splits prod.splits)

declare dechunk_loop.simps [simp del]

definition php_http_encoding_dechunk :: "bytes \<Rightarrow> (nat \<times> bytes) option option" where
  "php_http_encoding_dechunk encoded = dechunk_loop encoded 0 0 []"

section \<open>Encoding streams\<close>

definition PHP_HTTP_ENCODING_STREAM_PERSISTENT :: "32 word" where
  "PHP_HTTP_ENCODING_STREAM_PERSISTENT = 0x01000000"
definition PHP_HTTP_ENCODING_STREAM_DIRTY :: "32 word" where
  "PHP_HTTP_ENCODING_STREAM_DIRTY = 0x02000000"
definition PHP_HTTP_ENCODING_STREAM_FLUSH_SYNC :: "32 word" where
  "PHP_HTTP_ENCODING_STREAM_FLUSH_SYNC = 0x00100000"
definition PHP_HTTP_ENCODING_STREAM_FLUSH_FULL :: "32 word" where
  "PHP_HTTP_ENCODING_STREAM_FLUSH_FULL = 0x00200000"

text \<open>
  A stream; the table of operations it points to never changes and is an argument of the functions. A
  null entry of the table is \<^const>\<open>None\<close>. \<open>update\<close>, \<open>flush\<close> and \<open>finish\<close> answer success,
  the output (a null pointer is \<^const>\<open>None\<close>) and the stream afterwards.
\<close>

record 'c php_http_encoding_stream =
  es_flags :: "32 word"
  es_ctx :: "'c option"

type_synonym 'c stream_out = "bool \<times> bytes option \<times> 'c php_http_encoding_stream"

record 'c php_http_encoding_stream_ops =
  op_init :: "'c php_http_encoding_stream \<Rightarrow> 'c php_http_encoding_stream option"
  op_copy :: "('c php_http_encoding_stream \<Rightarrow> 'c php_http_encoding_stream \<Rightarrow> 'c php_http_encoding_stream option) option"
  op_update :: "('c php_http_encoding_stream \<Rightarrow> bytes \<Rightarrow> 'c stream_out) option"
  op_flush :: "('c php_http_encoding_stream \<Rightarrow> 'c stream_out) option"
  op_done :: "('c php_http_encoding_stream \<Rightarrow> bool) option"
  op_finish :: "('c php_http_encoding_stream \<Rightarrow> 'c stream_out) option"
  op_dtor :: "('c php_http_encoding_stream \<Rightarrow> 'c php_http_encoding_stream) option"

definition php_http_encoding_stream_init ::
  "'c php_http_encoding_stream_ops option \<Rightarrow> 32 word \<Rightarrow> 'c php_http_encoding_stream option" where
  "php_http_encoding_stream_init ops flags =
     (let s = \<lparr>es_flags = flags, es_ctx = None\<rparr> in
      case ops of Some ops \<Rightarrow> op_init ops s | None \<Rightarrow> Some s)"

definition php_http_encoding_stream_copy ::
  "'c php_http_encoding_stream_ops \<Rightarrow> 'c php_http_encoding_stream \<Rightarrow> 'c php_http_encoding_stream option" where
  "php_http_encoding_stream_copy ops from =
     (case op_copy ops of
        None \<Rightarrow> None
      | Some copy \<Rightarrow>
          let to = \<lparr>es_flags = es_flags from, es_ctx = None\<rparr> in
          (case copy from to of Some ns \<Rightarrow> Some ns | None \<Rightarrow> Some to))"

definition php_http_encoding_stream_dtor ::
  "'c php_http_encoding_stream_ops \<Rightarrow> 'c php_http_encoding_stream \<Rightarrow> 'c php_http_encoding_stream" where
  "php_http_encoding_stream_dtor ops s = (case op_dtor ops of None \<Rightarrow> s | Some dtor \<Rightarrow> dtor s)"

definition php_http_encoding_stream_reset ::
  "'c php_http_encoding_stream_ops \<Rightarrow> 'c php_http_encoding_stream \<Rightarrow> bool \<times> 'c php_http_encoding_stream" where
  "php_http_encoding_stream_reset ops s =
     (let s = (case op_dtor ops of None \<Rightarrow> s | Some dtor \<Rightarrow> dtor s) in
      case op_init ops s of
        Some ss \<Rightarrow> (True, ss\<lparr>es_flags := es_flags ss AND NOT PHP_HTTP_ENCODING_STREAM_DIRTY\<rparr>)
      | None \<Rightarrow> (False, s))"

definition php_http_encoding_stream_update ::
  "'c php_http_encoding_stream_ops \<Rightarrow> 'c php_http_encoding_stream \<Rightarrow> bytes \<Rightarrow> 'c stream_out" where
  "php_http_encoding_stream_update ops s in_str =
     (let (rc, out_str, s) = (case op_update ops of Some update \<Rightarrow> update s in_str
                              | None \<Rightarrow> (False, None, s))
      in (rc, out_str, s\<lparr>es_flags := es_flags s OR PHP_HTTP_ENCODING_STREAM_DIRTY\<rparr>))"

definition php_http_encoding_stream_flush ::
  "'c php_http_encoding_stream_ops \<Rightarrow> 'c php_http_encoding_stream \<Rightarrow> 'c stream_out" where
  "php_http_encoding_stream_flush ops s =
     (case op_flush ops of None \<Rightarrow> (True, None, s) | Some flush \<Rightarrow> flush s)"

definition php_http_encoding_stream_done ::
  "'c php_http_encoding_stream_ops \<Rightarrow> 'c php_http_encoding_stream \<Rightarrow> bool" where
  "php_http_encoding_stream_done ops s =
     (case op_done ops of
        None \<Rightarrow> es_flags s AND PHP_HTTP_ENCODING_STREAM_DIRTY = 0
      | Some dn \<Rightarrow> dn s)"

definition php_http_encoding_stream_finish ::
  "'c php_http_encoding_stream_ops \<Rightarrow> 'c php_http_encoding_stream \<Rightarrow> 'c stream_out" where
  "php_http_encoding_stream_finish ops s =
     (case op_finish ops of
        None \<Rightarrow> (True, None, s\<lparr>es_flags := es_flags s AND NOT PHP_HTTP_ENCODING_STREAM_DIRTY\<rparr>)
      | Some finish \<Rightarrow> finish s)"

section \<open>Incremental chunk decoder\<close>

record dechunk_ctx =
  dc_buffer :: bytes
  dc_hexlen :: size_t
  dc_zeroed :: bool

definition dechunk_init ::
  "dechunk_ctx php_http_encoding_stream \<Rightarrow> dechunk_ctx php_http_encoding_stream option" where
  "dechunk_init s = Some (s\<lparr>es_ctx := Some \<lparr>dc_buffer = [], dc_hexlen = 0, dc_zeroed = False\<rparr>\<rparr>)"

text \<open>Operations on a stream without context dereference a null pointer: they are undefined.\<close>

definition dechunk_copy ::
  "dechunk_ctx php_http_encoding_stream \<Rightarrow> dechunk_ctx php_http_encoding_stream \<Rightarrow>
     dechunk_ctx php_http_encoding_stream option" where
  "dechunk_copy from to =
     (case es_ctx from of
        Some from_ctx \<Rightarrow>
          Some (to\<lparr>es_ctx := Some \<lparr>dc_buffer = [] @ dc_buffer from_ctx,
                                  dc_hexlen = dc_hexlen from_ctx, dc_zeroed = dc_zeroed from_ctx\<rparr>\<rparr>)
      | None \<Rightarrow> undefined)"

text \<open>
  The loop of \<open>dechunk_update\<close>: \<open>full\<close> is the flush flag, \<open>tmp\<close> the output so far. The result
  is the output (\<^const>\<open>None\<close> for failure) and the context.
\<close>

function dechunk_update_loop ::
  "bool \<Rightarrow> size_t \<Rightarrow> bytes \<Rightarrow> bytes \<Rightarrow> bytes option \<times> dechunk_ctx" where
  "dechunk_update_loop full hexlen buffer tmp =
     (if buffer = [] then
        (Some tmp, \<lparr>dc_buffer = [], dc_hexlen = hexlen, dc_zeroed = False\<rparr>)
      else if hexlen \<noteq> 0 then
        (if of_nat (length buffer) < hexlen then
           (if full then dechunk_update_loop full (hexlen - of_nat (length buffer)) [] (tmp @ buffer)
            else (Some tmp, \<lparr>dc_buffer = buffer, dc_hexlen = hexlen, dc_zeroed = False\<rparr>))
         else dechunk_update_loop full 0 (drop (unat hexlen) buffer) (tmp @ take (unat hexlen) buffer))
      else
        let buffer = dropWhile is_eol buffer in
        if buffer = [] then dechunk_update_loop full hexlen [] tmp
        else case php_http_locate_bin_eol buffer NUL of
          None \<Rightarrow> (Some tmp, \<lparr>dc_buffer = buffer, dc_hexlen = hexlen, dc_zeroed = False\<rparr>)
        | Some (eolstr, eollen) \<Rightarrow>
            let (len, stop) = strtoul 16 buffer in
            if stop = 0 then (None, \<lparr>dc_buffer = buffer, dc_hexlen = of_nat len, dc_zeroed = False\<rparr>)
            else let buffer = drop (eolstr + eollen) buffer in
              if of_nat len = (0 :: size_t) then
                (Some tmp, \<lparr>dc_buffer = dropWhile is_eol buffer, dc_hexlen = 0, dc_zeroed = True\<rparr>)
              else dechunk_update_loop full (of_nat len) buffer tmp)"
  by auto
termination
proof (relation "measure (\<lambda>(_, _, buffer, _). length buffer)", goal_cases)
  case (3 full hexlen buffer tmp)
  then show ?case by (simp add: unat_gt_0)
next
  case (5 full hexlen buffer tmp b p i l q len stop b')
  then have "0 < l" using locate_bin_eol_SomeD(4) by blast
  moreover have "length b \<le> length buffer" "0 < length b" "length b' = length b - (i + l)"
    using 5 length_dropWhile_le [of is_eol buffer] by simp_all
  ultimately have "length b' < length buffer" by linarith
  then show ?case by simp
qed simp_all

declare dechunk_update_loop.simps [simp del]

definition dechunk_update ::
  "dechunk_ctx php_http_encoding_stream \<Rightarrow> bytes \<Rightarrow> dechunk_ctx stream_out" where
  "dechunk_update s dat =
     (case es_ctx s of
        None \<Rightarrow> undefined
      | Some ctx \<Rightarrow>
          if dc_zeroed ctx then (False, None, s)
          else let (out, ctx) = dechunk_update_loop
                     (es_flags s AND PHP_HTTP_ENCODING_STREAM_FLUSH_FULL \<noteq> 0)
                     (dc_hexlen ctx) (dc_buffer ctx @ dat) []
               in (out \<noteq> None, out, s\<lparr>es_ctx := Some ctx\<rparr>))"

definition dechunk_flush :: "dechunk_ctx php_http_encoding_stream \<Rightarrow> dechunk_ctx stream_out" where
  "dechunk_flush s =
     (case es_ctx s of
        None \<Rightarrow> undefined
      | Some ctx \<Rightarrow>
          if dc_hexlen ctx \<noteq> 0
          then (True, Some (dc_buffer ctx),
                s\<lparr>es_ctx := Some (ctx\<lparr>dc_hexlen := dc_hexlen ctx - of_nat (length (dc_buffer ctx)),
                                      dc_buffer := []\<rparr>)\<rparr>)
          else (True, None, s))"

definition dechunk_done :: "dechunk_ctx php_http_encoding_stream \<Rightarrow> bool" where
  "dechunk_done s = (case es_ctx s of None \<Rightarrow> undefined | Some ctx \<Rightarrow> dc_zeroed ctx)"

definition dechunk_dtor ::
  "dechunk_ctx php_http_encoding_stream \<Rightarrow> dechunk_ctx php_http_encoding_stream" where
  "dechunk_dtor s = s\<lparr>es_ctx := None\<rparr>"

definition php_http_encoding_dechunk_ops :: "dechunk_ctx php_http_encoding_stream_ops" where
  "php_http_encoding_dechunk_ops =
     \<lparr>op_init = dechunk_init, op_copy = Some dechunk_copy, op_update = Some dechunk_update,
      op_flush = Some dechunk_flush, op_done = Some dechunk_done, op_finish = None,
      op_dtor = Some dechunk_dtor\<rparr>"

section \<open>Facts on the one-shot decoder\<close>

lemma is_eol_not_digit: "is_eol c \<Longrightarrow> \<not> is_digit_in base c"
  using is_digit_in_not_space [of base c] by (auto simp: is_eol_def isspace_def)

lemma locate_eol_bound:
  assumes "php_http_locate_eol line = Some (i, l)"
  shows "i + l \<le> length line \<and> 0 < l \<and> l \<le> 2"
proof -
  from assms have "index_of is_eol (cstr line) = Some i"
    by (auto simp: php_http_locate_eol_def split: option.splits)
  then have "i < length (cstr line)" by (auto dest: index_of_SomeD)
  moreover have "length (cstr line) \<le> length line" by (simp add: cstr_def length_takeWhile_le)
  moreover have "Suc i < length line" if "rd line (Suc i) = LF"
    using that by (auto simp: rd_def split: if_splits)
  ultimately show ?thesis
    using assms by (auto simp: php_http_locate_eol_def split: option.splits if_splits)
qed

lemma eol_match_bound:
  assumes "eol_match line = (b, adv, l)"
  shows "adv + l \<le> length line \<and> l \<le> 2"
  using assms locate_eol_bound [of line]
  by (auto simp: eol_match_def Let_def split: option.splits if_splits)

text \<open>
  If the input ends with a line end, no step leaves the input: behind a chunk size there is always
  another byte, and a terminating zero cannot be the last byte.
\<close>

lemma dechunk_line_bound:
  assumes last: "encoded \<noteq> []" "is_eol (last encoded)" and e: "e_ptr < length encoded"
    and num: "strtoul 16 (drop e_ptr encoded) = (len, n)" "0 < n" and el: "eol_len \<le> 2"
    and np: "chunk_line_end encoded (e_ptr + n) eol_len = (n_ptr, l)"
  shows "e_ptr < n_ptr \<and> n_ptr \<le> length encoded \<and> l \<le> 2"
proof -
  let ?L = "length encoded"
  have N: "n \<le> ?L - e_ptr" "is_digit_in 16 (encoded ! (e_ptr + (n - 1)))"
    using strtoul_last [OF num] e by (simp_all add: nth_append)
  have lastc: "encoded ! (?L - 1) = last encoded" using last(1) by (simp add: last_conv_nth)
  have "e_ptr + (n - 1) \<noteq> ?L - 1"
    using N(2) last(2) lastc is_eol_not_digit by metis
  then have lt: "e_ptr + n < ?L" using N(1) num(2) e by simp
  show ?thesis
  proof (cases "rd encoded (e_ptr + n) = NUL")
    case True
    then have "e_ptr + n \<noteq> ?L - 1"
      using lt last(2) lastc by (auto simp: rd_def is_eol_def)
    with True np el lt num(2) show ?thesis by (auto simp: chunk_line_end_def)
  next
    case False
    with np obtain b adv where "eol_match (drop (e_ptr + n) encoded) = (b, adv, l)" "n_ptr = e_ptr + n + adv + l"
      by (auto simp: chunk_line_end_def split: prod.splits)
    with eol_match_bound [of "drop (e_ptr + n) encoded" b adv l] lt num(2) show ?thesis by auto
  qed
qed

lemma unat_chunk_rest:
  "n_ptr \<le> length encoded \<Longrightarrow> length encoded < 2 ^ 64 \<Longrightarrow> unat (chunk_rest encoded n_ptr) = length encoded - n_ptr"
proof -
  assume "n_ptr \<le> length encoded" "length encoded < 2 ^ 64"
  then have "chunk_rest encoded n_ptr = of_nat (length encoded - n_ptr)"
    by (simp add: chunk_rest_def of_nat_diff)
  then show ?thesis using \<open>length encoded < 2 ^ 64\<close> by (simp add: unat_of_nat)
qed

lemma dechunk_loop_safe:
  assumes last: "encoded \<noteq> []" "is_eol (last encoded)" and L: "length encoded < 2 ^ 63"
    and "eol_len \<le> 2" "length decoded \<le> e_ptr" "e_ptr \<le> length encoded + 1" "length decoded \<le> length encoded"
  shows "\<exists>r. dechunk_loop encoded e_ptr eol_len decoded = Some r \<and>
           (\<forall>p out. r = Some (p, out) \<longrightarrow> p \<le> length encoded + 1 \<and> length out \<le> length encoded)"
  using assms(4-)
proof (induction "length encoded - e_ptr" arbitrary: e_ptr eol_len decoded rule: less_induct)
  case less
  let ?L = "length encoded"
  show ?case
  proof (cases "?L \<le> e_ptr")
    case True
    with less.prems show ?thesis by (auto simp: dechunk_loop.simps [of encoded e_ptr])
  next
    case e: False
    obtain len n where num: "strtoul 16 (drop e_ptr encoded) = (len, n)" by force
    obtain n_ptr l where np: "chunk_line_end encoded (e_ptr + n) eol_len = (n_ptr, l)" by force
    show ?thesis
    proof (cases "n = 0 \<or> len = 0")
      case True
      have "e_ptr + strspn (drop e_ptr encoded) [CHR ''0'', CR, LF] \<le> ?L"
        using length_takeWhile_le [of "\<lambda>c. c \<in> set [CHR ''0'', CR, LF]" "drop e_ptr encoded"] e
        by (simp add: strspn_def)
      with True e num less.prems show ?thesis
        by (auto simp: dechunk_loop.simps [of encoded e_ptr])
    next
      case False
      from dechunk_line_bound [OF last _ num _ _ np] False e less.prems
      have B: "e_ptr < n_ptr" "n_ptr \<le> ?L" "l \<le> 2" by auto
      define rest where "rest = chunk_rest encoded n_ptr"
      define c where "c = chunk_clamp rest len"
      have ur: "unat rest = ?L - n_ptr" using B(2) L by (simp add: rest_def unat_chunk_rest)
      have uc: "unat c \<le> unat rest" by (auto simp: c_def chunk_clamp_def word_le_nat_alt word_less_nat_alt)
      define chunk where "chunk = take (unat c) (drop n_ptr (encoded @ [NUL]))"
      have rdc: "mem_read (encoded @ [NUL]) n_ptr (unat c) = Some chunk" "length chunk = unat c"
        using B(2) ur uc by (simp_all add: mem_read_def chunk_def)
      have room: "length decoded + unat c \<le> ?L" using less.prems B ur uc by simp
      have step: "dechunk_loop encoded e_ptr eol_len decoded =
          (if c = rest then Some (Some (n_ptr + unat c, decoded @ chunk))
           else dechunk_loop encoded (n_ptr + unat c + l) l (decoded @ chunk))"
        using False e num np room rdc
        by (simp add: dechunk_loop.simps [of encoded e_ptr] Let_def rest_def [symmetric] c_def [symmetric])
      show ?thesis
      proof (cases "c = rest")
        case True
        with step B ur room rdc show ?thesis by auto
      next
        case False
        then have "unat c < unat rest" using uc by (simp add: order_less_le word_unat_eq_iff [symmetric])
        then have "n_ptr + unat c + l \<le> ?L + 1" "length (decoded @ chunk) \<le> n_ptr + unat c + l"
          using ur B less.prems rdc by simp_all
        with step False room rdc B less.hyps [of "n_ptr + unat c + l" l "decoded @ chunk"] e
        show ?thesis by auto
      qed
    qed
  qed
qed

text \<open>The chunked coding of a sequence of chunks (RFC 7230, section 4.1), with an empty trailer.\<close>

definition chunk_coding :: "bytes list \<Rightarrow> bytes" where
  "chunk_coding cs = concat (map (\<lambda>c. hex (length c) @ [CR, LF] @ c @ [CR, LF]) cs) @ ''0'' @ [CR, LF, CR, LF]"

lemma chunk_coding_Nil: "chunk_coding [] = hex 0 @ [CR, LF, CR, LF]"
proof -
  have "hex 0 = ''0''" by code_simp
  then show ?thesis by (simp add: chunk_coding_def)
qed

lemma chunk_coding_Cons:
  "chunk_coding (c # cs) = hex (length c) @ CR # LF # c @ CR # LF # chunk_coding cs"
  by (simp add: chunk_coding_def)

lemma CR_no_digit [simp]: "\<not> is_digit_in b CR" "tolower CR \<noteq> CHR ''x''"
  by (simp_all add: is_eol_not_digit is_eol_def tolower_def ctype_simps)

lemma eol_match_CRLF: "eol_match (CR # LF # r) = (True, 0, 2)"
  by (simp add: eol_match_def php_http_locate_eol_def is_eol_def cstr_def)

lemma CR_ends_number [simp]: "ends_number b (CR # r)"
  by (simp add: ends_number_def)

text \<open>One well-formed chunk that is followed by more data.\<close>

lemma dechunk_loop_chunk:
  assumes enc: "encoded = pre @ hex (length c) @ CR # LF # c @ CR # LF # r"
    and c: "c \<noteq> []" "length encoded < 2 ^ 63" "length decoded \<le> length pre"
  shows "dechunk_loop encoded (length pre) el decoded =
           dechunk_loop encoded (length (pre @ hex (length c) @ CR # LF # c @ [CR, LF])) 2 (decoded @ c)"
proof -
  let ?n = "length (hex (length c))" and ?s = "hex (length c) @ CR # LF # c @ CR # LF # r"
  define np where "np = length pre + ?n + 2"
  have len: "length encoded = np + length c + 2 + length r" "length pre < length encoded" "length pre \<le> np"
    using enc by (simp_all add: np_def)
  have num: "strtoul 16 ?s = (length c, ?n)"
    using c(2) len by (intro strtoul_hex) (simp_all add: ulong_max_def)
  have eol: "chunk_line_end encoded (length pre + ?n) el = (np, 2)"
    using enc by (simp add: chunk_line_end_def rd_def nth_append eol_match_CRLF np_def)
  define rest where "rest = chunk_rest encoded np"
  have ur: "unat rest = length encoded - np"
    using len c(2) by (simp add: rest_def unat_chunk_rest)
  have uc: "unat (of_nat (length c) :: size_t) = length c"
    using len c(2) by (intro unat_of_nat_size_t) simp
  have cl: "chunk_clamp rest (length c) = of_nat (length c)"
    using len ur uc by (simp add: chunk_clamp_def word_less_nat_alt)
  have ne: "of_nat (length c) \<noteq> rest" using ur uc len by (auto simp flip: word_unat_eq_iff)
  have rdc: "mem_read (encoded @ [NUL]) np (length c) = Some c"
    using enc by (simp add: mem_read_def np_def)
  have "drop (length pre) encoded = ?s" using enc by simp
  then have "dechunk_loop encoded (length pre) el decoded = dechunk_loop encoded (np + length c + 2) 2 (decoded @ c)"
    using num eol cl ne rdc uc len c
    by (simp add: dechunk_loop.simps [of encoded "length pre"] Let_def rest_def [symmetric])
  moreover have "np + length c + 2 = length (pre @ hex (length c) @ CR # LF # c @ [CR, LF])"
    by (simp add: np_def)
  ultimately show ?thesis by (simp only:)
qed

lemma dechunk_loop_coding:
  assumes "encoded = pre @ chunk_coding cs" "\<forall>c\<in>set cs. c \<noteq> []" "length encoded < 2 ^ 63"
    "length decoded \<le> length pre"
  shows "dechunk_loop encoded (length pre) el decoded = Some (Some (length encoded, decoded @ concat cs))"
  using assms
proof (induction cs arbitrary: pre el decoded)
  case Nil
  have "strtoul 16 (chunk_coding []) = (0, length (hex 0))"
    unfolding chunk_coding_Nil by (simp add: strtoul_hex ulong_max_def)
  moreover have "strspn (chunk_coding []) [CHR ''0'', CR, LF] = length (chunk_coding [])"
    "0 < length (chunk_coding [])" by (simp_all add: chunk_coding_def strspn_def)
  ultimately show ?case
    using Nil by (subst dechunk_loop.simps) simp
next
  case (Cons c cs)
  let ?pre = "pre @ hex (length c) @ CR # LF # c @ [CR, LF]"
  have "dechunk_loop encoded (length pre) el decoded = dechunk_loop encoded (length ?pre) 2 (decoded @ c)"
    using Cons.prems by (intro dechunk_loop_chunk [where r = "chunk_coding cs"]) (simp_all add: chunk_coding_Cons)
  also have "\<dots> = Some (Some (length encoded, (decoded @ c) @ concat cs))"
    using Cons.prems by (intro Cons.IH) (simp_all add: chunk_coding_Cons)
  finally show ?case by simp
qed

section \<open>Results on the one-shot decoder\<close>

text \<open>
  C37. The one-shot decoder inverts the chunked coding: for any sequence of non-empty chunks it
  returns the concatenation of the chunks and a pointer to the end of the input.
\<close>

theorem dechunk_inverts_coding:
  assumes "\<forall>c\<in>set cs. c \<noteq> []" "length (chunk_coding cs) < 2 ^ 63"
  shows "php_http_encoding_dechunk (chunk_coding cs) = Some (Some (length (chunk_coding cs), concat cs))"
  using dechunk_loop_coding [of "chunk_coding cs" "[]" cs "[]" 0] assms
  by (simp add: php_http_encoding_dechunk_def)

theorem dechunk_inverts_coding_witness:
  "php_http_encoding_dechunk (chunk_coding [''hello'', '' world'']) =
     Some (Some (length (chunk_coding [''hello'', '' world'']), concat [''hello'', '' world'']))"
proof (rule dechunk_inverts_coding)
  have "length (chunk_coding [''hello'', '' world'']) = 26" by code_simp
  then show "length (chunk_coding [''hello'', '' world'']) < 2 ^ 63" by simp
qed simp

text \<open>
  C38. The one-shot decoder is memory safe and terminates on every input that ends with a line end,
  well-formed or not: it reads only inside the zero-terminated input, writes only inside the output
  block of the input's size, and a returned pointer is at most one byte behind the input.
\<close>

theorem dechunk_memory_safe:
  assumes "encoded \<noteq> []" "is_eol (last encoded)" "length encoded < 2 ^ 63"
  shows "\<exists>r. php_http_encoding_dechunk encoded = Some r \<and>
           (\<forall>p out. r = Some (p, out) \<longrightarrow> p \<le> length encoded + 1 \<and> length out \<le> length encoded)"
  using dechunk_loop_safe [OF assms, of 0 "[]" 0] by (simp add: php_http_encoding_dechunk_def)

theorem dechunk_memory_safe_witness:
  "\<exists>r. php_http_encoding_dechunk (''fff;'' @ [LF]) = Some r \<and>
     (\<forall>p out. r = Some (p, out) \<longrightarrow>
        p \<le> length (''fff;'' @ [LF]) + 1 \<and> length out \<le> length (''fff;'' @ [LF]))"
  by (rule dechunk_memory_safe) (simp_all add: is_eol_def)

text \<open>
  Without that line end the decoder leaves its input: when the data ends right behind a chunk
  size that is not the first one, the length of the previous line end is added to the pointer once
  more, the remaining size wraps around, and the copy of the chunk starts behind the terminator.
\<close>

theorem dechunk_truncated_size_overruns:
  assumes "c \<noteq> []" "0 < n" "n < 2 ^ 62" "length (hex (length c) @ CR # LF # c @ CR # LF # hex n) < 2 ^ 62"
  shows "php_http_encoding_dechunk (hex (length c) @ CR # LF # c @ CR # LF # hex n) = None"
proof -
  define pre where "pre = hex (length c) @ CR # LF # c @ [CR, LF]"
  define encoded where "encoded = pre @ hex n"
  have enc: "encoded = [] @ hex (length c) @ CR # LF # c @ CR # LF # hex n"
    by (simp add: encoded_def pre_def)
  have L: "length encoded < 2 ^ 62" using assms(4) enc by simp
  have first: "dechunk_loop encoded (length []) 0 [] = dechunk_loop encoded (length pre) 2 ([] @ c)"
    using dechunk_loop_chunk [OF enc assms(1), of "[]" 0] L by (simp add: pre_def)
  have num: "strtoul 16 (hex n @ []) = (n, length (hex n))"
    using assms(3) by (intro strtoul_hex) (simp_all add: ulong_max_def ends_number_def)
  define rest where "rest = chunk_rest encoded (length encoded + 2)"
  have "rest = - 2" by (simp add: rest_def chunk_rest_def)
  then have "unat rest = 2 ^ 64 - 2" by simp
  moreover have un: "unat (of_nat n :: size_t) = n" using assms(3) by (intro unat_of_nat_size_t) simp
  ultimately have cl: "chunk_clamp rest n = of_nat n"
    using assms(3) by (simp add: chunk_clamp_def word_less_nat_alt)
  have eol: "chunk_line_end encoded (length pre + length (hex n)) 2 = (length encoded + 2, 2)"
    by (simp add: chunk_line_end_def encoded_def rd_def)
  have oob: "mem_read (encoded @ [NUL]) (length encoded + 2) n = None" by (simp add: mem_read_def)
  have "length pre < length encoded" "drop (length pre) encoded = hex n" by (simp_all add: encoded_def)
  then have "dechunk_loop encoded (length pre) 2 ([] @ c) = None"
    using num eol cl un assms(2) oob
    by (simp add: dechunk_loop.simps [of encoded "length pre"] Let_def rest_def [symmetric] del: add_2_eq_Suc')
  with first show ?thesis by (simp add: php_http_encoding_dechunk_def enc)
qed

theorem dechunk_truncated_size_overruns_witness:
  "php_http_encoding_dechunk (hex (length ''a'') @ CR # LF # ''a'' @ CR # LF # hex 255) = None"
proof (rule dechunk_truncated_size_overruns)
  have "length (hex (length ''a'') @ CR # LF # ''a'' @ CR # LF # hex 255) = 8"
    by (simp add: print_num.simps)
  then show "length (hex (length ''a'') @ CR # LF # ''a'' @ CR # LF # hex 255) < 2 ^ 62" by simp
qed simp_all

section \<open>Facts on the incremental decoder\<close>

text \<open>
  The input the incremental decoder is meant for, as seen with \<open>hexlen\<close> bytes of a chunk still
  missing: \<open>chunk_stream hexlen stream payload\<close>. Line ends between chunks are free, a chunk size may
  carry an extension.
\<close>

definition chunk_ext :: "bytes \<Rightarrow> bool" where
  "chunk_ext ext \<longleftrightarrow> (\<forall>c\<in>set ext. \<not> is_eol c) \<and> ends_number 16 ext"

inductive chunk_stream :: "nat \<Rightarrow> bytes \<Rightarrow> bytes \<Rightarrow> bool" where
  cs_nil: "chunk_stream 0 [] []"
| cs_data: "c \<noteq> [] \<Longrightarrow> chunk_stream 0 s p \<Longrightarrow> chunk_stream (length c) (c @ s) (c @ p)"
| cs_eol: "is_eol e \<Longrightarrow> chunk_stream 0 s p \<Longrightarrow> chunk_stream 0 (e # s) p"
| cs_size: "0 < n \<Longrightarrow> n \<le> ulong_max \<Longrightarrow> chunk_ext ext \<Longrightarrow> chunk_stream n s p \<Longrightarrow>
            chunk_stream 0 (hex n @ ext @ CR # LF # s) p"

inductive_cases chunk_stream_NilE: "chunk_stream h [] p"

lemma chunk_stream_Nil: "chunk_stream h [] p \<Longrightarrow> h = 0 \<and> p = []"
  by (erule chunk_stream_NilE) auto

lemma dechunk_loop_empty [simp]:
  "dechunk_update_loop full w [] tmp = (Some tmp, \<lparr>dc_buffer = [], dc_hexlen = w, dc_zeroed = False\<rparr>)"
  by (simp add: dechunk_update_loop.simps)

lemma dechunk_loop_eol: "is_eol e \<Longrightarrow> dechunk_update_loop full 0 (e # a) tmp = dechunk_update_loop full 0 a tmp"
proof (cases "a = []")
  case True
  assume "is_eol e"
  with True show ?thesis by (subst dechunk_update_loop.simps) simp
next
  case False
  assume "is_eol e"
  with False show ?thesis
    by (simp add: dechunk_update_loop.simps [of full 0 "e # a"] dechunk_update_loop.simps [of full 0 a])
qed

lemma hex_not_eol: "\<forall>c\<in>set (hex n). \<not> is_eol c"
  using print_num_digits [of 16 n] is_eol_not_digit by (auto simp: Ball_def)

lemma dropWhile_hex [simp]: "dropWhile is_eol (hex n @ r) = hex n @ r"
  using hex_not_eol [of n] by (cases "hex n") auto

lemma ends_number_ext: "chunk_ext ext \<Longrightarrow> ends_number 16 (ext @ CR # r)"
  by (cases ext) (simp_all add: chunk_ext_def ends_number_def)

text \<open>A complete line with a chunk size.\<close>

lemma dechunk_loop_size:
  assumes "n \<le> ulong_max" "chunk_ext ext"
  shows "dechunk_update_loop full 0 (hex n @ ext @ CR # LF # r) tmp =
           (if n = 0 then (Some tmp, \<lparr>dc_buffer = dropWhile is_eol r, dc_hexlen = 0, dc_zeroed = True\<rparr>)
            else dechunk_update_loop full (of_nat n) r tmp)"
proof -
  have "\<forall>c\<in>set (hex n @ ext). \<not> is_eol c" using hex_not_eol assms(2) by (auto simp: chunk_ext_def)
  from locate_bin_eol_line(1) [OF this, of r NUL]
  have loc: "php_http_locate_bin_eol (hex n @ ext @ CR # LF # r) NUL = Some (length (hex n @ ext), 2)" by simp
  have num: "strtoul 16 (hex n @ ext @ CR # LF # r) = (n, length (hex n))"
    using assms by (intro strtoul_hex ends_number_ext)
  have un: "unat (of_nat n :: size_t) = n" using assms(1) by (intro unat_of_nat_size_t) (simp add: ulong_max_def)
  have "(of_nat n :: size_t) = 0 \<longleftrightarrow> n = 0" by (subst un [symmetric]) (simp only: unat_eq_zero)
  with loc num show ?thesis
    by (subst dechunk_update_loop.simps) simp
qed

text \<open>An incomplete line waits for more.\<close>

lemma dechunk_loop_partial:
  assumes "a \<noteq> []" "\<forall>c\<in>set a. \<not> is_eol c"
  shows "dechunk_update_loop full 0 a tmp = (Some tmp, \<lparr>dc_buffer = a, dc_hexlen = 0, dc_zeroed = False\<rparr>)"
proof -
  have "dropWhile is_eol a = a" using assms by (cases a) auto
  moreover have "php_http_locate_bin_eol a NUL = None" using assms(2) by (simp add: locate_bin_eol_None)
  ultimately show ?thesis using assms(1) by (simp add: dechunk_update_loop.simps [of full 0 a])
qed

text \<open>A chunk that is not complete yet.\<close>

lemma dechunk_loop_wait:
  assumes "a \<noteq> []" "of_nat (length a) < w"
  shows "dechunk_update_loop full w a tmp =
           (Some (if full then tmp @ a else tmp),
            \<lparr>dc_buffer = (if full then [] else a),
             dc_hexlen = (if full then w - of_nat (length a) else w), dc_zeroed = False\<rparr>)"
proof -
  have "w \<noteq> 0" using assms(2) by auto
  with assms show ?thesis by (subst dechunk_update_loop.simps) simp
qed

text \<open>
  Decoding a prefix \<open>a\<close> of a chunk stream leaves a state from which the rest of the stream decodes
  to the rest of the payload, unless the prefix ends between a carriage return and its line feed.
\<close>

lemma dechunk_update_loop_stream:
  assumes "chunk_stream h s p" "s = a @ b" "a = [] \<or> last a \<noteq> CR" "unat w = h" "length s < 2 ^ 63"
  shows "\<exists>w' a' out p'. dechunk_update_loop full w a tmp =
             (Some (tmp @ out), \<lparr>dc_buffer = a', dc_hexlen = w', dc_zeroed = False\<rparr>) \<and>
           p = out @ p' \<and> chunk_stream (unat w') (a' @ b) p' \<and> (b = [] \<longrightarrow> a' = [] \<and> w' = 0) \<and>
           length a' \<le> length a"
  using assms
proof (induction arbitrary: a w tmp rule: chunk_stream.induct)
  case cs_nil
  then show ?case by (auto intro: chunk_stream.cs_nil simp: unat_eq_zero)
next
  case (cs_data c s p)
  note whole = chunk_stream.cs_data [OF cs_data.hyps]
  have al: "length a < 2 ^ 63" using arg_cong [OF cs_data.prems(1), of length] cs_data.prems(4) by simp
  have ua: "unat (of_nat (length a) :: size_t) = length a"
    using al by (intro unat_of_nat_size_t) simp
  show ?case
  proof (cases "length a < length c")
    case True
    then obtain c2 where c2: "c = a @ c2" "b = c2 @ s" "c2 \<noteq> []"
      using cs_data.prems(1) by (auto simp: append_eq_append_conv2)
    have less: "of_nat (length a) < w" using True cs_data.prems(3) by (simp add: word_less_nat_alt ua)
    have "unat (w - of_nat (length a)) = length c2"
      using less cs_data.prems(3) c2(1) by (simp add: unat_minus_size_t ua)
    then have "chunk_stream (unat (w - of_nat (length a))) b (c2 @ p)"
      using chunk_stream.cs_data [OF c2(3) cs_data.hyps(2)] c2(2) by simp
    moreover have "chunk_stream (unat w) (a @ b) (c @ p)"
      using whole cs_data.prems(1,3) by simp
    ultimately show ?thesis
      using less c2 by (cases "a = []"; cases full) (auto simp: dechunk_loop_wait)
  next
    case False
    then obtain a2 where a2: "a = c @ a2" "s = a2 @ b"
      using cs_data.prems(1) by (auto simp: append_eq_append_conv2)
    have w: "w \<noteq> 0" "\<not> of_nat (length a) < w"
      using False cs_data.hyps(1) cs_data.prems(3) by (auto simp: word_less_nat_alt ua)
    have "dechunk_update_loop full w a tmp = dechunk_update_loop full 0 a2 (tmp @ c)"
      using w a2 cs_data.hyps(1) cs_data.prems(3) by (subst dechunk_update_loop.simps) simp
    moreover have "a2 = [] \<or> last a2 \<noteq> CR" "length s < 2 ^ 63"
      using cs_data.prems a2 by (auto split: if_splits)
    ultimately show ?thesis
      using cs_data.IH [OF a2(2), of 0 "tmp @ c"] a2(1) by (auto intro: trans_le_add2)
  qed
next
  case (cs_eol e s p)
  show ?case
  proof (cases a)
    case Nil
    with cs_eol chunk_stream.cs_eol [OF cs_eol.hyps] show ?thesis by auto
  next
    case (Cons x a2)
    with cs_eol.prems have "s = a2 @ b" "a2 = [] \<or> last a2 \<noteq> CR" "length s < 2 ^ 63" "w = 0" "x = e"
      by (auto simp: unat_eq_zero split: if_splits)
    with cs_eol.IH [of a2 0 tmp] Cons cs_eol.hyps(1) show ?thesis
      by (auto simp: dechunk_loop_eol intro: le_SucI)
  qed
next
  case (cs_size n ext s p)
  note whole = chunk_stream.cs_size [OF cs_size.hyps]
  let ?l = "hex n @ ext"
  have w0: "w = 0" using cs_size.prems(3) by (simp add: unat_eq_zero)
  have line: "(?l @ [CR, LF]) @ s = a @ b" using cs_size.prems(1) by simp
  show ?case
  proof (cases "length a < length ?l + 2")
    case True
    have "take (length a) ((?l @ [CR, LF]) @ s) = take (length a) (?l @ [CR, LF])"
      using True by (subst take_append) simp
    then have tk: "a = take (length a) (?l @ [CR, LF])" by (simp only: line append_eq_conv_conj) simp
    have "length a \<noteq> length ?l + 1" using tk cs_size.prems(2) by auto
    with True tk have "a = take (length a) ?l" by simp
    then have noeol: "\<forall>c\<in>set a. \<not> is_eol c"
      using hex_not_eol cs_size.hyps(3) by (metis chunk_ext_def in_set_takeD set_append Un_iff)
    have "chunk_stream 0 (a @ b) p" using whole cs_size.prems(1) by simp
    moreover have "b \<noteq> []" using arg_cong [OF line, of length] True by auto
    ultimately show ?thesis using noeol by (cases "a = []") (auto simp: w0 dechunk_loop_partial)
  next
    case False
    define L where "L = ?l @ [CR, LF]"
    have "L @ s = a @ b" "length L \<le> length a" using line False by (simp_all add: L_def)
    then obtain a2 where "a = L @ a2" "s = a2 @ b" by (auto simp: append_eq_append_conv2)
    then have a2: "a = ?l @ [CR, LF] @ a2" "s = a2 @ b" by (simp_all add: L_def)
    have un: "unat (of_nat n :: size_t) = n"
      using cs_size.hyps(2) by (intro unat_of_nat_size_t) (simp add: ulong_max_def)
    have "a2 = [] \<or> last a2 \<noteq> CR" "length s < 2 ^ 63"
      using cs_size.prems a2 by (auto split: if_splits)
    with cs_size.IH [OF a2(2), of "of_nat n" tmp] un
    obtain w' a' out p' where "dechunk_update_loop full (of_nat n) a2 tmp =
          (Some (tmp @ out), \<lparr>dc_buffer = a', dc_hexlen = w', dc_zeroed = False\<rparr>)"
        "p = out @ p'" "chunk_stream (unat w') (a' @ b) p'" "b = [] \<longrightarrow> a' = [] \<and> w' = 0"
        "length a' \<le> length a2" by auto
    with cs_size.hyps show ?thesis
      by (intro exI [of _ w'] exI [of _ a'] exI [of _ out] exI [of _ p'])
         (simp add: w0 a2(1) dechunk_loop_size)
  qed
qed

section \<open>Results on the incremental decoder\<close>

text \<open>Feed a sequence of pieces to a stream, collecting the output; \<^const>\<open>None\<close> if one fails.\<close>

fun stream_feed ::
  "'c php_http_encoding_stream_ops \<Rightarrow> 'c php_http_encoding_stream \<Rightarrow> bytes list \<Rightarrow>
     (bytes \<times> 'c php_http_encoding_stream) option" where
  "stream_feed ops s [] = Some ([], s)"
| "stream_feed ops s (d # ds) =
     (case php_http_encoding_stream_update ops s d of
        (True, Some out, s) \<Rightarrow> map_option (\<lambda>(outs, s). (out @ outs, s)) (stream_feed ops s ds)
      | _ \<Rightarrow> None)"

lemma stream_feed_append:
  "stream_feed ops s (ds @ es) =
     (case stream_feed ops s ds of None \<Rightarrow> None
      | Some (out, s) \<Rightarrow> map_option (\<lambda>(outs, s). (out @ outs, s)) (stream_feed ops s es))"
proof (induction ds arbitrary: s)
  case Nil
  then show ?case by (cases "stream_feed ops s es") auto
next
  case (Cons d ds)
  obtain rc out s1 where u: "php_http_encoding_stream_update ops s d = (rc, out, s1)" by (metis prod_cases3)
  show ?case
    using Cons.IH [of s1]
    by (cases "rc"; cases out; cases "stream_feed ops s1 ds"; cases "stream_feed ops (snd (the (stream_feed ops s1 ds))) es")
       (auto simp: u)
qed

lemma dechunk_stream_update:
  assumes "es_ctx s = Some ctx" "\<not> dc_zeroed ctx"
    "dechunk_update_loop (es_flags s AND PHP_HTTP_ENCODING_STREAM_FLUSH_FULL \<noteq> 0) (dc_hexlen ctx)
       (dc_buffer ctx @ d) [] = (Some out, ctx')"
  shows "php_http_encoding_stream_update php_http_encoding_dechunk_ops s d =
           (True, Some out, \<lparr>es_flags = es_flags s OR PHP_HTTP_ENCODING_STREAM_DIRTY, es_ctx = Some ctx'\<rparr>)"
  using assms
  by (cases s) (simp add: php_http_encoding_stream_update_def php_http_encoding_dechunk_ops_def dechunk_update_def)

lemma dechunk_feed_stream:
  assumes "es_ctx s = Some \<lparr>dc_buffer = a, dc_hexlen = w, dc_zeroed = False\<rparr>"
    "chunk_stream (unat w) (a @ concat ps) p" "length (a @ concat ps) < 2 ^ 63"
    "\<forall>d\<in>set ps. d \<noteq> [] \<and> last d \<noteq> CR" "concat ps = [] \<longrightarrow> a = [] \<and> w = 0"
  shows "\<exists>f. stream_feed php_http_encoding_dechunk_ops s ps =
     Some (p, \<lparr>es_flags = f, es_ctx = Some \<lparr>dc_buffer = [], dc_hexlen = 0, dc_zeroed = False\<rparr>\<rparr>)"
  using assms
proof (induction ps arbitrary: s a w p)
  case Nil
  then have "p = []" using chunk_stream_Nil by auto
  with Nil show ?case by (cases s) auto
next
  case (Cons d ds)
  let ?full = "es_flags s AND PHP_HTTP_ENCODING_STREAM_FLUSH_FULL \<noteq> 0"
  obtain w' a' out p' where st: "dechunk_update_loop ?full w (a @ d) [] =
        (Some out, \<lparr>dc_buffer = a', dc_hexlen = w', dc_zeroed = False\<rparr>)"
      "p = out @ p'" "chunk_stream (unat w') (a' @ concat ds) p'" "concat ds = [] \<longrightarrow> a' = [] \<and> w' = 0"
      "length a' \<le> length (a @ d)"
    using dechunk_update_loop_stream [OF Cons.prems(2), of "a @ d" "concat ds" w ?full "[]"] Cons.prems(3,4)
    by auto
  define s1 where "s1 = \<lparr>es_flags = es_flags s OR PHP_HTTP_ENCODING_STREAM_DIRTY,
                         es_ctx = Some \<lparr>dc_buffer = a', dc_hexlen = w', dc_zeroed = False\<rparr>\<rparr>"
  have "php_http_encoding_stream_update php_http_encoding_dechunk_ops s d = (True, Some out, s1)"
    using Cons.prems(1) st(1) dechunk_stream_update [of s _ d out] by (simp add: s1_def)
  moreover have "length (a' @ concat ds) < 2 ^ 63" using st(5) Cons.prems(3) by simp
  moreover obtain f where "stream_feed php_http_encoding_dechunk_ops s1 ds =
     Some (p', \<lparr>es_flags = f, es_ctx = Some \<lparr>dc_buffer = [], dc_hexlen = 0, dc_zeroed = False\<rparr>\<rparr>)"
    using Cons.IH [of s1 a' w' p'] calculation st Cons.prems(4) by (auto simp: s1_def)
  ultimately show ?case using st(2) by simp
qed

lemma dechunk_feed_last:
  assumes "es_ctx s = Some \<lparr>dc_buffer = [], dc_hexlen = 0, dc_zeroed = False\<rparr>" "chunk_ext ext"
  shows "\<exists>f. stream_feed php_http_encoding_dechunk_ops s [hex 0 @ ext @ CR # LF # t] =
     Some ([], \<lparr>es_flags = f, es_ctx = Some \<lparr>dc_buffer = dropWhile is_eol t, dc_hexlen = 0, dc_zeroed = True\<rparr>\<rparr>)"
  using assms dechunk_stream_update [OF assms(1), of "hex 0 @ ext @ CR # LF # t" "[]"]
  by (simp add: dechunk_loop_size)


lemma sample_chunk_stream: "chunk_stream 0 (concat [''5;x=1'', [CR, LF] @ ''he'', ''llo'', [CR, LF]]) ''hello''"
proof -
  have "chunk_stream 0 [CR, LF] []"
    by (intro chunk_stream.cs_eol chunk_stream.cs_nil) (simp_all add: is_eol_def)
  from chunk_stream.cs_data [OF _ this, of "''hello''"] have "chunk_stream 5 (''hello'' @ [CR, LF]) ''hello''"
    by (simp add: numeral_eq_Suc)
  moreover have "hex 5 = ''5''" by code_simp
  ultimately show ?thesis
    using chunk_stream.cs_size [of 5 "'';x=1''"]
    by (simp add: ulong_max_def chunk_ext_def ends_number_def is_eol_def is_digit_in_def digit_val_def
        ctype_simps tolower_def)
qed


text \<open>
  The restriction on carriage returns is needed: when a piece ends between the carriage return and
  the line feed behind a chunk size, the line feed is taken for the first byte of the chunk.
\<close>

theorem dechunk_split_line_end:
  assumes "c \<noteq> []" "length c < 2 ^ 62"
  shows "\<exists>s'. stream_feed php_http_encoding_dechunk_ops
            (the (php_http_encoding_stream_init (Some php_http_encoding_dechunk_ops) 0))
            [hex (length c) @ [CR], LF # c] = Some (LF # butlast c, s')"
proof -
  let ?n = "of_nat (length c) :: size_t"
  have num: "strtoul 16 (hex (length c) @ [CR]) = (length c, length (hex (length c)))"
    using assms(2) by (intro strtoul_hex) (simp_all add: ulong_max_def)
  have loc: "php_http_locate_bin_eol (hex (length c) @ [CR]) NUL = Some (length (hex (length c)), 1)"
    using hex_not_eol [of "length c"]
    by (simp add: php_http_locate_bin_eol_def index_of_split is_eol_def rd_def nth_append)
  have un: "unat ?n = length c" using assms(2) by (intro unat_of_nat_size_t) simp
  then have n0: "?n \<noteq> 0" using assms(1) by auto
  have one: "dechunk_update_loop False 0 (hex (length c) @ [CR]) [] =
       (Some [], \<lparr>dc_buffer = [], dc_hexlen = ?n, dc_zeroed = False\<rparr>)"
    using num loc n0 by (subst dechunk_update_loop.simps) simp
  have "\<not> of_nat (length (LF # c)) < ?n"
    using assms(2) un by (simp add: word_less_nat_alt unat_of_nat_size_t del: of_nat_Suc)
  then have "dechunk_update_loop False ?n (LF # c) [] =
      dechunk_update_loop False 0 (drop (length c) (LF # c)) (take (length c) (LF # c))"
    using n0 un by (subst dechunk_update_loop.simps) simp
  moreover have "take (length c) (LF # c) = LF # butlast c" 
    using assms(1) by (cases "length c") (simp_all add: butlast_conv_take)
  moreover have "drop (length c) (LF # c) = [last c]" using assms(1) by (cases c rule: rev_cases) simp_all
  moreover have "\<exists>ctx. dechunk_update_loop False 0 [x] tmp = (Some tmp, ctx)" for x tmp
    by (cases "is_eol x") (simp_all add: dechunk_loop_eol dechunk_loop_partial)
  ultimately obtain ctx where two: "dechunk_update_loop False ?n (LF # c) [] = (Some (LF # butlast c), ctx)" by metis
  have "PHP_HTTP_ENCODING_STREAM_DIRTY AND PHP_HTTP_ENCODING_STREAM_FLUSH_FULL = 0"
    by (simp add: PHP_HTTP_ENCODING_STREAM_DIRTY_def PHP_HTTP_ENCODING_STREAM_FLUSH_FULL_def)
  with one two show ?thesis
    by (simp add: php_http_encoding_stream_init_def php_http_encoding_stream_update_def
        php_http_encoding_dechunk_ops_def dechunk_init_def dechunk_update_def)
qed

theorem dechunk_split_line_end_witness:
  "\<exists>s'. stream_feed php_http_encoding_dechunk_ops
      (the (php_http_encoding_stream_init (Some php_http_encoding_dechunk_ops) 0))
      [hex (length ''hello'') @ [CR], LF # ''hello''] = Some (LF # butlast ''hello'', s')"
  by (rule dechunk_split_line_end) simp_all

end
