(* ===== verification/Http_Range.thy ===== *)
theory Http_Range
  imports Http_Prelude
begin

text \<open>
  Byte ranges of a request: \<open>php_http_env_get_request_ranges\<close> of \<open>php_http_env.c\<close>. The value of the
  \<open>Range\<close> header is an argument (looking it up belongs to the request). The two accumulators are
  \<open>long\<close>: a step that would overflow them is undefined and has the result \<^const>\<open>None\<close>.
\<close>

section \<open>Operations\<close>

datatype php_http_range_status = PHP_HTTP_RANGE_NO | PHP_HTTP_RANGE_OK | PHP_HTTP_RANGE_ERR

definition as_long :: "int \<Rightarrow> int option" where
  "as_long v = (if - (2 ^ 63) \<le> v \<and> v < 2 ^ 63 then Some v else None)"

text \<open>A digit: \<open>-1\<close> stands for an empty field and \<open>-10\<close> for a field that is zero so far.\<close>

definition range_digit :: "int \<Rightarrow> char \<Rightarrow> int option" where
  "range_digit v c =
     (if c = CHR ''0'' then (if v \<noteq> -10 then as_long (v * 10) else Some v)
      else if 0 < v then as_long (v * 10 + (schar c - 48))
      else Some (schar c - 48))"

text \<open>
  Validation of one range against a positive length: the range to add, or the status to return.
\<close>

definition range_validate :: "size_t \<Rightarrow> int \<Rightarrow> int \<Rightarrow> php_http_range_status + (int \<times> int)" where
  "range_validate len begin fin =
     (if begin = -10 then
        (if fin = -1 then Inl PHP_HTTP_RANGE_NO
         else if fin = -10 then Inr (0, 0)
         else Inr (0, if len \<le> word_of_int fin then sint (len - 1) else fin))
      else if begin = -1 then
        (if fin = -1 \<or> fin = -10 then Inl PHP_HTTP_RANGE_ERR
         else Inr (sint (len - word_of_int fin), sint (len - 1)))
      else if len \<le> word_of_int begin then Inl PHP_HTTP_RANGE_ERR
      else if fin = -10 then Inl PHP_HTTP_RANGE_ERR
      else if fin = -1 then Inr (begin, sint (len - 1))
      else if len \<le> word_of_int fin then Inr (begin, sint (len - 1))
      else if fin < begin then Inl PHP_HTTP_RANGE_ERR
      else Inr (begin, fin))"

text \<open>The scanning loop. \<open>to_end\<close> tells whether \<open>ptr\<close> points to \<open>end\<close>.\<close>

fun ranges_loop ::
  "size_t \<Rightarrow> bytes \<Rightarrow> int \<Rightarrow> int \<Rightarrow> bool \<Rightarrow> (int \<times> int) list \<Rightarrow>
     (php_http_range_status \<times> (int \<times> int) list) option" where
  "ranges_loop len [] begin fin to_end ranges =
     (case (if len \<noteq> 0 then range_validate len begin fin else Inr (begin, fin)) of
        Inl st \<Rightarrow> Some (st, ranges)
      | Inr r \<Rightarrow> Some (PHP_HTTP_RANGE_OK, ranges @ [r]))"
| "ranges_loop len (c # rp) begin fin to_end ranges =
     (if isdigit c then
        (if to_end then do { v \<leftarrow> range_digit fin c; ranges_loop len rp begin v to_end ranges }
         else do { v \<leftarrow> range_digit begin c; ranges_loop len rp v fin to_end ranges })
      else if c = CHR ''-'' then ranges_loop len rp begin fin True ranges
      else if c = SP then ranges_loop len rp begin fin to_end ranges
      else if c = CHR '','' then
        (case (if len \<noteq> 0 then range_validate len begin fin else Inr (begin, fin)) of
           Inl st \<Rightarrow> Some (st, ranges)
         | Inr r \<Rightarrow> ranges_loop len rp (-1) (-1) False (ranges @ [r]))
      else Some (PHP_HTTP_RANGE_NO, ranges))"

definition php_http_env_get_request_ranges ::
  "size_t \<Rightarrow> bytes option \<Rightarrow> (php_http_range_status \<times> (int \<times> int) list) option" where
  "php_http_env_get_request_ranges len hdr =
     (case hdr of
        None \<Rightarrow> Some (PHP_HTTP_RANGE_NO, [])
      | Some rng \<Rightarrow>
          if take 6 (cstr rng) \<noteq> ''bytes='' then Some (PHP_HTTP_RANGE_NO, [])
          else ranges_loop len (drop 6 (cstr rng)) (-1) (-1) False [])"

section \<open>Lemmas\<close>

text \<open>The values the accumulators can take.\<close>

definition field_ok :: "int \<Rightarrow> bool" where
  "field_ok v \<longleftrightarrow> v = -1 \<or> v = -10 \<or> (0 < v \<and> v < 2 ^ 63)"

lemma range_digit_ok:
  assumes "range_digit v c = Some w" "isdigit c" "field_ok v"
  shows "field_ok w"
proof -
  have "c = CHR ''0'' \<or> 0 < schar c - 48"
  proof -
    have "uchar c = 48 \<Longrightarrow> c = CHR ''0''" by (rule uchar_inj) simp
    with assms(2) show ?thesis by (auto simp: schar_def ctype_simps)
  qed
  moreover have "schar c - 48 \<le> 9" using assms(2) by (auto simp: schar_def ctype_simps)
  ultimately show ?thesis
    using assms(1,3) by (auto simp: range_digit_def as_long_def field_ok_def split: if_splits)
qed

lemma word_of_long: "0 \<le> v \<Longrightarrow> v < 2 ^ 63 \<Longrightarrow> uint (word_of_int v :: size_t) = v"
  by (simp add: unsigned_of_int take_bit_int_eq_self)

lemma sint_long: "-(2 ^ 63) \<le> v \<Longrightarrow> v < 2 ^ 63 \<Longrightarrow> sint (word_of_int v :: size_t) = v"
  by (simp add: signed_of_int signed_take_bit_int_eq_self)

text \<open>A validated range lies below the length and is not empty.\<close>

lemma range_validate_ok:
  assumes "range_validate len b f = Inr (x, y)" "field_ok b" "field_ok f" "0 < uint len" "uint len < 2 ^ 63"
  shows "x \<le> y \<and> y < uint len \<and> (0 \<le> x \<or> (b = -1 \<and> x = uint len - f))"
proof -
  define n where "n = uint len"
  have len: "len = word_of_int n" by (simp add: n_def)
  have n: "0 < n" "n < 2 ^ 63" using assms by (simp_all add: n_def)
  have s1: "sint (len - 1) = n - 1"
    using sint_long [of "n - 1"] n by (simp add: len)
  have s2: "sint (len - word_of_int v) = n - v" if "0 < v" "v < 2 ^ 63" for v
    using sint_long [of "n - v"] n that by (simp add: len)
  have le: "len \<le> word_of_int v \<longleftrightarrow> n \<le> v" if "0 < v" "v < 2 ^ 63" for v
    using that by (simp add: word_le_def word_of_long n_def)
  show ?thesis
    using assms(1-3) n unfolding n_def [symmetric] range_validate_def field_ok_def s1
    by (auto simp: le s2 split: if_splits)
qed

lemma range_validate_status: "range_validate len b f \<noteq> Inl PHP_HTTP_RANGE_OK"
  by (simp add: range_validate_def)

lemma get_ranges_bytes:
  "NUL \<notin> set r \<Longrightarrow> php_http_env_get_request_ranges len (Some (''bytes='' @ r)) = ranges_loop len r (-1) (-1) False []"
  by (simp add: php_http_env_get_request_ranges_def numeral_eq_Suc)

lemma ranges_loop_ok:
  assumes "ranges_loop len rp b f t rs = Some (PHP_HTTP_RANGE_OK, out)"
    "field_ok b" "field_ok f" "0 < uint len" "uint len < 2 ^ 63"
    "\<forall>(x, y)\<in>set rs. x \<le> y \<and> y < uint len"
  shows "\<forall>(x, y)\<in>set out. x \<le> y \<and> y < uint len"
  using assms
proof (induction len rp b f t rs rule: ranges_loop.induct)
  case (1 len b f t rs)
  then show ?case
    using range_validate_ok [of len b f] by (auto split: sum.splits if_splits)
next
  case (2 len c rp b f t rs)
  have len0: "len \<noteq> 0" using "2.prems"(4) by auto
  consider "isdigit c" "t" | "isdigit c" "\<not> t" | "\<not> isdigit c" "c = CHR ''-''"
    | "\<not> isdigit c" "c = SP" | "\<not> isdigit c" "c = CHR '',''"
    using "2.prems"(1) by (auto split: if_splits)
  then show ?case
  proof cases
    case 1
    with "2.prems"(1) obtain v where v: "range_digit f c = Some v"
      "ranges_loop len rp b v True rs = Some (PHP_HTTP_RANGE_OK, out)" by (auto split: bind_splits)
    from range_digit_ok [OF v(1)] 1 "2.prems" have "field_ok v" by blast
    with 1 v "2.IH"(1) [of v] "2.prems" show ?thesis by simp
  next
    case 2
    with "2.prems"(1) obtain v where v: "range_digit b c = Some v"
      "ranges_loop len rp v f False rs = Some (PHP_HTTP_RANGE_OK, out)" by (auto split: bind_splits)
    from range_digit_ok [OF v(1)] 2 "2.prems" have "field_ok v" by blast
    with 2 v "2.IH"(2) [of v] "2.prems" show ?thesis by simp
  next
    case 3
    with "2.IH"(3) "2.prems" show ?thesis by simp
  next
    case 4
    with "2.IH"(4) "2.prems" show ?thesis by simp
  next
    case 5
    with "2.prems"(1) len0 obtain x y where r: "range_validate len b f = Inr (x, y)"
      "ranges_loop len rp (-1) (-1) False (rs @ [(x, y)]) = Some (PHP_HTTP_RANGE_OK, out)"
      by (auto simp: range_validate_status split: sum.splits)
    have "x \<le> y \<and> y < uint len" using range_validate_ok [OF r(1)] "2.prems" by blast
    with 5 r len0 "2.IH"(5) [of "(x, y)"] "2.prems" show ?thesis by (simp add: field_ok_def)
  qed
qed

text \<open>Scanning a printed number.\<close>

definition field_of :: "nat \<Rightarrow> int" where "field_of n = (if n = 0 then -10 else int n)"

fun range_digits :: "int \<Rightarrow> bytes \<Rightarrow> int option" where
  "range_digits v [] = Some v"
| "range_digits v (c # cs) = do { v \<leftarrow> range_digit v c; range_digits v cs }"

lemma range_digits_append: "range_digits v (xs @ ys) = do { v \<leftarrow> range_digits v xs; range_digits v ys }"
  by (induction xs arbitrary: v) auto

lemma range_digit_chr:
  assumes "d < 10"
  shows "range_digit (-1) (digit_chr d) = Some (field_of d)"
    and "0 < m \<Longrightarrow> m * 10 + d < 2 ^ 63 \<Longrightarrow> range_digit (int m) (digit_chr d) = Some (field_of (m * 10 + d))"
proof -
  have u: "uchar (digit_chr d) = 48 + d" "schar (digit_chr d) = 48 + int d"
    using assms by (simp_all add: digit_chr_def schar_def)
  have z: "digit_chr d = CHR ''0'' \<longleftrightarrow> d = 0" using u uchar_inj [of "digit_chr d" "CHR ''0''"] by auto
  show "range_digit (-1) (digit_chr d) = Some (field_of d)"
    using u z by (simp add: range_digit_def field_of_def as_long_def)
  show "range_digit (int m) (digit_chr d) = Some (field_of (m * 10 + d))" if "0 < m" "m * 10 + d < 2 ^ 63"
    using u z that by (simp add: range_digit_def field_of_def as_long_def)
qed

lemma range_digits_dec: "n < 2 ^ 63 \<Longrightarrow> range_digits (-1) (dec n) = Some (field_of n)"
proof (induction n rule: less_induct)
  case (less n)
  show ?case
  proof (cases "n < 10")
    case True
    then show ?thesis using range_digit_chr(1) [OF True] by (subst print_num.simps) simp
  next
    case False
    then have "range_digits (-1) (dec (n div 10)) = Some (int (n div 10))"
      using less by (simp add: field_of_def)
    moreover have "range_digit (int (n div 10)) (digit_chr (n mod 10)) = Some (field_of (n div 10 * 10 + n mod 10))"
      using False less.prems by (intro range_digit_chr(2)) simp_all
    ultimately show ?thesis
      using False by (subst print_num.simps) (simp add: range_digits_append)
  qed
qed

lemma ranges_loop_digits:
  assumes "\<forall>c\<in>set ds. isdigit c"
  shows "range_digits b ds = Some v \<Longrightarrow> ranges_loop len (ds @ r) b f False rs = ranges_loop len r v f False rs"
    and "range_digits f ds = Some v \<Longrightarrow> ranges_loop len (ds @ r) b f True rs = ranges_loop len r b v True rs"
  using assms by (induction ds arbitrary: b f) (auto split: bind_splits)

section \<open>Printing\<close>

fun print_ranges :: "(nat \<times> nat) list \<Rightarrow> bytes" where
  "print_ranges [] = []"
| "print_ranges [(b, e)] = dec b @ ''-'' @ dec e"
| "print_ranges ((b, e) # rs) = dec b @ ''-'' @ dec e @ '','' @ print_ranges rs"

lemma ranges_loop_one:
  assumes "b < 2 ^ 63" "e < 2 ^ 63"
  shows "ranges_loop len (dec b @ ''-'' @ dec e @ r) (-1) (-1) False rs =
           ranges_loop len r (field_of b) (field_of e) True rs"
proof -
  have "\<not> isdigit (CHR ''-'')" by (simp add: ctype_simps)
  with ranges_loop_digits [OF dec_isdigit] range_digits_dec assms show ?thesis by simp
qed

lemma range_validate_fields:
  assumes "b \<le> e" "e < unat len" "unat len < 2 ^ 63"
  shows "range_validate len (field_of b) (field_of e) = Inr (int b, int e)"
proof -
  have "\<not> len \<le> word_of_int (int k)" if "k \<le> e" for k
    using assms that by (simp add: word_le_nat_alt unat_of_nat_size_t)
  with assms show ?thesis by (auto simp: range_validate_def field_of_def)
qed

lemma ranges_loop_print:
  assumes "rs \<noteq> []" "\<forall>(b, e)\<in>set rs. b \<le> e \<and> e < unat len" "unat len < 2 ^ 63"
  shows "ranges_loop len (print_ranges rs) (-1) (-1) False out =
           Some (PHP_HTTP_RANGE_OK, out @ map (\<lambda>(b, e). (int b, int e)) rs)"
  using assms
proof (induction rs arbitrary: out rule: print_ranges.induct)
  case 1
  then show ?case by simp
next
  case (2 b e)
  then have "len \<noteq> 0" by auto
  with 2 ranges_loop_one [of b e len "[]" out] range_validate_fields [of b e len] show ?case by simp
next
  case (3 b e r rs)
  then have "len \<noteq> 0" by auto
  with 3 ranges_loop_one [of b e len "CHR '','' # print_ranges (r # rs)" out] range_validate_fields [of b e len]
  show ?case by (simp add: ctype_simps)
qed

lemma print_ranges_no_NUL: "NUL \<notin> set (print_ranges rs)"
proof -
  have "NUL \<notin> set (dec n)" for n using dec_isdigit [of n] by (auto simp: ctype_simps)
  then show ?thesis by (induction rs rule: print_ranges.induct) auto
qed

section \<open>Results\<close>

text \<open>
  C39. Accepted ranges lie inside the content: when \<open>php_http_env_get_request_ranges\<close> answers
  \<open>OK\<close> for a positive length, each range it stores has its first position at most its last one,
  and the last one below the length.
\<close>

theorem request_ranges_bounded:
  assumes "php_http_env_get_request_ranges len hdr = Some (PHP_HTTP_RANGE_OK, ranges)"
    "0 < uint len" "uint len < 2 ^ 63" "(b, e) \<in> set ranges"
  shows "b \<le> e \<and> e < uint len"
proof -
  obtain rng where "ranges_loop len (drop 6 (cstr rng)) (-1) (-1) False [] = Some (PHP_HTTP_RANGE_OK, ranges)"
    using assms(1) by (auto simp: php_http_env_get_request_ranges_def split: option.splits if_splits)
  with ranges_loop_ok [OF this] assms show ?thesis by (auto simp: field_ok_def)
qed

theorem request_ranges_bounded_witness: "(5 :: int) \<le> 9 \<and> 9 < uint (10 :: size_t)"
proof (rule request_ranges_bounded)
  show "php_http_env_get_request_ranges 10 (Some ''bytes=0-0, 5-20'') = Some (PHP_HTTP_RANGE_OK, [(0, 0), (5, 9)])"
    by code_simp
qed simp_all

text \<open>
  C40. Printed ranges are recognised exactly: for any non-empty list of ranges inside the content the
  header \<open>bytes=b-e,...\<close> is accepted and gives back these ranges in their order.
\<close>

theorem request_ranges_roundtrip:
  assumes "rs \<noteq> []" "\<forall>(b, e)\<in>set rs. b \<le> e \<and> e < unat len" "unat len < 2 ^ 63"
  shows "php_http_env_get_request_ranges len (Some (''bytes='' @ print_ranges rs)) =
           Some (PHP_HTTP_RANGE_OK, map (\<lambda>(b, e). (int b, int e)) rs)"
  using ranges_loop_print [OF assms, of "[]"] print_ranges_no_NUL [of rs]
  by (simp add: get_ranges_bytes del: append.simps)

theorem request_ranges_roundtrip_witness:
  "php_http_env_get_request_ranges 1000 (Some (''bytes='' @ print_ranges [(0, 99), (500, 999)])) =
     Some (PHP_HTTP_RANGE_OK, map (\<lambda>(b, e). (int b, int e)) [(0, 99), (500, 999)])"
  by (rule request_ranges_roundtrip) simp_all

text \<open>
  A suffix range longer than the content is accepted with a negative first position: the length of
  the suffix is subtracted from the content length without a check.
\<close>

theorem request_ranges_long_suffix:
  assumes "0 < unat len" "unat len < n" "n < 2 ^ 63"
  shows "php_http_env_get_request_ranges len (Some (''bytes=-'' @ dec n)) =
           Some (PHP_HTTP_RANGE_OK, [(int (unat len) - int n, int (unat len) - 1)])"
proof -
  have u: "uint len = int (unat len)" by simp
  have ul: "0 < uint len" "uint len < int n" using assms unfolding u by linarith+
  have "NUL \<notin> set (dec n)" using dec_isdigit [of n] by (auto simp: ctype_simps)
  moreover have "ranges_loop len (dec n @ []) (-1) (-1) True [] = ranges_loop len [] (-1) (int n) True []"
    using assms by (intro ranges_loop_digits(2) [OF dec_isdigit]) (simp add: range_digits_dec field_of_def)
  moreover have "sint (len - word_of_int (int n)) = int (unat len) - int n" "sint (len - 1) = int (unat len) - 1"
    using sint_long [of "uint len - int n"] sint_long [of "uint len - 1"] ul assms by simp_all
  ultimately show ?thesis
    using assms get_ranges_bytes [of "CHR ''-'' # dec n" len] by (auto simp: range_validate_def ctype_simps)
qed

theorem request_ranges_long_suffix_witness:
  "php_http_env_get_request_ranges 10 (Some (''bytes=-'' @ dec 15)) =
     Some (PHP_HTTP_RANGE_OK, [(int (unat (10 :: size_t)) - int 15, int (unat (10 :: size_t)) - 1)])"
  by (rule request_ranges_long_suffix) simp_all

end
