(* ===== verification/Http_Version.thy ===== *)
theory Http_Version
  imports Http_Prelude
begin

text \<open>
  The protocol version of \<open>php_http_version.c\<close>: parsing and printing. The argument of the parser
  is the memory at the pointer, so bytes behind a terminator can be given; diagnostics are not part
  of the result.
\<close>

section \<open>Operations\<close>

record php_http_version =
  ver_major :: "32 word"
  ver_minor :: "32 word"

definition php_http_version_init :: "32 word \<Rightarrow> 32 word \<Rightarrow> php_http_version" where
  "php_http_version_init major minor = \<lparr>ver_major = major, ver_minor = minor\<rparr>"

text \<open>The digits at \<open>ptr\<close>, from the label \<open>default\<close> on.\<close>

definition version_digits :: "bytes \<Rightarrow> php_http_version option" where
  "version_digits ptr =
     (let major = schar (rd ptr 0) - 48 in
      if 0 \<le> major \<and> major \<le> 9
      then let separator = rd ptr 1 in
        if separator = SP \<and> major \<le> 1 then None
        else let minor = (if separator = SP then 0 else schar (rd ptr 2) - 48) in
          if 0 \<le> minor \<and> minor \<le> 9
          then Some (php_http_version_init (word_of_int major) (word_of_int minor))
          else None
      else None)"

definition php_http_version_parse :: "bytes \<Rightarrow> php_http_version option" where
  "php_http_version_parse str =
     (if rd str 0 = CHR ''h'' \<or> rd str 0 = CHR ''H''
      then if rd str 1 \<noteq> CHR ''t'' \<and> rd str 1 \<noteq> CHR ''T'' then None
      else if rd str 2 \<noteq> CHR ''t'' \<and> rd str 2 \<noteq> CHR ''T'' then None
      else if rd str 3 \<noteq> CHR ''p'' \<and> rd str 3 \<noteq> CHR ''P'' then None
      else if rd str 4 \<noteq> CHR ''/'' then None
      else version_digits (drop 5 str)
      else version_digits str)"

definition STR_PTR :: "bytes option \<Rightarrow> bytes" where
  "STR_PTR s = (case s of None \<Rightarrow> [] | Some t \<Rightarrow> t)"

definition php_http_version_to_string ::
  "php_http_version \<Rightarrow> bytes option \<Rightarrow> bytes option \<Rightarrow> bytes" where
  "php_http_version_to_string v pre post =
     (if ver_major v = 2 then STR_PTR pre @ ''2'' @ STR_PTR post
      else STR_PTR pre @ dec (unat (ver_major v)) @ ''.'' @ dec (unat (ver_minor v)) @ STR_PTR post)"

section \<open>Lemmas\<close>

lemma schar_digit: "0 \<le> schar c - 48 \<and> schar c - 48 \<le> 9 \<longleftrightarrow> isdigit c"
  using uchar_less_256 [of c] by (auto simp: schar_def ctype_simps simp del: uchar_less_256)

lemma schar_isdigit: "isdigit c \<Longrightarrow> schar c - 48 = int (uchar c - 48)"
  by (auto simp: schar_def ctype_simps)

lemma dec_digit: "d \<le> 9 \<Longrightarrow> dec d = [char_of (48 + d)]"
  by (subst print_num.simps) (simp add: digit_chr_def)

text \<open>The version digits read back: \<open>major . minor\<close>, or \<open>major\<close> and a space.\<close>

lemma version_digits_dot:
  assumes "M \<le> 9" "m \<le> 9" "sep \<noteq> SP"
  shows "version_digits (char_of (48 + M) # sep # char_of (48 + m) # r) =
           Some (php_http_version_init (of_nat M) (of_nat m))"
  using assms by (simp add: version_digits_def schar_def numeral_2_eq_2 Let_def)

lemma version_digits_space:
  assumes "2 \<le> M" "M \<le> 9"
  shows "version_digits (char_of (48 + M) # SP # r) = Some (php_http_version_init (of_nat M) 0)"
  using assms by (simp add: version_digits_def schar_def Let_def)

lemma version_digits_range:
  assumes "version_digits p = Some v"
  shows "unat (ver_major v) \<le> 9 \<and> unat (ver_minor v) \<le> 9"
proof -
  have "unat (word_of_int k :: 32 word) \<le> 9" if "0 \<le> k" "k \<le> 9" for k
    using that by (simp add: unsigned_of_int take_bit_int_eq_self)
  with assms show ?thesis
    by (auto simp: version_digits_def php_http_version_init_def Let_def split: if_splits
        simp del: of_int_diff)
qed

lemma version_parse_digits:
  assumes "php_http_version_parse s = Some v"
  shows "version_digits s = Some v \<or> version_digits (drop 5 s) = Some v"
  using assms by (auto simp: php_http_version_parse_def split: if_splits)

lemma version_parse_HTTP [simp]:
  "php_http_version_parse (CHR ''H'' # CHR ''T'' # CHR ''T'' # CHR ''P'' # CHR ''/'' # r) = version_digits r"
  by (simp add: php_http_version_parse_def numeral_2_eq_2 numeral_3_eq_3 numeral_eq_Suc)

section \<open>Results\<close>

text \<open>
  Printing and parsing a version are inverse: what \<open>php_http_version_to_string\<close> writes after
  the prefix \<open>HTTP/\<close> for single-digit numbers is read back by \<open>php_http_version_parse\<close>, whatever
  text follows. For major version 2 only the major number is printed, so the minor number has to be 0
  and the text that follows has to begin with a space.
\<close>

theorem version_print_parse:
  assumes "unat (ver_major v) \<le> 9" "unat (ver_minor v) \<le> 9"
    "ver_major v = 2 \<longrightarrow> ver_minor v = 0 \<and> (\<exists>r. post = SP # r)"
  shows "php_http_version_parse (php_http_version_to_string v (Some ''HTTP/'') (Some post)) = Some v"
proof (cases "ver_major v = 2")
  case True
  with assms(3) obtain r where "ver_minor v = 0" "post = SP # r" by auto
  moreover have "char_of (50 :: nat) = CHR ''2''" by code_simp
  ultimately show ?thesis
    using True version_digits_space [of 2 r]
    by (simp add: php_http_version_to_string_def STR_PTR_def php_http_version_init_def)
next
  case False
  with assms version_digits_dot [of "unat (ver_major v)" "unat (ver_minor v)" "CHR ''.''" post] show ?thesis
    by (simp add: php_http_version_to_string_def STR_PTR_def php_http_version_init_def dec_digit)
qed

theorem version_print_parse_witness:
  "php_http_version_parse (php_http_version_to_string \<lparr>ver_major = 1, ver_minor = 1\<rparr> (Some ''HTTP/'') (Some '' 200 OK''))
     = Some \<lparr>ver_major = 1, ver_minor = 1\<rparr>"
  by (rule version_print_parse) simp_all

text \<open>
  A version 2 line without anything behind the version is printed but not read back: the line end
  is taken for a separator.
\<close>

lemma version2_line_end_rejected:
  "php_http_version_parse (php_http_version_to_string \<lparr>ver_major = 2, ver_minor = 0\<rparr> (Some ''HTTP/'') (Some [CR, LF])) = None"
  by (simp add: php_http_version_to_string_def STR_PTR_def version_digits_def schar_def Let_def
      numeral_2_eq_2)

end
