(* ===== verification/Http_Zend.thy ===== *)
theory Http_Zend
  imports Http_Misc
begin

text \<open>
  The values of the host language: \<open>zval\<close> and the ordered hash table of the Zend Engine, as far as
  the sources use them. A table keeps its elements in insertion order together with the next free
  index; an update of an existing key keeps the position of the element. \<open>ZUndef\<close> is an element without
  a value (\<open>IS_UNDEF\<close>), which lookups find and loops over a table skip.
\<close>

section \<open>Values and tables\<close>

datatype zkey = KInt int | KStr bytes

datatype zval =
    ZUndef
  | ZNull
  | ZBool bool
  | ZLong int
  | ZStr bytes
  | ZArr int "(zkey \<times> zval) list"

type_synonym hashtable = "int \<times> (zkey \<times> zval) list"

definition zend_hash_init :: hashtable where "zend_hash_init = (0, [])"

fun assoc_update :: "'k \<Rightarrow> 'v \<Rightarrow> ('k \<times> 'v) list \<Rightarrow> ('k \<times> 'v) list" where
  "assoc_update k v [] = [(k, v)]"
| "assoc_update k v ((k', v') # r) = (if k' = k then (k, v) # r else (k', v') # assoc_update k v r)"

definition next_free :: "zkey \<Rightarrow> int \<Rightarrow> int" where
  "next_free k n = (case k of KInt i \<Rightarrow> if n \<le> i then i + 1 else n | KStr _ \<Rightarrow> n)"

definition zend_hash_find :: "hashtable \<Rightarrow> zkey \<Rightarrow> zval option" where
  "zend_hash_find ht k = map_of (snd ht) k"

definition zend_hash_update :: "hashtable \<Rightarrow> zkey \<Rightarrow> zval \<Rightarrow> hashtable" where
  "zend_hash_update ht k v = (next_free k (fst ht), assoc_update k v (snd ht))"

definition zend_hash_del :: "hashtable \<Rightarrow> zkey \<Rightarrow> hashtable" where
  "zend_hash_del ht k = (fst ht, filter (\<lambda>e. fst e \<noteq> k) (snd ht))"

definition zend_hash_next_index_insert :: "hashtable \<Rightarrow> zval \<Rightarrow> hashtable" where
  "zend_hash_next_index_insert ht v = zend_hash_update ht (KInt (fst ht)) v"

definition zend_hash_num_elements :: "hashtable \<Rightarrow> nat" where
  "zend_hash_num_elements ht = length (snd ht)"

text \<open>The elements a loop over the table visits.\<close>

definition live :: "hashtable \<Rightarrow> (zkey \<times> zval) list" where
  "live ht = filter (\<lambda>e. snd e \<noteq> ZUndef) (snd ht)"

definition zarr :: "hashtable \<Rightarrow> zval" where "zarr ht = ZArr (fst ht) (snd ht)"

text \<open>\<open>convert_to_array\<close>: a scalar becomes a one-element list, null an empty one.\<close>

definition convert_to_array :: "zval \<Rightarrow> hashtable" where
  "convert_to_array v =
     (case v of ZArr n es \<Rightarrow> (n, es) | ZNull \<Rightarrow> zend_hash_init | ZUndef \<Rightarrow> zend_hash_init
      | _ \<Rightarrow> zend_hash_next_index_insert zend_hash_init v)"

text \<open>
  Symbol tables of the host convert decimal keys to integers (\<open>ZEND_HANDLE_NUMERIC_STR\<close>): digits
  without leading zero, optionally negative, in the range of a 64-bit integer.
\<close>

definition numeric_key :: "bytes \<Rightarrow> int option" where
  "numeric_key s =
     (let neg = (s \<noteq> [] \<and> hd s = CHR ''-''); ds = (if neg then tl s else s); v = int (digits_val 10 ds) in
      if ds \<noteq> [] \<and> (\<forall>c\<in>set ds. isdigit c) \<and> (hd ds = CHR ''0'' \<longrightarrow> ds = ''0'' \<and> \<not> neg) \<and>
         (if neg then v \<le> 2 ^ 63 else v \<le> 2 ^ 63 - 1)
      then Some (if neg then - v else v) else None)"

definition symtable_key :: "bytes \<Rightarrow> zkey" where
  "symtable_key s = (case numeric_key s of Some i \<Rightarrow> KInt i | None \<Rightarrow> KStr s)"

lemma digit_chr_0: "digit_chr 0 = CHR ''0''"
  by code_simp

section \<open>Interface\<close>

text \<open>What clients of a table rely on: a finite map, and the order of first insertion.\<close>

locale ordered_map =
  fixes minv :: "'m \<Rightarrow> bool" and find :: "'m \<Rightarrow> 'k \<Rightarrow> 'v option" and keys :: "'m \<Rightarrow> 'k list"
    and upd :: "'m \<Rightarrow> 'k \<Rightarrow> 'v \<Rightarrow> 'm" and del :: "'m \<Rightarrow> 'k \<Rightarrow> 'm"
  assumes find_upd: "minv m \<Longrightarrow> find (upd m k v) k' = (if k' = k then Some v else find m k')"
    and find_del: "minv m \<Longrightarrow> find (del m k) k' = (if k' = k then None else find m k')"
    and keys_find: "minv m \<Longrightarrow> set (keys m) = {k. find m k \<noteq> None}"
    and keys_upd: "minv m \<Longrightarrow> keys (upd m k v) = (if find m k = None then keys m @ [k] else keys m)"
    and inv_upd: "minv m \<Longrightarrow> minv (upd m k v)"
    and inv_del: "minv m \<Longrightarrow> minv (del m k)"
    and keys_distinct: "minv m \<Longrightarrow> distinct (keys m)"
begin

lemma upd_all:
  assumes "minv m"
  shows "minv (fold (\<lambda>(k, v) m. upd m k v) es m)"
    and "find (fold (\<lambda>(k, v) m. upd m k v) es m) k' =
           (case map_of (rev es) k' of None \<Rightarrow> find m k' | Some v \<Rightarrow> Some v)"
  using assms by (induction es arbitrary: m) (auto simp: inv_upd find_upd map_add_def split: option.splits)

lemma upd_upd: "minv m \<Longrightarrow> find (upd (upd m k v) k w) = find (upd m k w)"
  by (rule ext) (simp add: find_upd inv_upd)

end

definition ht_inv :: "hashtable \<Rightarrow> bool" where
  "ht_inv ht \<longleftrightarrow> distinct (map fst (snd ht)) \<and> (\<forall>i. KInt i \<in> fst ` set (snd ht) \<longrightarrow> i < fst ht)"

lemma map_of_assoc_update: "map_of (assoc_update k v es) k' = (if k' = k then Some v else map_of es k')"
  by (induction es) auto

lemma keys_assoc_update:
  "map fst (assoc_update k v es) = (if k \<in> set (map fst es) then map fst es else map fst es @ [k])"
  by (induction es) (auto simp del: image_set set_map)

lemma set_assoc_update: "fst ` set (assoc_update k v es) = insert k (fst ` set es)"
proof -
  have "set (map fst (assoc_update k v es)) = insert k (set (map fst es))"
    unfolding keys_assoc_update by auto
  then show ?thesis by simp
qed

lemma map_of_filter_key: "map_of (filter (\<lambda>e. fst e \<noteq> k) es) k' = (if k' = k then None else map_of es k')"
  by (induction es) auto

interpretation zht: ordered_map ht_inv zend_hash_find "\<lambda>ht. map fst (snd ht)" zend_hash_update zend_hash_del
proof unfold_locales
  fix m :: hashtable and k k' v
  assume inv: "ht_inv m"
  show "zend_hash_find (zend_hash_update m k v) k' = (if k' = k then Some v else zend_hash_find m k')"
    by (simp add: zend_hash_find_def zend_hash_update_def map_of_assoc_update)
  show "zend_hash_find (zend_hash_del m k) k' = (if k' = k then None else zend_hash_find m k')"
    by (simp add: zend_hash_find_def zend_hash_del_def map_of_filter_key)
  show "set (map fst (snd m)) = {k. zend_hash_find m k \<noteq> None}"
    by (auto simp: zend_hash_find_def map_of_eq_None_iff)
  show "map fst (snd (zend_hash_update m k v)) =
      (if zend_hash_find m k = None then map fst (snd m) @ [k] else map fst (snd m))"
    by (simp add: zend_hash_find_def zend_hash_update_def keys_assoc_update map_of_eq_None_iff)
  show "ht_inv (zend_hash_update m k v)"
    using inv unfolding ht_inv_def zend_hash_update_def
    by (auto simp: keys_assoc_update set_assoc_update next_free_def split: zkey.splits)
  show "ht_inv (zend_hash_del m k)"
    using inv by (auto simp: ht_inv_def zend_hash_del_def distinct_map_filter)
  show "distinct (map fst (snd m))" using inv by (simp add: ht_inv_def)
qed

lemma ht_inv_init [simp]: "ht_inv zend_hash_init"
  by (simp add: ht_inv_def zend_hash_init_def)

lemma next_index_fresh: "ht_inv ht \<Longrightarrow> zend_hash_find ht (KInt (fst ht)) = None"
  by (auto simp: ht_inv_def zend_hash_find_def map_of_eq_None_iff)

lemma assoc_update_fresh: "k \<notin> fst ` set es \<Longrightarrow> assoc_update k v es = es @ [(k, v)]"
  by (induction es) auto

lemma next_index_insert_appends:
  "ht_inv ht \<Longrightarrow> zend_hash_next_index_insert ht v = (fst ht + 1, snd ht @ [(KInt (fst ht), v)])"
  by (auto simp: zend_hash_next_index_insert_def zend_hash_update_def next_free_def ht_inv_def
      intro!: assoc_update_fresh)

section \<open>Merging arrays\<close>

text \<open>String conversion of the modelled values (\<open>zval_get_string\<close>, \<open>convert_to_string\<close>).\<close>

definition print_long :: "int \<Rightarrow> bytes" where
  "print_long i = (if i < 0 then CHR ''-'' # dec (nat (- i)) else dec (nat i))"

definition zval_get_string :: "zval \<Rightarrow> bytes" where
  "zval_get_string v =
     (case v of ZUndef \<Rightarrow> [] | ZNull \<Rightarrow> [] | ZBool b \<Rightarrow> (if b then ''1'' else []) | ZLong i \<Rightarrow> print_long i
      | ZStr s \<Rightarrow> s | ZArr _ _ \<Rightarrow> ''Array'')"

text \<open>Integer conversion (\<open>zval_get_long\<close>); the one of strings is a parameter, an array counts as one if it has elements.\<close>

definition zval_get_long :: "(bytes \<Rightarrow> int) \<Rightarrow> zval \<Rightarrow> int" where
  "zval_get_long str_long v =
     (case v of ZUndef \<Rightarrow> 0 | ZNull \<Rightarrow> 0 | ZBool b \<Rightarrow> (if b then 1 else 0) | ZLong i \<Rightarrow> i | ZStr s \<Rightarrow> str_long s
      | ZArr _ es \<Rightarrow> (if es = [] then 0 else 1))"

text \<open>
  Copies of a table into another one: \<open>array_copy\<close> and \<open>array_copy_strings\<close>, which converts the values.
\<close>

definition array_copy :: "hashtable \<Rightarrow> hashtable \<Rightarrow> hashtable" where
  "array_copy src dst = fold (\<lambda>(k, v) d. zend_hash_update d k v) (live src) dst"

definition array_copy_strings :: "hashtable \<Rightarrow> hashtable \<Rightarrow> hashtable" where
  "array_copy_strings src dst = fold (\<lambda>(k, v) d. zend_hash_update d k (ZStr (zval_get_string v))) (live src) dst"

definition ARRAY_JOIN_STRONLY :: "32 word" where "ARRAY_JOIN_STRONLY = 0x01"
definition ARRAY_JOIN_PRETTIFY :: "32 word" where "ARRAY_JOIN_PRETTIFY = 0x02"
definition ARRAY_JOIN_STRINGIFY :: "32 word" where "ARRAY_JOIN_STRINGIFY = 0x04"

text \<open>The key an element of the source is joined under.\<close>

definition join_key :: "32 word \<Rightarrow> zkey \<Rightarrow> zkey" where
  "join_key flags k =
     (case k of
        KStr s \<Rightarrow> KStr (if flags AND ARRAY_JOIN_PRETTIFY \<noteq> 0 then php_http_pretty_key s True True else s)
      | KInt i \<Rightarrow> KInt i)"

definition join_value :: "32 word \<Rightarrow> zval \<Rightarrow> zval" where
  "join_value flags v = (if flags AND ARRAY_JOIN_STRINGIFY \<noteq> 0 then ZStr (zval_get_string v) else v)"

definition join_skips :: "32 word \<Rightarrow> zkey \<Rightarrow> bool" where
  "join_skips flags k \<longleftrightarrow> flags AND ARRAY_JOIN_STRONLY \<noteq> 0 \<and> (\<exists>i. k = KInt i)"

lemma join_skips_code [code]:
  "join_skips flags k = (flags AND ARRAY_JOIN_STRONLY \<noteq> 0 \<and> (case k of KInt _ \<Rightarrow> True | KStr _ \<Rightarrow> False))"
  by (simp add: join_skips_def split: zkey.splits)

definition php_http_array_apply_append_func :: "32 word \<Rightarrow> zkey \<times> zval \<Rightarrow> hashtable \<Rightarrow> hashtable" where
  "php_http_array_apply_append_func flags = (\<lambda>(k, v) dst.
     if join_skips flags k then dst
     else case zend_hash_find dst (join_key flags k) of
            Some dat \<Rightarrow>
              zend_hash_update dst (join_key flags k)
                (zarr (zend_hash_next_index_insert (convert_to_array dat) (join_value flags v)))
          | None \<Rightarrow> zend_hash_update dst (join_key flags k) (join_value flags v))"

definition php_http_array_apply_merge_func :: "32 word \<Rightarrow> zkey \<times> zval \<Rightarrow> hashtable \<Rightarrow> hashtable" where
  "php_http_array_apply_merge_func flags = (\<lambda>(k, v) dst.
     if join_skips flags k then dst else zend_hash_update dst (join_key flags k) (join_value flags v))"

definition array_join :: "hashtable \<Rightarrow> hashtable \<Rightarrow> bool \<Rightarrow> 32 word \<Rightarrow> hashtable" where
  "array_join src dst app flags =
     fold (if app then php_http_array_apply_append_func flags else php_http_array_apply_merge_func flags) (live src) dst"

lemma array_merge_upd_all:
  "array_join src dst False flags =
     fold (\<lambda>(k, v) m. zend_hash_update m k v)
       (map (\<lambda>(k, v). (join_key flags k, join_value flags v)) (filter (\<lambda>(k, v). \<not> join_skips flags k) (live src))) dst"
proof -
  have "fold (php_http_array_apply_merge_func flags) es dst =
     fold (\<lambda>(k, v) m. zend_hash_update m k v)
       (map (\<lambda>(k, v). (join_key flags k, join_value flags v)) (filter (\<lambda>(k, v). \<not> join_skips flags k) es)) dst" for es
    by (induction es arbitrary: dst) (auto simp: php_http_array_apply_merge_func_def)
  then show ?thesis by (simp add: array_join_def)
qed

section \<open>Results\<close>

text \<open>
  Merging with \<open>array_join\<close> overrides: the value under a key afterwards is the one of the last
  element of the source that is joined under that key (prettified and stringified as the flags say,
  elements with numeric keys left out if the flags say so), and the old one if there is none; the result
  is again a well-formed table.
\<close>

theorem array_merge_lookup:
  assumes "ht_inv dst"
  shows "ht_inv (array_join src dst False flags) \<and>
         zend_hash_find (array_join src dst False flags) k' =
           (case find (\<lambda>(k, v). \<not> join_skips flags k \<and> join_key flags k = k') (rev (live src)) of
              Some (k, v) \<Rightarrow> Some (join_value flags v)
            | None \<Rightarrow> zend_hash_find dst k')"
proof -
  have *: "map_of (map (\<lambda>(k, v). (join_key flags k, join_value flags v)) (filter (\<lambda>(k, v). \<not> join_skips flags k) es)) k' =
      map_option (\<lambda>(k, v). join_value flags v) (find (\<lambda>(k, v). \<not> join_skips flags k \<and> join_key flags k = k') es)" for es
    by (induction es) auto
  have "ht_inv (array_join src dst False flags)"
    unfolding array_merge_upd_all by (rule zht.upd_all(1) [OF assms])
  moreover have "zend_hash_find (array_join src dst False flags) k' =
      (case map_option (\<lambda>(k, v). join_value flags v)
         (find (\<lambda>(k, v). \<not> join_skips flags k \<and> join_key flags k = k') (rev (live src))) of
         None \<Rightarrow> zend_hash_find dst k' | Some v \<Rightarrow> Some v)"
    unfolding array_merge_upd_all zht.upd_all(2) [OF assms] * [symmetric] by (simp add: rev_map rev_filter)
  ultimately show ?thesis by (auto split: option.splits)
qed

theorem array_merge_lookup_witness:
  "ht_inv (array_join (2, [(KStr ''host'', ZStr ''a''), (KStr ''HOST'', ZStr ''b'')]) zend_hash_init False ARRAY_JOIN_PRETTIFY) \<and>
   zend_hash_find (array_join (2, [(KStr ''host'', ZStr ''a''), (KStr ''HOST'', ZStr ''b'')]) zend_hash_init False ARRAY_JOIN_PRETTIFY)
     (KStr ''Host'') =
     (case find (\<lambda>(k, v). \<not> join_skips ARRAY_JOIN_PRETTIFY k \<and> join_key ARRAY_JOIN_PRETTIFY k = KStr ''Host'')
             (rev (live (2 :: int, [(KStr ''host'', ZStr ''a''), (KStr ''HOST'', ZStr ''b'')]))) of
        Some (k, v) \<Rightarrow> Some (join_value ARRAY_JOIN_PRETTIFY v)
      | None \<Rightarrow> zend_hash_find zend_hash_init (KStr ''Host''))"
  by (rule array_merge_lookup) simp

end
