(* ===== verification/Http_Utf8.thy ===== *)
theory Http_Utf8
  imports Http_Prelude
begin

text \<open>
  Multibyte characters, \<open>php_http_utf8.h\<close>: decoding one UTF-8 sequence, the binary search for
  letters in two tables, and UTF-16 units. Code points are natural numbers below \<open>2^32\<close>.
\<close>

section \<open>Decoding\<close>

definition utf8_mblen :: "nat list" where
  "utf8_mblen = replicate 192 1 @ replicate 32 2 @ replicate 16 3 @ replicate 8 4 @ replicate 4 5 @ replicate 4 6"

definition utf8_mask :: "nat list" where
  "utf8_mask = [0, 0x7f, 0x1f, 0x0f, 0x07, 0x03, 0x01]"

text \<open>The continuation bytes of a sequence, most significant first.\<close>

fun utf8_cont :: "nat \<Rightarrow> bytes \<Rightarrow> nat option" where
  "utf8_cont wc [] = Some wc"
| "utf8_cont wc (c # cs) =
     (if uchar c AND 0xc0 \<noteq> 0x80 then None else utf8_cont (wc * 64 + (uchar c AND 0x3f)) cs)"

text \<open>\<open>utf8towc uc len\<close>: the code point and the bytes consumed, \<^const>\<open>None\<close> for the result 0.\<close>

definition utf8towc :: "bytes \<Rightarrow> nat \<Rightarrow> (nat \<times> nat) option" where
  "utf8towc uc len =
     (let ub = utf8_mblen ! uchar (rd uc 0) in
      if ub = 0 \<or> len < ub \<or> 4 < ub then None
      else map_option (\<lambda>wc. (wc, ub))
             (utf8_cont (uchar (rd uc 0) AND utf8_mask ! ub) (map (rd uc) [1..<ub])))"

section \<open>Letters\<close>

definition utf8_ranges :: "(nat \<times> nat) list" where
  "utf8_ranges = [
    (0x41, 0x5A), (0x61, 0x7A), (0xC0, 0xD6), (0xD8, 0xF6), (0xF8, 0x2C1), (0x2C6, 0x2D1),
    (0x2E0, 0x2E4), (0x370, 0x374), (0x376, 0x377), (0x37A, 0x37D), (0x388, 0x38A), (0x38E, 0x3A1),
    (0x3A3, 0x3F5), (0x3F7, 0x481), (0x48A, 0x52F), (0x531, 0x556), (0x561, 0x587), (0x5B0, 0x5BD),
    (0x5C1, 0x5C2), (0x5C4, 0x5C5), (0x5D0, 0x5EA), (0x5F0, 0x5F2), (0x610, 0x61A), (0x620, 0x657),
    (0x659, 0x669), (0x66E, 0x6D3), (0x6D5, 0x6DC), (0x6E1, 0x6E8), (0x6ED, 0x6FC), (0x710, 0x73F),
    (0x74D, 0x7B1), (0x7C0, 0x7EA), (0x7F4, 0x7F5), (0x800, 0x817), (0x81A, 0x82C), (0x840, 0x858),
    (0x860, 0x86A), (0x8A0, 0x8B4), (0x8B6, 0x8BD), (0x8D4, 0x8DF), (0x8E3, 0x8E9), (0x8F0, 0x93B),
    (0x93D, 0x94C), (0x94E, 0x950), (0x955, 0x963), (0x966, 0x96F), (0x971, 0x983), (0x985, 0x98C),
    (0x98F, 0x990), (0x993, 0x9A8), (0x9AA, 0x9B0), (0x9B6, 0x9B9), (0x9BD, 0x9C4), (0x9C7, 0x9C8),
    (0x9CB, 0x9CC), (0x9DC, 0x9DD), (0x9DF, 0x9E3), (0x9E6, 0x9F1), (0xA01, 0xA03), (0xA05, 0xA0A),
    (0xA0F, 0xA10), (0xA13, 0xA28), (0xA2A, 0xA30), (0xA32, 0xA33), (0xA35, 0xA36), (0xA38, 0xA39),
    (0xA3E, 0xA42), (0xA47, 0xA48), (0xA4B, 0xA4C), (0xA59, 0xA5C), (0xA66, 0xA75), (0xA81, 0xA83),
    (0xA85, 0xA8D), (0xA8F, 0xA91), (0xA93, 0xAA8), (0xAAA, 0xAB0), (0xAB2, 0xAB3), (0xAB5, 0xAB9),
    (0xABD, 0xAC5), (0xAC7, 0xAC9), (0xACB, 0xACC), (0xAE0, 0xAE3), (0xAE6, 0xAEF), (0xAF9, 0xAFC),
    (0xB01, 0xB03), (0xB05, 0xB0C), (0xB0F, 0xB10), (0xB13, 0xB28), (0xB2A, 0xB30), (0xB32, 0xB33),
    (0xB35, 0xB39), (0xB3D, 0xB44), (0xB47, 0xB48), (0xB4B, 0xB4C), (0xB56, 0xB57), (0xB5C, 0xB5D),
    (0xB5F, 0xB63), (0xB66, 0xB6F), (0xB82, 0xB83), (0xB85, 0xB8A), (0xB8E, 0xB90), (0xB92, 0xB95),
    (0xB99, 0xB9A), (0xB9E, 0xB9F), (0xBA3, 0xBA4), (0xBA8, 0xBAA), (0xBAE, 0xBB9), (0xBBE, 0xBC2),
    (0xBC6, 0xBC8), (0xBCA, 0xBCC), (0xBE6, 0xBEF), (0xC00, 0xC03), (0xC05, 0xC0C), (0xC0E, 0xC10),
    (0xC12, 0xC28), (0xC2A, 0xC39), (0xC3D, 0xC44), (0xC46, 0xC48), (0xC4A, 0xC4C), (0xC55, 0xC56),
    (0xC58, 0xC5A), (0xC60, 0xC63), (0xC66, 0xC6F), (0xC80, 0xC83), (0xC85, 0xC8C), (0xC8E, 0xC90),
    (0xC92, 0xCA8), (0xCAA, 0xCB3), (0xCB5, 0xCB9), (0xCBD, 0xCC4), (0xCC6, 0xCC8), (0xCCA, 0xCCC),
    (0xCD5, 0xCD6), (0xCE0, 0xCE3), (0xCE6, 0xCEF), (0xCF1, 0xCF2), (0xD00, 0xD03), (0xD05, 0xD0C),
    (0xD0E, 0xD10), (0xD12, 0xD3A), (0xD3D, 0xD44), (0xD46, 0xD48), (0xD4A, 0xD4C), (0xD54, 0xD57),
    (0xD5F, 0xD63), (0xD66, 0xD6F), (0xD7A, 0xD7F), (0xD82, 0xD83), (0xD85, 0xD96), (0xD9A, 0xDB1),
    (0xDB3, 0xDBB), (0xDC0, 0xDC6), (0xDCF, 0xDD4), (0xDD8, 0xDDF), (0xDE6, 0xDEF), (0xDF2, 0xDF3),
    (0xE01, 0xE3A), (0xE40, 0xE46), (0xE50, 0xE59), (0xE81, 0xE82), (0xE87, 0xE88), (0xE94, 0xE97),
    (0xE99, 0xE9F), (0xEA1, 0xEA3), (0xEAA, 0xEAB), (0xEAD, 0xEB9), (0xEBB, 0xEBD), (0xEC0, 0xEC4),
    (0xED0, 0xED9), (0xEDC, 0xEDF), (0xF20, 0xF29), (0xF40, 0xF47), (0xF49, 0xF6C), (0xF71, 0xF81),
    (0xF88, 0xF97), (0xF99, 0xFBC), (0x1000, 0x1036), (0x103B, 0x1049), (0x1050, 0x1062), (0x1065, 0x1068),
    (0x106E, 0x1086), (0x1090, 0x1099), (0x109C, 0x109D), (0x10A0, 0x10C5), (0x10D0, 0x10FA), (0x10FC, 0x1248),
    (0x124A, 0x124D), (0x1250, 0x1256), (0x125A, 0x125D), (0x1260, 0x1288), (0x128A, 0x128D), (0x1290, 0x12B0),
    (0x12B2, 0x12B5), (0x12B8, 0x12BE), (0x12C2, 0x12C5), (0x12C8, 0x12D6), (0x12D8, 0x1310), (0x1312, 0x1315),
    (0x1318, 0x135A), (0x1380, 0x138F), (0x13A0, 0x13F5), (0x13F8, 0x13FD), (0x1401, 0x166C), (0x166F, 0x167F),
    (0x1681, 0x169A), (0x16A0, 0x16EA), (0x16EE, 0x16F8), (0x1700, 0x170C), (0x170E, 0x1713), (0x1720, 0x1733),
    (0x1740, 0x1753), (0x1760, 0x176C), (0x176E, 0x1770), (0x1772, 0x1773), (0x1780, 0x17B3), (0x17B6, 0x17C8),
    (0x17E0, 0x17E9), (0x1810, 0x1819), (0x1820, 0x1877), (0x1880, 0x18AA), (0x18B0, 0x18F5), (0x1900, 0x191E),
    (0x1920, 0x192B), (0x1930, 0x1938), (0x1946, 0x196D), (0x1970, 0x1974), (0x1980, 0x19AB), (0x19B0, 0x19C9),
    (0x19D0, 0x19D9), (0x1A00, 0x1A1B), (0x1A20, 0x1A5E), (0x1A61, 0x1A74), (0x1A80, 0x1A89), (0x1A90, 0x1A99),
    (0x1B00, 0x1B33), (0x1B35, 0x1B43), (0x1B45, 0x1B4B), (0x1B50, 0x1B59), (0x1B80, 0x1BA9), (0x1BAC, 0x1BE5),
    (0x1BE7, 0x1BF1), (0x1C00, 0x1C35), (0x1C40, 0x1C49), (0x1C4D, 0x1C7D), (0x1C80, 0x1C88), (0x1CE9, 0x1CEC),
    (0x1CEE, 0x1CF3), (0x1CF5, 0x1CF6), (0x1D00, 0x1DBF), (0x1DE7, 0x1DF4), (0x1E00, 0x1F15), (0x1F18, 0x1F1D),
    (0x1F20, 0x1F45), (0x1F48, 0x1F4D), (0x1F50, 0x1F57), (0x1F5F, 0x1F7D), (0x1F80, 0x1FB4), (0x1FB6, 0x1FBC),
    (0x1FC2, 0x1FC4), (0x1FC6, 0x1FCC), (0x1FD0, 0x1FD3), (0x1FD6, 0x1FDB), (0x1FE0, 0x1FEC), (0x1FF2, 0x1FF4),
    (0x1FF6, 0x1FFC), (0x2090, 0x209C), (0x210A, 0x2113), (0x2119, 0x211D), (0x212A, 0x212D), (0x212F, 0x2139),
    (0x213C, 0x213F), (0x2145, 0x2149), (0x2160, 0x2188), (0x24B6, 0x24E9), (0x2C00, 0x2C2E), (0x2C30, 0x2C5E),
    (0x2C60, 0x2CE4), (0x2CEB, 0x2CEE), (0x2CF2, 0x2CF3), (0x2D00, 0x2D25), (0x2D30, 0x2D67), (0x2D80, 0x2D96),
    (0x2DA0, 0x2DA6), (0x2DA8, 0x2DAE), (0x2DB0, 0x2DB6), (0x2DB8, 0x2DBE), (0x2DC0, 0x2DC6), (0x2DC8, 0x2DCE),
    (0x2DD0, 0x2DD6), (0x2DD8, 0x2DDE), (0x2DE0, 0x2DFF), (0x3005, 0x3007), (0x3021, 0x3029), (0x3031, 0x3035),
    (0x3038, 0x303C), (0x3041, 0x3096), (0x309D, 0x309F), (0x30A1, 0x30FA), (0x30FC, 0x30FF), (0x3105, 0x312E),
    (0x3131, 0x318E), (0x31A0, 0x31BA), (0x31F0, 0x31FF), (0x3400, 0x4DB5), (0x4E00, 0x9FEA), (0xA000, 0xA48C),
    (0xA4D0, 0xA4FD), (0xA500, 0xA60C), (0xA610, 0xA62B), (0xA640, 0xA66E), (0xA674, 0xA67B), (0xA67F, 0xA6EF),
    (0xA717, 0xA71F), (0xA722, 0xA788), (0xA78B, 0xA7AE), (0xA7B0, 0xA7B7), (0xA7F7, 0xA801), (0xA803, 0xA805),
    (0xA807, 0xA80A), (0xA80C, 0xA827), (0xA840, 0xA873), (0xA880, 0xA8C3), (0xA8D0, 0xA8D9), (0xA8F2, 0xA8F7),
    (0xA900, 0xA92A), (0xA930, 0xA952), (0xA960, 0xA97C), (0xA980, 0xA9B2), (0xA9B4, 0xA9BF), (0xA9CF, 0xA9D9),
    (0xA9E0, 0xA9E4), (0xA9E6, 0xA9FE), (0xAA00, 0xAA36), (0xAA40, 0xAA4D), (0xAA50, 0xAA59), (0xAA60, 0xAA76),
    (0xAA7E, 0xAABE), (0xAADB, 0xAADD), (0xAAE0, 0xAAEF), (0xAAF2, 0xAAF5), (0xAB01, 0xAB06), (0xAB09, 0xAB0E),
    (0xAB11, 0xAB16), (0xAB20, 0xAB26), (0xAB28, 0xAB2E), (0xAB30, 0xAB5A), (0xAB5C, 0xAB65), (0xAB70, 0xABEA),
    (0xABF0, 0xABF9), (0xAC00, 0xD7A3), (0xD7B0, 0xD7C6), (0xD7CB, 0xD7FB), (0xF900, 0xFA6D), (0xFA70, 0xFAD9),
    (0xFB00, 0xFB06), (0xFB13, 0xFB17), (0xFB1D, 0xFB28), (0xFB2A, 0xFB36), (0xFB38, 0xFB3C), (0xFB40, 0xFB41),
    (0xFB43, 0xFB44), (0xFB46, 0xFBB1), (0xFBD3, 0xFD3D), (0xFD50, 0xFD8F), (0xFD92, 0xFDC7), (0xFDF0, 0xFDFB),
    (0xFE70, 0xFE74), (0xFE76, 0xFEFC), (0xFF10, 0xFF19), (0xFF21, 0xFF3A), (0xFF41, 0xFF5A), (0xFF66, 0xFFBE),
    (0xFFC2, 0xFFC7), (0xFFCA, 0xFFCF), (0xFFD2, 0xFFD7), (0xFFDA, 0xFFDC), (0x10000, 0x1000B), (0x1000D, 0x10026),
    (0x10028, 0x1003A), (0x1003C, 0x1003D), (0x1003F, 0x1004D), (0x10050, 0x1005D), (0x10080, 0x100FA), (0x10140, 0x10174),
    (0x10280, 0x1029C), (0x102A0, 0x102D0), (0x10300, 0x1031F), (0x1032D, 0x1034A), (0x10350, 0x1037A), (0x10380, 0x1039D),
    (0x103A0, 0x103C3), (0x103C8, 0x103CF), (0x103D1, 0x103D5), (0x10400, 0x1049D), (0x104A0, 0x104A9), (0x104B0, 0x104D3),
    (0x104D8, 0x104FB), (0x10500, 0x10527), (0x10530, 0x10563), (0x10600, 0x10736), (0x10740, 0x10755), (0x10760, 0x10767),
    (0x10800, 0x10805), (0x1080A, 0x10835), (0x10837, 0x10838), (0x1083F, 0x10855), (0x10860, 0x10876), (0x10880, 0x1089E),
    (0x108E0, 0x108F2), (0x108F4, 0x108F5), (0x10900, 0x10915), (0x10920, 0x10939), (0x10980, 0x109B7), (0x109BE, 0x109BF),
    (0x10A00, 0x10A03), (0x10A05, 0x10A06), (0x10A0C, 0x10A13), (0x10A15, 0x10A17), (0x10A19, 0x10A33), (0x10A60, 0x10A7C),
    (0x10A80, 0x10A9C), (0x10AC0, 0x10AC7), (0x10AC9, 0x10AE4), (0x10B00, 0x10B35), (0x10B40, 0x10B55), (0x10B60, 0x10B72),
    (0x10B80, 0x10B91), (0x10C00, 0x10C48), (0x10C80, 0x10CB2), (0x10CC0, 0x10CF2), (0x11000, 0x11045), (0x11066, 0x1106F),
    (0x11082, 0x110B8), (0x110D0, 0x110E8), (0x110F0, 0x110F9), (0x11100, 0x11132), (0x11136, 0x1113F), (0x11150, 0x11172),
    (0x11180, 0x111BF), (0x111C1, 0x111C4), (0x111D0, 0x111DA), (0x11200, 0x11211), (0x11213, 0x11234), (0x11280, 0x11286),
    (0x1128A, 0x1128D), (0x1128F, 0x1129D), (0x1129F, 0x112A8), (0x112B0, 0x112E8), (0x112F0, 0x112F9), (0x11300, 0x11303),
    (0x11305, 0x1130C), (0x1130F, 0x11310), (0x11313, 0x11328), (0x1132A, 0x11330), (0x11332, 0x11333), (0x11335, 0x11339),
    (0x1133D, 0x11344), (0x11347, 0x11348), (0x1134B, 0x1134C), (0x1135D, 0x11363), (0x11400, 0x11441), (0x11443, 0x11445),
    (0x11447, 0x1144A), (0x11450, 0x11459), (0x11480, 0x114C1), (0x114C4, 0x114C5), (0x114D0, 0x114D9), (0x11580, 0x115B5),
    (0x115B8, 0x115BE), (0x115D8, 0x115DD), (0x11600, 0x1163E), (0x11650, 0x11659), (0x11680, 0x116B5), (0x116C0, 0x116C9),
    (0x11700, 0x11719), (0x1171D, 0x1172A), (0x11730, 0x11739), (0x118A0, 0x118E9), (0x11A00, 0x11A32), (0x11A35, 0x11A3E),
    (0x11A50, 0x11A83), (0x11A86, 0x11A97), (0x11AC0, 0x11AF8), (0x11C00, 0x11C08), (0x11C0A, 0x11C36), (0x11C38, 0x11C3E),
    (0x11C50, 0x11C59), (0x11C72, 0x11C8F), (0x11C92, 0x11CA7), (0x11CA9, 0x11CB6), (0x11D00, 0x11D06), (0x11D08, 0x11D09),
    (0x11D0B, 0x11D36), (0x11D3C, 0x11D3D), (0x11D3F, 0x11D41), (0x11D46, 0x11D47), (0x11D50, 0x11D59), (0x12000, 0x12399),
    (0x12400, 0x1246E), (0x12480, 0x12543), (0x13000, 0x1342E), (0x14400, 0x14646), (0x16800, 0x16A38), (0x16A40, 0x16A5E),
    (0x16A60, 0x16A69), (0x16AD0, 0x16AED), (0x16B00, 0x16B36), (0x16B40, 0x16B43), (0x16B50, 0x16B59), (0x16B63, 0x16B77),
    (0x16B7D, 0x16B8F), (0x16F00, 0x16F44), (0x16F50, 0x16F7E), (0x16F93, 0x16F9F), (0x16FE0, 0x16FE1), (0x17000, 0x187EC),
    (0x18800, 0x18AF2), (0x1B000, 0x1B11E), (0x1B170, 0x1B2FB), (0x1BC00, 0x1BC6A), (0x1BC70, 0x1BC7C), (0x1BC80, 0x1BC88),
    (0x1BC90, 0x1BC99), (0x1D400, 0x1D454), (0x1D456, 0x1D49C), (0x1D49E, 0x1D49F), (0x1D4A5, 0x1D4A6), (0x1D4A9, 0x1D4AC),
    (0x1D4AE, 0x1D4B9), (0x1D4BD, 0x1D4C3), (0x1D4C5, 0x1D505), (0x1D507, 0x1D50A), (0x1D50D, 0x1D514), (0x1D516, 0x1D51C),
    (0x1D51E, 0x1D539), (0x1D53B, 0x1D53E), (0x1D540, 0x1D544), (0x1D54A, 0x1D550), (0x1D552, 0x1D6A5), (0x1D6A8, 0x1D6C0),
    (0x1D6C2, 0x1D6DA), (0x1D6DC, 0x1D6FA), (0x1D6FC, 0x1D714), (0x1D716, 0x1D734), (0x1D736, 0x1D74E), (0x1D750, 0x1D76E),
    (0x1D770, 0x1D788), (0x1D78A, 0x1D7A8), (0x1D7AA, 0x1D7C2), (0x1D7C4, 0x1D7CB), (0x1D7CE, 0x1D7FF), (0x1E000, 0x1E006),
    (0x1E008, 0x1E018), (0x1E01B, 0x1E021), (0x1E023, 0x1E024), (0x1E026, 0x1E02A), (0x1E800, 0x1E8C4), (0x1E900, 0x1E943),
    (0x1E950, 0x1E959), (0x1EE00, 0x1EE03), (0x1EE05, 0x1EE1F), (0x1EE21, 0x1EE22), (0x1EE29, 0x1EE32), (0x1EE34, 0x1EE37),
    (0x1EE4D, 0x1EE4F), (0x1EE51, 0x1EE52), (0x1EE61, 0x1EE62), (0x1EE67, 0x1EE6A), (0x1EE6C, 0x1EE72), (0x1EE74, 0x1EE77),
    (0x1EE79, 0x1EE7C), (0x1EE80, 0x1EE89), (0x1EE8B, 0x1EE9B), (0x1EEA1, 0x1EEA3), (0x1EEA5, 0x1EEA9), (0x1EEAB, 0x1EEBB),
    (0x1F130, 0x1F149), (0x1F150, 0x1F169), (0x1F170, 0x1F189), (0x20000, 0x2A6D6), (0x2A700, 0x2B734), (0x2B740, 0x2B81D),
    (0x2B820, 0x2CEA1), (0x2CEB0, 0x2EBE0), (0x2F800, 0x2FA1D)]"

definition utf8_chars :: "nat list" where
  "utf8_chars = [
    0xAA, 0xB5, 0xBA, 0x2EC, 0x2EE, 0x345, 0x37F, 0x386, 0x38C, 0x559, 0x5BF, 0x5C7,
    0x6FF, 0x7FA, 0x9B2, 0x9CE, 0x9D7, 0x9FC, 0xA51, 0xA5E, 0xAD0, 0xB71, 0xB9C, 0xBD0,
    0xBD7, 0xCDE, 0xD4E, 0xDBD, 0xDD6, 0xE4D, 0xE84, 0xE8A, 0xE8D, 0xEA5, 0xEA7, 0xEC6,
    0xECD, 0xF00, 0x1038, 0x108E, 0x10C7, 0x10CD, 0x1258, 0x12C0, 0x135F, 0x17D7, 0x17DC, 0x1AA7,
    0x1F59, 0x1F5B, 0x1F5D, 0x1FBE, 0x2071, 0x207F, 0x2102, 0x2107, 0x2115, 0x2124, 0x2126, 0x2128,
    0x214E, 0x2D27, 0x2D2D, 0x2D6F, 0x2E2F, 0xA8C5, 0xA8FB, 0xA8FD, 0xAA7A, 0xAAC0, 0xAAC2, 0xFB3E,
    0x10808, 0x1083C, 0x11176, 0x111DC, 0x11237, 0x1123E, 0x11288, 0x11350, 0x11357, 0x114C7, 0x11640, 0x11644,
    0x118FF, 0x11C40, 0x11D3A, 0x11D43, 0x1BC9E, 0x1D4A2, 0x1D4BB, 0x1D546, 0x1E947, 0x1EE24, 0x1EE27, 0x1EE39,
    0x1EE3B, 0x1EE42, 0x1EE47, 0x1EE49, 0x1EE4B, 0x1EE54, 0x1EE57, 0x1EE59, 0x1EE5B, 0x1EE5D, 0x1EE5F, 0x1EE64,
    0x1EE7E]"

text \<open>The two search loops of \<open>isualpha\<close>.\<close>

function range_search :: "(nat \<times> nat) list \<Rightarrow> nat \<Rightarrow> nat \<Rightarrow> nat \<Rightarrow> nat \<Rightarrow> bool" where
  "range_search tab ch lo cur hi =
     (let (start, fin) = tab ! cur in
      if start \<le> ch \<and> ch \<le> fin then True
      else if ch < start then
        (let cur' = cur - (cur - lo) div 2 in if cur' = cur then False else range_search tab ch lo cur' cur)
      else if (fin \<noteq> 0 \<and> fin < ch) \<or> (fin = 0 \<and> start < ch) then
        (let cur' = cur + (hi - cur) div 2 in if cur' = cur then False else range_search tab ch cur cur' hi)
      else False)"
  by auto
termination
  by (relation "measure (\<lambda>(_, _, lo, cur, hi). 2 * (max hi cur - min lo cur) + (if lo < cur \<and> cur < hi then 0 else 1))")
     (auto simp: max_def min_def split: if_splits)

function char_search :: "nat list \<Rightarrow> nat \<Rightarrow> nat \<Rightarrow> nat \<Rightarrow> nat \<Rightarrow> bool" where
  "char_search tab ch lo cur hi =
     (if tab ! cur = ch then True
      else if ch < tab ! cur then
        (let cur' = cur - (cur - lo) div 2 in if cur' = cur then False else char_search tab ch lo cur' cur)
      else
        (let cur' = cur + (hi - cur) div 2 in if cur' = cur then False else char_search tab ch cur cur' hi))"
  by auto
termination
  by (relation "measure (\<lambda>(_, _, lo, cur, hi). 2 * (max hi cur - min lo cur) + (if lo < cur \<and> cur < hi then 0 else 1))")
     (auto simp: max_def min_def split: if_splits)

declare range_search.simps [simp del] char_search.simps [simp del]

definition isualpha :: "nat \<Rightarrow> bool" where
  "isualpha ch \<longleftrightarrow>
     (let hi = length utf8_ranges - 1 in range_search utf8_ranges ch 0 (hi div 2) hi) \<or>
     (let hi = length utf8_chars in char_search utf8_chars ch 0 (hi div 2) hi)"

definition isualnum :: "nat \<Rightarrow> bool" where
  "isualnum ch \<longleftrightarrow> (0x30 \<le> ch \<and> ch \<le> 0x39) \<or> isualpha ch"

section \<open>UTF-16\<close>

definition wctoutf16 :: "nat \<Rightarrow> (16 word) list option" where
  "wctoutf16 wc =
     (if 0x10ffff < wc \<or> (0xd800 \<le> wc \<and> wc \<le> 0xdfff) then None
      else if wc \<le> 0xffff then Some [of_nat wc]
      else let wc = wc - 0x10000 in
        Some [of_nat (wc div 1024 + 0xd800), of_nat (wc mod 1024 + 0xdc00)])"

text \<open>
  The difference in the test for a single unit is an \<open>int\<close>: an \<open>unsigned short\<close> is promoted, so it
  can be negative.
\<close>

definition utf16towc :: "(16 word) list \<Rightarrow> (nat \<times> nat) option" where
  "utf16towc u16_str =
     (case u16_str of
        [] \<Rightarrow> None
      | a # r \<Rightarrow>
          if 0x800 \<le> int (unat a) - 0xd800 then Some (unat a, 1)
          else (case r of
                  [] \<Rightarrow> None
                | b # _ \<Rightarrow>
                    if unat a AND 0xfffffc00 \<noteq> 0xd800 \<or> unat b AND 0xfffffc00 \<noteq> 0xdc00 then None
                    else Some (nat (int (unat a * 1024 + unat b) - 0x35fdc00), 2)))"

section \<open>The search loops\<close>

definition ranges_sorted :: "(nat \<times> nat) list \<Rightarrow> bool" where
  "ranges_sorted tab \<longleftrightarrow> sorted_wrt (\<lambda>(s, e) (s', e'). e < s') tab \<and> (\<forall>(s, e)\<in>set tab. s \<le> e \<and> e \<noteq> 0)"

text \<open>The search finds exactly the entries strictly between the two ends it starts with.\<close>

lemma ranges_sorted_nth:
  assumes "ranges_sorted tab" "i < length tab" "j < length tab"
  shows "fst (tab ! i) \<le> snd (tab ! i)" "snd (tab ! i) \<noteq> 0" "i < j \<Longrightarrow> snd (tab ! i) < fst (tab ! j)"
proof -
  have "tab ! i \<in> set tab" using assms(2) by simp
  then show "fst (tab ! i) \<le> snd (tab ! i)" "snd (tab ! i) \<noteq> 0"
    using assms(1) by (auto simp: ranges_sorted_def case_prod_beta)
  show "snd (tab ! i) < fst (tab ! j)" if "i < j"
    using assms that by (auto simp: ranges_sorted_def case_prod_beta sorted_wrt_iff_nth_less)
qed

lemma range_search_iff:
  assumes "ranges_sorted tab" "lo < cur" "cur < hi" "hi \<le> length tab"
  shows "range_search tab ch lo cur hi \<longleftrightarrow> (\<exists>k. lo < k \<and> k < hi \<and> fst (tab ! k) \<le> ch \<and> ch \<le> snd (tab ! k))"
  using assms
proof (induction tab ch lo cur hi rule: range_search.induct)
  case (1 tab ch lo cur hi)
  obtain s e where se: "tab ! cur = (s, e)" by force
  note srt = ranges_sorted_nth [OF "1.prems"(1)]
  have cl: "cur < length tab" using "1.prems" by simp
  consider "s \<le> ch" "ch \<le> e" | "ch < s" | "s \<le> ch" "e < ch" "e \<noteq> 0"
    using srt(1,2) [OF cl cl] se by fastforce
  then show ?case
  proof cases
    case 1
    then show ?thesis using se "1.prems" by (subst range_search.simps) (auto intro!: exI [of _ cur])
  next
    case 2
    have out: "\<not> fst (tab ! k) \<le> ch" if "cur \<le> k" "k < hi" for k
    proof (cases "k = cur")
      case False
      then show ?thesis using srt(3) [OF cl, of k] srt(1) [OF cl cl] that se 2 "1.prems"(4) by simp
    qed (use se 2 in simp)
    then have ex: "(\<exists>k. lo < k \<and> k < hi \<and> fst (tab ! k) \<le> ch \<and> ch \<le> snd (tab ! k)) \<longleftrightarrow>
        (\<exists>k. lo < k \<and> k < cur \<and> fst (tab ! k) \<le> ch \<and> ch \<le> snd (tab ! k))"
      using "1.prems"(3) by (meson less_trans not_le)
    let ?c = "cur - (cur - lo) div 2"
    show ?thesis
    proof (cases "?c = cur")
      case True
      then have "\<not> (\<exists>k. lo < k \<and> k < cur)" using "1.prems"(2) by presburger
      with True 2 se ex show ?thesis by (subst range_search.simps) auto
    next
      case False
      moreover have "(cur - lo) div 2 < cur - lo" using "1.prems"(2) by simp
      ultimately have "lo < ?c" "?c < cur" using "1.prems"(2) by linarith+
      then have "range_search tab ch lo ?c cur \<longleftrightarrow>
          (\<exists>k. lo < k \<and> k < cur \<and> fst (tab ! k) \<le> ch \<and> ch \<le> snd (tab ! k))"
        using False 2 se "1.prems" by (intro "1.IH"(1) [of "(s, e)" s e]) simp_all
      moreover have "range_search tab ch lo cur hi = range_search tab ch lo ?c cur"
        using False 2 se by (subst range_search.simps) (simp add: Let_def)
      ultimately show ?thesis using ex by simp
    qed
  next
    case 3
    have out: "\<not> ch \<le> snd (tab ! k)" if "k \<le> cur" for k
    proof (cases "k = cur")
      case False
      then show ?thesis using srt(3) [of k cur] srt(1) [OF cl cl] that se 3 cl by simp
    qed (use se 3 in simp)
    then have ex: "(\<exists>k. lo < k \<and> k < hi \<and> fst (tab ! k) \<le> ch \<and> ch \<le> snd (tab ! k)) \<longleftrightarrow>
        (\<exists>k. cur < k \<and> k < hi \<and> fst (tab ! k) \<le> ch \<and> ch \<le> snd (tab ! k))"
      using "1.prems"(2) by (meson less_trans not_le)
    let ?c = "cur + (hi - cur) div 2"
    show ?thesis
    proof (cases "?c = cur")
      case True
      then have "\<not> (\<exists>k. cur < k \<and> k < hi)" using "1.prems"(3) by presburger
      with True 3 se ex show ?thesis by (subst range_search.simps) auto
    next
      case False
      then have "cur < ?c" "?c < hi" using "1.prems"(3) by presburger+
      then have "range_search tab ch cur ?c hi \<longleftrightarrow>
          (\<exists>k. cur < k \<and> k < hi \<and> fst (tab ! k) \<le> ch \<and> ch \<le> snd (tab ! k))"
        using False 3 se "1.prems" by (intro "1.IH"(2) [of "(s, e)" s e]) simp_all
      moreover have "range_search tab ch lo cur hi = range_search tab ch cur ?c hi"
        using False 3 se by (subst range_search.simps) (simp add: Let_def)
      ultimately show ?thesis using ex by simp
    qed
  qed
qed

text \<open>The second loop is the first one on ranges of one code point.\<close>

lemma char_search_range:
  assumes "\<forall>c\<in>set tab. c \<noteq> 0" "lo \<le> cur" "cur < hi" "hi \<le> length tab"
  shows "char_search tab ch lo cur hi = range_search (map (\<lambda>c. (c, c)) tab) ch lo cur hi"
  using assms
proof (induction tab ch lo cur hi rule: char_search.induct)
  case (1 tab ch lo cur hi)
  have cl: "cur < length tab" using "1.prems" by simp
  have nz: "tab ! cur \<noteq> 0" using "1.prems"(1) nth_mem [OF cl] by blast
  let ?r = "range_search (map (\<lambda>c. (c, c)) tab) ch"
  consider "tab ! cur = ch" | "ch < tab ! cur" | "tab ! cur < ch" by linarith
  then show ?case
  proof cases
    case 1
    with cl show ?thesis by (subst char_search.simps, subst range_search.simps) simp
  next
    case 2
    let ?c = "cur - (cur - lo) div 2"
    have IH: "char_search tab ch lo ?c cur = ?r lo ?c cur" if "?c \<noteq> cur"
      using 2 that "1.prems" by (intro "1.IH"(1)) simp_all
    have "char_search tab ch lo cur hi = (if ?c = cur then False else char_search tab ch lo ?c cur)"
      using 2 by (subst char_search.simps) (simp add: Let_def)
    moreover have "?r lo cur hi = (if ?c = cur then False else ?r lo ?c cur)"
      using 2 cl by (subst range_search.simps) (simp add: Let_def)
    ultimately show ?thesis using IH by simp
  next
    case 3
    let ?c = "cur + (hi - cur) div 2"
    have IH: "char_search tab ch cur ?c hi = ?r cur ?c hi" if "?c \<noteq> cur"
    proof (rule "1.IH"(2))
      show "?c < hi" using "1.prems"(3) by presburger
    qed (use 3 that "1.prems" in simp_all)
    have "char_search tab ch lo cur hi = (if ?c = cur then False else char_search tab ch cur ?c hi)"
      using 3 by (subst char_search.simps) (simp add: Let_def)
    moreover have "?r lo cur hi = (if ?c = cur then False else ?r cur ?c hi)"
      using 3 cl nz by (subst range_search.simps) (simp add: Let_def)
    ultimately show ?thesis using IH by simp
  qed
qed

text \<open>An executable check that a table is sorted.\<close>

fun range_chain :: "(nat \<times> nat) list \<Rightarrow> bool" where
  "range_chain [] = True"
| "range_chain [(s, e)] = (s \<le> e \<and> e \<noteq> 0)"
| "range_chain ((s, e) # (s', e') # r) = (s \<le> e \<and> e \<noteq> 0 \<and> e < s' \<and> range_chain ((s', e') # r))"

lemma range_chain_above:
  "range_chain ((s, e) # r) \<Longrightarrow> (x, y) \<in> set r \<Longrightarrow> e < x"
proof (induction r arbitrary: s e)
  case Nil
  then show ?case by simp
next
  case (Cons q r)
  obtain s' e' where q: "q = (s', e')" by force
  with Cons.prems have *: "s' \<le> e'" "e < s'" "range_chain ((s', e') # r)"
    by (cases r; auto)+
  with Cons q show ?case by fastforce
qed

lemma range_chain_sorted: "range_chain tab \<Longrightarrow> ranges_sorted tab"
proof (induction tab)
  case Nil
  then show ?case by (simp add: ranges_sorted_def)
next
  case (Cons q r)
  obtain s e where q: "q = (s, e)" by force
  from Cons.prems q have "s \<le> e" "e \<noteq> 0" "range_chain r" by (cases r; auto)+
  with Cons.IH range_chain_above [of s e r] Cons.prems q show ?case
    by (fastforce simp: ranges_sorted_def)
qed

lemma utf8_tables:
  "ranges_sorted utf8_ranges" "ranges_sorted (map (\<lambda>c. (c, c)) utf8_chars)" "\<forall>c\<in>set utf8_chars. c \<noteq> 0"
  "length utf8_ranges = 585" "length utf8_chars = 109"
proof -
  have "range_chain utf8_ranges" "range_chain (map (\<lambda>c. (c, c)) utf8_chars)" by code_simp+
  then show "ranges_sorted utf8_ranges" "ranges_sorted (map (\<lambda>c. (c, c)) utf8_chars)"
    by (simp_all add: range_chain_sorted)
  show "\<forall>c\<in>set utf8_chars. c \<noteq> 0" "length utf8_ranges = 585" "length utf8_chars = 109" by code_simp+
qed

lemma nth_inner: "set (butlast (tl xs)) = {xs ! k | k. 0 < k \<and> k < length xs - 1}"
proof -
  have "butlast (tl xs) = map ((!) xs) [1..<length xs - 1]"
    by (rule nth_equalityI) (simp_all add: nth_butlast nth_tl)
  then show ?thesis by (auto simp: Suc_le_eq image_iff Bex_def)
qed

lemma bex_inner: "(\<exists>x\<in>set (butlast (tl xs)). P x) \<longleftrightarrow> (\<exists>k. 0 < k \<and> k < length xs - 1 \<and> P (xs ! k))"
  unfolding nth_inner by blast

lemma nth_tail: "set (tl xs) = {xs ! k | k. 0 < k \<and> k < length xs}"
proof -
  have "tl xs = map ((!) xs) [1..<length xs]"
    by (rule nth_equalityI) (simp_all add: nth_tl)
  then show ?thesis by (auto simp: Suc_le_eq image_iff Bex_def)
qed

lemma isualpha_lookup:
  "isualpha ch \<longleftrightarrow> (\<exists>(s, e)\<in>set (butlast (tl utf8_ranges)). s \<le> ch \<and> ch \<le> e) \<or> ch \<in> set (tl utf8_chars)"
proof -
  have "range_search utf8_ranges ch 0 292 584 \<longleftrightarrow>
      (\<exists>k. 0 < k \<and> k < 584 \<and> fst (utf8_ranges ! k) \<le> ch \<and> ch \<le> snd (utf8_ranges ! k))"
    by (rule range_search_iff) (simp_all add: utf8_tables)
  moreover have "char_search utf8_chars ch 0 54 109 \<longleftrightarrow>
      (\<exists>k. 0 < k \<and> k < 109 \<and> utf8_chars ! k \<le> ch \<and> ch \<le> utf8_chars ! k)"
    using range_search_iff [OF utf8_tables(2), of 0 54 109 ch] char_search_range [OF utf8_tables(3), of 0 54 109 ch]
    by (auto simp: utf8_tables)
  moreover have "(\<exists>(s, e)\<in>set (butlast (tl utf8_ranges)). s \<le> ch \<and> ch \<le> e) \<longleftrightarrow>
      (\<exists>k. 0 < k \<and> k < 584 \<and> fst (utf8_ranges ! k) \<le> ch \<and> ch \<le> snd (utf8_ranges ! k))"
    using bex_inner [of utf8_ranges "\<lambda>x. fst x \<le> ch \<and> ch \<le> snd x"] by (simp add: utf8_tables case_prod_beta)
  moreover have "ch \<in> set (tl utf8_chars) \<longleftrightarrow> (\<exists>k. 0 < k \<and> k < 109 \<and> utf8_chars ! k \<le> ch \<and> ch \<le> utf8_chars ! k)"
    unfolding nth_tail utf8_tables by auto
  ultimately show ?thesis
    unfolding isualpha_def by (simp add: utf8_tables)
qed

section \<open>Results\<close>

text \<open>
  The two binary searches of \<open>isualpha\<close> end and agree with a linear search through the tables,
  except that the first and the last entry of the table of ranges and the first entry of the table of
  single characters are never found.
\<close>

theorem isualpha_is_lookup:
  "isualpha ch \<longleftrightarrow> (\<exists>(s, e)\<in>set (butlast (tl utf8_ranges)). s \<le> ch \<and> ch \<le> e) \<or> ch \<in> set (tl utf8_chars)"
  by (rule isualpha_lookup)

text \<open>Letters that are in the tables and not recognised.\<close>

lemma isualpha_misses: "0xAA \<in> set utf8_chars" "\<not> isualpha 0xAA"
proof -
  have c0: "utf8_chars ! 0 = 170" by code_simp
  have r1: "utf8_ranges ! 1 = (0x61, 0x7A)" "utf8_ranges ! 2 = (0xC0, 0xD6)" by code_simp+
  show "0xAA \<in> set utf8_chars" by code_simp
  have above: "170 < utf8_chars ! k" if "0 < k" "k < 109" for k
    using ranges_sorted_nth(3) [OF utf8_tables(2), of 0 k] that c0 by (simp add: utf8_tables(5))
  have "170 \<notin> set (tl utf8_chars)"
  proof
    assume "170 \<in> set (tl utf8_chars)"
    then obtain k where "170 = utf8_chars ! k" "0 < k" "k < 109" unfolding nth_tail utf8_tables(5) by blast
    with above [of k] show False by linarith
  qed
  moreover have "\<not> (fst (utf8_ranges ! k) \<le> 170 \<and> 170 \<le> snd (utf8_ranges ! k))" if k: "0 < k" "k < 584" for k
  proof -
    consider "k = 1" | "k = 2" | "2 < k" using k by linarith
    then show ?thesis
      using ranges_sorted_nth(3) [OF utf8_tables(1), of 2 k] k r1 by cases (simp_all add: utf8_tables(4))
  qed
  then have "\<not> (\<exists>x\<in>set (butlast (tl utf8_ranges)). fst x \<le> 170 \<and> 170 \<le> snd x)"
    unfolding bex_inner utf8_tables(4) by auto
  ultimately show "\<not> isualpha 0xAA"
    unfolding isualpha_lookup case_prod_beta by blast
qed

text \<open>
  UTF-8. \<open>utf8_encode\<close> is the standard encoding of a code point.
\<close>

definition utf8_encode :: "nat \<Rightarrow> bytes" where
  "utf8_encode w =
     (if w < 0x80 then [char_of w]
      else if w < 0x800 then [char_of (0xc0 + w div 64), char_of (0x80 + w mod 64)]
      else if w < 0x10000 then
        [char_of (0xe0 + w div 4096), char_of (0x80 + w div 64 mod 64), char_of (0x80 + w mod 64)]
      else
        [char_of (0xf0 + w div 262144), char_of (0x80 + w div 4096 mod 64), char_of (0x80 + w div 64 mod 64),
         char_of (0x80 + w mod 64)])"

lemma utf8_mblen_nth:
  "b < 192 \<Longrightarrow> utf8_mblen ! b = 1" "192 \<le> b \<Longrightarrow> b < 224 \<Longrightarrow> utf8_mblen ! b = 2"
  "224 \<le> b \<Longrightarrow> b < 240 \<Longrightarrow> utf8_mblen ! b = 3" "240 \<le> b \<Longrightarrow> b < 248 \<Longrightarrow> utf8_mblen ! b = 4"
  by (auto simp: utf8_mblen_def nth_append)

lemma and_mask: "(b :: nat) AND 0x7f = b mod 128" "b AND 0x1f = b mod 32" "b AND 0x0f = b mod 16"
  "b AND 0x07 = b mod 8" "b AND 0x3f = b mod 64"
  using take_bit_eq_mask [of 7 b] take_bit_eq_mask [of 5 b] take_bit_eq_mask [of 4 b]
    take_bit_eq_mask [of 3 b] take_bit_eq_mask [of 6 b]
  by (simp_all add: take_bit_eq_mod mask_eq_exp_minus_1)

lemma and_top: "(k :: nat) < 64 \<Longrightarrow> (128 + k) AND 0xc0 = 0x80"
proof -
  have "\<forall>k\<in>set [0..<64]. ((128 :: nat) + k) AND 0xc0 = 0x80" by code_simp
  then show "k < 64 \<Longrightarrow> (128 + k) AND 0xc0 = 0x80" by auto
qed

lemma mod_marker: "(128 + k) mod 64 = (k :: nat) mod 64" "(192 + k) mod 32 = k mod 32"
  "(224 + k) mod 16 = k mod 16" "(240 + k) mod 8 = k mod 8"
  using mod_mult_self3 [of 2 64 k] mod_mult_self3 [of 6 32 k] mod_mult_self3 [of 14 16 k] mod_mult_self3 [of 30 8 k]
  by simp_all

lemma split_base64:
  "(w :: nat) = w div 64 * 64 + w mod 64" "w div 64 = w div 4096 * 64 + w div 64 mod 64"
  "w div 4096 = w div 262144 * 64 + w div 4096 mod 64"
  using div_mult_mod_eq [of "w div 64" 64] div_mult_mod_eq [of "w div 4096" 64]
  by (simp_all flip: div_mult2_eq)

lemma utf8_cont_step:
  "k < 64 \<Longrightarrow> utf8_cont wc (char_of (128 + k) # cs) = utf8_cont (wc * 64 + k) cs"
  using and_top [of k] by (simp add: and_mask mod_marker)

text \<open>
  Decoding inverts the standard UTF-8 encoding: for every code point below \<open>2^21\<close>
  \<open>utf8towc\<close> returns it and consumes exactly its encoding, whatever follows.
\<close>

theorem utf8towc_encode:
  assumes "w < 0x200000"
  shows "utf8towc (utf8_encode w @ r) (length (utf8_encode w @ r)) = Some (w, length (utf8_encode w))"
proof -
  consider "w < 0x80" | "0x80 \<le> w" "w < 0x800" | "0x800 \<le> w" "w < 0x10000" | "0x10000 \<le> w" by linarith
  then show ?thesis
  proof cases
    case 1
    then show ?thesis
      by (simp add: utf8_encode_def utf8towc_def utf8_mblen_nth utf8_mask_def and_mask)
  next
    case 2
    then have b: "w div 64 < 32" "utf8_mblen ! (192 + w div 64) = 2" by (simp_all add: utf8_mblen_nth)
    have "w = w div 64 * 64 + w mod 64" by (rule split_base64)
    with 2 b show ?thesis
      by (simp add: utf8_encode_def utf8towc_def utf8_mask_def and_mask upt_rec utf8_cont_step mod_marker
        del: utf8_cont.simps(2))
  next
    case 3
    then have b: "w div 4096 < 16" "utf8_mblen ! (224 + w div 4096) = 3" by (simp_all add: utf8_mblen_nth)
    have "w = (w div 4096 * 64 + w div 64 mod 64) * 64 + w mod 64"
      by (subst split_base64(2) [symmetric]) (rule split_base64(1))
    with 3 b show ?thesis
      by (simp add: utf8_encode_def utf8towc_def utf8_mask_def and_mask upt_rec utf8_cont_step mod_marker
        del: utf8_cont.simps(2))
  next
    case 4
    then have b: "w div 262144 < 8" "utf8_mblen ! (240 + w div 262144) = 4" using assms by (simp_all add: utf8_mblen_nth)
    have "w = ((w div 262144 * 64 + w div 4096 mod 64) * 64 + w div 64 mod 64) * 64 + w mod 64"
      by (subst split_base64(3) [symmetric], subst split_base64(2) [symmetric]) (rule split_base64(1))
    with 4 b show ?thesis
      by (simp add: utf8_encode_def utf8towc_def utf8_mask_def and_mask upt_rec utf8_cont_step mod_marker
        del: utf8_cont.simps(2))
  qed
qed

theorem utf8towc_encode_witness:
  "utf8towc (utf8_encode 0x20AC @ ''!'') (length (utf8_encode 0x20AC @ ''!'')) = Some (0x20AC, length (utf8_encode 0x20AC))"
  by (rule utf8towc_encode) simp

text \<open>
  A lone continuation byte is not rejected: it has length 1 in the table and decodes to its seven
  low bits.
\<close>

theorem utf8towc_lone_continuation:
  assumes "128 \<le> b" "b < 192"
  shows "utf8towc (char_of b # r) (Suc (length r)) = Some (b - 128, 1)"
proof -
  have "b mod 128 = b - 128" using assms by (simp add: mod_if)
  with assms show ?thesis by (simp add: utf8towc_def utf8_mblen_nth utf8_mask_def and_mask)
qed

theorem utf8towc_lone_continuation_witness:
  "utf8towc (char_of (0xB1 :: nat) # []) (Suc (length ([] :: bytes))) = Some (0xB1 - 128, 1)"
  by (rule utf8towc_lone_continuation) simp_all

text \<open>Conversion from UTF-16 fails for every unit below the surrogates.\<close>

lemma utf16towc_below_surrogates:
  assumes "w < 0xd800"
  shows "\<exists>u. wctoutf16 w = Some u \<and> utf16towc u = None"
proof -
  have "unat (of_nat w :: 16 word) = w" using assms by (simp add: unat_of_nat)
  with assms show ?thesis by (simp add: wctoutf16_def utf16towc_def)
qed

end
