(* ===== verification/Http_Url.thy ===== *)
theory Http_Url
  imports Http_Utf8 Http_Version Http_Zend
begin

text \<open>
  URLs, \<open>php_http_url.c\<close>: the parser, the printer, conversion from and to arrays, combination of URLs
  and path sanitising.

  The parser works on the memory at the string pointer (\<open>mem\<close>, with whatever follows the string) and
  offsets into it, and appends to the buffer behind its state; the fields of the result are offsets
  into that buffer until it is finished. The build modelled is the one with the GNU IDN libraries and
  wide characters. What lies outside the sources is collected in the record \<open>url_env\<close>: multibyte
  decoding of the locale, the IDN conversions, and \<open>inet_pton\<close>/\<open>inet_ntop\<close>. Diagnostics are not part
  of the results.
\<close>

section \<open>Data\<close>

record php_http_url =
  url_scheme :: "bytes option"
  url_user :: "bytes option"
  url_pass :: "bytes option"
  url_host :: "bytes option"
  url_port :: "16 word"
  url_path :: "bytes option"
  url_query :: "bytes option"
  url_fragment :: "bytes option"

definition url_empty :: php_http_url where
  "url_empty = \<lparr>url_scheme = None, url_user = None, url_pass = None, url_host = None, url_port = 0,
     url_path = None, url_query = None, url_fragment = None\<rparr>"

definition PHP_HTTP_URL_JOIN_PATH :: "32 word" where "PHP_HTTP_URL_JOIN_PATH = 0x001"
definition PHP_HTTP_URL_JOIN_QUERY :: "32 word" where "PHP_HTTP_URL_JOIN_QUERY = 0x002"
definition PHP_HTTP_URL_STRIP_USER :: "32 word" where "PHP_HTTP_URL_STRIP_USER = 0x004"
definition PHP_HTTP_URL_STRIP_PASS :: "32 word" where "PHP_HTTP_URL_STRIP_PASS = 0x008"
definition PHP_HTTP_URL_STRIP_PORT :: "32 word" where "PHP_HTTP_URL_STRIP_PORT = 0x020"
definition PHP_HTTP_URL_STRIP_PATH :: "32 word" where "PHP_HTTP_URL_STRIP_PATH = 0x040"
definition PHP_HTTP_URL_STRIP_QUERY :: "32 word" where "PHP_HTTP_URL_STRIP_QUERY = 0x080"
definition PHP_HTTP_URL_STRIP_FRAGMENT :: "32 word" where "PHP_HTTP_URL_STRIP_FRAGMENT = 0x100"
definition PHP_HTTP_URL_FROM_ENV :: "32 word" where "PHP_HTTP_URL_FROM_ENV = 0x1000"
definition PHP_HTTP_URL_SANITIZE_PATH :: "32 word" where "PHP_HTTP_URL_SANITIZE_PATH = 0x2000"
definition PHP_HTTP_URL_PARSE_MBLOC :: "32 word" where "PHP_HTTP_URL_PARSE_MBLOC = 0x10000"
definition PHP_HTTP_URL_PARSE_MBUTF8 :: "32 word" where "PHP_HTTP_URL_PARSE_MBUTF8 = 0x20000"
definition PHP_HTTP_URL_PARSE_TOIDN :: "32 word" where "PHP_HTTP_URL_PARSE_TOIDN = 0x100000"
definition PHP_HTTP_URL_PARSE_TOPCT :: "32 word" where "PHP_HTTP_URL_PARSE_TOPCT = 0x200000"
definition PHP_HTTP_URL_PARSE_TOIDN_2008 :: "32 word" where
  "PHP_HTTP_URL_PARSE_TOIDN_2008 = PHP_HTTP_URL_PARSE_TOIDN OR 0x400000"
definition PHP_HTTP_URL_PARSE_TOIDN_2003 :: "32 word" where
  "PHP_HTTP_URL_PARSE_TOIDN_2003 = PHP_HTTP_URL_PARSE_TOIDN OR 0x800000"
definition PHP_HTTP_URL_IGNORE_ERRORS :: "32 word" where "PHP_HTTP_URL_IGNORE_ERRORS = 0x10000000"
definition PHP_HTTP_URL_STDFLAGS :: "32 word" where "PHP_HTTP_URL_STDFLAGS = 0x00332003"

definition isflag :: "32 word \<Rightarrow> 32 word \<Rightarrow> bool" where "isflag flags f \<longleftrightarrow> flags AND f \<noteq> 0"

section \<open>Printing\<close>

text \<open>A component that is set and not empty (\<open>url->part && *url->part\<close>).\<close>

definition part_isset :: "bytes option \<Rightarrow> bool" where
  "part_isset p \<longleftrightarrow> (case p of None \<Rightarrow> False | Some s \<Rightarrow> s \<noteq> [])"

definition php_http_url_authority_to_string :: "php_http_url \<Rightarrow> bytes" where
  "php_http_url_authority_to_string url =
     (let buf = (if part_isset (url_user url)
                 then the (url_user url) @
                      (if part_isset (url_pass url) then CHR '':'' # the (url_pass url) else []) @ ''@''
                 else [])
      in if part_isset (url_host url)
         then buf @ the (url_host url) @ (if url_port url \<noteq> 0 then CHR '':'' # dec (unat (url_port url)) else [])
         else buf)"

definition php_http_url_to_string :: "php_http_url \<Rightarrow> bytes" where
  "php_http_url_to_string url =
     (let buf = (if part_isset (url_scheme url) then the (url_scheme url) @ ''://''
                 else if part_isset (url_user url) \<or> part_isset (url_host url) then ''//'' else []);
          buf = (if part_isset (url_user url)
                 then buf @ the (url_user url) @
                      (if part_isset (url_pass url) then CHR '':'' # the (url_pass url) else []) @ ''@''
                 else buf);
          buf = (if part_isset (url_host url)
                 then buf @ the (url_host url) @
                      (if url_port url \<noteq> 0 then CHR '':'' # dec (unat (url_port url)) else [])
                 else buf);
          buf = (if part_isset (url_path url)
                 then (if hd (the (url_path url)) \<noteq> CHR ''/'' then buf @ ''/'' else buf) @ the (url_path url)
                 else if buf \<noteq> [] then buf @ ''/'' else buf);
          buf = (if part_isset (url_query url) then buf @ CHR ''?'' # the (url_query url) else buf)
      in if part_isset (url_fragment url) then buf @ CHR ''#'' # the (url_fragment url) else buf)"

section \<open>Arrays\<close>

definition str_part :: "hashtable \<Rightarrow> bytes \<Rightarrow> bytes option" where
  "str_part ht k = map_option (\<lambda>v. cstr (zval_get_string v)) (zend_hash_find ht (KStr k))"

text \<open>\<open>zval_get_long\<close> is outside the sources: it is the argument \<open>to_long\<close>.\<close>

definition php_http_url_from_struct :: "(zval \<Rightarrow> int) \<Rightarrow> hashtable \<Rightarrow> php_http_url" where
  "php_http_url_from_struct to_long ht =
     \<lparr>url_scheme = str_part ht ''scheme'', url_user = str_part ht ''user'', url_pass = str_part ht ''pass'',
      url_host = str_part ht ''host'',
      url_port = (case zend_hash_find ht (KStr ''port'') of None \<Rightarrow> 0 | Some e \<Rightarrow> word_of_int (to_long e)),
      url_path = str_part ht ''path'', url_query = str_part ht ''query'', url_fragment = str_part ht ''fragment''\<rparr>"

definition struct_add :: "bytes \<Rightarrow> bytes option \<Rightarrow> hashtable \<Rightarrow> hashtable" where
  "struct_add k p ht = (case p of None \<Rightarrow> ht | Some s \<Rightarrow> zend_hash_update ht (KStr k) (ZStr s))"

text \<open>\<open>php_http_url_to_struct\<close> without a target or with an array as target.\<close>

definition php_http_url_to_struct :: "php_http_url option \<Rightarrow> hashtable option \<Rightarrow> hashtable" where
  "php_http_url_to_struct url strct =
     (let ht = (case strct of None \<Rightarrow> zend_hash_init | Some h \<Rightarrow> h) in
      case url of
        None \<Rightarrow> ht
      | Some u \<Rightarrow>
          let ht = struct_add ''scheme'' (url_scheme u) ht;
              ht = struct_add ''user'' (url_user u) ht;
              ht = struct_add ''pass'' (url_pass u) ht;
              ht = struct_add ''host'' (url_host u) ht;
              ht = (if url_port u \<noteq> 0 then zend_hash_update ht (KStr ''port'') (ZLong (uint (url_port u))) else ht);
              ht = struct_add ''path'' (url_path u) ht;
              ht = struct_add ''query'' (url_query u) ht
          in struct_add ''fragment'' (url_fragment u) ht)"

section \<open>Parser state\<close>

record url_env =
  ue_mbrtowc :: "bytes \<Rightarrow> nat \<Rightarrow> (nat \<times> nat) option"
  ue_iswalnum :: "nat \<Rightarrow> bool"
  ue_idn2_lookup_u8 :: "bytes \<Rightarrow> bytes option"
  ue_idn2_lookup_ul :: "bytes \<Rightarrow> bytes option"
  ue_idna_to_ascii_8z :: "bytes \<Rightarrow> bytes option"
  ue_idna_to_ascii_lz :: "bytes \<Rightarrow> bytes option"
  ue_inet6 :: "bytes \<Rightarrow> bytes option"

record parse_state =
  ps_scheme :: "nat option"
  ps_user :: "nat option"
  ps_pass :: "nat option"
  ps_host :: "nat option"
  ps_port :: "16 word"
  ps_path :: "nat option"
  ps_query :: "nat option"
  ps_fragment :: "nat option"
  ps_buf :: bytes

definition ps_init :: parse_state where
  "ps_init = \<lparr>ps_scheme = None, ps_user = None, ps_pass = None, ps_host = None, ps_port = 0,
     ps_path = None, ps_query = None, ps_fragment = None, ps_buf = []\<rparr>"

definition emit :: "bytes \<Rightarrow> parse_state \<Rightarrow> parse_state" where
  "emit bs st = st\<lparr>ps_buf := ps_buf st @ bs\<rparr>"

text \<open>The string a field points to.\<close>

definition ps_string :: "parse_state \<Rightarrow> nat option \<Rightarrow> bytes option" where
  "ps_string st p = map_option (\<lambda>off. cstr (drop off (ps_buf st))) p"

definition ps_url :: "parse_state \<Rightarrow> php_http_url" where
  "ps_url st =
     \<lparr>url_scheme = ps_string st (ps_scheme st), url_user = ps_string st (ps_user st),
      url_pass = ps_string st (ps_pass st), url_host = ps_string st (ps_host st), url_port = ps_port st,
      url_path = ps_string st (ps_path st), url_query = ps_string st (ps_query st),
      url_fragment = ps_string st (ps_fragment st)\<rparr>"

text \<open>
  The loops of the parser have the form \<open>do { switch (*ptr) ... } while (++ptr < end)\<close>. A step at
  \<open>ptr\<close> fails, leaves the loop, or yields a new state and how far it moved \<open>ptr\<close> itself. The result
  tells whether the loop was left by a step, the state, and \<open>ptr\<close>.
\<close>

datatype 's step = SFail | SStop | SNext 's nat

function scan :: "(nat \<Rightarrow> 's \<Rightarrow> 's step) \<Rightarrow> nat \<Rightarrow> nat \<Rightarrow> 's \<Rightarrow> (bool \<times> 's \<times> nat) option" where
  "scan step fin ptr s =
     (case step ptr s of
        SFail \<Rightarrow> None
      | SStop \<Rightarrow> Some (True, s, ptr)
      | SNext s' adv \<Rightarrow>
          if Suc (ptr + adv) < fin then scan step fin (Suc (ptr + adv)) s'
          else Some (False, s', Suc (ptr + adv)))"
  by auto
termination
  by (relation "measure (\<lambda>(_, fin, ptr, _). fin - ptr)") auto

declare scan.simps [simp del]

section \<open>Multibyte characters\<close>

datatype parse_mb_what =
  PARSE_SCHEME | PARSE_USERINFO | PARSE_HOSTINFO | PARSE_PATH | PARSE_QUERY | PARSE_FRAGMENT

definition parse_xdigits :: bytes where "parse_xdigits = ''0123456789ABCDEF''"

definition pct_encode :: "char \<Rightarrow> bytes" where
  "pct_encode c = [CHR ''%'', parse_xdigits ! (uchar c div 16), parse_xdigits ! (uchar c mod 16)]"

definition parse_mb_utf8 :: "bytes \<Rightarrow> nat \<Rightarrow> nat \<Rightarrow> (nat \<times> nat) option" where
  "parse_mb_utf8 mem ptr fin = utf8towc (drop ptr mem) (fin - ptr)"

definition parse_mb_loc :: "url_env \<Rightarrow> bytes \<Rightarrow> nat \<Rightarrow> nat \<Rightarrow> (nat \<times> nat) option" where
  "parse_mb_loc env mem ptr fin = ue_mbrtowc env (drop ptr mem) (fin - ptr)"

text \<open>\<open>parse_mb\<close>: the bytes it writes and the bytes it consumed, \<^const>\<open>None\<close> for the result 0.\<close>

definition parse_mb ::
  "url_env \<Rightarrow> 32 word \<Rightarrow> parse_mb_what \<Rightarrow> bytes \<Rightarrow> nat \<Rightarrow> nat \<Rightarrow> (bytes \<times> nat) option" where
  "parse_mb env flags what mem ptr fin =
     (let decoded = (if isflag flags PHP_HTTP_URL_PARSE_MBUTF8 then parse_mb_utf8 mem ptr fin
                     else if isflag flags PHP_HTTP_URL_PARSE_MBLOC then parse_mb_loc env mem ptr fin
                     else None);
          res = (case decoded of
                   None \<Rightarrow> None
                 | Some (wchar, consumed) \<Rightarrow>
                     let raw = Some (take consumed (drop ptr mem), consumed) in
                     if \<not> isflag flags PHP_HTTP_URL_PARSE_TOPCT \<or> what = PARSE_HOSTINFO \<or> what = PARSE_SCHEME
                     then if what = PARSE_HOSTINFO \<and> isflag flags PHP_HTTP_URL_PARSE_TOIDN then raw
                          else if isflag flags PHP_HTTP_URL_PARSE_MBUTF8
                          then if isualnum wchar then raw else None
                          else if ue_iswalnum env wchar then raw else None
                     else Some (concat (map pct_encode (take consumed (drop ptr mem))), consumed))
      in case res of
           Some r \<Rightarrow> Some r
         | None \<Rightarrow> if isflag flags PHP_HTTP_URL_IGNORE_ERRORS then Some ([rd mem ptr], 1) else None)"

text \<open>Character classes of the \<open>switch\<close> statements.\<close>

definition sub_delim :: "char \<Rightarrow> bool" where
  "sub_delim c \<longleftrightarrow> c \<in> set ''!$&()*+,;='' \<or> c = CHR 0x27"
definition unreserved_mark :: "char \<Rightarrow> bool" where "unreserved_mark c \<longleftrightarrow> c \<in> set ''-._~''"
definition unsafe_char :: "char \<Rightarrow> bool" where
  "unsafe_char c \<longleftrightarrow> c \<in> set ''{}<>[]|^` '' \<or> c = CHR 0x5c \<or> c = CHR 0x22"

text \<open>A percent sign that is accepted: followed by two hexadecimal digits, or by a percent sign.\<close>

definition pct_ok :: "bytes \<Rightarrow> nat \<Rightarrow> nat \<Rightarrow> bool" where
  "pct_ok mem ptr fin \<longleftrightarrow>
     rd mem (ptr + 1) = CHR ''%'' \<or>
     (ptr + 2 < fin \<and> isxdigit (rd mem (ptr + 1)) \<and> isxdigit (rd mem (ptr + 2)))"

definition pct_bytes :: "bytes \<Rightarrow> nat \<Rightarrow> bytes" where
  "pct_bytes mem ptr = [rd mem ptr, rd mem (ptr + 1), rd mem (ptr + 2)]"

section \<open>Authority\<close>

definition userinfo_step ::
  "url_env \<Rightarrow> 32 word \<Rightarrow> bytes \<Rightarrow> nat \<Rightarrow> nat \<Rightarrow> bool \<times> parse_state \<Rightarrow> (bool \<times> parse_state) step" where
  "userinfo_step env flags mem fin ptr = (\<lambda>(password, st).
     let c = rd mem ptr; ignore = isflag flags PHP_HTTP_URL_IGNORE_ERRORS in
     if c = CHR '':'' then
       (if password then (if \<not> ignore then SFail else SNext (password, emit [c] st) 0)
        else let st = emit [NUL] st in SNext (True, st\<lparr>ps_pass := Some (length (ps_buf st))\<rparr>) 0)
     else if c = CHR ''%'' then
       (if \<not> pct_ok mem ptr fin then (if \<not> ignore then SFail else SNext (password, emit [c] st) 1)
        else SNext (password, emit (pct_bytes mem ptr) st) 2)
     else if sub_delim c \<or> unreserved_mark c \<or> isalnum c then SNext (password, emit [c] st) 0
     else (case parse_mb env flags PARSE_USERINFO mem ptr fin of
             Some (out, mb) \<Rightarrow> SNext (password, emit out st) (mb - 1)
           | None \<Rightarrow> if \<not> ignore then SFail else SNext (password, emit [c] st) 0))"

text \<open>\<open>parse_userinfo state ptr\<close>; \<open>fin\<close> is \<open>state->ptr\<close>.\<close>

definition parse_userinfo ::
  "url_env \<Rightarrow> 32 word \<Rightarrow> bytes \<Rightarrow> nat \<Rightarrow> nat \<Rightarrow> parse_state \<Rightarrow> parse_state option" where
  "parse_userinfo env flags mem fin ptr st =
     (case scan (userinfo_step env flags mem fin) fin ptr
             (False, st\<lparr>ps_user := Some (length (ps_buf st))\<rparr>) of
        None \<Rightarrow> None
      | Some (_, (_, st), _) \<Rightarrow> Some (emit [NUL] st))"

text \<open>
  IDN conversion of the host in place: \<open>state->offset\<close> moves by the difference between the new length
  and \<open>prev_len\<close>; bytes of the zeroed block that were not written yet are zero.
\<close>

definition replace_host :: "bytes \<Rightarrow> nat \<Rightarrow> parse_state \<Rightarrow> parse_state" where
  "replace_host idn prev_len st =
     (let h = the (ps_host st);
          off = nat (int (length (ps_buf st)) + int (length idn) - int prev_len);
          b = take h (ps_buf st) @ idn @ NUL # drop (h + length idn + 1) (ps_buf st)
      in st\<lparr>ps_buf := take off (b @ replicate off NUL)\<rparr>)"

definition parse_gidn ::
  "(bytes \<Rightarrow> bytes option) \<Rightarrow> (bytes \<Rightarrow> bytes option) \<Rightarrow> 32 word \<Rightarrow> nat \<Rightarrow> parse_state \<Rightarrow> parse_state option" where
  "parse_gidn conv_u8 conv_loc flags prev_len st =
     (let host = the (ps_string st (ps_host st));
          idn = (if isflag flags PHP_HTTP_URL_PARSE_MBUTF8 then conv_u8 host
                 else if isflag flags PHP_HTTP_URL_PARSE_MBLOC then conv_loc host else None)
      in case idn of
           None \<Rightarrow> if \<not> isflag flags PHP_HTTP_URL_IGNORE_ERRORS then None else Some st
         | Some idn \<Rightarrow> Some (replace_host idn prev_len st))"

abbreviation parse_gidn_2008 :: "url_env \<Rightarrow> 32 word \<Rightarrow> nat \<Rightarrow> parse_state \<Rightarrow> parse_state option" where
  "parse_gidn_2008 env \<equiv> parse_gidn (ue_idn2_lookup_u8 env) (ue_idn2_lookup_ul env)"

abbreviation parse_gidn_2003 :: "url_env \<Rightarrow> 32 word \<Rightarrow> nat \<Rightarrow> parse_state \<Rightarrow> parse_state option" where
  "parse_gidn_2003 env \<equiv> parse_gidn (ue_idna_to_ascii_8z env) (ue_idna_to_ascii_lz env)"

definition parse_idna :: "url_env \<Rightarrow> 32 word \<Rightarrow> nat \<Rightarrow> parse_state \<Rightarrow> parse_state option" where
  "parse_idna env flags len st =
     (if flags AND PHP_HTTP_URL_PARSE_TOIDN_2008 = PHP_HTTP_URL_PARSE_TOIDN_2008 \<or>
         flags AND PHP_HTTP_URL_PARSE_TOIDN_2003 \<noteq> PHP_HTTP_URL_PARSE_TOIDN_2003
      then parse_gidn_2008 env flags len st else parse_gidn_2003 env flags len st)"

text \<open>\<open>parse_ip6\<close>: the new \<open>ptr\<close> and state.\<close>

definition parse_ip6 :: "url_env \<Rightarrow> bytes \<Rightarrow> nat \<Rightarrow> nat \<Rightarrow> parse_state \<Rightarrow> (nat \<times> parse_state) option" where
  "parse_ip6 env mem fin ptr st =
     (case index_of (\<lambda>c. c = CHR '']'') (take (fin - ptr) (drop ptr mem)) of
        None \<Rightarrow> None
      | Some i \<Rightarrow>
          (case ue_inet6 env (take (i - 1) (drop (ptr + 1) mem)) of
             None \<Rightarrow> None
           | Some addr \<Rightarrow>
               Some (ptr + i + 1,
                 emit (CHR ''['' # addr @ [CHR '']'', NUL]) (st\<lparr>ps_host := Some (length (ps_buf st))\<rparr>))))"

text \<open>The loop of \<open>parse_hostinfo\<close>; \<open>port\<close> and \<open>label\<close> tell whether these pointers are set.\<close>

definition hostinfo_step ::
  "url_env \<Rightarrow> 32 word \<Rightarrow> bytes \<Rightarrow> nat \<Rightarrow> nat \<Rightarrow> bool \<times> bool \<times> parse_state \<Rightarrow> (bool \<times> bool \<times> parse_state) step" where
  "hostinfo_step env flags mem fin ptr = (\<lambda>(port, label, st).
     let c = rd mem ptr; ignore = isflag flags PHP_HTTP_URL_IGNORE_ERRORS in
     if c = CHR '':'' then
       (if port \<and> \<not> ignore then SFail else SNext (True, label, st) 0)
     else if c = CHR ''%'' then
       (if \<not> pct_ok mem ptr fin then (if \<not> ignore then SFail else SNext (port, label, emit [c] st) 1)
        else SNext (port, label, emit (pct_bytes mem ptr) st) 2)
     else if c = CHR ''.'' then
       (if port \<or> \<not> label then (if \<not> ignore then SFail else SNext (port, label, st) 0)
        else SNext (port, False, emit [c] st) 0)
     else if c = CHR ''-'' \<and> \<not> label then
       (if \<not> ignore then SFail else SNext (port, label, st) 0)
     else if c \<in> set ''-_~'' \<or> sub_delim c \<or> isalpha c then
       (if port then (if \<not> ignore then SFail else SNext (port, label, st) 0)
        else SNext (port, True, emit [c] st) 0)
     else if isdigit c then
       (if port then SNext (port, label, st\<lparr>ps_port := ps_port st * 10 + of_nat (uchar c - 48)\<rparr>) 0
        else SNext (port, True, emit [c] st) 0)
     else if ptr = fin then SNext (port, label, st) 0
     else if port then (if \<not> ignore then SFail else SNext (port, label, st) 0)
     else (case parse_mb env flags PARSE_HOSTINFO mem ptr fin of
             None \<Rightarrow> if \<not> ignore then SFail else SNext (port, label, st) 0
           | Some (out, mb) \<Rightarrow> SNext (port, True, emit out st) (mb - 1)))"

definition parse_hostinfo ::
  "url_env \<Rightarrow> 32 word \<Rightarrow> bytes \<Rightarrow> nat \<Rightarrow> nat \<Rightarrow> parse_state \<Rightarrow> parse_state option" where
  "parse_hostinfo env flags mem fin ptr st =
     (let len = length (ps_buf st);
          ip6 = (if rd mem ptr = CHR ''['' then
                   (case parse_ip6 env mem fin ptr st of
                      Some r \<Rightarrow> Some r
                    | None \<Rightarrow> if \<not> isflag flags PHP_HTTP_URL_IGNORE_ERRORS then None else Some (ptr, st))
                 else Some (ptr, st))
      in case ip6 of
        None \<Rightarrow> None
      | Some (ptr, st) \<Rightarrow>
          (case (if ptr \<noteq> fin then scan (hostinfo_step env flags mem fin) fin ptr (False, False, st)
                 else Some (False, (False, False, st), ptr)) of
             None \<Rightarrow> None
           | Some (_, (_, _, st), _) \<Rightarrow>
               let (len, st) =
                 (if ps_host st = None
                  then (length (ps_buf st) - len, emit [NUL] (st\<lparr>ps_host := Some len\<rparr>))
                  else (len, st))
               in if isflag flags PHP_HTTP_URL_PARSE_TOIDN then parse_idna env flags len st else Some st))"

text \<open>The loop of \<open>parse_authority\<close>, up to the host delimiter; \<open>tmp\<close> is where the host begins.\<close>

definition authority_step ::
  "url_env \<Rightarrow> 32 word \<Rightarrow> bytes \<Rightarrow> nat \<Rightarrow> nat \<times> bool \<times> parse_state \<Rightarrow> (nat \<times> bool \<times> parse_state) step" where
  "authority_step env flags mem ptr = (\<lambda>(tmp, host, st).
     let c = rd mem ptr in
     if c = CHR ''@'' then
       (if host then (if \<not> isflag flags PHP_HTTP_URL_IGNORE_ERRORS then SFail else SNext (tmp, host, st) 0)
        else if tmp \<noteq> ptr then
          (case parse_userinfo env flags mem ptr tmp st of
             None \<Rightarrow> SFail
           | Some st \<Rightarrow> SNext (Suc ptr, True, st) 0)
        else SNext (Suc ptr, True, st) 0)
     else if c = CHR ''/'' \<or> c = CHR ''?'' \<or> c = CHR ''#'' \<or> c = NUL then SStop
     else SNext (tmp, host, st) 0)"

definition parse_authority ::
  "url_env \<Rightarrow> 32 word \<Rightarrow> bytes \<Rightarrow> nat \<Rightarrow> nat \<Rightarrow> parse_state \<Rightarrow> (nat \<times> parse_state) option" where
  "parse_authority env flags mem fin ptr st =
     (case scan (authority_step env flags mem) (Suc fin) ptr (ptr, False, st) of
        None \<Rightarrow> None
      | Some (stopped, (tmp, _, st), ptr) \<Rightarrow>
          let ptr = (if stopped then ptr else ptr - 1) in
          if tmp \<noteq> ptr
          then map_option (\<lambda>st. (ptr, st)) (parse_hostinfo env flags mem ptr tmp st)
          else Some (ptr, st))"

section \<open>Path, query and fragment\<close>

definition path_step ::
  "url_env \<Rightarrow> 32 word \<Rightarrow> bytes \<Rightarrow> nat \<Rightarrow> nat \<Rightarrow> parse_state \<Rightarrow> parse_state step" where
  "path_step env flags mem fin ptr st =
     (let c = rd mem ptr; ignore = isflag flags PHP_HTTP_URL_IGNORE_ERRORS in
      if c = CHR ''#'' \<or> c = CHR ''?'' then SStop
      else if c = CHR ''%'' then
        (if \<not> pct_ok mem ptr fin then (if \<not> ignore then SFail else SNext (emit [c] st) 0)
         else SNext (emit (pct_bytes mem ptr) st) 2)
      else if c \<in> set ''/:@'' \<or> sub_delim c \<or> unreserved_mark c \<or> isalnum c then SNext (emit [c] st) 0
      else (case parse_mb env flags PARSE_PATH mem ptr fin of
              None \<Rightarrow> if \<not> ignore then SFail else SNext st 0
            | Some (out, mb) \<Rightarrow> SNext (emit out st) (mb - 1)))"

definition parse_path ::
  "url_env \<Rightarrow> 32 word \<Rightarrow> bytes \<Rightarrow> nat \<Rightarrow> nat \<Rightarrow> parse_state \<Rightarrow> (nat \<times> parse_state) option" where
  "parse_path env flags mem fin ptr st =
     (if rd mem ptr = NUL then Some (ptr, st)
      else case scan (path_step env flags mem fin) fin ptr (st\<lparr>ps_path := Some (length (ps_buf st))\<rparr>) of
        None \<Rightarrow> None
      | Some (_, st, p) \<Rightarrow> if p \<noteq> ptr then Some (p, emit [NUL] st) else Some (p, st\<lparr>ps_path := None\<rparr>))"

text \<open>The common tail of the query and the fragment loop.\<close>

definition query_char ::
  "url_env \<Rightarrow> 32 word \<Rightarrow> parse_mb_what \<Rightarrow> bytes \<Rightarrow> nat \<Rightarrow> nat \<Rightarrow> parse_state \<Rightarrow> parse_state step" where
  "query_char env flags what mem fin ptr st =
     (let c = rd mem ptr; ignore = isflag flags PHP_HTTP_URL_IGNORE_ERRORS in
      if c = CHR ''%'' \<and> pct_ok mem ptr fin then SNext (emit (pct_bytes mem ptr) st) 2
      else if c = CHR ''%'' \<and> \<not> ignore then SFail
      else if c = CHR ''%'' \<or> unsafe_char c then
        (if isflag flags PHP_HTTP_URL_PARSE_TOPCT then SNext (emit (pct_encode c) st) 0
         else SNext (emit [c] st) 0)
      else if c \<in> set ''?/:@'' \<or> sub_delim c \<or> unreserved_mark c \<or> isalnum c then SNext (emit [c] st) 0
      else (case parse_mb env flags what mem ptr fin of
              None \<Rightarrow> if \<not> ignore then SFail else SNext st 0
            | Some (out, mb) \<Rightarrow> SNext (emit out st) (mb - 1)))"

definition query_step ::
  "url_env \<Rightarrow> 32 word \<Rightarrow> bytes \<Rightarrow> nat \<Rightarrow> nat \<Rightarrow> parse_state \<Rightarrow> parse_state step" where
  "query_step env flags mem fin ptr st =
     (if rd mem ptr = CHR ''#'' then SStop else query_char env flags PARSE_QUERY mem fin ptr st)"

definition parse_query ::
  "url_env \<Rightarrow> 32 word \<Rightarrow> bytes \<Rightarrow> nat \<Rightarrow> nat \<Rightarrow> parse_state \<Rightarrow> (nat \<times> parse_state) option" where
  "parse_query env flags mem fin ptr st =
     (if rd mem ptr \<noteq> CHR ''?'' then Some (ptr, st)
      else let ptr = Suc ptr; st = st\<lparr>ps_query := Some (length (ps_buf st))\<rparr> in
        if ptr < fin
        then (case scan (query_step env flags mem fin) fin ptr st of
                None \<Rightarrow> None
              | Some (_, st, p) \<Rightarrow> Some (p, emit [NUL] st))
        else Some (ptr, emit [NUL] st))"

definition fragment_step ::
  "url_env \<Rightarrow> 32 word \<Rightarrow> bytes \<Rightarrow> nat \<Rightarrow> nat \<Rightarrow> parse_state \<Rightarrow> parse_state step" where
  "fragment_step env flags mem fin ptr st =
     (if rd mem ptr = CHR ''#''
      then (if \<not> isflag flags PHP_HTTP_URL_IGNORE_ERRORS then SFail else SNext (emit [rd mem ptr] st) 0)
      else query_char env flags PARSE_FRAGMENT mem fin ptr st)"

definition parse_fragment ::
  "url_env \<Rightarrow> 32 word \<Rightarrow> bytes \<Rightarrow> nat \<Rightarrow> nat \<Rightarrow> parse_state \<Rightarrow> (nat \<times> parse_state) option" where
  "parse_fragment env flags mem fin ptr st =
     (if rd mem ptr \<noteq> CHR ''#'' then Some (ptr, st)
      else case scan (fragment_step env flags mem fin) fin (Suc ptr) (st\<lparr>ps_fragment := Some (length (ps_buf st))\<rparr>) of
        None \<Rightarrow> None
      | Some (_, st, p) \<Rightarrow> Some (p, emit [NUL] st))"

section \<open>Scheme and the whole URL\<close>

definition parse_hier ::
  "url_env \<Rightarrow> 32 word \<Rightarrow> bytes \<Rightarrow> nat \<Rightarrow> nat \<Rightarrow> parse_state \<Rightarrow> (nat \<times> parse_state) option" where
  "parse_hier env flags mem fin ptr st =
     (if rd mem ptr = CHR ''/'' \<and> ptr + 1 < fin \<and> rd mem (ptr + 1) = CHR ''/''
      then (case parse_authority env flags mem fin (ptr + 2) st of
              None \<Rightarrow> None
            | Some (ptr, st) \<Rightarrow> parse_path env flags mem fin ptr st)
      else parse_path env flags mem fin ptr st)"

definition scheme_step ::
  "url_env \<Rightarrow> 32 word \<Rightarrow> bytes \<Rightarrow> nat \<Rightarrow> nat \<Rightarrow> nat \<Rightarrow> parse_state \<Rightarrow> parse_state step" where
  "scheme_step env flags mem fin tmp ptr st =
     (let c = rd mem ptr in
      if c = CHR '':'' then SStop
      else if isdigit c \<or> c \<in> set ''+-.'' then (if ptr = tmp then SFail else SNext (emit [c] st) 0)
      else if isalpha c then SNext (emit [c] st) 0
      else (case parse_mb env flags PARSE_SCHEME mem ptr fin of
              None \<Rightarrow> SFail
            | Some (out, mb) \<Rightarrow> SNext (emit out st) (mb - 1)))"

text \<open>A failing step and the end of the string are both the label \<open>softfail\<close>: there is no scheme.\<close>

definition parse_scheme :: "url_env \<Rightarrow> 32 word \<Rightarrow> bytes \<Rightarrow> nat \<Rightarrow> nat \<Rightarrow> parse_state \<Rightarrow> nat \<times> parse_state" where
  "parse_scheme env flags mem fin ptr st =
     (case scan (scheme_step env flags mem fin ptr) fin ptr st of
        Some (True, st, p) \<Rightarrow> (Suc p, emit [NUL] (st\<lparr>ps_scheme := Some 0\<rparr>))
      | _ \<Rightarrow> (ptr, st\<lparr>ps_buf := []\<rparr>))"

definition url_parse_state :: "url_env \<Rightarrow> bytes \<Rightarrow> nat \<Rightarrow> 32 word \<Rightarrow> parse_state option" where
  "url_parse_state env mem len flags =
     (let (ptr, st) = parse_scheme env flags mem len 0 ps_init in
      case parse_hier env flags mem len ptr st of
        None \<Rightarrow> None
      | Some (ptr, st) \<Rightarrow>
          (case parse_query env flags mem len ptr st of
             None \<Rightarrow> None
           | Some (ptr, st) \<Rightarrow>
               map_option snd (parse_fragment env flags mem len ptr st)))"

definition php_http_url_parse :: "url_env \<Rightarrow> bytes \<Rightarrow> nat \<Rightarrow> 32 word \<Rightarrow> php_http_url option" where
  "php_http_url_parse env mem len flags = map_option ps_url (url_parse_state env mem len flags)"

definition php_http_url_parse_authority :: "url_env \<Rightarrow> bytes \<Rightarrow> nat \<Rightarrow> 32 word \<Rightarrow> php_http_url option" where
  "php_http_url_parse_authority env mem len flags =
     (case parse_authority env flags mem len 0 ps_init of
        None \<Rightarrow> None
      | Some (ptr, st) \<Rightarrow>
          if ptr \<noteq> len \<and> \<not> isflag flags PHP_HTTP_URL_IGNORE_ERRORS then None else Some (ps_url st))"

section \<open>Combining URLs\<close>

text \<open>Back to the previous slash, or to the start of the path.\<close>

fun path_back :: "bytes \<Rightarrow> nat \<Rightarrow> nat" where
  "path_back path 0 = 0"
| "path_back path (Suc n) = (if path ! n = CHR ''/'' then n else path_back path n)"

text \<open>
  The loop of \<open>php_http_url_mod\<close> that replaces directory references. The path is the string up to its
  terminator; \<open>memmove\<close> and storing a zero byte shorten it. \<open>pos\<close> is where \<open>strchr\<close> looks next.
\<close>

lemma rd_inside: "rd m i \<noteq> NUL \<Longrightarrow> i < length m"
  by (simp add: rd_def split: if_splits)

lemma path_back_le: "path_back path n \<le> n"
  by (induction n) auto

function sanitize_path :: "bytes \<Rightarrow> nat \<Rightarrow> bytes" where
  "sanitize_path path pos =
     (case index_of (\<lambda>c. c = CHR ''/'') (drop pos path) of
        None \<Rightarrow> path
      | Some i \<Rightarrow>
          let ptr = pos + i in
          if rd path (ptr + 1) = CHR ''/'' then sanitize_path (take (ptr + 1) path @ drop (ptr + 2) path) ptr
          else if rd path (ptr + 1) = CHR ''.'' then
            (if rd path (ptr + 2) = NUL then sanitize_path (take (ptr + 1) path) ptr
             else if rd path (ptr + 2) = CHR ''/'' then sanitize_path (take (ptr + 1) path @ drop (ptr + 3) path) ptr
             else if rd path (ptr + 2) = CHR ''.'' then
               (if rd path (ptr + 3) = CHR ''/'' then
                  let p = path_back path ptr in sanitize_path (take (p + 1) path @ drop (ptr + 4) path) p
                else if rd path (ptr + 3) = NUL then sanitize_path (take (ptr + 1) path) (ptr + 1)
                else sanitize_path path (ptr + 1))
             else sanitize_path path (ptr + 1))
          else sanitize_path path (ptr + 1))"
  by auto
termination
proof (relation "measures [\<lambda>(path, _). length path, \<lambda>(path, pos). length path - pos]", goal_cases)
  case (5 path pos i ptr p)
  have "ptr + 3 < length path" using 5 by (intro rd_inside) simp
  moreover have "p \<le> ptr" using 5 path_back_le by simp
  ultimately have "length (take (p + 1) path @ drop (ptr + 4) path) < length path" by simp
  then show ?case by (simp only: measures_less case_prod_conv)
qed (auto simp: rd_def dest!: index_of_SomeD split: if_splits)

declare sanitize_path.simps [simp del]

text \<open>
  What the combination uses from outside: the URL of the environment, \<open>php_dirname\<close>, and the joining
  of query strings (\<open>php_http_querystring_update\<close>).
\<close>

record mod_env =
  me_env_url :: php_http_url
  me_dirname :: "bytes \<Rightarrow> bytes"
  me_join_query :: "bytes \<Rightarrow> bytes \<Rightarrow> bytes"

definition url_copy_part :: "bytes option \<Rightarrow> bytes option \<Rightarrow> bytes option" where
  "url_copy_part old new = (case new of Some s \<Rightarrow> Some s | None \<Rightarrow> old)"

definition opt_part :: "(php_http_url \<Rightarrow> bytes option) \<Rightarrow> php_http_url option \<Rightarrow> bytes option" where
  "opt_part f u = (case u of None \<Rightarrow> None | Some u \<Rightarrow> f u)"

text \<open>
  The joined path; an empty old path makes the code look at the byte before its copy of the path, which
  is undefined (\<^const>\<open>None\<close>).
\<close>

definition join_path :: "mod_env \<Rightarrow> bytes \<Rightarrow> bytes \<Rightarrow> bytes option" where
  "join_path env old new =
     (if old = [] then None
      else let path = (if last old \<noteq> CHR ''/'' then me_dirname env old @ ''/'' else old) @ new
           in Some (if rd path 0 \<noteq> CHR ''/'' then CHR ''/'' # path else path))"

definition url_mod_path ::
  "mod_env \<Rightarrow> php_http_url option \<Rightarrow> php_http_url option \<Rightarrow> 32 word \<Rightarrow> bytes option option" where
  "url_mod_path env old new flags =
     (if isflag flags PHP_HTTP_URL_STRIP_PATH then Some None
      else case (opt_part url_path old, opt_part url_path new) of
        (Some o', Some n) \<Rightarrow>
          if isflag flags PHP_HTTP_URL_JOIN_PATH \<and> rd n 0 \<noteq> CHR ''/'' then map_option Some (join_path env o' n)
          else Some (Some n)
      | (o', n) \<Rightarrow> Some (url_copy_part o' n))"

definition url_mod_query ::
  "mod_env \<Rightarrow> php_http_url option \<Rightarrow> php_http_url option \<Rightarrow> 32 word \<Rightarrow> bytes option" where
  "url_mod_query env old new flags =
     (if isflag flags PHP_HTTP_URL_STRIP_QUERY then None
      else case (opt_part url_query old, opt_part url_query new) of
        (Some o', Some n) \<Rightarrow> Some (if isflag flags PHP_HTTP_URL_JOIN_QUERY then me_join_query env o' n else n)
      | (o', n) \<Rightarrow> url_copy_part o' n)"

text \<open>The port; a default port of the scheme is unset.\<close>

definition url_mod_port ::
  "php_http_url option \<Rightarrow> php_http_url option \<Rightarrow> 32 word \<Rightarrow> bytes option \<Rightarrow> 16 word" where
  "url_mod_port old new flags scheme =
     (let old_port = (case old of Some o' \<Rightarrow> url_port o' | None \<Rightarrow> 0);
          port = (if isflag flags PHP_HTTP_URL_STRIP_PORT then 0
                  else case new of Some n \<Rightarrow> if url_port n \<noteq> 0 then url_port n else old_port
                       | None \<Rightarrow> old_port)
      in if port = 80 \<and> scheme = Some ''http'' \<or> port = 443 \<and> scheme = Some ''https'' then 0 else port)"

text \<open>\<open>php_http_url_mod\<close> without the flag \<open>FROM_ENV\<close>.\<close>

definition url_mod_plain ::
  "mod_env \<Rightarrow> php_http_url option \<Rightarrow> php_http_url option \<Rightarrow> 32 word \<Rightarrow> php_http_url option" where
  "url_mod_plain env old new flags = do {
     path \<leftarrow> url_mod_path env old new flags;
     let scheme = url_copy_part (opt_part url_scheme old) (opt_part url_scheme new);
         path = (if isflag flags PHP_HTTP_URL_SANITIZE_PATH
                 then map_option (\<lambda>p. if 1 < length p then sanitize_path p 0 else p) path else path)
     in Some \<lparr>url_scheme = scheme,
         url_user = (if isflag flags PHP_HTTP_URL_STRIP_USER then None
                     else url_copy_part (opt_part url_user old) (opt_part url_user new)),
         url_pass = (if isflag flags PHP_HTTP_URL_STRIP_PASS then None
                     else url_copy_part (opt_part url_pass old) (opt_part url_pass new)),
         url_host = url_copy_part (opt_part url_host old) (opt_part url_host new),
         url_port = url_mod_port old new flags scheme, url_path = path, url_query = url_mod_query env old new flags,
         url_fragment = (if isflag flags PHP_HTTP_URL_STRIP_FRAGMENT then None
                         else url_copy_part (opt_part url_fragment old) (opt_part url_fragment new))\<rparr>
   }"

definition php_http_url_mod ::
  "mod_env \<Rightarrow> php_http_url option \<Rightarrow> php_http_url option \<Rightarrow> 32 word \<Rightarrow> php_http_url option" where
  "php_http_url_mod env old new flags =
     (if isflag flags PHP_HTTP_URL_FROM_ENV
      then do {
        tmp \<leftarrow> url_mod_plain env (Some (me_env_url env)) old (flags XOR PHP_HTTP_URL_FROM_ENV);
        url_mod_plain env (Some tmp) new flags
      }
      else url_mod_plain env old new flags)"

section \<open>Sanitising is normalisation of segments\<close>

text \<open>A path as its segments, each behind a slash.\<close>

definition flat :: "bytes list \<Rightarrow> bytes" where "flat ss = concat (map (\<lambda>s. CHR ''/'' # s) ss)"

text \<open>
  The reference: go through the segments, drop empty segments and \<open>.\<close>, let \<open>..\<close> remove the last kept
  segment. A final \<open>.\<close> or \<open>..\<close> only leaves the slash.
\<close>

fun normalize :: "bytes list \<Rightarrow> bytes list \<Rightarrow> bytes list" where
  "normalize kept [] = kept"
| "normalize kept [s] = kept @ [if s = ''.'' \<or> s = ''..'' then [] else s]"
| "normalize kept (s # t # r) =
     (if s = [] \<or> s = ''.'' then normalize kept (t # r)
      else if s = ''..'' then normalize (butlast kept) (t # r)
      else normalize (kept @ [s]) (t # r))"

definition segment :: "bytes \<Rightarrow> bool" where
  "segment s \<longleftrightarrow> CHR ''/'' \<notin> set s \<and> NUL \<notin> set s"

lemma flat_simps [simp]:
  "flat [] = []" "flat (s # ss) = CHR ''/'' # s @ flat ss" "flat (ss @ tt) = flat ss @ flat tt"
  by (simp_all add: flat_def)

lemma index_of_skip:
  "\<forall>x\<in>set xs. \<not> p x \<Longrightarrow> index_of p (xs @ ys) = map_option (\<lambda>i. i + length xs) (index_of p ys)"
  by (simp add: index_of_append index_of_None [THEN iffD2])

lemma sanitize_path_find:
  "sanitize_path path pos =
     (case index_of (\<lambda>c. c = CHR ''/'') (drop pos path) of None \<Rightarrow> path | Some i \<Rightarrow> sanitize_path path (pos + i))"
proof (cases "index_of (\<lambda>c. c = CHR ''/'') (drop pos path)")
  case None
  then show ?thesis by (simp add: sanitize_path.simps [of path pos])
next
  case (Some i)
  then have "i < length (drop pos path)" "drop pos path ! i = CHR ''/''" by (auto dest: index_of_SomeD)
  then have "drop (pos + i) path = CHR ''/'' # drop (Suc (pos + i)) path"
    using Cons_nth_drop_Suc [of "pos + i" path] by simp
  with Some show ?thesis by (simp add: sanitize_path.simps [of path pos] sanitize_path.simps [of path "pos + i"])
qed

lemma sanitize_skip:
  assumes "CHR ''/'' \<notin> set s"
  shows "sanitize_path (a @ s @ b) (length a) = sanitize_path (a @ s @ b) (length a + length s)"
proof -
  have "index_of (\<lambda>c. c = CHR ''/'') (s @ b) = map_option (\<lambda>i. i + length s) (index_of (\<lambda>c. c = CHR ''/'') b)"
    using assms by (intro index_of_skip) auto
  then show ?thesis
    by (subst (1 2) sanitize_path_find) (auto simp: ac_simps split: option.splits)
qed

lemma path_back_segment:
  assumes "CHR ''/'' \<notin> set s"
  shows "path_back (a @ CHR ''/'' # s @ b) (length (a @ CHR ''/'' # s)) = length a"
  using assms
proof (induction s arbitrary: b rule: rev_induct)
  case Nil
  then show ?case by (simp add: nth_append)
next
  case (snoc c s)
  from snoc.IH [of "c # b"] snoc.prems show ?case by (auto simp: nth_append)
qed

lemma rd_append [simp]: "rd (a @ b) (length a + n) = rd b n"
  by (simp add: rd_def nth_append)

text \<open>The loop at a slash, by the segment that follows.\<close>

lemma sanitize_at_slash:
  "sanitize_path (a @ CHR ''/'' # r) (length a) =
     (if rd r 0 = CHR ''/'' then sanitize_path (a @ CHR ''/'' # drop 1 r) (length a)
      else if rd r 0 = CHR ''.'' then
        (if rd r 1 = NUL then sanitize_path (a @ ''/'') (length a)
         else if rd r 1 = CHR ''/'' then sanitize_path (a @ CHR ''/'' # drop 2 r) (length a)
         else if rd r 1 = CHR ''.'' then
           (if rd r 2 = CHR ''/'' then
              (let p = path_back (a @ CHR ''/'' # r) (length a) in
               sanitize_path (take (p + 1) (a @ ''/'') @ drop 3 r) p)
            else if rd r 2 = NUL then sanitize_path (a @ ''/'') (length a + 1)
            else sanitize_path (a @ CHR ''/'' # r) (length a + 1))
         else sanitize_path (a @ CHR ''/'' # r) (length a + 1))
      else sanitize_path (a @ CHR ''/'' # r) (length a + 1))"
proof -
  let ?P = "a @ CHR ''/'' # r"
  have find: "index_of (\<lambda>c. c = CHR ''/'') (drop (length a) ?P) = Some 0" by simp
  have rds: "rd ?P (length a + 1) = rd r 0" "rd ?P (length a + 2) = rd r 1" "rd ?P (length a + 3) = rd r 2"
    using rd_append [of a "CHR ''/'' # r" 1] rd_append [of a "CHR ''/'' # r" 2] rd_append [of a "CHR ''/'' # r" 3]
    by (simp_all add: numeral_2_eq_2 numeral_3_eq_3 del: rd_append)
  have drs: "take (length a + 1) ?P = a @ ''/''" "drop (length a + 2) ?P = drop 1 r"
    "drop (length a + 3) ?P = drop 2 r" "drop (length a + 4) ?P = drop 3 r"
    by (simp_all add: drop_Cons' take_Cons')
  have tk: "take (path_back ?P (length a) + 1) ?P = take (path_back ?P (length a) + 1) (a @ ''/'')"
    using path_back_le [of ?P "length a"] by (simp add: take_Cons')
  show ?thesis
    by (subst sanitize_path.simps)
       (simp only: find option.case Let_def add_0_right rds drs tk append_assoc append_Cons append_Nil)
qed

definition kept_segment :: "bytes \<Rightarrow> bool" where
  "kept_segment s \<longleftrightarrow> segment s \<and> s \<noteq> [] \<and> s \<noteq> ''.'' \<and> s \<noteq> ''..''"

lemma sanitize_end: "sanitize_path (a @ ''/'') (length a) = a @ ''/''"
  "sanitize_path (a @ ''/'') (length a + 1) = a @ ''/''"
  by (simp_all add: sanitize_at_slash [of a "[]", simplified] sanitize_path.simps [of _ "Suc (length a)"])

text \<open>A segment that is kept is skipped over.\<close>

lemma sanitize_kept:
  assumes "kept_segment s" "r = [] \<or> (\<exists>r'. r = CHR ''/'' # r')"
  shows "sanitize_path (a @ CHR ''/'' # s @ r) (length a) = sanitize_path (a @ CHR ''/'' # s @ r) (length a + 1 + length s)"
proof -
  obtain c s' where s: "s = c # s'" using assms(1) by (cases s) (auto simp: kept_segment_def)
  have seg: "CHR ''/'' \<notin> set s" "NUL \<notin> set s" "s \<noteq> ''.''" "s \<noteq> ''..''"
    using assms(1) by (simp_all add: kept_segment_def segment_def)
  have "sanitize_path (a @ CHR ''/'' # s @ r) (length a) = sanitize_path (a @ CHR ''/'' # s @ r) (length a + 1)"
  proof (cases "c = CHR ''.''")
    case False
    with s seg show ?thesis by (subst sanitize_at_slash) auto
  next
    case dot: True
    with s seg obtain d s'' where s': "s' = d # s''" by (cases s') auto
    show ?thesis
    proof (cases "d = CHR ''.''")
      case False
      with s s' dot seg show ?thesis by (subst sanitize_at_slash) auto
    next
      case True
      with s s' dot seg obtain e s3 where "s'' = e # s3" by (cases s'') auto
      with s s' dot True seg show ?thesis by (subst sanitize_at_slash) (auto simp: numeral_2_eq_2)
    qed
  qed
  also have "\<dots> = sanitize_path (a @ CHR ''/'' # s @ r) (length a + 1 + length s)"
    using sanitize_skip [OF seg(1), of "a @ ''/''" r] by simp
  finally show ?thesis .
qed

lemma path_back_flat:
  assumes "\<forall>s\<in>set kept. kept_segment s"
  shows "path_back (flat kept @ r) (length (flat kept)) = length (flat (butlast kept))"
proof (cases kept rule: rev_cases)
  case Nil
  then show ?thesis by simp
next
  case (snoc ks s)
  then have "CHR ''/'' \<notin> set s" using assms by (simp add: kept_segment_def segment_def)
  from path_back_segment [OF this, of "flat ks" r] snoc show ?thesis by simp
qed

lemma sanitize_dotdot:
  assumes "\<forall>s\<in>set kept. kept_segment s"
  shows "sanitize_path (flat kept @ CHR ''/'' # CHR ''.'' # CHR ''.'' # CHR ''/'' # r) (length (flat kept)) =
           sanitize_path (flat (butlast kept) @ CHR ''/'' # r) (length (flat (butlast kept)))"
proof -
  have "take (Suc (length (flat (butlast kept)))) (flat kept @ ''/'') = flat (butlast kept) @ ''/''"
    by (cases kept rule: rev_cases) simp_all
  then show ?thesis
    using path_back_flat [OF assms]
    by (subst sanitize_at_slash) (simp add: Let_def numeral_2_eq_2 numeral_3_eq_3 del: take_append)
qed

lemma sanitize_flat:
  assumes "segs \<noteq> []" "\<forall>s\<in>set segs. segment s" "\<forall>s\<in>set kept. kept_segment s"
  shows "sanitize_path (flat kept @ flat segs) (length (flat kept)) = flat (normalize kept segs)"
  using assms
proof (induction kept segs rule: normalize.induct)
  case (1 kept)
  then show ?case by simp
next
  case (2 kept s)
  consider "s = []" | "s = ''.''" | "s = ''..''" | "kept_segment s"
    using "2.prems"(2) by (auto simp: kept_segment_def)
  then show ?case
  proof cases
    case 1
    then show ?thesis using sanitize_end(1) [of "flat kept"] by simp
  next
    case 2
    then show ?thesis using sanitize_end(1) [of "flat kept"] sanitize_at_slash [of "flat kept" "''.''"] by simp
  next
    case 3
    then show ?thesis using sanitize_end(2) [of "flat kept"] sanitize_at_slash [of "flat kept" "''..''"]
      by (simp add: numeral_2_eq_2)
  next
    case 4
    then show ?thesis
      using sanitize_kept [of s "[]" "flat kept"]
      by (auto simp: kept_segment_def sanitize_path.simps [of _ "Suc (length (flat kept) + length s)"])
  qed
next
  case (3 kept s t r)
  consider "s = []" | "s = ''.''" | "s = ''..''" | "kept_segment s"
    using "3.prems"(2) by (auto simp: kept_segment_def)
  then show ?case
  proof cases
    case 1
    with "3.IH"(1) "3.prems" show ?thesis
      using sanitize_at_slash [of "flat kept" "CHR ''/'' # t @ flat r"] by simp
  next
    case 2
    with "3.IH"(1) "3.prems" show ?thesis
      using sanitize_at_slash [of "flat kept" "CHR ''.'' # CHR ''/'' # t @ flat r"] by (simp add: numeral_2_eq_2)
  next
    case 3
    with "3.IH"(2) "3.prems" show ?thesis
      using sanitize_dotdot [of kept "t @ flat r"] by (simp add: in_set_butlastD)
  next
    case 4
    then have "\<not> (s = [] \<or> s = ''.'')" "s \<noteq> ''..''" by (auto simp: kept_segment_def)
    with "3.IH"(3) "3.prems" 4 show ?thesis
      using sanitize_kept [of s "CHR ''/'' # t @ flat r" "flat kept"] by simp
  qed
qed

lemma normalize_kept:
  assumes "segs \<noteq> []" "\<forall>s\<in>set segs. segment s" "\<forall>s\<in>set kept. kept_segment s"
  shows "\<exists>ks l. normalize kept segs = ks @ [l] \<and> (\<forall>s\<in>set ks. kept_segment s) \<and> (l = [] \<or> kept_segment l)"
  using assms
proof (induction kept segs rule: normalize.induct)
  case (3 kept s t r)
  consider "s = [] \<or> s = ''.''" | "s = ''..''" | "kept_segment s"
    using "3.prems"(2) by (auto simp: kept_segment_def)
  then show ?case
  proof cases
    case 1
    with 3 show ?thesis by simp
  next
    case 2
    with "3.IH"(2) "3.prems" show ?thesis by (auto dest: in_set_butlastD)
  next
    case 3
    then have "\<not> (s = [] \<or> s = ''.'')" "s \<noteq> ''..''" by (auto simp: kept_segment_def)
    with "3.IH"(3) "3.prems" 3 show ?thesis by simp
  qed
qed (auto simp: kept_segment_def)

section \<open>Results on combination\<close>

text \<open>
  C34. Path sanitising ends and equals the normalisation of segments: on an absolute path, given as
  its segments, the pointer loop of \<open>php_http_url_mod\<close> computes the path of the normalised segments,
  in which every segment but the last is non-empty and neither \<open>.\<close> nor \<open>..\<close>, and the last one is
  empty or such a segment.
\<close>

theorem sanitize_path_normalizes:
  assumes "segs \<noteq> []" "\<forall>s\<in>set segs. segment s"
  shows "sanitize_path (flat segs) 0 = flat (normalize [] segs) \<and>
         (\<exists>ks l. normalize [] segs = ks @ [l] \<and> (\<forall>s\<in>set ks. kept_segment s) \<and> (l = [] \<or> kept_segment l))"
  using sanitize_flat [OF assms, of "[]"] normalize_kept [OF assms, of "[]"] by simp

theorem sanitize_path_normalizes_witness:
  "sanitize_path (flat [''a'', ''.'', [], ''b'', ''..'', ''c'', []]) 0 =
     flat (normalize [] [''a'', ''.'', [], ''b'', ''..'', ''c'', []]) \<and>
   (\<exists>ks l. normalize [] [''a'', ''.'', [], ''b'', ''..'', ''c'', []] = ks @ [l] \<and>
      (\<forall>s\<in>set ks. kept_segment s) \<and> (l = [] \<or> kept_segment l))"
  by (rule sanitize_path_normalizes) (simp_all add: segment_def)

text \<open>A parent reference at the end of the path does not remove the segment before it.\<close>

lemma sanitize_final_dotdot: "sanitize_path ''/a/b/..'' 0 = ''/a/b/''"
  by code_simp

text \<open>In a relative path the segment before a parent reference is not removed as a whole.\<close>

lemma sanitize_relative: "sanitize_path ''a/../b'' 0 = ''ab''"
  by code_simp

text \<open>
  The combination strips what the flags say: without \<open>FROM_ENV\<close> a result has no component whose
  strip flag is set, no default port of its scheme, and otherwise prefers the host of the new URL.
\<close>

theorem url_mod_strips:
  assumes "php_http_url_mod env old new flags = Some u" "\<not> isflag flags PHP_HTTP_URL_FROM_ENV"
  shows "(isflag flags PHP_HTTP_URL_STRIP_USER \<longrightarrow> url_user u = None) \<and>
         (isflag flags PHP_HTTP_URL_STRIP_PASS \<longrightarrow> url_pass u = None) \<and>
         (isflag flags PHP_HTTP_URL_STRIP_PORT \<longrightarrow> url_port u = 0) \<and>
         (isflag flags PHP_HTTP_URL_STRIP_PATH \<longrightarrow> url_path u = None) \<and>
         (isflag flags PHP_HTTP_URL_STRIP_QUERY \<longrightarrow> url_query u = None) \<and>
         (isflag flags PHP_HTTP_URL_STRIP_FRAGMENT \<longrightarrow> url_fragment u = None) \<and>
         \<not> (url_scheme u = Some ''http'' \<and> url_port u = 80) \<and>
         \<not> (url_scheme u = Some ''https'' \<and> url_port u = 443) \<and>
         (\<forall>n s. new = Some n \<and> url_host n = Some s \<longrightarrow> url_host u = Some s)"
proof -
  define scheme where "scheme = url_copy_part (opt_part url_scheme old) (opt_part url_scheme new)"
  from assms obtain path where path: "url_mod_path env old new flags = Some path"
    and u: "url_mod_plain env old new flags = Some u"
    by (auto simp: php_http_url_mod_def url_mod_plain_def split: bind_splits)
  have "url_scheme u = scheme" "url_port u = url_mod_port old new flags scheme"
    using u path by (auto simp: url_mod_plain_def Let_def scheme_def)
  moreover have "\<not> (scheme = Some ''http'' \<and> url_mod_port old new flags scheme = 80)"
    "\<not> (scheme = Some ''https'' \<and> url_mod_port old new flags scheme = 443)"
    "isflag flags PHP_HTTP_URL_STRIP_PORT \<Longrightarrow> url_mod_port old new flags scheme = 0"
    unfolding url_mod_port_def Let_def by simp_all
  moreover have "isflag flags PHP_HTTP_URL_STRIP_PATH \<Longrightarrow> path = None"
    using path by (simp add: url_mod_path_def)
  ultimately show ?thesis
    using u path by (auto simp: url_mod_plain_def url_mod_query_def url_copy_part_def opt_part_def Let_def)
qed

definition sample_mod_env :: mod_env where
  "sample_mod_env = \<lparr>me_env_url = url_empty, me_dirname = (\<lambda>p. p), me_join_query = (\<lambda>a b. a @ CHR ''&'' # b)\<rparr>"

theorem url_mod_strips_witness:
  "url_user (the (php_http_url_mod sample_mod_env
     (Some (url_empty\<lparr>url_scheme := Some ''http'', url_user := Some ''u'', url_port := 80\<rparr>)) None PHP_HTTP_URL_STRIP_USER)) = None"
proof -
  have fl: "isflag PHP_HTTP_URL_STRIP_USER PHP_HTTP_URL_STRIP_USER" "\<not> isflag PHP_HTTP_URL_STRIP_USER PHP_HTTP_URL_FROM_ENV"
    by (simp_all add: isflag_def PHP_HTTP_URL_STRIP_USER_def PHP_HTTP_URL_FROM_ENV_def)
  obtain u where u: "php_http_url_mod sample_mod_env
     (Some (url_empty\<lparr>url_scheme := Some ''http'', url_user := Some ''u'', url_port := 80\<rparr>)) None PHP_HTTP_URL_STRIP_USER = Some u"
  proof -
    have "url_mod_path sample_mod_env
        (Some (url_empty\<lparr>url_scheme := Some ''http'', url_user := Some ''u'', url_port := 80\<rparr>)) None PHP_HTTP_URL_STRIP_USER
        = Some None"
      by (simp add: url_mod_path_def opt_part_def url_empty_def url_copy_part_def)
    with fl(2) that show thesis by (simp add: php_http_url_mod_def url_mod_plain_def Let_def)
  qed
  then show ?thesis using url_mod_strips [OF u fl(2)] fl(1) by simp
qed

end
