(* ===== verification/Http_Url_Parse.thy ===== *)
theory Http_Url_Parse
  imports Http_Url
begin

text \<open>
  Properties of the URL parser: what it accepts character by character, and that parsing inverts
  printing.
\<close>

section \<open>Scanning runs of plain characters\<close>

text \<open>A step that consumes one character and changes the state by \<open>f\<close>.\<close>

lemma scan_run:
  assumes "X \<noteq> []" "mem = A @ X @ B" "length (A @ X) \<le> fin"
    "\<And>i s. length A \<le> i \<Longrightarrow> i < length (A @ X) \<Longrightarrow> I s \<Longrightarrow> step i s = SNext (f (mem ! i) s) 0 \<and> I (f (mem ! i) s)"
    "I s"
  shows "scan step fin (length A) s =
           (if length (A @ X) < fin then scan step fin (length (A @ X)) (fold f X s)
            else Some (False, fold f X s, length (A @ X)))"
  using assms
proof (induction X arbitrary: A s)
  case Nil
  then show ?case by simp
next
  case (Cons x X)
  have first: "step (length A) s = SNext (f x s) 0" "I (f x s)"
    using Cons.prems(4) [of "length A" s] Cons.prems(2,5) by (simp_all add: nth_append)
  show ?case
  proof (cases "X = []")
    case True
    with first Cons.prems(3) show ?thesis by (simp add: scan.simps [of step fin "length A"])
  next
    case False
    have "Suc (length A) < fin" using Cons.prems(3) False by (cases X) auto
    with first have "scan step fin (length A) s = scan step fin (length (A @ [x])) (f x s)"
      by (simp add: scan.simps [of step fin "length A"])
    also have "\<dots> = (if length ((A @ [x]) @ X) < fin then scan step fin (length ((A @ [x]) @ X)) (fold f X (f x s))
            else Some (False, fold f X (f x s), length ((A @ [x]) @ X)))"
      using False Cons.prems first(2) by (intro Cons.IH) simp_all
    finally show ?thesis by simp
  qed
qed

lemma scan_next:
  "step ptr s = SNext s' n \<Longrightarrow> Suc (ptr + n) < fin \<Longrightarrow> scan step fin ptr s = scan step fin (Suc (ptr + n)) s'"
  "step ptr s = SNext s' n \<Longrightarrow> fin \<le> Suc (ptr + n) \<Longrightarrow> scan step fin ptr s = Some (False, s', Suc (ptr + n))"
  by (simp_all add: scan.simps [of step fin ptr])

lemma scan_stop: "step ptr s = SStop \<Longrightarrow> scan step fin ptr s = Some (True, s, ptr)"
  by (simp add: scan.simps)

lemma emit_simps [simp]:
  "emit a (emit b st) = emit (b @ a) st" "emit [] st = st" "ps_buf (emit a st) = ps_buf st @ a"
  "ps_scheme (emit a st) = ps_scheme st" "ps_user (emit a st) = ps_user st" "ps_pass (emit a st) = ps_pass st"
  "ps_host (emit a st) = ps_host st" "ps_port (emit a st) = ps_port st" "ps_path (emit a st) = ps_path st"
  "ps_query (emit a st) = ps_query st" "ps_fragment (emit a st) = ps_fragment st"
  by (simp_all add: emit_def)

lemma cstr_terminated [simp]: "NUL \<notin> set x \<Longrightarrow> cstr (x @ NUL # y) = x"
  by (induction x) (auto simp: cstr_def)

lemma fold_emit: "fold (\<lambda>c. emit [c]) X st = emit X st"
  by (induction X arbitrary: st) simp_all

lemma fold_emit_pair: "fold (\<lambda>c (b, st). (b, emit [c] st)) X (b, st) = (b, emit X st)"
  by (induction X arbitrary: st) simp_all

section \<open>Plain characters of the components\<close>

definition scheme_char :: "char \<Rightarrow> bool" where "scheme_char c \<longleftrightarrow> isalnum c \<or> c \<in> set ''+-.''"
definition user_char :: "char \<Rightarrow> bool" where
  "user_char c \<longleftrightarrow> sub_delim c \<or> unreserved_mark c \<or> isalnum c"
definition path_char :: "char \<Rightarrow> bool" where
  "path_char c \<longleftrightarrow> c \<in> set ''/:@'' \<or> user_char c"
definition query_char_ok :: "char \<Rightarrow> bool" where
  "query_char_ok c \<longleftrightarrow> c \<in> set ''?/:@'' \<or> user_char c"

text \<open>A host: no label begins with a hyphen, no dot at the beginning or behind a dot.\<close>

fun host_ok :: "bool \<Rightarrow> bytes \<Rightarrow> bool" where
  "host_ok label [] = True"
| "host_ok label (c # cs) =
     (if c = CHR ''.'' then label \<and> host_ok False cs
      else if c = CHR ''-'' then label \<and> host_ok True cs
      else (c \<in> set ''_~'' \<or> sub_delim c \<or> isalnum c) \<and> host_ok True cs)"

lemma user_char_not:
  assumes "user_char c"
  shows "c \<noteq> CHR '':''" "c \<noteq> CHR ''%''" "c \<noteq> CHR ''@''" "c \<noteq> CHR ''/''" "c \<noteq> CHR ''?''" "c \<noteq> CHR ''#''" "c \<noteq> NUL"
    "\<not> unsafe_char c" "c \<noteq> CHR ''[''"
  using assms by (auto simp: user_char_def sub_delim_def unreserved_mark_def unsafe_char_def ctype_simps)

lemma host_ok_chars: "host_ok l h \<Longrightarrow> c \<in> set h \<Longrightarrow> user_char c"
  by (induction l h rule: host_ok.induct)
     (auto simp: user_char_def unreserved_mark_def split: if_splits)

lemma rd_mid: "rd (A @ c # B) (length A) = c"
  by (simp add: rd_def nth_append)

lemma rd_nth: "i < length m \<Longrightarrow> rd m i = m ! i"
  by (simp add: rd_def)

lemma nth_run:
  "mem = A @ X @ B \<Longrightarrow> length A \<le> i \<Longrightarrow> i < length (A @ X) \<Longrightarrow> rd mem i = mem ! i \<and> mem ! i \<in> set X"
  by (auto simp: rd_def nth_append)

section \<open>The components\<close>

lemma parse_scheme_plain:
  assumes "mem = s @ CHR '':'' # B" "s \<noteq> []" "isalpha (hd s)" "\<forall>c\<in>set s. scheme_char c" "length s < fin"
  shows "parse_scheme env flags mem fin 0 st = (Suc (length s), emit (s @ [NUL]) (st\<lparr>ps_scheme := Some 0\<rparr>))"
proof -
  have st: "scheme_step env flags mem fin 0 i t = SNext (emit [mem ! i] t) 0" if "i < length s" for i t
  proof -
    have i: "rd mem i = s ! i" "mem ! i = s ! i" using that assms(1) by (simp_all add: rd_def nth_append)
    have "s ! i \<in> set s" using that by simp
    then have sc: "scheme_char (s ! i)" using assms(4) by blast
    moreover have "i = 0 \<Longrightarrow> isalpha (s ! i)" using assms(2,3) by (simp add: hd_conv_nth)
    ultimately show ?thesis
      unfolding scheme_step_def i Let_def by (auto simp: scheme_char_def ctype_simps)
  qed
  have "scan (scheme_step env flags mem fin 0) fin (length ([] :: bytes)) st =
      (if length ([] @ s) < fin then scan (scheme_step env flags mem fin 0) fin (length ([] @ s)) (fold (\<lambda>c. emit [c]) s st)
       else Some (False, fold (\<lambda>c. emit [c]) s st, length ([] @ s)))"
    using assms st
    by (intro scan_run [where A = "[]" and X = s and B = "CHR '':'' # B" and f = "\<lambda>c. emit [c]"
          and I = "\<lambda>_. True"]) simp_all
  moreover have "scheme_step env flags mem fin 0 (length s) (emit s st) = SStop"
    using assms(1) by (simp add: scheme_step_def rd_mid)
  ultimately have "scan (scheme_step env flags mem fin 0) fin 0 st = Some (True, emit s st, length s)"
    using assms(5) by (simp add: fold_emit scan_stop)
  then show ?thesis by (simp add: parse_scheme_def)
qed

lemma userinfo_run:
  assumes "X \<noteq> []" "mem = A @ X @ B" "length (A @ X) \<le> fin" "\<forall>c\<in>set X. user_char c"
  shows "scan (userinfo_step env flags mem fin) fin (length A) (b, st) =
           (if length (A @ X) < fin then scan (userinfo_step env flags mem fin) fin (length (A @ X)) (b, emit X st)
            else Some (False, (b, emit X st), length (A @ X)))"
proof -
  have "scan (userinfo_step env flags mem fin) fin (length A) (b, st) =
           (if length (A @ X) < fin then scan (userinfo_step env flags mem fin) fin (length (A @ X))
              (fold (\<lambda>c (b, st). (b, emit [c] st)) X (b, st))
            else Some (False, fold (\<lambda>c (b, st). (b, emit [c] st)) X (b, st), length (A @ X)))"
  proof (rule scan_run [OF assms(1-3), where I = "\<lambda>_. True"])
    fix i :: nat and s :: "bool \<times> parse_state"
    assume i: "length A \<le> i" "i < length (A @ X)"
    from nth_run [OF assms(2) i] assms(4) have "rd mem i = mem ! i" "user_char (mem ! i)" by auto
    with user_char_not [of "mem ! i"]
    show "userinfo_step env flags mem fin i s = SNext ((\<lambda>(b, st). (b, emit [mem ! i] st)) s) 0 \<and> True"
      by (auto simp: userinfo_step_def user_char_def split: prod.splits)
  qed simp
  then show ?thesis by (simp add: fold_emit_pair)
qed

text \<open>Userinfo with and without a password.\<close>

definition userinfo_str :: "bytes \<Rightarrow> bytes option \<Rightarrow> bytes" where
  "userinfo_str u p = u @ (case p of None \<Rightarrow> [] | Some p \<Rightarrow> CHR '':'' # p)"

definition userinfo_ok :: "bytes \<Rightarrow> bytes option \<Rightarrow> bool" where
  "userinfo_ok u p \<longleftrightarrow> u \<noteq> [] \<and> (\<forall>c\<in>set u. user_char c) \<and>
     (case p of None \<Rightarrow> True | Some p \<Rightarrow> p \<noteq> [] \<and> (\<forall>c\<in>set p. user_char c))"

definition set_userinfo :: "bytes \<Rightarrow> bytes option \<Rightarrow> parse_state \<Rightarrow> parse_state" where
  "set_userinfo u p st =
     (case p of
        None \<Rightarrow> emit (u @ [NUL]) (st\<lparr>ps_user := Some (length (ps_buf st))\<rparr>)
      | Some p \<Rightarrow> emit (u @ NUL # p @ [NUL])
          (st\<lparr>ps_user := Some (length (ps_buf st)), ps_pass := Some (length (ps_buf st) + length u + 1)\<rparr>))"

lemma parse_userinfo_plain:
  assumes mem: "mem = A @ userinfo_str u p @ B" and ok: "userinfo_ok u p"
  shows "parse_userinfo env flags mem (length (A @ userinfo_str u p)) (length A) st = Some (set_userinfo u p st)"
proof (cases p)
  case None
  let ?fin = "length (A @ u)"
  have "scan (userinfo_step env flags mem ?fin) ?fin (length A) (False, st\<lparr>ps_user := Some (length (ps_buf st))\<rparr>) =
      Some (False, (False, emit u (st\<lparr>ps_user := Some (length (ps_buf st))\<rparr>)), ?fin)"
    using userinfo_run [of u mem A B ?fin env flags False] None ok mem
    by (simp add: userinfo_ok_def userinfo_str_def)
  with None show ?thesis by (simp add: parse_userinfo_def userinfo_str_def set_userinfo_def)
next
  case (Some q)
  let ?fin = "length (A @ u @ CHR '':'' # q)"
  let ?step = "userinfo_step env flags mem ?fin"
  define st0 where "st0 = st\<lparr>ps_user := Some (length (ps_buf st))\<rparr>"
  define st1 where "st1 = (emit (u @ [NUL]) st0)\<lparr>ps_pass := Some (length (ps_buf st) + length u + 1)\<rparr>"
  from ok Some have u: "u \<noteq> []" "\<forall>c\<in>set u. user_char c" and q: "q \<noteq> []" "\<forall>c\<in>set q. user_char c"
    by (simp_all add: userinfo_ok_def)
  have mem': "mem = A @ u @ CHR '':'' # q @ B" "mem = (A @ u @ '':'') @ q @ B"
    using mem Some by (simp_all add: userinfo_str_def)
  have "scan ?step ?fin (length A) (False, st0) = scan ?step ?fin (length (A @ u)) (False, emit u st0)"
    using userinfo_run [OF u(1) mem'(1) _ u(2), of ?fin env flags False st0] by simp
  also have "\<dots> = scan ?step ?fin (length (A @ u @ '':'')) (True, st1)"
  proof -
    have "rd mem (length (A @ u)) = CHR '':''" using mem'(1) rd_mid [of "A @ u" "CHR '':''"] by simp
    then have "?step (length (A @ u)) (False, emit u st0) = SNext (True, st1) 0"
      by (simp add: userinfo_step_def st1_def st0_def)
    moreover have "Suc (length (A @ u) + 0) < ?fin" using q by (cases q) simp_all
    ultimately have "scan ?step ?fin (length (A @ u)) (False, emit u st0) =
        scan ?step ?fin (Suc (length (A @ u) + 0)) (True, st1)" by (rule scan_next(1))
    then show ?thesis by simp
  qed
  also have "\<dots> = Some (False, (True, emit q st1), ?fin)"
    using userinfo_run [OF q(1) mem'(2) _ q(2), of ?fin env flags True st1] by simp
  finally show ?thesis
    using Some by (simp add: parse_userinfo_def userinfo_str_def set_userinfo_def st0_def st1_def emit_def)
qed

text \<open>Host and port.\<close>

definition port_str :: "16 word \<Rightarrow> bytes" where
  "port_str port = (if port = 0 then [] else CHR '':'' # dec (unat port))"

definition hostport_str :: "bytes \<Rightarrow> 16 word \<Rightarrow> bytes" where
  "hostport_str h port = h @ port_str port"

lemma host_okD:
  "host_ok l (x # X) \<Longrightarrow> host_ok (x \<noteq> CHR ''.'') X \<and> (x = CHR ''.'' \<or> x = CHR ''-'' \<longrightarrow> l)"
  by (auto split: if_splits)

lemma hostinfo_step_char:
  assumes "rd mem i = x" "user_char x" "x = CHR ''.'' \<or> x = CHR ''-'' \<longrightarrow> l"
  shows "hostinfo_step env flags mem fin i (False, l, st) = SNext (False, x \<noteq> CHR ''.'', emit [x] st) 0"
proof -
  have "x \<in> set ''-_~'' \<or> sub_delim x \<or> isalpha x \<or> isdigit x" if "x \<noteq> CHR ''.''"
    using assms(2) that by (auto simp: user_char_def unreserved_mark_def isalnum_def)
  with assms(3) user_char_not(1,2) [OF assms(2)] show ?thesis
    by (cases "x = CHR ''.''"; cases "x = CHR ''-''") (auto simp: hostinfo_step_def Let_def assms(1))
qed

lemma hostinfo_run:
  assumes "X \<noteq> []" "mem = A @ X @ B" "length (A @ X) \<le> fin" "host_ok l X"
  shows "\<exists>l'. scan (hostinfo_step env flags mem fin) fin (length A) (False, l, st) =
           (if length (A @ X) < fin then scan (hostinfo_step env flags mem fin) fin (length (A @ X)) (False, l', emit X st)
            else Some (False, (False, l', emit X st), length (A @ X)))"
  using assms
proof (induction X arbitrary: A l st)
  case Nil
  then show ?case by simp
next
  case (Cons x X)
  have rdx: "rd mem (length A) = x" using Cons.prems(2) by (simp add: rd_mid)
  define l' where "l' = (x \<noteq> CHR ''.'')"
  have l': "hostinfo_step env flags mem fin (length A) (False, l, st) = SNext (False, l', emit [x] st) 0"
    unfolding l'_def using hostinfo_step_char [OF rdx host_ok_chars [OF Cons.prems(4)]] host_okD [OF Cons.prems(4)]
    by simp
  have ok': "host_ok l' X" unfolding l'_def using host_okD [OF Cons.prems(4)] by simp
  show ?case
  proof (cases "X = []")
    case True
    with l' Cons.prems(3) show ?thesis
      using scan_next [of "hostinfo_step env flags mem fin" "length A" "(False, l, st)" "(False, l', emit [x] st)" 0 fin]
      by (cases "Suc (length A) < fin") auto
  next
    case False
    have "Suc (length A) < fin" using Cons.prems(3) False by (cases X) auto
    with l' have "scan (hostinfo_step env flags mem fin) fin (length A) (False, l, st) =
        scan (hostinfo_step env flags mem fin) fin (length (A @ [x])) (False, l', emit [x] st)"
      using scan_next(1) [of "hostinfo_step env flags mem fin" "length A" "(False, l, st)" "(False, l', emit [x] st)" 0 fin]
      by simp
    moreover note Cons.IH [of "A @ [x]" l' "emit [x] st"]
    ultimately show ?thesis using False Cons.prems ok' by auto
  qed
qed

lemma port_run:
  assumes "X \<noteq> []" "mem = A @ X @ B" "\<forall>c\<in>set X. isdigit c"
  shows "scan (hostinfo_step env flags mem (length (A @ X))) (length (A @ X)) (length A) (True, l, st) =
           Some (False, (True, l, st\<lparr>ps_port := fold (\<lambda>c p. p * 10 + of_nat (uchar c - 48)) X (ps_port st)\<rparr>), length (A @ X))"
proof -
  let ?f = "\<lambda>c (b :: bool, l :: bool, st). (b, l, st\<lparr>ps_port := ps_port st * 10 + of_nat (uchar c - 48)\<rparr>)"
  have f: "fold ?f X (True, l, st) = (True, l, st\<lparr>ps_port := fold (\<lambda>c p. p * 10 + of_nat (uchar c - 48)) X (ps_port st)\<rparr>)" for X
    by (induction X arbitrary: st) simp_all
  have "scan (hostinfo_step env flags mem (length (A @ X))) (length (A @ X)) (length A) (True, l, st) =
      (if length (A @ X) < length (A @ X) then
         scan (hostinfo_step env flags mem (length (A @ X))) (length (A @ X)) (length (A @ X)) (fold ?f X (True, l, st))
       else Some (False, fold ?f X (True, l, st), length (A @ X)))"
  proof (rule scan_run [OF assms(1,2) order_refl, where I = fst])
    fix i :: nat and s :: "bool \<times> bool \<times> parse_state"
    assume i: "length A \<le> i" "i < length (A @ X)" and s: "fst s"
    from nth_run [OF assms(2) i] assms(3) have c: "rd mem i = mem ! i" "isdigit (mem ! i)" by auto
    then have "\<not> isalpha (mem ! i)" "\<not> sub_delim (mem ! i)" "mem ! i \<notin> set ''-_~.:%''"
      by (auto simp: ctype_simps sub_delim_def)
    with c s show "hostinfo_step env flags mem (length (A @ X)) i s = SNext (?f (mem ! i) s) 0 \<and> fst (?f (mem ! i) s)"
      by (auto simp: hostinfo_step_def Let_def split: prod.splits)
  qed simp
  then show ?thesis by (simp add: f)
qed

lemma fold_digits_word:
  assumes "\<forall>c\<in>set ds. isdigit c"
  shows "fold (\<lambda>c p. p * 10 + of_nat (uchar c - 48)) ds (of_nat v :: 16 word) =
     of_nat (foldl (\<lambda>a c. a * 10 + the (digit_val c)) v ds)"
  using assms
proof (induction ds arbitrary: v)
  case Nil
  then show ?case by simp
next
  case (Cons c ds)
  then have "the (digit_val c) = uchar c - 48" by (simp add: digit_val_def)
  then have "(of_nat v :: 16 word) * 10 + of_nat (uchar c - 48) = of_nat (v * 10 + the (digit_val c))" by simp
  moreover have "\<forall>c\<in>set ds. isdigit c" using Cons.prems by simp
  ultimately show ?case using Cons.IH by (simp only: fold_simps foldl_Cons)
qed

lemma fold_port_dec: "fold (\<lambda>c p. p * 10 + of_nat (uchar c - 48)) (dec n) (0 :: 16 word) = of_nat n"
  using fold_digits_word [OF dec_isdigit, of n 0] digits_val_print_num [of 10 n] by (simp add: digits_val_def)

text \<open>The conversion the flags select for the host leaves it alone (as it does for ASCII host names).\<close>

definition idn_conv :: "url_env \<Rightarrow> 32 word \<Rightarrow> bytes \<Rightarrow> bytes option" where
  "idn_conv env flags host =
     (let v2008 = flags AND PHP_HTTP_URL_PARSE_TOIDN_2008 = PHP_HTTP_URL_PARSE_TOIDN_2008 \<or>
                  flags AND PHP_HTTP_URL_PARSE_TOIDN_2003 \<noteq> PHP_HTTP_URL_PARSE_TOIDN_2003
      in if isflag flags PHP_HTTP_URL_PARSE_MBUTF8
         then (if v2008 then ue_idn2_lookup_u8 env host else ue_idna_to_ascii_8z env host)
         else if isflag flags PHP_HTTP_URL_PARSE_MBLOC
         then (if v2008 then ue_idn2_lookup_ul env host else ue_idna_to_ascii_lz env host)
         else None)"

definition idn_keeps :: "url_env \<Rightarrow> 32 word \<Rightarrow> bytes \<Rightarrow> bool" where
  "idn_keeps env flags host \<longleftrightarrow> (isflag flags PHP_HTTP_URL_PARSE_TOIDN \<longrightarrow> idn_conv env flags host = Some host)"

lemma replace_host_same:
  assumes "ps_buf st = B @ h @ [NUL]" "ps_host st = Some (length B)"
  shows "replace_host h (length h) st = st"
  using assms by (simp add: replace_host_def nat_add_distrib)

lemma parse_idna_keeps:
  assumes "ps_buf st = B @ h @ [NUL]" "ps_host st = Some (length B)" "NUL \<notin> set h" "idn_conv env flags h = Some h"
  shows "parse_idna env flags (length h) st = Some st"
proof -
  have "ps_string st (ps_host st) = Some h" using assms(1-3) by (simp add: ps_string_def)
  with assms(4) replace_host_same [OF assms(1,2)] show ?thesis
    by (auto simp: parse_idna_def parse_gidn_def idn_conv_def Let_def split: if_splits)
qed

definition set_hostport :: "bytes \<Rightarrow> 16 word \<Rightarrow> parse_state \<Rightarrow> parse_state" where
  "set_hostport h port st = emit (h @ [NUL]) (st\<lparr>ps_host := Some (length (ps_buf st)), ps_port := port\<rparr>)"

lemma parse_hostinfo_plain:
  assumes mem: "mem = A @ hostport_str h port @ B" and h: "h \<noteq> []" "host_ok False h"
    and st: "ps_host st = None" "ps_port st = 0" and idn: "idn_keeps env flags h"
  shows "parse_hostinfo env flags mem (length (A @ hostport_str h port)) (length A) st = Some (set_hostport h port st)"
proof -
  let ?fin = "length (A @ hostport_str h port)" and ?D = "dec (unat port)"
  let ?step = "hostinfo_step env flags mem ?fin"
  have mem': "mem = A @ h @ port_str port @ B" using mem by (simp add: hostport_str_def)
  obtain c h' where c: "h = c # h'" using h(1) by (cases h) auto
  then have "user_char c" using host_ok_chars [OF h(2)] by simp
  then have rd0: "rd mem (length A) \<noteq> CHR ''[''" using mem' c user_char_not(9) by (simp add: rd_mid)
  obtain l' where run: "scan ?step ?fin (length A) (False, False, st) =
      (if length (A @ h) < ?fin then scan ?step ?fin (length (A @ h)) (False, l', emit h st)
       else Some (False, (False, l', emit h st), length (A @ h)))"
    using hostinfo_run [OF h(1) mem' _ h(2), of ?fin env flags st] by (auto simp: hostport_str_def)
  have "\<exists>x y p. scan ?step ?fin (length A) (False, False, st) = Some (False, (x, y, (emit h st)\<lparr>ps_port := port\<rparr>), p)"
  proof (cases "port = 0")
    case True
    with run st show ?thesis by (auto simp: hostport_str_def port_str_def emit_def)
  next
    case False
    have fin: "?fin = length ((A @ h @ '':'') @ ?D)" using False by (simp add: hostport_str_def port_str_def)
    have mem2: "mem = (A @ h @ '':'') @ ?D @ B" "mem = (A @ h) @ CHR '':'' # ?D @ B"
      using mem' False by (simp_all add: port_str_def)
    have "rd mem (length (A @ h)) = CHR '':''" unfolding mem2(2) by (rule rd_mid)
    then have "?step (length (A @ h)) (False, l', emit h st) = SNext (True, l', emit h st) 0"
      by (simp add: hostinfo_step_def)
    moreover have "Suc (length (A @ h) + 0) < ?fin" using fin print_num_nonempty [of 10 "unat port"]
      by (cases ?D) auto
    ultimately have "scan ?step ?fin (length (A @ h)) (False, l', emit h st) =
        scan ?step ?fin (Suc (length (A @ h) + 0)) (True, l', emit h st)" by (rule scan_next(1))
    also have "\<dots> = Some (False, (True, l', (emit h st)\<lparr>ps_port := port\<rparr>), ?fin)"
      using port_run [OF print_num_nonempty mem2(1) dec_isdigit, of env flags l' "emit h st"] st(2) fin
      by (simp add: fold_port_dec)
    finally show ?thesis using run False by (auto simp: hostport_str_def port_str_def)
  qed
  then obtain x y p where "scan ?step ?fin (length A) (False, False, st) = Some (False, (x, y, (emit h st)\<lparr>ps_port := port\<rparr>), p)"
    by blast
  moreover have "length A \<noteq> ?fin" using h(1) by (simp add: hostport_str_def)
  moreover have "isflag flags PHP_HTTP_URL_PARSE_TOIDN \<Longrightarrow>
      parse_idna env flags (length h) (set_hostport h port st) = Some (set_hostport h port st)"
    using idn host_ok_chars [OF h(2)] user_char_not(7)
    by (intro parse_idna_keeps) (auto simp: set_hostport_def idn_keeps_def)
  moreover have "emit [NUL] (((emit h st)\<lparr>ps_port := port\<rparr>)\<lparr>ps_host := Some (length (ps_buf st))\<rparr>) = set_hostport h port st"
    by (simp add: set_hostport_def emit_def)
  ultimately show ?thesis
    using rd0 st(1) by (simp add: parse_hostinfo_def Let_def)
qed

text \<open>The authority.\<close>

definition auth_char :: "char \<Rightarrow> bool" where "auth_char c \<longleftrightarrow> user_char c \<or> c = CHR '':''"

lemma auth_char_digit: "isdigit c \<Longrightarrow> auth_char c"
  by (simp add: auth_char_def user_char_def isalnum_def)

lemma userinfo_str_chars: "userinfo_ok u p \<Longrightarrow> \<forall>c\<in>set (userinfo_str u p). auth_char c"
  by (auto simp: userinfo_ok_def userinfo_str_def auth_char_def split: option.splits)

lemma hostport_str_chars: "host_ok False h \<Longrightarrow> \<forall>c\<in>set (hostport_str h port). auth_char c"
  using host_ok_chars [of False h] dec_isdigit [of "unat port"]
  by (auto simp: hostport_str_def port_str_def auth_char_def user_char_def isalnum_def)

lemma authority_run:
  assumes "X \<noteq> []" "mem = A @ X @ B" "length (A @ X) \<le> fin" "\<forall>c\<in>set X. auth_char c"
  shows "scan (authority_step env flags mem) (Suc fin) (length A) s =
           scan (authority_step env flags mem) (Suc fin) (length (A @ X)) s"
proof -
  have "fold (\<lambda>_ s. s) X s = s" by (induction X) simp_all
  moreover have "scan (authority_step env flags mem) (Suc fin) (length A) s =
      (if length (A @ X) < Suc fin then scan (authority_step env flags mem) (Suc fin) (length (A @ X)) (fold (\<lambda>_ s. s) X s)
       else Some (False, fold (\<lambda>_ s. s) X s, length (A @ X)))"
  proof (rule scan_run [OF assms(1,2), where I = "\<lambda>_. True"])
    fix i :: nat and s :: "nat \<times> bool \<times> parse_state"
    assume i: "length A \<le> i" "i < length (A @ X)"
    from nth_run [OF assms(2) i] assms(4) have "rd mem i = mem ! i" "auth_char (mem ! i)" by auto
    with user_char_not [of "mem ! i"]
    show "authority_step env flags mem i s = SNext s 0 \<and> True"
      by (auto simp: authority_step_def auth_char_def split: prod.splits)
  qed (use assms(3) in simp_all)
  ultimately show ?thesis using assms(3) by simp
qed

definition auth_str :: "bytes option \<Rightarrow> bytes option \<Rightarrow> bytes \<Rightarrow> 16 word \<Rightarrow> bytes" where
  "auth_str u p h port = (case u of None \<Rightarrow> [] | Some u \<Rightarrow> userinfo_str u p @ ''@'') @ hostport_str h port"

definition auth_ok :: "bytes option \<Rightarrow> bytes option \<Rightarrow> bytes \<Rightarrow> bool" where
  "auth_ok u p h \<longleftrightarrow> (case u of None \<Rightarrow> p = None | Some u \<Rightarrow> userinfo_ok u p) \<and> h \<noteq> [] \<and> host_ok False h"

definition set_auth :: "bytes option \<Rightarrow> bytes option \<Rightarrow> bytes \<Rightarrow> 16 word \<Rightarrow> parse_state \<Rightarrow> parse_state" where
  "set_auth u p h port st = set_hostport h port (case u of None \<Rightarrow> st | Some u \<Rightarrow> set_userinfo u p st)"

lemma set_userinfo_sel [simp]:
  "ps_host (set_userinfo u p st) = ps_host st" "ps_port (set_userinfo u p st) = ps_port st"
  by (simp_all add: set_userinfo_def split: option.splits)

lemma parse_authority_plain:
  assumes mem: "mem = A @ auth_str u p h port @ B" and ok: "auth_ok u p h"
    and st: "ps_host st = None" "ps_port st = 0" and idn: "idn_keeps env flags h"
    and fin: "length (A @ auth_str u p h port) \<le> fin"
    and B: "rd B 0 = CHR ''/'' \<or> fin = length (A @ auth_str u p h port) \<and> rd B 0 \<noteq> CHR ''@''"
  shows "parse_authority env flags mem fin (length A) st =
           Some (length (A @ auth_str u p h port), set_auth u p h port st)"
proof -
  let ?step = "authority_step env flags mem" and ?P = "A @ (case u of None \<Rightarrow> [] | Some u \<Rightarrow> userinfo_str u p @ ''@'')"
  let ?hp = "hostport_str h port"
  define st1 where "st1 = (case u of None \<Rightarrow> st | Some u \<Rightarrow> set_userinfo u p st)"
  have h: "h \<noteq> []" "host_ok False h" "?hp \<noteq> []" using ok by (auto simp: auth_ok_def hostport_str_def)
  have mem': "mem = ?P @ ?hp @ B" using mem by (simp add: auth_str_def)
  have "\<exists>b. scan ?step (Suc fin) (length A) (length A, False, st) = scan ?step (Suc fin) (length ?P) (length ?P, b, st1)"
  proof (cases u)
    case None
    then show ?thesis by (auto simp: st1_def)
  next
    case (Some v)
    then have v: "userinfo_ok v p" using ok by (simp add: auth_ok_def)
    let ?ui = "userinfo_str v p"
    have m: "mem = A @ ?ui @ CHR ''@'' # ?hp @ B" using mem' Some by simp
    have ne: "?ui \<noteq> []" using v by (auto simp: userinfo_ok_def userinfo_str_def)
    have "scan ?step (Suc fin) (length A) (length A, False, st) = scan ?step (Suc fin) (length (A @ ?ui)) (length A, False, st)"
      using authority_run [OF ne m _ userinfo_str_chars [OF v]] fin Some by (simp add: auth_str_def)
    also have "\<dots> = scan ?step (Suc fin) (Suc (length (A @ ?ui) + 0)) (Suc (length (A @ ?ui)), True, set_userinfo v p st)"
    proof (rule scan_next(1))
      have "rd mem (length (A @ ?ui)) = CHR ''@''" using m rd_mid [of "A @ ?ui" "CHR ''@''"] by simp
      moreover have "parse_userinfo env flags mem (length (A @ ?ui)) (length A) st = Some (set_userinfo v p st)"
        using m v by (intro parse_userinfo_plain) simp_all
      moreover have "length A \<noteq> length (A @ ?ui)" using ne by simp
      ultimately show "?step (length (A @ ?ui)) (length A, False, st) =
          SNext (Suc (length (A @ ?ui)), True, set_userinfo v p st) 0"
        by (simp add: authority_step_def)
      show "Suc (length (A @ ?ui) + 0) < Suc fin" using fin Some by (simp add: auth_str_def)
    qed
    finally show ?thesis using Some by (auto simp: st1_def)
  qed
  then obtain b where "scan ?step (Suc fin) (length A) (length A, False, st) = scan ?step (Suc fin) (length ?P) (length ?P, b, st1)"
    by blast
  also have "\<dots> = scan ?step (Suc fin) (length (?P @ ?hp)) (length ?P, b, st1)"
    using fin by (intro authority_run [OF h(3) mem' _ hostport_str_chars [OF h(2)]]) (simp add: auth_str_def)
  finally have run: "scan ?step (Suc fin) (length A) (length A, False, st) =
      scan ?step (Suc fin) (length (?P @ ?hp)) (length ?P, b, st1)" .
  have rdB: "rd mem (length (?P @ ?hp)) = rd B 0" using mem' rd_append [of "?P @ ?hp" B 0] by simp
  consider "?step (length (?P @ ?hp)) (length ?P, b, st1) = SStop"
    | "?step (length (?P @ ?hp)) (length ?P, b, st1) = SNext (length ?P, b, st1) 0" "fin = length (?P @ ?hp)"
    using B unfolding authority_step_def Let_def rdB
    by (cases "rd B 0 \<in> {CHR ''/'', CHR ''?'', CHR ''#'', NUL}") (auto simp: auth_str_def)
  then have "\<exists>s q. scan ?step (Suc fin) (length A) (length A, False, st) = Some (s, (length ?P, b, st1), q) \<and>
      (if s then q else q - 1) = length (?P @ ?hp)"
  proof cases
    case 1
    then have "scan ?step (Suc fin) (length (?P @ ?hp)) (length ?P, b, st1) = Some (True, (length ?P, b, st1), length (?P @ ?hp))"
      by (rule scan_stop)
    then show ?thesis unfolding run by auto
  next
    case 2
    have "scan ?step (Suc fin) (length (?P @ ?hp)) (length ?P, b, st1) =
        Some (False, (length ?P, b, st1), Suc (length (?P @ ?hp) + 0))"
      using 2 by (intro scan_next(2)) simp_all
    then show ?thesis unfolding run by auto
  qed
  then have "parse_authority env flags mem fin (length A) st =
      map_option (\<lambda>st. (length (?P @ ?hp), st)) (parse_hostinfo env flags mem (length (?P @ ?hp)) (length ?P) st1)"
    using h(3) by (auto simp: parse_authority_def Let_def)
  also have "parse_hostinfo env flags mem (length (?P @ ?hp)) (length ?P) st1 = Some (set_hostport h port st1)"
    using mem' h st idn by (intro parse_hostinfo_plain) (auto simp: st1_def split: option.splits)
  finally show ?thesis by (simp add: auth_str_def set_auth_def st1_def)
qed

text \<open>Path, query and fragment.\<close>

lemma scan_emit_run:
  assumes "X \<noteq> []" "mem = A @ X @ B" "length (A @ X) \<le> fin"
    "\<And>i s. length A \<le> i \<Longrightarrow> i < length (A @ X) \<Longrightarrow> step i s = SNext (emit [mem ! i] s) 0"
  shows "scan step fin (length A) st =
           (if length (A @ X) < fin then scan step fin (length (A @ X)) (emit X st)
            else Some (False, emit X st, length (A @ X)))"
  using scan_run [OF assms(1-3), where I = "\<lambda>_. True" and f = "\<lambda>c. emit [c]" and s = st and step = step] assms(4)
  by (simp only: fold_emit simp_thms)

lemma path_run:
  assumes "X \<noteq> []" "mem = A @ X @ B" "length (A @ X) \<le> fin" "\<forall>c\<in>set X. path_char c"
  shows "scan (path_step env flags mem fin) fin (length A) st =
           (if length (A @ X) < fin then scan (path_step env flags mem fin) fin (length (A @ X)) (emit X st)
            else Some (False, emit X st, length (A @ X)))"
proof (rule scan_emit_run [OF assms(1-3)])
  fix i s
  assume i: "length A \<le> i" "i < length (A @ X)"
  from nth_run [OF assms(2) i] assms(4) have "rd mem i = mem ! i" "path_char (mem ! i)" by auto
  with user_char_not [of "mem ! i"] show "path_step env flags mem fin i s = SNext (emit [mem ! i] s) 0"
    by (auto simp: path_step_def path_char_def user_char_def Let_def)
qed

definition set_path :: "bytes \<Rightarrow> parse_state \<Rightarrow> parse_state" where
  "set_path p st = emit (p @ [NUL]) (st\<lparr>ps_path := Some (length (ps_buf st))\<rparr>)"

lemma parse_path_plain:
  assumes mem: "mem = A @ X @ B" and X: "X \<noteq> []" "\<forall>c\<in>set X. path_char c"
    and fin: "length (A @ X) \<le> fin" and B: "length (A @ X) < fin \<longrightarrow> rd B 0 = CHR ''?'' \<or> rd B 0 = CHR ''#''"
  shows "parse_path env flags mem fin (length A) st = Some (length (A @ X), set_path X st)"
proof -
  let ?st = "st\<lparr>ps_path := Some (length (ps_buf st))\<rparr>" and ?step = "path_step env flags mem fin"
  have "rd mem (length (A @ X)) = rd B 0" using mem rd_append [of "A @ X" B 0] by simp
  with B have "length (A @ X) < fin \<longrightarrow> ?step (length (A @ X)) (emit X ?st) = SStop" by (auto simp: path_step_def)
  then obtain b where "scan ?step fin (length A) ?st = Some (b, emit X ?st, length (A @ X))"
    using path_run [OF X(1) mem fin X(2), of env flags ?st] by (auto simp: scan_stop split: if_splits)
  moreover obtain c X' where c: "X = c # X'" using X(1) by (cases X) auto
  moreover have "rd mem (length A) \<noteq> NUL"
    using c X(2) mem user_char_not(7) [of c] by (auto simp: rd_mid path_char_def)
  ultimately show ?thesis using X(1) by (simp add: parse_path_def set_path_def)
qed

lemma query_char_plain:
  assumes "rd mem i = c" "query_char_ok c"
  shows "query_char env flags what mem fin i st = SNext (emit [c] st) 0"
proof -
  have "\<not> unsafe_char c \<and> c \<noteq> CHR ''%''" if "c \<in> set ''?/:@''" using that by (auto simp: unsafe_char_def)
  then have "c \<noteq> CHR ''%''" "\<not> unsafe_char c"
    using assms(2) user_char_not(2,8) [of c] unfolding query_char_ok_def by blast+
  moreover have "c \<in> set ''?/:@'' \<or> sub_delim c \<or> unreserved_mark c \<or> isalnum c"
    using assms(2) unfolding query_char_ok_def user_char_def by blast
  ultimately show ?thesis unfolding query_char_def assms(1) Let_def by (simp only: if_True if_False simp_thms)
qed

lemma query_char_not_hash: "query_char_ok c \<Longrightarrow> c \<noteq> CHR ''#'' \<and> c \<noteq> NUL"
  using user_char_not [of c] by (auto simp: query_char_ok_def)

lemma query_run:
  assumes "X \<noteq> []" "mem = A @ X @ B" "length (A @ X) \<le> fin" "\<forall>c\<in>set X. query_char_ok c"
    "step = query_step env flags mem fin \<or> step = fragment_step env flags mem fin"
  shows "scan step fin (length A) st =
           (if length (A @ X) < fin then scan step fin (length (A @ X)) (emit X st)
            else Some (False, emit X st, length (A @ X)))"
proof (rule scan_emit_run [OF assms(1-3)])
  fix i s
  assume i: "length A \<le> i" "i < length (A @ X)"
  from nth_run [OF assms(2) i] assms(4) have c: "rd mem i = mem ! i" "query_char_ok (mem ! i)" by auto
  from assms(5) show "step i s = SNext (emit [mem ! i] s) 0"
    using query_char_not_hash [OF c(2)]
    by (elim disjE) (simp_all add: query_step_def fragment_step_def query_char_plain [OF c] c(1))
qed

definition opt_str :: "char \<Rightarrow> bytes option \<Rightarrow> bytes" where
  "opt_str c q = (case q of None \<Rightarrow> [] | Some s \<Rightarrow> c # s)"

definition opt_ok :: "bytes option \<Rightarrow> bool" where
  "opt_ok q \<longleftrightarrow> (case q of None \<Rightarrow> True | Some s \<Rightarrow> s \<noteq> [] \<and> (\<forall>c\<in>set s. query_char_ok c))"

definition set_query :: "bytes option \<Rightarrow> parse_state \<Rightarrow> parse_state" where
  "set_query q st = (case q of None \<Rightarrow> st | Some s \<Rightarrow> emit (s @ [NUL]) (st\<lparr>ps_query := Some (length (ps_buf st))\<rparr>))"

definition set_fragment :: "bytes option \<Rightarrow> parse_state \<Rightarrow> parse_state" where
  "set_fragment q st = (case q of None \<Rightarrow> st | Some s \<Rightarrow> emit (s @ [NUL]) (st\<lparr>ps_fragment := Some (length (ps_buf st))\<rparr>))"

lemma parse_query_plain:
  assumes mem: "mem = A @ opt_str (CHR ''?'') q @ B" and q: "opt_ok q"
    and fin: "length (A @ opt_str (CHR ''?'') q) \<le> fin"
    and B: "rd B 0 \<noteq> CHR ''?''" "length (A @ opt_str (CHR ''?'') q) < fin \<longrightarrow> rd B 0 = CHR ''#''"
  shows "parse_query env flags mem fin (length A) st = Some (length (A @ opt_str (CHR ''?'') q), set_query q st)"
proof (cases q)
  case None
  have "rd mem (length A) \<noteq> CHR ''?''"
    using mem None B rd_append [of A B 0] by (simp add: opt_str_def)
  with None show ?thesis by (simp add: parse_query_def opt_str_def set_query_def)
next
  case (Some s)
  let ?A = "A @ ''?''" and ?st = "st\<lparr>ps_query := Some (length (ps_buf st))\<rparr>"
  let ?step = "query_step env flags mem fin"
  have s: "s \<noteq> []" "\<forall>c\<in>set s. query_char_ok c" using q Some by (simp_all add: opt_ok_def)
  have m: "mem = ?A @ s @ B" using mem Some by (simp add: opt_str_def)
  have fin': "length (?A @ s) \<le> fin" using fin Some by (simp add: opt_str_def)
  have "rd mem (length (?A @ s)) = rd B 0" using m rd_append [of "?A @ s" B 0] by simp
  with B Some have "length (?A @ s) < fin \<longrightarrow> ?step (length (?A @ s)) (emit s ?st) = SStop"
    by (auto simp: query_step_def opt_str_def)
  then have "\<exists>b. scan ?step fin (length ?A) ?st = Some (b, emit s ?st, length (?A @ s))"
    using query_run [OF s(1) m fin' s(2), of ?step env flags ?st] by (auto simp: scan_stop)
  moreover have "rd mem (length A) = CHR ''?''" using m rd_mid [of A "CHR ''?''"] by simp
  moreover have "Suc (length A) < fin" using fin' s(1) by (cases s) auto
  ultimately show ?thesis using Some by (auto simp: parse_query_def opt_str_def set_query_def)
qed

lemma parse_fragment_plain:
  assumes mem: "mem = A @ opt_str (CHR ''#'') q @ B" and q: "opt_ok q" and B: "rd B 0 \<noteq> CHR ''#''"
    and fin: "fin = length (A @ opt_str (CHR ''#'') q)"
  shows "\<exists>p. parse_fragment env flags mem fin (length A) st = Some (p, set_fragment q st)"
proof (cases q)
  case None
  then have "rd mem (length A) \<noteq> CHR ''#''" using mem B rd_append [of A B 0] by (simp add: opt_str_def)
  with None show ?thesis by (simp add: parse_fragment_def opt_str_def set_fragment_def)
next
  case (Some s)
  let ?A = "A @ ''#''" and ?st = "st\<lparr>ps_fragment := Some (length (ps_buf st))\<rparr>"
  have s: "s \<noteq> []" "\<forall>c\<in>set s. query_char_ok c" using q Some by (simp_all add: opt_ok_def)
  have m: "mem = ?A @ s @ B" using mem Some by (simp add: opt_str_def)
  have "scan (fragment_step env flags mem fin) fin (length ?A) ?st = Some (False, emit s ?st, length (?A @ s))"
    using query_run [OF s(1) m _ s(2), of fin "fragment_step env flags mem fin" env flags ?st] fin Some
    by (simp add: opt_str_def)
  moreover have "rd mem (length A) = CHR ''#''" using m rd_mid [of A "CHR ''#''"] by simp
  ultimately show ?thesis using Some by (simp add: parse_fragment_def set_fragment_def)
qed

section \<open>Parsing inverts printing\<close>

text \<open>
  The buffer the parser fills holds the terminated strings of the components one behind the other.
\<close>

lemma cstr_append_terminated: "NUL \<in> set x \<Longrightarrow> cstr (x @ y) = cstr x"
  by (simp add: cstr_def takeWhile_append1)

definition ptr_ok :: "parse_state \<Rightarrow> nat option \<Rightarrow> bool" where
  "ptr_ok st p \<longleftrightarrow> (case p of None \<Rightarrow> True | Some off \<Rightarrow> off \<le> length (ps_buf st) \<and> NUL \<in> set (drop off (ps_buf st)))"

definition pieces_ok :: "parse_state \<Rightarrow> bool" where
  "pieces_ok st \<longleftrightarrow> ptr_ok st (ps_scheme st) \<and> ptr_ok st (ps_user st) \<and> ptr_ok st (ps_pass st) \<and>
     ptr_ok st (ps_host st) \<and> ptr_ok st (ps_path st) \<and> ptr_ok st (ps_query st) \<and> ptr_ok st (ps_fragment st)"

lemma ptr_ok_None [simp]: "ptr_ok st None" "ps_string st None = None"
  by (simp_all add: ptr_ok_def ps_string_def)

lemma ptr_emit:
  assumes "ptr_ok st p" "ps_buf st' = ps_buf st"
  shows "ptr_ok (emit x st') p" "ps_string (emit x st') p = ps_string st p"
  using assms by (auto simp: ptr_ok_def ps_string_def cstr_append_terminated split: option.splits)

lemma ptr_new:
  assumes "ps_buf st' = buf" "NUL \<notin> set x"
  shows "ptr_ok (emit (x @ NUL # y) st') (Some (length buf))"
    "ps_string (emit (x @ NUL # y) st') (Some (length buf)) = Some x"
  using assms by (simp_all add: ptr_ok_def ps_string_def)

lemma ptr_second:
  assumes "ps_buf st' = buf" "NUL \<notin> set x"
  shows "ptr_ok (emit (u @ NUL # x @ [NUL]) st') (Some (Suc (length buf + length u)))"
    "ps_string (emit (u @ NUL # x @ [NUL]) st') (Some (Suc (length buf + length u))) = Some x"
  using assms by (simp_all add: ptr_ok_def ps_string_def)

lemma set_path_spec:
  assumes "pieces_ok st" "NUL \<notin> set x"
  shows "pieces_ok (set_path x st)" "ps_url (set_path x st) = (ps_url st)\<lparr>url_path := Some x\<rparr>"
  using assms by (simp_all add: set_path_def pieces_ok_def ps_url_def ptr_emit [of st] ptr_new)

lemma set_query_spec:
  assumes "pieces_ok st" "case x of None \<Rightarrow> ps_query st = None | Some x \<Rightarrow> NUL \<notin> set x"
  shows "pieces_ok (set_query x st)" "ps_url (set_query x st) = (ps_url st)\<lparr>url_query := x\<rparr>"
  using assms by (cases x; simp add: set_query_def pieces_ok_def ps_url_def ptr_emit [of st] ptr_new)+

lemma set_fragment_spec:
  assumes "pieces_ok st" "case x of None \<Rightarrow> ps_fragment st = None | Some x \<Rightarrow> NUL \<notin> set x"
  shows "ps_url (set_fragment x st) = (ps_url st)\<lparr>url_fragment := x\<rparr>"
  using assms by (cases x; simp add: set_fragment_def pieces_ok_def ps_url_def ptr_emit [of st] ptr_new)

lemma set_userinfo_spec:
  assumes "pieces_ok st" "NUL \<notin> set u" "case p of None \<Rightarrow> ps_pass st = None | Some x \<Rightarrow> NUL \<notin> set x"
  shows "pieces_ok (set_userinfo u p st)" "ps_url (set_userinfo u p st) = (ps_url st)\<lparr>url_user := Some u, url_pass := p\<rparr>"
  using assms by (cases p; simp add: set_userinfo_def pieces_ok_def ps_url_def ptr_emit [of st] ptr_new ptr_second)+

lemma set_hostport_spec:
  assumes "pieces_ok st" "NUL \<notin> set h"
  shows "pieces_ok (set_hostport h port st)"
    "ps_url (set_hostport h port st) = (ps_url st)\<lparr>url_host := Some h, url_port := port\<rparr>"
  using assms by (simp_all add: set_hostport_def pieces_ok_def ps_url_def ptr_emit [of st] ptr_new)


lemma set_auth_spec:
  assumes "pieces_ok st" "auth_ok u p h" "ps_user st = None" "ps_pass st = None"
  shows "pieces_ok (set_auth u p h port st)"
    "ps_url (set_auth u p h port st) = (ps_url st)\<lparr>url_user := u, url_pass := p, url_host := Some h, url_port := port\<rparr>"
proof -
  have h: "NUL \<notin> set h" using assms(2) host_ok_chars [of False h] user_char_not(7) by (auto simp: auth_ok_def)
  let ?st = "case u of None \<Rightarrow> st | Some u \<Rightarrow> set_userinfo u p st"
  have "pieces_ok ?st \<and> ps_url ?st = (ps_url st)\<lparr>url_user := u, url_pass := p\<rparr>"
  proof (cases u)
    case None
    with assms show ?thesis by (simp add: auth_ok_def ps_url_def)
  next
    case (Some v)
    with assms(2) have "NUL \<notin> set v" "case p of None \<Rightarrow> ps_pass st = None | Some x \<Rightarrow> NUL \<notin> set x"
      using assms(4) user_char_not(7) by (auto simp: auth_ok_def userinfo_ok_def split: option.splits)
    then show ?thesis using Some set_userinfo_spec [OF assms(1)] by simp
  qed
  with set_hostport_spec [OF _ h] show "pieces_ok (set_auth u p h port st)"
    "ps_url (set_auth u p h port st) = (ps_url st)\<lparr>url_user := u, url_pass := p, url_host := Some h, url_port := port\<rparr>"
    unfolding set_auth_def by simp_all
qed

lemma utf8towc_slash: "utf8towc (CHR ''/'' # r) (Suc n) = Some (47, 1)"
  by (simp add: utf8towc_def utf8_mblen_nth and_mask utf8_mask_def)

lemma set_tl_subset: "set (tl xs) \<subseteq> set xs"
  by (cases xs) auto

lemma set_butlast_tl_subset: "set (butlast (tl xs)) \<subseteq> set xs"
  using set_tl_subset [of xs] in_set_butlastD [of _ "tl xs"] by blast

lemma isualnum_slash: "\<not> isualnum 47"
proof -
  have "list_all (\<lambda>r. 47 < fst r) utf8_ranges" "list_all ((<) 47) utf8_chars" by code_simp+
  then have "\<forall>r\<in>set utf8_ranges. 47 < fst r" "\<forall>c\<in>set utf8_chars. 47 < c" by (simp_all only: list_all_iff)
  then have "\<forall>r\<in>set (butlast (tl utf8_ranges)). 47 < fst r" "\<forall>c\<in>set (tl utf8_chars). 47 < c"
    using set_tl_subset set_butlast_tl_subset by (metis subsetD)+
  then show ?thesis unfolding isualnum_def isualpha_lookup by fastforce
qed


lemma parse_scheme_slash:
  assumes "\<not> isflag flags PHP_HTTP_URL_IGNORE_ERRORS" "isflag flags PHP_HTTP_URL_PARSE_MBUTF8 \<or> \<not> isflag flags PHP_HTTP_URL_PARSE_MBLOC"
    "0 < fin"
  shows "parse_scheme env flags (CHR ''/'' # r) fin 0 ps_init = (0, ps_init)"
proof -
  obtain n where n: "fin = Suc n" using assms(3) by (cases fin) auto
  have "parse_mb env flags PARSE_SCHEME (CHR ''/'' # r) 0 fin = None"
    using assms(1,2) unfolding parse_mb_def parse_mb_utf8_def n by (auto simp: utf8towc_slash isualnum_slash)
  then have "scheme_step env flags (CHR ''/'' # r) fin 0 0 ps_init = SFail"
    by (simp add: scheme_step_def ctype_simps)
  then show ?thesis by (simp add: parse_scheme_def scan.simps ps_init_def)
qed

text \<open>Path, query and fragment together.\<close>

lemma parse_rest_plain:
  assumes mem: "mem = A @ p @ opt_str (CHR ''?'') q @ opt_str (CHR ''#'') f @ T"
    and fin: "fin = length (A @ p @ opt_str (CHR ''?'') q @ opt_str (CHR ''#'') f)"
    and p: "p \<noteq> []" "\<forall>c\<in>set p. path_char c" and ok: "opt_ok q" "opt_ok f" and T: "rd T 0 \<noteq> CHR ''?''" "rd T 0 \<noteq> CHR ''#''"
  shows "parse_path env flags mem fin (length A) st = Some (length (A @ p), set_path p st)"
    "parse_query env flags mem fin (length (A @ p)) (set_path p st) =
       Some (length (A @ p @ opt_str (CHR ''?'') q), set_query q (set_path p st))"
    "\<exists>e. parse_fragment env flags mem fin (length (A @ p @ opt_str (CHR ''?'') q)) (set_query q (set_path p st)) =
       Some (e, set_fragment f (set_query q (set_path p st)))"
proof -
  let ?Q = "opt_str (CHR ''?'') q" and ?F = "opt_str (CHR ''#'') f"
  have F: "rd (?F @ T) 0 \<noteq> CHR ''?''" "?F \<noteq> [] \<Longrightarrow> rd (?F @ T) 0 = CHR ''#''"
    using T(1) by (auto simp: opt_str_def split: option.splits)
  have Q: "?Q \<noteq> [] \<Longrightarrow> rd (?Q @ X) 0 = CHR ''?''" for X by (auto simp: opt_str_def split: option.splits)
  show "parse_path env flags mem fin (length A) st = Some (length (A @ p), set_path p st)"
    using mem fin p F(2) Q by (intro parse_path_plain) (cases "?Q = []"; auto)+
  show "parse_query env flags mem fin (length (A @ p)) (set_path p st) =
       Some (length (A @ p @ ?Q), set_query q (set_path p st))"
    using parse_query_plain [of mem "A @ p" q "?F @ T" fin env flags "set_path p st"] mem fin ok(1) F by auto
  show "\<exists>e. parse_fragment env flags mem fin (length (A @ p @ ?Q)) (set_query q (set_path p st)) =
       Some (e, set_fragment f (set_query q (set_path p st)))"
    using mem fin ok(2) T(2) by (intro parse_fragment_plain) simp_all
qed

text \<open>
  The URLs the round trip is stated for: every component is made of characters that need no escape,
  and there are either scheme, host and path, or only an absolute path (with query and fragment).
\<close>

definition absolute_url :: "php_http_url \<Rightarrow> bool" where
  "absolute_url u \<longleftrightarrow>
     (case (url_scheme u, url_host u) of
        (Some s, Some h) \<Rightarrow> s \<noteq> [] \<and> isalpha (hd s) \<and> (\<forall>c\<in>set s. scheme_char c) \<and> auth_ok (url_user u) (url_pass u) h
      | _ \<Rightarrow> False)"

definition origin_url :: "php_http_url \<Rightarrow> bool" where
  "origin_url u \<longleftrightarrow> url_scheme u = None \<and> url_user u = None \<and> url_pass u = None \<and> url_host u = None \<and> url_port u = 0 \<and>
     (case url_path u of Some p \<Rightarrow> rd p 1 \<noteq> CHR ''/'' | None \<Rightarrow> False)"

definition plain_url :: "php_http_url \<Rightarrow> bool" where
  "plain_url u \<longleftrightarrow> (absolute_url u \<or> origin_url u) \<and> opt_ok (url_query u) \<and> opt_ok (url_fragment u) \<and>
     (case url_path u of Some p \<Rightarrow> p \<noteq> [] \<and> hd p = CHR ''/'' \<and> (\<forall>c\<in>set p. path_char c) | None \<Rightarrow> False)"

text \<open>The flags and functions outside the sources: an absolute URL has a host that IDN conversion keeps; a
  relative one is not read with errors ignored, nor in the encoding of the locale.\<close>

definition url_flags_ok :: "url_env \<Rightarrow> 32 word \<Rightarrow> php_http_url \<Rightarrow> bool" where
  "url_flags_ok env flags u \<longleftrightarrow>
     (case url_host u of
        Some h \<Rightarrow> idn_keeps env flags h
      | None \<Rightarrow> \<not> isflag flags PHP_HTTP_URL_IGNORE_ERRORS \<and>
          (isflag flags PHP_HTTP_URL_PARSE_MBUTF8 \<or> \<not> isflag flags PHP_HTTP_URL_PARSE_MBLOC))"


lemma opt_str_isset: "opt_ok q \<Longrightarrow> opt_str c q = (if part_isset q then c # the q else [])"
  by (auto simp: opt_str_def opt_ok_def part_isset_def split: option.splits)

lemma to_string_absolute:
  assumes "absolute_url u" "url_path u = Some p" "p \<noteq> []" "hd p = CHR ''/''" "opt_ok (url_query u)" "opt_ok (url_fragment u)"
  obtains s h where "url_scheme u = Some s" "url_host u = Some h"
    "s \<noteq> []" "isalpha (hd s)" "\<forall>c\<in>set s. scheme_char c" "auth_ok (url_user u) (url_pass u) h"
    "php_http_url_to_string u = s @ ''://'' @ auth_str (url_user u) (url_pass u) h (url_port u) @ p @
       opt_str (CHR ''?'') (url_query u) @ opt_str (CHR ''#'') (url_fragment u)"
proof -
  from assms(1) obtain s h where f: "url_scheme u = Some s" "url_host u = Some h"
    and ok: "s \<noteq> []" "isalpha (hd s)" "\<forall>c\<in>set s. scheme_char c" "auth_ok (url_user u) (url_pass u) h"
    by (auto simp: absolute_url_def split: option.splits)
  have auth: "auth_str (url_user u) (url_pass u) h (url_port u) =
      (if part_isset (url_user u) then the (url_user u) @ (if part_isset (url_pass u) then CHR '':'' # the (url_pass u) else []) @ ''@'' else [])
      @ h @ (if url_port u \<noteq> 0 then CHR '':'' # dec (unat (url_port u)) else [])"
    using ok(4) by (auto simp: auth_str_def auth_ok_def part_isset_def userinfo_ok_def userinfo_str_def
        hostport_str_def port_str_def split: option.splits)
  have "part_isset (url_scheme u)" "part_isset (url_host u)" "part_isset (url_path u)"
    using f ok assms by (auto simp: part_isset_def auth_ok_def)
  then have "php_http_url_to_string u = s @ ''://'' @ auth_str (url_user u) (url_pass u) h (url_port u) @ p @
       opt_str (CHR ''?'') (url_query u) @ opt_str (CHR ''#'') (url_fragment u)"
    unfolding php_http_url_to_string_def auth opt_str_isset [OF assms(5)] opt_str_isset [OF assms(6)]
    using f assms(2,4) by simp
  with that f ok show thesis by blast
qed

lemma to_string_origin:
  assumes "origin_url u" "url_path u = Some p" "p \<noteq> []" "hd p = CHR ''/''" "opt_ok (url_query u)" "opt_ok (url_fragment u)"
  shows "php_http_url_to_string u = p @ opt_str (CHR ''?'') (url_query u) @ opt_str (CHR ''#'') (url_fragment u)"
  using assms unfolding php_http_url_to_string_def opt_str_isset [OF assms(5)] opt_str_isset [OF assms(6)]
  by (simp add: origin_url_def part_isset_def)

text \<open>The state the parser ends in.\<close>

definition plain_state :: "php_http_url \<Rightarrow> parse_state" where
  "plain_state u = set_fragment (url_fragment u) (set_query (url_query u) (set_path (the (url_path u))
     (if absolute_url u
      then set_auth (url_user u) (url_pass u) (the (url_host u)) (url_port u)
        (emit (the (url_scheme u) @ [NUL]) (ps_init\<lparr>ps_scheme := Some 0\<rparr>))
      else ps_init)))"

lemma set_sel [simp]:
  "ps_query (set_path p st) = ps_query st" "ps_query (set_auth u pw h port st) = ps_query st"
  "ps_fragment (set_path p st) = ps_fragment st" "ps_fragment (set_auth u pw h port st) = ps_fragment st"
  "ps_fragment (set_query q st) = ps_fragment st"
  by (simp_all add: set_path_def set_auth_def set_hostport_def set_userinfo_def set_query_def split: option.splits)

lemma plain_no_NUL:
  "\<forall>c\<in>set s. scheme_char c \<Longrightarrow> NUL \<notin> set s" "\<forall>c\<in>set s. path_char c \<Longrightarrow> NUL \<notin> set s"
  "opt_ok (Some s) \<Longrightarrow> NUL \<notin> set s"
  using user_char_not(7) query_char_not_hash by (auto simp: scheme_char_def ctype_simps path_char_def opt_ok_def)

lemma ps_url_scheme_auth:
  assumes "absolute_url u"
  defines "st \<equiv> set_auth (url_user u) (url_pass u) (the (url_host u)) (url_port u)
        (emit (the (url_scheme u) @ [NUL]) (ps_init\<lparr>ps_scheme := Some 0\<rparr>))"
  shows "pieces_ok st" "ps_url st = u\<lparr>url_path := None, url_query := None, url_fragment := None\<rparr>"
    "ps_query st = None" "ps_fragment st = None"
proof -
  from assms(1) obtain s h where f: "url_scheme u = Some s" "url_host u = Some h"
    and s: "\<forall>c\<in>set s. scheme_char c" and auth: "auth_ok (url_user u) (url_pass u) h"
    by (auto simp: absolute_url_def split: option.splits)
  define st1 where "st1 = emit (s @ [NUL]) (ps_init\<lparr>ps_scheme := Some 0\<rparr>)"
  have st1: "pieces_ok st1" "ps_url st1 = url_empty\<lparr>url_scheme := Some s\<rparr>" "ps_user st1 = None" "ps_pass st1 = None"
    "ps_query st1 = None" "ps_fragment st1 = None"
    using plain_no_NUL(1) [OF s]
    by (simp_all add: st1_def pieces_ok_def ps_init_def ptr_ok_def ps_url_def ps_string_def url_empty_def)
  have st: "st = set_auth (url_user u) (url_pass u) h (url_port u) st1" by (simp add: st_def st1_def f)
  from set_auth_spec [OF st1(1) auth st1(3,4), of "url_port u"]
  show "pieces_ok st" "ps_url st = u\<lparr>url_path := None, url_query := None, url_fragment := None\<rparr>"
    unfolding st by (simp_all add: st1 url_empty_def flip: f)
  show "ps_query st = None" "ps_fragment st = None" by (simp_all add: st st1)
qed

lemma ps_url_plain_state:
  assumes "plain_url u"
  shows "ps_url (plain_state u) = u"
proof -
  from assms obtain p where p: "url_path u = Some p" "\<forall>c\<in>set p. path_char c"
    and opts: "opt_ok (url_query u)" "opt_ok (url_fragment u)"
    by (auto simp: plain_url_def split: option.splits)
  define st2 where "st2 = (if absolute_url u then set_auth (url_user u) (url_pass u) (the (url_host u)) (url_port u)
        (emit (the (url_scheme u) @ [NUL]) (ps_init\<lparr>ps_scheme := Some 0\<rparr>)) else ps_init)"
  have "pieces_ok st2 \<and> ps_url st2 = u\<lparr>url_path := None, url_query := None, url_fragment := None\<rparr> \<and>
      ps_query st2 = None \<and> ps_fragment st2 = None"
  proof (cases "absolute_url u")
    case True
    then show ?thesis using ps_url_scheme_auth [OF True] by (simp add: st2_def)
  next
    case False
    with assms have "origin_url u" by (simp add: plain_url_def)
    with False show ?thesis
      by (simp add: st2_def origin_url_def ps_init_def pieces_ok_def ps_url_def)
  qed
  then have st2: "pieces_ok st2" "ps_url st2 = u\<lparr>url_path := None, url_query := None, url_fragment := None\<rparr>"
      "ps_query st2 = None" "ps_fragment st2 = None" by simp_all
  note st3 = set_path_spec [OF st2(1) plain_no_NUL(2) [OF p(2)]]
  have q: "case url_query u of None \<Rightarrow> ps_query (set_path p st2) = None | Some x \<Rightarrow> NUL \<notin> set x"
    "case url_fragment u of None \<Rightarrow> ps_fragment (set_query (url_query u) (set_path p st2)) = None | Some x \<Rightarrow> NUL \<notin> set x"
    using opts plain_no_NUL(3) st2(3,4) by (auto split: option.splits)
  note st4 = set_query_spec [OF st3(1) q(1)]
  have "plain_state u = set_fragment (url_fragment u) (set_query (url_query u) (set_path p st2))"
    by (simp add: plain_state_def p(1) st2_def)
  then show ?thesis by (simp add: set_fragment_spec [OF st4(1) q(2)] st4 st3 st2 flip: p(1))
qed


lemma url_parse_state_absolute:
  assumes u: "absolute_url u" and p: "url_path u = Some p" "p \<noteq> []" "hd p = CHR ''/''" "\<forall>c\<in>set p. path_char c"
    and opts: "opt_ok (url_query u)" "opt_ok (url_fragment u)" and flags: "url_flags_ok env flags u"
    and T: "rd T 0 \<noteq> CHR ''?''" "rd T 0 \<noteq> CHR ''#''"
  shows "url_parse_state env (php_http_url_to_string u @ T) (length (php_http_url_to_string u)) flags = Some (plain_state u)"
proof -
  from u p(1-3) opts obtain s h where f: "url_scheme u = Some s" "url_host u = Some h"
    and s: "s \<noteq> []" "isalpha (hd s)" "\<forall>c\<in>set s. scheme_char c" and auth: "auth_ok (url_user u) (url_pass u) h"
    and str: "php_http_url_to_string u = s @ ''://'' @ auth_str (url_user u) (url_pass u) h (url_port u) @ p @
       opt_str (CHR ''?'') (url_query u) @ opt_str (CHR ''#'') (url_fragment u)"
    by (rule to_string_absolute)
  define mem where "mem = php_http_url_to_string u @ T"
  define fin where "fin = length (php_http_url_to_string u)"
  let ?Q = "opt_str (CHR ''?'') (url_query u)" and ?F = "opt_str (CHR ''#'') (url_fragment u)"
  let ?au = "auth_str (url_user u) (url_pass u) h (url_port u)" and ?A = "s @ ''://''"
  have mem: "mem = s @ CHR '':'' # ''//'' @ ?au @ p @ ?Q @ ?F @ T" "mem = ?A @ ?au @ p @ ?Q @ ?F @ T"
    "mem = (?A @ ?au) @ p @ ?Q @ ?F @ T"
    by (simp_all add: mem_def str)
  have fin: "fin = length ((?A @ ?au) @ p @ ?Q @ ?F)" by (simp add: fin_def str)
  define st1 where "st1 = emit (s @ [NUL]) (ps_init\<lparr>ps_scheme := Some 0\<rparr>)"
  define st2 where "st2 = set_auth (url_user u) (url_pass u) h (url_port u) st1"
  note rest = parse_rest_plain [OF mem(3) fin p(2,4) opts T, of env flags st2]
  have "parse_scheme env flags mem fin 0 ps_init = (Suc (length s), st1)"
    unfolding st1_def using mem(1) s fin by (intro parse_scheme_plain) simp_all
  moreover have "parse_hier env flags mem fin (Suc (length s)) st1 = Some (length ((?A @ ?au) @ p), set_path p st2)"
  proof -
    have "rd mem (length (s @ '':'')) = CHR ''/''" "rd mem (length (s @ '':/'')) = CHR ''/''"
      using mem(1) rd_mid [of "s @ '':''" "CHR ''/''"] rd_mid [of "s @ '':/''" "CHR ''/''"] by simp_all
    then have sl: "rd mem (Suc (length s)) = CHR ''/'' \<and> Suc (length s) + 1 < fin \<and> rd mem (Suc (length s) + 1) = CHR ''/''"
      using fin by (simp del: rd_append)
    have "rd (p @ ?Q @ ?F @ T) 0 = CHR ''/''" using p(2,3) by (cases p) simp_all
    then have "parse_authority env flags mem fin (length ?A) st1 = Some (length (?A @ ?au), st2)"
      unfolding st2_def using mem(2) auth flags f(2) fin
      by (intro parse_authority_plain [where B = "p @ ?Q @ ?F @ T"]) (auto simp: st1_def ps_init_def url_flags_ok_def)
    moreover have "Suc (length s) + 2 = length ?A" by simp
    ultimately show ?thesis
      unfolding parse_hier_def using sl rest(1) by (simp only: if_True simp_thms option.case prod.case)
  qed
  moreover obtain e where "parse_fragment env flags mem fin (length ((?A @ ?au) @ p @ ?Q)) (set_query (url_query u) (set_path p st2)) =
      Some (e, set_fragment (url_fragment u) (set_query (url_query u) (set_path p st2)))" using rest(3) by blast
  ultimately have "url_parse_state env mem fin flags = Some (set_fragment (url_fragment u) (set_query (url_query u) (set_path p st2)))"
    using rest(2) by (simp add: url_parse_state_def)
  with u show ?thesis by (simp add: plain_state_def f p(1) st1_def st2_def flip: mem_def fin_def)
qed

lemma url_parse_state_origin:
  assumes u: "origin_url u" and p: "url_path u = Some p" "p \<noteq> []" "hd p = CHR ''/''" "\<forall>c\<in>set p. path_char c"
    and opts: "opt_ok (url_query u)" "opt_ok (url_fragment u)" and flags: "url_flags_ok env flags u"
    and T: "rd T 0 \<noteq> CHR ''?''" "rd T 0 \<noteq> CHR ''#''"
  shows "url_parse_state env (php_http_url_to_string u @ T) (length (php_http_url_to_string u)) flags = Some (plain_state u)"
proof -
  let ?Q = "opt_str (CHR ''?'') (url_query u)" and ?F = "opt_str (CHR ''#'') (url_fragment u)"
  define mem where "mem = php_http_url_to_string u @ T"
  define fin where "fin = length (php_http_url_to_string u)"
  note str = to_string_origin [OF u p(1-3) opts]
  obtain p' where p': "p = CHR ''/'' # p'" using p(2,3) by (cases p) auto
  have mem: "mem = [] @ p @ ?Q @ ?F @ T" "mem = CHR ''/'' # p' @ ?Q @ ?F @ T" by (simp_all add: mem_def str p')
  have fin: "fin = length ([] @ p @ ?Q @ ?F)" by (simp add: fin_def str)
  have one: "1 < fin \<longrightarrow> rd mem 1 \<noteq> CHR ''/''"
  proof
    assume "1 < fin"
    then have "p' \<noteq> [] \<or> ?Q \<noteq> [] \<or> ?F \<noteq> []" by (auto simp: fin p')
    moreover have "rd p 1 \<noteq> CHR ''/''" using u p(1) by (simp add: origin_url_def)
    ultimately show "rd mem 1 \<noteq> CHR ''/''"
      unfolding mem(2) by (cases p') (auto simp: p' opt_str_def split: option.splits)
  qed
  note rest = parse_rest_plain [OF mem(1) fin p(2,4) opts T, of env flags ps_init]
  have "parse_scheme env flags mem fin 0 ps_init = (0, ps_init)"
    unfolding mem(2) using flags u fin p(2) by (intro parse_scheme_slash) (auto simp: url_flags_ok_def origin_url_def)
  moreover have "parse_hier env flags mem fin 0 ps_init = parse_path env flags mem fin 0 ps_init"
    using one by (auto simp: parse_hier_def)
  moreover obtain e where "parse_fragment env flags mem fin (length ([] @ p @ ?Q)) (set_query (url_query u) (set_path p ps_init)) =
      Some (e, set_fragment (url_fragment u) (set_query (url_query u) (set_path p ps_init)))" using rest(3) by blast
  ultimately have "url_parse_state env mem fin flags = Some (set_fragment (url_fragment u) (set_query (url_query u) (set_path p ps_init)))"
    using rest(1,2) by (simp add: url_parse_state_def)
  moreover have "\<not> absolute_url u" using u by (simp add: absolute_url_def origin_url_def)
  ultimately show ?thesis by (simp add: plain_state_def p(1) flip: mem_def fin_def)
qed

lemma url_parse_plain:
  assumes "plain_url u" "url_flags_ok env flags u" "rd T 0 \<noteq> CHR ''?''" "rd T 0 \<noteq> CHR ''#''"
  shows "php_http_url_parse env (php_http_url_to_string u @ T) (length (php_http_url_to_string u)) flags = Some u"
proof -
  from assms(1) obtain p where p: "url_path u = Some p" "p \<noteq> []" "hd p = CHR ''/''" "\<forall>c\<in>set p. path_char c"
    and opts: "opt_ok (url_query u)" "opt_ok (url_fragment u)" and u: "absolute_url u \<or> origin_url u"
    by (auto simp: plain_url_def split: option.splits)
  from u have "url_parse_state env (php_http_url_to_string u @ T) (length (php_http_url_to_string u)) flags = Some (plain_state u)"
    using url_parse_state_absolute [OF _ p opts assms(2-4)] url_parse_state_origin [OF _ p opts assms(2-4)] by blast
  then show ?thesis by (simp add: php_http_url_parse_def ps_url_plain_state [OF assms(1)])
qed

text \<open>C26. Parsing inverts printing: a URL whose components consist of characters that need no escape,
  either absolute (scheme, host, path) or only an absolute path with query and fragment, is printed to
  a string that the parser takes apart into exactly the same components, the port number included,
  whatever bytes follow in memory (a question mark or a hash sign apart). The hypothesis on the
  environment is that IDN conversion, when the flags ask for it, keeps this host name.\<close>

theorem url_print_parse:
  assumes "plain_url u" "url_flags_ok env flags u" "rd T 0 \<noteq> CHR ''?''" "rd T 0 \<noteq> CHR ''#''"
  shows "php_http_url_parse env (php_http_url_to_string u @ T) (length (php_http_url_to_string u)) flags = Some u"
  using assms by (rule url_parse_plain)

definition sample_url :: php_http_url where
  "sample_url = \<lparr>url_scheme = Some ''http'', url_user = Some ''me'', url_pass = Some ''pw'', url_host = Some ''a-b.example.com'',
     url_port = 8080, url_path = Some ''/x/y;z'', url_query = Some ''q=1&r'', url_fragment = Some ''top''\<rparr>"

text \<open>An environment without locale support whose IDN conversion accepts ASCII names as they are.\<close>

definition ascii_env :: url_env where
  "ascii_env = \<lparr>ue_mbrtowc = \<lambda>_ _. None, ue_iswalnum = \<lambda>_. False,
     ue_idn2_lookup_u8 = (\<lambda>h. if \<forall>c\<in>set h. uchar c < 128 then Some h else None), ue_idn2_lookup_ul = \<lambda>_. None,
     ue_idna_to_ascii_8z = (\<lambda>h. if \<forall>c\<in>set h. uchar c < 128 then Some h else None), ue_idna_to_ascii_lz = \<lambda>_. None,
     ue_inet6 = \<lambda>_. None\<rparr>"

lemma sample_url_plain: "plain_url sample_url" "url_flags_ok ascii_env PHP_HTTP_URL_STDFLAGS sample_url"
  "php_http_url_to_string sample_url = ''http://me:pw@a-b.example.com:8080/x/y;z?q=1&r#top''"
  "length (php_http_url_to_string sample_url) = 49"
  by code_simp+

theorem url_print_parse_witness:
  "plain_url sample_url \<and> url_flags_ok ascii_env PHP_HTTP_URL_STDFLAGS sample_url \<and>
   php_http_url_parse ascii_env ''http://me:pw@a-b.example.com:8080/x/y;z?q=1&r#top HTTP/1.1'' 49 PHP_HTTP_URL_STDFLAGS = Some sample_url"
  using url_print_parse [OF sample_url_plain(1,2), of "'' HTTP/1.1''"]
  unfolding sample_url_plain(4) unfolding sample_url_plain(3) by (simp add: sample_url_plain(1,2))


section \<open>Authorities\<close>

definition authority_url :: "php_http_url \<Rightarrow> bool" where
  "authority_url u \<longleftrightarrow> url_scheme u = None \<and> url_path u = None \<and> url_query u = None \<and> url_fragment u = None \<and>
     (case url_host u of Some h \<Rightarrow> auth_ok (url_user u) (url_pass u) h | None \<Rightarrow> False)"

lemma authority_to_string:
  assumes "authority_url u" "url_host u = Some h"
  shows "php_http_url_authority_to_string u = auth_str (url_user u) (url_pass u) h (url_port u)"
  using assms by (auto simp: php_http_url_authority_to_string_def authority_url_def auth_str_def auth_ok_def part_isset_def
      userinfo_ok_def userinfo_str_def hostport_str_def port_str_def split: option.splits)

lemma url_parse_authority_plain:
  assumes u: "authority_url u" and flags: "url_flags_ok env flags u" and T: "rd T 0 \<noteq> CHR ''@''"
  shows "php_http_url_parse_authority env (php_http_url_authority_to_string u @ T)
           (length (php_http_url_authority_to_string u)) flags = Some u"
proof -
  from u obtain h where h: "url_host u = Some h" "auth_ok (url_user u) (url_pass u) h"
    by (auto simp: authority_url_def split: option.splits)
  let ?au = "auth_str (url_user u) (url_pass u) h (url_port u)"
  have "parse_authority env flags (?au @ T) (length ?au) (length ([] :: bytes)) ps_init =
      Some (length ([] @ ?au), set_auth (url_user u) (url_pass u) h (url_port u) ps_init)"
    using h flags T by (intro parse_authority_plain) (auto simp: ps_init_def url_flags_ok_def)
  moreover have "ps_url (set_auth (url_user u) (url_pass u) h (url_port u) ps_init) = u"
    using set_auth_spec(2) [OF _ h(2), of ps_init "url_port u"] u h(1)
    by (simp add: ps_init_def pieces_ok_def ps_url_def authority_url_def)
  ultimately show ?thesis by (simp add: authority_to_string [OF u h(1)] php_http_url_parse_authority_def)
qed

end
