(* ===== verification/Http_Info.thy ===== *)
theory Http_Info
  imports Http_Misc Http_Version Http_Zend Http_Url_Parse
begin

text \<open>
  Start lines (\<open>php_http_info.c\<close>): request and status lines. The argument of the parser is the memory at
  the pointer, with the terminator behind the list; a result \<^const>\<open>None\<close> is a read outside of it.
  The union of the structure is a datatype; the zeroed union is \<open>InfoRequest None None\<close>.
\<close>

section \<open>Data\<close>

datatype php_http_info_type = PHP_HTTP_NONE | PHP_HTTP_REQUEST | PHP_HTTP_RESPONSE

datatype info_union =
    InfoRequest "bytes option" "php_http_url option"
  | InfoResponse "32 word" "bytes option"

record php_http_info =
  info_type :: php_http_info_type
  info_version :: php_http_version
  info_data :: info_union

definition php_http_info_init :: php_http_info where
  "php_http_info_init = \<lparr>info_type = PHP_HTTP_NONE, info_version = \<lparr>ver_major = 0, ver_minor = 0\<rparr>,
     info_data = InfoRequest None None\<rparr>"

text \<open>The strings and the URL are released and their pointers cleared; the other fields stay.\<close>

definition php_http_info_dtor :: "php_http_info \<Rightarrow> php_http_info" where
  "php_http_info_dtor i =
     (case info_type i of
        PHP_HTTP_REQUEST \<Rightarrow> i\<lparr>info_data := InfoRequest None None\<rparr>
      | PHP_HTTP_RESPONSE \<Rightarrow>
          (case info_data i of
             InfoResponse code _ \<Rightarrow> i\<lparr>info_data := InfoResponse code None\<rparr>
           | _ \<Rightarrow> i)
      | PHP_HTTP_NONE \<Rightarrow> i)"

section \<open>Printing\<close>

definition request_target :: "bytes option \<Rightarrow> php_http_url option \<Rightarrow> bytes" where
  "request_target meth url =
     (if meth \<noteq> None \<and> strcaseeq (the meth) ''CONNECT''
      then (case url of Some u \<Rightarrow> php_http_url_authority_to_string u | None \<Rightarrow> ''0'')
      else (case url of Some u \<Rightarrow> php_http_url_to_string u | None \<Rightarrow> ''/''))"

definition status_text :: "32 word \<Rightarrow> bytes option \<Rightarrow> bytes" where
  "status_text code status =
     print_long (if code \<noteq> 0 then sint code else 200) @
     (if part_isset status then '' '' else []) @ STR_PTR status"

text \<open>The string that is written; \<^const>\<open>None\<close> where the code writes none (no type).\<close>

definition php_http_info_to_string :: "php_http_info \<Rightarrow> bytes \<Rightarrow> bytes option" where
  "php_http_info_to_string info eol =
     (let v = info_version info;
          isset = ver_major v \<noteq> 0 \<or> ver_minor v \<noteq> 0;
          ver = ''HTTP/'' @ (if ver_major v = 2 then ''2''
                 else dec (if isset then unat (ver_major v) else 1) @ ''.'' @ dec (if isset then unat (ver_minor v) else 1))
      in case (info_type info, info_data info) of
           (PHP_HTTP_REQUEST, InfoRequest meth url) \<Rightarrow>
             Some ((case meth of Some m \<Rightarrow> m | None \<Rightarrow> ''UNKNOWN'') @ SP # request_target meth url @ SP # ver @ eol)
         | (PHP_HTTP_RESPONSE, InfoResponse code status) \<Rightarrow> Some (ver @ SP # status_text code status @ eol)
         | _ \<Rightarrow> None)"

section \<open>Parsing\<close>

definition line_end :: "bytes \<Rightarrow> nat" where
  "line_end pre_header = (case php_http_locate_eol pre_header of Some (e, _) \<Rightarrow> e | None \<Rightarrow> length (cstr pre_header))"

text \<open>\<open>while (' ' == *p && end > p) ++p\<close>\<close>

definition skip_spaces :: "bytes \<Rightarrow> nat \<Rightarrow> nat \<Rightarrow> nat" where
  "skip_spaces pre p fin = p + length (takeWhile (\<lambda>c. c = SP) (take (fin - p) (drop p pre)))"

text \<open>\<open>while (' ' == *(http-1)) --http\<close>; before the first byte the read is out of bounds.\<close>

fun back_spaces :: "bytes \<Rightarrow> nat \<Rightarrow> nat option" where
  "back_spaces pre 0 = None"
| "back_spaces pre (Suc n) = (if rd pre n = SP then back_spaces pre n else Some (Suc n))"

text \<open>The status line behind the version. The result tells whether the line is accepted.\<close>

definition parse_status :: "bytes \<Rightarrow> nat \<Rightarrow> nat \<Rightarrow> php_http_info \<Rightarrow> (bool \<times> php_http_info) option" where
  "parse_status pre off fin info =
     (let info = info\<lparr>info_type := PHP_HTTP_RESPONSE, info_data := InfoResponse 0 None\<rparr>;
          code = skip_spaces pre off fin
      in if code < fin then
           if length pre < code + 2 then None
           else let digit = (\<lambda>k. schar (rd pre (code + k)) - 48);
                    value = word_of_int (100 * digit 0) + word_of_int (10 * digit 1) + word_of_int (digit 2);
                    status = code + 3
                in if value < 100 \<or> 599 < value then Some (False, info\<lparr>info_data := InfoResponse value None\<rparr>)
                   else if status < fin
                   then let st = skip_spaces pre status fin in
                     Some (True, info\<lparr>info_data := InfoResponse value (Some (take (fin - st) (drop st pre)))\<rparr>)
                   else Some (True, info\<lparr>info_data := InfoResponse value None\<rparr>)
         else Some (True, info))"

text \<open>The request line in front of the version, which begins at \<open>http\<close>.\<close>

definition parse_request :: "url_env \<Rightarrow> bytes \<Rightarrow> nat \<Rightarrow> php_http_info \<Rightarrow> (bool \<times> php_http_info) option" where
  "parse_request env pre http info =
     (let info = info\<lparr>info_type := PHP_HTTP_REQUEST, info_data := InfoRequest None None\<rparr> in
      case index_of (\<lambda>c. c = SP) (cstr pre) of
        Some sp \<Rightarrow>
          if sp < http then
            let meth = take sp pre; url = skip_spaces pre sp http in
            case back_spaces pre http of
              None \<Rightarrow> None
            | Some http \<Rightarrow>
                if url < http then
                  (case (if \<not> strcaseeq meth ''CONNECT''
                         then php_http_url_parse env (drop url pre) (http - url) PHP_HTTP_URL_STDFLAGS
                         else php_http_url_parse_authority env (drop url pre) (http - url) PHP_HTTP_URL_STDFLAGS) of
                     None \<Rightarrow> Some (False, info)
                   | Some u \<Rightarrow> Some (True, info\<lparr>info_data := InfoRequest (Some meth) (Some u)\<rparr>))
                else Some (False, info)
          else Some (True, info)
      | None \<Rightarrow> Some (True, info))"

text \<open>
  \<open>php_http_info_parse\<close> on a structure of the caller: the first component is false where the code
  returns a null pointer, the second is the structure afterwards. \<open>info0\<close> is what it held before.
\<close>

definition version_end :: "bytes \<Rightarrow> nat \<Rightarrow> php_http_version \<Rightarrow> nat" where
  "version_end pre_header http v =
     (let off = http + 6 in
      if ver_major v < 2 \<or> (ver_major v = 2 \<and> rd pre_header off = CHR ''.'') then off + 2 else off)"

definition php_http_info_parse :: "url_env \<Rightarrow> php_http_info \<Rightarrow> bytes \<Rightarrow> (bool \<times> php_http_info) option" where
  "php_http_info_parse env info0 pre_header =
     (if cstr pre_header = [] then Some (False, info0)
      else let fin = line_end pre_header in
        case memnstr (take fin pre_header) ''HTTP/'' of
          None \<Rightarrow> Some (False, info0)
        | Some http \<Rightarrow>
            (case php_http_version_parse (drop http pre_header) of
               None \<Rightarrow> Some (False, php_http_info_init)
             | Some v \<Rightarrow>
                 let info = php_http_info_init\<lparr>info_version := v\<rparr>;
                     off = version_end pre_header http v;
                     c = rd pre_header off
                 in if c \<noteq> NUL \<and> \<not> isspace c then Some (False, info)
                    else if http = 0 then parse_status pre_header off fin info
                    else if rd pre_header (http - 1) = SP \<and> (c = NUL \<or> c = CR \<or> c = LF)
                    then parse_request env pre_header http info
                    else Some (False, info)))"

section \<open>Bounds and memory safety\<close>

lemma parse_status_bounds:
  assumes "parse_status pre off fin info = Some (True, info')"
  shows "info_type info' = PHP_HTTP_RESPONSE \<and> info_version info' = info_version info \<and>
    (\<exists>code status. info_data info' = InfoResponse code status \<and> (code = 0 \<and> status = None \<or> 100 \<le> code \<and> code \<le> 599))"
  using assms by (auto simp: parse_status_def Let_def not_less split: if_splits)

lemma parse_request_type:
  assumes "parse_request env pre http info = Some (ok, info')"
  shows "info_type info' = PHP_HTTP_REQUEST \<and> info_version info' = info_version info \<and>
    (\<exists>m u. info_data info' = InfoRequest m u \<and> (m = None \<longleftrightarrow> u = None))"
  using assms by (auto simp: parse_request_def Let_def split: option.splits if_splits)

text \<open>C29. A start line that is accepted gives a request or a response with single-digit version
  numbers. A response has a status code between 100 and 599, or none (0) and then no reason phrase;
  a request has both a method and a target, or neither.\<close>

theorem info_parse_wellformed:
  assumes "php_http_info_parse env info0 pre_header = Some (True, info)"
  shows "unat (ver_major (info_version info)) \<le> 9 \<and> unat (ver_minor (info_version info)) \<le> 9 \<and>
    (case info_data info of
       InfoResponse code status \<Rightarrow> info_type info = PHP_HTTP_RESPONSE \<and>
         (code = 0 \<and> status = None \<or> 100 \<le> code \<and> code \<le> 599)
     | InfoRequest m u \<Rightarrow> info_type info = PHP_HTTP_REQUEST \<and> (m = None \<longleftrightarrow> u = None))"
proof -
  from assms obtain http where http: "memnstr (take (line_end pre_header) pre_header) ''HTTP/'' = Some http"
    and ne: "cstr pre_header \<noteq> []"
    by (cases "memnstr (take (line_end pre_header) pre_header) ''HTTP/''")
       (auto simp: php_http_info_parse_def Let_def split: if_splits)
  from assms obtain v where v: "php_http_version_parse (drop http pre_header) = Some v"
    by (cases "php_http_version_parse (drop http pre_header)") (auto simp: php_http_info_parse_def Let_def http ne)
  let ?i = "php_http_info_init\<lparr>info_version := v\<rparr>"
  from assms have "parse_status pre_header (version_end pre_header http v) (line_end pre_header) ?i = Some (True, info) \<or>
      parse_request env pre_header http ?i = Some (True, info)"
    by (simp add: php_http_info_parse_def Let_def http v ne split: if_splits)
  then have "info_version info = v \<and> (case info_data info of
       InfoResponse code status \<Rightarrow> info_type info = PHP_HTTP_RESPONSE \<and>
         (code = 0 \<and> status = None \<or> 100 \<le> code \<and> code \<le> 599)
     | InfoRequest m u \<Rightarrow> info_type info = PHP_HTTP_REQUEST \<and> (m = None \<longleftrightarrow> u = None))"
    by (auto dest!: parse_status_bounds parse_request_type)
  with version_parse_digits [OF v] version_digits_range show ?thesis by blast
qed

theorem info_parse_wellformed_witness:
  "\<exists>info. php_http_info_parse ascii_env php_http_info_init ''HTTP/1.1 404 Not Found'' = Some (True, info) \<and>
     unat (ver_major (info_version info)) \<le> 9 \<and> info_data info = InfoResponse 404 (Some ''Not Found'')"
proof -
  let ?i = "\<lparr>info_type = PHP_HTTP_RESPONSE, info_version = \<lparr>ver_major = 1, ver_minor = 1\<rparr>, info_data = InfoResponse 404 (Some ''Not Found'')\<rparr>"
  have p: "php_http_info_parse ascii_env php_http_info_init ''HTTP/1.1 404 Not Found'' = Some (True, ?i)" by code_simp
  from info_parse_wellformed [OF p] p show ?thesis by simp
qed

text \<open>The back scan stops inside the line when the line does not begin with a space.\<close>

lemma back_spaces_returns: "0 < n \<Longrightarrow> rd pre 0 \<noteq> SP \<Longrightarrow> \<exists>k. back_spaces pre n = Some k"
proof (induction n)
  case (Suc n)
  then show ?case by (cases n) auto
qed simp

lemma skip_spaces_bounds: "p \<le> skip_spaces pre p fin" "p \<le> fin \<Longrightarrow> skip_spaces pre p fin \<le> fin"
proof -
  have "length (takeWhile (\<lambda>c. c = SP) (take (fin - p) (drop p pre))) \<le> length (take (fin - p) (drop p pre))"
    by (rule length_takeWhile_le)
  also have "\<dots> \<le> fin - p" by simp
  finally show "p \<le> fin \<Longrightarrow> skip_spaces pre p fin \<le> fin" by (simp add: skip_spaces_def)
qed (simp add: skip_spaces_def)

lemma locate_eol_inside: "php_http_locate_eol pre = Some (e, n) \<Longrightarrow> e < length pre"
proof -
  assume "php_http_locate_eol pre = Some (e, n)"
  then have "index_of is_eol (cstr pre) = Some e" by (auto simp: php_http_locate_eol_def split: option.splits)
  then have "e < length (cstr pre)" by (auto dest: index_of_SomeD)
  then show ?thesis by (simp add: cstr_def length_takeWhile_le order.strict_trans2)
qed



text \<open>
  Without these two conditions there are reads outside: a line of a space and the version makes the
  back scan read in front of the line, a status line that ends behind the first digit of the code
  is read behind its terminator.
\<close>

lemma info_parse_reads_outside:
  "php_http_info_parse env info0 '' HTTP/1.1'' = None"
  "php_http_info_parse env info0 ''HTTP/1.1 2'' = None"
  by code_simp+

text \<open>The three bytes of the status code are not checked to be digits, nor to be in the line.\<close>

lemma info_parse_short_code:
  "php_http_info_parse env info0 (''HTTP/1.1 20'' @ [CR, LF]) =
     Some (True, \<lparr>info_type = PHP_HTTP_RESPONSE, info_version = \<lparr>ver_major = 1, ver_minor = 1\<rparr>, info_data = InfoResponse 165 None\<rparr>)"
  by code_simp


section \<open>Printing and parsing\<close>

lemma memnstr_by_behind:
  assumes "memnstr_by f X n = None" "f c \<notin> f ` set n"
  shows "memnstr_by f (X @ c # n @ r) n = Some (Suc (length X))"
  using assms
proof (induction X)
  case Nil
  then have "map f (take (length n) (c # n @ r)) \<noteq> map f n" by (cases n) (auto simp: memnstr_by.simps)
  then show ?case by (subst memnstr_by.simps) simp
next
  case (Cons x X)
  have ne: "map f (take (length n) (x # X)) \<noteq> map f n" and X: "memnstr_by f X n = None"
    using Cons.prems(1) unfolding memnstr_by.simps [of f "x # X" n] by (auto split: if_splits)
  have "map f (take (length n) ((x # X) @ c # n @ r)) \<noteq> map f n"
  proof
    assume eq: "map f (take (length n) ((x # X) @ c # n @ r)) = map f n"
    show False
    proof (cases "length n \<le> length (x # X)")
      case True
      then have "take (length n) ((x # X) @ c # n @ r) = take (length n) (x # X)" by (simp only: take_append) simp
      with eq ne show False by simp
    next
      case False
      then have "c \<in> set (take (length n) ((x # X) @ c # n @ r))" by (auto simp: take_Cons' not_le)
      then have "f c \<in> set (map f (take (length n) ((x # X) @ c # n @ r)))" by simp
      with eq assms(2) show False by simp
    qed
  qed
  with Cons.IH [OF X assms(2)] show ?case by (subst memnstr_by.simps) simp
qed

lemma memnstr_behind: "memnstr X n = None \<Longrightarrow> c \<notin> set n \<Longrightarrow> memnstr (X @ c # n @ r) n = Some (Suc (length X))"
  by (rule memnstr_by_behind) simp_all

definition line_char :: "char \<Rightarrow> bool" where "line_char c \<longleftrightarrow> c \<noteq> NUL \<and> \<not> is_eol c"
definition word_char :: "char \<Rightarrow> bool" where "word_char c \<longleftrightarrow> line_char c \<and> c \<noteq> SP"

definition at_line_end :: "bytes \<Rightarrow> bool" where "at_line_end E \<longleftrightarrow> rd E 0 \<in> {NUL, CR, LF}"

lemma line_end_line:
  assumes "\<forall>c\<in>set L. line_char c" "at_line_end E"
  shows "line_end (L @ E) = length L"
proof -
  have nul: "\<forall>c\<in>set L. c \<noteq> NUL" "\<forall>c\<in>set L. \<not> is_eol c" using assms(1) by (auto simp: line_char_def)
  then have c: "cstr (L @ E) = L @ cstr E" by (simp add: cstr_def takeWhile_append2)
  show ?thesis
  proof (cases "rd E 0 = NUL")
    case True
    then have "cstr E = []" by (cases E) (auto simp: cstr_def)
    moreover have "index_of is_eol L = None" using nul(2) by (simp add: index_of_None)
    ultimately show ?thesis using c by (simp add: line_end_def php_http_locate_eol_def)
  next
    case False
    then obtain d E' where "E = d # E'" "is_eol d" "d \<noteq> NUL" using assms(2) by (cases E) (auto simp: at_line_end_def is_eol_def)
    moreover have "index_of is_eol L = None" using nul(2) by (simp add: index_of_None)
    ultimately have "index_of is_eol (L @ cstr E) = Some (length L)" by (simp add: index_of_append cstr_def)
    then show ?thesis by (simp add: line_end_def php_http_locate_eol_def c)
  qed
qed

lemma dec_isword: "\<forall>c\<in>set (dec n). word_char c"
  using dec_isdigit [of n] by (auto simp: word_char_def line_char_def is_eol_def ctype_simps)

text \<open>No space, line end or terminator in a printed URL.\<close>

lemma word_chars:
  "user_char c \<Longrightarrow> word_char c" "path_char c \<Longrightarrow> word_char c" "query_char_ok c \<Longrightarrow> word_char c"
  "scheme_char c \<Longrightarrow> word_char c" "auth_char c \<Longrightarrow> word_char c"
proof -
  show u: "word_char c" if "user_char c" for c
    using that by (auto simp: user_char_def sub_delim_def unreserved_mark_def word_char_def line_char_def is_eol_def ctype_simps)
  show "path_char c \<Longrightarrow> word_char c" "query_char_ok c \<Longrightarrow> word_char c" "auth_char c \<Longrightarrow> word_char c"
    using u by (auto simp: path_char_def query_char_ok_def auth_char_def word_char_def line_char_def is_eol_def)
  show "scheme_char c \<Longrightarrow> word_char c"
    by (auto simp: scheme_char_def word_char_def line_char_def is_eol_def ctype_simps)
qed


lemma opt_str_words: "opt_ok q \<Longrightarrow> word_char d \<Longrightarrow> \<forall>c\<in>set (opt_str d q). word_char c"
  by (auto simp: opt_str_def opt_ok_def word_chars split: option.splits)

lemma auth_str_words:
  assumes "auth_ok u p h"
  shows "\<forall>c\<in>set (auth_str u p h port). word_char c"
proof -
  have "\<forall>c\<in>set (hostport_str h port). word_char c"
    using assms hostport_str_chars [of h port] word_chars(5) by (auto simp: auth_ok_def)
  moreover have "\<forall>c\<in>set (userinfo_str v p). word_char c" if "u = Some v" for v
    using assms userinfo_str_chars [of v p] word_chars(5) that by (auto simp: auth_ok_def)
  moreover have "word_char (CHR ''@'')" by (simp add: word_char_def line_char_def is_eol_def)
  ultimately show ?thesis by (auto simp: auth_str_def split: option.splits)
qed

lemma word_delims: "word_char (CHR ''?'')" "word_char (CHR ''#'')" "word_char (CHR '':'')" "word_char (CHR ''/'')"
  by (simp_all add: word_char_def line_char_def is_eol_def)

lemma url_string_words:
  assumes "plain_url u"
  shows "php_http_url_to_string u \<noteq> []" "\<forall>c\<in>set (php_http_url_to_string u). word_char c"
proof -
  from assms obtain p where p: "url_path u = Some p" "p \<noteq> []" "hd p = CHR ''/''" "\<forall>c\<in>set p. path_char c"
    and opts: "opt_ok (url_query u)" "opt_ok (url_fragment u)" and u: "absolute_url u \<or> origin_url u"
    by (auto simp: plain_url_def split: option.splits)
  from u have "\<exists>X. php_http_url_to_string u = X @ p @ opt_str (CHR ''?'') (url_query u) @ opt_str (CHR ''#'') (url_fragment u) \<and>
      (\<forall>c\<in>set X. word_char c)"
  proof
    assume a: "absolute_url u"
    obtain s h where s: "\<forall>c\<in>set s. scheme_char c" "auth_ok (url_user u) (url_pass u) h"
      and str: "php_http_url_to_string u = s @ ''://'' @ auth_str (url_user u) (url_pass u) h (url_port u) @ p @
       opt_str (CHR ''?'') (url_query u) @ opt_str (CHR ''#'') (url_fragment u)"
      using to_string_absolute [OF a p(1-3) opts] by metis
    show ?thesis
      using s auth_str_words [OF s(2), of "url_port u"] word_delims
      by (intro exI [of _ "s @ ''://'' @ auth_str (url_user u) (url_pass u) h (url_port u)"]) (auto simp: str word_chars)
  next
    assume "origin_url u"
    from to_string_origin [OF this p(1-3) opts] show ?thesis by (intro exI [of _ "[]"]) simp
  qed
  moreover have "\<forall>c\<in>set p. word_char c" using p(4) word_chars(2) by blast
  moreover note opt_str_words [OF opts(1) word_delims(1)] opt_str_words [OF opts(2) word_delims(2)]
  ultimately show "php_http_url_to_string u \<noteq> []" "\<forall>c\<in>set (php_http_url_to_string u). word_char c"
    using p(2) by auto
qed

lemma authority_string_words:
  assumes "authority_url u"
  shows "php_http_url_authority_to_string u \<noteq> []" "\<forall>c\<in>set (php_http_url_authority_to_string u). word_char c"
proof -
  from assms obtain h where h: "url_host u = Some h" "auth_ok (url_user u) (url_pass u) h"
    by (auto simp: authority_url_def split: option.splits)
  from authority_to_string [OF assms h(1)] auth_str_words [OF h(2)] h(2)
  show "php_http_url_authority_to_string u \<noteq> []" "\<forall>c\<in>set (php_http_url_authority_to_string u). word_char c"
    by (auto simp: auth_str_def auth_ok_def hostport_str_def)
qed

text \<open>The version of a printed start line.\<close>

lemma version_line:
  assumes "unat (ver_major v) \<le> 9" "unat (ver_minor v) \<le> 9" "ver_major v \<noteq> 2"
  shows "php_http_version_parse (''HTTP/'' @ dec (unat (ver_major v)) @ ''.'' @ dec (unat (ver_minor v)) @ r) = Some v"
  using version_digits_dot [of "unat (ver_major v)" "unat (ver_minor v)" "CHR ''.''" r] assms
  by (simp add: php_http_version_init_def dec_digit)


lemma skip_one_space: "hd B \<noteq> SP \<Longrightarrow> B \<noteq> [] \<Longrightarrow> length A < fin \<Longrightarrow> skip_spaces (A @ SP # B) (length A) fin = Suc (length A)"
  by (cases B; cases "fin - length A") (auto simp: skip_spaces_def take_Cons' split: nat.splits)

lemma skip_no_space: "rd (drop p pre) 0 \<noteq> SP \<Longrightarrow> skip_spaces pre p fin = p"
  by (cases "drop p pre"; cases "fin - p") (auto simp: skip_spaces_def)

lemma back_one_space: "A \<noteq> [] \<Longrightarrow> last A \<noteq> SP \<Longrightarrow> back_spaces (A @ SP # B) (Suc (length A)) = Some (length A)"
  by (cases A rule: rev_cases) (auto simp: rd_mid nth_append rd_def)

text \<open>Start lines that are read back. A request has major version 0 or 1: version 2 is printed without a
  minor number and rejected at the end of a line, higher ones are rejected in every start line.\<close>

definition printable_request :: "url_env \<Rightarrow> php_http_version \<Rightarrow> bytes \<Rightarrow> php_http_url \<Rightarrow> bool" where
  "printable_request env v m u \<longleftrightarrow> unat (ver_major v) \<le> 1 \<and> m \<noteq> [] \<and> (\<forall>c\<in>set m. word_char c) \<and>
     (if strcaseeq m ''CONNECT'' then authority_url u else plain_url u) \<and> url_flags_ok env PHP_HTTP_URL_STDFLAGS u \<and>
     memnstr (m @ SP # request_target (Some m) (Some u)) ''HTTP/'' = None"

definition printable_response :: "php_http_version \<Rightarrow> 32 word \<Rightarrow> bytes option \<Rightarrow> bool" where
  "printable_response v code status \<longleftrightarrow> unat (ver_major v) \<le> 2 \<and> (ver_major v = 2 \<longrightarrow> ver_minor v = 0) \<and>
     100 \<le> code \<and> code \<le> 599 \<and>
     (case status of None \<Rightarrow> True | Some s \<Rightarrow> s \<noteq> [] \<and> hd s \<noteq> SP \<and> (\<forall>c\<in>set s. line_char c))"

definition printable_info :: "url_env \<Rightarrow> php_http_info \<Rightarrow> bool" where
  "printable_info env info \<longleftrightarrow>
     (ver_major (info_version info) \<noteq> 0 \<or> ver_minor (info_version info) \<noteq> 0) \<and> unat (ver_minor (info_version info)) \<le> 9 \<and>
     (case (info_type info, info_data info) of
        (PHP_HTTP_REQUEST, InfoRequest (Some m) (Some u)) \<Rightarrow> printable_request env (info_version info) m u
      | (PHP_HTTP_RESPONSE, InfoResponse code status) \<Rightarrow> printable_response (info_version info) code status
      | _ \<Rightarrow> False)"

definition ver_str :: "php_http_version \<Rightarrow> bytes" where
  "ver_str v = (if ver_major v = 2 then ''2'' else dec (unat (ver_major v)) @ ''.'' @ dec (unat (ver_minor v)))"

lemma request_target_parsed:
  assumes "printable_request env v m u" "rd T 0 = SP"
  defines "t \<equiv> request_target (Some m) (Some u)"
  shows "t \<noteq> []" "\<forall>c\<in>set t. word_char c"
    "(if \<not> strcaseeq m ''CONNECT'' then php_http_url_parse env (t @ T) (length t) PHP_HTTP_URL_STDFLAGS
      else php_http_url_parse_authority env (t @ T) (length t) PHP_HTTP_URL_STDFLAGS) = Some u"
  using assms url_parse_plain [of u env PHP_HTTP_URL_STDFLAGS T] url_parse_authority_plain [of u env PHP_HTTP_URL_STDFLAGS T]
    url_string_words [of u] authority_string_words [of u]
  by (auto simp: printable_request_def request_target_def split: if_splits)

lemma ver_digits: 
  assumes "unat (ver_major v) \<le> 1" "unat (ver_minor v) \<le> 9"
  obtains a b where "ver_str v = [a, CHR ''.'', b]" "word_char a" "word_char b" "ver_major v < 2"
    "\<And>r. php_http_version_parse (''HTTP/'' @ ver_str v @ r) = Some v"
proof -
  have 2: "ver_major v < 2" using assms(1) by (simp add: word_less_nat_alt)
  then have v: "ver_str v = dec (unat (ver_major v)) @ ''.'' @ dec (unat (ver_minor v))" by (auto simp: ver_str_def)
  have d: "dec (unat (ver_major v)) = [char_of (48 + unat (ver_major v))]" "dec (unat (ver_minor v)) = [char_of (48 + unat (ver_minor v))]"
    using assms by (simp_all add: dec_digit)
  have w: "word_char (char_of (48 + unat (ver_major v)))" "word_char (char_of (48 + unat (ver_minor v)))"
    using dec_isword [of "unat (ver_major v)"] dec_isword [of "unat (ver_minor v)"] unfolding d by simp_all
  have "php_http_version_parse (''HTTP/'' @ ver_str v @ r) = Some v" for r
    using version_line [of v r] assms 2 v by auto
  then show thesis using that v d w 2 by simp
qed


lemma cstr_word:
  assumes "\<forall>c\<in>set m. word_char c"
  shows "index_of (\<lambda>c. c = SP) (cstr (m @ SP # r)) = Some (length m)"
proof -
  have "cstr (m @ SP # r) = m @ SP # cstr r"
    using assms by (simp add: cstr_def takeWhile_append2 word_char_def line_char_def)
  moreover have "index_of (\<lambda>c. c = SP) m = None" using assms by (auto simp: index_of_None word_char_def)
  ultimately show ?thesis by (simp add: index_of_append)
qed

lemma parse_request_printed:
  fixes r :: bytes
  assumes ok: "printable_request env v m u"
  defines "t \<equiv> request_target (Some m) (Some u)"
  defines "pre \<equiv> (m @ SP # t) @ SP # r"
  shows "parse_request env pre (Suc (length (m @ SP # t))) info =
    Some (True, info\<lparr>info_type := PHP_HTTP_REQUEST, info_data := InfoRequest (Some m) (Some u)\<rparr>)"
proof -
  let ?http = "Suc (length (m @ SP # t))"
  note t = request_target_parsed [OF ok, of "SP # r", folded t_def]
  have m: "\<forall>c\<in>set m. word_char c" using ok by (simp add: printable_request_def)
  have tne: "t \<noteq> []" and tch: "\<forall>c\<in>set t. word_char c" using t(1,2) by simp_all
  have sp: "index_of (\<lambda>c. c = SP) (cstr pre) = Some (length m)" using cstr_word [OF m] by (simp add: pre_def)
  have "hd t \<noteq> SP" "last t \<noteq> SP" using tne tch by (auto simp: word_char_def)
  have "skip_spaces (m @ SP # t @ SP # r) (length m) ?http = Suc (length m)"
    using tne \<open>hd t \<noteq> SP\<close> by (intro skip_one_space) auto
  then have url: "skip_spaces pre (length m) ?http = Suc (length m)" by (simp add: pre_def)
  have bk: "back_spaces pre ?http = Some (length (m @ SP # t))"
    unfolding pre_def using tne \<open>last t \<noteq> SP\<close> by (intro back_one_space) auto
  have dt: "drop (Suc (length m)) pre = t @ SP # r" "take (length m) pre = m" by (simp_all add: pre_def)
  have lt: "length m < ?http" "Suc (length m) < length (m @ SP # t)" "length (m @ SP # t) - Suc (length m) = length t"
    using tne by (cases t; simp)+
  have u: "(if \<not> strcaseeq m ''CONNECT'' then php_http_url_parse env (t @ SP # r) (length t) PHP_HTTP_URL_STDFLAGS
      else php_http_url_parse_authority env (t @ SP # r) (length t) PHP_HTTP_URL_STDFLAGS) = Some u" using t(3) by simp
  show ?thesis
    unfolding parse_request_def Let_def sp option.case url bk dt lt(3) u by (simp only: lt if_True) simp
qed

lemma info_parse_request_printed:
  assumes ok: "printable_request env v m u" "unat (ver_minor v) \<le> 9" and E: "at_line_end E"
  shows "php_http_info_parse env info0 (m @ SP # request_target (Some m) (Some u) @ SP # ''HTTP/'' @ ver_str v @ E) =
    Some (True, \<lparr>info_type = PHP_HTTP_REQUEST, info_version = v, info_data = InfoRequest (Some m) (Some u)\<rparr>)"
proof -
  define t where "t = request_target (Some m) (Some u)"
  define pre where "pre = m @ SP # t @ SP # ''HTTP/'' @ ver_str v @ E"
  have 1: "unat (ver_major v) \<le> 1" and m: "m \<noteq> []" "\<forall>c\<in>set m. word_char c"
    and fresh: "memnstr (m @ SP # t) ''HTTP/'' = None" using ok(1) by (simp_all add: printable_request_def t_def)
  from ver_digits [OF 1 ok(2)] obtain a b where vs: "ver_str v = [a, CHR ''.'', b]" "word_char a" "word_char b" "ver_major v < 2"
    and vp: "\<And>r. php_http_version_parse (''HTTP/'' @ ver_str v @ r) = Some v" by blast
  have tch: "\<forall>c\<in>set t. word_char c" using request_target_parsed(2) [OF ok(1), of "'' ''"] by (simp add: t_def)
  let ?line = "m @ SP # t @ SP # ''HTTP/'' @ ver_str v" and ?http = "Suc (length (m @ SP # t))"
  have "\<forall>c\<in>set ''HTTP/ .''. line_char c" by (auto simp: line_char_def is_eol_def)
  then have lc: "\<forall>c\<in>set ?line. line_char c" using m(2) tch vs(2,3) unfolding vs(1) word_char_def by auto
  from line_end_line [OF lc E] have fin: "line_end pre = length ?line" by (simp add: pre_def)
  have "pre = ?line @ E" by (simp add: pre_def)
  then have "take (length ?line) pre = ?line" by (metis append_eq_conv_conj)
  then have http: "memnstr (take (line_end pre) pre) ''HTTP/'' = Some ?http"
    using memnstr_behind [OF fresh, of SP "ver_str v"] unfolding fin by simp
  have dr: "drop ?http pre = ''HTTP/'' @ ver_str v @ E" by (simp add: pre_def)
  have "?http + 8 = length ?line" unfolding vs(1) by simp
  then have rd8: "rd pre (?http + 8) = rd E 0" using rd_append [of ?line E 0] \<open>pre = ?line @ E\<close> by (simp only: add_0_right)
  have rdsp: "rd pre (?http - 1) = SP" using rd_mid [of "m @ SP # t" SP] by (simp add: pre_def)
  have ve: "version_end pre ?http v = ?http + 8" using vs(4) by (simp add: version_end_def)
  have c: "rd E 0 = NUL \<or> isspace (rd E 0)" "rd E 0 = NUL \<or> rd E 0 = CR \<or> rd E 0 = LF"
    using E by (auto simp: at_line_end_def ctype_simps)
  have ne: "cstr pre \<noteq> []" using m by (cases m) (auto simp: pre_def cstr_def word_char_def line_char_def)
  have "php_http_info_parse env info0 pre = parse_request env pre ?http (php_http_info_init\<lparr>info_version := v\<rparr>)"
    unfolding php_http_info_parse_def Let_def http option.case dr vp ve rd8 rdsp using ne c by auto
  also have "\<dots> = Some (True, (php_http_info_init\<lparr>info_version := v\<rparr>)\<lparr>info_type := PHP_HTTP_REQUEST, info_data := InfoRequest (Some m) (Some u)\<rparr>)"
    using parse_request_printed [OF ok(1), of "''HTTP/'' @ ver_str v @ E", folded t_def] by (simp add: pre_def)
  finally show ?thesis by (simp add: pre_def t_def php_http_info_init_def)
qed


lemma dec_three:
  assumes "100 \<le> n" "n \<le> 999"
  shows "dec n = map digit_chr [n div 100, n div 10 mod 10, n mod 10]"
proof -
  have "\<not> n < 10" "\<not> n div 10 < 10" "n div 10 div 10 < 10" "n div 10 div 10 = n div 100"
    using assms by (auto simp: div_mult2_eq [symmetric])
  then show ?thesis
    by (simp add: print_num.simps [of 10 n] print_num.simps [of 10 "n div 10"] print_num.simps [of 10 "n div 100"])
qed

lemma schar_digit_chr: "d < 10 \<Longrightarrow> schar (digit_chr d) - 48 = int d"
  by (simp add: digit_chr_def schar_def)

lemma status_code_value:
  assumes "100 \<le> (code :: 32 word)" "code \<le> 599"
  obtains a b c where "dec (unat code) = [a, b, c]" "print_long (sint code) = [a, b, c]" "a \<noteq> SP" "\<forall>d\<in>set [a, b, c]. word_char d"
    "word_of_int (100 * (schar a - 48)) + word_of_int (10 * (schar b - 48)) + word_of_int (schar c - 48) = code"
proof -
  let ?n = "unat code"
  have n: "100 \<le> ?n" "?n \<le> 599" using assms by (simp_all add: word_le_nat_alt)
  have d: "dec ?n = [digit_chr (?n div 100), digit_chr (?n div 10 mod 10), digit_chr (?n mod 10)]"
    using dec_three [of ?n] n by simp
  have sd: "schar (digit_chr (?n div 100)) - 48 = int (?n div 100)"
    "schar (digit_chr (?n div 10 mod 10)) - 48 = int (?n div 10 mod 10)" "schar (digit_chr (?n mod 10)) - 48 = int (?n mod 10)"
    using n by (intro schar_digit_chr; simp)+
  have "100 * (?n div 100) + 10 * (?n div 10 mod 10) + ?n mod 10 = ?n"
  proof -
    have "?n div 100 = ?n div 10 div 10" using div_mult2_eq [of ?n 10 10] by simp
    then show ?thesis using div_mult_mod_eq [of ?n 10] div_mult_mod_eq [of "?n div 10" 10] by linarith
  qed
  then have "int (100 * (?n div 100) + 10 * (?n div 10 mod 10) + ?n mod 10) = int ?n" by (rule arg_cong)
  then have "100 * int (?n div 100) + 10 * int (?n div 10 mod 10) + int (?n mod 10) = int ?n"
    by (simp only: of_nat_add of_nat_mult of_nat_numeral)
  then have "(word_of_int (100 * int (?n div 100) + 10 * int (?n div 10 mod 10) + int (?n mod 10)) :: 32 word) = word_of_int (int ?n)"
    by (rule arg_cong)
  then have val: "word_of_int (100 * int (?n div 100)) + word_of_int (10 * int (?n div 10 mod 10)) + word_of_int (int (?n mod 10)) = code"
    by (simp only: of_int_add) simp
  have s: "sint code = int ?n"
  proof -
    have "uint code = int ?n" by simp
    moreover have "int ?n < 2147483648" using n by linarith
    moreover have "0 \<le> uint code" by simp
    ultimately have "signed_take_bit 31 (uint code) = uint code"
      by (intro signed_take_bit_int_eq_self) (simp_all add: order_trans [of _ 0])
    then show ?thesis by (simp add: sint_uint)
  qed
  have w: "\<forall>d\<in>set (dec ?n). word_char d" by (rule dec_isword)
  show thesis
  proof (rule that [OF d])
    show "print_long (sint code) = [digit_chr (?n div 100), digit_chr (?n div 10 mod 10), digit_chr (?n mod 10)]"
      unfolding s print_long_def using d by simp
  qed (use w [unfolded d] in \<open>simp add: word_char_def\<close>, use w [unfolded d] in simp, use val [folded sd] in simp)
qed


lemma response_version:
  assumes "printable_response v code status" "unat (ver_minor v) \<le> 9"
  shows "php_http_version_parse (''HTTP/'' @ ver_str v @ SP # r) = Some v"
    "version_end (''HTTP/'' @ ver_str v @ SP # r) 0 v = length (''HTTP/'' @ ver_str v)"
    "\<forall>c\<in>set (ver_str v). line_char c"
proof -
  have "unat (ver_major v) \<le> 1 \<or> ver_major v = 2"
    using assms(1) unat_arith_simps(3) [of "ver_major v" 2] by (auto simp: printable_response_def)
  then consider "unat (ver_major v) \<le> 1" | "ver_major v = 2" "ver_minor v = 0"
    using assms(1) by (auto simp: printable_response_def)
  then have "php_http_version_parse (''HTTP/'' @ ver_str v @ SP # r) = Some v \<and>
      version_end (''HTTP/'' @ ver_str v @ SP # r) 0 v = length (''HTTP/'' @ ver_str v) \<and> (\<forall>c\<in>set (ver_str v). line_char c)"
  proof cases
    case 1
    from ver_digits [OF 1 assms(2)] obtain a b where vs: "ver_str v = [a, CHR ''.'', b]" "word_char a" "word_char b" "ver_major v < 2"
      and vp: "\<And>r. php_http_version_parse (''HTTP/'' @ ver_str v @ r) = Some v" by blast
    have "line_char (CHR ''.'')" by (simp add: line_char_def is_eol_def)
    with vs(2-4) show ?thesis unfolding vp by (auto simp: version_end_def word_char_def vs(1))
  next
    case 2
    have vs: "ver_str v = ''2''" using 2 by (simp add: ver_str_def)
    have "char_of (50 :: nat) = CHR ''2''" by code_simp
    then have "php_http_version_parse (''HTTP/'' @ ver_str v @ SP # r) = Some v"
      unfolding vs using version_digits_space [of 2 r] 2 by (simp add: php_http_version_init_def)
    moreover have "line_char (CHR ''2'')" by (simp add: line_char_def is_eol_def)
    ultimately show ?thesis using 2 by (simp add: vs version_end_def rd_def)
  qed
  then show "php_http_version_parse (''HTTP/'' @ ver_str v @ SP # r) = Some v"
    "version_end (''HTTP/'' @ ver_str v @ SP # r) 0 v = length (''HTTP/'' @ ver_str v)"
    "\<forall>c\<in>set (ver_str v). line_char c" by simp_all
qed


lemma parse_status_printed:
  assumes ok: "printable_response v code status" and off: "off = length V" and V: "pre = V @ SP # status_text code status @ E"
    and fin: "fin = length (V @ SP # status_text code status)"
  shows "parse_status pre off fin info = Some (True, info\<lparr>info_type := PHP_HTTP_RESPONSE, info_data := InfoResponse code status\<rparr>)"
proof -
  from ok have code: "100 \<le> code" "code \<le> 599" by (simp_all add: printable_response_def)
  then have nz: "code \<noteq> 0" "\<not> (code < 100 \<or> 599 < code)" by (auto simp: not_less)
  from status_code_value [OF code] obtain a b c where abc: "print_long (sint code) = [a, b, c]" "a \<noteq> SP"
    and val: "word_of_int (100 * (schar a - 48)) + word_of_int (10 * (schar b - 48)) + word_of_int (schar c - 48) = code" by metis
  define S where "S = (case status of None \<Rightarrow> [] | Some s \<Rightarrow> SP # s)"
  have st: "status_text code status = [a, b, c] @ S"
    using ok abc(1) nz(1) by (auto simp: status_text_def S_def STR_PTR_def part_isset_def printable_response_def split: option.splits)
  have pre: "pre = V @ SP # a # b # c # S @ E" "pre = (V @ SP # a # b # [c]) @ S @ E" using V st by simp_all
  have sk: "skip_spaces pre off fin = Suc (length V)"
    unfolding pre(1) off using abc(2) by (intro skip_one_space) (simp_all add: fin)
  have rds: "rd pre (Suc (length V) + 0) = a" "rd pre (Suc (length V) + 1) = b" "rd pre (Suc (length V) + 2) = c"
    using rd_append [of V "SP # a # b # c # S @ E" 1] rd_append [of V "SP # a # b # c # S @ E" 2]
      rd_append [of V "SP # a # b # c # S @ E" 3] by (simp_all add: pre(1) numeral_2_eq_2 numeral_3_eq_3)
  have len: "\<not> length pre < Suc (length V) + 2" "Suc (length V) < fin" by (simp_all add: pre(1) fin st)
  show ?thesis
  proof (cases status)
    case None
    then have "\<not> Suc (length V) + 3 < fin" by (simp add: fin st [unfolded None] S_def)
    then show ?thesis
      unfolding parse_status_def Let_def sk rds val using len nz None by (simp only: if_True if_False simp_thms) simp
  next
    case (Some s)
    with ok have s: "s \<noteq> []" "hd s \<noteq> SP" by (simp_all add: printable_response_def)
    have "skip_spaces ((V @ SP # a # b # [c]) @ SP # s @ E) (length (V @ SP # a # b # [c])) fin = Suc (length (V @ SP # a # b # [c]))"
      using s by (intro skip_one_space) (simp_all add: fin st [unfolded Some] S_def Some)
    then have sk2: "skip_spaces pre (Suc (length V) + 3) fin = Suc (length V) + 4"
      by (simp add: pre(1) S_def Some eval_nat_numeral)
    have lt: "Suc (length V) + 3 < fin" "fin - (Suc (length V) + 4) = length s" using s(1) by (simp_all add: fin st [unfolded Some] S_def Some)
    have "drop (Suc (length V) + 4) pre = s @ E" by (simp add: pre(1) S_def Some)
    then have "take (fin - (Suc (length V) + 4)) (drop (Suc (length V) + 4) pre) = s" by (simp only: lt append_eq_conv_conj) simp
    then show ?thesis
      unfolding parse_status_def Let_def sk rds val sk2 using len nz lt(1) Some by (simp only: if_True if_False simp_thms) simp
  qed
qed

lemma info_parse_response_printed:
  assumes ok: "printable_response v code status" "unat (ver_minor v) \<le> 9" and E: "at_line_end E"
  shows "php_http_info_parse env info0 (''HTTP/'' @ ver_str v @ SP # status_text code status @ E) =
    Some (True, \<lparr>info_type = PHP_HTTP_RESPONSE, info_version = v, info_data = InfoResponse code status\<rparr>)"
proof -
  define V where "V = ''HTTP/'' @ ver_str v"
  define pre where "pre = V @ SP # status_text code status @ E"
  note v = response_version(1,2) [OF ok, of "status_text code status @ E"] response_version(3) [OF ok]
  have pre: "pre = ''HTTP/'' @ ver_str v @ SP # status_text code status @ E" by (simp add: pre_def V_def)
  from ok have code: "100 \<le> code" "code \<le> 599" by (simp_all add: printable_response_def)
  then have nz: "code \<noteq> 0" by auto
  obtain a b c where abc: "print_long (sint code) = [a, b, c]" "\<forall>d\<in>set [a, b, c]. word_char d"
    using status_code_value [OF code] by metis
  have lcs: "\<forall>c\<in>set ''HTTP/ ''. line_char c" by (auto simp: line_char_def is_eol_def)
  have "\<forall>c\<in>set (status_text code status). line_char c"
    using ok(1) abc nz lcs by (auto simp: status_text_def STR_PTR_def printable_response_def word_char_def split: option.splits)
  with lcs v(3) have "\<forall>c\<in>set (V @ SP # status_text code status). line_char c" unfolding V_def by auto
  from line_end_line [OF this E] have fin: "line_end pre = length (V @ SP # status_text code status)" by (simp add: pre_def)
  have "take (line_end pre) pre = ''HTTP/'' @ ver_str v @ SP # status_text code status"
    unfolding fin by (simp add: pre_def V_def)
  then have http: "memnstr (take (line_end pre) pre) ''HTTP/'' = Some 0" by (simp only: memnstr_by_prefix)
  have vp: "php_http_version_parse (drop 0 pre) = Some v" and ve: "version_end pre 0 v = length V"
    using v(1,2) by (simp_all only: pre V_def drop_0)
  have sp: "rd pre (length V) = SP" unfolding pre_def by (rule rd_mid)
  have ne: "cstr pre \<noteq> []" by (simp add: pre cstr_def)
  have "php_http_info_parse env info0 pre = parse_status pre (length V) (line_end pre) (php_http_info_init\<lparr>info_version := v\<rparr>)"
    unfolding php_http_info_parse_def Let_def http option.case vp ve sp using ne by (simp add: ctype_simps)
  also have "\<dots> = Some (True, (php_http_info_init\<lparr>info_version := v\<rparr>)\<lparr>info_type := PHP_HTTP_RESPONSE, info_data := InfoResponse code status\<rparr>)"
    by (rule parse_status_printed [OF ok(1) refl pre_def fin])
  finally show ?thesis by (simp add: pre php_http_info_init_def)
qed

text \<open>C27. Parsing inverts printing of start lines: a request (method without spaces, a target that
  needs no escapes, an authority for CONNECT; version below 2; no \<open>HTTP/\<close> in front of the version) or a
  response (status 100 to 599, with or without a reason phrase) is printed to a line that parses,
  before any line end, to exactly the same structure, whatever the structure held before.\<close>

theorem info_print_parse:
  assumes "printable_info env info" "at_line_end eol"
  shows "\<exists>line. php_http_info_to_string info eol = Some line \<and> php_http_info_parse env info0 line = Some (True, info)"
proof -
  let ?v = "info_version info"
  have v: "ver_major ?v \<noteq> 0 \<or> ver_minor ?v \<noteq> 0" "unat (ver_minor ?v) \<le> 9" using assms(1) by (auto simp: printable_info_def)
  consider m u where "info_type info = PHP_HTTP_REQUEST" "info_data info = InfoRequest (Some m) (Some u)" "printable_request env ?v m u"
    | code status where "info_type info = PHP_HTTP_RESPONSE" "info_data info = InfoResponse code status" "printable_response ?v code status"
    using assms(1) by (auto simp: printable_info_def split: php_http_info_type.splits info_union.splits option.splits)
  then show ?thesis
  proof cases
    case 1
    then have "php_http_info_to_string info eol =
        Some (m @ SP # request_target (Some m) (Some u) @ SP # ''HTTP/'' @ ver_str ?v @ eol)"
      using v(1) by (auto simp: php_http_info_to_string_def ver_str_def Let_def)
    with info_parse_request_printed [OF 1(3) v(2) assms(2), of info0] 1(1,2) show ?thesis by (cases info) auto
  next
    case 2
    then have "php_http_info_to_string info eol = Some (''HTTP/'' @ ver_str ?v @ SP # status_text code status @ eol)"
      using v(1) by (auto simp: php_http_info_to_string_def ver_str_def Let_def)
    with info_parse_response_printed [OF 2(3) v(2) assms(2), of env info0] 2(1,2) show ?thesis by (cases info) auto
  qed
qed

definition sample_request :: php_http_info where
  "sample_request = \<lparr>info_type = PHP_HTTP_REQUEST, info_version = \<lparr>ver_major = 1, ver_minor = 1\<rparr>,
     info_data = InfoRequest (Some ''GET'') (Some sample_url)\<rparr>"

lemma sample_request_printable: "printable_info ascii_env sample_request" "at_line_end [CR, LF]"
  by code_simp+

theorem info_print_parse_witness:
  "\<exists>line. php_http_info_to_string sample_request [CR, LF] = Some line \<and>
     php_http_info_parse ascii_env php_http_info_init line = Some (True, sample_request)"
  by (rule info_print_parse [OF sample_request_printable])

end
