(* ===== verification/Http_Header_Parser.thy ===== *)
theory Http_Header_Parser
  imports Http_Info
begin

text \<open>
  The header parser (\<open>php_http_header_parser.c\<close>): a state machine over the buffer of the caller. The
  buffer is its byte string (\<open>Http_Buffer\<close> shows that cutting, fixing and appending refine operations
  on that string; a length that exceeds the data is clamped, so the byte behind the data, which
  \<open>php_http_locate_bin_eol\<close> may look at, has no influence). A result \<^const>\<open>None\<close> is a read outside of
  memory. The constructors of the states drop the prefix \<open>PHP_HTTP_HEADER_PARSER_STATE_\<close>.

  The table of headers is a value that is handed through; a callback gets the current table and
  yields the one to go on with (the code switches a pointer between the tables of messages).
\<close>

section \<open>State\<close>

datatype php_http_header_parser_state =
    HP_FAILURE | HP_START | HP_KEY | HP_VALUE | HP_VALUE_EX | HP_HEADER_DONE | HP_DONE

record php_http_header_parser =
  hp_stack :: "php_http_header_parser_state list"
  hp_info :: php_http_info
  hp_key :: "bytes option"
  hp_val :: "bytes option"

definition php_http_header_parser_init :: php_http_header_parser where
  "php_http_header_parser_init = \<lparr>hp_stack = [], hp_info = php_http_info_init, hp_key = None, hp_val = None\<rparr>"

text \<open>The table \<open>php_http_header_parser_states\<close>; the entry of the failure state is in front of it.\<close>

fun hp_need_data :: "php_http_header_parser_state \<Rightarrow> bool option" where
  "hp_need_data HP_FAILURE = None"
| "hp_need_data HP_START = Some True"
| "hp_need_data HP_KEY = Some True"
| "hp_need_data HP_VALUE = Some True"
| "hp_need_data HP_VALUE_EX = Some False"
| "hp_need_data HP_HEADER_DONE = Some False"
| "hp_need_data HP_DONE = Some False"

definition php_http_header_parser_state_push ::
  "php_http_header_parser_state \<Rightarrow> php_http_header_parser \<Rightarrow> php_http_header_parser" where
  "php_http_header_parser_state_push st p = p\<lparr>hp_stack := st # hp_stack p\<rparr>"

definition php_http_header_parser_state_is :: "php_http_header_parser \<Rightarrow> php_http_header_parser_state" where
  "php_http_header_parser_state_is p = (case hp_stack p of [] \<Rightarrow> HP_START | st # _ \<Rightarrow> st)"

definition php_http_header_parser_state_pop ::
  "php_http_header_parser \<Rightarrow> php_http_header_parser_state \<times> php_http_header_parser" where
  "php_http_header_parser_state_pop p = (php_http_header_parser_state_is p, p\<lparr>hp_stack := tl (hp_stack p)\<rparr>)"

definition php_http_header_parser_dtor :: "php_http_header_parser \<Rightarrow> php_http_header_parser" where
  "php_http_header_parser_dtor p =
     p\<lparr>hp_stack := [], hp_info := php_http_info_dtor (hp_info p), hp_key := None, hp_val := None\<rparr>"

definition PHP_HTTP_HEADER_PARSER_CLEANUP :: "32 word" where "PHP_HTTP_HEADER_PARSER_CLEANUP = 0x1"

definition PHP_HTTP_HEADER_NAME_CHARS :: bytes where
  "PHP_HTTP_HEADER_NAME_CHARS =
     ''!#$%&'' @ CHR 0x27 # ''*+-.^_`|~1234567890abcdefghijklmnopqrstuvwxyzABCDEFGHIJKLMNOPQRSTUVWXYZ''"

section \<open>Storing a header\<close>

text \<open>A further value of a header turns the entry into a list.\<close>

definition header_add :: "hashtable \<Rightarrow> bytes \<Rightarrow> bytes \<Rightarrow> hashtable" where
  "header_add headers key val =
     (let k = symtable_key (php_http_pretty_key key True True) in
      case zend_hash_find headers k of
        Some exist \<Rightarrow> zend_hash_update headers k (zarr (zend_hash_next_index_insert (convert_to_array exist) (ZStr val)))
      | None \<Rightarrow> zend_hash_update headers k (ZStr val))"

section \<open>Steps\<close>

text \<open>\<open>SET_ADD_VAL\<close>: a trimmed piece of a value is appended after a space.\<close>

definition trim_spaces :: "bytes \<Rightarrow> bytes" where
  "trim_spaces s = rev (dropWhile isspace (rev (dropWhile isspace s)))"

definition set_add_val :: "bytes \<Rightarrow> bytes option \<Rightarrow> bytes option" where
  "set_add_val s val =
     (let v = trim_spaces s in
      if v \<noteq> [] then Some ((case val of Some w \<Rightarrow> w @ SP # v | None \<Rightarrow> v)) else val)"

type_synonym 'm info_callback = "'m \<Rightarrow> hashtable option \<Rightarrow> php_http_info option \<Rightarrow> 'm \<times> hashtable option"

record 'm hp_cfg =
  hc_parser :: php_http_header_parser
  hc_buf :: bytes
  hc_headers :: "hashtable option"
  hc_arg :: 'm

text \<open>One turn of the loop either goes on or returns a state; both with the new configuration.\<close>

datatype 'm hp_turn = HP_Next "'m hp_cfg" | HP_Return php_http_header_parser_state "'m hp_cfg"

definition hp_push :: "php_http_header_parser_state \<Rightarrow> 'm hp_cfg \<Rightarrow> 'm hp_cfg" where
  "hp_push st c = c\<lparr>hc_parser := php_http_header_parser_state_push st (hc_parser c)\<rparr>"

definition hp_return :: "php_http_header_parser_state \<Rightarrow> 'm hp_cfg \<Rightarrow> 'm hp_turn" where
  "hp_return st c = HP_Return st (hp_push st c)"

definition hp_cut :: "nat \<Rightarrow> 'm hp_cfg \<Rightarrow> 'm hp_cfg" where
  "hp_cut n c = c\<lparr>hc_buf := drop n (hc_buf c)\<rparr>"

definition hp_callback :: "'m info_callback option \<Rightarrow> php_http_info option \<Rightarrow> 'm hp_cfg \<Rightarrow> 'm hp_cfg" where
  "hp_callback cb info c =
     (case cb of
        None \<Rightarrow> c
      | Some f \<Rightarrow> let (m, h) = f (hc_arg c) (hc_headers c) info in c\<lparr>hc_arg := m, hc_headers := h\<rparr>)"

definition hp_start :: "'m hp_cfg \<Rightarrow> 'm hp_turn" where
  "hp_start c = HP_Next (hp_push HP_KEY (c\<lparr>hc_buf := dropWhile isspace (hc_buf c)\<rparr>))"

text \<open>State \<open>KEY\<close> behind the attempt to read a start line.\<close>

definition hp_key_line :: "32 word \<Rightarrow> (nat \<times> nat) option \<Rightarrow> 'm hp_cfg \<Rightarrow> 'm hp_turn" where
  "hp_key_line flags eol c =
     (let buf = hc_buf c in
      case index_of (\<lambda>x. x = CHR '':'') buf of
        Some colon \<Rightarrow>
          if (case eol of None \<Rightarrow> True | Some (e, _) \<Rightarrow> colon < e)
          then let key = take colon buf in
            if strspn key PHP_HTTP_HEADER_NAME_CHARS \<noteq> length key
            then hp_return HP_FAILURE (c\<lparr>hc_parser := (hc_parser c)\<lparr>hp_key := None\<rparr>\<rparr>)
            else let v = dropWhile (\<lambda>x. isspace x \<and> x \<noteq> LF \<and> x \<noteq> CR) (drop (Suc colon) buf) in
              HP_Next (hp_push HP_VALUE (c\<lparr>hc_buf := v, hc_parser := (hc_parser c)\<lparr>hp_key := Some key\<rparr>\<rparr>))
          else if eol \<noteq> None \<or> flags AND PHP_HTTP_HEADER_PARSER_CLEANUP \<noteq> 0 then hp_return HP_FAILURE c
          else hp_return HP_KEY c
      | None \<Rightarrow>
          if eol \<noteq> None \<or> flags AND PHP_HTTP_HEADER_PARSER_CLEANUP \<noteq> 0 then hp_return HP_FAILURE c
          else hp_return HP_KEY c)"

definition hp_key_step ::
  "url_env \<Rightarrow> 32 word \<Rightarrow> 'm info_callback option \<Rightarrow> 'm hp_cfg \<Rightarrow> 'm hp_turn option" where
  "hp_key_step env flags cb c =
     (let buf = hc_buf c; eol = php_http_locate_bin_eol buf NUL in
      case eol of
        Some (0, n) \<Rightarrow> Some (HP_Next (hp_push HP_DONE (hp_cut n c)))
      | _ \<Rightarrow>
          (case php_http_info_parse env (hp_info (hc_parser c)) buf of
             None \<Rightarrow> None
           | Some (ok, info) \<Rightarrow>
               let c = c\<lparr>hc_parser := (hc_parser c)\<lparr>hp_info := info\<rparr>\<rparr> in
               if ok
               then let c = hp_callback cb (Some info) c;
                        c = c\<lparr>hc_parser := (hc_parser c)\<lparr>hp_info := php_http_info_dtor info\<rparr>\<rparr>
                    in Some (HP_Next (hp_push HP_HEADER_DONE
                         (hp_cut (case eol of Some (e, n) \<Rightarrow> e + n | None \<Rightarrow> length buf) c)))
               else Some (hp_key_line flags eol c)))"

definition hp_value_step :: "32 word \<Rightarrow> 'm hp_cfg \<Rightarrow> 'm hp_turn" where
  "hp_value_step flags c =
     (let buf = hc_buf c; add = (\<lambda>s c. c\<lparr>hc_parser := (hc_parser c)\<lparr>hp_val := set_add_val s (hp_val (hc_parser c))\<rparr>\<rparr>) in
      case php_http_locate_bin_eol buf NUL of
        Some (e, n) \<Rightarrow> HP_Next (hp_push HP_VALUE_EX (hp_cut (e + n) (add (take e buf) c)))
      | None \<Rightarrow>
          if flags AND PHP_HTTP_HEADER_PARSER_CLEANUP \<noteq> 0
          then HP_Next (hp_push HP_HEADER_DONE (if buf \<noteq> [] then hp_cut (length buf) (add buf c) else c))
          else hp_return HP_VALUE c)"

definition hp_value_ex_step :: "32 word \<Rightarrow> 'm hp_cfg \<Rightarrow> 'm hp_turn" where
  "hp_value_ex_step flags c =
     (let buf = hc_buf c in
      if buf \<noteq> [] \<and> (hd buf = SP \<or> hd buf = TAB) then HP_Next (hp_push HP_VALUE c)
      else if buf \<noteq> [] \<or> flags AND PHP_HTTP_HEADER_PARSER_CLEANUP \<noteq> 0 then HP_Next (hp_push HP_HEADER_DONE c)
      else hp_return HP_VALUE_EX c)"

definition hp_header_done_step :: "'m info_callback option \<Rightarrow> 'm hp_cfg \<Rightarrow> 'm hp_turn option" where
  "hp_header_done_step cb c =
     (let clear = (\<lambda>c. c\<lparr>hc_parser := (hc_parser c)\<lparr>hp_key := None, hp_val := None\<rparr>\<rparr>) in
      case (hp_key (hc_parser c), hp_val (hc_parser c)) of
        (Some key, Some val) \<Rightarrow>
          if length (cstr val) \<noteq> length val then Some (hp_return HP_FAILURE (clear c))
          else let c = (if hc_headers c = None then hp_callback cb None c else c) in
            (case hc_headers c of
               None \<Rightarrow> None
             | Some h \<Rightarrow> Some (HP_Next (hp_push HP_KEY (clear (c\<lparr>hc_headers := Some (header_add h key val)\<rparr>)))))
      | _ \<Rightarrow> Some (HP_Next (hp_push HP_KEY (clear c))))"

text \<open>The body of the loop.\<close>

definition hp_turn_of ::
  "url_env \<Rightarrow> 32 word \<Rightarrow> 'm info_callback option \<Rightarrow> 'm hp_cfg \<Rightarrow> 'm hp_turn option" where
  "hp_turn_of env flags cb c =
     (let (st, p) = php_http_header_parser_state_pop (hc_parser c); c = c\<lparr>hc_parser := p\<rparr> in
      case st of
        HP_FAILURE \<Rightarrow> Some (hp_return HP_FAILURE c)
      | HP_START \<Rightarrow> Some (hp_start c)
      | HP_KEY \<Rightarrow> hp_key_step env flags cb c
      | HP_VALUE \<Rightarrow> Some (hp_value_step flags c)
      | HP_VALUE_EX \<Rightarrow> Some (hp_value_ex_step flags c)
      | HP_HEADER_DONE \<Rightarrow> hp_header_done_step cb c
      | HP_DONE \<Rightarrow> Some (HP_Return HP_DONE c))"

text \<open>\<open>while (buffer->used || !states[state].need_data)\<close>: whether the loop goes on.\<close>

definition hp_continue :: "'m hp_cfg \<Rightarrow> bool option" where
  "hp_continue c = (if hc_buf c \<noteq> [] then Some True
                    else map_option Not (hp_need_data (php_http_header_parser_state_is (hc_parser c))))"

section \<open>The loop\<close>

text \<open>Every turn that goes on shortens the buffer, or keeps it and moves to a state of lower rank.\<close>

fun hp_rank :: "php_http_header_parser_state \<Rightarrow> nat" where
  "hp_rank HP_VALUE_EX = 2"
| "hp_rank HP_START = 1"
| "hp_rank HP_HEADER_DONE = 1"
| "hp_rank _ = 0"

definition hp_measure :: "'m hp_cfg \<Rightarrow> nat" where
  "hp_measure c = 3 * length (hc_buf c) + hp_rank (php_http_header_parser_state_is (hc_parser c))"

lemma state_is_push [simp]:
  "php_http_header_parser_state_is (php_http_header_parser_state_push st p) = st"
  "php_http_header_parser_state_is (p\<lparr>hp_stack := st # s\<rparr>) = st"
  by (simp_all add: php_http_header_parser_state_push_def php_http_header_parser_state_is_def)

lemma hp_push_simps [simp]:
  "hc_buf (hp_push st c) = hc_buf c" "hc_headers (hp_push st c) = hc_headers c" "hc_arg (hp_push st c) = hc_arg c"
  "hc_parser (hp_push st c) = php_http_header_parser_state_push st (hc_parser c)"
  by (simp_all add: hp_push_def)

lemma hp_cut_simps [simp]:
  "hc_buf (hp_cut n c) = drop n (hc_buf c)" "hc_headers (hp_cut n c) = hc_headers c" "hc_arg (hp_cut n c) = hc_arg c"
  "hc_parser (hp_cut n c) = hc_parser c"
  by (simp_all add: hp_cut_def)

lemma hp_callback_simps [simp]:
  "hc_buf (hp_callback cb i c) = hc_buf c" "hc_parser (hp_callback cb i c) = hc_parser c"
  by (auto simp: hp_callback_def split: option.splits prod.splits)

lemma hp_key_shrinks:
  assumes "hp_key_step env flags cb c = Some (HP_Next c')" "hc_buf c \<noteq> []"
  shows "length (hc_buf c') < length (hc_buf c)"
  using assms locate_bin_eol_SomeD(1,4) [of "hc_buf c" NUL] index_of_SomeD [of _ "hc_buf c"]
  by (fastforce simp: hp_key_step_def hp_key_line_def hp_return_def Let_def split: option.splits if_splits nat.splits prod.splits
      intro: le_less_trans [OF length_dropWhile_le])

lemma hp_value_shrinks:
  assumes "hp_value_step flags c = HP_Next c'" "hc_buf c \<noteq> []"
  shows "length (hc_buf c') < length (hc_buf c)"
  using assms locate_bin_eol_SomeD(1,4) [of "hc_buf c" NUL]
  by (fastforce simp: hp_value_step_def hp_return_def Let_def split: option.splits if_splits prod.splits)


lemma hp_turn_decreases:
  assumes "hp_continue c = Some True" "hp_turn_of env flags cb c = Some (HP_Next c')"
  shows "hp_measure c' < hp_measure c"
proof -
  let ?st = "php_http_header_parser_state_is (hc_parser c)" and ?d = "c\<lparr>hc_parser := (hc_parser c)\<lparr>hp_stack := tl (hp_stack (hc_parser c))\<rparr>\<rparr>"
  have ne: "hc_buf c \<noteq> []" if "hp_need_data ?st = Some True" using assms(1) that by (auto simp: hp_continue_def split: if_splits)
  have shrink: ?thesis if "length (hc_buf c') < length (hc_buf c)"
    using that by (cases "php_http_header_parser_state_is (hc_parser c')") (simp_all add: hp_measure_def)
  note t = assms(2) [unfolded hp_turn_of_def php_http_header_parser_state_pop_def]
  show ?thesis
  proof (cases ?st)
    case HP_START
    with t have "c' = hp_push HP_KEY (?d\<lparr>hc_buf := dropWhile isspace (hc_buf c)\<rparr>)" by (simp add: hp_start_def)
    then show ?thesis using HP_START length_dropWhile_le [of isspace "hc_buf c"] by (simp add: hp_measure_def)
  next
    case HP_KEY
    with t have "hp_key_step env flags cb ?d = Some (HP_Next c')" by simp
    from hp_key_shrinks [OF this] ne HP_KEY show ?thesis by (intro shrink) simp
  next
    case HP_VALUE
    with t have "hp_value_step flags ?d = HP_Next c'" by simp
    from hp_value_shrinks [OF this] ne HP_VALUE show ?thesis by (intro shrink) simp
  next
    case HP_VALUE_EX
    with t show ?thesis
      by (auto simp: hp_value_ex_step_def hp_return_def hp_measure_def Let_def split: if_splits)
  next
    case HP_HEADER_DONE
    with t show ?thesis
      by (auto simp: hp_header_done_step_def hp_return_def hp_measure_def Let_def split: if_splits option.splits)
  qed (use t in \<open>simp_all add: hp_return_def\<close>)
qed

function hp_parse ::
  "url_env \<Rightarrow> 32 word \<Rightarrow> 'm info_callback option \<Rightarrow> 'm hp_cfg \<Rightarrow> (php_http_header_parser_state \<times> 'm hp_cfg) option" where
  "hp_parse env flags cb c =
     (case hp_continue c of
        None \<Rightarrow> None
      | Some False \<Rightarrow> Some (php_http_header_parser_state_is (hc_parser c), c)
      | Some True \<Rightarrow>
          (case hp_turn_of env flags cb c of
             None \<Rightarrow> None
           | Some (HP_Return st c') \<Rightarrow> Some (st, c')
           | Some (HP_Next c') \<Rightarrow> hp_parse env flags cb c'))"
  by pat_completeness auto
termination
  by (relation "measure (\<lambda>(_, _, _, c). hp_measure c)") (auto dest: hp_turn_decreases)

declare hp_parse.simps [simp del]

text \<open>The entry point, with the buffer, the table of headers and the argument of the callback.\<close>

definition php_http_header_parser_parse ::
  "url_env \<Rightarrow> php_http_header_parser \<Rightarrow> bytes \<Rightarrow> 32 word \<Rightarrow> hashtable option \<Rightarrow> 'm info_callback option \<Rightarrow> 'm \<Rightarrow>
     (php_http_header_parser_state \<times> 'm hp_cfg) option" where
  "php_http_header_parser_parse env parser buffer flags headers cb arg =
     hp_parse env flags cb \<lparr>hc_parser = parser, hc_buf = buffer, hc_headers = headers, hc_arg = arg\<rparr>"


section \<open>Reachable configurations\<close>

text \<open>
  The configurations a client can bring about: it appends data to the buffer and lets the loop turn,
  with any flags. A turn that returns leaves a configuration to go on with.
\<close>

inductive hp_reachable :: "url_env \<Rightarrow> 'm info_callback option \<Rightarrow> hashtable option \<Rightarrow> 'm hp_cfg \<Rightarrow> bool"
  for env cb h where
  init: "hp_reachable env cb h \<lparr>hc_parser = php_http_header_parser_init, hc_buf = [], hc_headers = h, hc_arg = m\<rparr>"
| feed: "hp_reachable env cb h c \<Longrightarrow> hp_reachable env cb h (c\<lparr>hc_buf := hc_buf c @ data\<rparr>)"
| turn: "hp_reachable env cb h c \<Longrightarrow> hp_continue c = Some True \<Longrightarrow> hp_turn_of env flags cb c = Some t \<Longrightarrow>
    t = HP_Next c' \<or> t = HP_Return st c' \<Longrightarrow> hp_reachable env cb h c'"

lemma hp_parse_reachable:
  "hp_parse env flags cb c = Some (st, c') \<Longrightarrow> hp_reachable env cb h c \<Longrightarrow> hp_reachable env cb h c'"
proof (induction env flags cb c rule: hp_parse.induct)
  case (1 env flags cb c)
  show ?case
  proof (cases "hp_continue c")
    case None
    with "1.prems"(1) show ?thesis by (simp add: hp_parse.simps [of env flags cb c])
  next
    case (Some b)
    show ?thesis
    proof (cases b)
      case False
      with Some "1.prems" show ?thesis by (simp add: hp_parse.simps [of env flags cb c])
    next
      case True
      with Some have go: "hp_continue c = Some True" by simp
      then obtain t where t: "hp_turn_of env flags cb c = Some t"
        using "1.prems"(1) by (auto simp: hp_parse.simps [of env flags cb c] split: option.splits)
      show ?thesis
      proof (cases t)
        case (HP_Next d)
        then have "hp_reachable env cb h d" using hp_reachable.turn [OF "1.prems"(2) go t] by blast
        moreover have "hp_parse env flags cb d = Some (st, c')"
          using "1.prems"(1) go t HP_Next by (simp add: hp_parse.simps [of env flags cb c])
        ultimately show ?thesis using "1.IH" Some True t HP_Next by blast
      next
        case (HP_Return st' d)
        then have "d = c'" using "1.prems"(1) go t by (simp add: hp_parse.simps [of env flags cb c])
        then show ?thesis using hp_reachable.turn [OF "1.prems"(2) go t] HP_Return by blast
      qed
    qed
  qed
qed

text \<open>What is stored: names are tokens, values have no line end and no terminator.\<close>

definition name_ok :: "bytes \<Rightarrow> bool" where "name_ok n \<longleftrightarrow> set n \<subseteq> set PHP_HTTP_HEADER_NAME_CHARS"
definition value_ok :: "bytes \<Rightarrow> bool" where "value_ok v \<longleftrightarrow> (\<forall>c\<in>set v. \<not> is_eol c \<and> c \<noteq> NUL)"

definition zvalue_ok :: "zval \<Rightarrow> bool" where
  "zvalue_ok z \<longleftrightarrow>
     (case z of
        ZStr v \<Rightarrow> value_ok v
      | ZArr _ es \<Rightarrow> (\<forall>e\<in>set es. case snd e of ZStr v \<Rightarrow> value_ok v | _ \<Rightarrow> False)
      | _ \<Rightarrow> False)"

definition headers_ok :: "hashtable \<Rightarrow> bool" where
  "headers_ok h \<longleftrightarrow> (\<forall>(k, z)\<in>set (snd h). zvalue_ok z \<and> (case k of KStr n \<Rightarrow> name_ok n | KInt _ \<Rightarrow> True))"

definition callback_ok :: "'m info_callback option \<Rightarrow> bool" where
  "callback_ok cb \<longleftrightarrow> (\<forall>f. cb = Some f \<longrightarrow> (\<forall>m h i. pred_option headers_ok h \<longrightarrow> pred_option headers_ok (snd (f m h i))))"

text \<open>The invariant: at most one state on the stack; a name is pending exactly while its value is read.\<close>

definition hp_inv :: "'m hp_cfg \<Rightarrow> bool" where
  "hp_inv c \<longleftrightarrow>
     (let p = hc_parser c; st = php_http_header_parser_state_is p in
      length (hp_stack p) \<le> 1 \<and> pred_option headers_ok (hc_headers c) \<and>
      pred_option name_ok (hp_key p) \<and> pred_option (\<lambda>v. v \<noteq> [] \<and> (\<forall>x\<in>set v. \<not> is_eol x)) (hp_val p) \<and>
      (st \<in> {HP_VALUE, HP_VALUE_EX} \<longrightarrow> hp_key p \<noteq> None) \<and>
      (st \<in> {HP_START, HP_KEY, HP_DONE, HP_FAILURE} \<longrightarrow> hp_key p = None \<and> hp_val p = None))"

lemma name_ok_pretty: "name_ok n \<Longrightarrow> name_ok (php_http_pretty_key n u x)"
proof -
  have "list_all (\<lambda>c. tolower c \<in> set PHP_HTTP_HEADER_NAME_CHARS \<and> toupper c \<in> set PHP_HTTP_HEADER_NAME_CHARS)
      PHP_HTTP_HEADER_NAME_CHARS \<and> CHR ''-'' \<in> set PHP_HTTP_HEADER_NAME_CHARS" by code_simp
  then have case_ok: "tolower c \<in> set PHP_HTTP_HEADER_NAME_CHARS" "toupper c \<in> set PHP_HTTP_HEADER_NAME_CHARS"
    "CHR ''-'' \<in> set PHP_HTTP_HEADER_NAME_CHARS"
    if "c \<in> set PHP_HTTP_HEADER_NAME_CHARS" for c
    using that by (simp_all add: list_all_iff)
  assume n: "name_ok n"
  have lp: "name_ok (pretty_key_loop u x w cs)" if "name_ok cs" for w cs
    using that by (induction u x w cs rule: pretty_key_loop.induct) (auto simp: name_ok_def case_ok)
  have cons: "name_ok (c # cs) \<longleftrightarrow> c \<in> set PHP_HTTP_HEADER_NAME_CHARS \<and> name_ok cs" for c cs by (simp add: name_ok_def)
  from n show ?thesis by (cases n) (simp_all add: php_http_pretty_key_def cons case_ok lp)
qed


lemma assoc_update_elems: "e \<in> set (assoc_update k v es) \<Longrightarrow> e = (k, v) \<or> e \<in> set es"
  by (induction es) (auto split: if_splits)

lemma headers_ok_update: "headers_ok h \<Longrightarrow> zvalue_ok z \<Longrightarrow> (case k of KStr n \<Rightarrow> name_ok n | KInt _ \<Rightarrow> True) \<Longrightarrow>
    headers_ok (zend_hash_update h k z)"
  by (auto simp: headers_ok_def zend_hash_update_def dest!: assoc_update_elems)

lemma zvalue_ok_append:
  assumes "zvalue_ok z" "value_ok v"
  shows "zvalue_ok (zarr (zend_hash_next_index_insert (convert_to_array z) (ZStr v)))"
proof (cases z)
  case (ZStr w)
  with assms show ?thesis
    by (auto simp: zvalue_ok_def zarr_def zend_hash_next_index_insert_def convert_to_array_def zend_hash_update_def zend_hash_init_def
        split: if_splits)
next
  case (ZArr n es)
  with assms show ?thesis
    by (auto simp: zvalue_ok_def zarr_def zend_hash_next_index_insert_def convert_to_array_def zend_hash_update_def
        dest!: assoc_update_elems)
qed (use assms in \<open>simp_all add: zvalue_ok_def\<close>)

lemma headers_ok_add: "headers_ok h \<Longrightarrow> name_ok n \<Longrightarrow> value_ok v \<Longrightarrow> headers_ok (header_add h n v)"
proof -
  assume h: "headers_ok h" "name_ok n" "value_ok v"
  let ?k = "symtable_key (php_http_pretty_key n True True)"
  have k: "case ?k of KStr m \<Rightarrow> name_ok m | KInt _ \<Rightarrow> True"
    using name_ok_pretty [OF h(2)] by (auto simp: symtable_key_def split: option.splits)
  show ?thesis
  proof (cases "zend_hash_find h ?k")
    case None
    then show ?thesis using headers_ok_update [OF h(1) _ k, of "ZStr v"] h(3) by (simp add: header_add_def zvalue_ok_def)
  next
    case (Some z)
    then have "zvalue_ok z" using h(1) by (auto simp: headers_ok_def zend_hash_find_def dest: map_of_SomeD)
    with Some headers_ok_update [OF h(1) zvalue_ok_append k] h(3) show ?thesis by (simp add: header_add_def)
  qed
qed

lemma trim_spaces_subset: "set (trim_spaces s) \<subseteq> set s"
  by (auto simp: trim_spaces_def dest!: set_dropWhileD)

lemma set_add_val_ok:
  assumes "\<forall>x\<in>set s. \<not> is_eol x" "pred_option (\<lambda>v. v \<noteq> [] \<and> (\<forall>x\<in>set v. \<not> is_eol x)) val"
  shows "pred_option (\<lambda>v. v \<noteq> [] \<and> (\<forall>x\<in>set v. \<not> is_eol x)) (set_add_val s val)"
proof -
  have "\<forall>x\<in>set (trim_spaces s). \<not> is_eol x" using assms(1) trim_spaces_subset [of s] by blast
  moreover have "\<not> is_eol SP" by (simp add: is_eol_def)
  ultimately show ?thesis using assms(2) by (cases val) (auto simp: set_add_val_def Let_def)
qed

lemma hp_callback_ok:
  "callback_ok cb \<Longrightarrow> pred_option headers_ok (hc_headers c) \<Longrightarrow> pred_option headers_ok (hc_headers (hp_callback cb i c))"
proof (cases cb)
  case (Some f)
  assume "callback_ok cb" "pred_option headers_ok (hc_headers c)"
  with Some have "pred_option headers_ok (snd (f (hc_arg c) (hc_headers c) i))" by (simp add: callback_ok_def)
  with Some show ?thesis by (cases "f (hc_arg c) (hc_headers c) i") (simp add: hp_callback_def)
qed (simp add: hp_callback_def)

lemma value_ok_cstr: "length (cstr v) = length v \<Longrightarrow> NUL \<notin> set v"
proof
  assume "length (cstr v) = length v" "NUL \<in> set v"
  moreover have "takeWhile (\<lambda>c. c \<noteq> NUL) v = v" if "length (takeWhile (\<lambda>c. c \<noteq> NUL) v) = length v"
    using that takeWhile_eq_take [of "\<lambda>c. c \<noteq> NUL" v] by simp
  ultimately show False by (metis cstr_def set_takeWhileD)
qed


text \<open>The configuration behind the pop, and what a turn may leave.\<close>

definition hp_popped :: "'m hp_cfg \<Rightarrow> bool" where
  "hp_popped c \<longleftrightarrow> hp_stack (hc_parser c) = [] \<and> pred_option headers_ok (hc_headers c) \<and>
     pred_option name_ok (hp_key (hc_parser c)) \<and>
     pred_option (\<lambda>v. v \<noteq> [] \<and> (\<forall>x\<in>set v. \<not> is_eol x)) (hp_val (hc_parser c))"

definition turn_ok :: "'m hp_turn \<Rightarrow> bool" where
  "turn_ok t \<longleftrightarrow> (case t of HP_Next c \<Rightarrow> hp_inv c | HP_Return _ c \<Rightarrow> hp_inv c)"

lemma turn_ok_simps [simp]: "turn_ok (HP_Next c) = hp_inv c" "turn_ok (HP_Return st c) = hp_inv c"
  "turn_ok (hp_return st c) = hp_inv (hp_push st c)"
  by (simp_all add: turn_ok_def hp_return_def)

lemma push_sel:
  "hp_stack (php_http_header_parser_state_push st p) = st # hp_stack p"
  "hp_key (php_http_header_parser_state_push st p) = hp_key p" "hp_val (php_http_header_parser_state_push st p) = hp_val p"
  "hp_info (php_http_header_parser_state_push st p) = hp_info p"
  by (simp_all add: php_http_header_parser_state_push_def)

lemma hp_inv_push:
  "hp_popped c \<Longrightarrow> hp_inv (hp_push st c) \<longleftrightarrow>
     (st \<in> {HP_VALUE, HP_VALUE_EX} \<longrightarrow> hp_key (hc_parser c) \<noteq> None) \<and>
     (st \<in> {HP_START, HP_KEY, HP_DONE, HP_FAILURE} \<longrightarrow> hp_key (hc_parser c) = None \<and> hp_val (hc_parser c) = None)"
  by (cases st) (simp_all add: hp_inv_def hp_popped_def Let_def push_sel)

lemma hp_popped_upd [simp]:
  "hp_popped (c\<lparr>hc_buf := b\<rparr>) = hp_popped c" "hp_popped (hp_cut n c) = hp_popped c"
  "hp_popped (c\<lparr>hc_parser := (hc_parser c)\<lparr>hp_info := i\<rparr>\<rparr>) = hp_popped c"
  by (simp_all add: hp_popped_def hp_cut_def)

lemma strspn_full: "strspn n s = length n \<Longrightarrow> set n \<subseteq> set s"
proof -
  assume "strspn n s = length n"
  then have "takeWhile (\<lambda>c. c \<in> set s) n = n" using takeWhile_eq_take [of "\<lambda>c. c \<in> set s" n] by (simp add: strspn_def)
  then show ?thesis by (metis set_takeWhileD subsetI)
qed

lemma hp_key_line_ok:
  assumes "hp_popped c" "hp_key (hc_parser c) = None" "hp_val (hc_parser c) = None"
  shows "turn_ok (hp_key_line flags eol c)"
proof -
  have fail: "turn_ok (hp_return HP_FAILURE c)" "turn_ok (hp_return HP_KEY c)" using assms by (simp_all add: hp_inv_push)
  show ?thesis
  proof (cases "index_of (\<lambda>x. x = CHR '':'') (hc_buf c)")
    case None
    with fail show ?thesis by (simp add: hp_key_line_def Let_def)
  next
    case (Some colon)
    let ?k = "take colon (hc_buf c)"
    have "hp_popped (c\<lparr>hc_parser := (hc_parser c)\<lparr>hp_key := None\<rparr>\<rparr>)" using assms(1) by (simp add: hp_popped_def)
    then have 1: "turn_ok (hp_return HP_FAILURE (c\<lparr>hc_parser := (hc_parser c)\<lparr>hp_key := None\<rparr>\<rparr>))"
      using assms by (simp add: hp_inv_push)
    have 2: "hp_inv (hp_push HP_VALUE (c\<lparr>hc_buf := v, hc_parser := (hc_parser c)\<lparr>hp_key := Some ?k\<rparr>\<rparr>))"
      if "strspn ?k PHP_HTTP_HEADER_NAME_CHARS = length ?k" for v
    proof -
      have "name_ok ?k" using strspn_full [OF that] by (simp add: name_ok_def)
      then have "hp_popped (c\<lparr>hc_buf := v, hc_parser := (hc_parser c)\<lparr>hp_key := Some ?k\<rparr>\<rparr>)" using assms(1) by (simp add: hp_popped_def)
      then show ?thesis by (simp add: hp_inv_push)
    qed
    from Some fail 1 2 show ?thesis
      unfolding hp_key_line_def Let_def Some option.case by (cases "case eol of None \<Rightarrow> True | Some (e, _) \<Rightarrow> colon < e") simp_all
  qed
qed

lemma hp_key_step_ok:
  assumes "hp_key_step env flags cb c = Some t" "hp_popped c" "hp_key (hc_parser c) = None" "hp_val (hc_parser c) = None" "callback_ok cb"
  shows "turn_ok t"
proof -
  let ?eol = "php_http_locate_bin_eol (hc_buf c) NUL"
  show ?thesis
  proof (cases "\<exists>n. ?eol = Some (0, n)")
    case True
    with assms show ?thesis by (auto simp: hp_key_step_def hp_inv_push)
  next
    case False
    then have t: "(case php_http_info_parse env (hp_info (hc_parser c)) (hc_buf c) of None \<Rightarrow> None | Some (ok, info) \<Rightarrow>
               let c = c\<lparr>hc_parser := (hc_parser c)\<lparr>hp_info := info\<rparr>\<rparr> in
               if ok
               then let c = hp_callback cb (Some info) c;
                        c = c\<lparr>hc_parser := (hc_parser c)\<lparr>hp_info := php_http_info_dtor info\<rparr>\<rparr>
                    in Some (HP_Next (hp_push HP_HEADER_DONE
                         (hp_cut (case ?eol of Some (e, n) \<Rightarrow> e + n | None \<Rightarrow> length (hc_buf c)) c)))
               else Some (hp_key_line flags ?eol c)) = Some t"
      using assms(1) by (auto simp: hp_key_step_def Let_def split: option.splits nat.splits)
    then obtain ok info where i: "php_http_info_parse env (hp_info (hc_parser c)) (hc_buf c) = Some (ok, info)"
      by (auto split: option.splits)
    let ?c = "c\<lparr>hc_parser := (hc_parser c)\<lparr>hp_info := info\<rparr>\<rparr>"
    have c: "hp_popped ?c" using assms(2) by simp
    let ?d = "hp_callback cb (Some info) ?c" 
    let ?e = "?d\<lparr>hc_parser := (hc_parser ?d)\<lparr>hp_info := php_http_info_dtor info\<rparr>\<rparr>"
    have e: "hp_popped ?e" using c hp_callback_ok [OF assms(5), of ?c] by (simp add: hp_popped_def)
    show ?thesis
    proof (cases ok)
      case True
      then obtain n where "t = HP_Next (hp_push HP_HEADER_DONE (hp_cut n ?e))" using t unfolding i by (auto simp: Let_def)
      moreover have "hp_popped (hp_cut n ?e)" for n using e by (simp only: hp_popped_upd)
      ultimately show ?thesis by (simp only: turn_ok_simps hp_inv_push) simp
    next
      case False
      then show ?thesis using t i assms(3,4) hp_key_line_ok [OF c, of flags ?eol] by (auto simp: Let_def)
    qed
  qed
qed

lemma hp_value_step_ok:
  assumes "hp_popped c" "hp_key (hc_parser c) \<noteq> None"
  shows "turn_ok (hp_value_step flags c)"
proof -
  let ?add = "\<lambda>s. c\<lparr>hc_parser := (hc_parser c)\<lparr>hp_val := set_add_val s (hp_val (hc_parser c))\<rparr>\<rparr>"
  have add: "hp_popped (?add s)" if "\<forall>x\<in>set s. \<not> is_eol x" for s
    using assms(1) set_add_val_ok [OF that] by (simp add: hp_popped_def)
  show ?thesis
  proof (cases "php_http_locate_bin_eol (hc_buf c) NUL")
    case None
    then have "hp_popped (?add (hc_buf c))" using add locate_bin_eol_None by blast
    with None assms show ?thesis by (auto simp: hp_value_step_def Let_def hp_inv_push)
  next
    case (Some en)
    then obtain e n where en: "php_http_locate_bin_eol (hc_buf c) NUL = Some (e, n)" by (cases en) auto
    have "\<not> is_eol x" if "x \<in> set (take e (hc_buf c))" for x
      using that locate_bin_eol_SomeD(1,3) [OF en] by (auto simp: in_set_conv_nth)
    then have "hp_popped (?add (take e (hc_buf c)))" by (intro add) blast
    with en assms show ?thesis by (simp add: hp_value_step_def Let_def hp_inv_push)
  qed
qed

lemma hp_header_done_ok:
  assumes "hp_header_done_step cb c = Some t" "hp_popped c" "callback_ok cb"
  shows "turn_ok t"
proof -
  define clear where "clear = (\<lambda>c :: 'a hp_cfg. c\<lparr>hc_parser := (hc_parser c)\<lparr>hp_key := None, hp_val := None\<rparr>\<rparr>)"
  have clear: "hp_popped d \<Longrightarrow> hp_popped (clear d)" "hp_key (hc_parser (clear d)) = None" "hp_val (hc_parser (clear d)) = None" for d
    by (simp_all add: clear_def hp_popped_def)
  note t = assms(1) [unfolded hp_header_done_step_def, folded clear_def, unfolded Let_def]
  show ?thesis
  proof (cases "\<exists>k v. hp_key (hc_parser c) = Some k \<and> hp_val (hc_parser c) = Some v")
    case False
    then have "t = HP_Next (hp_push HP_KEY (clear c))" using t by (auto split: option.splits)
    then show ?thesis using clear assms(2) by (simp add: hp_inv_push)
  next
    case True
    then obtain k v where kv: "hp_key (hc_parser c) = Some k" "hp_val (hc_parser c) = Some v" by blast
    define d where "d = (if hc_headers c = None then hp_callback cb None c else c)"
    have d: "hp_popped d" "hc_parser d = hc_parser c"
      using assms(2) hp_callback_ok [OF assms(3), of c None] by (auto simp: d_def hp_popped_def)
    show ?thesis
    proof (cases "length (cstr v) = length v")
      case False
      with t kv clear assms(2) show ?thesis by (auto simp: hp_inv_push)
    next
      case True
      then obtain h where h: "hc_headers d = Some h" "t = HP_Next (hp_push HP_KEY (clear (d\<lparr>hc_headers := Some (header_add h k v)\<rparr>)))"
        using t kv by (auto simp: d_def split: option.splits)
      have "value_ok v" using value_ok_cstr [OF True] assms(2) kv(2) by (auto simp: hp_popped_def value_ok_def)
      then have "headers_ok (header_add h k v)" using d h(1) kv(1) assms(2) by (intro headers_ok_add) (auto simp: hp_popped_def)
      then have "hp_popped (d\<lparr>hc_headers := Some (header_add h k v)\<rparr>)" using d by (simp add: hp_popped_def)
      then show ?thesis using h(2) clear by (simp add: hp_inv_push)
    qed
  qed
qed


lemma hp_turn_inv:
  assumes "hp_inv c" "callback_ok cb" "hp_turn_of env flags cb c = Some t"
  shows "turn_ok t"
proof -
  let ?st = "php_http_header_parser_state_is (hc_parser c)" and ?d = "c\<lparr>hc_parser := (hc_parser c)\<lparr>hp_stack := tl (hp_stack (hc_parser c))\<rparr>\<rparr>"
  have "length (hp_stack (hc_parser c)) \<le> 1" using assms(1) by (simp add: hp_inv_def Let_def)
  then have "tl (hp_stack (hc_parser c)) = []" by (cases "hp_stack (hc_parser c)") simp_all
  then have d: "hp_popped ?d" using assms(1) by (simp add: hp_inv_def hp_popped_def Let_def)
  have dk: "?st \<in> {HP_VALUE, HP_VALUE_EX} \<Longrightarrow> hp_key (hc_parser ?d) \<noteq> None"
    "?st \<in> {HP_START, HP_KEY, HP_DONE, HP_FAILURE} \<Longrightarrow> hp_key (hc_parser ?d) = None \<and> hp_val (hc_parser ?d) = None"
    using assms(1) by (auto simp: hp_inv_def Let_def)
  note t = assms(3) [unfolded hp_turn_of_def php_http_header_parser_state_pop_def Let_def prod.case]
  show ?thesis
  proof (cases ?st)
    case HP_FAILURE
    with t d dk(2) show ?thesis by (auto simp: hp_inv_push)
  next
    case HP_START
    with t d dk(2) show ?thesis by (auto simp: hp_inv_push hp_start_def)
  next
    case HP_KEY
    with t dk(2) hp_key_step_ok [OF _ d _ _ assms(2), of env flags t] show ?thesis by simp
  next
    case HP_VALUE
    with t dk(1) hp_value_step_ok [OF d, of flags] show ?thesis by auto
  next
    case HP_VALUE_EX
    with t d dk(1) show ?thesis by (auto simp: hp_value_ex_step_def Let_def hp_inv_push)
  next
    case HP_HEADER_DONE
    with t hp_header_done_ok [OF _ d assms(2), of t] show ?thesis by simp
  next
    case HP_DONE
    with t d dk(2) show ?thesis
      by (auto simp: hp_inv_def hp_popped_def Let_def php_http_header_parser_state_is_def)
  qed
qed

lemma hp_reachable_inv:
  assumes "hp_reachable env cb h c" "callback_ok cb" "pred_option headers_ok h"
  shows "hp_inv c"
  using assms
proof (induction rule: hp_reachable.induct)
  case (init m)
  then show ?case
    by (simp add: hp_inv_def php_http_header_parser_init_def php_http_header_parser_state_is_def)
next
  case (feed c data)
  then show ?case by (simp add: hp_inv_def Let_def)
next
  case (turn c flags t c' st)
  from hp_turn_inv [OF turn.IH [OF turn.prems] turn.prems(1) turn.hyps(3)] turn.hyps(4) show ?case by auto
qed

text \<open>C30. Whatever data a client feeds to the header parser, in whatever pieces and with whatever
  flags, after every return of the parser: no stored header value contains a carriage return, a line
  feed or a NUL, every stored name is a token, at most one state is on the stack, and a name is pending
  exactly while its value is being read. (The callback, if any, hands out tables with that property.)\<close>

theorem header_parser_clean:
  assumes "hp_reachable env cb h c" "callback_ok cb" "pred_option headers_ok h"
    "hp_parse env flags cb c = Some (st, c')"
  shows "hp_inv c' \<and> pred_option headers_ok (hc_headers c') \<and> hp_reachable env cb h c'"
proof -
  have r: "hp_reachable env cb h c'" using hp_parse_reachable [OF assms(4,1)] .
  from hp_reachable_inv [OF r assms(2,3)] r show ?thesis by (simp add: hp_inv_def Let_def)
qed


definition sample_headers :: bytes where
  "sample_headers = ''Host: a'' @ [CR, LF] @ ''X-y: 1'' @ [CR, LF] @ '' 2'' @ [CR, LF] @ ''x-Y: 3'' @ [CR, LF, CR, LF] @ ''rest''"

definition sample_table :: hashtable where
  "sample_table = (0, [(KStr ''Host'', ZStr ''a''), (KStr ''X-Y'', ZArr 2 [(KInt 0, ZStr ''1 2''), (KInt 1, ZStr ''3'')])])"

definition sample_cfg :: "bytes \<Rightarrow> hashtable \<Rightarrow> unit hp_cfg" where
  "sample_cfg b h = \<lparr>hc_parser = php_http_header_parser_init, hc_buf = b, hc_headers = Some h, hc_arg = ()\<rparr>"

lemma sample_parse:
  "hp_parse ascii_env 0 None (sample_cfg sample_headers zend_hash_init) = Some (HP_DONE, sample_cfg ''rest'' sample_table)"
  by code_simp

lemma callback_ok_None [simp]: "callback_ok None"
  by (simp add: callback_ok_def)

theorem header_parser_clean_witness:
  "hp_reachable ascii_env None (Some zend_hash_init) (sample_cfg sample_headers zend_hash_init) \<and>
   hp_inv (sample_cfg ''rest'' sample_table) \<and> headers_ok sample_table"
proof -
  have "hp_reachable ascii_env None (Some zend_hash_init) ((sample_cfg [] zend_hash_init)\<lparr>hc_buf := hc_buf (sample_cfg [] zend_hash_init) @ sample_headers\<rparr>)"
    unfolding sample_cfg_def by (intro hp_reachable.feed hp_reachable.init)
  then have r: "hp_reachable ascii_env None (Some zend_hash_init) (sample_cfg sample_headers zend_hash_init)"
    by (simp add: sample_cfg_def)
  have "pred_option headers_ok (Some zend_hash_init)" by (simp add: headers_ok_def zend_hash_init_def)
  from header_parser_clean [OF r callback_ok_None this sample_parse] r show ?thesis by (simp add: sample_cfg_def)
qed


section \<open>Header lines\<close>

text \<open>
  The lines of a header block: a header, or a continuation of the value of the header before. The
  abstract parser keeps the table and the header that may still be continued.
\<close>

datatype hline = HLine bytes bytes | HFold bytes

definition seg_ok :: "bytes \<Rightarrow> bool" where
  "seg_ok v \<longleftrightarrow> v \<noteq> [] \<and> \<not> isspace (hd v) \<and> \<not> isspace (last v) \<and> value_ok v"

fun hline_bytes :: "hline \<Rightarrow> bytes" where
  "hline_bytes (HLine n v) = n @ CHR '':'' # SP # v @ [CR, LF]"
| "hline_bytes (HFold v) = SP # v @ [CR, LF]"

fun hline_ok :: "hline \<Rightarrow> bool" where
  "hline_ok (HLine n v) \<longleftrightarrow> n \<noteq> [] \<and> name_ok n \<and> seg_ok v \<and> memnstr (n @ CHR '':'' # SP # v) ''HTTP/'' = None"
| "hline_ok (HFold v) \<longleftrightarrow> seg_ok v"

type_synonym habs = "hashtable \<times> (bytes \<times> bytes) option"

definition commit :: "habs \<Rightarrow> hashtable" where
  "commit a = (case snd a of None \<Rightarrow> fst a | Some (n, v) \<Rightarrow> header_add (fst a) n v)"

fun abs_line :: "hline \<Rightarrow> habs \<Rightarrow> habs" where
  "abs_line (HLine n v) a = (commit a, Some (n, v))"
| "abs_line (HFold v) (h, p) = (h, map_option (\<lambda>(n, w). (n, w @ SP # v)) p)"

fun block_ok :: "bool \<Rightarrow> hline list \<Rightarrow> bool" where
  "block_ok open [] = True"
| "block_ok open (l # ls) \<longleftrightarrow> hline_ok l \<and> (case l of HLine _ _ \<Rightarrow> True | HFold _ \<Rightarrow> open) \<and> block_ok True ls"

definition conf :: "php_http_info \<Rightarrow> habs \<Rightarrow> 'm \<Rightarrow> bytes \<Rightarrow> 'm hp_cfg" where
  "conf i a m b = \<lparr>hc_parser = \<lparr>hp_stack = (case snd a of None \<Rightarrow> [HP_KEY] | Some _ \<Rightarrow> [HP_VALUE_EX]),
     hp_info = i, hp_key = map_option fst (snd a), hp_val = map_option snd (snd a)\<rparr>,
     hc_buf = b, hc_headers = Some (fst a), hc_arg = m\<rparr>"

lemma hp_parse_next:
  assumes "hp_continue c = Some True" "hp_turn_of env flags cb c = Some (HP_Next d)"
  shows "hp_parse env flags cb c = hp_parse env flags cb d"
  using assms by (subst hp_parse.simps) simp

lemma trim_seg: "seg_ok v \<Longrightarrow> trim_spaces v = v" "seg_ok v \<Longrightarrow> trim_spaces (SP # v) = v"
proof -
  assume v: "seg_ok v"
  have d: "dropWhile isspace v = v" using v by (cases v) (auto simp: seg_ok_def)
  have "\<not> isspace (hd (rev v))" "rev v \<noteq> []" using v by (auto simp: seg_ok_def hd_rev)
  then have r: "dropWhile isspace (rev v) = rev v" by (cases "rev v") auto
  show "trim_spaces v = v" "trim_spaces (SP # v) = v" by (simp_all add: trim_spaces_def d r isspace_def)
qed

lemma seg_no_eol: "seg_ok v \<Longrightarrow> \<forall>c\<in>set v. \<not> is_eol c"
  by (simp add: seg_ok_def value_ok_def)

text \<open>A value line, from the state \<open>VALUE\<close>.\<close>

lemma hp_value_line:
  assumes "seg_ok v" "s = v \<or> s = SP # v"
  shows "hp_parse env flags cb \<lparr>hc_parser = \<lparr>hp_stack = [HP_VALUE], hp_info = i, hp_key = k, hp_val = w\<rparr>,
        hc_buf = s @ CR # LF # rest, hc_headers = h, hc_arg = m\<rparr> =
    hp_parse env flags cb \<lparr>hc_parser = \<lparr>hp_stack = [HP_VALUE_EX], hp_info = i, hp_key = k,
        hp_val = Some (case w of Some w \<Rightarrow> w @ SP # v | None \<Rightarrow> v)\<rparr>, hc_buf = rest, hc_headers = h, hc_arg = m\<rparr>"
proof (rule hp_parse_next)
  have "\<not> is_eol SP" by (simp add: is_eol_def)
  then have "\<forall>c\<in>set s. \<not> is_eol c" using assms(2) seg_no_eol [OF assms(1)] by auto
  note eol = locate_bin_eol_line(1) [OF this, of rest NUL]
  have tr: "trim_spaces s = v" "v \<noteq> []" using assms trim_seg by (auto simp: seg_ok_def)
  show "hp_continue \<lparr>hc_parser = \<lparr>hp_stack = [HP_VALUE], hp_info = i, hp_key = k, hp_val = w\<rparr>,
        hc_buf = s @ CR # LF # rest, hc_headers = h, hc_arg = m\<rparr> = Some True" by (simp add: hp_continue_def)
  show "hp_turn_of env flags cb \<lparr>hc_parser = \<lparr>hp_stack = [HP_VALUE], hp_info = i, hp_key = k, hp_val = w\<rparr>,
        hc_buf = s @ CR # LF # rest, hc_headers = h, hc_arg = m\<rparr> =
      Some (HP_Next \<lparr>hc_parser = \<lparr>hp_stack = [HP_VALUE_EX], hp_info = i, hp_key = k,
        hp_val = Some (case w of Some w \<Rightarrow> w @ SP # v | None \<Rightarrow> v)\<rparr>, hc_buf = rest, hc_headers = h, hc_arg = m\<rparr>)"
    by (simp add: hp_turn_of_def php_http_header_parser_state_pop_def php_http_header_parser_state_is_def hp_value_step_def
        eol hp_push_def hp_cut_def php_http_header_parser_state_push_def set_add_val_def tr)
qed

lemma hp_fold_line:
  assumes "seg_ok f"
  shows "hp_parse env flags cb (conf i (h, Some (n, w)) m (SP # f @ CR # LF # rest)) =
    hp_parse env flags cb (conf i (h, Some (n, w @ SP # f)) m rest)"
proof -
  have "hp_parse env flags cb (conf i (h, Some (n, w)) m (SP # f @ CR # LF # rest)) =
    hp_parse env flags cb \<lparr>hc_parser = \<lparr>hp_stack = [HP_VALUE], hp_info = i, hp_key = Some n, hp_val = Some w\<rparr>,
        hc_buf = (SP # f) @ CR # LF # rest, hc_headers = Some h, hc_arg = m\<rparr>"
    by (rule hp_parse_next)
       (simp_all add: conf_def hp_continue_def hp_turn_of_def php_http_header_parser_state_pop_def
         php_http_header_parser_state_is_def hp_value_ex_step_def hp_push_def php_http_header_parser_state_push_def)
  also have "\<dots> = hp_parse env flags cb (conf i (h, Some (n, w @ SP # f)) m rest)"
    unfolding hp_value_line [OF assms disjI2 [OF refl]] by (simp add: conf_def)
  finally show ?thesis .
qed

text \<open>The pending header is stored as soon as a line follows that does not continue it.\<close>

lemma hp_commit:
  assumes "value_ok w" "b \<noteq> []" "hd b \<noteq> SP" "hd b \<noteq> TAB"
  shows "hp_parse env flags cb (conf i (h, Some (n, w)) m b) = hp_parse env flags cb (conf i (header_add h n w, None) m b)"
proof -
  have "NUL \<notin> set w" using assms(1) by (auto simp: value_ok_def)
  then have w: "cstr w = w" by simp
  let ?c = "\<lparr>hc_parser = \<lparr>hp_stack = [HP_HEADER_DONE], hp_info = i, hp_key = Some n, hp_val = Some w\<rparr>,
        hc_buf = b, hc_headers = Some h, hc_arg = m\<rparr>"
  have "hp_parse env flags cb (conf i (h, Some (n, w)) m b) = hp_parse env flags cb ?c"
    using assms by (intro hp_parse_next)
       (simp_all add: conf_def hp_continue_def hp_turn_of_def php_http_header_parser_state_pop_def
         php_http_header_parser_state_is_def hp_value_ex_step_def hp_push_def php_http_header_parser_state_push_def)
  also have "\<dots> = hp_parse env flags cb (conf i (header_add h n w, None) m b)"
    using assms(2) by (intro hp_parse_next)
       (simp_all add: conf_def hp_continue_def hp_turn_of_def php_http_header_parser_state_pop_def
         php_http_header_parser_state_is_def hp_header_done_step_def hp_push_def php_http_header_parser_state_push_def w)
  finally show ?thesis .
qed


lemma isspace_SP: "isspace SP"
  by (simp add: isspace_def)

lemma strspn_all: "set n \<subseteq> set s \<Longrightarrow> strspn n s = length n"
  by (induction n) (auto simp: strspn_def)

lemma name_chars: "name_ok n \<Longrightarrow> c \<in> set n \<Longrightarrow> word_char c \<and> c \<noteq> CHR '':''"
proof -
  have "list_all (\<lambda>c. word_char c \<and> c \<noteq> CHR '':'') PHP_HTTP_HEADER_NAME_CHARS" by code_simp
  then show "name_ok n \<Longrightarrow> c \<in> set n \<Longrightarrow> word_char c \<and> c \<noteq> CHR '':''" by (auto simp: name_ok_def list_all_iff)
qed

lemma info_parse_no_version:
  assumes "\<forall>c\<in>set L. line_char c" "at_line_end E" "memnstr L ''HTTP/'' = None"
  shows "php_http_info_parse env i (L @ E) = Some (False, i)"
  using line_end_line [OF assms(1,2)] assms(3) by (simp add: php_http_info_parse_def Let_def)

lemma value_ok_line: "value_ok v \<Longrightarrow> \<forall>c\<in>set v. line_char c"
  by (auto simp: value_ok_def line_char_def)

lemma hp_key_line_step:
  assumes "hline_ok (HLine n v)"
  shows "hp_key_step env flags cb \<lparr>hc_parser = \<lparr>hp_stack = [], hp_info = i, hp_key = None, hp_val = None\<rparr>,
      hc_buf = n @ CHR '':'' # SP # v @ CR # LF # rest, hc_headers = h, hc_arg = m\<rparr> =
    Some (HP_Next \<lparr>hc_parser = \<lparr>hp_stack = [HP_VALUE], hp_info = i, hp_key = Some n, hp_val = None\<rparr>,
      hc_buf = v @ CR # LF # rest, hc_headers = h, hc_arg = m\<rparr>)"
proof -
  let ?L = "n @ CHR '':'' # SP # v" and ?b = "n @ CHR '':'' # SP # v @ CR # LF # rest"
  from assms have n: "n \<noteq> []" "name_ok n" and v: "seg_ok v" and H: "memnstr ?L ''HTTP/'' = None" by simp_all
  have dl: "line_char (CHR '':'')" "line_char SP" by (simp_all add: line_char_def is_eol_def)
  then have L: "\<forall>c\<in>set ?L. line_char c"
    using name_chars [OF n(2)] value_ok_line v by (auto simp: word_char_def seg_ok_def)
  then have "\<forall>c\<in>set ?L. \<not> is_eol c" by (auto simp: line_char_def)
  from locate_bin_eol_line(1) [OF this] have eol: "php_http_locate_bin_eol ?b NUL = Some (length ?L, 2)" by simp
  have "at_line_end (CR # LF # rest)" by (simp add: at_line_end_def)
  from info_parse_no_version [OF L this H] have inf: "php_http_info_parse env i ?b = Some (False, i)" by simp
  have "index_of (\<lambda>x. x = CHR '':'') n = None" using name_chars [OF n(2)] by (auto simp: index_of_None)
  then have col: "index_of (\<lambda>x. x = CHR '':'') ?b = Some (length n)" by (simp add: index_of_append)
  have sp: "strspn n PHP_HTTP_HEADER_NAME_CHARS = length n" using n(2) by (intro strspn_all) (simp add: name_ok_def)
  obtain c v' where c: "v = c # v'" "\<not> isspace c" using v by (cases v) (auto simp: seg_ok_def)
  then have dw: "dropWhile (\<lambda>x. isspace x \<and> x \<noteq> LF \<and> x \<noteq> CR) (SP # v @ CR # LF # rest) = v @ CR # LF # rest"
    using isspace_SP by simp
  have "drop (Suc (length n)) ?b = SP # v @ CR # LF # rest" "take (length n) ?b = n" by simp_all
  then have "hp_key_line flags (Some (length ?L, 2)) \<lparr>hc_parser = \<lparr>hp_stack = [], hp_info = i, hp_key = None, hp_val = None\<rparr>,
      hc_buf = ?b, hc_headers = h, hc_arg = m\<rparr> = HP_Next \<lparr>hc_parser = \<lparr>hp_stack = [HP_VALUE], hp_info = i, hp_key = Some n, hp_val = None\<rparr>,
      hc_buf = v @ CR # LF # rest, hc_headers = h, hc_arg = m\<rparr>"
    using sp dw by (simp add: hp_key_line_def col hp_push_def php_http_header_parser_state_push_def del: dropWhile.simps)
  then show ?thesis using n(1) by (simp add: hp_key_step_def eol inf Let_def split: nat.splits)
qed

lemma hp_header_line:
  assumes "hline_ok (HLine n v)"
  shows "hp_parse env flags cb (conf i (h, None) m (n @ CHR '':'' # SP # v @ CR # LF # rest)) =
    hp_parse env flags cb (conf i (h, Some (n, v)) m rest)"
proof -
  let ?c = "\<lparr>hc_parser = \<lparr>hp_stack = [HP_VALUE], hp_info = i, hp_key = Some n, hp_val = None\<rparr>,
      hc_buf = v @ CR # LF # rest, hc_headers = Some h, hc_arg = m\<rparr>"
  have "hp_parse env flags cb (conf i (h, None) m (n @ CHR '':'' # SP # v @ CR # LF # rest)) = hp_parse env flags cb ?c"
    using hp_key_line_step [OF assms, of env flags cb i rest "Some h" m]
    by (intro hp_parse_next) (simp_all add: conf_def hp_continue_def hp_turn_of_def
      php_http_header_parser_state_pop_def php_http_header_parser_state_is_def)
  also have "\<dots> = hp_parse env flags cb (conf i (h, Some (n, v)) m rest)"
    using hp_value_line [of v v env flags cb i "Some n" None rest "Some h" m] assms by (simp add: conf_def)
  finally show ?thesis .
qed

text \<open>The abstract parser is simulated, line by line.\<close>

definition habs_ok :: "habs \<Rightarrow> bool" where "habs_ok a \<longleftrightarrow> pred_option (value_ok \<circ> snd) (snd a)"

lemma hp_line:
  assumes "hline_ok l" "habs_ok a" "case l of HLine _ _ \<Rightarrow> True | HFold _ \<Rightarrow> snd a \<noteq> None"
  shows "hp_parse env flags cb (conf i a m (hline_bytes l @ rest)) = hp_parse env flags cb (conf i (abs_line l a) m rest)"
    "habs_ok (abs_line l a)" "snd (abs_line l a) \<noteq> None"
proof -
  obtain h p where a: "a = (h, p)" by (cases a)
  have "hp_parse env flags cb (conf i a m (hline_bytes l @ rest)) = hp_parse env flags cb (conf i (abs_line l a) m rest) \<and>
    habs_ok (abs_line l a) \<and> snd (abs_line l a) \<noteq> None"
  proof (cases l)
    case (HLine n v)
    have n: "n \<noteq> []" "name_ok n" "value_ok v" using assms(1) HLine by (simp_all add: seg_ok_def)
    let ?b = "n @ CHR '':'' # SP # v @ CR # LF # rest"
    have "word_char (hd n)" using n name_chars by simp
    moreover have "TAB \<notin> set PHP_HTTP_HEADER_NAME_CHARS" by code_simp
    then have "hd n \<noteq> TAB" using n(1,2) hd_in_set [of n] by (metis name_ok_def subsetD)
    ultimately have b: "?b \<noteq> []" "hd ?b \<noteq> SP" "hd ?b \<noteq> TAB" using n(1) by (auto simp: word_char_def)
    have "hp_parse env flags cb (conf i (h, p) m ?b) = hp_parse env flags cb (conf i (commit (h, p), None) m ?b)"
      using hp_commit [OF _ b, of _ env flags cb i h _ m] assms(2) a by (cases p) (auto simp: commit_def habs_ok_def)
    with hp_header_line [of n v env flags cb i "commit (h, p)" m rest] assms(1) HLine a n(3) show ?thesis by (auto simp: habs_ok_def)
  next
    case (HFold v)
    then obtain n w where p: "p = Some (n, w)" using assms(3) a by auto
    have v: "seg_ok v" "value_ok v" "value_ok w" using assms(1,2) HFold p a by (auto simp: seg_ok_def habs_ok_def)
    then have "value_ok (w @ SP # v)" by (auto simp: value_ok_def is_eol_def)
    with hp_fold_line [OF v(1), of env flags cb i h n w m rest] HFold p a show ?thesis by (simp add: habs_ok_def)
  qed
  then show "hp_parse env flags cb (conf i a m (hline_bytes l @ rest)) = hp_parse env flags cb (conf i (abs_line l a) m rest)"
    "habs_ok (abs_line l a)" "snd (abs_line l a) \<noteq> None" by simp_all
qed


lemma hp_lines:
  assumes "block_ok (snd a \<noteq> None) ls" "habs_ok a"
  shows "hp_parse env flags cb (conf i a m (concat (map hline_bytes ls) @ rest)) = hp_parse env flags cb (conf i (fold abs_line ls a) m rest)"
    "habs_ok (fold abs_line ls a)" "ls \<noteq> [] \<Longrightarrow> snd (fold abs_line ls a) \<noteq> None"
  using assms
proof (induction ls arbitrary: a)
  case (Cons l ls)
  {
    case 1
    then show ?case using Cons.IH(1) [of "abs_line l a"] hp_line(1) [of l a env flags cb i m "concat (map hline_bytes ls) @ rest"]
      hp_line(2,3) [of l a] by (auto split: hline.splits)
  next
    case 2
    then show ?case using Cons.IH(2) [of "abs_line l a"] hp_line(2,3) [of l a] by (auto split: hline.splits)
  next
    case 3
    then show ?case using Cons.IH(3) [of "abs_line l a"] hp_line(2,3) [of l a] by (cases "ls = []") (auto split: hline.splits)
  }
qed simp_all

text \<open>The empty line ends the block.\<close>

definition hp_final :: "php_http_info \<Rightarrow> habs \<Rightarrow> 'm \<Rightarrow> bytes \<Rightarrow> 'm hp_cfg" where
  "hp_final i a m b = \<lparr>hc_parser = php_http_header_parser_init\<lparr>hp_info := i\<rparr>, hc_buf = b, hc_headers = Some (commit a), hc_arg = m\<rparr>"

lemma hp_empty_line:
  assumes "habs_ok a"
  shows "hp_parse env flags cb (conf i a m (CR # LF # rest)) = Some (HP_DONE, hp_final i a m rest)"
proof -
  obtain h p where a: "a = (h, p)" by (cases a)
  have "hp_parse env flags cb (conf i (h, p) m (CR # LF # rest)) = hp_parse env flags cb (conf i (commit (h, p), None) m (CR # LF # rest))"
    using hp_commit [of _ "CR # LF # rest" env flags cb i h _ m] assms a by (cases p) (auto simp: commit_def habs_ok_def)
  also have "\<dots> = hp_parse env flags cb \<lparr>hc_parser = \<lparr>hp_stack = [HP_DONE], hp_info = i, hp_key = None, hp_val = None\<rparr>,
      hc_buf = rest, hc_headers = Some (commit (h, p)), hc_arg = m\<rparr>"
    using locate_bin_eol_line(1) [of "[]" rest NUL]
    by (intro hp_parse_next) (simp_all add: conf_def hp_continue_def hp_turn_of_def php_http_header_parser_state_pop_def
        php_http_header_parser_state_is_def hp_key_step_def hp_push_def hp_cut_def php_http_header_parser_state_push_def)
  also have "\<dots> = Some (HP_DONE, hp_final i a m rest)"
    by (subst hp_parse.simps) (simp add: hp_continue_def hp_turn_of_def php_http_header_parser_state_pop_def
        php_http_header_parser_state_is_def hp_final_def a php_http_header_parser_init_def)
  finally show ?thesis by (simp add: a)
qed

text \<open>A start line goes to the callback, which yields the table to go on with.\<close>

lemma hp_start_line:
  assumes "php_http_info_parse env i (L @ CR # LF # rest) = Some (True, info)" "L \<noteq> []" "\<forall>c\<in>set L. \<not> is_eol c"
    "f m (Some h) (Some info) = (m', Some h')"
  shows "hp_parse env flags (Some f) (conf i (h, None) m (L @ CR # LF # rest)) =
    hp_parse env flags (Some f) (conf (php_http_info_dtor info) (h', None) m' rest)"
proof -
  let ?c = "\<lparr>hc_parser = \<lparr>hp_stack = [HP_HEADER_DONE], hp_info = php_http_info_dtor info, hp_key = None, hp_val = None\<rparr>,
        hc_buf = rest, hc_headers = Some h', hc_arg = m'\<rparr>"
  obtain k where k: "length L = Suc k" using assms(2) by (cases L) simp_all
  have eol: "php_http_locate_bin_eol (L @ CR # LF # rest) NUL = Some (Suc k, 2)"
    using locate_bin_eol_line(1) [OF assms(3), of rest NUL] k by simp
  have "hp_parse env flags (Some f) (conf i (h, None) m (L @ CR # LF # rest)) = hp_parse env flags (Some f) ?c"
    using assms(2) k by (intro hp_parse_next)
       (simp_all add: conf_def hp_continue_def hp_turn_of_def php_http_header_parser_state_pop_def hp_key_step_def eol assms(1,4)
         php_http_header_parser_state_is_def hp_push_def php_http_header_parser_state_push_def hp_callback_def hp_cut_def Let_def)
  also have "\<dots> = hp_parse env flags (Some f) (conf (php_http_info_dtor info) (h', None) m' rest)"
    by (rule hp_parse_next)
       (simp_all add: conf_def hp_continue_def hp_turn_of_def php_http_header_parser_state_pop_def
         php_http_header_parser_state_is_def hp_header_done_step_def hp_push_def php_http_header_parser_state_push_def)
  finally show ?thesis .
qed

text \<open>From the initial state, on data that begins with a header.\<close>

lemma hp_parse_start:
  assumes "b \<noteq> []" "\<not> isspace (hd b)"
  shows "hp_parse env flags cb \<lparr>hc_parser = php_http_header_parser_init\<lparr>hp_info := i\<rparr>, hc_buf = b, hc_headers = Some h, hc_arg = m\<rparr> =
    hp_parse env flags cb (conf i (h, None) m b)"
proof -
  have "dropWhile isspace b = b" using assms by (cases b) auto
  then show ?thesis
    using assms(1) by (intro hp_parse_next) (simp_all add: conf_def hp_continue_def hp_turn_of_def php_http_header_parser_state_pop_def
        php_http_header_parser_state_is_def hp_start_def hp_push_def php_http_header_parser_state_push_def php_http_header_parser_init_def)
qed

lemma hp_parse_start_init:
  assumes "b \<noteq> []" "\<not> isspace (hd b)"
  shows "hp_parse env flags cb \<lparr>hc_parser = php_http_header_parser_init, hc_buf = b, hc_headers = Some h, hc_arg = m\<rparr> =
    hp_parse env flags cb (conf php_http_info_init (h, None) m b)"
  using hp_parse_start [OF assms, of env flags cb php_http_info_init h m] by (simp add: php_http_header_parser_init_def)

lemma block_start:
  assumes "block_ok False ls" "ls \<noteq> []"
  shows "hline_bytes (hd ls) \<noteq> []" "\<not> isspace (hd (hline_bytes (hd ls)))"
proof -
  obtain n v where l: "hd ls = HLine n v" "n \<noteq> []" "name_ok n" using assms by (cases ls) (auto split: hline.splits)
  have "list_all (\<lambda>c. \<not> isspace c) PHP_HTTP_HEADER_NAME_CHARS" by code_simp
  then have "\<forall>c\<in>set PHP_HTTP_HEADER_NAME_CHARS. \<not> isspace c" by (simp add: list_all_iff)
  then have "\<not> isspace (hd n)" using l(2,3) hd_in_set [of n] unfolding name_ok_def by blast
  with l show "hline_bytes (hd ls) \<noteq> []" "\<not> isspace (hd (hline_bytes (hd ls)))" by simp_all
qed

text \<open>C31. A block of header lines, values continued on further lines included, that is followed by an empty
  line is parsed completely, whatever the flags: the parser is done and back in its initial state,
  exactly the bytes behind the block are left in the buffer, and the table holds what adding the
  headers one after the other gives, continued values joined by single spaces.\<close>

theorem header_block_parsed:
  assumes "ls \<noteq> []" "block_ok False ls"
  shows "php_http_header_parser_parse env php_http_header_parser_init (concat (map hline_bytes ls) @ CR # LF # rest) flags (Some h) cb m =
    Some (HP_DONE, \<lparr>hc_parser = php_http_header_parser_init, hc_buf = rest,
      hc_headers = Some (commit (fold abs_line ls (h, None))), hc_arg = m\<rparr>)"
proof -
  let ?b = "concat (map hline_bytes ls) @ CR # LF # rest"
  note s = block_start [OF assms(2,1)]
  have b: "?b \<noteq> []" "\<not> isspace (hd ?b)" using s assms(1) by (cases ls; simp)+
  have ok: "habs_ok (h, None)" by (simp add: habs_ok_def)
  have "hp_parse env flags cb (conf php_http_info_init (h, None) m ?b) = hp_parse env flags cb (conf php_http_info_init (fold abs_line ls (h, None)) m (CR # LF # rest))"
    using assms(2) ok by (intro hp_lines(1)) simp_all
  moreover have "habs_ok (fold abs_line ls (h, None))" using assms(2) ok by (intro hp_lines(2)) simp_all
  ultimately show ?thesis
    unfolding php_http_header_parser_parse_def hp_parse_start_init [OF b]
    by (simp add: hp_empty_line hp_final_def php_http_header_parser_init_def)
qed

definition sample_block :: "hline list" where
  "sample_block = [HLine ''Host'' ''a'', HLine ''X-y'' ''1'', HFold ''2'', HLine ''x-Y'' ''3'']"

lemma sample_block_ok: "sample_block \<noteq> []" "block_ok False sample_block"
  "concat (map hline_bytes sample_block) @ CR # LF # ''rest'' = sample_headers"
  "commit (fold abs_line sample_block (zend_hash_init, None)) = sample_table"
  by code_simp+

theorem header_block_parsed_witness:
  "php_http_header_parser_parse ascii_env php_http_header_parser_init sample_headers 0 (Some zend_hash_init) None () =
     Some (HP_DONE, \<lparr>hc_parser = php_http_header_parser_init, hc_buf = ''rest'', hc_headers = Some sample_table, hc_arg = ()\<rparr>)"
  using header_block_parsed [OF sample_block_ok(1,2), of ascii_env "''rest''" 0 zend_hash_init None "()"]
  unfolding sample_block_ok(3,4) .


section \<open>Feeding in pieces\<close>

fun hp_feed ::
  "url_env \<Rightarrow> 32 word \<Rightarrow> 'm info_callback option \<Rightarrow> 'm hp_cfg \<Rightarrow> bytes list \<Rightarrow> (php_http_header_parser_state \<times> 'm hp_cfg) option" where
  "hp_feed env flags cb c [] = Some (php_http_header_parser_state_is (hc_parser c), c)"
| "hp_feed env flags cb c (d # ds) =
     (case hp_parse env flags cb (c\<lparr>hc_buf := hc_buf c @ d\<rparr>) of
        None \<Rightarrow> None
      | Some (st, c') \<Rightarrow> if ds = [] then Some (st, c') else hp_feed env flags cb c' ds)"

lemma hp_parse_wait:
  assumes "flags AND PHP_HTTP_HEADER_PARSER_CLEANUP = 0"
  shows "\<exists>st. hp_parse env flags cb (conf i a m []) = Some (st, conf i a m [])"
  using assms by (subst hp_parse.simps)
    (auto simp: conf_def hp_continue_def php_http_header_parser_state_is_def hp_turn_of_def php_http_header_parser_state_pop_def
      hp_value_ex_step_def hp_return_def hp_push_def php_http_header_parser_state_push_def split: option.splits)

lemma hp_feed_lines:
  assumes "flags AND PHP_HTTP_HEADER_PARSER_CLEANUP = 0" "block_ok (snd a \<noteq> None) (concat gs)" "habs_ok a"
  shows "hp_feed env flags cb (conf i a m []) (map (concat \<circ> map hline_bytes) gs @ [CR # LF # rest]) =
    Some (HP_DONE, hp_final i (fold abs_line (concat gs) a) m rest)"
  using assms(2,3)
proof (induction gs arbitrary: a)
  case Nil
  have "(conf i a m [])\<lparr>hc_buf := CR # LF # rest\<rparr> = conf i a m (CR # LF # rest)" by (simp add: conf_def)
  moreover have "hc_buf (conf i a m []) = []" by (simp add: conf_def)
  ultimately show ?case using Nil by (simp add: hp_empty_line)
next
  case (Cons g gs)
  have blk: "block_ok op (xs @ ys) \<longleftrightarrow> block_ok op xs \<and> block_ok (op \<or> xs \<noteq> []) ys" for op xs ys
    by (induction xs arbitrary: op) (auto split: hline.splits)
  have g: "block_ok (snd a \<noteq> None) g" using Cons.prems(1) by (simp add: blk)
  let ?a = "fold abs_line g a"
  have pend: "snd ?a \<noteq> None \<longleftrightarrow> snd a \<noteq> None \<or> g \<noteq> []"
    using hp_lines(3) [OF g Cons.prems(2)] by (cases "g = []") auto
  have conf: "(conf i a m [])\<lparr>hc_buf := hc_buf (conf i a m []) @ concat (map hline_bytes g)\<rparr> = conf i a m (concat (map hline_bytes g) @ [])"
    by (simp add: conf_def)
  obtain st where st: "hp_parse env flags cb (conf i ?a m []) = Some (st, conf i ?a m [])" using hp_parse_wait [OF assms(1), of env cb i ?a m] by blast
  have "block_ok (snd ?a \<noteq> None) (concat gs)" using Cons.prems(1) unfolding pend by (simp add: blk)
  with Cons.IH [of ?a] hp_lines(2) [OF g Cons.prems(2)] show ?case
    using hp_lines(1) [OF g Cons.prems(2), of env flags cb i m "[]"] st conf by simp
qed

text \<open>C32. Feeding a header block in pieces that each consist of complete lines gives the same result as
  parsing it at once, however the lines are grouped into pieces.\<close>

theorem header_block_pieces:
  assumes "flags AND PHP_HTTP_HEADER_PARSER_CLEANUP = 0" "block_ok False (concat gs)" "gs \<noteq> []" "hd gs \<noteq> []"
  shows "hp_feed env flags cb \<lparr>hc_parser = php_http_header_parser_init, hc_buf = [], hc_headers = Some h, hc_arg = m\<rparr>
      (map (concat \<circ> map hline_bytes) gs @ [CR # LF # rest]) =
    php_http_header_parser_parse env php_http_header_parser_init (concat (map hline_bytes (concat gs)) @ CR # LF # rest) flags (Some h) cb m"
proof -
  obtain g gs' where gs: "gs = g # gs'" "g \<noteq> []" using assms(3,4) by (cases gs) auto
  let ?p = "concat (map hline_bytes g)" and ?b = "concat (map hline_bytes (concat gs)) @ CR # LF # rest"
  have ne: "concat gs \<noteq> []" using gs by simp
  note s = block_start [OF assms(2) ne]
  have p: "?p \<noteq> []" "\<not> isspace (hd ?p)" using s gs by (cases g; simp)+
  have b: "?b \<noteq> []" "\<not> isspace (hd ?b)" using p gs by simp_all
  have ok: "habs_ok (h, None)" by (simp add: habs_ok_def)
  have conf: "(conf php_http_info_init (h, None) m [])\<lparr>hc_buf := hc_buf (conf php_http_info_init (h, None) m []) @ ?p\<rparr> = conf php_http_info_init (h, None) m ?p" by (simp add: conf_def)
  have "hp_feed env flags cb \<lparr>hc_parser = php_http_header_parser_init, hc_buf = [], hc_headers = Some h, hc_arg = m\<rparr>
      (map (concat \<circ> map hline_bytes) gs @ [CR # LF # rest]) =
    hp_feed env flags cb (conf php_http_info_init (h, None) m []) (map (concat \<circ> map hline_bytes) gs @ [CR # LF # rest])"
    using hp_parse_start_init [OF p, of env flags cb h m] conf by (simp add: gs)
  also have "\<dots> = Some (HP_DONE, hp_final php_http_info_init (fold abs_line (concat gs) (h, None)) m rest)"
    using assms(2) ok by (intro hp_feed_lines [OF assms(1)]) simp_all
  also have "\<dots> = hp_parse env flags cb (conf php_http_info_init (fold abs_line (concat gs) (h, None)) m (CR # LF # rest))"
    using assms(2) ok by (subst hp_empty_line) (simp_all add: hp_lines(2))
  also have "\<dots> = hp_parse env flags cb (conf php_http_info_init (h, None) m ?b)"
    using assms(2) ok by (intro hp_lines(1) [symmetric]) simp_all
  finally show ?thesis unfolding php_http_header_parser_parse_def hp_parse_start_init [OF b] .
qed

lemma sample_groups: "(0 :: 32 word) AND PHP_HTTP_HEADER_PARSER_CLEANUP = 0" "block_ok False (concat [take 2 sample_block, drop 2 sample_block])"
  "[take 2 sample_block, drop 2 sample_block] \<noteq> []" "hd [take 2 sample_block, drop 2 sample_block] \<noteq> []"
  by code_simp+

theorem header_block_pieces_witness:
  "hp_feed ascii_env 0 None \<lparr>hc_parser = php_http_header_parser_init, hc_buf = [], hc_headers = Some zend_hash_init, hc_arg = ()\<rparr>
      (map (concat \<circ> map hline_bytes) [take 2 sample_block, drop 2 sample_block] @ [CR # LF # ''rest'']) =
    php_http_header_parser_parse ascii_env php_http_header_parser_init
      (concat (map hline_bytes (concat [take 2 sample_block, drop 2 sample_block])) @ CR # LF # ''rest'') 0 (Some zend_hash_init) None ()"
  by (rule header_block_pieces [OF sample_groups])

text \<open>
  Pieces that end elsewhere are not equivalent: a piece that ends between the carriage return and the line
  feed of a header line makes the line feed an empty line, and a start line is taken as soon as it
  looks complete.
\<close>

lemma header_split_line_end:
  "hp_feed ascii_env 0 None (sample_cfg [] zend_hash_init) [''A: b'' @ [CR], LF # ''C: d'' @ [CR, LF, CR, LF]] =
     Some (HP_DONE, sample_cfg (''C: d'' @ [CR, LF, CR, LF]) (0, [(KStr ''A'', ZStr ''b'')]))"
  by code_simp

lemma header_split_start_line:
  "map_option fst (hp_feed ascii_env 0 None (sample_cfg [] zend_hash_init) [''HTTP/1.1 200'', [CR, LF] @ ''C: d'' @ [CR, LF, CR, LF]]) =
     Some HP_DONE"
  by code_simp

text \<open>A header whose value ends in a space and a version is taken for a request line.\<close>

definition collect_infos :: "php_http_info list info_callback" where
  "collect_infos m h i = (case i of Some i \<Rightarrow> (m @ [i], h) | None \<Rightarrow> (m, h))"

lemma header_taken_for_request:
  "map_option (map info_type \<circ> hc_arg \<circ> snd) (php_http_header_parser_parse ascii_env php_http_header_parser_init
      (''A: b HTTP/1.1'' @ [CR, LF, CR, LF]) 0 (Some zend_hash_init) (Some collect_infos) []) = Some [PHP_HTTP_REQUEST]"
  by code_simp

text \<open>
  A line that begins with a space and holds a version, behind a start line, makes the parser read in
  front of its buffer; after a failure, parsing with an empty buffer reads in front of the state table.
\<close>

lemma header_parser_underreads:
  "php_http_header_parser_parse ascii_env php_http_header_parser_init (''HTTP/1.1 200'' @ [CR, LF] @ '' HTTP/1.1'' @ [CR, LF])
     0 (Some zend_hash_init) (None :: unit info_callback option) () = None"
  "hp_feed ascii_env 1 None (sample_cfg [] zend_hash_init) [''A: b'' @ [NUL] @ ''c'', []] = None"
  by code_simp+

end
