(* ===== verification/Http_Header.thy ===== *)
theory Http_Header
  imports Http_Header_Parser
begin

text \<open>
  Header tables (\<open>php_http_header.c\<close>): parsing a string of headers into a table and printing a table.
  A formatting callback is called with strings; the model yields the list of these strings.
\<close>

section \<open>Operations\<close>

text \<open>
  \<open>php_http_header_parse\<close>: whether it succeeds, and the table and callback argument afterwards. The
  parser and the buffer are local.
\<close>

definition php_http_header_parse ::
  "url_env \<Rightarrow> bytes \<Rightarrow> hashtable option \<Rightarrow> 'm info_callback option \<Rightarrow> 'm \<Rightarrow> (bool \<times> hashtable option \<times> 'm) option" where
  "php_http_header_parse env header headers cb arg =
     (case php_http_header_parser_parse env php_http_header_parser_init header PHP_HTTP_HEADER_PARSER_CLEANUP headers cb arg of
        None \<Rightarrow> None
      | Some (rs, c) \<Rightarrow> Some (rs \<noteq> HP_FAILURE, hc_headers c, hc_arg c))"

text \<open>The strings are formatted with \<open>%s\<close>, which stops at a NUL.\<close>

fun php_http_header_to_callback_ex :: "bytes \<Rightarrow> bool \<Rightarrow> zval \<Rightarrow> bytes list" where
  "php_http_header_to_callback_ex key crlf (ZArr n es) =
     concat (map (\<lambda>e. php_http_header_to_callback_ex key crlf (snd e)) es)"
| "php_http_header_to_callback_ex key crlf (ZBool b) =
     [cstr key @ '': '' @ (if b then ''true'' else ''false'') @ (if crlf then [CR, LF] else [])]"
| "php_http_header_to_callback_ex key crlf v =
     [cstr key @ '': '' @ cstr (zval_get_string v) @ (if crlf then [CR, LF] else [])]"

definition php_http_header_to_callback :: "hashtable \<Rightarrow> bool \<Rightarrow> bytes list" where
  "php_http_header_to_callback headers crlf =
     concat (map (\<lambda>(k, v). case k of KStr key \<Rightarrow> php_http_header_to_callback_ex key crlf v | KInt _ \<Rightarrow> []) (snd headers))"

definition php_http_header_to_string :: "bytes \<Rightarrow> hashtable \<Rightarrow> bytes" where
  "php_http_header_to_string str headers = str @ concat (php_http_header_to_callback headers True)"

text \<open>A list of values is joined by commas (\<open>str.used\<close> tells whether something was written).\<close>

fun php_http_header_value_to_string :: "zval \<Rightarrow> bytes" where
  "php_http_header_value_to_string (ZArr n es) =
     foldl (\<lambda>str s. str @ (if str \<noteq> [] then '', '' else []) @ cstr s) []
       (map (\<lambda>e. php_http_header_value_to_string (snd e)) es)"
| "php_http_header_value_to_string (ZBool b) = (if b then ''true'' else ''false'')"
| "php_http_header_value_to_string v = zval_get_string v"

section \<open>Printing and parsing\<close>

text \<open>The end of the input is the end of the block when the parser is told to clean up.\<close>

lemma hp_parse_cleanup:
  assumes "flags AND PHP_HTTP_HEADER_PARSER_CLEANUP \<noteq> 0" "habs_ok a"
  shows "\<exists>c. hp_parse env flags cb (conf i a m []) = Some (HP_KEY, c) \<and> hc_headers c = Some (commit a) \<and> hc_arg c = m"
proof (cases "snd a")
  case None
  then show ?thesis
    by (subst hp_parse.simps) (simp add: conf_def commit_def hp_continue_def php_http_header_parser_state_is_def)
next
  case (Some nw)
  then obtain h n w where a: "a = (h, Some (n, w))" by (cases a; cases nw) auto
  then have "NUL \<notin> set w" using assms(2) by (auto simp: habs_ok_def value_ok_def)
  then have w: "cstr w = w" by simp
  let ?c = "\<lparr>hc_parser = \<lparr>hp_stack = [HP_HEADER_DONE], hp_info = i, hp_key = Some n, hp_val = Some w\<rparr>,
        hc_buf = [], hc_headers = Some h, hc_arg = m\<rparr>"
  have "hp_parse env flags cb (conf i a m []) = hp_parse env flags cb ?c"
    using assms by (intro hp_parse_next)
       (simp_all add: a conf_def hp_continue_def hp_turn_of_def php_http_header_parser_state_pop_def
         php_http_header_parser_state_is_def hp_value_ex_step_def hp_push_def php_http_header_parser_state_push_def)
  also have "\<dots> = hp_parse env flags cb (conf i (header_add h n w, None) m [])"
    by (rule hp_parse_next)
       (simp_all add: conf_def hp_continue_def hp_turn_of_def php_http_header_parser_state_pop_def
         php_http_header_parser_state_is_def hp_header_done_step_def hp_push_def php_http_header_parser_state_push_def w)
  also have "\<dots> = Some (HP_KEY, conf i (header_add h n w, None) m [])"
    by (subst hp_parse.simps) (simp add: conf_def hp_continue_def php_http_header_parser_state_is_def)
  finally show ?thesis by (simp add: a commit_def conf_def)
qed

text \<open>The tables that are read back: canonical names, and per name a value or a list of values.\<close>

definition header_values :: "zval \<Rightarrow> bytes list" where
  "header_values z = (case z of ZStr v \<Rightarrow> [v] | ZArr _ es \<Rightarrow> map (zval_get_string \<circ> snd) es | _ \<Rightarrow> [])"

definition value_list :: "bytes list \<Rightarrow> zval" where
  "value_list vs = (case vs of [v] \<Rightarrow> ZStr v | _ \<Rightarrow> ZArr (int (length vs)) (map (\<lambda>(i, v). (KInt (int i), ZStr v)) (enumerate 0 vs)))"

definition canonical_header :: "bytes \<Rightarrow> bytes list \<Rightarrow> bool" where
  "canonical_header n vs \<longleftrightarrow> n \<noteq> [] \<and> name_ok n \<and> php_http_pretty_key n True True = n \<and> numeric_key n = None \<and>
     vs \<noteq> [] \<and> (\<forall>v\<in>set vs. hline_ok (HLine n v))"

definition header_table :: "(bytes \<times> bytes list) list \<Rightarrow> hashtable" where
  "header_table hs = (0, map (\<lambda>(n, vs). (KStr n, value_list vs)) hs)"

definition table_lines :: "(bytes \<times> bytes list) list \<Rightarrow> hline list" where
  "table_lines hs = concat (map (\<lambda>(n, vs). map (HLine n) vs) hs)"

lemma value_list_snoc:
  assumes "vs \<noteq> []"
  shows "zarr (zend_hash_next_index_insert (convert_to_array (value_list vs)) (ZStr v)) = value_list (vs @ [v])"
proof (cases "\<exists>w. vs = [w]")
  case True
  then show ?thesis
    by (auto simp: value_list_def zarr_def zend_hash_next_index_insert_def convert_to_array_def zend_hash_update_def zend_hash_init_def
        next_free_def)
next
  case False
  with assms have n: "2 \<le> length vs" by (cases vs; cases "tl vs") auto
  have list: "value_list xs = ZArr (int (length xs)) (map (\<lambda>(i, v). (KInt (int i), ZStr v)) (enumerate 0 xs))"
    if "2 \<le> length xs" for xs using that by (auto simp: value_list_def split: list.splits)
  have "KInt (int (length vs)) \<notin> fst ` set (map (\<lambda>(i, v). (KInt (int i), ZStr v)) (enumerate 0 vs))"
    by (auto simp: in_set_enumerate_eq)
  then have "assoc_update (KInt (int (length vs))) (ZStr v) (map (\<lambda>(i, v). (KInt (int i), ZStr v)) (enumerate 0 vs)) =
      map (\<lambda>(i, v). (KInt (int i), ZStr v)) (enumerate 0 vs) @ [(KInt (int (length vs)), ZStr v)]"
    by (rule assoc_update_fresh)
  then show ?thesis
    using n by (simp add: list zarr_def zend_hash_next_index_insert_def convert_to_array_def zend_hash_update_def next_free_def
        enumerate_append_eq)
qed

lemma commit_lines:
  "commit (fold abs_line (map (\<lambda>(n, v). HLine n v) ps) a) = fold (\<lambda>(n, v) h. header_add h n v) ps (commit a)"
  by (induction ps arbitrary: a) (auto simp: commit_def)

lemma header_add_first:
  assumes "canonical_header n vs" "n \<notin> fst ` set hs"
  shows "header_add (header_table hs) n v = header_table (hs @ [(n, [v])])"
proof -
  have k: "symtable_key (php_http_pretty_key n True True) = KStr n"
    using assms(1) by (simp add: canonical_header_def symtable_key_def)
  have fresh: "KStr n \<notin> fst ` set (snd (header_table hs))" using assms(2) by (force simp: header_table_def)
  then have "zend_hash_find (header_table hs) (KStr n) = None" by (simp add: zend_hash_find_def map_of_eq_None_iff)
  then show ?thesis
    using assoc_update_fresh [OF fresh, of "ZStr v"]
    by (simp add: header_add_def k zend_hash_update_def header_table_def next_free_def value_list_def)
qed

lemma header_add_more:
  assumes "canonical_header n vs" "n \<notin> fst ` set hs" "ws \<noteq> []"
  shows "header_add (header_table (hs @ [(n, ws)])) n v = header_table (hs @ [(n, ws @ [v])])"
proof -
  have k: "symtable_key (php_http_pretty_key n True True) = KStr n"
    using assms(1) by (simp add: canonical_header_def symtable_key_def)
  have fresh: "KStr n \<notin> fst ` set (snd (header_table hs))" using assms(2) by (force simp: header_table_def)
  then have find: "zend_hash_find (header_table (hs @ [(n, ws)])) (KStr n) = Some (value_list ws)"
  proof -
    from fresh have "map_of (snd (header_table hs)) (KStr n) = None" by (simp add: map_of_eq_None_iff)
    then show ?thesis by (simp add: zend_hash_find_def header_table_def map_add_def)
  qed
  have upd: "assoc_update k z (es @ [(k, y)]) = es @ [(k, z)]" if "k \<notin> fst ` set es" for k and y z :: zval and es
    using that by (induction es) auto
  show ?thesis
    using find upd [OF fresh, of "value_list (ws @ [v])" "value_list ws"]
    by (simp add: header_add_def k value_list_snoc [OF assms(3)] zend_hash_update_def next_free_def) (simp add: header_table_def)
qed

lemma header_add_values:
  assumes "canonical_header n vs" "n \<notin> fst ` set hs" "us \<noteq> []"
  shows "fold (\<lambda>(n, v) h. header_add h n v) (map (Pair n) us) (header_table hs) = header_table (hs @ [(n, us)])"
proof -
  obtain u us' where us: "us = u # us'" using assms(3) by (cases us) auto
  have "fold (\<lambda>(n, v) h. header_add h n v) (map (Pair n) vs') (header_table (hs @ [(n, ws)])) = header_table (hs @ [(n, ws @ vs')])"
    if "ws \<noteq> []" for ws vs'
    using that by (induction vs' arbitrary: ws) (simp_all add: header_add_more [OF assms(1,2)])
  from this [of "[u]" us'] show ?thesis by (simp add: us header_add_first [OF assms(1,2)])
qed

lemma header_add_table:
  assumes "\<forall>(n, vs)\<in>set hs. canonical_header n vs" "distinct (map fst (gs @ hs))"
  shows "fold (\<lambda>(n, v) h. header_add h n v) (concat (map (\<lambda>(n, vs). map (Pair n) vs) hs)) (header_table gs) = header_table (gs @ hs)"
  using assms
proof (induction hs arbitrary: gs)
  case (Cons nv hs)
  obtain n vs where nv: "nv = (n, vs)" by (cases nv)
  with Cons.prems have c: "canonical_header n vs" "n \<notin> fst ` set gs" "vs \<noteq> []" by (auto simp: canonical_header_def)
  from Cons.IH [of "gs @ [nv]"] Cons.prems show ?case by (simp add: nv header_add_values [OF c])
qed simp

lemma block_ok_lines: "(\<forall>l\<in>set ls. hline_ok l \<and> (\<exists>n v. l = HLine n v)) \<Longrightarrow> block_ok op ls"
  by (induction ls arbitrary: op) auto

text \<open>Printing gives exactly the header lines.\<close>

lemma cstr_name: "name_ok n \<Longrightarrow> cstr n = n"
  by (rule cstr_no_NUL) (auto dest!: name_chars simp: word_char_def line_char_def)

lemma seg_cstr: "seg_ok v \<Longrightarrow> cstr v = v"
  by (rule cstr_no_NUL) (auto simp: seg_ok_def value_ok_def)

lemma print_values:
  assumes "canonical_header n vs"
  shows "php_http_header_to_callback_ex n True (value_list vs) = map (\<lambda>v. hline_bytes (HLine n v)) vs"
proof -
  have n: "cstr n = n" and v: "\<forall>v\<in>set vs. cstr v = v" "vs \<noteq> []"
    using assms cstr_name seg_cstr by (auto simp: canonical_header_def)
  have one: "php_http_header_to_callback_ex n True (ZStr v) = [hline_bytes (HLine n v)]" if "v \<in> set vs" for v
    using n v that by (simp add: zval_get_string_def)
  show ?thesis
  proof (cases "\<exists>w. vs = [w]")
    case True
    then show ?thesis using one by (auto simp: value_list_def)
  next
    case False
    then have "value_list vs = ZArr (int (length vs)) (map (\<lambda>(i, v). (KInt (int i), ZStr v)) (enumerate 0 vs))"
      using v(2) by (auto simp: value_list_def split: list.splits)
    moreover have "concat (map (\<lambda>e. php_http_header_to_callback_ex n True (snd e)) (map (\<lambda>(i, v). (KInt (int i), ZStr v)) (enumerate k us)))
        = map (\<lambda>v. hline_bytes (HLine n v)) us" if "set us \<subseteq> set vs" for k us
      using that one by (induction us arbitrary: k) (simp_all del: php_http_header_to_callback_ex.simps hline_bytes.simps)
    ultimately show ?thesis by simp
  qed
qed

lemma print_table:
  assumes "\<forall>(n, vs)\<in>set hs. canonical_header n vs"
  shows "php_http_header_to_string str (header_table hs) = str @ concat (map hline_bytes (table_lines hs))"
proof -
  have "concat (php_http_header_to_callback (header_table hs) True) = concat (map hline_bytes (table_lines hs))"
    using assms by (induction hs)
      (auto simp: php_http_header_to_callback_def header_table_def table_lines_def print_values comp_def)
  then show ?thesis by (simp add: php_http_header_to_string_def)
qed

text \<open>C33. Parsing inverts printing of header tables: a table of canonical, pairwise different names with one
  or several values each (values without line ends and NUL, not beginning or ending in a space, not
  holding a version) is printed to a string that is parsed successfully into exactly the same table.\<close>

theorem header_print_parse:
  assumes "\<forall>(n, vs)\<in>set hs. canonical_header n vs" "distinct (map fst hs)" "hs \<noteq> []"
  shows "php_http_header_parse env (php_http_header_to_string [] (header_table hs)) (Some zend_hash_init) cb m =
    Some (True, Some (header_table hs), m)"
proof -
  let ?ls = "table_lines hs" and ?b = "concat (map hline_bytes (table_lines hs))"
  have lines: "?ls = map (\<lambda>(n, v). HLine n v) (concat (map (\<lambda>(n, vs). map (Pair n) vs) hs))"
    by (auto simp: table_lines_def map_concat comp_def split_def)
  have ok: "block_ok False ?ls"
    using assms(1) by (intro block_ok_lines) (fastforce simp: table_lines_def canonical_header_def simp del: hline_ok.simps)
  have ne: "?ls \<noteq> []" using assms(1,3) by (cases hs) (auto simp: table_lines_def canonical_header_def)
  have b: "?b \<noteq> []" "\<not> isspace (hd ?b)" using block_start [OF ok ne] ne by (cases ?ls; simp)+
  have ok0: "habs_ok (zend_hash_init, None)" by (simp add: habs_ok_def)
  let ?a = "fold abs_line ?ls (zend_hash_init, None)"
  have a: "habs_ok ?a" using ok ok0 by (intro hp_lines(2)) simp_all
  have "hp_parse env PHP_HTTP_HEADER_PARSER_CLEANUP cb (conf php_http_info_init (zend_hash_init, None) m (?b @ [])) =
      hp_parse env PHP_HTTP_HEADER_PARSER_CLEANUP cb (conf php_http_info_init ?a m [])"
    using ok ok0 by (intro hp_lines(1)) simp_all
  moreover obtain c where c: "hp_parse env PHP_HTTP_HEADER_PARSER_CLEANUP cb (conf php_http_info_init ?a m []) = Some (HP_KEY, c)"
    "hc_headers c = Some (commit ?a)" "hc_arg c = m"
    using hp_parse_cleanup [of PHP_HTTP_HEADER_PARSER_CLEANUP ?a env cb php_http_info_init m] a by (auto simp: PHP_HTTP_HEADER_PARSER_CLEANUP_def)
  moreover have "commit ?a = header_table hs"
    using header_add_table [of hs "[]"] assms(1,2) unfolding lines commit_lines
    by (simp add: commit_def header_table_def zend_hash_init_def)
  ultimately show ?thesis
    unfolding php_http_header_parse_def php_http_header_parser_parse_def print_table [OF assms(1)]
    by (simp add: hp_parse_start_init [OF b])
qed

definition sample_pairs :: "(bytes \<times> bytes list) list" where
  "sample_pairs = [(''Host'', [''a.b'']), (''Accept'', [''text/html'', ''*/*''])]"

lemma sample_pairs_ok: "\<forall>(n, vs)\<in>set sample_pairs. canonical_header n vs" "distinct (map fst sample_pairs)" "sample_pairs \<noteq> []"
  by code_simp+

theorem header_print_parse_witness:
  "php_http_header_parse ascii_env (php_http_header_to_string [] (header_table sample_pairs)) (Some zend_hash_init) None () =
     Some (True, Some (header_table sample_pairs), ())"
  by (rule header_print_parse [OF sample_pairs_ok])

end
