(* ===== verification/Http_Message_Body.thy ===== *)
theory Http_Message_Body
  imports Http_Buffer Http_Zend
begin

text \<open>
  Message bodies (\<open>php_http_message_body.c\<close>). A body is the contents of its stream, its multipart
  boundary and whether a read filter is attached. Appending seeks to the end first, so the position of
  the stream is no part of the state. The stream layer and helpers of the host are a record of
  functions: the random numbers of a new boundary, truncation of a stream to a size, escaping with
  slashes, and the base name of a path. Several owners of one body (\<open>refcount\<close>) are not represented.
\<close>

section \<open>State\<close>

record php_http_message_body =
  body_data :: bytes
  body_boundary :: "bytes option"
  body_filtered :: bool

record body_env =
  be_lcg :: "32 word \<times> 32 word"
  be_truncate :: "bytes \<Rightarrow> size_t \<Rightarrow> bytes"
  be_addslashes :: "bytes \<Rightarrow> bytes"
  be_basename :: "bytes \<Rightarrow> bytes"

definition php_http_message_body_init :: php_http_message_body where
  "php_http_message_body_init = \<lparr>body_data = [], body_boundary = None, body_filtered = False\<rparr>"

definition php_http_message_body_size :: "php_http_message_body \<Rightarrow> size_t" where
  "php_http_message_body_size body = of_nat (length (body_data body))"

definition php_http_message_body_boundary :: "body_env \<Rightarrow> php_http_message_body \<Rightarrow> bytes \<times> php_http_message_body" where
  "php_http_message_body_boundary env body =
     (case body_boundary body of
        Some b \<Rightarrow> (b, body)
      | None \<Rightarrow> let b = hex (unat (fst (be_lcg env))) @ ''.'' @ hex (unat (snd (be_lcg env)))
                in (b, body\<lparr>body_boundary := Some b\<rparr>))"

definition php_http_message_body_append :: "bytes \<Rightarrow> php_http_message_body \<Rightarrow> php_http_message_body" where
  "php_http_message_body_append buf body = body\<lparr>body_data := body_data body @ buf\<rparr>"

section \<open>Reading\<close>

text \<open>
  A slice of the contents: \<open>forlen\<close> zero stands for everything behind the offset (it becomes
  \<open>(size_t) -1\<close>).
\<close>

definition forlen_of :: "size_t \<Rightarrow> size_t" where
  "forlen_of forlen = (if forlen = 0 then - 1 else forlen)"

definition php_http_message_body_to_string :: "php_http_message_body \<Rightarrow> size_t \<Rightarrow> size_t \<Rightarrow> bytes" where
  "php_http_message_body_to_string body offset forlen =
     take (unat (forlen_of forlen)) (drop (unat offset) (body_data body))"

text \<open>The copy is appended to the contents of the destination.\<close>

definition php_http_message_body_to_stream ::
  "php_http_message_body \<Rightarrow> bytes \<Rightarrow> size_t \<Rightarrow> size_t \<Rightarrow> bytes" where
  "php_http_message_body_to_stream body dst offset forlen =
     dst @ take (unat (forlen_of forlen)) (drop (unat offset) (body_data body))"

text \<open>\<open>php_http_message_body_copy\<close> into a new body, the only way it is called.\<close>

definition php_http_message_body_copy :: "php_http_message_body option \<Rightarrow> php_http_message_body option" where
  "php_http_message_body_copy from =
     (case from of
        None \<Rightarrow> None
      | Some f \<Rightarrow>
          let to = php_http_message_body_init;
              to = to\<lparr>body_data := php_http_message_body_to_stream f (body_data to) 0 0\<rparr>
          in Some (case body_boundary f of None \<Rightarrow> to | Some b \<Rightarrow> to\<lparr>body_boundary := Some b\<rparr>))"

text \<open>
  The loop of \<open>php_http_message_body_to_callback\<close>. \<open>eof\<close> is what the stream says at a position. The
  result tells success (\<open>-1\<close> of the callback is a failure); \<^const>\<open>None\<close> is a loop that does not end. The
  bound \<open>8\<close> is \<open>sizeof(buf)\<close>, the size of a pointer.
\<close>

partial_function (option) body_callback_loop ::
  "(nat \<Rightarrow> bool) \<Rightarrow> bytes \<Rightarrow> nat \<Rightarrow> size_t \<Rightarrow> 'o pass_func \<Rightarrow> 'o \<Rightarrow> (bool \<times> 'o) option" where
  "body_callback_loop eof dat pos forlen cb arg =
     (if eof pos then Some (True, arg)
      else let buf = take (unat (min forlen 0x1000)) (drop pos dat);
               (r, arg) = (if buf \<noteq> [] then cb arg buf else (0, arg)) in
        if r = - 1 then Some (False, arg)
        else if of_nat (length buf) < min forlen 8 then Some (True, arg)
        else if forlen \<noteq> 0 \<and> forlen - of_nat (length buf) = 0 then Some (True, arg)
        else body_callback_loop eof dat (pos + length buf)
               (if forlen \<noteq> 0 then forlen - of_nat (length buf) else forlen) cb arg)"

declare body_callback_loop.simps [code]

definition php_http_message_body_to_callback ::
  "(nat \<Rightarrow> bool) \<Rightarrow> php_http_message_body \<Rightarrow> 'o pass_func \<Rightarrow> 'o \<Rightarrow> size_t \<Rightarrow> size_t \<Rightarrow> (bool \<times> 'o) option" where
  "php_http_message_body_to_callback eof body cb arg offset forlen =
     body_callback_loop eof (body_data body) (unat offset) (forlen_of forlen) cb arg"

section \<open>Multipart bodies\<close>

definition BOUNDARY_OPEN :: "body_env \<Rightarrow> php_http_message_body \<Rightarrow> php_http_message_body" where
  "BOUNDARY_OPEN env body =
     (let size = php_http_message_body_size body in
      if size \<noteq> 0
      then php_http_message_body_append [CR, LF] (body\<lparr>body_data := be_truncate env (body_data body) (size - 4)\<rparr>)
      else let (b, body) = php_http_message_body_boundary env body
           in php_http_message_body_append (''--'' @ cstr b @ [CR, LF]) body)"

definition BOUNDARY_CLOSE :: "body_env \<Rightarrow> php_http_message_body \<Rightarrow> php_http_message_body" where
  "BOUNDARY_CLOSE env body =
     (let (b, body) = php_http_message_body_boundary env body
      in php_http_message_body_append ([CR, LF] @ ''--'' @ cstr b @ ''--'' @ [CR, LF]) body)"

definition php_http_message_body_add_form_field ::
  "body_env \<Rightarrow> bytes \<Rightarrow> bytes \<Rightarrow> php_http_message_body \<Rightarrow> php_http_message_body" where
  "php_http_message_body_add_form_field env name val body =
     (let safe_name = be_addslashes env (cstr name);
          body = BOUNDARY_OPEN env body;
          body = php_http_message_body_append
                   (''Content-Disposition: form-data; name='' @ CHR 0x22 # cstr safe_name @ CHR 0x22 # [CR, LF] @ [CR, LF]) body;
          body = php_http_message_body_append val body
      in BOUNDARY_CLOSE env body)"

text \<open>The file is what can still be read from its stream.\<close>

definition php_http_message_body_add_form_file ::
  "body_env \<Rightarrow> bytes \<Rightarrow> bytes \<Rightarrow> bytes \<Rightarrow> bytes \<Rightarrow> php_http_message_body \<Rightarrow> php_http_message_body" where
  "php_http_message_body_add_form_file env name ctype path file body =
     (let safe_name = be_addslashes env (cstr name);
          base_name = be_basename env (cstr path);
          body = BOUNDARY_OPEN env body;
          body = php_http_message_body_append
                   (''Content-Disposition: form-data; name='' @ CHR 0x22 # cstr safe_name @ CHR 0x22 #
                    ''; filename='' @ CHR 0x22 # cstr base_name @ CHR 0x22 # [CR, LF] @
                    ''Content-Transfer-Encoding: binary'' @ [CR, LF] @
                    ''Content-Type: '' @ cstr ctype @ [CR, LF] @ [CR, LF]) body;
          body = php_http_message_body_append file body
      in BOUNDARY_CLOSE env body)"

text \<open>Names of nested fields; an index is printed as an unsigned number.\<close>

definition format_key :: "zkey \<Rightarrow> bytes option \<Rightarrow> bytes" where
  "format_key key pre =
     (let k = (case key of KStr s \<Rightarrow> cstr s | KInt i \<Rightarrow> dec (nat (i mod 2 ^ 64))) in
      case pre of
        Some p \<Rightarrow> if cstr p \<noteq> [] then cstr p @ ''['' @ k @ '']'' else k
      | None \<Rightarrow> k)"

definition add_recursive_field_value ::
  "body_env \<Rightarrow> bytes \<Rightarrow> zval \<Rightarrow> php_http_message_body \<Rightarrow> php_http_message_body" where
  "add_recursive_field_value env name val body =
     php_http_message_body_add_form_field env name (zval_get_string val) body"

fun add_recursive_fields ::
  "body_env \<Rightarrow> bytes option \<Rightarrow> (zkey \<times> zval) list \<Rightarrow> php_http_message_body \<Rightarrow> php_http_message_body" where
  "add_recursive_fields env name [] body = body"
| "add_recursive_fields env name ((key, ZArr n es) # flds) body =
     add_recursive_fields env name flds (add_recursive_fields env (Some (format_key key name)) es body)"
| "add_recursive_fields env name ((key, val) # flds) body =
     add_recursive_fields env name flds (add_recursive_field_value env (format_key key name) val body)"

text \<open>
  Files: an entry with \<open>name\<close>, \<open>type\<close> and \<open>file\<close> is sent, anything else is searched for entries. The
  contents are those of \<open>data\<close>, or what opening the path yields (\<open>open\<close>; \<^const>\<open>None\<close> if it fails, which
  ends the operation with a failure).
\<close>

definition file_entry :: "(zkey \<times> zval) list \<Rightarrow> (bytes \<times> bytes \<times> bytes \<times> zval option) option" where
  "file_entry files =
     (case (map_of files (KStr ''name''), map_of files (KStr ''type''), map_of files (KStr ''file'')) of
        (Some zname, Some ztype, Some zfile) \<Rightarrow>
          Some (zval_get_string zname, zval_get_string ztype, zval_get_string zfile, map_of files (KStr ''data''))
      | _ \<Rightarrow> None)"

function (sequential) add_recursive_files ::
  "body_env \<Rightarrow> (bytes \<Rightarrow> bytes option) \<Rightarrow> bytes option \<Rightarrow> (zkey \<times> zval) list \<Rightarrow> php_http_message_body \<Rightarrow>
     bool \<times> php_http_message_body"
and add_file_list ::
  "body_env \<Rightarrow> (bytes \<Rightarrow> bytes option) \<Rightarrow> bytes option \<Rightarrow> (zkey \<times> zval) list \<Rightarrow> php_http_message_body \<Rightarrow>
     bool \<times> php_http_message_body" where
  "add_recursive_files env opn name files body =
     (case file_entry files of
        None \<Rightarrow> add_file_list env opn name files body
      | Some (zname, ztype, zfile, zdata) \<Rightarrow>
          (case (case zdata of Some d \<Rightarrow> Some (zval_get_string d) | None \<Rightarrow> opn (cstr zfile)) of
             None \<Rightarrow> (False, body)
           | Some file \<Rightarrow>
               (True, php_http_message_body_add_form_file env (format_key (KStr zname) name) ztype zfile file body)))"
| "add_file_list env opn name [] body = (True, body)"
| "add_file_list env opn name ((key, ZArr n es) # files) body =
     (let str = (case key of KStr _ \<Rightarrow> Some (format_key key name) | KInt _ \<Rightarrow> name);
          (ok, body) = add_recursive_files env opn str es body
      in if ok then add_file_list env opn name files body else (False, body))"
| "add_file_list env opn name ((key, val) # files) body = add_file_list env opn name files body"
  by pat_completeness auto
termination
  by (relation "measure (\<lambda>s. case s of Inl (_, _, _, fs, _) \<Rightarrow> 2 * size_list (size_prod (\<lambda>x. 0) size) fs + 1
        | Inr (_, _, _, fs, _) \<Rightarrow> 2 * size_list (size_prod (\<lambda>x. 0) size) fs)")
     auto

definition php_http_message_body_add_form ::
  "body_env \<Rightarrow> (bytes \<Rightarrow> bytes option) \<Rightarrow> (zkey \<times> zval) list option \<Rightarrow> (zkey \<times> zval) list option \<Rightarrow>
     php_http_message_body \<Rightarrow> bool \<times> php_http_message_body" where
  "php_http_message_body_add_form env opn flds files body =
     (let body = (case flds of None \<Rightarrow> body | Some es \<Rightarrow> add_recursive_fields env None es body) in
      case files of None \<Rightarrow> (True, body) | Some es \<Rightarrow> add_recursive_files env opn None es body)"

section \<open>Facts on reading\<close>

lemma unat_min: "unat (min a b :: size_t) = min (unat a) (unat b)"
  by (simp add: min_def word_le_nat_alt)

text \<open>The loop with an invariant of the callback, which may speak of the pieces it has seen.\<close>

lemma body_callback_loop_keeps:
  assumes "\<And>a ds p. I a ds \<Longrightarrow> p \<noteq> [] \<Longrightarrow> length p \<le> 0x1000 \<Longrightarrow> fst (cb a p) \<noteq> - 1 \<and> I (snd (cb a p)) (ds @ [p])"
    "\<And>p. eof p \<Longrightarrow> length dat \<le> p" "length dat < 2 ^ 64" "forlen \<noteq> 0" "I arg ds"
  shows "\<exists>ps a. body_callback_loop eof dat pos forlen cb arg = Some (True, a) \<and> I a (ds @ ps) \<and>
           concat ps = take (unat forlen) (drop pos dat) \<and> (\<forall>p\<in>set ps. p \<noteq> [] \<and> length p \<le> 0x1000)"
  using assms(4,5)
proof (induction "length dat - pos" arbitrary: pos forlen arg ds rule: less_induct)
  case less
  let ?n = "unat (min forlen 0x1000)" and ?rest = "drop pos dat"
  define buf where "buf = take ?n ?rest"
  let ?arg = "if buf \<noteq> [] then snd (cb arg buf) else arg"
  define here where "here = (if buf = [] then [] else [buf])"
  have len: "length buf = min ?n (length ?rest)" "length buf \<le> 0x1000" "length buf < 2 ^ 64"
    using assms(3) by (simp_all add: buf_def unat_min)
  have ub: "unat (of_nat (length buf) :: size_t) = length buf" using len(3) by (intro unat_of_nat_size_t) simp
  have arg': "I ?arg (ds @ here)" using assms(1) [OF less.prems(2), of buf] less.prems(2) len(2) by (simp add: here_def)
  have cb: "buf \<noteq> [] \<Longrightarrow> fst (cb arg buf) \<noteq> - 1" using assms(1) [OF less.prems(2), of buf] len(2) by simp
  have step: "body_callback_loop eof dat pos forlen cb arg =
      (if eof pos then Some (True, arg)
       else if of_nat (length buf) < min forlen 8 \<or> forlen = of_nat (length buf) then Some (True, ?arg)
       else body_callback_loop eof dat (pos + length buf) (forlen - of_nat (length buf)) cb ?arg)"
    using cb less.prems(1) by (subst body_callback_loop.simps) (simp add: buf_def [symmetric] split_def Let_def)
  have stop: ?case if "body_callback_loop eof dat pos forlen cb arg = Some (True, ?arg)" "buf = take (unat forlen) ?rest"
    using that len(2) arg' by (intro exI [of _ here] exI [of _ ?arg]) (auto simp: here_def)
  consider (eof) "eof pos" | (short) "\<not> eof pos" "of_nat (length buf) < min forlen 8"
    | (full) "\<not> eof pos" "\<not> of_nat (length buf) < min forlen 8" "forlen = of_nat (length buf)"
    | (more) "\<not> eof pos" "\<not> of_nat (length buf) < min forlen 8" "forlen \<noteq> of_nat (length buf)" by blast
  then show ?case
  proof cases
    case eof
    with assms(2) have "?rest = []" by simp
    with eof less.prems(2) show ?thesis by (intro exI [of _ "[]"] exI [of _ arg]) (simp add: body_callback_loop.simps)
  next
    case short
    then have "length buf < min (unat forlen) 8" by (simp add: word_less_nat_alt ub unat_min)
    then have "length buf = length ?rest" "length ?rest < unat forlen" using len(1) by (auto simp: unat_min min_def split: if_splits)
    then have eq: "buf = take (unat forlen) ?rest" by (simp add: buf_def)
    have "body_callback_loop eof dat pos forlen cb arg = Some (True, ?arg)"
      unfolding step using short by (simp only: if_False simp_thms if_True)
    then show ?thesis using eq by (rule stop)
  next
    case full
    then have "unat forlen = length buf" using ub by simp
    then have "min (unat forlen) 0x1000 = unat forlen" using len(2) by simp
    then have eq: "buf = take (unat forlen) ?rest" by (simp add: buf_def unat_min)
    have "body_callback_loop eof dat pos forlen cb arg = Some (True, ?arg)"
      unfolding step using full(1,3) by (simp only: if_False simp_thms if_True)
    then show ?thesis using eq by (rule stop)
  next
    case more
    let ?f = "forlen - of_nat (length buf)"
    have le: "length buf \<le> unat forlen" using len(1) by (simp add: unat_min)
    have "\<not> length buf < min (unat forlen) 8" using more(2) by (simp add: word_less_nat_alt ub unat_min)
    moreover have "unat forlen \<noteq> 0" using less.prems(1) by (simp add: unat_eq_zero)
    ultimately have ne: "buf \<noteq> []" by auto
    then have dec: "length dat - (pos + length buf) < length dat - pos"
      unfolding buf_def by (cases "pos < length dat") (auto simp: min_def split: if_splits)
    have f: "?f \<noteq> 0" "unat ?f = unat forlen - length buf"
      using more(3) le by (simp_all add: unat_minus_size_t ub word_less_nat_alt word_le_nat_alt unat_sub)
    have "I (snd (cb arg buf)) (ds @ [buf])" using arg' ne by (simp add: here_def)
    from less.hyps [OF dec f(1) this] obtain ps a where ps:
      "body_callback_loop eof dat (pos + length buf) ?f cb (snd (cb arg buf)) = Some (True, a)" "I a ((ds @ [buf]) @ ps)"
      "concat ps = take (unat ?f) (drop (pos + length buf) dat)" "\<forall>p\<in>set ps. p \<noteq> [] \<and> length p \<le> 0x1000" by blast
    have "body_callback_loop eof dat pos forlen cb arg = body_callback_loop eof dat (pos + length buf) ?f cb (snd (cb arg buf))"
      unfolding step using more ne by (simp only: if_False simp_thms if_True)
    moreover have "take (unat forlen) ?rest = buf @ concat ps"
    proof -
      have "buf = take (length buf) ?rest" by (simp add: buf_def take_all_iff min_def)
      moreover have "take (unat forlen) ?rest = take (length buf) ?rest @ take (unat forlen - length buf) (drop (length buf) ?rest)"
        using le by (metis le_add_diff_inverse take_add)
      ultimately show ?thesis using ps(3) f(2) by (simp add: add.commute)
    qed
    ultimately show ?thesis using ps ne len(2) by (intro exI [of _ "buf # ps"] exI [of _ a]) simp
  qed
qed

lemma body_callback_loop_delivers:
  assumes "\<And>a p. length p \<le> 0x1000 \<Longrightarrow> fst (cb a p) \<noteq> - 1" "\<And>p. eof p \<Longrightarrow> length dat \<le> p" "length dat < 2 ^ 64" "forlen \<noteq> 0"
  shows "\<exists>ps. body_callback_loop eof dat pos forlen cb arg = Some (True, fold (\<lambda>p a. snd (cb a p)) ps arg) \<and>
           concat ps = take (unat forlen) (drop pos dat) \<and> (\<forall>p\<in>set ps. p \<noteq> [] \<and> length p \<le> 0x1000)"
proof -
  have "\<exists>ps a. body_callback_loop eof dat pos forlen cb arg = Some (True, a) \<and> a = fold (\<lambda>p a. snd (cb a p)) ([] @ ps) arg \<and>
           concat ps = take (unat forlen) (drop pos dat) \<and> (\<forall>p\<in>set ps. p \<noteq> [] \<and> length p \<le> 0x1000)"
    by (rule body_callback_loop_keeps [where I = "\<lambda>a ps. a = fold (\<lambda>p a. snd (cb a p)) ps arg"]) (use assms in simp_all)
  then show ?thesis by auto
qed

section \<open>Facts on multipart bodies\<close>

text \<open>A multipart body with the given boundary and parts, and the part of a form field.\<close>

definition multipart :: "bytes \<Rightarrow> bytes list \<Rightarrow> bytes" where
  "multipart b ps =
     (if ps = [] then []
      else concat (map (\<lambda>p. ''--'' @ b @ [CR, LF] @ p @ [CR, LF]) ps) @ ''--'' @ b @ ''--'' @ [CR, LF])"

definition field_part :: "body_env \<Rightarrow> bytes \<times> bytes \<Rightarrow> bytes" where
  "field_part env = (\<lambda>(name, val).
     ''Content-Disposition: form-data; name='' @ CHR 0x22 # cstr (be_addslashes env (cstr name)) @ CHR 0x22 # [CR, LF, CR, LF] @ val)"

text \<open>The fields of a form, flattened.\<close>

fun flat_fields :: "bytes option \<Rightarrow> (zkey \<times> zval) list \<Rightarrow> (bytes \<times> bytes) list" where
  "flat_fields name [] = []"
| "flat_fields name ((key, val) # flds) =
     (case val of ZArr n es \<Rightarrow> flat_fields (Some (format_key key name)) es
      | _ \<Rightarrow> [(format_key key name, zval_get_string val)]) @ flat_fields name flds"

text \<open>The documented behaviour of truncation: a size up to the present one keeps a prefix.\<close>

definition truncates :: "body_env \<Rightarrow> bool" where
  "truncates env \<longleftrightarrow> (\<forall>d n. unat n \<le> length d \<longrightarrow> be_truncate env d n = take (unat n) d)"

text \<open>The boundary a body uses: its own, or the one it will make up.\<close>

definition boundary_of :: "body_env \<Rightarrow> php_http_message_body \<Rightarrow> bytes" where
  "boundary_of env body = fst (php_http_message_body_boundary env body)"

text \<open>A body that consists of parts; one that is not empty has its boundary.\<close>

definition is_multipart :: "bytes \<Rightarrow> bytes list \<Rightarrow> body_env \<Rightarrow> php_http_message_body \<Rightarrow> bool" where
  "is_multipart b ps env body \<longleftrightarrow>
     NUL \<notin> set b \<and> boundary_of env body = b \<and> body_data body = multipart b ps \<and> (ps \<noteq> [] \<longrightarrow> body_boundary body = Some b)"

lemma boundary_of_simps [simp]:
  "boundary_of env (body\<lparr>body_data := d\<rparr>) = boundary_of env body"
  "body_boundary body = Some b \<Longrightarrow> boundary_of env body = b"
  by (auto simp: boundary_of_def php_http_message_body_boundary_def Let_def split: option.splits)

lemma boundary_pair: "php_http_message_body_boundary env body = (boundary_of env body, body\<lparr>body_boundary := Some (boundary_of env body)\<rparr>)"
  by (auto simp: boundary_of_def php_http_message_body_boundary_def Let_def split: option.splits)

lemma multipart_snoc:
  assumes "ps \<noteq> []"
  shows "multipart b ps = butlast (butlast (butlast (butlast (multipart b ps)))) @ ''--'' @ [CR, LF]"
    "multipart b (ps @ [p]) = butlast (butlast (butlast (butlast (multipart b ps)))) @ [CR, LF] @ p @ [CR, LF] @ ''--'' @ b @ ''--'' @ [CR, LF]"
  using assms by (simp_all add: multipart_def butlast_append)

text \<open>Opening, writing and closing adds a part.\<close>

definition add_part_text :: "body_env \<Rightarrow> bytes \<Rightarrow> php_http_message_body \<Rightarrow> php_http_message_body" where
  "add_part_text env p body = BOUNDARY_CLOSE env (php_http_message_body_append p (BOUNDARY_OPEN env body))"

text \<open>On a body that is not empty, opening replaces the last four bytes.\<close>

lemma open_truncates:
  assumes "truncates env" "body_data body = d @ t" "length t = 4" "length d + 4 < 2 ^ 64"
  shows "BOUNDARY_OPEN env body = body\<lparr>body_data := d @ [CR, LF]\<rparr>"
proof -
  define n where "n = length d + 4"
  have u: "unat (of_nat n :: size_t) = n" using assms(4) by (intro unat_of_nat_size_t) (simp add: n_def)
  have ne: "of_nat n \<noteq> (0 :: size_t)" using u by (metis add_is_0 n_def unat_0 zero_neq_numeral)
  have "unat (of_nat n - 4 :: size_t) = length d"
    using u unat_minus_size_t [of 4 "of_nat n"] by (simp add: word_le_nat_alt n_def del: of_nat_add)
  then have "be_truncate env (body_data body) (of_nat n - 4) = d" using assms(1,2) by (simp add: truncates_def)
  moreover have "php_http_message_body_size body = of_nat n" using assms(2,3) by (simp add: php_http_message_body_size_def n_def)
  ultimately show ?thesis using ne by (simp add: BOUNDARY_OPEN_def php_http_message_body_append_def)
qed

lemma add_part_text_multipart:
  assumes "truncates env" "is_multipart b ps env body" "length (multipart b (ps @ [p])) < 2 ^ 64"
  shows "is_multipart b (ps @ [p]) env (add_part_text env p body)"
proof (cases "ps = []")
  case True
  with assms(2) show ?thesis
    by (simp add: is_multipart_def add_part_text_def BOUNDARY_OPEN_def BOUNDARY_CLOSE_def php_http_message_body_size_def
        php_http_message_body_append_def boundary_pair multipart_def)
next
  case False
  define d where "d = butlast (butlast (butlast (butlast (multipart b ps))))"
  have d: "multipart b ps = d @ ''--'' @ [CR, LF]" and d': "multipart b (ps @ [p]) = d @ [CR, LF] @ p @ [CR, LF] @ ''--'' @ b @ ''--'' @ [CR, LF]"
    using multipart_snoc [OF False, of b] multipart_snoc(2) [OF False, of b p] by (simp_all only: d_def)
  have dat: "body_data body = d @ ''--'' @ [CR, LF]" using assms(2) d by (simp add: is_multipart_def)
  have len: "length d + 4 < 2 ^ 64" using assms(3) unfolding d' by simp
  then have "BOUNDARY_OPEN env body = body\<lparr>body_data := d @ [CR, LF]\<rparr>" by (intro open_truncates [OF assms(1) dat]) simp_all
  then show ?thesis
    using assms(2) False d' by (simp add: is_multipart_def add_part_text_def BOUNDARY_CLOSE_def php_http_message_body_append_def boundary_pair)
qed

lemma add_form_field_part:
  "php_http_message_body_add_form_field env name val body = add_part_text env (field_part env (name, val)) body"
  by (simp add: php_http_message_body_add_form_field_def add_part_text_def field_part_def php_http_message_body_append_def Let_def)

lemma add_form_file_part:
  "php_http_message_body_add_form_file env name ctype path file body =
     add_part_text env (''Content-Disposition: form-data; name='' @ CHR 0x22 # cstr (be_addslashes env (cstr name)) @ CHR 0x22 #
       ''; filename='' @ CHR 0x22 # cstr (be_basename env (cstr path)) @ CHR 0x22 # [CR, LF] @
       ''Content-Transfer-Encoding: binary'' @ [CR, LF] @ ''Content-Type: '' @ cstr ctype @ [CR, LF, CR, LF] @ file) body"
  by (simp add: php_http_message_body_add_form_file_def add_part_text_def php_http_message_body_append_def Let_def)

lemma add_fields_fold:
  "add_recursive_fields env name flds body = fold (\<lambda>f. add_part_text env (field_part env f)) (flat_fields name flds) body"
  by (induction env name flds body rule: add_recursive_fields.induct)
     (simp_all add: add_recursive_field_value_def add_form_field_part)

lemma length_multipart_mono: "length (multipart b ps) \<le> length (multipart b (ps @ qs))"
  by (simp add: multipart_def)

lemma add_parts_multipart:
  assumes "truncates env" "is_multipart b ps env body" "length (multipart b (ps @ map (field_part env) fs)) < 2 ^ 64"
  shows "is_multipart b (ps @ map (field_part env) fs) env (fold (\<lambda>f. add_part_text env (field_part env f)) fs body)"
  using assms(2,3)
proof (induction fs arbitrary: ps body)
  case (Cons f fs)
  have "length (multipart b (ps @ [field_part env f])) < 2 ^ 64"
    using Cons.prems(2) length_multipart_mono [of b "ps @ [field_part env f]" "map (field_part env) fs"] by simp
  from Cons.IH [OF add_part_text_multipart [OF assms(1) Cons.prems(1) this]] Cons.prems(2) show ?case by simp
qed simp

section \<open>Results\<close>

text \<open>
  C23. Delivery of a body: the loop that hands a body to a callback ends and hands over, in pieces of at
  most 4096 bytes, exactly the requested slice (everything behind the offset for length zero), for every
  callback that reports no failure and every stream that reports its end only at the end.
\<close>

theorem body_to_callback_delivers:
  assumes "\<And>a p. length p \<le> 4096 \<Longrightarrow> fst (cb a p) \<noteq> - 1" "\<And>p. eof p \<Longrightarrow> length (body_data body) \<le> p" "length (body_data body) < 2 ^ 64"
  shows "\<exists>ps. php_http_message_body_to_callback eof body cb arg offset forlen = Some (True, fold (\<lambda>p a. snd (cb a p)) ps arg) \<and>
           concat ps = php_http_message_body_to_string body offset forlen \<and> (\<forall>p\<in>set ps. p \<noteq> [] \<and> length p \<le> 4096)"
  using body_callback_loop_delivers [OF assms, where forlen = "forlen_of forlen" and pos = "unat offset" and arg = arg]
  by (simp add: php_http_message_body_to_callback_def php_http_message_body_to_string_def forlen_of_def)

text \<open>A short piece that is accepted as a whole never looks like a failure.\<close>

lemma small_not_failure:
  assumes "length (p :: bytes) \<le> 4096"
  shows "(of_nat (length p) :: size_t) \<noteq> - 1"
proof -
  have "unat (of_nat (length p) :: size_t) = length p" using assms by (intro unat_of_nat_size_t) simp
  moreover have "unat (- 1 :: size_t) = 2 ^ 64 - 1" by (simp add: unsigned_minus_1_eq_mask mask_eq_exp_minus_1)
  ultimately show ?thesis using assms by auto
qed

theorem body_to_callback_delivers_witness:
  "\<exists>ps. php_http_message_body_to_callback (\<lambda>p. 5 \<le> p) \<lparr>body_data = ''hello'', body_boundary = None, body_filtered = False\<rparr>
       (\<lambda>a p. (of_nat (length p), a @ p)) [] 1 3 =
       Some (True, fold (\<lambda>p a. snd (of_nat (length p) :: size_t, a @ p)) ps []) \<and>
     concat ps = php_http_message_body_to_string \<lparr>body_data = ''hello'', body_boundary = None, body_filtered = False\<rparr> 1 3 \<and>
     [] \<notin> set ps"
proof -
  let ?b = "\<lparr>body_data = ''hello'', body_boundary = None, body_filtered = False\<rparr>"
  have "\<exists>ps. php_http_message_body_to_callback (\<lambda>p. 5 \<le> p) ?b (\<lambda>a p. (of_nat (length p), a @ p)) [] 1 3 =
       Some (True, fold (\<lambda>p a. snd (of_nat (length p) :: size_t, a @ p)) ps []) \<and>
     concat ps = php_http_message_body_to_string ?b 1 3 \<and> (\<forall>p\<in>set ps. p \<noteq> [] \<and> length p \<le> 4096)"
    by (rule body_to_callback_delivers) (simp_all add: small_not_failure)
  then show ?thesis by blast
qed

text \<open>
  C24. Forms: adding the fields of a form to an empty body succeeds and gives the multipart body
  whose parts are, in order, the flattened fields, each with its disposition header; the boundary
  of the body is the one in front of the parts.
\<close>

theorem form_multipart:
  assumes "truncates env" "b = boundary_of env php_http_message_body_init"
    "length (multipart b (map (field_part env) (flat_fields None flds))) < 2 ^ 64"
  shows "\<exists>body. php_http_message_body_add_form env opn (Some flds) None php_http_message_body_init = (True, body) \<and>
           body_data body = multipart b (map (field_part env) (flat_fields None flds)) \<and>
           (flat_fields None flds \<noteq> [] \<longrightarrow> body_boundary body = Some b)"
proof -
  have "NUL \<notin> set (hex n)" for n
    using print_num_digits [of 16 n] by (auto simp: is_digit_in_def digit_val_def ctype_simps)
  then have "NUL \<notin> set b"
    by (auto simp: assms(2) boundary_of_def php_http_message_body_boundary_def php_http_message_body_init_def Let_def)
  then have "is_multipart b [] env php_http_message_body_init"
    by (simp add: is_multipart_def assms(2)) (simp add: php_http_message_body_init_def multipart_def)
  from add_parts_multipart [OF assms(1) this, of "flat_fields None flds"] assms(3) show ?thesis
    by (simp add: php_http_message_body_add_form_def add_fields_fold is_multipart_def)
qed


definition sample_body_env :: body_env where
  "sample_body_env = \<lparr>be_lcg = (1, 2), be_truncate = (\<lambda>d n. take (unat n) d), be_addslashes = id, be_basename = id\<rparr>"

definition sample_form :: "(zkey \<times> zval) list" where
  "sample_form = [(KStr ''a'', ZStr ''x''), (KStr ''b'', ZArr 1 [(KInt 0, ZLong 7)])]"

theorem form_multipart_witness:
  "\<exists>body. php_http_message_body_add_form sample_body_env (\<lambda>_. None) (Some sample_form) None php_http_message_body_init = (True, body) \<and>
     body_data body = multipart ''1.2'' (map (field_part sample_body_env) (flat_fields None sample_form)) \<and>
     body_boundary body = Some ''1.2''"
proof -
  have truncates: "truncates sample_body_env" by (simp add: truncates_def sample_body_env_def)
  have boundary: "''1.2'' = boundary_of sample_body_env php_http_message_body_init" by code_simp
  have "length (multipart ''1.2'' (map (field_part sample_body_env) (flat_fields None sample_form))) \<le> 200" by code_simp
  then have small: "length (multipart ''1.2'' (map (field_part sample_body_env) (flat_fields None sample_form))) < 2 ^ 64" by simp
  have fields: "flat_fields None sample_form \<noteq> []" by code_simp
  from form_multipart [OF truncates boundary small] fields show ?thesis by blast
qed

text \<open>
  Adding a field to a body with other contents overwrites their last four bytes, since they are taken
  for the end of a closing boundary.
\<close>

lemma form_field_overwrites:
  assumes "truncates env" "length d < 2 ^ 32"
  shows "body_data (BOUNDARY_OPEN env (php_http_message_body_append (d @ ''abcd'') php_http_message_body_init)) = d @ [CR, LF]"
  using open_truncates [OF assms(1), of "php_http_message_body_append (d @ ''abcd'') php_http_message_body_init" d "''abcd''"] assms(2)
  by (simp add: php_http_message_body_append_def php_http_message_body_init_def)

end
