(* ===== verification/Http_Message.thy ===== *)
theory Http_Message
  imports Http_Header Http_Message_Body
begin

text \<open>
  Messages (\<open>php_http_message.c\<close>, \<open>php_http_message.h\<close>). A message holds a start line, a table of
  headers and a body, and points to its parent; a chain of messages is a list, the message pointed to
  first, its parents behind it. The operations that rearrange the pointers of a chain
  (\<open>php_http_message_reverse\<close>, \<open>php_http_message_zip\<close>) are modelled on the parent fields themselves.
\<close>

section \<open>State\<close>

record php_http_message =
  msg_info :: php_http_info
  msg_hdrs :: hashtable
  msg_body :: php_http_message_body

abbreviation msg_type :: "php_http_message \<Rightarrow> php_http_info_type" where "msg_type m \<equiv> info_type (msg_info m)"

text \<open>The union after \<open>memset\<close>, as the structure of the type.\<close>

definition zero_union :: "php_http_info_type \<Rightarrow> info_union" where
  "zero_union type = (case type of PHP_HTTP_RESPONSE \<Rightarrow> InfoResponse 0 None | _ \<Rightarrow> InfoRequest None None)"

definition php_http_message_set_type :: "php_http_info_type \<Rightarrow> php_http_message \<Rightarrow> php_http_message" where
  "php_http_message_set_type type m =
     (if type \<noteq> msg_type m
      then m\<lparr>msg_info := \<lparr>info_type = type, info_version = \<lparr>ver_major = 0, ver_minor = 0\<rparr>, info_data = zero_union type\<rparr>\<rparr>
      else m)"

definition php_http_message_init :: "php_http_info_type \<Rightarrow> php_http_message_body option \<Rightarrow> php_http_message" where
  "php_http_message_init type body =
     (let m = \<lparr>msg_info = php_http_info_init, msg_hdrs = zend_hash_init, msg_body = php_http_message_body_init\<rparr>;
          m = php_http_message_set_type type m;
          m = m\<lparr>msg_info := (msg_info m)\<lparr>info_version := \<lparr>ver_major = 1, ver_minor = 1\<rparr>\<rparr>\<rparr>
      in m\<lparr>msg_hdrs := zend_hash_init, msg_body := (case body of Some b \<Rightarrow> b | None \<Rightarrow> php_http_message_body_init)\<rparr>)"

text \<open>The fields are copied that belong to the type.\<close>

definition php_http_message_set_info :: "php_http_info \<Rightarrow> php_http_message \<Rightarrow> php_http_message" where
  "php_http_message_set_info info m =
     (let m = php_http_message_set_type (info_type info) m;
          m = m\<lparr>msg_info := (msg_info m)\<lparr>info_version := info_version info\<rparr>\<rparr>
      in case (msg_type m, info_data info) of
           (PHP_HTTP_REQUEST, InfoRequest meth url) \<Rightarrow> m\<lparr>msg_info := (msg_info m)\<lparr>info_data := InfoRequest meth url\<rparr>\<rparr>
         | (PHP_HTTP_RESPONSE, InfoResponse code status) \<Rightarrow> m\<lparr>msg_info := (msg_info m)\<lparr>info_data := InfoResponse code status\<rparr>\<rparr>
         | _ \<Rightarrow> m)"

text \<open>
  The callback of the header parser. The header parser works on the table of the first message; the
  value it hands over is put back before the chain is looked at.
\<close>

definition message_sync :: "hashtable option \<Rightarrow> php_http_message list \<Rightarrow> php_http_message list" where
  "message_sync headers msgs =
     (case (headers, msgs) of (Some h, m # ms) \<Rightarrow> m\<lparr>msg_hdrs := h\<rparr> # ms | _ \<Rightarrow> msgs)"

definition php_http_message_info_callback :: "php_http_message list info_callback" where
  "php_http_message_info_callback msgs headers info =
     (let msgs = message_sync headers msgs;
          advance = (case msgs of
              [] \<Rightarrow> True
            | old # _ \<Rightarrow> msg_type old \<noteq> PHP_HTTP_NONE \<or> zend_hash_num_elements (msg_hdrs old) \<noteq> 0);
          (msgs, headers) =
            (if advance
             then let m = php_http_message_init PHP_HTTP_NONE None in (m # msgs, Some (msg_hdrs m))
             else (msgs, headers));
          msgs = (case (info, msgs) of (Some i, m # ms) \<Rightarrow> php_http_message_set_info i m # ms | _ \<Rightarrow> msgs)
      in (msgs, headers))"

section \<open>Headers\<close>

definition php_http_message_header :: "php_http_message \<Rightarrow> bytes \<Rightarrow> zval option" where
  "php_http_message_header m key = zend_hash_find (msg_hdrs m) (symtable_key (php_http_pretty_key key True True))"

definition php_http_message_header_string :: "php_http_message \<Rightarrow> bytes \<Rightarrow> bytes option" where
  "php_http_message_header_string m key = map_option php_http_header_value_to_string (php_http_message_header m key)"

definition msg_update_header :: "bytes \<Rightarrow> zval \<Rightarrow> php_http_message \<Rightarrow> php_http_message" where
  "msg_update_header key v m = m\<lparr>msg_hdrs := zend_hash_update (msg_hdrs m) (KStr key) v\<rparr>"

definition msg_delete_header :: "bytes \<Rightarrow> php_http_message \<Rightarrow> php_http_message" where
  "msg_delete_header key m = m\<lparr>msg_hdrs := zend_hash_del (msg_hdrs m) (KStr key)\<rparr>"

definition multipart_type :: "bytes \<Rightarrow> php_http_message \<Rightarrow> php_http_message" where
  "multipart_type boundary m =
     (case php_http_message_header_string m ''Content-Type'' of
        None \<Rightarrow> msg_update_header ''Content-Type''
                  (ZStr (''multipart/form-data; boundary='' @ CHR 0x22 # cstr boundary @ [CHR 0x22])) m
      | Some ct \<Rightarrow>
          if \<not> php_http_match (Some (cstr ct)) (Some ''boundary='') PHP_HTTP_MATCH_WORD
          then msg_update_header ''Content-Type'' (ZStr (cstr ct @ ''; boundary='' @ CHR 0x22 # cstr boundary @ [CHR 0x22])) m
          else m)"

definition request_method :: "php_http_message \<Rightarrow> bytes option" where
  "request_method m = (case info_data (msg_info m) of InfoRequest meth _ \<Rightarrow> meth | InfoResponse _ _ \<Rightarrow> None)"

definition php_http_message_update_headers :: "php_http_message \<Rightarrow> php_http_message" where
  "php_http_message_update_headers m =
     (let size = php_http_message_body_size (msg_body m) in
      if body_filtered (msg_body m) then m
      else if php_http_message_header m ''Content-Range'' \<noteq> None then m
      else if size \<noteq> 0 then
        let m = msg_update_header ''Content-Length'' (ZLong (sint size)) m in
        (case body_boundary (msg_body m) of None \<Rightarrow> m | Some b \<Rightarrow> multipart_type b m)
      else case php_http_message_header_string m ''Content-Length'' of
             Some cl \<Rightarrow> if cl \<noteq> ''0'' then msg_delete_header ''Content-Length'' m else m
           | None \<Rightarrow>
               if msg_type m = PHP_HTTP_REQUEST \<and> php_http_message_header m ''Transfer-Encoding'' = None \<and>
                  0 \<le> php_http_select_str (request_method m) [''POST'', ''PUT'', ''PATCH'']
               then msg_update_header ''Content-Length'' (ZLong 0) m
               else m)"

section \<open>Printing\<close>

text \<open>The start line is printed before the headers are updated. A message without type has none.\<close>

definition message_headers :: "php_http_message \<Rightarrow> bytes \<times> php_http_message" where
  "message_headers m =
     (let tmp = (case php_http_info_to_string (msg_info m) [CR, LF] of None \<Rightarrow> [] | Some s \<Rightarrow> s);
          m = php_http_message_update_headers m
      in (php_http_header_to_string tmp (msg_hdrs m), m))"

text \<open>
  \<open>php_http_message_to_callback\<close>: what the callback returns is ignored, except in the loop over the
  body. \<open>eof\<close> is the end report of the body's stream.
\<close>

definition php_http_message_to_callback ::
  "(nat \<Rightarrow> bool) \<Rightarrow> php_http_message \<Rightarrow> 'o pass_func \<Rightarrow> 'o \<Rightarrow> ('o \<times> php_http_message) option" where
  "php_http_message_to_callback eof m cb arg =
     (let (str, m) = message_headers m;
          arg = snd (cb arg str)
      in if php_http_message_body_size (msg_body m) \<noteq> 0
         then map_option (\<lambda>(_, arg). (arg, m))
                (php_http_message_body_to_callback eof (msg_body m) cb (snd (cb arg [CR, LF])) 0 0)
         else Some (arg, m))"

text \<open>Appending to a byte string as a callback (\<open>php_http_buffer_append\<close>, which \<open>Http_Buffer\<close> shows to do that).\<close>

definition append_pass :: "bytes pass_func" where
  "append_pass str dat = (of_nat (length dat), str @ dat)"

definition php_http_message_to_string :: "(nat \<Rightarrow> bool) \<Rightarrow> php_http_message \<Rightarrow> (bytes \<times> php_http_message) option" where
  "php_http_message_to_string eof m =
     (let (str, m) = message_headers m in
      if php_http_message_body_size (msg_body m) \<noteq> 0
      then map_option (\<lambda>(_, str). (str, m))
             (php_http_message_body_to_callback eof (msg_body m) append_pass (str @ [CR, LF]) 0 0)
      else Some (str, m))"

text \<open>\<open>php_http_message_serialize\<close>: from the oldest message on; the chain keeps its order.\<close>

fun serialize_loop ::
  "(php_http_message \<Rightarrow> nat \<Rightarrow> bool) \<Rightarrow> php_http_message list \<Rightarrow> bytes \<Rightarrow> (bytes \<times> php_http_message list) option" where
  "serialize_loop eof [] str = Some (str, [])"
| "serialize_loop eof (m # ms) str =
     (case php_http_message_to_callback (eof m) m append_pass str of
        None \<Rightarrow> None
      | Some (str, m) \<Rightarrow> map_option (\<lambda>(str, ms). (str, m # ms)) (serialize_loop eof ms (str @ [CR, LF])))"

definition php_http_message_serialize ::
  "(php_http_message \<Rightarrow> nat \<Rightarrow> bool) \<Rightarrow> php_http_message list \<Rightarrow> (bytes \<times> php_http_message list) option" where
  "php_http_message_serialize eof msgs = map_option (\<lambda>(str, ms). (str, rev ms)) (serialize_loop eof (rev msgs) [])"

text \<open>\<open>php_http_message_body_add_part\<close>: a printed message becomes a part of a body.\<close>

definition body_append_pass :: "php_http_message_body pass_func" where
  "body_append_pass body buf = (of_nat (length buf), php_http_message_body_append buf body)"

definition php_http_message_body_add_part ::
  "body_env \<Rightarrow> (nat \<Rightarrow> bool) \<Rightarrow> php_http_message \<Rightarrow> php_http_message_body \<Rightarrow> (php_http_message_body \<times> php_http_message) option" where
  "php_http_message_body_add_part env eof part body =
     map_option (\<lambda>(body, part). (BOUNDARY_CLOSE env body, part))
       (php_http_message_to_callback eof part body_append_pass (BOUNDARY_OPEN env body))"

section \<open>Copies\<close>

definition message_copy_one :: "php_http_message \<Rightarrow> php_http_message" where
  "message_copy_one from =
     (let m = php_http_message_init PHP_HTTP_NONE (php_http_message_body_copy (Some (msg_body from)));
          m = php_http_message_set_info (msg_info from) m
      in m\<lparr>msg_hdrs := msg_hdrs from\<rparr>)"

definition php_http_message_copy_ex :: "php_http_message list \<Rightarrow> bool \<Rightarrow> php_http_message list" where
  "php_http_message_copy_ex from parents =
     (case from of [] \<Rightarrow> [] | f # fs \<Rightarrow> message_copy_one f # (if parents then map message_copy_one fs else []))"

section \<open>Chains in memory\<close>

text \<open>The parent field of the messages, by address; \<^const>\<open>None\<close> is the null pointer.\<close>

type_synonym parents = "nat \<Rightarrow> nat option"

partial_function (option) count_loop :: "parents \<Rightarrow> nat \<Rightarrow> nat \<Rightarrow> nat option" where
  "count_loop par m c = (case par m of None \<Rightarrow> Some c | Some m' \<Rightarrow> count_loop par m' (Suc c))"

declare count_loop.simps [code]

definition php_http_message_count :: "parents \<Rightarrow> nat \<Rightarrow> nat option" where
  "php_http_message_count par m = count_loop par m 1"

text \<open>The array of the \<open>c\<close> messages; \<^const>\<open>None\<close> for a null pointer that is followed.\<close>

fun collect :: "parents \<Rightarrow> nat option \<Rightarrow> nat \<Rightarrow> nat list option" where
  "collect par tmp 0 = Some []"
| "collect par None (Suc c) = None"
| "collect par (Some a) (Suc c) = map_option (Cons a) (collect par (par a) c)"

definition php_http_message_reverse :: "parents \<Rightarrow> nat \<Rightarrow> (nat \<times> parents) option" where
  "php_http_message_reverse par msg =
     (case php_http_message_count par msg of
        None \<Rightarrow> None
      | Some c \<Rightarrow>
          if 1 < c then
            (case collect par (Some msg) c of
               None \<Rightarrow> None
             | Some arr \<Rightarrow>
                 let par = par(arr ! 0 := None);
                     par = fold (\<lambda>i par. par(arr ! (i + 1) := Some (arr ! i))) [0..<c - 1] par
                 in Some (arr ! (c - 1), par))
          else Some (msg, par))"

partial_function (option) zip_loop :: "parents \<Rightarrow> nat option \<Rightarrow> nat option \<Rightarrow> parents option" where
  "zip_loop par dst src =
     (case (dst, src) of
        (Some d, Some s) \<Rightarrow>
          let tmp_dst = par d; tmp_src = par s;
              par = par(d := Some s);
              par = (if tmp_dst \<noteq> None then par(s := tmp_dst) else par)
          in zip_loop par tmp_dst tmp_src
      | _ \<Rightarrow> Some par)"

declare zip_loop.simps [code]

definition php_http_message_zip :: "parents \<Rightarrow> nat option \<Rightarrow> nat option \<Rightarrow> (nat option \<times> parents) option" where
  "php_http_message_zip par dst src = map_option (Pair dst) (zip_loop par dst src)"

section \<open>Facts on chains\<close>

fun is_chain :: "parents \<Rightarrow> nat option \<Rightarrow> nat list \<Rightarrow> bool" where
  "is_chain par p [] \<longleftrightarrow> p = None"
| "is_chain par p (a # as) \<longleftrightarrow> p = Some a \<and> is_chain par (par a) as"

lemma is_chain_cong: "is_chain par p xs \<Longrightarrow> \<forall>a\<in>set xs. par' a = par a \<Longrightarrow> is_chain par' p xs"
  by (induction xs arbitrary: p) auto

lemma is_chain_unique: "is_chain par p xs \<Longrightarrow> is_chain par p ys \<Longrightarrow> xs = ys"
proof (induction xs arbitrary: p ys)
  case Nil
  then show ?case by (cases ys) auto
next
  case (Cons a xs)
  then show ?case by (cases ys) auto
qed

lemma is_chain_suffix: "is_chain par p (xs @ a # ys) \<Longrightarrow> is_chain par (par a) ys"
  by (induction xs arbitrary: p) auto

lemma is_chain_distinct: "is_chain par p xs \<Longrightarrow> distinct xs"
proof (induction xs arbitrary: p)
  case (Cons a xs)
  have "a \<notin> set xs"
  proof
    assume "a \<in> set xs"
    then obtain ys zs where xs: "xs = ys @ a # zs" by (auto simp: in_set_conv_decomp)
    then have "is_chain par (par a) zs" using Cons.prems is_chain_suffix [of par "par a" ys a zs] by simp
    moreover have "is_chain par (par a) xs" using Cons.prems by simp
    ultimately have "zs = xs" by (rule is_chain_unique)
    then show False using xs by simp
  qed
  with Cons show ?case by auto
qed simp

lemma count_loop_chain: "is_chain par (Some m) xs \<Longrightarrow> count_loop par m c = Some (c + length xs - 1)"
proof (induction xs arbitrary: m c)
  case (Cons a xs)
  then show ?case by (subst count_loop.simps) (cases xs; auto)
qed simp

lemma collect_chain: "is_chain par p xs \<Longrightarrow> collect par p (length xs) = Some xs"
  by (induction xs arbitrary: p) auto

text \<open>The loop that turns the pointers round.\<close>

lemma relink:
  assumes "distinct xs" "n < length xs"
  shows "fold (\<lambda>i par. par(xs ! (i + 1) := Some (xs ! i))) [0..<n] par a =
    (if \<exists>i<n. a = xs ! Suc i then Some (xs ! (SOME i. i < n \<and> a = xs ! Suc i)) else par a)"
  using assms(2)
proof (induction n)
  case (Suc n)
  have inj: "xs ! Suc i = xs ! Suc j \<longleftrightarrow> i = j" if "i < Suc n" "j < Suc n" for i j
    using that assms(1) Suc.prems by (simp add: nth_eq_iff_index_eq)
  show ?case
  proof (cases "a = xs ! Suc n")
    case True
    then have "(SOME i. i < Suc n \<and> a = xs ! Suc i) = n" using inj by (intro some_equality) auto
    with True show ?thesis by auto
  next
    case False
    then have "(\<lambda>i. i < Suc n \<and> a = xs ! Suc i) = (\<lambda>i. i < n \<and> a = xs ! Suc i)" by (auto simp: less_Suc_eq)
    with False Suc show ?thesis by (auto simp: less_Suc_eq)
  qed
qed simp

lemma is_chain_rev_nth:
  assumes "\<forall>i. Suc i < length xs \<longrightarrow> par (xs ! Suc i) = Some (xs ! i)" "xs \<noteq> []" "par (hd xs) = None"
  shows "is_chain par (Some (last xs)) (rev xs)"
  using assms
proof (induction xs rule: rev_induct)
  case (snoc x xs)
  show ?case
  proof (cases "xs = []")
    case False
    have "\<forall>i. Suc i < length xs \<longrightarrow> par (xs ! Suc i) = Some (xs ! i)"
    proof (intro allI impI)
      fix i assume "Suc i < length xs"
      with snoc.prems(1) [rule_format, of i] show "par (xs ! Suc i) = Some (xs ! i)" by (simp add: nth_append)
    qed
    with snoc.IH snoc.prems(3) False have "is_chain par (Some (last xs)) (rev xs)" by simp
    moreover have "par x = Some (last xs)"
      using snoc.prems(1) [rule_format, of "length xs - 1"] False by (simp add: nth_append last_conv_nth)
    ultimately show ?thesis by simp
  qed (use snoc.prems in simp)
qed simp

lemma reverse_chain:
  assumes "is_chain par (Some m) xs"
  shows "\<exists>par'. php_http_message_reverse par m = Some (last xs, par') \<and> is_chain par' (Some (last xs)) (rev xs) \<and>
           (\<forall>a. a \<notin> set xs \<longrightarrow> par' a = par a)"
proof (cases "1 < length xs")
  case False
  with assms have "xs = [m]" by (cases xs; cases "tl xs") auto
  with assms count_loop_chain [OF assms, of 1] show ?thesis
    by (simp add: php_http_message_reverse_def php_http_message_count_def)
next
  case True
  let ?n = "length xs"
  define par' where "par' = fold (\<lambda>i par. par(xs ! (i + 1) := Some (xs ! i))) [0..<?n - 1] (par(xs ! 0 := None))"
  have d: "distinct xs" and ne: "xs \<noteq> []" using is_chain_distinct [OF assms] True by auto
  have val: "par' a = (if \<exists>i<?n - 1. a = xs ! Suc i then Some (xs ! (SOME i. i < ?n - 1 \<and> a = xs ! Suc i)) else (par(xs ! 0 := None)) a)" for a
    unfolding par'_def using d ne by (intro relink) simp_all
  have "par' (xs ! Suc i) = Some (xs ! i)" if "Suc i < ?n" for i
  proof -
    have "(SOME j. j < ?n - 1 \<and> xs ! Suc i = xs ! Suc j) = i"
      using that d by (intro some_equality) (auto simp: nth_eq_iff_index_eq)
    moreover have "\<exists>j<?n - 1. xs ! Suc i = xs ! Suc j" using that by (intro exI [of _ i]) auto
    ultimately show ?thesis unfolding val by (simp only: if_True)
  qed
  moreover have "par' (hd xs) = None" using d ne unfolding val by (auto simp: hd_conv_nth nth_eq_iff_index_eq)
  ultimately have "is_chain par' (Some (last xs)) (rev xs)" using ne by (intro is_chain_rev_nth) auto
  moreover have "par' a = par a" if "a \<notin> set xs" for a
  proof -
    have "\<not> (\<exists>i<?n - 1. a = xs ! Suc i)" "a \<noteq> xs ! 0" using that True nth_mem [of _ xs] by fastforce+
    then show ?thesis unfolding val by (simp only: if_False fun_upd_apply)
  qed
  moreover have "php_http_message_reverse par m = Some (last xs, par')"
    using assms True ne collect_chain [OF assms]
    by (simp add: php_http_message_reverse_def php_http_message_count_def count_loop_chain par'_def last_conv_nth)
  ultimately show ?thesis by blast
qed

lemma zip_loop_chain:
  assumes "is_chain par dst xs" "is_chain par src ys" "set xs \<inter> set ys = {}" "xs \<noteq> []"
  shows "\<exists>par'. zip_loop par dst src = Some par' \<and> is_chain par' dst (splice xs ys) \<and>
           (\<forall>a. a \<notin> set xs \<union> set ys \<longrightarrow> par' a = par a)"
  using assms
proof (induction xs arbitrary: par dst src ys)
  case (Cons x xs)
  have x: "dst = Some x" "is_chain par (par x) xs" "x \<notin> set xs" using Cons.prems(1) is_chain_distinct [OF Cons.prems(1)] by auto
  show ?case
  proof (cases ys)
    case Nil
    with Cons.prems x show ?thesis by (subst zip_loop.simps) simp
  next
    case (Cons y ys')
    with Cons.prems(2,3) is_chain_distinct [OF Cons.prems(2)]
    have y: "src = Some y" "is_chain par (par y) ys'" "y \<notin> set ys'" "x \<noteq> y" "x \<notin> set ys'" "y \<notin> set xs" "set xs \<inter> set ys' = {}" by auto
    let ?p = "par(x := Some y)"
    let ?q = "if par x \<noteq> None then ?p(y := par x) else ?p"
    have step: "zip_loop par dst src = zip_loop ?q (par x) (par y)"
      using x y by (subst zip_loop.simps) (simp add: Let_def)
    have keep: "is_chain ?q (par x) xs" "is_chain ?q (par y) ys'"
      using x y by (auto intro: is_chain_cong [of par])
    show ?thesis
    proof (cases "xs = []")
      case True
      then have "par x = None" using x by simp
      moreover from this have "zip_loop ?q (par x) (par y) = Some ?q" by (subst zip_loop.simps) simp
      ultimately show ?thesis using step keep x y \<open>ys = y # ys'\<close> True by auto
    next
      case False
      with Cons.IH [OF keep y(7) False] obtain par' where p: "zip_loop ?q (par x) (par y) = Some par'"
        "is_chain par' (par x) (splice xs ys')" "\<forall>a. a \<notin> set xs \<union> set ys' \<longrightarrow> par' a = ?q a" by auto
      have "par x \<noteq> None" using False x(2) by (cases xs) auto
      then have "par' x = Some y" "par' y = par x" using p(3) x y by auto
      with p x y step \<open>ys = y # ys'\<close> show ?thesis by (intro exI [of _ par']) auto
    qed
  qed
qed simp

section \<open>Results on chains\<close>

text \<open>
  Reversing a chain of messages terminates, yields the oldest message, and leaves exactly the
  reversed chain behind it; other messages keep their parents. Reversing twice is the identity.
\<close>

theorem message_reverse_chain:
  assumes "is_chain par (Some m) xs"
  shows "\<exists>m' par'. php_http_message_reverse par m = Some (m', par') \<and> is_chain par' (Some m') (rev xs) \<and>
           (\<forall>a. a \<notin> set xs \<longrightarrow> par' a = par a) \<and>
           (\<exists>par''. php_http_message_reverse par' m' = Some (m, par'') \<and> is_chain par'' (Some m) xs)"
proof -
  from reverse_chain [OF assms] obtain par' where p: "php_http_message_reverse par m = Some (last xs, par')"
    "is_chain par' (Some (last xs)) (rev xs)" "\<forall>a. a \<notin> set xs \<longrightarrow> par' a = par a" by blast
  have "last (rev xs) = m" using assms by (cases xs) auto
  with reverse_chain [OF p(2)] have "\<exists>par''. php_http_message_reverse par' (last xs) = Some (m, par'') \<and> is_chain par'' (Some m) xs"
    by auto
  with p show ?thesis by blast
qed

definition sample_parents :: parents where "sample_parents = (\<lambda>_. None)(1 := Some 2, 2 := Some 3, 10 := Some 11)"

lemma sample_chains: "is_chain sample_parents (Some 1) [1, 2, 3]" "is_chain sample_parents (Some 10) [10, 11]"
  by (simp_all add: sample_parents_def)

theorem message_reverse_chain_witness:
  "\<exists>m' par'. php_http_message_reverse sample_parents 1 = Some (m', par') \<and> is_chain par' (Some m') (rev [1, 2, 3]) \<and>
     par' 10 = sample_parents 10 \<and>
     (\<exists>par''. php_http_message_reverse par' m' = Some (1, par'') \<and> is_chain par'' (Some 1) [1, 2, 3])"
  using message_reverse_chain [OF sample_chains(1)] by force

text \<open>
  C22. Zipping two disjoint chains terminates and interleaves them, the destination first, with what is
  left of the longer one behind; messages outside of the chains keep their parents.
\<close>

theorem message_zip_chain:
  assumes "is_chain par (Some d) xs" "is_chain par src ys" "set xs \<inter> set ys = {}"
  shows "\<exists>par'. php_http_message_zip par (Some d) src = Some (Some d, par') \<and> is_chain par' (Some d) (splice xs ys) \<and>
           (\<forall>a. a \<notin> set xs \<union> set ys \<longrightarrow> par' a = par a)"
proof -
  have "xs \<noteq> []" using assms(1) by (cases xs) auto
  from zip_loop_chain [OF assms this] show ?thesis by (auto simp: php_http_message_zip_def)
qed

theorem message_zip_chain_witness:
  "\<exists>par'. php_http_message_zip sample_parents (Some 1) (Some 10) = Some (Some 1, par') \<and>
     is_chain par' (Some 1) (splice [1, 2, 3] [10, 11]) \<and> par' 7 = sample_parents 7"
  using message_zip_chain [OF sample_chains] by force

section \<open>Results on headers\<close>

lemma canonical_keys [simp]:
  "symtable_key (php_http_pretty_key ''Content-Range'' True True) = KStr ''Content-Range''"
  "symtable_key (php_http_pretty_key ''Content-Length'' True True) = KStr ''Content-Length''"
  "symtable_key (php_http_pretty_key ''Content-Type'' True True) = KStr ''Content-Type''"
  "symtable_key (php_http_pretty_key ''Content-Encoding'' True True) = KStr ''Content-Encoding''"
  "symtable_key (php_http_pretty_key ''Transfer-Encoding'' True True) = KStr ''Transfer-Encoding''"
  "symtable_key (php_http_pretty_key ''Location'' True True) = KStr ''Location''"
  "symtable_key (php_http_pretty_key ''Connection'' True True) = KStr ''Connection''"
  by code_simp+

lemma find_update [simp]: "zend_hash_find (zend_hash_update h k v) k' = (if k' = k then Some v else zend_hash_find h k')"
  by (simp add: zend_hash_find_def zend_hash_update_def map_of_assoc_update)

lemma find_del [simp]: "zend_hash_find (zend_hash_del h k) k' = (if k' = k then None else zend_hash_find h k')"
  by (simp add: zend_hash_find_def zend_hash_del_def map_of_filter_key)

lemma multipart_type_other: "k \<noteq> KStr ''Content-Type'' \<Longrightarrow> zend_hash_find (msg_hdrs (multipart_type b m)) k = zend_hash_find (msg_hdrs m) k"
  by (simp add: multipart_type_def msg_update_header_def split: option.splits)

lemma multipart_type_keeps: "msg_info (multipart_type b m) = msg_info m" "msg_body (multipart_type b m) = msg_body m"
  by (simp_all add: multipart_type_def msg_update_header_def split: option.splits)

lemma update_headers_keeps [simp]:
  "msg_info (php_http_message_update_headers m) = msg_info m" "msg_body (php_http_message_update_headers m) = msg_body m"
  by (auto simp: php_http_message_update_headers_def msg_update_header_def msg_delete_header_def Let_def multipart_type_keeps
      split: option.splits)



definition sample_message :: php_http_message where
  "sample_message = \<lparr>msg_info = \<lparr>info_type = PHP_HTTP_REQUEST, info_version = \<lparr>ver_major = 1, ver_minor = 1\<rparr>,
     info_data = InfoRequest (Some ''POST'') None\<rparr>, msg_hdrs = (0, [(KStr ''Content-Length'', ZStr ''17'')]),
     msg_body = php_http_message_body_init\<rparr>"


text \<open>
  A request with method \<open>POST\<close>, an empty body and a stale length loses its \<open>Content-Length\<close> in the first
  update and gets the length zero only in the second.
\<close>

lemma update_headers_twice:
  "php_http_message_header_string (php_http_message_update_headers sample_message) ''Content-Length'' = None"
  "php_http_message_header_string (php_http_message_update_headers (php_http_message_update_headers sample_message)) ''Content-Length'' =
     Some ''0''"
  by code_simp+

section \<open>Facts on printing and copying\<close>

lemma append_pass_fold: "fold (\<lambda>p a. snd (append_pass a p)) ps str = str @ concat ps"
  by (induction ps arbitrary: str) (simp_all add: append_pass_def)

lemma body_append_pass_fold:
  "fold (\<lambda>p a. snd (body_append_pass a p)) ps body = php_http_message_body_append (concat ps) body"
  by (induction ps arbitrary: body) (simp_all add: body_append_pass_def php_http_message_body_append_def)


text \<open>The printed form: start line, headers, and an empty line and the body if there is one.\<close>

definition message_text :: "php_http_message \<Rightarrow> bytes" where
  "message_text m =
     fst (message_headers m) @ (if body_data (msg_body m) = [] then [] else [CR, LF] @ body_data (msg_body m))"

text \<open>What is assumed of the stream of a body: it is not too long and reports its end only there.\<close>

definition body_ok :: "(nat \<Rightarrow> bool) \<Rightarrow> php_http_message_body \<Rightarrow> bool" where
  "body_ok eof body \<longleftrightarrow> length (body_data body) < 2 ^ 63 \<and> (\<forall>p. eof p \<longrightarrow> length (body_data body) \<le> p)"

lemma body_size_0: "body_ok eof body \<Longrightarrow> php_http_message_body_size body = 0 \<longleftrightarrow> body_data body = []"
proof -
  assume "body_ok eof body"
  then have "unat (of_nat (length (body_data body)) :: size_t) = length (body_data body)"
    by (intro unat_of_nat_size_t) (simp add: body_ok_def)
  then show ?thesis unfolding php_http_message_body_size_def by (metis length_0_conv unat_eq_zero)
qed

lemma body_pieces:
  assumes "body_ok eof body" "\<And>a p. length p \<le> 4096 \<Longrightarrow> fst (cb a p) \<noteq> - 1"
  shows "\<exists>ps. php_http_message_body_to_callback eof body cb arg 0 0 = Some (True, fold (\<lambda>p a. snd (cb a p)) ps arg) \<and>
           concat ps = body_data body"
proof -
  have dat: "length (body_data body) < 2 ^ 64" "\<And>p. eof p \<Longrightarrow> length (body_data body) \<le> p"
    using assms(1) by (simp_all add: body_ok_def)
  have "unat (- 1 :: size_t) = 2 ^ 64 - 1" by (simp add: unsigned_minus_1_eq_mask mask_eq_exp_minus_1)
  then have "take (unat (- 1 :: size_t)) (body_data body) = body_data body" using dat(1) by simp
  with body_callback_loop_delivers [where cb = cb and eof = eof and forlen = "- 1" and pos = 0 and arg = arg, OF assms(2) dat(2,1)] show ?thesis
    by (auto simp: php_http_message_body_to_callback_def forlen_of_def)
qed

lemma append_pass_ok: "length p \<le> 4096 \<Longrightarrow> fst (append_pass a p) \<noteq> - 1" "length p \<le> 4096 \<Longrightarrow> fst (body_append_pass b p) \<noteq> - 1"
  by (simp_all add: append_pass_def body_append_pass_def small_not_failure)

lemma message_headers_msg: "message_headers m = (fst (message_headers m), php_http_message_update_headers m)"
  by (simp add: message_headers_def Let_def)

lemma message_to_string_text:
  assumes "body_ok eof (msg_body m)"
  shows "php_http_message_to_string eof m = Some (message_text m, php_http_message_update_headers m)"
proof -
  let ?str = "fst (message_headers m)"
  obtain ps where "php_http_message_body_to_callback eof (msg_body m) append_pass (?str @ [CR, LF]) 0 0 =
      Some (True, (?str @ [CR, LF]) @ concat ps)" "concat ps = body_data (msg_body m)"
    using body_pieces [where cb = append_pass, OF assms append_pass_ok(1)] unfolding append_pass_fold by blast
  then show ?thesis
    using body_size_0 [OF assms]
    by (subst php_http_message_to_string_def, subst message_headers_msg) (simp add: message_text_def)
qed

lemma message_to_callback_append:
  assumes "body_ok eof (msg_body m)"
  shows "php_http_message_to_callback eof m append_pass str = Some (str @ message_text m, php_http_message_update_headers m)"
    "php_http_message_to_callback eof m body_append_pass b =
       Some (php_http_message_body_append (message_text m) b, php_http_message_update_headers m)"
proof -
  let ?str = "fst (message_headers m)"
  obtain ps where "php_http_message_body_to_callback eof (msg_body m) append_pass (str @ ?str @ [CR, LF]) 0 0 =
      Some (True, (str @ ?str @ [CR, LF]) @ concat ps)" "concat ps = body_data (msg_body m)"
    using body_pieces [where cb = append_pass, OF assms append_pass_ok(1)] unfolding append_pass_fold by blast
  then show "php_http_message_to_callback eof m append_pass str = Some (str @ message_text m, php_http_message_update_headers m)"
    using body_size_0 [OF assms]
    by (subst php_http_message_to_callback_def, subst message_headers_msg) (simp add: message_text_def append_pass_def)
  let ?b = "php_http_message_body_append (?str @ [CR, LF]) b"
  obtain ps where "php_http_message_body_to_callback eof (msg_body m) body_append_pass ?b 0 0 =
      Some (True, php_http_message_body_append (concat ps) ?b)" "concat ps = body_data (msg_body m)"
    using body_pieces [where cb = body_append_pass, OF assms append_pass_ok(2)] unfolding body_append_pass_fold by blast
  then show "php_http_message_to_callback eof m body_append_pass b =
      Some (php_http_message_body_append (message_text m) b, php_http_message_update_headers m)"
    using body_size_0 [OF assms]
    by (subst php_http_message_to_callback_def, subst message_headers_msg)
       (simp add: message_text_def body_append_pass_def php_http_message_body_append_def)
qed

lemma serialize_loop_text:
  assumes "\<forall>m\<in>set ms. body_ok (eof m) (msg_body m)"
  shows "serialize_loop eof ms str =
    Some (str @ concat (map (\<lambda>m. message_text m @ [CR, LF]) ms), map php_http_message_update_headers ms)"
  using assms by (induction ms arbitrary: str) (simp_all add: message_to_callback_append)

text \<open>A printed message becomes a part of a multipart body.\<close>

lemma body_add_part_multipart:
  assumes "truncates env" "is_multipart b ps env body" "length (multipart b (ps @ [message_text m])) < 2 ^ 64"
    "body_ok eof (msg_body m)"
  shows "\<exists>body'. php_http_message_body_add_part env eof m body = Some (body', php_http_message_update_headers m) \<and>
           is_multipart b (ps @ [message_text m]) env body'"
  using add_part_text_multipart [OF assms(1-3)] message_to_callback_append(2) [OF assms(4)]
  by (simp add: php_http_message_body_add_part_def add_part_text_def)

section \<open>Results on printing and copying\<close>

definition message_wf :: "php_http_message \<Rightarrow> bool" where
  "message_wf m \<longleftrightarrow> \<not> body_filtered (msg_body m) \<and>
     (case (msg_type m, info_data (msg_info m)) of
        (PHP_HTTP_REQUEST, InfoRequest _ _) \<Rightarrow> True
      | (PHP_HTTP_RESPONSE, InfoResponse _ _) \<Rightarrow> True
      | (PHP_HTTP_NONE, u) \<Rightarrow> u = zero_union PHP_HTTP_NONE
      | _ \<Rightarrow> False)"

lemma body_copy_id:
  "length (body_data b) < 2 ^ 64 \<Longrightarrow> \<not> body_filtered b \<Longrightarrow> php_http_message_body_copy (Some b) = Some b"
  by (cases b) (simp add: php_http_message_body_copy_def php_http_message_body_init_def php_http_message_body_to_stream_def forlen_of_def
      unsigned_minus_1_eq_mask mask_eq_exp_minus_1 Let_def split: option.splits)

lemma message_copy_id:
  assumes "message_wf m" "length (body_data (msg_body m)) < 2 ^ 64"
  shows "message_copy_one m = m"
proof -
  have "php_http_message_body_copy (Some (msg_body m)) = Some (msg_body m)"
    using assms by (intro body_copy_id) (simp_all add: message_wf_def)
  with assms(1) show ?thesis
    by (cases m; cases "msg_info m"; cases "msg_type m"; cases "info_data (msg_info m)")
       (simp_all add: message_copy_one_def php_http_message_init_def php_http_message_set_info_def php_http_message_set_type_def
        php_http_info_init_def message_wf_def zero_union_def)
qed


text \<open>
  C21. Serialising a chain terminates and prints the messages from the oldest to the newest, each with its
  start line, its updated headers, its body behind an empty line and a final line end; the chain is
  left with the updated headers. A copy of a chain serialises to the same text.
\<close>

theorem message_serialize_text:
  assumes "\<forall>m\<in>set msgs. body_ok (eof m) (msg_body m) \<and> message_wf m"
  shows "php_http_message_serialize eof msgs =
      Some (concat (map (\<lambda>m. message_text m @ [CR, LF]) (rev msgs)), map php_http_message_update_headers msgs) \<and>
    php_http_message_serialize eof (php_http_message_copy_ex msgs True) = php_http_message_serialize eof msgs"
proof -
  have copy: "php_http_message_copy_ex ms True = ms" if "\<forall>m\<in>set ms. body_ok (eof m) (msg_body m) \<and> message_wf m" for ms
    using that by (cases ms) (auto simp: php_http_message_copy_ex_def message_copy_id body_ok_def intro!: map_idI)
  show ?thesis
    using assms by (simp add: php_http_message_serialize_def serialize_loop_text copy rev_map)
qed

definition sample_response :: php_http_message where
  "sample_response = \<lparr>msg_info = \<lparr>info_type = PHP_HTTP_RESPONSE, info_version = \<lparr>ver_major = 1, ver_minor = 1\<rparr>,
     info_data = InfoResponse 200 (Some ''OK'')\<rparr>, msg_hdrs = (0, [(KStr ''Server'', ZStr ''x'')]),
     msg_body = \<lparr>body_data = ''hi'', body_boundary = None, body_filtered = False\<rparr>\<rparr>"

theorem message_serialize_text_witness:
  "php_http_message_serialize (\<lambda>m p. length (body_data (msg_body m)) \<le> p) [sample_message, sample_response] =
     Some (concat (map (\<lambda>m. message_text m @ [CR, LF]) (rev [sample_message, sample_response])),
       map php_http_message_update_headers [sample_message, sample_response]) \<and>
   php_http_message_serialize (\<lambda>m p. length (body_data (msg_body m)) \<le> p) (php_http_message_copy_ex [sample_message, sample_response] True) =
     php_http_message_serialize (\<lambda>m p. length (body_data (msg_body m)) \<le> p) [sample_message, sample_response]"
  by (rule message_serialize_text)
     (simp add: body_ok_def message_wf_def sample_message_def sample_response_def php_http_message_body_init_def)

end
