(* ===== verification/Http_Message_Parser.thy ===== *)
theory Http_Message_Parser
  imports Http_Message Http_Encoding
begin

text \<open>
  The message parser (\<open>php_http_message_parser.c\<close>): a state machine with a stack of states over the
  buffer of the caller. It drives the header parser, decides from the headers how the body is framed,
  and passes the body through the chunk decoder and the inflate stream. The list of messages is the
  chain \<open>*message\<close> (empty for the null pointer). A result \<^const>\<open>None\<close> is a read outside of memory or through
  a null pointer. The constructors of the states drop the prefix \<open>PHP_HTTP_MESSAGE_PARSER_STATE_\<close>.

  What lies outside the sources is a record: the environment of the URL parser, the conversion of a
  string to a number (\<open>zval_get_long\<close> of the host), and the operations of the inflate stream.
\<close>

section \<open>State\<close>

datatype php_http_message_parser_state =
    MP_FAILURE | MP_START | MP_HEADER | MP_HEADER_DONE | MP_BODY | MP_BODY_DUMB | MP_BODY_LENGTH | MP_BODY_CHUNKED
  | MP_BODY_DONE | MP_UPDATE_CL | MP_DONE

record 'i mp_env =
  me_url :: url_env
  me_long :: "bytes \<Rightarrow> int"
  me_inflate :: "'i php_http_encoding_stream_ops"

record 'i php_http_message_parser =
  mp_header :: php_http_header_parser
  mp_stack :: "php_http_message_parser_state list"
  mp_body_length :: size_t
  mp_dechunk :: "dechunk_ctx php_http_encoding_stream option"
  mp_inflate :: "'i php_http_encoding_stream option"

definition php_http_message_parser_init :: "'i php_http_message_parser" where
  "php_http_message_parser_init =
     \<lparr>mp_header = php_http_header_parser_init, mp_stack = [], mp_body_length = 0, mp_dechunk = None, mp_inflate = None\<rparr>"

text \<open>The table \<open>php_http_message_parser_states\<close>; the entry of the failure state is in front of it.\<close>

fun mp_need_data :: "php_http_message_parser_state \<Rightarrow> bool option" where
  "mp_need_data MP_FAILURE = None"
| "mp_need_data MP_START = Some True"
| "mp_need_data MP_HEADER = Some False"
| "mp_need_data MP_HEADER_DONE = Some False"
| "mp_need_data MP_BODY = Some False"
| "mp_need_data MP_BODY_DUMB = Some True"
| "mp_need_data MP_BODY_LENGTH = Some True"
| "mp_need_data MP_BODY_CHUNKED = Some True"
| "mp_need_data MP_BODY_DONE = Some False"
| "mp_need_data MP_UPDATE_CL = Some False"
| "mp_need_data MP_DONE = Some False"

definition php_http_message_parser_state_push ::
  "php_http_message_parser_state \<Rightarrow> 'i php_http_message_parser \<Rightarrow> 'i php_http_message_parser" where
  "php_http_message_parser_state_push st p = p\<lparr>mp_stack := st # mp_stack p\<rparr>"

definition php_http_message_parser_state_is :: "'i php_http_message_parser \<Rightarrow> php_http_message_parser_state" where
  "php_http_message_parser_state_is p = (case mp_stack p of [] \<Rightarrow> MP_START | st # _ \<Rightarrow> st)"

definition php_http_message_parser_state_pop ::
  "'i php_http_message_parser \<Rightarrow> php_http_message_parser_state \<times> 'i php_http_message_parser" where
  "php_http_message_parser_state_pop p = (php_http_message_parser_state_is p, p\<lparr>mp_stack := tl (mp_stack p)\<rparr>)"

definition PHP_HTTP_MESSAGE_PARSER_CLEANUP :: "32 word" where "PHP_HTTP_MESSAGE_PARSER_CLEANUP = 0x1"
definition PHP_HTTP_MESSAGE_PARSER_DUMB_BODIES :: "32 word" where "PHP_HTTP_MESSAGE_PARSER_DUMB_BODIES = 0x2"
definition PHP_HTTP_MESSAGE_PARSER_EMPTY_REDIRECTS :: "32 word" where "PHP_HTTP_MESSAGE_PARSER_EMPTY_REDIRECTS = 0x4"
definition PHP_HTTP_MESSAGE_PARSER_GREEDY :: "32 word" where "PHP_HTTP_MESSAGE_PARSER_GREEDY = 0x8"

text \<open>The parser, the buffer, the chain of messages, and the variables \<open>str\<close> (with its length) and \<open>cut\<close>
  (cutting more than the buffer holds empties it).\<close>

record 'i mp_cfg =
  mc_parser :: "'i php_http_message_parser"
  mc_buf :: bytes
  mc_msgs :: "php_http_message list"
  mc_str :: bytes
  mc_cut :: nat

datatype 'i mp_turn = MP_Next "'i mp_cfg" | MP_Return php_http_message_parser_state "'i mp_cfg"

definition mp_push :: "php_http_message_parser_state \<Rightarrow> 'i mp_cfg \<Rightarrow> 'i mp_cfg" where
  "mp_push st c = c\<lparr>mc_parser := php_http_message_parser_state_push st (mc_parser c)\<rparr>"

definition mp_return :: "php_http_message_parser_state \<Rightarrow> 'i mp_cfg \<Rightarrow> 'i mp_turn" where
  "mp_return st c = MP_Return st (mp_push st c)"

section \<open>Framing\<close>

text \<open>Transfer coding and length: whether chunked, the length or \<open>-1\<close>, and the message.\<close>

definition mp_framing :: "(bytes \<Rightarrow> int) \<Rightarrow> php_http_message \<Rightarrow> bool \<times> int \<times> php_http_message" where
  "mp_framing str_long m =
     (case php_http_message_header m ''Transfer-Encoding'' of
        Some h \<Rightarrow>
          (zval_get_string h = ''chunked'', - 1,
           msg_update_header ''Content-Length'' (ZLong 0)
             (msg_delete_header ''Transfer-Encoding'' (msg_update_header ''X-Original-Transfer-Encoding'' h m)))
      | None \<Rightarrow>
          (case php_http_message_header m ''Content-Length'' of
             Some h \<Rightarrow> (False, zval_get_long str_long h, msg_update_header ''X-Original-Content-Length'' h m)
           | None \<Rightarrow> (False, - 1, m)))"

text \<open>
  The length of a range, from the value of \<open>Content-Range\<close>: \<^const>\<open>None\<close> if the value is read behind its
  terminator, \<open>Some None\<close> if there is no usable range.
\<close>

definition content_range_length :: "bytes \<Rightarrow> size_t option option" where
  "content_range_length val =
     (if map tolower (take 5 val) = ''bytes'' \<and> rd val 5 \<in> set '': =''
      then let (start, n) = strtoul 10 (cstr (drop 6 val)); end_at = 6 + n in
        if length val < end_at + 1 then None
        else let (fin, n) = strtoul 10 (cstr (drop (end_at + 1) val)); total_at = end_at + 1 + n in
          if length val < total_at + 1 then None
          else let total = (if rd val (total_at + 1) \<noteq> CHR ''*'' then fst (strtoul 10 (cstr (drop (total_at + 1) val))) else 0) in
            if start \<le> fin \<and> (total = 0 \<or> fin \<le> total)
            then Some (Some (of_nat fin + 1 - of_nat start))
            else Some None
      else Some None)"

text \<open>A redirect without body: a 3xx response with \<open>Location\<close> and \<open>Connection: close\<close>.\<close>

definition mp_empty_redirect :: "32 word \<Rightarrow> php_http_message \<Rightarrow> bool" where
  "mp_empty_redirect flags m \<longleftrightarrow>
     flags AND PHP_HTTP_MESSAGE_PARSER_EMPTY_REDIRECTS \<noteq> 0 \<and> msg_type m = PHP_HTTP_RESPONSE \<and>
     (case info_data (msg_info m) of InfoResponse code _ \<Rightarrow> code div 100 = 3 | InfoRequest _ _ \<Rightarrow> False) \<and>
     php_http_message_header m ''Location'' \<noteq> None \<and>
     (case php_http_message_header m ''Connection'' of
        Some h \<Rightarrow> php_http_match (Some (cstr (zval_get_string h))) (Some ''close'') PHP_HTTP_MATCH_WORD
      | None \<Rightarrow> False)"

definition mp_content_encoding ::
  "'i mp_env \<Rightarrow> php_http_message \<Rightarrow> 'i php_http_encoding_stream option \<Rightarrow> php_http_message \<times> 'i php_http_encoding_stream option" where
  "mp_content_encoding env m inflate =
     (case php_http_message_header m ''Content-Encoding'' of
        None \<Rightarrow> (m, inflate)
      | Some h \<Rightarrow>
          let ce = Some (cstr (zval_get_string h)) in
          if php_http_match ce (Some ''gzip'') PHP_HTTP_MATCH_WORD \<or> php_http_match ce (Some ''x-gzip'') PHP_HTTP_MATCH_WORD \<or>
             php_http_match ce (Some ''deflate'') PHP_HTTP_MATCH_WORD
          then (msg_delete_header ''Content-Encoding'' (msg_update_header ''X-Original-Content-Encoding'' h m),
                case inflate of
                  Some s \<Rightarrow> Some (snd (php_http_encoding_stream_reset (me_inflate env) s))
                | None \<Rightarrow> php_http_encoding_stream_init (Some (me_inflate env)) 0)
          else (m, inflate))"

text \<open>The state a length leads to.\<close>

definition mp_length_state :: "size_t \<Rightarrow> 'i php_http_message_parser \<Rightarrow> 'i php_http_message_parser" where
  "mp_length_state n p =
     php_http_message_parser_state_push (if n \<noteq> 0 then MP_BODY_LENGTH else MP_BODY_DONE) (p\<lparr>mp_body_length := n\<rparr>)"

text \<open>The choice of the body state, behind the look at the headers.\<close>

definition mp_body_state ::
  "32 word \<Rightarrow> bool \<Rightarrow> int \<Rightarrow> bytes option \<Rightarrow> php_http_message \<Rightarrow> 'i php_http_message_parser \<Rightarrow> 'i php_http_message_parser option" where
  "mp_body_state flags chunked content_length content_range m p =
     (if flags AND PHP_HTTP_MESSAGE_PARSER_DUMB_BODIES \<noteq> 0 then Some (php_http_message_parser_state_push MP_BODY_DUMB p)
      else if chunked
      then Some (php_http_message_parser_state_push MP_BODY_CHUNKED
             (p\<lparr>mp_dechunk := php_http_encoding_stream_init (Some php_http_encoding_dechunk_ops) 0\<rparr>))
      else case (case content_range of None \<Rightarrow> Some None | Some cr \<Rightarrow> content_range_length cr) of
             None \<Rightarrow> None
           | Some (Some n) \<Rightarrow> Some (mp_length_state n p)
           | Some None \<Rightarrow>
               if 0 \<le> content_length then Some (mp_length_state (word_of_int content_length) p)
               else Some (php_http_message_parser_state_push
                      (if msg_type m = PHP_HTTP_REQUEST then MP_DONE else MP_BODY_DUMB) p))"

section \<open>Steps\<close>

definition mp_start :: "'i mp_cfg \<Rightarrow> 'i mp_turn" where
  "mp_start c =
     (let c = c\<lparr>mc_buf := dropWhile isspace (mc_buf c)\<rparr>
      in MP_Next (if mc_buf c \<noteq> [] then mp_push MP_HEADER c else c))"

text \<open>The header parser works on the table of the first message; the result is put back into it.\<close>

definition mp_header_step :: "'i mp_env \<Rightarrow> 32 word \<Rightarrow> 'i mp_cfg \<Rightarrow> 'i mp_turn option" where
  "mp_header_step env flags c =
     (let cleanup = (flags AND PHP_HTTP_MESSAGE_PARSER_CLEANUP \<noteq> 0);
          headers = (case mc_msgs c of m # _ \<Rightarrow> Some (msg_hdrs m) | [] \<Rightarrow> None) in
      case php_http_header_parser_parse (me_url env) (mp_header (mc_parser c)) (mc_buf c)
             (if cleanup then PHP_HTTP_HEADER_PARSER_CLEANUP else 0) headers (Some php_http_message_info_callback) (mc_msgs c) of
        None \<Rightarrow> None
      | Some (st, h) \<Rightarrow>
          let c = c\<lparr>mc_parser := (mc_parser c)\<lparr>mp_header := hc_parser h\<rparr>, mc_buf := hc_buf h,
                    mc_msgs := message_sync (hc_headers h) (hc_arg h)\<rparr>
          in Some (if st = HP_FAILURE then MP_Return MP_FAILURE c
               else if st = HP_DONE then MP_Next (mp_push MP_HEADER_DONE c)
               else if mc_buf c \<noteq> [] \<or> \<not> cleanup then mp_return MP_HEADER c
               else MP_Next (mp_push MP_HEADER_DONE c)))"

definition mp_header_done_step :: "'i mp_env \<Rightarrow> 32 word \<Rightarrow> 'i mp_cfg \<Rightarrow> 'i mp_turn option" where
  "mp_header_done_step env flags c =
     (case mc_msgs c of
        [] \<Rightarrow> None
      | m # ms \<Rightarrow>
          let (chunked, content_length, m) = mp_framing (me_long env) m;
              content_range = php_http_message_header_string m ''Content-Range'';
              m = (case content_range of None \<Rightarrow> m | Some cr \<Rightarrow> msg_update_header ''Content-Range'' (ZStr cr) m)
          in if mp_empty_redirect flags m then Some (MP_Next (mp_push MP_DONE (c\<lparr>mc_msgs := m # ms\<rparr>)))
             else let (m, inflate) = mp_content_encoding env m (mp_inflate (mc_parser c)) in
               map_option (\<lambda>p. MP_Next (c\<lparr>mc_parser := p, mc_msgs := m # ms\<rparr>))
                 (mp_body_state flags chunked content_length content_range m ((mc_parser c)\<lparr>mp_inflate := inflate\<rparr>)))"

text \<open>Writing to the body of the current message.\<close>

definition msgs_write :: "bytes \<Rightarrow> php_http_message list \<Rightarrow> php_http_message list option" where
  "msgs_write s msgs =
     (case msgs of [] \<Rightarrow> None | m # ms \<Rightarrow> Some (m\<lparr>msg_body := php_http_message_body_append s (msg_body m)\<rparr> # ms))"

definition mp_body_step :: "'i mp_env \<Rightarrow> 'i mp_cfg \<Rightarrow> 'i mp_turn option" where
  "mp_body_step env c =
     (let fin = (\<lambda>c. MP_Next (c\<lparr>mc_buf := drop (mc_cut c) (mc_buf c), mc_str := [], mc_cut := 0\<rparr>)) in
      if mc_str c \<noteq> [] then
        (case mp_inflate (mc_parser c) of
           Some s \<Rightarrow>
             (case php_http_encoding_stream_update (me_inflate env) s (mc_str c) of
                (ok, out, s) \<Rightarrow>
                  let c = c\<lparr>mc_parser := (mc_parser c)\<lparr>mp_inflate := Some s\<rparr>\<rparr> in
                  if ok then map_option (\<lambda>ms. fin (c\<lparr>mc_msgs := ms\<rparr>))
                               (msgs_write (case out of Some d \<Rightarrow> d | None \<Rightarrow> []) (mc_msgs c))
                  else Some (mp_return MP_FAILURE c))
         | None \<Rightarrow> map_option (\<lambda>ms. fin (c\<lparr>mc_msgs := ms\<rparr>)) (msgs_write (mc_str c) (mc_msgs c)))
      else Some (fin c))"

definition mp_body_dumb_step :: "'i mp_cfg \<Rightarrow> 'i mp_turn" where
  "mp_body_dumb_step c =
     MP_Next (mp_push MP_BODY (mp_push MP_BODY_DONE (c\<lparr>mc_str := mc_buf c, mc_cut := length (mc_buf c)\<rparr>)))"

definition mp_body_length_step :: "'i mp_cfg \<Rightarrow> 'i mp_turn" where
  "mp_body_length_step c =
     (let p = mc_parser c; len = min (unat (mp_body_length p)) (length (mc_buf c));
          rest = mp_body_length p - of_nat len
      in MP_Next (mp_push MP_BODY (mp_push (if rest \<noteq> 0 then MP_BODY_LENGTH else MP_BODY_DONE)
           (c\<lparr>mc_str := take len (mc_buf c), mc_cut := len, mc_parser := p\<lparr>mp_body_length := rest\<rparr>\<rparr>))))"

definition mp_body_chunked_step :: "'i mp_cfg \<Rightarrow> 'i mp_turn option" where
  "mp_body_chunked_step c =
     (case mp_dechunk (mc_parser c) of
        None \<Rightarrow> None
      | Some s \<Rightarrow>
          if es_ctx s = None then None
          else (case php_http_encoding_stream_update php_http_encoding_dechunk_ops s (mc_buf c) of
            (ok, out, s) \<Rightarrow>
              let c = c\<lparr>mc_parser := (mc_parser c)\<lparr>mp_dechunk := Some s\<rparr>\<rparr> in
              if \<not> ok then Some (MP_Return MP_FAILURE c)
              else let c = c\<lparr>mc_str := (case out of Some d \<Rightarrow> d | None \<Rightarrow> [])\<rparr>;
                       left = (case es_ctx s of Some ctx \<Rightarrow> length (dc_buffer ctx) | None \<Rightarrow> 0) in
                Some (MP_Next
                  (if php_http_encoding_stream_done php_http_encoding_dechunk_ops s
                   then mp_push MP_BODY (mp_push MP_BODY_DONE (c\<lparr>mc_cut :=
                          (if left \<le> length (mc_buf c) then length (mc_buf c) - left else 2 ^ 64 - (left - length (mc_buf c)))\<rparr>))
                   else mp_push MP_BODY (mp_push MP_BODY_CHUNKED (c\<lparr>mc_cut := length (mc_buf c)\<rparr>))))))"

definition mp_body_done_step :: "'i mp_cfg \<Rightarrow> 'i mp_turn" where
  "mp_body_done_step c =
     (let c = mp_push MP_DONE c in
      case mp_dechunk (mc_parser c) of
        Some s \<Rightarrow>
          if es_ctx s = None then MP_Next c
          else (case php_http_encoding_stream_finish php_http_encoding_dechunk_ops s of
            (ok, out, s) \<Rightarrow>
              if \<not> ok then mp_return MP_FAILURE (c\<lparr>mc_parser := (mc_parser c)\<lparr>mp_dechunk := Some s\<rparr>\<rparr>)
              else let s = php_http_encoding_stream_dtor php_http_encoding_dechunk_ops s;
                       c = c\<lparr>mc_parser := (mc_parser c)\<lparr>mp_dechunk := Some s\<rparr>\<rparr> in
                case out of
                  Some (x # xs) \<Rightarrow> MP_Next (mp_push MP_BODY (mp_push MP_UPDATE_CL (c\<lparr>mc_str := x # xs, mc_cut := 0\<rparr>)))
                | _ \<Rightarrow> MP_Next c)
      | None \<Rightarrow> MP_Next c)"

definition mp_update_cl_step :: "'i mp_cfg \<Rightarrow> 'i mp_turn option" where
  "mp_update_cl_step c =
     (case mc_msgs c of
        [] \<Rightarrow> None
      | m # ms \<Rightarrow>
          Some (MP_Next (c\<lparr>mc_msgs :=
            msg_update_header ''Content-Length'' (ZLong (sint (php_http_message_body_size (msg_body m)))) m # ms\<rparr>)))"

definition mp_done_step :: "32 word \<Rightarrow> 'i mp_cfg \<Rightarrow> 'i mp_turn" where
  "mp_done_step flags c =
     (let c = c\<lparr>mc_buf := dropWhile isspace (mc_buf c)\<rparr> in
      if flags AND PHP_HTTP_MESSAGE_PARSER_GREEDY = 0 then MP_Return MP_DONE c else MP_Next c)"

definition mp_turn_of :: "'i mp_env \<Rightarrow> 32 word \<Rightarrow> 'i mp_cfg \<Rightarrow> 'i mp_turn option" where
  "mp_turn_of env flags c =
     (let (st, p) = php_http_message_parser_state_pop (mc_parser c); c = c\<lparr>mc_parser := p\<rparr> in
      case st of
        MP_FAILURE \<Rightarrow> Some (mp_return MP_FAILURE c)
      | MP_START \<Rightarrow> Some (mp_start c)
      | MP_HEADER \<Rightarrow> mp_header_step env flags c
      | MP_HEADER_DONE \<Rightarrow> mp_header_done_step env flags c
      | MP_BODY \<Rightarrow> mp_body_step env c
      | MP_BODY_DUMB \<Rightarrow> Some (mp_body_dumb_step c)
      | MP_BODY_LENGTH \<Rightarrow> Some (mp_body_length_step c)
      | MP_BODY_CHUNKED \<Rightarrow> mp_body_chunked_step c
      | MP_BODY_DONE \<Rightarrow> Some (mp_body_done_step c)
      | MP_UPDATE_CL \<Rightarrow> mp_update_cl_step c
      | MP_DONE \<Rightarrow> Some (mp_done_step flags c))"

definition mp_continue :: "'i mp_cfg \<Rightarrow> bool option" where
  "mp_continue c = (if mc_buf c \<noteq> [] then Some True
                    else map_option Not (mp_need_data (php_http_message_parser_state_is (mc_parser c))))"

section \<open>Progress of the header parser\<close>

text \<open>
  A run of the header parser shortens the buffer, or keeps it together with the number of entries
  \<open>DONE\<close> on its stack; when it returns \<open>DONE\<close>, one of the two has become smaller.
\<close>

definition dones :: "php_http_header_parser \<Rightarrow> nat" where "dones p = count_list (hp_stack p) HP_DONE"

definition hp_progress :: "'m hp_cfg \<Rightarrow> 'm hp_cfg \<Rightarrow> bool" where
  "hp_progress c c' \<longleftrightarrow> length (hc_buf c') < length (hc_buf c) \<or>
     hc_buf c' = hc_buf c \<and> dones (hc_parser c') \<le> dones (hc_parser c)"

definition hp_strict :: "'m hp_cfg \<Rightarrow> 'm hp_cfg \<Rightarrow> bool" where
  "hp_strict c c' \<longleftrightarrow> length (hc_buf c') < length (hc_buf c) \<or>
     hc_buf c' = hc_buf c \<and> dones (hc_parser c') < dones (hc_parser c)"

lemma hp_progress_trans: "hp_progress a b \<Longrightarrow> hp_progress b c \<Longrightarrow> hp_progress a c" "hp_progress a b \<Longrightarrow> hp_strict b c \<Longrightarrow> hp_strict a c"
  by (auto simp: hp_progress_def hp_strict_def)

lemma dones_push [simp]: "dones (php_http_header_parser_state_push st p) = (if st = HP_DONE then Suc (dones p) else dones p)"
  by (simp add: dones_def php_http_header_parser_state_push_def)

lemma dones_upd [simp]: "dones (p\<lparr>hp_info := i\<rparr>) = dones p" "dones (p\<lparr>hp_key := k\<rparr>) = dones p" "dones (p\<lparr>hp_val := v\<rparr>) = dones p"
  by (simp_all add: dones_def)

lemma hp_key_return:
  assumes "hp_key_step env flags cb d = Some (HP_Return st c')"
  shows "hc_buf c' = hc_buf d \<and> dones (hc_parser c') = dones (hc_parser d) \<and> st \<noteq> HP_DONE"
  using assms by (auto simp: hp_key_step_def hp_key_line_def hp_return_def Let_def split: option.splits prod.splits nat.splits if_splits)

lemma hp_turn_progress:
  assumes "hp_continue c = Some True" "hp_turn_of env flags cb c = Some t"
  shows "case t of HP_Next c' \<Rightarrow> hp_progress c c' | HP_Return st c' \<Rightarrow> hp_progress c c' \<and> (st = HP_DONE \<longrightarrow> hp_strict c c')"
proof -
  let ?st = "php_http_header_parser_state_is (hc_parser c)"
  let ?d = "c\<lparr>hc_parser := (hc_parser c)\<lparr>hp_stack := tl (hp_stack (hc_parser c))\<rparr>\<rparr>"
  have pop: "dones (hc_parser ?d) + (if ?st = HP_DONE then 1 else 0) = dones (hc_parser c)"
    by (cases "hp_stack (hc_parser c)") (auto simp: dones_def php_http_header_parser_state_is_def)
  have ne: "hc_buf c \<noteq> []" if "hp_need_data ?st = Some True" using assms(1) that by (auto simp: hp_continue_def split: if_splits)
  note t = assms(2) [unfolded hp_turn_of_def php_http_header_parser_state_pop_def]
  have drp: "length (dropWhile isspace (hc_buf c)) < length (hc_buf c) \<or> dropWhile isspace (hc_buf c) = hc_buf c"
    by (cases "hc_buf c") (auto intro: le_imp_less_Suc length_dropWhile_le)
  show ?thesis
  proof (cases ?st)
    case HP_START
    with t pop drp show ?thesis by (auto simp: hp_start_def hp_progress_def)
  next
    case HP_KEY
    with t have k: "hp_key_step env flags cb ?d = Some t" by simp
    show ?thesis
    proof (cases t)
      case (HP_Next c')
      with hp_key_shrinks [of env flags cb ?d c'] k ne HP_KEY show ?thesis by (simp add: hp_progress_def)
    next
      case (HP_Return st c')
      with hp_key_return [of env flags cb ?d st c'] k pop HP_KEY show ?thesis by (simp add: hp_progress_def)
    qed
  next
    case HP_VALUE
    with t have k: "hp_value_step flags ?d = t" by simp
    show ?thesis
    proof (cases t)
      case (HP_Next c')
      with hp_value_shrinks [of flags ?d c'] k ne HP_VALUE show ?thesis by (simp add: hp_progress_def)
    next
      case (HP_Return st c')
      with k pop HP_VALUE show ?thesis
        by (auto simp: hp_value_step_def hp_progress_def hp_return_def Let_def split: option.splits if_splits)
    qed
  next
    case HP_VALUE_EX
    with t pop show ?thesis by (auto simp: hp_value_ex_step_def hp_progress_def hp_return_def Let_def split: if_splits)
  next
    case HP_HEADER_DONE
    with t pop show ?thesis
      by (auto simp: hp_header_done_step_def hp_progress_def hp_return_def Let_def split: option.splits if_splits)
  qed (use t pop in \<open>auto simp: hp_progress_def hp_strict_def hp_return_def\<close>)
qed

lemma hp_parse_progress:
  "hp_parse env flags cb c = Some (st, c') \<Longrightarrow>
     hp_progress c c' \<and> (st = HP_DONE \<longrightarrow> hp_strict c c')"
proof (induction env flags cb c rule: hp_parse.induct)
  case (1 env flags cb c)
  show ?case
  proof (cases "hp_continue c")
    case None
    with 1 show ?thesis by (subst (asm) (2) hp_parse.simps) simp
  next
    case (Some b)
    show ?thesis
    proof (cases b)
      case False
      with 1(2) Some have st: "st = php_http_header_parser_state_is (hc_parser c)" "c' = c" by (auto simp: hp_parse.simps [of env flags cb c])
      then have "st \<noteq> HP_DONE" using Some False by (auto simp: hp_continue_def split: if_splits)
      with st show ?thesis by (simp add: hp_progress_def)
    next
      case True
      then have go: "hp_continue c = Some True" using Some by simp
      with 1(2) obtain t where t: "hp_turn_of env flags cb c = Some t" by (simp add: hp_parse.simps [of env flags cb c] split: option.splits)
      show ?thesis
      proof (cases t)
        case (HP_Next d)
        with go t 1(2) have "hp_parse env flags cb d = Some (st, c')" by (simp add: hp_parse.simps [of env flags cb c])
        with 1(1) [OF go _ t HP_Next] hp_turn_progress [OF go t] HP_Next show ?thesis by (auto intro: hp_progress_trans)
      next
        case (HP_Return s d)
        with go t 1(2) hp_turn_progress [OF go t] show ?thesis by (simp add: hp_parse.simps [of env flags cb c])
      qed
    qed
  qed
qed

section \<open>The loop\<close>

text \<open>
  Every turn that goes on shortens the buffer (with a pending cut applied), or removes a \<open>DONE\<close> of the
  header parser, or lowers the weight of the stack. The state \<open>HEADER\<close> is the heaviest when there is no
  data and the lightest otherwise.
\<close>

fun mp_weight :: "bool \<Rightarrow> php_http_message_parser_state \<Rightarrow> nat" where
  "mp_weight e MP_FAILURE = 0"
| "mp_weight e MP_START = 2"
| "mp_weight e MP_HEADER = (if e then 16 else 1)"
| "mp_weight e MP_HEADER_DONE = 15"
| "mp_weight e MP_BODY_DONE = 10"
| "mp_weight e MP_BODY = 3"
| "mp_weight e MP_UPDATE_CL = 3"
| "mp_weight e MP_DONE = 3"
| "mp_weight e _ = 14"

definition stack_weight :: "bool \<Rightarrow> php_http_message_parser_state list \<Rightarrow> nat" where
  "stack_weight e s = (if s = [] then 2 else sum_list (map (mp_weight e) s))"

definition mp_rest :: "'i mp_cfg \<Rightarrow> nat" where
  "mp_rest c = length (mc_buf c) - (if php_http_message_parser_state_is (mc_parser c) = MP_BODY then mc_cut c else 0)"

definition mp_measure :: "'i mp_cfg \<Rightarrow> nat \<times> nat \<times> nat" where
  "mp_measure c = (mp_rest c, dones (mp_header (mc_parser c)), stack_weight (mp_rest c = 0) (mp_stack (mc_parser c)))"

definition mp_below :: "('i mp_cfg \<times> 'i mp_cfg) set" where
  "mp_below = inv_image (less_than <*lex*> less_than <*lex*> less_than) mp_measure"

lemma mp_belowI:
  assumes "e = (mp_rest c = 0)" "mp_rest c' \<le> mp_rest c"
    "mp_rest c' = mp_rest c \<Longrightarrow> dones (mp_header (mc_parser c')) \<le> dones (mp_header (mc_parser c))"
    "mp_rest c' = mp_rest c \<Longrightarrow> dones (mp_header (mc_parser c')) = dones (mp_header (mc_parser c)) \<Longrightarrow>
       stack_weight e (mp_stack (mc_parser c')) < stack_weight e (mp_stack (mc_parser c))"
  shows "(c', c) \<in> mp_below"
  using assms by (cases "mp_rest c' = mp_rest c"; cases "dones (mp_header (mc_parser c')) = dones (mp_header (mc_parser c))")
     (auto simp: mp_below_def mp_measure_def)

lemma mp_push_simps [simp]:
  "mc_buf (mp_push st c) = mc_buf c" "mc_msgs (mp_push st c) = mc_msgs c" "mc_str (mp_push st c) = mc_str c"
  "mc_cut (mp_push st c) = mc_cut c" "mc_parser (mp_push st c) = php_http_message_parser_state_push st (mc_parser c)"
  by (simp_all add: mp_push_def)

lemma mp_state_push_simps [simp]:
  "mp_header (php_http_message_parser_state_push st p) = mp_header p"
  "mp_stack (php_http_message_parser_state_push st p) = st # mp_stack p"
  "mp_dechunk (php_http_message_parser_state_push st p) = mp_dechunk p"
  "mp_inflate (php_http_message_parser_state_push st p) = mp_inflate p"
  "mp_body_length (php_http_message_parser_state_push st p) = mp_body_length p"
  "php_http_message_parser_state_is (php_http_message_parser_state_push st p) = st"
  by (simp_all add: php_http_message_parser_state_push_def php_http_message_parser_state_is_def)

lemma stack_weight_Cons [simp]: "stack_weight e (st # s) = mp_weight e st + sum_list (map (mp_weight e) s)"
  by (simp add: stack_weight_def)

lemma stack_weight_tl: "3 \<le> mp_weight e st \<Longrightarrow> stack_weight e s < mp_weight e st + sum_list (map (mp_weight e) s)"
  by (auto simp: stack_weight_def)

text \<open>What the steps do to buffer, header parser and stack.\<close>

lemma mp_body_state_SomeD:
  assumes "mp_body_state flags chunked cl cr m p = Some p'"
  shows "mp_header p' = mp_header p \<and> (\<exists>st. mp_stack p' = st # mp_stack p \<and> mp_weight e st < 15 \<and> st \<noteq> MP_BODY)"
  using assms by (auto simp: mp_body_state_def mp_length_state_def split: if_splits option.splits)

lemma mp_header_doneD:
  assumes "mp_header_done_step env flags d = Some (MP_Next c')"
  shows "mc_buf c' = mc_buf d \<and> mp_header (mc_parser c') = mp_header (mc_parser d) \<and>
    (\<exists>st. mp_stack (mc_parser c') = st # mp_stack (mc_parser d) \<and> mp_weight e st < 15 \<and> st \<noteq> MP_BODY)"
proof -
  obtain m ms where ms: "mc_msgs d = m # ms" using assms by (cases "mc_msgs d") (auto simp: mp_header_done_step_def)
  obtain ch cl m1 where f: "mp_framing (me_long env) m = (ch, cl, m1)" by (metis prod_cases3)
  define m2 where "m2 = (case php_http_message_header_string m1 ''Content-Range'' of None \<Rightarrow> m1 | Some cr \<Rightarrow> msg_update_header ''Content-Range'' (ZStr cr) m1)"
  obtain m3 inf where g: "mp_content_encoding env m2 (mp_inflate (mc_parser d)) = (m3, inf)" by (metis prod.exhaust)
  show ?thesis
  proof (cases "mp_empty_redirect flags m2")
    case True
    with assms ms f show ?thesis by (auto simp: mp_header_done_step_def m2_def [symmetric] Let_def)
  next
    case False
    with assms ms f g obtain p where "mp_body_state flags ch cl (php_http_message_header_string m1 ''Content-Range'') m3 ((mc_parser d)\<lparr>mp_inflate := inf\<rparr>) = Some p"
      "c' = d\<lparr>mc_parser := p, mc_msgs := m3 # ms\<rparr>"
      by (auto simp: mp_header_done_step_def m2_def [symmetric] Let_def)
    with mp_body_state_SomeD [OF this(1), of e] show ?thesis by simp
  qed
qed

lemma mp_body_stepD:
  assumes "mp_body_step env d = Some (MP_Next c')"
  shows "mc_buf c' = drop (mc_cut d) (mc_buf d) \<and> mc_cut c' = 0 \<and> mp_header (mc_parser c') = mp_header (mc_parser d) \<and>
    mp_stack (mc_parser c') = mp_stack (mc_parser d)"
  using assms by (auto simp: mp_body_step_def mp_return_def msgs_write_def Let_def split: if_splits option.splits prod.splits list.splits)


lemma mp_header_stepD:
  assumes "mp_header_step env flags d = Some (MP_Next c')"
  shows "mp_stack (mc_parser c') = MP_HEADER_DONE # mp_stack (mc_parser d) \<and>
    (length (mc_buf c') < length (mc_buf d) \<or>
     mc_buf c' = mc_buf d \<and> (dones (mp_header (mc_parser c')) < dones (mp_header (mc_parser d)) \<or>
       mc_buf d = [] \<and> dones (mp_header (mc_parser c')) \<le> dones (mp_header (mc_parser d))))"
proof -
  let ?hf = "if flags AND PHP_HTTP_MESSAGE_PARSER_CLEANUP \<noteq> 0 then PHP_HTTP_HEADER_PARSER_CLEANUP else 0"
  let ?h = "case mc_msgs d of m # _ \<Rightarrow> Some (msg_hdrs m) | [] \<Rightarrow> None"
  let ?c = "\<lparr>hc_parser = mp_header (mc_parser d), hc_buf = mc_buf d, hc_headers = ?h, hc_arg = mc_msgs d\<rparr>"
  obtain st h where p: "hp_parse (me_url env) ?hf (Some php_http_message_info_callback) ?c = Some (st, h)"
    using assms unfolding mp_header_step_def php_http_header_parser_parse_def Let_def by (auto split: option.splits)
  from hp_parse_progress [OF this] have pr: "hp_progress ?c h" "st = HP_DONE \<Longrightarrow> hp_strict ?c h" by simp_all
  with assms p show ?thesis
    by (auto simp: mp_header_step_def php_http_header_parser_parse_def mp_return_def Let_def hp_progress_def hp_strict_def
        split: if_splits)
qed

lemma mp_body_chunkedD:
  assumes "mp_body_chunked_step d = Some (MP_Next c')"
  shows "mc_buf c' = mc_buf d \<and> mp_header (mc_parser c') = mp_header (mc_parser d) \<and>
    (mp_stack (mc_parser c') = MP_BODY # MP_BODY_DONE # mp_stack (mc_parser d) \<or>
     mp_stack (mc_parser c') = MP_BODY # MP_BODY_CHUNKED # mp_stack (mc_parser d) \<and> mc_cut c' = length (mc_buf d))"
  using assms by (auto simp: mp_body_chunked_step_def Let_def split: option.splits if_splits prod.splits)

lemma mp_body_doneD:
  assumes "mp_body_done_step d = MP_Next c'"
  shows "mc_buf c' = mc_buf d \<and> mp_header (mc_parser c') = mp_header (mc_parser d) \<and>
    (mp_stack (mc_parser c') = MP_DONE # mp_stack (mc_parser d) \<or>
     mp_stack (mc_parser c') = MP_BODY # MP_UPDATE_CL # MP_DONE # mp_stack (mc_parser d) \<and> mc_cut c' = 0)"
  using assms by (auto simp: mp_body_done_step_def mp_return_def Let_def split: option.splits if_splits prod.splits list.splits)

lemma mp_rest_le: "mp_rest c \<le> length (mc_buf c)"
  by (simp add: mp_rest_def)

lemma mp_state_stack: "mp_stack p = st # s \<Longrightarrow> php_http_message_parser_state_is p = st"
  by (simp add: php_http_message_parser_state_is_def)

lemma mp_turn_decreases:
  assumes "mp_continue c = Some True" "mp_turn_of env flags c = Some (MP_Next c')"
  shows "(c', c) \<in> mp_below"
proof -
  let ?p = "mc_parser c" and ?st = "php_http_message_parser_state_is (mc_parser c)"
  let ?d = "c\<lparr>mc_parser := ?p\<lparr>mp_stack := tl (mp_stack ?p)\<rparr>\<rparr>"
  have d: "mc_buf ?d = mc_buf c" "mp_header (mc_parser ?d) = mp_header ?p" "mp_stack (mc_parser ?d) = tl (mp_stack ?p)"
    "mc_cut ?d = mc_cut c" "mp_body_length (mc_parser ?d) = mp_body_length ?p" by simp_all
  have ne: "mc_buf c \<noteq> []" if "mp_need_data ?st = Some True" using assms(1) that by (auto simp: mp_continue_def split: if_splits)
  have stack: "mp_stack ?p = ?st # tl (mp_stack ?p)" if "?st \<noteq> MP_START"
    using that by (cases "mp_stack ?p") (simp_all add: php_http_message_parser_state_is_def)
  define e where "e = (mp_rest c = 0)"
  have w: "stack_weight e (mp_stack ?p) = mp_weight e ?st + sum_list (map (mp_weight e) (tl (mp_stack ?p)))" if "?st \<noteq> MP_START"
    by (subst stack [OF that]) simp
  have rest: "mp_rest c = length (mc_buf c)" if "?st \<noteq> MP_BODY" using that by (simp add: mp_rest_def)
  note t = assms(2) [unfolded mp_turn_of_def php_http_message_parser_state_pop_def]
  note weigh = stack_weight_tl [of e ?st "tl (mp_stack ?p)"]
  show ?thesis
  proof (cases ?st)
    case MP_START
    with t have c': "c' = (if dropWhile isspace (mc_buf c) \<noteq> [] then mp_push MP_HEADER (?d\<lparr>mc_buf := dropWhile isspace (mc_buf c)\<rparr>)
        else ?d\<lparr>mc_buf := dropWhile isspace (mc_buf c)\<rparr>)" by (simp add: mp_start_def Let_def)
    have le: "length (dropWhile isspace (mc_buf c)) \<le> length (mc_buf c)" by (rule length_dropWhile_le)
    have pos: "mp_rest c \<noteq> 0" "\<not> e" using MP_START ne rest by (simp_all add: e_def)
    show ?thesis
    proof (cases "dropWhile isspace (mc_buf c) = []")
      case True
      then have "mp_rest c' = 0" unfolding c' mp_rest_def by (simp del: dropWhile_eq_Nil_conv)
      with pos show ?thesis by (intro mp_belowI [OF e_def]) simp_all
    next
      case False
      then show ?thesis using le pos MP_START rest
        by (intro mp_belowI [OF e_def]; cases "mp_stack ?p")
           (simp_all add: c' mp_rest_def stack_weight_def php_http_message_parser_state_is_def)
    qed
  next
    case MP_HEADER
    with t have "mp_header_step env flags ?d = Some (MP_Next c')" by simp
    note h = mp_header_stepD [OF this, unfolded d]
    then have r': "mp_rest c' = length (mc_buf c')" by (simp add: mp_rest_def mp_state_stack)
    have r: "mp_rest c = length (mc_buf c)" using rest MP_HEADER by simp
    have "mc_buf c = [] \<Longrightarrow> stack_weight e (mp_stack (mc_parser c')) < stack_weight e (mp_stack ?p)"
      using h w MP_HEADER r by (simp add: e_def)
    then show ?thesis using h r r' by (intro mp_belowI [OF e_def]) auto
  next
    case MP_HEADER_DONE
    with t have "mp_header_done_step env flags ?d = Some (MP_Next c')" by simp
    from mp_header_doneD [OF this, unfolded d, of e] obtain st where h: "mc_buf c' = mc_buf c"
      "mp_header (mc_parser c') = mp_header ?p" "mp_stack (mc_parser c') = st # tl (mp_stack ?p)" "mp_weight e st < 15" "st \<noteq> MP_BODY" by auto
    then have "mp_rest c' = length (mc_buf c')" by (simp add: mp_rest_def mp_state_stack)
    with h MP_HEADER_DONE rest w show ?thesis by (intro mp_belowI [OF e_def]) simp_all
  next
    case MP_BODY
    with t have "mp_body_step env ?d = Some (MP_Next c')" by simp
    note h = mp_body_stepD [OF this, unfolded d]
    then have "mp_rest c' = mp_rest c" using MP_BODY by (simp add: mp_rest_def)
    with h MP_BODY w weigh show ?thesis by (intro mp_belowI [OF e_def]) simp_all
  next
    case MP_BODY_DUMB
    with t have c': "c' = mp_push MP_BODY (mp_push MP_BODY_DONE (?d\<lparr>mc_str := mc_buf c, mc_cut := length (mc_buf c)\<rparr>))"
      by (simp add: mp_body_dumb_step_def)
    then have "mp_rest c' = 0" by (simp add: mp_rest_def)
    with MP_BODY_DUMB ne rest show ?thesis by (intro mp_belowI [OF e_def]) simp_all
  next
    case MP_BODY_LENGTH
    let ?len = "min (unat (mp_body_length ?p)) (length (mc_buf c))"
    from t MP_BODY_LENGTH have h: "mp_rest c' = length (mc_buf c) - ?len" "mp_header (mc_parser c') = mp_header ?p"
      "mp_body_length ?p = 0 \<Longrightarrow> mp_stack (mc_parser c') = MP_BODY # MP_BODY_DONE # tl (mp_stack ?p)"
      by (auto simp: mp_body_length_step_def mp_rest_def Let_def)
    have "?len \<noteq> 0" if "mp_body_length ?p \<noteq> 0" using that MP_BODY_LENGTH ne by (simp add: unat_gt_0 word_neq_0_conv)
    then have "mp_rest c' < mp_rest c \<or> mp_body_length ?p = 0" using h(1) rest MP_BODY_LENGTH ne by auto
    then show ?thesis using h MP_BODY_LENGTH rest w by (intro mp_belowI [OF e_def]) auto
  next
    case MP_BODY_CHUNKED
    with t have "mp_body_chunked_step ?d = Some (MP_Next c')" by simp
    note h = mp_body_chunkedD [OF this, unfolded d]
    have r: "mp_rest c = length (mc_buf c)" "mp_rest c \<noteq> 0" using rest MP_BODY_CHUNKED ne by simp_all
    have le: "mp_rest c' \<le> mp_rest c" using h r mp_rest_le [of c'] by simp
    have "stack_weight e (mp_stack (mc_parser c')) < stack_weight e (mp_stack ?p)" if "mp_rest c' = mp_rest c"
    proof -
      have "mp_stack (mc_parser c') = MP_BODY # MP_BODY_DONE # tl (mp_stack ?p)"
        using h that r by (auto simp: mp_rest_def mp_state_stack)
      then show ?thesis using w MP_BODY_CHUNKED by simp
    qed
    then show ?thesis using h le by (intro mp_belowI [OF e_def]) simp_all
  next
    case MP_BODY_DONE
    with t have "mp_body_done_step ?d = MP_Next c'" by simp
    note h = mp_body_doneD [OF this, unfolded d]
    then have r': "mp_rest c' = length (mc_buf c)" by (auto simp: mp_rest_def mp_state_stack)
    have "stack_weight e (mp_stack (mc_parser c')) < stack_weight e (mp_stack ?p)" using h w MP_BODY_DONE by auto
    then show ?thesis using h r' rest MP_BODY_DONE by (intro mp_belowI [OF e_def]) simp_all
  next
    case MP_UPDATE_CL
    with t have h: "mc_buf c' = mc_buf c" "mp_header (mc_parser c') = mp_header ?p" "mp_stack (mc_parser c') = tl (mp_stack ?p)"
      by (auto simp: mp_update_cl_step_def split: list.splits)
    with MP_UPDATE_CL rest w weigh mp_rest_le [of c'] show ?thesis by (intro mp_belowI [OF e_def]) simp_all
  next
    case MP_DONE
    with t have h: "mc_buf c' = dropWhile isspace (mc_buf c)" "mp_header (mc_parser c') = mp_header ?p" "mp_stack (mc_parser c') = tl (mp_stack ?p)"
      by (auto simp: mp_done_step_def Let_def split: if_splits)
    with MP_DONE rest w weigh mp_rest_le [of c'] length_dropWhile_le [of isspace "mc_buf c"] show ?thesis
      by (intro mp_belowI [OF e_def]) simp_all
  qed (use t in \<open>simp_all add: mp_return_def\<close>)
qed

function mp_parse :: "'i mp_env \<Rightarrow> 32 word \<Rightarrow> 'i mp_cfg \<Rightarrow> (php_http_message_parser_state \<times> 'i mp_cfg) option" where
  "mp_parse env flags c =
     (case mp_continue c of
        None \<Rightarrow> None
      | Some False \<Rightarrow> Some (php_http_message_parser_state_is (mc_parser c), c)
      | Some True \<Rightarrow>
          (case mp_turn_of env flags c of
             None \<Rightarrow> None
           | Some (MP_Return st c') \<Rightarrow> Some (st, c')
           | Some (MP_Next c') \<Rightarrow> mp_parse env flags c'))"
  by pat_completeness auto
termination
  by (relation "inv_image mp_below (\<lambda>(_, _, c). c)") (auto simp: mp_below_def dest: mp_turn_decreases [unfolded mp_below_def])

declare mp_parse.simps [simp del]

definition php_http_message_parser_parse ::
  "'i mp_env \<Rightarrow> 'i php_http_message_parser \<Rightarrow> bytes \<Rightarrow> 32 word \<Rightarrow> php_http_message list \<Rightarrow>
     (php_http_message_parser_state \<times> 'i mp_cfg) option" where
  "php_http_message_parser_parse env parser buffer flags message =
     mp_parse env flags \<lparr>mc_parser = parser, mc_buf = buffer, mc_msgs = message, mc_str = [], mc_cut = 0\<rparr>"

text \<open>\<open>php_http_message_parse\<close>, without a message of the caller; \<open>Some None\<close> is a failure.\<close>

definition php_http_message_parse ::
  "'i mp_env \<Rightarrow> bytes \<Rightarrow> bool \<Rightarrow> php_http_message list option option" where
  "php_http_message_parse env str greedy =
     (let msg = [php_http_message_init PHP_HTTP_NONE None];
          flags = PHP_HTTP_MESSAGE_PARSER_CLEANUP OR (if greedy then PHP_HTTP_MESSAGE_PARSER_GREEDY else 0) in
      case php_http_message_parser_parse env php_http_message_parser_init str flags msg of
        None \<Rightarrow> None
      | Some (st, c) \<Rightarrow> Some (if st = MP_FAILURE then None else Some (mc_msgs c)))"


section \<open>Inputs that are handled badly\<close>

text \<open>A sample environment; its inflate stream turns letters to capitals.\<close>

definition sample_mp_env :: "unit mp_env" where
  "sample_mp_env = \<lparr>me_url = ascii_env, me_long = (\<lambda>s. int (digits_val 10 s)),
     me_inflate = \<lparr>op_init = Some, op_copy = None, op_update = Some (\<lambda>s d. (True, Some (map toupper d), s)), op_flush = None,
       op_done = None, op_finish = None, op_dtor = None\<rparr>\<rparr>"

text \<open>A header without value as the only input of a parser without message: the null pointer is followed.\<close>

lemma message_parser_null_message:
  "php_http_message_parser_parse sample_mp_env php_http_message_parser_init (''A:'' @ [CR, LF, CR, LF]) 0 [] = None"
  by code_simp

text \<open>A repeated \<open>Content-Length\<close> counts as the length one; the rest of the body is taken for the next message.\<close>

lemma message_parser_repeated_length:
  "map_option (map_option (map (body_data \<circ> msg_body))) (php_http_message_parse sample_mp_env
      (''HTTP/1.1 200 OK'' @ [CR, LF] @ ''Content-Length: 5'' @ [CR, LF] @ ''Content-Length: 5'' @ [CR, LF, CR, LF] @ ''hello'') False) =
     Some (Some [''h''])"
  by code_simp

text \<open>A range without total length is read behind its end.\<close>

lemma content_range_overreads: "content_range_length ''bytes 0-4'' = None" "content_range_length ''bytes 0-4/5'' = Some (Some 5)"
  by code_simp+

text \<open>The inflate stream of one message is applied to the next one, although that has no content coding.\<close>

lemma message_parser_keeps_inflate:
  "map_option (map_option (map (body_data \<circ> msg_body))) (php_http_message_parse sample_mp_env
      (''HTTP/1.1 200 OK'' @ [CR, LF] @ ''Content-Length: 2'' @ [CR, LF] @ ''Content-Encoding: gzip'' @ [CR, LF, CR, LF] @ ''ab'' @
       ''HTTP/1.1 200 OK'' @ [CR, LF] @ ''Content-Length: 2'' @ [CR, LF, CR, LF] @ ''cd'') True) =
     Some (Some [''CD'', ''AB''])"
  by code_simp

text \<open>The length of a chunked body stays zero: the state that would update it is entered only if finishing the decoder gives data.\<close>

lemma message_parser_chunked_length:
  "map_option (map_option (map (\<lambda>m. (body_data (msg_body m), php_http_message_header m ''Content-Length'')))) (php_http_message_parse sample_mp_env
      (''HTTP/1.1 200 OK'' @ [CR, LF] @ ''Transfer-Encoding: chunked'' @ [CR, LF, CR, LF] @ ''2'' @ [CR, LF] @ ''hi'' @ [CR, LF] @ ''0'' @ [CR, LF, CR, LF])
      False) = Some (Some [(''hi'', Some (ZLong 0))])"
  by code_simp

text \<open>A failure in the headers is reported but not kept: the parser is in its start state afterwards.\<close>

lemma message_parser_failure_forgotten:
  "map_option (\<lambda>(st, c). (st, php_http_message_parser_state_is (mc_parser c)))
     (php_http_message_parser_parse sample_mp_env php_http_message_parser_init (''(bad): x'' @ [CR, LF]) 0 []) =
     Some (MP_FAILURE, MP_START)"
  by code_simp


section \<open>Reachable configurations\<close>

text \<open>
  The configurations a client can bring about: it appends data to the buffer, calls the parser (which
  begins with no pending data), and the loop turns, with any flags.
\<close>

inductive mp_reachable :: "'i mp_env \<Rightarrow> 'i mp_cfg \<Rightarrow> 'i mp_cfg \<Rightarrow> bool" for env c0 where
  init: "mp_reachable env c0 c0"
| feed: "mp_reachable env c0 c \<Longrightarrow> mp_reachable env c0 (c\<lparr>mc_buf := mc_buf c @ d\<rparr>)"
| call: "mp_reachable env c0 c \<Longrightarrow> mp_reachable env c0 (c\<lparr>mc_str := [], mc_cut := 0\<rparr>)"
| turn: "mp_reachable env c0 c \<Longrightarrow> mp_continue c = Some True \<Longrightarrow> mp_turn_of env flags c = Some (MP_Next c') \<Longrightarrow> mp_reachable env c0 c'"
| return: "mp_reachable env c0 c \<Longrightarrow> mp_continue c = Some True \<Longrightarrow> mp_turn_of env flags c = Some (MP_Return st c') \<Longrightarrow> mp_reachable env c0 c'"

text \<open>A run of the loop is such a sequence.\<close>

lemma mp_parse_reachable: "mp_parse env flags c = Some (st, c') \<Longrightarrow> mp_reachable env c0 c \<Longrightarrow> mp_reachable env c0 c'"
proof (induction env flags c rule: mp_parse.induct)
  case (1 env flags c)
  show ?case
  proof (cases "mp_continue c")
    case None
    with 1(2) show ?thesis by (simp add: mp_parse.simps [of env flags c])
  next
    case (Some b)
    with 1(2,3) show ?thesis
    proof (cases b)
      case True
      with Some have go: "mp_continue c = Some True" by simp
      with 1(2) obtain t where t: "mp_turn_of env flags c = Some t" by (simp add: mp_parse.simps [of env flags c] split: option.splits)
      show ?thesis
      proof (cases t)
        case (MP_Next d)
        with go t 1(2) have "mp_parse env flags d = Some (st, c')" by (simp add: mp_parse.simps [of env flags c])
        with 1(1) [OF go _ t MP_Next] mp_reachable.turn [OF 1(3) go] t MP_Next show ?thesis by simp
      next
        case (MP_Return s d)
        with go t 1(2) have "c' = d" by (simp add: mp_parse.simps [of env flags c])
        with mp_reachable.return [OF 1(3) go] t MP_Return show ?thesis by simp
      qed
    qed (auto simp: mp_parse.simps [of env flags c])
  qed
qed

text \<open>The chain has the given messages behind its first ones.\<close>

definition keeps :: "php_http_message list \<Rightarrow> php_http_message list \<Rightarrow> bool" where
  "keeps ms msgs \<longleftrightarrow> (\<exists>pre m. msgs = pre @ m # ms)"

lemma keeps_Cons: "keeps ms msgs \<Longrightarrow> keeps ms (m # msgs)"
  by (auto simp: keeps_def intro: exI [of _ "m # _"])

lemma keeps_head: "keeps ms (m # msgs) \<Longrightarrow> keeps ms (m' # msgs)"
  unfolding keeps_def by (metis append_Cons append_Nil list.sel(3) list.sel(1) neq_Nil_conv append_is_Nil_conv list.distinct(1))

lemma keeps_sync: "keeps ms msgs \<Longrightarrow> keeps ms (message_sync h msgs)"
  by (cases msgs) (auto simp: message_sync_def intro: keeps_head split: option.splits)

lemma keeps_callback:
  assumes "keeps ms msgs"
  shows "keeps ms (fst (php_http_message_info_callback msgs h i))"
proof -
  obtain m ms' where s: "message_sync h msgs = m # ms'" "keeps ms (m # ms')"
    using keeps_sync [OF assms, of h] by (cases "message_sync h msgs") (auto simp: keeps_def)
  then show ?thesis
    by (auto simp: php_http_message_info_callback_def Let_def intro: keeps_head keeps_Cons split: option.splits)
qed

lemma hp_callback_keeps: "keeps ms (hc_arg c) \<Longrightarrow> keeps ms (hc_arg (hp_callback (Some php_http_message_info_callback) i c))"
  using keeps_callback [of ms "hc_arg c" "hc_headers c" i] by (simp add: hp_callback_def split_def Let_def)

lemma hp_turn_keeps:
  assumes "hp_turn_of env flags (Some php_http_message_info_callback) c = Some t" "keeps ms (hc_arg c)"
  shows "case t of HP_Next c' \<Rightarrow> keeps ms (hc_arg c') | HP_Return st c' \<Rightarrow> keeps ms (hc_arg c')"
proof -
  let ?d = "c\<lparr>hc_parser := (hc_parser c)\<lparr>hp_stack := tl (hp_stack (hc_parser c))\<rparr>\<rparr>"
  have d: "keeps ms (hc_arg ?d)" using assms(2) by simp
  have k: "case t of HP_Next c' \<Rightarrow> keeps ms (hc_arg c') | HP_Return st c' \<Rightarrow> keeps ms (hc_arg c')"
    if "hp_key_step env flags (Some php_http_message_info_callback) ?d = Some t"
    using that d hp_callback_keeps [of ms]
    by (auto simp: hp_key_step_def hp_key_line_def hp_return_def Let_def split: option.splits prod.splits nat.splits if_splits)
  show ?thesis
    using assms(1) [unfolded hp_turn_of_def php_http_header_parser_state_pop_def] d k hp_callback_keeps [OF d]
    by (cases "php_http_header_parser_state_is (hc_parser c)")
       (auto simp: hp_return_def hp_start_def hp_value_step_def hp_value_ex_step_def hp_header_done_step_def Let_def
         split: option.splits if_splits prod.splits)
qed

lemma hp_parse_keeps:
  "hp_parse env flags (Some php_http_message_info_callback) c = Some (st, c') \<Longrightarrow> keeps ms (hc_arg c) \<Longrightarrow> keeps ms (hc_arg c')"
proof (induction env flags "Some php_http_message_info_callback" c rule: hp_parse.induct)
  case (1 env flags c)
  show ?case
  proof (cases "hp_continue c")
    case (Some b)
    then show ?thesis
    proof (cases b)
      case True
      with Some 1(2) obtain t where t: "hp_turn_of env flags (Some php_http_message_info_callback) c = Some t"
        by (simp add: hp_parse.simps [of env flags _ c] split: option.splits)
      with Some True 1 hp_turn_keeps [OF t 1(3)] show ?thesis by (cases t) (auto simp: hp_parse.simps [of env flags _ c])
    qed (use 1 Some in \<open>auto simp: hp_parse.simps [of env flags _ c]\<close>)
  qed (use 1 in \<open>simp add: hp_parse.simps [of env flags _ c]\<close>)
qed


lemma mp_header_step_keeps:
  assumes "mp_header_step env flags d = Some t" "keeps ms (mc_msgs d)"
  shows "case t of MP_Next c' \<Rightarrow> keeps ms (mc_msgs c') | MP_Return st c' \<Rightarrow> keeps ms (mc_msgs c')"
proof -
  let ?hf = "if flags AND PHP_HTTP_MESSAGE_PARSER_CLEANUP \<noteq> 0 then PHP_HTTP_HEADER_PARSER_CLEANUP else 0"
  let ?h = "case mc_msgs d of m # _ \<Rightarrow> Some (msg_hdrs m) | [] \<Rightarrow> None"
  let ?c = "\<lparr>hc_parser = mp_header (mc_parser d), hc_buf = mc_buf d, hc_headers = ?h, hc_arg = mc_msgs d\<rparr>"
  obtain st h where p: "hp_parse (me_url env) ?hf (Some php_http_message_info_callback) ?c = Some (st, h)"
    using assms(1) unfolding mp_header_step_def php_http_header_parser_parse_def Let_def by (auto split: option.splits)
  from hp_parse_keeps [OF this, of ms] assms(2) have "keeps ms (message_sync (hc_headers h) (hc_arg h))" by (intro keeps_sync) simp
  with assms(1) p show ?thesis
    by (auto simp: mp_header_step_def php_http_header_parser_parse_def mp_return_def Let_def split: if_splits)
qed

lemma mp_header_done_keeps:
  assumes "mp_header_done_step env flags d = Some t" "keeps ms (mc_msgs d)"
  shows "case t of MP_Next c' \<Rightarrow> keeps ms (mc_msgs c') | MP_Return st c' \<Rightarrow> keeps ms (mc_msgs c')"
  using assms
  by (auto simp: mp_header_done_step_def Let_def intro: keeps_head split: list.splits prod.splits if_splits)

lemma msgs_write_keeps: "msgs_write s msgs = Some msgs' \<Longrightarrow> keeps ms msgs \<Longrightarrow> keeps ms msgs'"
  by (auto simp: msgs_write_def intro: keeps_head split: list.splits)

lemma mp_turn_keeps:
  assumes "mp_turn_of env flags c = Some t" "keeps ms (mc_msgs c)"
  shows "case t of MP_Next c' \<Rightarrow> keeps ms (mc_msgs c') | MP_Return st c' \<Rightarrow> keeps ms (mc_msgs c')"
proof -
  let ?d = "c\<lparr>mc_parser := (mc_parser c)\<lparr>mp_stack := tl (mp_stack (mc_parser c))\<rparr>\<rparr>"
  have d: "keeps ms (mc_msgs ?d)" using assms(2) by simp
  have b: "case t of MP_Next c' \<Rightarrow> keeps ms (mc_msgs c') | MP_Return st c' \<Rightarrow> keeps ms (mc_msgs c')" if "mp_body_step env ?d = Some t"
    using that d by (auto simp: mp_body_step_def mp_return_def Let_def intro: msgs_write_keeps split: option.splits prod.splits if_splits)
  have u: "case t of MP_Next c' \<Rightarrow> keeps ms (mc_msgs c') | MP_Return st c' \<Rightarrow> keeps ms (mc_msgs c')" if "mp_update_cl_step ?d = Some t"
    using that d by (auto simp: mp_update_cl_step_def intro: keeps_head split: list.splits)
  show ?thesis
    using assms(1) [unfolded mp_turn_of_def php_http_message_parser_state_pop_def] d b u
      mp_header_step_keeps [OF _ d, of env flags t] mp_header_done_keeps [OF _ d, of env flags t]
    by (cases "php_http_message_parser_state_is (mc_parser c)")
       (auto simp: mp_return_def mp_start_def mp_body_dumb_step_def mp_body_length_step_def mp_body_chunked_step_def mp_body_done_step_def
         mp_done_step_def Let_def split: option.splits if_splits prod.splits list.splits)
qed

text \<open>
  C19. Finished messages are never touched: whatever data the parser is fed with, in whatever pieces and with
  whatever flags, the parents of the message it was started on stay the same messages in the same order, and
  the chain never becomes empty; new messages are put in front.
\<close>

theorem message_parser_keeps_parents:
  assumes "mp_reachable env c0 c" "mc_msgs c0 = m # ms"
  shows "\<exists>new m'. mc_msgs c = new @ m' # ms"
proof -
  have "keeps ms (mc_msgs c)"
    using assms
  proof (induction rule: mp_reachable.induct)
    case init
    then show ?case by (auto simp: keeps_def intro: exI [of _ "[]"])
  next
    case (turn c flags c')
    with mp_turn_keeps [OF turn(3)] show ?case by simp
  next
    case (return c flags st c')
    with mp_turn_keeps [OF return(3)] show ?case by simp
  qed simp_all
  then show ?thesis by (auto simp: keeps_def)
qed

definition sample_mp_cfg :: "unit mp_cfg" where
  "sample_mp_cfg = \<lparr>mc_parser = php_http_message_parser_init, mc_buf = ''HTTP/1.1 200 OK'' @ [CR, LF] @ ''A: b'' @ [CR, LF, CR, LF] @ ''xyz'',
     mc_msgs = [php_http_message_init PHP_HTTP_NONE None, sample_response], mc_str = [], mc_cut = 0\<rparr>"

theorem message_parser_keeps_parents_witness:
  "\<exists>new m'. mc_msgs (snd (the (mp_parse sample_mp_env 1 sample_mp_cfg))) = new @ m' # [sample_response]"
proof (rule message_parser_keeps_parents)
  have "mp_parse sample_mp_env 1 sample_mp_cfg \<noteq> None" by code_simp
  then obtain st c where c: "mp_parse sample_mp_env 1 sample_mp_cfg = Some (st, c)" by auto
  from mp_parse_reachable [OF this mp_reachable.init]
  show "mp_reachable sample_mp_env sample_mp_cfg (snd (the (mp_parse sample_mp_env 1 sample_mp_cfg)))" by (simp add: c)
  show "mc_msgs sample_mp_cfg = php_http_message_init PHP_HTTP_NONE None # [sample_response]" by (simp add: sample_mp_cfg_def)
qed

end
