(* ===== verification/Http_Message_Roundtrip.thy ===== *)
theory Http_Message_Roundtrip
  imports Http_Message_Parser
begin

text \<open>
  Serialised chains of messages are read back: the composition of printing (\<open>Http_Message\<close>,
  \<open>Http_Header\<close>, \<open>Http_Info\<close>) with the message parser in its greedy mode.
\<close>

section \<open>Start lines\<close>

definition line_starts :: "php_http_info \<Rightarrow> bool" where
  "line_starts info = (case info_data info of InfoRequest (Some m) _ \<Rightarrow> \<not> isspace (hd m) | _ \<Rightarrow> True)"

lemma word_no_eol: "word_char c \<Longrightarrow> \<not> is_eol c"
  by (simp add: word_char_def line_char_def)

lemma literal_no_eol: "\<forall>c\<in>set ''HTTP/ .2''. \<not> is_eol c"
  by (simp add: is_eol_def)

lemma request_line_no_eol:
  assumes "printable_request env v m u" "unat (ver_minor v) \<le> 9"
  shows "\<forall>c\<in>set (m @ SP # request_target (Some m) (Some u) @ SP # ''HTTP/'' @ ver_str v). \<not> is_eol c"
proof -
  have 1: "unat (ver_major v) \<le> 1" "\<forall>c\<in>set m. word_char c" using assms(1) by (simp_all add: printable_request_def)
  from ver_digits [OF 1(1) assms(2)] obtain a b where v: "ver_str v = [a, CHR ''.'', b]" "word_char a" "word_char b" by metis
  have "\<forall>c\<in>set (request_target (Some m) (Some u)). word_char c"
    using request_target_parsed(2) [OF assms(1), of "'' ''"] by simp
  with 1(2) v literal_no_eol word_no_eol show ?thesis unfolding v(1) by fastforce
qed

lemma response_line_no_eol:
  assumes "printable_response v code status" "unat (ver_minor v) \<le> 9"
  shows "\<forall>c\<in>set (''HTTP/'' @ ver_str v @ SP # status_text code status). \<not> is_eol c"
proof -
  from assms have code: "100 \<le> code" "code \<le> 599" by (simp_all add: printable_response_def)
  then have nz: "code \<noteq> 0" by auto
  obtain a b c where abc: "print_long (sint code) = [a, b, c]" "\<forall>d\<in>set [a, b, c]. word_char d"
    using status_code_value [OF code] by metis
  have "\<forall>c\<in>set (status_text code status). \<not> is_eol c"
    using assms(1) abc nz word_no_eol literal_no_eol
    by (auto simp: status_text_def STR_PTR_def printable_response_def line_char_def split: option.splits)
  moreover have "\<forall>c\<in>set (ver_str v). \<not> is_eol c" using response_version(3) [OF assms] by (auto simp: line_char_def)
  ultimately show ?thesis using literal_no_eol by auto
qed

lemma printed_line:
  assumes "printable_info env info" "line_starts info"
  shows "\<exists>L. (\<forall>eol. php_http_info_to_string info eol = Some (L @ eol)) \<and> L \<noteq> [] \<and> \<not> isspace (hd L) \<and> (\<forall>c\<in>set L. \<not> is_eol c) \<and>
    (\<forall>E i. at_line_end E \<longrightarrow> php_http_info_parse env i (L @ E) = Some (True, info))"
proof -
  let ?v = "info_version info"
  have v: "ver_major ?v \<noteq> 0 \<or> ver_minor ?v \<noteq> 0" "unat (ver_minor ?v) \<le> 9" using assms(1) by (auto simp: printable_info_def)
  consider m u where "info_type info = PHP_HTTP_REQUEST" "info_data info = InfoRequest (Some m) (Some u)" "printable_request env ?v m u"
    | code status where "info_type info = PHP_HTTP_RESPONSE" "info_data info = InfoResponse code status" "printable_response ?v code status"
    using assms(1) by (auto simp: printable_info_def split: php_http_info_type.splits info_union.splits option.splits)
  then show ?thesis
  proof cases
    case 1
    let ?L = "m @ SP # request_target (Some m) (Some u) @ SP # ''HTTP/'' @ ver_str ?v"
    have "php_http_info_to_string info eol = Some (?L @ eol)" for eol
      using v(1) 1(1,2) by (auto simp: php_http_info_to_string_def ver_str_def Let_def)
    moreover have "\<not> isspace (hd ?L)" using assms(2) 1(2,3) by (simp add: line_starts_def printable_request_def)
    moreover have "php_http_info_parse env i (?L @ E) = Some (True, info)" if "at_line_end E" for E i
      using info_parse_request_printed [OF 1(3) v(2) that, of i] 1(1,2) by (cases info) simp
    moreover note request_line_no_eol [OF 1(3) v(2)]
    ultimately show ?thesis by (intro exI [of _ ?L]) blast
  next
    case 2
    let ?L = "''HTTP/'' @ ver_str ?v @ SP # status_text code status"
    have "php_http_info_to_string info eol = Some (?L @ eol)" for eol
      using v(1) 2(1,2) by (auto simp: php_http_info_to_string_def ver_str_def Let_def)
    moreover have "\<not> isspace (hd ?L)" by (simp add: ctype_simps)
    moreover have "php_http_info_parse env i (?L @ E) = Some (True, info)" if "at_line_end E" for E i
      using info_parse_response_printed [OF 2(3) v(2) that, of env i] 2(1,2) by (cases info) simp
    moreover note response_line_no_eol [OF 2(3) v(2)]
    ultimately show ?thesis by (intro exI [of _ ?L]) blast
  qed
qed

section \<open>Heads of messages\<close>

abbreviation blank_message :: php_http_message where "blank_message \<equiv> php_http_message_init PHP_HTTP_NONE None"

text \<open>A chain a new message can be added to: only a blank message, or the newest one has a type.\<close>

definition chain_ready :: "php_http_message list \<Rightarrow> php_http_message list \<Rightarrow> bool" where
  "chain_ready msgs prev \<longleftrightarrow> msgs = [blank_message] \<and> prev = [] \<or>
     prev = msgs \<and> msgs \<noteq> [] \<and> msg_type (hd msgs) \<noteq> PHP_HTTP_NONE"

definition typed_info :: "php_http_info \<Rightarrow> bool" where
  "typed_info info \<longleftrightarrow> (case (info_type info, info_data info) of
      (PHP_HTTP_REQUEST, InfoRequest _ _) \<Rightarrow> True | (PHP_HTTP_RESPONSE, InfoResponse _ _) \<Rightarrow> True | _ \<Rightarrow> False)"

lemma printable_typed: "printable_info env info \<Longrightarrow> typed_info info"
  by (auto simp: printable_info_def typed_info_def split: php_http_info_type.splits info_union.splits option.splits)

lemma blank_message_simps [simp]:
  "msg_hdrs blank_message = zend_hash_init" "msg_type blank_message = PHP_HTTP_NONE" "msg_body blank_message = php_http_message_body_init"
  by (simp_all add: php_http_message_init_def php_http_message_set_type_def php_http_info_init_def Let_def)

lemma set_info_blank:
  "typed_info info \<Longrightarrow> php_http_message_set_info info blank_message =
     \<lparr>msg_info = info, msg_hdrs = zend_hash_init, msg_body = php_http_message_body_init\<rparr>"
  by (cases info; cases "info_type info"; cases "info_data info")
     (simp_all add: typed_info_def php_http_message_set_info_def php_http_message_init_def php_http_message_set_type_def
      php_http_info_init_def Let_def)

lemma info_callback_ready:
  assumes "chain_ready msgs prev" "typed_info info"
  shows "php_http_message_info_callback msgs (Some (msg_hdrs (hd msgs))) (Some info) =
    (\<lparr>msg_info = info, msg_hdrs = zend_hash_init, msg_body = php_http_message_body_init\<rparr> # prev, Some zend_hash_init)"
proof -
  have "message_sync (Some (msg_hdrs (hd msgs))) msgs = msgs"
    using assms(1) by (cases msgs) (auto simp: chain_ready_def message_sync_def)
  with assms(1) set_info_blank [OF assms(2)] show ?thesis
    by (cases msgs) (auto simp: chain_ready_def php_http_message_info_callback_def zend_hash_num_elements_def zend_hash_init_def Let_def)
qed

lemma headers_table:
  assumes "\<forall>(n, vs)\<in>set hs. canonical_header n vs" "distinct (map fst hs)"
  shows "commit (fold abs_line (table_lines hs) (zend_hash_init, None)) = header_table hs"
proof -
  have lines: "table_lines hs = map (\<lambda>(n, v). HLine n v) (concat (map (\<lambda>(n, vs). map (Pair n) vs) hs))"
    by (auto simp: table_lines_def map_concat comp_def split_def)
  show ?thesis
    using header_add_table [of hs "[]"] assms unfolding lines commit_lines
    by (simp add: commit_def header_table_def zend_hash_init_def)
qed

lemma header_parser_head:
  assumes info: "printable_info url info" "\<forall>E i. at_line_end E \<longrightarrow> php_http_info_parse url i (L @ E) = Some (True, info)"
    and L: "L \<noteq> []" "\<not> isspace (hd L)" "\<forall>c\<in>set L. \<not> is_eol c"
    and hs: "\<forall>(n, vs)\<in>set hs. canonical_header n vs" "distinct (map fst hs)" and ready: "chain_ready msgs prev"
  shows "php_http_header_parser_parse url (php_http_header_parser_init\<lparr>hp_info := i\<rparr>)
      (L @ CR # LF # concat (map hline_bytes (table_lines hs)) @ CR # LF # rest) flags (Some (msg_hdrs (hd msgs)))
      (Some php_http_message_info_callback) msgs =
    Some (HP_DONE, \<lparr>hc_parser = php_http_header_parser_init\<lparr>hp_info := php_http_info_dtor info\<rparr>, hc_buf = rest,
      hc_headers = Some (header_table hs),
      hc_arg = \<lparr>msg_info = info, msg_hdrs = zend_hash_init, msg_body = php_http_message_body_init\<rparr> # prev\<rparr>)"
proof -
  let ?cb = php_http_message_info_callback and ?b = "concat (map hline_bytes (table_lines hs)) @ CR # LF # rest"
  let ?i = "php_http_info_dtor info"
  define m where "m = \<lparr>msg_info = info, msg_hdrs = zend_hash_init, msg_body = php_http_message_body_init\<rparr> # prev"
  have cb: "?cb msgs (Some (msg_hdrs (hd msgs))) (Some info) = (m, Some zend_hash_init)"
    unfolding m_def by (rule info_callback_ready [OF ready printable_typed [OF info(1)]])
  have ok: "block_ok False (table_lines hs)"
    using hs(1) by (intro block_ok_lines) (fastforce simp: table_lines_def canonical_header_def simp del: hline_ok.simps)
  have ok0: "habs_ok (zend_hash_init, None)" by (simp add: habs_ok_def)
  let ?a = "fold abs_line (table_lines hs) (zend_hash_init, None)"
  have a: "habs_ok ?a" using ok ok0 by (intro hp_lines(2)) simp_all
  have "hp_parse url flags (Some ?cb) (conf i (msg_hdrs (hd msgs), None) msgs (L @ CR # LF # ?b)) =
      hp_parse url flags (Some ?cb) (conf ?i (zend_hash_init, None) m ?b)"
    using info(2) L(1,3) cb by (intro hp_start_line) (simp_all add: at_line_end_def rd_def)
  also have "\<dots> = hp_parse url flags (Some ?cb) (conf ?i ?a m (CR # LF # rest))"
    using ok ok0 by (intro hp_lines(1)) simp_all
  also have "\<dots> = Some (HP_DONE, hp_final ?i ?a m rest)" by (rule hp_empty_line [OF a])
  finally show ?thesis
    using L(1,2) unfolding php_http_header_parser_parse_def
    by (subst hp_parse_start) (simp_all add: hp_final_def headers_table [OF hs] m_def)
qed

section \<open>Turns of the message parser\<close>

lemma mp_parse_next:
  assumes "mp_continue c = Some True" "mp_turn_of env flags c = Some (MP_Next d)"
  shows "mp_parse env flags c = mp_parse env flags d"
  using assms by (subst mp_parse.simps) simp

text \<open>The configurations between messages and inside of one, without decoders.\<close>

definition mp_conf ::
  "php_http_message_parser_state list \<Rightarrow> php_http_info \<Rightarrow> size_t \<Rightarrow> bytes \<Rightarrow> php_http_message list \<Rightarrow> bytes \<Rightarrow> nat \<Rightarrow> 'i mp_cfg" where
  "mp_conf s i n buf msgs str k =
     \<lparr>mc_parser = \<lparr>mp_header = php_http_header_parser_init\<lparr>hp_info := i\<rparr>, mp_stack = s, mp_body_length = n, mp_dechunk = None,
        mp_inflate = None\<rparr>, mc_buf = buf, mc_msgs = msgs, mc_str = str, mc_cut = k\<rparr>"

lemmas mp_turn_simps = mp_conf_def mp_continue_def mp_turn_of_def php_http_message_parser_state_pop_def php_http_message_parser_state_is_def
  mp_push_def php_http_message_parser_state_push_def

lemma mp_start_turn:
  assumes "buf \<noteq> []" "\<not> isspace (hd buf)"
  shows "mp_parse env flags (mp_conf [] i n buf msgs [] 0) = mp_parse env flags (mp_conf [MP_HEADER] i n buf msgs [] 0)"
proof -
  have "dropWhile isspace buf = buf" using assms by (cases buf) auto
  with assms(1) show ?thesis by (intro mp_parse_next) (simp_all add: mp_turn_simps mp_start_def Let_def)
qed

lemma mp_header_turn:
  assumes "printable_info (me_url env) info" "\<forall>E i. at_line_end E \<longrightarrow> php_http_info_parse (me_url env) i (L @ E) = Some (True, info)"
    "L \<noteq> []" "\<not> isspace (hd L)" "\<forall>c\<in>set L. \<not> is_eol c"
    "\<forall>(n, vs)\<in>set hs. canonical_header n vs" "distinct (map fst hs)" "chain_ready msgs prev"
  shows "mp_parse env flags (mp_conf [MP_HEADER] i n (L @ CR # LF # concat (map hline_bytes (table_lines hs)) @ CR # LF # rest) msgs [] 0) =
    mp_parse env flags (mp_conf [MP_HEADER_DONE] (php_http_info_dtor info) n rest
      (\<lparr>msg_info = info, msg_hdrs = header_table hs, msg_body = php_http_message_body_init\<rparr> # prev) [] 0)"
proof -
  obtain m ms where msgs: "msgs = m # ms" using assms(8) by (cases msgs) (auto simp: chain_ready_def)
  show ?thesis
    using header_parser_head [OF assms, of i rest "if flags AND PHP_HTTP_MESSAGE_PARSER_CLEANUP \<noteq> 0 then PHP_HTTP_HEADER_PARSER_CLEANUP else 0"]
    by (intro mp_parse_next) (simp_all add: mp_turn_simps mp_header_step_def Let_def msgs message_sync_def)
qed


section \<open>Framing\<close>

definition framing_names :: "bytes list" where
  "framing_names = [''Transfer-Encoding'', ''Content-Length'', ''Content-Range'', ''Content-Encoding'', ''X-Original-Content-Length'']"

lemma find_table: "zend_hash_find (header_table hs) (KStr n) = map_option value_list (map_of hs n)"
  by (induction hs) (auto simp: zend_hash_find_def header_table_def)

lemma update_table:
  assumes "n \<notin> fst ` set hs"
  shows "zend_hash_update (header_table hs) (KStr n) v = (0, snd (header_table hs) @ [(KStr n, v)])"
proof -
  have "KStr n \<notin> fst ` set (snd (header_table hs))" using assms by (force simp: header_table_def)
  from assoc_update_fresh [OF this] show ?thesis by (simp add: zend_hash_update_def next_free_def header_table_def)
qed

lemma table_snoc: "header_table (hs @ [(n, [v])]) = (0, snd (header_table hs) @ [(KStr n, ZStr v)])"
  by (simp add: header_table_def value_list_def)

lemma find_absent: "n \<notin> fst ` set hs \<Longrightarrow> zend_hash_find (header_table hs) (KStr n) = None"
  by (simp add: find_table map_of_eq_None_iff)

lemma find_snoc:
  assumes "n \<notin> fst ` set hs"
  shows "zend_hash_find (header_table (hs @ [(k, vs)])) (KStr n) = (if n = k then Some (value_list vs) else None)"
proof -
  have "map_of hs n = None" using assms by (simp add: map_of_eq_None_iff)
  then show ?thesis by (simp add: find_table map_add_def)
qed

text \<open>The headers a message with a body is read with.\<close>

definition length_headers :: "nat \<Rightarrow> (bytes \<times> bytes list) list" where
  "length_headers k = [(''Content-Length'', [dec k]), (''X-Original-Content-Length'', [dec k])]"

definition plain_flags :: "32 word \<Rightarrow> bool" where
  "plain_flags flags \<longleftrightarrow> flags AND PHP_HTTP_MESSAGE_PARSER_DUMB_BODIES = 0 \<and> flags AND PHP_HTTP_MESSAGE_PARSER_EMPTY_REDIRECTS = 0"

text \<open>The documented conversion of a decimal number that fits.\<close>

definition reads_decimals :: "(bytes \<Rightarrow> int) \<Rightarrow> bool" where
  "reads_decimals f \<longleftrightarrow> (\<forall>n < 2 ^ 63. f (dec n) = int n)"

lemma header_done_length:
  assumes "plain_flags flags" "reads_decimals (me_long env)" "0 < k" "k < 2 ^ 63" "fst ` set hs \<inter> set framing_names = {}"
  shows "mp_parse env flags (mp_conf [MP_HEADER_DONE] i n rest
      (\<lparr>msg_info = info, msg_hdrs = header_table (hs @ [(''Content-Length'', [dec k])]), msg_body = b\<rparr> # prev) [] 0) =
    mp_parse env flags (mp_conf [MP_BODY_LENGTH] i (of_nat k) rest
      (\<lparr>msg_info = info, msg_hdrs = header_table (hs @ length_headers k), msg_body = b\<rparr> # prev) [] 0)"
proof -
  let ?m = "\<lparr>msg_info = info, msg_hdrs = header_table (hs @ [(''Content-Length'', [dec k])]), msg_body = b\<rparr>"
  let ?m' = "\<lparr>msg_info = info, msg_hdrs = header_table (hs @ length_headers k), msg_body = b\<rparr>"
  have abs: "n \<notin> fst ` set hs" if "n \<in> set framing_names" for n using assms(5) that by blast
  have x: "''X-Original-Content-Length'' \<notin> fst ` set (hs @ [(''Content-Length'', [dec k])])"
    using abs [of "''X-Original-Content-Length''"] by (auto simp: framing_names_def)
  have f: "mp_framing (me_long env) ?m = (False, int k, ?m')"
    using abs assms(2,4) update_table [OF x]
    by (simp add: mp_framing_def php_http_message_header_def find_snoc framing_names_def value_list_def zval_get_long_def reads_decimals_def
        msg_update_header_def length_headers_def table_snoc [of "hs @ [(''Content-Length'', [dec k])]", simplified])
  have "zend_hash_find (header_table (hs @ length_headers k)) (KStr ''Content-Range'') = None"
    "zend_hash_find (header_table (hs @ length_headers k)) (KStr ''Content-Encoding'') = None"
    using abs [of "''Content-Range''"] abs [of "''Content-Encoding''"]
    by (intro find_absent; simp add: length_headers_def framing_names_def)+
  then have none: "php_http_message_header ?m' ''Content-Range'' = None" "php_http_message_header ?m' ''Content-Encoding'' = None"
    by (simp_all add: php_http_message_header_def)
  have k: "(word_of_int (int k) :: size_t) \<noteq> 0"
  proof -
    have "unat (of_nat k :: size_t) = k" using assms(4) by (intro unat_of_nat_size_t) simp
    then show ?thesis using assms(3) by (auto simp flip: unat_eq_zero)
  qed
  have "mp_header_done_step env flags (mp_conf [] i n rest (?m # prev) [] 0) = Some (MP_Next (mp_conf [MP_BODY_LENGTH] i (of_nat k) rest (?m' # prev) [] 0))"
    using assms(1) k
    by (simp add: mp_header_done_step_def f none mp_conf_def php_http_message_header_string_def mp_empty_redirect_def mp_content_encoding_def
        mp_body_state_def mp_length_state_def plain_flags_def php_http_message_parser_state_push_def)
  then show ?thesis by (intro mp_parse_next) (simp_all add: mp_turn_simps)
qed

lemma header_done_request:
  assumes "plain_flags flags" "info_type info = PHP_HTTP_REQUEST" "fst ` set hs \<inter> set framing_names = {}"
  shows "mp_parse env flags (mp_conf [MP_HEADER_DONE] i n rest (\<lparr>msg_info = info, msg_hdrs = header_table hs, msg_body = b\<rparr> # prev) [] 0) =
    mp_parse env flags (mp_conf [MP_DONE] i n rest (\<lparr>msg_info = info, msg_hdrs = header_table hs, msg_body = b\<rparr> # prev) [] 0)"
proof -
  let ?m = "\<lparr>msg_info = info, msg_hdrs = header_table hs, msg_body = b\<rparr>"
  have abs: "n \<notin> fst ` set hs" if "n \<in> set framing_names" for n using assms(3) that by blast
  have "mp_header_done_step env flags (mp_conf [] i n rest (?m # prev) [] 0) = Some (MP_Next (mp_conf [MP_DONE] i n rest (?m # prev) [] 0))"
    using assms(1,2) abs
    by (simp add: mp_header_done_step_def mp_framing_def php_http_message_header_def find_absent framing_names_def mp_conf_def
        php_http_message_header_string_def mp_empty_redirect_def mp_content_encoding_def
        mp_body_state_def mp_length_state_def plain_flags_def php_http_message_parser_state_push_def)
  then show ?thesis by (intro mp_parse_next) (simp_all add: mp_turn_simps)
qed

lemma body_length_turns:
  assumes "dat \<noteq> []" "length dat < 2 ^ 63"
  shows "mp_parse env flags (mp_conf [MP_BODY_LENGTH] i (of_nat (length dat)) (dat @ rest) (m # prev) [] 0) =
    mp_parse env flags (mp_conf [MP_DONE] i 0 rest (m\<lparr>msg_body := php_http_message_body_append dat (msg_body m)\<rparr> # prev) [] 0)"
proof -
  have u: "unat (of_nat (length dat) :: size_t) = length dat" using assms(2) by (intro unat_of_nat_size_t) simp
  have "mp_parse env flags (mp_conf [MP_BODY_LENGTH] i (of_nat (length dat)) (dat @ rest) (m # prev) [] 0) =
      mp_parse env flags (mp_conf [MP_BODY, MP_BODY_DONE] i 0 (dat @ rest) (m # prev) dat (length dat))"
    using assms(1) u by (intro mp_parse_next) (simp_all add: mp_turn_simps mp_body_length_step_def Let_def)
  also have "\<dots> = mp_parse env flags (mp_conf [MP_BODY_DONE] i 0 rest (m\<lparr>msg_body := php_http_message_body_append dat (msg_body m)\<rparr> # prev) [] 0)"
    using assms(1) by (intro mp_parse_next) (simp_all add: mp_turn_simps mp_body_step_def msgs_write_def Let_def)
  also have "\<dots> = mp_parse env flags (mp_conf [MP_DONE] i 0 rest (m\<lparr>msg_body := php_http_message_body_append dat (msg_body m)\<rparr> # prev) [] 0)"
    by (intro mp_parse_next) (simp_all add: mp_turn_simps mp_body_done_step_def Let_def)
  finally show ?thesis .
qed

lemma done_turn:
  assumes "flags AND PHP_HTTP_MESSAGE_PARSER_GREEDY \<noteq> 0"
  shows "mp_parse env flags (mp_conf [MP_DONE] i n rest msgs [] 0) = mp_parse env flags (mp_conf [] i n (dropWhile isspace rest) msgs [] 0)"
  using assms by (intro mp_parse_next) (simp_all add: mp_turn_simps mp_done_step_def Let_def)


section \<open>Printed messages\<close>

lemma memnstr_missing:
  assumes "c \<in> set n" "c \<notin> set h"
  shows "memnstr h n = None"
proof (rule ccontr)
  assume "memnstr h n \<noteq> None"
  then obtain i where "memnstr h n = Some i" by blast
  from memnstr_by_SomeD [OF this] have "n = take (length n) (drop i h)" by (simp add: list.map_id)
  then show False using assms by (metis in_set_takeD in_set_dropD)
qed

lemma dec_value: "seg_ok (dec k)" "CHR ''/'' \<notin> set (dec k)"
proof -
  have d: "\<forall>c\<in>set (dec k). isdigit c" by (rule dec_isdigit)
  have "isdigit c \<Longrightarrow> \<not> isspace c \<and> \<not> is_eol c \<and> c \<noteq> NUL \<and> c \<noteq> CHR ''/''" for c
    by (auto simp: ctype_simps is_eol_def)
  with d have c: "\<forall>c\<in>set (dec k). \<not> isspace c \<and> \<not> is_eol c \<and> c \<noteq> NUL \<and> c \<noteq> CHR ''/''" by blast
  then have "hd (dec k) \<in> set (dec k)" "last (dec k) \<in> set (dec k)" by (intro hd_in_set last_in_set print_num_nonempty)+
  with c show "seg_ok (dec k)" by (simp add: seg_ok_def value_ok_def)
  from c show "CHR ''/'' \<notin> set (dec k)" by blast
qed

lemma length_canonical: "canonical_header ''Content-Length'' [dec k]"
proof -
  have n: "name_ok ''Content-Length''" "php_http_pretty_key ''Content-Length'' True True = ''Content-Length''"
    "numeric_key ''Content-Length'' = None" by code_simp+
  have "CHR ''/'' \<notin> set (''Content-Length'' @ CHR '':'' # SP # dec k)" using dec_value(2) [of k] by simp
  then have "memnstr (''Content-Length'' @ CHR '':'' # SP # dec k) ''HTTP/'' = None" by (intro memnstr_missing [of "CHR ''/''"]) simp_all
  with n dec_value(1) show ?thesis by (simp add: canonical_header_def)
qed

lemma sint_size: "n < 2 ^ 63 \<Longrightarrow> sint (of_nat n :: size_t) = int n"
  by (simp add: signed_of_nat signed_take_bit_int_eq_self)

text \<open>
  The messages that are read back: a start line and headers that survive printing, none of the headers
  that frame a body, a body in memory without boundary; and either the body is not empty, or the message is
  a request whose method does not call for a length.
\<close>

definition serial_ok :: "url_env \<Rightarrow> (nat \<Rightarrow> bool) \<Rightarrow> php_http_message \<Rightarrow> bool" where
  "serial_ok url eof m \<longleftrightarrow> printable_info url (msg_info m) \<and> line_starts (msg_info m) \<and>
     (\<exists>hs. msg_hdrs m = header_table hs \<and> (\<forall>(n, vs)\<in>set hs. canonical_header n vs) \<and> distinct (map fst hs) \<and>
        fst ` set hs \<inter> set framing_names = {}) \<and>
     body_ok eof (msg_body m) \<and> body_boundary (msg_body m) = None \<and> \<not> body_filtered (msg_body m) \<and>
     (body_data (msg_body m) = [] \<longrightarrow>
        msg_type m = PHP_HTTP_REQUEST \<and> php_http_select_str (request_method m) [''POST'', ''PUT'', ''PATCH''] < 0)"

text \<open>The message as it is read back: with a body, the length is in its headers, twice.\<close>

definition parsed_message :: "php_http_message \<Rightarrow> php_http_message" where
  "parsed_message m =
     (let n = dec (length (body_data (msg_body m))) in
      if body_data (msg_body m) = [] then m
      else m\<lparr>msg_hdrs := (0, snd (msg_hdrs m) @ [(KStr ''Content-Length'', ZStr n), (KStr ''X-Original-Content-Length'', ZStr n)])\<rparr>)"

lemma message_text_shape:
  assumes "body_ok eof (msg_body m)" "body_boundary (msg_body m) = None" "\<not> body_filtered (msg_body m)"
    "msg_hdrs m = header_table hs" "\<forall>(n, vs)\<in>set hs. canonical_header n vs" "fst ` set hs \<inter> set framing_names = {}"
    "\<forall>eol. php_http_info_to_string (msg_info m) eol = Some (L @ eol)"
  shows "body_data (msg_body m) \<noteq> [] \<Longrightarrow> message_text m = L @ CR # LF #
      concat (map hline_bytes (table_lines (hs @ [(''Content-Length'', [dec (length (body_data (msg_body m)))])]))) @ CR # LF # body_data (msg_body m)"
    "body_data (msg_body m) = [] \<Longrightarrow> msg_type m = PHP_HTTP_REQUEST \<Longrightarrow>
      php_http_select_str (request_method m) [''POST'', ''PUT'', ''PATCH''] < 0 \<Longrightarrow>
      message_text m = L @ CR # LF # concat (map hline_bytes (table_lines hs))"
proof -
  let ?n = "length (body_data (msg_body m))"
  have abs: "php_http_message_header m ''Content-Range'' = None" "php_http_message_header m ''Content-Length'' = None"
    "''Content-Length'' \<notin> fst ` set hs"
    using assms(4,6) by (auto simp: php_http_message_header_def framing_names_def find_absent)
  have tmp: "php_http_header_to_string (L @ [CR, LF]) (header_table hs) = (L @ [CR, LF]) @ concat (map hline_bytes (table_lines hs))"
    by (rule print_table [OF assms(5)])
  show "message_text m = L @ CR # LF #
      concat (map hline_bytes (table_lines (hs @ [(''Content-Length'', [dec ?n])]))) @ CR # LF # body_data (msg_body m)"
    if "body_data (msg_body m) \<noteq> []"
  proof -
    have size: "php_http_message_body_size (msg_body m) \<noteq> 0" using body_size_0 [OF assms(1)] that by simp
    have "msg_hdrs (php_http_message_update_headers m) = (0, snd (header_table hs) @ [(KStr ''Content-Length'', ZLong (int ?n))])"
      using size abs assms(1-4) update_table [OF abs(3)] sint_size [of ?n]
      by (simp add: php_http_message_update_headers_def msg_update_header_def php_http_message_body_size_def body_ok_def)
    moreover have "php_http_header_to_string str (0, es @ [(KStr ''Content-Length'', ZLong (int ?n))]) =
        php_http_header_to_string str (0, es) @ ''Content-Length: '' @ dec ?n @ [CR, LF]" for str es
      using seg_cstr [OF dec_value(1) [of ?n]]
      by (simp add: php_http_header_to_string_def php_http_header_to_callback_def zval_get_string_def print_long_def cstr_def)
    moreover have "(0, snd (header_table hs)) = header_table hs" by (simp add: header_table_def)
    ultimately show ?thesis
      using that assms(7) tmp by (simp add: message_text_def message_headers_def Let_def table_lines_def)
  qed
  show "message_text m = L @ CR # LF # concat (map hline_bytes (table_lines hs))"
    if "body_data (msg_body m) = []" "msg_type m = PHP_HTTP_REQUEST" "php_http_select_str (request_method m) [''POST'', ''PUT'', ''PATCH''] < 0"
  proof -
    have "php_http_message_update_headers m = m"
      using that body_size_0 [OF assms(1)] abs
      by (simp add: php_http_message_update_headers_def php_http_message_header_string_def)
    then show ?thesis using that(1) assms(4,7) tmp by (simp add: message_text_def message_headers_def Let_def)
  qed
qed


section \<open>Reading a chain\<close>

lemma mp_conf_init:
  "\<lparr>mc_parser = php_http_message_parser_init, mc_buf = buf, mc_msgs = msgs, mc_str = [], mc_cut = 0\<rparr> =
     mp_conf [] php_http_info_init 0 buf msgs [] 0"
  by (simp add: mp_conf_def php_http_message_parser_init_def php_http_header_parser_init_def)


lemma dropWhile_line_end: "dropWhile isspace (CR # LF # rest) = dropWhile isspace rest"
  by (simp add: ctype_simps)

lemma serial_text:
  assumes "serial_ok url eof m"
  obtains L hs where "L \<noteq> []" "\<not> isspace (hd L)" "\<forall>c\<in>set L. \<not> is_eol c" "msg_hdrs m = header_table hs"
    "\<forall>(n, vs)\<in>set hs. canonical_header n vs" "distinct (map fst hs)" "fst ` set hs \<inter> set framing_names = {}"
    "\<forall>E i. at_line_end E \<longrightarrow> php_http_info_parse url i (L @ E) = Some (True, msg_info m)"
    "body_data (msg_body m) \<noteq> [] \<Longrightarrow> message_text m = L @ CR # LF #
      concat (map hline_bytes (table_lines (hs @ [(''Content-Length'', [dec (length (body_data (msg_body m)))])]))) @ CR # LF # body_data (msg_body m)"
    "body_data (msg_body m) = [] \<Longrightarrow> message_text m = L @ CR # LF # concat (map hline_bytes (table_lines hs))"
proof -
  from assms obtain hs where hs: "msg_hdrs m = header_table hs" "\<forall>(n, vs)\<in>set hs. canonical_header n vs" "distinct (map fst hs)"
    "fst ` set hs \<inter> set framing_names = {}" by (auto simp: serial_ok_def)
  from assms have "printable_info url (msg_info m)" "line_starts (msg_info m)" by (simp_all add: serial_ok_def)
  from printed_line [OF this] obtain L where L: "\<forall>eol. php_http_info_to_string (msg_info m) eol = Some (L @ eol)" "L \<noteq> []" "\<not> isspace (hd L)"
    "\<forall>c\<in>set L. \<not> is_eol c" "\<forall>E i. at_line_end E \<longrightarrow> php_http_info_parse url i (L @ E) = Some (True, msg_info m)" by blast
  from assms have b: "body_ok eof (msg_body m)" "body_boundary (msg_body m) = None" "\<not> body_filtered (msg_body m)" by (simp_all add: serial_ok_def)
  note shape = message_text_shape [OF b hs(1,2,4) L(1)]
  show ?thesis by (rule that [OF L(2-4) hs L(5) shape(1) shape(2)]) (use assms in \<open>simp_all add: serial_ok_def\<close>)
qed

lemma mp_one_message:
  assumes m: "serial_ok (me_url env) eof m" and f: "plain_flags flags" "flags AND PHP_HTTP_MESSAGE_PARSER_GREEDY \<noteq> 0"
    and long: "reads_decimals (me_long env)" and ready: "chain_ready msgs prev"
  shows "\<exists>i' n'. mp_parse env flags (mp_conf [] i n (message_text m @ CR # LF # rest) msgs [] 0) =
    mp_parse env flags (mp_conf [] i' n' (dropWhile isspace rest) (parsed_message m # prev) [] 0)"
proof -
  have info: "printable_info (me_url env) (msg_info m)" using m by (simp add: serial_ok_def)
  let ?dat = "body_data (msg_body m)" and ?i = "php_http_info_dtor (msg_info m)"
  from serial_text [OF m] obtain L hs where L: "L \<noteq> []" "\<not> isspace (hd L)" "\<forall>c\<in>set L. \<not> is_eol c"
    and hs: "msg_hdrs m = header_table hs" "\<forall>(n, vs)\<in>set hs. canonical_header n vs" "distinct (map fst hs)" "fst ` set hs \<inter> set framing_names = {}"
    and parse: "\<forall>E i. at_line_end E \<longrightarrow> php_http_info_parse (me_url env) i (L @ E) = Some (True, msg_info m)"
    and tx: "?dat \<noteq> [] \<Longrightarrow> message_text m = L @ CR # LF #
      concat (map hline_bytes (table_lines (hs @ [(''Content-Length'', [dec (length ?dat)])]))) @ CR # LF # ?dat"
      "?dat = [] \<Longrightarrow> message_text m = L @ CR # LF # concat (map hline_bytes (table_lines hs))" by metis
  have start: "mp_parse env flags (mp_conf [] i n (L @ B) msgs [] 0) = mp_parse env flags (mp_conf [MP_HEADER] i n (L @ B) msgs [] 0)" for B
    using L(1,2) by (intro mp_start_turn) simp_all
  have b: "length ?dat < 2 ^ 63" "body_boundary (msg_body m) = None" "\<not> body_filtered (msg_body m)"
    using m by (simp_all add: serial_ok_def body_ok_def)
  have body: "php_http_message_body_append ?dat php_http_message_body_init = msg_body m"
    using b by (cases "msg_body m") (simp add: php_http_message_body_append_def php_http_message_body_init_def)
  show ?thesis
  proof (cases "?dat = []")
    case True
    then have req: "info_type (msg_info m) = PHP_HTTP_REQUEST" using m by (simp add: serial_ok_def)
    have pm: "parsed_message m = \<lparr>msg_info = msg_info m, msg_hdrs = header_table hs, msg_body = php_http_message_body_init\<rparr>"
      using True hs(1) b(2,3) by (cases m; cases "msg_body m") (simp add: parsed_message_def php_http_message_body_init_def)
    have "mp_parse env flags (mp_conf [] i n (message_text m @ CR # LF # rest) msgs [] 0) =
        mp_parse env flags (mp_conf [MP_HEADER_DONE] ?i n rest (parsed_message m # prev) [] 0)"
      using start mp_header_turn [OF info parse L hs(2,3) ready, of flags i n rest] by (simp add: tx(2) [OF True] pm)
    also have "\<dots> = mp_parse env flags (mp_conf [MP_DONE] ?i n rest (parsed_message m # prev) [] 0)"
      unfolding pm by (rule header_done_request [OF f(1) req hs(4)])
    finally show ?thesis unfolding done_turn [OF f(2)] by blast
  next
    case False
    let ?hs = "hs @ [(''Content-Length'', [dec (length ?dat)])]"
    have hs': "\<forall>(n, vs)\<in>set ?hs. canonical_header n vs" "distinct (map fst ?hs)"
      using hs(2-4) length_canonical by (auto simp: framing_names_def)
    have pm: "parsed_message m = \<lparr>msg_info = msg_info m, msg_hdrs = header_table (hs @ length_headers (length ?dat)), msg_body = msg_body m\<rparr>"
      using False hs(1) by (cases m) (simp add: parsed_message_def header_table_def length_headers_def value_list_def Let_def)
    have "mp_parse env flags (mp_conf [] i n (message_text m @ CR # LF # rest) msgs [] 0) =
        mp_parse env flags (mp_conf [MP_HEADER_DONE] ?i n (?dat @ CR # LF # rest)
          (\<lparr>msg_info = msg_info m, msg_hdrs = header_table ?hs, msg_body = php_http_message_body_init\<rparr> # prev) [] 0)"
      using start mp_header_turn [OF info parse L hs' ready, of flags i n "?dat @ CR # LF # rest"] by (simp add: tx(1) [OF False])
    also have "\<dots> = mp_parse env flags (mp_conf [MP_BODY_LENGTH] ?i (of_nat (length ?dat)) (?dat @ CR # LF # rest)
          (\<lparr>msg_info = msg_info m, msg_hdrs = header_table (hs @ length_headers (length ?dat)), msg_body = php_http_message_body_init\<rparr> # prev) [] 0)"
      using False b(1) by (intro header_done_length [OF f(1) long _ _ hs(4)]) simp_all
    also have "\<dots> = mp_parse env flags (mp_conf [MP_DONE] ?i 0 (CR # LF # rest) (parsed_message m # prev) [] 0)"
      using body by (subst body_length_turns [OF False b(1), of env]) (simp add: pm)
    also have "\<dots> = mp_parse env flags (mp_conf [] ?i 0 (dropWhile isspace rest) (parsed_message m # prev) [] 0)"
      unfolding done_turn [OF f(2)] dropWhile_line_end ..
    finally show ?thesis by blast
  qed
qed

lemma serial_type: "serial_ok url eof m \<Longrightarrow> msg_type (parsed_message m) \<noteq> PHP_HTTP_NONE"
  by (auto simp: serial_ok_def printable_info_def parsed_message_def Let_def split: php_http_info_type.splits)

lemma mp_messages:
  assumes f: "plain_flags flags" "flags AND PHP_HTTP_MESSAGE_PARSER_GREEDY \<noteq> 0" and long: "reads_decimals (me_long env)"
    and ms: "\<forall>m\<in>set ms. serial_ok (me_url env) (eof m) m" and ready: "ms \<noteq> [] \<Longrightarrow> chain_ready msgs prev" "ms = [] \<Longrightarrow> prev = msgs"
  shows "\<exists>c. mp_parse env flags (mp_conf [] i n (concat (map (\<lambda>m. message_text m @ [CR, LF]) ms)) msgs [] 0) = Some (MP_START, c) \<and>
    mc_msgs c = map parsed_message (rev ms) @ prev"
  using ms ready
proof (induction ms arbitrary: i n msgs prev)
  case Nil
  then show ?case by (subst mp_parse.simps) (simp add: mp_turn_simps)
next
  case (Cons m ms)
  let ?rest = "concat (map (\<lambda>m. message_text m @ [CR, LF]) ms)"
  have drp: "dropWhile isspace ?rest = ?rest"
  proof (cases ms)
    case (Cons m' ms')
    with Cons.prems(1) have "serial_ok (me_url env) (eof m') m'" by simp
    then obtain L B where "message_text m' = L @ B" "L \<noteq> []" "\<not> isspace (hd L)" by (rule serial_text) metis
    then show ?thesis by (cases L) (simp_all add: Cons)
  qed simp
  from Cons.prems have m: "serial_ok (me_url env) (eof m) m" by simp
  have ready: "chain_ready msgs prev" using Cons.prems(2) by simp
  from mp_one_message [OF m f long ready, where rest = ?rest] obtain i' n' where step:
    "mp_parse env flags (mp_conf [] i n (message_text m @ CR # LF # ?rest) msgs [] 0) =
      mp_parse env flags (mp_conf [] i' n' ?rest (parsed_message m # prev) [] 0)" unfolding drp by blast
  have "chain_ready (parsed_message m # prev) (parsed_message m # prev)" using serial_type [OF m] by (simp add: chain_ready_def)
  from Cons.IH [OF _ this, of i' n'] Cons.prems(1) step show ?case by auto
qed

section \<open>Results\<close>

text \<open>
  C1. Parsing inverts serialising: a chain of messages is serialised to a text that the greedy parser reads
  back into exactly the same chain, message by message with start line, headers and body; a message with a
  body carries its length in \<open>Content-Length\<close> and \<open>X-Original-Content-Length\<close> in addition.
\<close>

theorem messages_serialize_parse:
  assumes "msgs \<noteq> []" "\<forall>m\<in>set msgs. serial_ok (me_url env) (eof m) m" "reads_decimals (me_long env)"
  shows "\<exists>text ms. php_http_message_serialize eof msgs = Some (text, ms) \<and>
    php_http_message_parse env text True = Some (Some (map parsed_message msgs))"
proof -
  let ?flags = "PHP_HTTP_MESSAGE_PARSER_CLEANUP OR PHP_HTTP_MESSAGE_PARSER_GREEDY"
  let ?text = "concat (map (\<lambda>m. message_text m @ [CR, LF]) (rev msgs))"
  have "\<forall>m\<in>set (rev msgs). body_ok (eof m) (msg_body m)" using assms(2) by (simp add: serial_ok_def)
  from serialize_loop_text [OF this, of "[]"] have s: "php_http_message_serialize eof msgs = Some (?text, map php_http_message_update_headers msgs)"
    by (simp add: php_http_message_serialize_def rev_map)
  have f: "plain_flags ?flags" "?flags AND PHP_HTTP_MESSAGE_PARSER_GREEDY \<noteq> 0" by code_simp+
  have "chain_ready [blank_message] []" by (simp add: chain_ready_def)
  with mp_messages [OF f assms(3), of "rev msgs" eof "[blank_message]" "[]" php_http_info_init 0] assms(1,2)
  obtain c where c: "mp_parse env ?flags (mp_conf [] php_http_info_init 0 ?text [blank_message] [] 0) = Some (MP_START, c)"
    "mc_msgs c = map parsed_message msgs" by auto
  then have "php_http_message_parser_parse env php_http_message_parser_init ?text ?flags [blank_message] = Some (MP_START, c)"
    unfolding php_http_message_parser_parse_def mp_conf_init by simp
  then have "php_http_message_parse env ?text True = Some (Some (map parsed_message msgs))"
    using c(2) by (simp add: php_http_message_parse_def Let_def)
  with s show ?thesis by blast
qed


definition sample_chain :: "php_http_message list" where
  "sample_chain = [\<lparr>msg_info = \<lparr>info_type = PHP_HTTP_RESPONSE, info_version = \<lparr>ver_major = 1, ver_minor = 1\<rparr>,
       info_data = InfoResponse 200 (Some ''OK'')\<rparr>, msg_hdrs = header_table sample_pairs,
       msg_body = \<lparr>body_data = ''hello'', body_boundary = None, body_filtered = False\<rparr>\<rparr>,
     \<lparr>msg_info = sample_request, msg_hdrs = header_table sample_pairs, msg_body = php_http_message_body_init\<rparr>]"

lemma sample_chain_ok: "\<forall>m\<in>set sample_chain. serial_ok (me_url sample_mp_env) (\<lambda>p. 5 \<le> p) m"
proof -
  have "printable_info ascii_env \<lparr>info_type = PHP_HTTP_RESPONSE, info_version = \<lparr>ver_major = 1, ver_minor = 1\<rparr>,
      info_data = InfoResponse 200 (Some ''OK'')\<rparr>" by code_simp
  moreover have "fst ` set sample_pairs \<inter> set framing_names = {}" by code_simp
  moreover have "line_starts sample_request" "php_http_select_str (Some ''GET'') [''POST'', ''PUT'', ''PATCH''] < 0" by code_simp+
  moreover have "info_type sample_request = PHP_HTTP_REQUEST" "info_data sample_request = InfoRequest (Some ''GET'') (Some sample_url)"
    by (simp_all add: sample_request_def)
  ultimately show ?thesis
    using sample_pairs_ok(1,2) sample_request_printable(1)
    by (auto simp: sample_chain_def serial_ok_def sample_mp_env_def body_ok_def php_http_message_body_init_def line_starts_def request_method_def)
qed

lemma digits_decimal: "reads_decimals (\<lambda>s. int (digits_val 10 s))"
  by (simp add: reads_decimals_def digits_val_print_num)

theorem messages_serialize_parse_witness:
  "\<exists>text ms. php_http_message_serialize (\<lambda>m p. 5 \<le> p) sample_chain = Some (text, ms) \<and>
     php_http_message_parse sample_mp_env text True = Some (Some (map parsed_message sample_chain))"
proof (rule messages_serialize_parse)
  show "sample_chain \<noteq> []" by (simp add: sample_chain_def)
  show "\<forall>m\<in>set sample_chain. serial_ok (me_url sample_mp_env) ((\<lambda>m p. 5 \<le> p) m) m" using sample_chain_ok by simp
  show "reads_decimals (me_long sample_mp_env)" using digits_decimal by (simp add: sample_mp_env_def)
qed


section \<open>Chunked bodies\<close>

text \<open>The incremental decoder on a complete chunked body, with whatever follows it.\<close>

lemma dechunk_loop_data:
  assumes "c \<noteq> []" "length (c @ r) < 2 ^ 63"
  shows "dechunk_update_loop full (of_nat (length c)) (c @ r) tmp = dechunk_update_loop full 0 r (tmp @ c)"
proof -
  have u: "unat (of_nat (length c) :: size_t) = length c" "unat (of_nat (length (c @ r)) :: size_t) = length (c @ r)"
    using assms(2) by (intro unat_of_nat_size_t; simp)+
  have "(of_nat (length c) :: size_t) \<noteq> 0" "\<not> of_nat (length (c @ r)) < (of_nat (length c) :: size_t)"
    using assms(1) u(1) by (auto simp flip: unat_eq_zero) (simp add: word_less_nat_alt u [simplified])
  then show ?thesis using assms(1) u(1) by (subst dechunk_update_loop.simps) simp
qed

lemma line_end_eol [simp]: "is_eol CR" "is_eol LF"
  by (simp_all add: is_eol_def)

lemma dechunk_loop_coding_all:
  assumes "\<forall>c\<in>set cs. c \<noteq> []" "length (chunk_coding cs @ r) < 2 ^ 63"
  shows "dechunk_update_loop full 0 (chunk_coding cs @ r) tmp =
    (Some (tmp @ concat cs), \<lparr>dc_buffer = dropWhile is_eol r, dc_hexlen = 0, dc_zeroed = True\<rparr>)"
  using assms
proof (induction cs arbitrary: tmp)
  case Nil
  have "chunk_ext []" by (simp add: chunk_ext_def ends_number_def)
  from dechunk_loop_size [OF _ this, of 0 full "CR # LF # r" tmp] show ?case by (simp add: chunk_coding_Nil)
next
  case (Cons c cs)
  let ?r = "CR # LF # chunk_coding cs @ r"
  have len: "length c \<le> ulong_max" "length (c @ ?r) < 2 ^ 63" using Cons.prems(2) by (simp_all add: chunk_coding_Cons ulong_max_def)
  have "chunk_ext []" by (simp add: chunk_ext_def ends_number_def)
  from dechunk_loop_size [OF len(1) this, of full "c @ ?r" tmp] Cons.prems(1)
  have "dechunk_update_loop full 0 (chunk_coding (c # cs) @ r) tmp = dechunk_update_loop full (of_nat (length c)) (c @ ?r) tmp"
    by (simp add: chunk_coding_Cons)
  also have "\<dots> = dechunk_update_loop full 0 ?r (tmp @ c)" using Cons.prems(1) len(2) by (intro dechunk_loop_data) simp_all
  also have "\<dots> = dechunk_update_loop full 0 (chunk_coding cs @ r) (tmp @ c)" by (simp add: dechunk_loop_eol)
  finally show ?case using Cons by (simp add: chunk_coding_Cons)
qed


text \<open>Configurations with a chunk decoder.\<close>

definition chunk_conf ::
  "dechunk_ctx php_http_encoding_stream \<Rightarrow> php_http_message_parser_state list \<Rightarrow> php_http_info \<Rightarrow> bytes \<Rightarrow> php_http_message list \<Rightarrow> bytes \<Rightarrow>
     nat \<Rightarrow> 'i mp_cfg" where
  "chunk_conf s st i buf msgs str k =
     \<lparr>mc_parser = \<lparr>mp_header = php_http_header_parser_init\<lparr>hp_info := i\<rparr>, mp_stack = st, mp_body_length = 0, mp_dechunk = Some s,
        mp_inflate = None\<rparr>, mc_buf = buf, mc_msgs = msgs, mc_str = str, mc_cut = k\<rparr>"

definition chunked_table :: "(bytes \<times> bytes list) list \<Rightarrow> hashtable" where
  "chunked_table hs = (0, snd (header_table hs) @ [(KStr ''X-Original-Transfer-Encoding'', ZStr ''chunked''), (KStr ''Content-Length'', ZLong 0)])"

abbreviation fresh_dechunk :: "dechunk_ctx php_http_encoding_stream" where
  "fresh_dechunk \<equiv> \<lparr>es_flags = 0, es_ctx = Some \<lparr>dc_buffer = [], dc_hexlen = 0, dc_zeroed = False\<rparr>\<rparr>"

lemma chunked_framing:
  assumes "fst ` set hs \<inter> set (''X-Original-Transfer-Encoding'' # framing_names) = {}"
  shows "mp_framing f \<lparr>msg_info = info, msg_hdrs = header_table (hs @ [(''Transfer-Encoding'', [''chunked''])]), msg_body = b\<rparr> =
    (True, - 1, \<lparr>msg_info = info, msg_hdrs = chunked_table hs, msg_body = b\<rparr>)"
proof -
  let ?te = "''Transfer-Encoding''" and ?x = "''X-Original-Transfer-Encoding''"
  have abs: "n \<notin> fst ` set hs" if "n \<in> set (?x # framing_names)" for n using assms that by blast
  have te: "?te \<notin> fst ` set hs" and x: "?x \<notin> fst ` set (hs @ [(?te, [''chunked''])])" and cl: "''Content-Length'' \<notin> fst ` set (hs @ [(?x, [''chunked''])])"
    using abs [of ?te] abs [of ?x] abs [of "''Content-Length''"] by (simp_all add: framing_names_def)
  have u1: "zend_hash_update (header_table (hs @ [(?te, [''chunked''])])) (KStr ?x) (ZStr ''chunked'') =
      (0, snd (header_table hs) @ [(KStr ?te, ZStr ''chunked''), (KStr ?x, ZStr ''chunked'')])"
    unfolding update_table [OF x] by (simp add: table_snoc)
  have u2: "zend_hash_del (0, snd (header_table hs) @ [(KStr ?te, ZStr ''chunked''), (KStr ?x, ZStr ''chunked'')]) (KStr ?te) =
      header_table (hs @ [(?x, [''chunked''])])"
  proof -
    have "filter (\<lambda>e. fst e \<noteq> KStr ?te) (snd (header_table hs)) = snd (header_table hs)"
      using te by (intro filter_True) (force simp: header_table_def)
    then show ?thesis by (simp add: zend_hash_del_def table_snoc)
  qed
  have u3: "zend_hash_update (header_table (hs @ [(?x, [''chunked''])])) (KStr ''Content-Length'') (ZLong 0) = chunked_table hs"
    unfolding update_table [OF cl] by (simp add: table_snoc chunked_table_def)
  have "php_http_message_header \<lparr>msg_info = info, msg_hdrs = header_table (hs @ [(?te, [''chunked''])]), msg_body = b\<rparr> ?te = Some (ZStr ''chunked'')"
    by (simp add: php_http_message_header_def find_snoc [OF te] value_list_def)
  then show ?thesis by (simp add: mp_framing_def zval_get_string_def msg_update_header_def msg_delete_header_def u1 u2 u3)
qed

lemma chunked_none:
  assumes "fst ` set hs \<inter> set (''X-Original-Transfer-Encoding'' # framing_names) = {}"
  shows "zend_hash_find (chunked_table hs) (KStr ''Content-Range'') = None" "zend_hash_find (chunked_table hs) (KStr ''Content-Encoding'') = None"
proof -
  have find: "zend_hash_find (chunked_table hs) (KStr n) = zend_hash_find (header_table hs) (KStr n)"
    if "n \<notin> {''X-Original-Transfer-Encoding'', ''Content-Length''}" for n
    using that by (auto simp: chunked_table_def zend_hash_find_def map_add_def split: option.splits)
  show "zend_hash_find (chunked_table hs) (KStr ''Content-Range'') = None" "zend_hash_find (chunked_table hs) (KStr ''Content-Encoding'') = None"
    using assms by (subst find; auto intro!: find_absent simp: framing_names_def)+
qed

lemma header_done_chunked:
  assumes "plain_flags flags" "fst ` set hs \<inter> set (''X-Original-Transfer-Encoding'' # framing_names) = {}"
  shows "mp_parse env flags (mp_conf [MP_HEADER_DONE] i 0 rest
      (\<lparr>msg_info = info, msg_hdrs = header_table (hs @ [(''Transfer-Encoding'', [''chunked''])]), msg_body = b\<rparr> # prev) [] 0) =
    mp_parse env flags (chunk_conf fresh_dechunk [MP_BODY_CHUNKED] i rest (\<lparr>msg_info = info, msg_hdrs = chunked_table hs, msg_body = b\<rparr> # prev) [] 0)"
proof -
  let ?m = "\<lparr>msg_info = info, msg_hdrs = header_table (hs @ [(''Transfer-Encoding'', [''chunked''])]), msg_body = b\<rparr>"
  let ?m' = "\<lparr>msg_info = info, msg_hdrs = chunked_table hs, msg_body = b\<rparr>"
  have "php_http_message_header ?m' ''Content-Range'' = None" "php_http_message_header ?m' ''Content-Encoding'' = None"
    using chunked_none [OF assms(2)] by (simp_all add: php_http_message_header_def)
  then have "mp_header_done_step env flags (mp_conf [] i 0 rest (?m # prev) [] 0) = Some (MP_Next (chunk_conf fresh_dechunk [MP_BODY_CHUNKED] i rest (?m' # prev) [] 0))"
    using assms(1)
    by (simp add: mp_header_done_step_def chunked_framing [OF assms(2)] mp_conf_def chunk_conf_def php_http_message_header_string_def
        mp_empty_redirect_def mp_content_encoding_def mp_body_state_def plain_flags_def php_http_message_parser_state_push_def
        php_http_encoding_stream_init_def php_http_encoding_dechunk_ops_def dechunk_init_def Let_def)
  then show ?thesis by (intro mp_parse_next) (simp_all add: mp_turn_simps)
qed

lemma chunked_turns:
  assumes "\<forall>c\<in>set cs. c \<noteq> []" "length (chunk_coding cs @ rest) < 2 ^ 63"
  shows "\<exists>s. es_ctx s = None \<and> mp_parse env flags (chunk_conf fresh_dechunk [MP_BODY_CHUNKED] i (chunk_coding cs @ rest) (m # prev) [] 0) =
    mp_parse env flags (chunk_conf s [MP_DONE] i (dropWhile is_eol rest)
      (m\<lparr>msg_body := php_http_message_body_append (concat cs) (msg_body m)\<rparr> # prev) [] 0)"
proof -
  let ?left = "dropWhile is_eol rest" and ?buf = "chunk_coding cs @ rest"
  define s where "s = \<lparr>es_flags = 0 OR PHP_HTTP_ENCODING_STREAM_DIRTY, es_ctx = Some \<lparr>dc_buffer = ?left, dc_hexlen = 0, dc_zeroed = True\<rparr>\<rparr>"
  let ?s' = "php_http_encoding_stream_dtor php_http_encoding_dechunk_ops (snd (snd (php_http_encoding_stream_finish php_http_encoding_dechunk_ops s)))"
  let ?m = "m\<lparr>msg_body := php_http_message_body_append (concat cs) (msg_body m)\<rparr>"
  let ?k = "length ?buf - length ?left"
  have ne: "?buf \<noteq> []" by (simp add: chunk_coding_def)
  have up: "php_http_encoding_stream_update php_http_encoding_dechunk_ops fresh_dechunk ?buf = (True, Some (concat cs), s)"
    using dechunk_loop_coding_all [OF assms, of _ "[]"]
    by (simp add: php_http_encoding_stream_update_def php_http_encoding_dechunk_ops_def dechunk_update_def s_def)
  have dn: "php_http_encoding_stream_done php_http_encoding_dechunk_ops s"
    by (simp add: php_http_encoding_stream_done_def php_http_encoding_dechunk_ops_def dechunk_done_def s_def)
  have left: "length ?left \<le> length ?buf" using length_dropWhile_le [of is_eol rest] by simp
  have cut: "drop ?k ?buf = ?left"
  proof -
    obtain p where p: "rest = p @ ?left" using takeWhile_dropWhile_id [of is_eol rest] by metis
    then have "?buf = (chunk_coding cs @ p) @ ?left" by simp
    moreover have "?k = length (chunk_coding cs @ p)" using arg_cong [OF p, of length] by simp
    ultimately show ?thesis by (metis append_eq_conv_conj)
  qed
  have "mp_parse env flags (chunk_conf fresh_dechunk [MP_BODY_CHUNKED] i ?buf (m # prev) [] 0) =
      mp_parse env flags (chunk_conf s [MP_BODY, MP_BODY_DONE] i ?buf (m # prev) (concat cs) ?k)"
    using ne up dn left by (intro mp_parse_next) (simp_all add: mp_turn_simps chunk_conf_def mp_body_chunked_step_def Let_def, simp add: s_def)
  also have "\<dots> = mp_parse env flags (chunk_conf s [MP_BODY_DONE] i ?left (?m # prev) [] 0)"
  proof (cases "concat cs = []")
    case True
    then have "?m = m" by (cases m) (simp add: php_http_message_body_append_def)
    with True cut show ?thesis by (intro mp_parse_next) (simp_all add: mp_turn_simps chunk_conf_def mp_body_step_def Let_def)
  next
    case False
    with cut show ?thesis by (intro mp_parse_next) (simp_all add: mp_turn_simps chunk_conf_def mp_body_step_def msgs_write_def Let_def del: concat_eq_Nil_conv)
  qed
  also have "\<dots> = mp_parse env flags (chunk_conf ?s' [MP_DONE] i ?left (?m # prev) [] 0)"
    by (intro mp_parse_next) (simp_all add: mp_turn_simps chunk_conf_def mp_body_done_step_def Let_def php_http_encoding_stream_finish_def
        php_http_encoding_dechunk_ops_def s_def)
  finally show ?thesis
    by (intro exI [of _ ?s']) (simp add: php_http_encoding_stream_dtor_def php_http_encoding_dechunk_ops_def dechunk_dtor_def)
qed


lemma chunked_canonical: "canonical_header ''Transfer-Encoding'' [''chunked'']"
  by code_simp

lemma dropWhile_isspace_eol: "dropWhile isspace (dropWhile is_eol rest) = dropWhile isspace rest"
  by (induction rest) (auto simp: is_eol_def ctype_simps)

text \<open>
  C18. Chunked messages: a printed start line, headers with \<open>Transfer-Encoding: chunked\<close> and a chunked body are
  parsed completely; the body of the message is the decoded payload, the transfer coding has moved to
  \<open>X-Original-Transfer-Encoding\<close>, and what follows the message (up to white space) stays in the buffer.
\<close>

theorem chunked_message_parsed:
  assumes "printable_info (me_url env) info" "line_starts info" "php_http_info_to_string info [CR, LF] = Some line"
    "\<forall>(n, vs)\<in>set hs. canonical_header n vs" "distinct (map fst hs)"
    "fst ` set hs \<inter> set (''X-Original-Transfer-Encoding'' # framing_names) = {}"
    "\<forall>c\<in>set cs. c \<noteq> []" "length (chunk_coding cs @ rest) < 2 ^ 63"
    "plain_flags flags" "flags AND PHP_HTTP_MESSAGE_PARSER_GREEDY = 0"
  shows "\<exists>c. php_http_message_parser_parse env php_http_message_parser_init
      (php_http_header_to_string line (header_table (hs @ [(''Transfer-Encoding'', [''chunked''])])) @ CR # LF # chunk_coding cs @ rest)
      flags [blank_message] = Some (MP_DONE, c) \<and> mc_buf c = dropWhile isspace rest \<and>
    mc_msgs c = [\<lparr>msg_info = info, msg_hdrs = chunked_table hs,
      msg_body = \<lparr>body_data = concat cs, body_boundary = None, body_filtered = False\<rparr>\<rparr>]"
proof -
  let ?hs = "hs @ [(''Transfer-Encoding'', [''chunked''])]" and ?i = "php_http_info_dtor info"
  let ?m = "\<lparr>msg_info = info, msg_hdrs = chunked_table hs, msg_body = php_http_message_body_init\<rparr>"
  from printed_line [OF assms(1,2)] obtain L where L: "\<forall>eol. php_http_info_to_string info eol = Some (L @ eol)" "L \<noteq> []" "\<not> isspace (hd L)"
    "\<forall>c\<in>set L. \<not> is_eol c" "\<forall>E i. at_line_end E \<longrightarrow> php_http_info_parse (me_url env) i (L @ E) = Some (True, info)" by blast
  have line: "line = L @ [CR, LF]" using L(1) assms(3) by simp
  have hs: "\<forall>(n, vs)\<in>set ?hs. canonical_header n vs" "distinct (map fst ?hs)"
    using assms(4-6) chunked_canonical by (auto simp: framing_names_def)
  let ?rest = "chunk_coding cs @ rest"
  let ?buf = "L @ CR # LF # concat (map hline_bytes (table_lines ?hs)) @ CR # LF # ?rest"
  have ready: "chain_ready [blank_message] []" by (simp add: chain_ready_def)
  have "mp_parse env flags (mp_conf [] php_http_info_init 0 ?buf [blank_message] [] 0) =
      mp_parse env flags (mp_conf [MP_HEADER] php_http_info_init 0 ?buf [blank_message] [] 0)"
    using L(2,3) by (intro mp_start_turn) simp_all
  also have "\<dots> = mp_parse env flags (mp_conf [MP_HEADER_DONE] ?i 0 ?rest [\<lparr>msg_info = info, msg_hdrs = header_table ?hs, msg_body = php_http_message_body_init\<rparr>] [] 0)"
    by (rule mp_header_turn [OF assms(1) L(5,2,3,4) hs ready])
  also have "\<dots> = mp_parse env flags (chunk_conf fresh_dechunk [MP_BODY_CHUNKED] ?i ?rest [?m] [] 0)"
    by (rule header_done_chunked [OF assms(9,6)])
  finally have head: "mp_parse env flags (mp_conf [] php_http_info_init 0 ?buf [blank_message] [] 0) =
      mp_parse env flags (chunk_conf fresh_dechunk [MP_BODY_CHUNKED] ?i ?rest [?m] [] 0)" .
  from chunked_turns [OF assms(7,8), of env flags ?i ?m "[]"] obtain s where
    s: "mp_parse env flags (chunk_conf fresh_dechunk [MP_BODY_CHUNKED] ?i ?rest [?m] [] 0) =
      mp_parse env flags (chunk_conf s [MP_DONE] ?i (dropWhile is_eol rest) [?m\<lparr>msg_body := php_http_message_body_append (concat cs) (msg_body ?m)\<rparr>] [] 0)"
    by blast
  have "mp_parse env flags (chunk_conf s [MP_DONE] ?i (dropWhile is_eol rest) msgs [] 0) =
      Some (MP_DONE, chunk_conf s [] ?i (dropWhile isspace rest) msgs [] 0)" for msgs
    using assms(10) by (subst mp_parse.simps) (simp add: mp_turn_simps chunk_conf_def mp_done_step_def Let_def dropWhile_isspace_eol)
  with head s show ?thesis
    unfolding php_http_message_parser_parse_def mp_conf_init print_table [OF hs(1)] line
    by (simp add: chunk_conf_def php_http_message_body_append_def php_http_message_body_init_def)
qed

definition sample_status :: php_http_info where
  "sample_status = \<lparr>info_type = PHP_HTTP_RESPONSE, info_version = \<lparr>ver_major = 1, ver_minor = 1\<rparr>, info_data = InfoResponse 200 (Some ''OK'')\<rparr>"

theorem chunked_message_parsed_witness:
  "\<exists>c. php_http_message_parser_parse sample_mp_env php_http_message_parser_init
      (php_http_header_to_string (''HTTP/1.1 200 OK'' @ [CR, LF]) (header_table (sample_pairs @ [(''Transfer-Encoding'', [''chunked''])])) @
        CR # LF # chunk_coding [''hello'', '' world''] @ [LF, CHR ''x''])
      0 [blank_message] = Some (MP_DONE, c) \<and> mc_buf c = dropWhile isspace [LF, CHR ''x''] \<and>
    mc_msgs c = [\<lparr>msg_info = sample_status, msg_hdrs = chunked_table sample_pairs,
      msg_body = \<lparr>body_data = concat [''hello'', '' world''], body_boundary = None, body_filtered = False\<rparr>\<rparr>]"
proof (rule chunked_message_parsed)
  show "printable_info (me_url sample_mp_env) sample_status" "line_starts sample_status"
    "php_http_info_to_string sample_status [CR, LF] = Some (''HTTP/1.1 200 OK'' @ [CR, LF])"
    "fst ` set sample_pairs \<inter> set (''X-Original-Transfer-Encoding'' # framing_names) = {}"
    "plain_flags 0" "(0 :: 32 word) AND PHP_HTTP_MESSAGE_PARSER_GREEDY = 0" by code_simp+
  have "length (chunk_coding [''hello'', '' world''] @ [LF, CHR ''x'']) \<le> 100" by code_simp
  then show "length (chunk_coding [''hello'', '' world''] @ [LF, CHR ''x'']) < 2 ^ 63" by simp
qed (use sample_pairs_ok in simp_all)

end
