(* ===== verification/Http_Params.thy ===== *)
theory Http_Params
  imports Http_Zend
begin

unbundle bit_operations_syntax

text \<open>
  Parameter lists (\<open>php_http_params.c\<close>): the parser with its state, separators, quoting and
  dimensions, and the printer. A result \<^const>\<open>None\<close> is an access through a null pointer or outside of
  memory. Strings are shorter than \<open>2 ^ 31 - 2\<close> bytes, values are no objects.

  The parser keeps pointers to values inside of the table it fills. A pointer is the path of keys
  from the table to the value; the code moves to another value whenever it replaces one, so that a
  path never outlives its value. Functions of the host are a record: trimming (of white space, or of a
  set of characters), the C-style escapes, URL coding, and the limit for the depth of dimensions.
\<close>

section \<open>Keys of tables\<close>

definition php_http_arrkey_stringify :: "zkey \<Rightarrow> bytes" where
  "php_http_arrkey_stringify k = (case k of KStr s \<Rightarrow> s | KInt h \<Rightarrow> print_long h)"

section \<open>Options and state\<close>

record params_env =
  pe_trim :: "bytes option \<Rightarrow> bytes \<Rightarrow> bytes"
  pe_stripcslashes :: "bytes \<Rightarrow> bytes"
  pe_addcslashes :: "bytes \<Rightarrow> bytes \<Rightarrow> bytes"
  pe_url_decode :: "bytes \<Rightarrow> bytes"
  pe_raw_url_encode :: "bytes \<Rightarrow> bytes"
  pe_max_input_nesting_level :: int

definition PHP_HTTP_PARAMS_RAW :: "32 word" where "PHP_HTTP_PARAMS_RAW = 0x00"
definition PHP_HTTP_PARAMS_ESCAPED :: "32 word" where "PHP_HTTP_PARAMS_ESCAPED = 0x01"
definition PHP_HTTP_PARAMS_URLENCODED :: "32 word" where "PHP_HTTP_PARAMS_URLENCODED = 0x04"
definition PHP_HTTP_PARAMS_DIMENSION :: "32 word" where "PHP_HTTP_PARAMS_DIMENSION = 0x08"
definition PHP_HTTP_PARAMS_RFC5987 :: "32 word" where "PHP_HTTP_PARAMS_RFC5987 = 0x10"
definition PHP_HTTP_PARAMS_RFC5988 :: "32 word" where "PHP_HTTP_PARAMS_RFC5988 = 0x20"
definition PHP_HTTP_PARAMS_QUERY :: "32 word" where
  "PHP_HTTP_PARAMS_QUERY = PHP_HTTP_PARAMS_URLENCODED OR PHP_HTTP_PARAMS_DIMENSION"
definition PHP_HTTP_PARAMS_DEFAULT :: "32 word" where
  "PHP_HTTP_PARAMS_DEFAULT = PHP_HTTP_PARAMS_ESCAPED OR PHP_HTTP_PARAMS_RFC5987"

lemmas params_flags =
  PHP_HTTP_PARAMS_RAW_def PHP_HTTP_PARAMS_ESCAPED_def PHP_HTTP_PARAMS_URLENCODED_def PHP_HTTP_PARAMS_DIMENSION_def
  PHP_HTTP_PARAMS_RFC5987_def PHP_HTTP_PARAMS_RFC5988_def PHP_HTTP_PARAMS_QUERY_def PHP_HTTP_PARAMS_DEFAULT_def

text \<open>A missing list of separators is the empty one; \<open>opts_defval\<close> is \<^const>\<open>None\<close> for an undefined value.\<close>

record php_http_params_opts =
  opts_input :: bytes
  opts_param :: "bytes list"
  opts_arg :: "bytes list"
  opts_val :: "bytes list"
  opts_defval :: "zval option"
  opts_flags :: "32 word"

definition php_http_params_opts_default_get :: php_http_params_opts where
  "php_http_params_opts_default_get =
     \<lparr>opts_input = [], opts_param = ['',''], opts_arg = ['';''], opts_val = [''=''], opts_defval = None,
      opts_flags = PHP_HTTP_PARAMS_DEFAULT\<rparr>"

text \<open>
  Positions are offsets into the input; the starts of tokens are \<^const>\<open>None\<close> while they are null. The
  pointer \<open>current.param\<close> is only written and left out.
\<close>

record php_http_params_state =
  ps_pos :: nat
  ps_param :: "nat option"
  ps_arg :: "nat option"
  ps_val :: "nat option"
  ps_cargs :: "zkey list option"
  ps_cval :: "zkey list option"
  ps_quotes :: bool
  ps_escape :: bool
  ps_rfc5987 :: bool

definition params_state_init :: php_http_params_state where
  "params_state_init =
     \<lparr>ps_pos = 0, ps_param = None, ps_arg = None, ps_val = None, ps_cargs = None, ps_cval = None,
      ps_quotes = False, ps_escape = False, ps_rfc5987 = False\<rparr>"

section \<open>Values behind pointers\<close>

fun zv_at :: "zval \<Rightarrow> zkey list \<Rightarrow> zval option" where
  "zv_at v [] = Some v"
| "zv_at v (k # p) =
     (case v of ZArr n es \<Rightarrow> (case map_of es k of Some w \<Rightarrow> zv_at w p | None \<Rightarrow> None) | _ \<Rightarrow> None)"

fun zv_put :: "zval \<Rightarrow> zkey list \<Rightarrow> zval \<Rightarrow> zval" where
  "zv_put v [] w = w"
| "zv_put v (k # p) w =
     (case v of
        ZArr n es \<Rightarrow> (case map_of es k of Some x \<Rightarrow> ZArr n (assoc_update k (zv_put x p w) es) | None \<Rightarrow> v)
      | _ \<Rightarrow> v)"

definition deref :: "hashtable \<Rightarrow> zkey list \<Rightarrow> zval option" where
  "deref params p = zv_at (zarr params) p"

definition store :: "hashtable \<Rightarrow> zkey list \<Rightarrow> zval \<Rightarrow> hashtable" where
  "store params p w = convert_to_array (zv_put (zarr params) p w)"

text \<open>The table behind a pointer, if there is an array.\<close>

definition deref_arr :: "hashtable \<Rightarrow> zkey list \<Rightarrow> hashtable option" where
  "deref_arr params p = (case deref params p of Some (ZArr n es) \<Rightarrow> Some (n, es) | _ \<Rightarrow> None)"

definition is_arr :: "zval \<Rightarrow> bool" where
  "is_arr v = (case v of ZArr _ _ \<Rightarrow> True | _ \<Rightarrow> False)"

text \<open>Appending to a table fails when its next free index would exceed the range of an integer.\<close>

definition next_insert :: "hashtable \<Rightarrow> zval \<Rightarrow> (hashtable \<times> zkey) option" where
  "next_insert ht v =
     (if fst ht \<le> 2 ^ 63 - 1 then Some (zend_hash_next_index_insert ht v, KInt (fst ht)) else None)"

section \<open>Reading keys and values\<close>

abbreviation DQUOTE :: char where "DQUOTE \<equiv> CHR 0x22"
abbreviation BSLASH :: char where "BSLASH \<equiv> CHR 0x5C"
abbreviation SQUOTE :: char where "SQUOTE \<equiv> CHR 0x27"

text \<open>The length of the text between the quotes wraps around for a single quote.\<close>

definition sanitize_escaped :: "params_env \<Rightarrow> bytes \<Rightarrow> bytes option" where
  "sanitize_escaped env s =
     (if s \<noteq> [] \<and> hd s = DQUOTE \<and> last s = DQUOTE
      then if length s < 2 then None else Some (pe_stripcslashes env (butlast (tl s)))
      else Some (pe_stripcslashes env s))"

text \<open>
  \<open>sanitize_dimension\<close>: \<open>var\<close> holds the bytes from \<open>var\<close> to \<open>ptr\<close>, \<open>cur\<close> the path in \<open>arr\<close>. The loop yields
  \<^const>\<open>None\<close> when the nesting is too deep.
\<close>

definition dim_enter :: "zval \<Rightarrow> zkey list \<Rightarrow> bytes \<Rightarrow> zval \<times> zkey list" where
  "dim_enter arr cur var =
     (let ht = convert_to_array (case zv_at arr cur of Some v \<Rightarrow> v | None \<Rightarrow> ZNull);
          k = (if var \<noteq> [] then symtable_key var else KInt (fst ht))
      in (zv_put arr cur (zarr (zend_hash_update ht k ZNull)), cur @ [k]))"

fun dim_loop :: "params_env \<Rightarrow> bytes \<Rightarrow> bytes \<Rightarrow> int \<Rightarrow> zval \<Rightarrow> zkey list \<Rightarrow> zval option" where
  "dim_loop env [] var level arr cur = Some arr"
| "dim_loop env (c # r) var level arr cur =
     (if c = CHR ''['' \<and> pe_max_input_nesting_level env < level + 1 then None
      else let level' = (if c = CHR ''['' then level + 1 else level) in
        if c = CHR ''['' \<and> var = [] then dim_loop env r [] level' arr cur
        else if c = CHR ''['' \<or> c = CHR '']'' then
          (case dim_enter arr cur var of (arr', cur') \<Rightarrow> dim_loop env r [] level' arr' cur')
        else dim_loop env r (var @ [c]) level' arr cur)"

definition sanitize_dimension :: "params_env \<Rightarrow> bytes \<Rightarrow> zval" where
  "sanitize_dimension env s =
     (case dim_loop env s [] 0 (zarr zend_hash_init) [] of
        Some arr \<Rightarrow> if zend_hash_num_elements (convert_to_array arr) \<noteq> 0 then arr else ZStr s
      | None \<Rightarrow> ZStr s)"

text \<open>\<open>sanitize_key\<close>: the key, and whether it is marked as an extended one.\<close>

definition sanitize_key :: "params_env \<Rightarrow> 32 word \<Rightarrow> bytes \<Rightarrow> (zval \<times> bool) option" where
  "sanitize_key env flags str =
     (case (if flags AND PHP_HTTP_PARAMS_ESCAPED \<noteq> 0 then sanitize_escaped env (pe_trim env None str)
            else Some (pe_trim env None str)) of
        None \<Rightarrow> None
      | Some s \<Rightarrow>
          if s = [] then Some (ZStr [], False)
          else let rfc5987 = (flags AND PHP_HTTP_PARAMS_RFC5987 \<noteq> 0 \<and> last s = CHR ''*'');
                   s1 = (if rfc5987 then butlast s else s);
                   s2 = (if flags AND PHP_HTTP_PARAMS_URLENCODED \<noteq> 0 then pe_url_decode env s1 else s1)
               in Some (if flags AND PHP_HTTP_PARAMS_DIMENSION \<noteq> 0 then sanitize_dimension env s2 else ZStr s2, rfc5987))"

text \<open>\<open>sanitize_rfc5987\<close>: the remaining value, the language and whether the value is in Latin 1.\<close>

definition sanitize_rfc5987 :: "bytes \<Rightarrow> bytes \<times> bytes option \<times> bool" where
  "sanitize_rfc5987 s =
     (let iso = strcaseeq (take 10 s) ''iso-8859-1''; utf = strcaseeq (take 5 s) ''utf-8'' in
      if iso \<or> utf then
        let p = drop (if iso then 10 else 5) s in
        if p \<noteq> [] \<and> hd p = SQUOTE then
          let lang = takeWhile (\<lambda>c. c \<noteq> NUL \<and> c \<noteq> SQUOTE) (tl p); r = drop (length lang) (tl p) in
          if r = [] \<or> hd r = NUL then (s, None, iso) else (cstr (tl r), Some lang, iso)
        else (s, None, iso)
      else (s, None, False))"

text \<open>\<open>utf8encode\<close>: the block is measured up to the first NUL and written up to the length.\<close>

definition latin1_utf8 :: "char \<Rightarrow> bytes" where
  "latin1_utf8 c =
     (if 0x80 \<le> uchar c
      then [char_of (0xC0 OR (drop_bit 6 (uchar c) AND 0x1F)), char_of (0x80 OR (uchar c AND 0x3F))] else [c])"

definition utf8encode :: "bytes \<Rightarrow> bytes option" where
  "utf8encode s =
     (let len = length (concat (map latin1_utf8 (cstr s))); out = concat (map latin1_utf8 s) in
      if length out + 1 \<le> len + 1 then Some out else None)"

definition sanitize_value :: "params_env \<Rightarrow> 32 word \<Rightarrow> bytes \<Rightarrow> bool \<Rightarrow> zval option" where
  "sanitize_value env flags str rfc5987 =
     (case (if rfc5987 then sanitize_rfc5987 (pe_trim env None str) else (pe_trim env None str, None, False)) of
        (s, language, latin1) \<Rightarrow>
          (case (if flags AND PHP_HTTP_PARAMS_ESCAPED \<noteq> 0 then sanitize_escaped env s else Some s) of
             None \<Rightarrow> None
           | Some s1 \<Rightarrow>
               let s2 = (if flags AND PHP_HTTP_PARAMS_URLENCODED \<noteq> 0 \<or> language \<noteq> None then pe_url_decode env s1 else s1) in
               (case language of
                  None \<Rightarrow> Some (ZStr s2)
                | Some lang \<Rightarrow>
                    (case (if latin1 then utf8encode s2 else Some s2) of
                       None \<Rightarrow> None
                     | Some s3 \<Rightarrow> Some (zarr (zend_hash_update zend_hash_init (symtable_key lang) (ZStr s3)))))))"

definition sanitize_rfc5988 :: "params_env \<Rightarrow> bytes \<Rightarrow> bytes" where
  "sanitize_rfc5988 env s = pe_trim env (Some '' ><'') s"

section \<open>Storing parameters\<close>

text \<open>\<open>bubble up\<close>: from a value to its innermost first element.\<close>

fun first_leaf :: "zval \<Rightarrow> zkey list" where
  "first_leaf (ZArr n ((k, v) # es)) = k # first_leaf v"
| "first_leaf _ = []"

text \<open>
  Storing the value \<open>v\<close> under key \<open>k\<close> in the table behind \<open>p\<close>; index \<open>0\<close> stands for the next free one. The
  result is the table of parameters and the path of the new element.
\<close>

definition merge_insert :: "hashtable \<Rightarrow> zkey list \<Rightarrow> hashtable \<Rightarrow> zkey \<Rightarrow> zval \<Rightarrow> (hashtable \<times> zkey list) option" where
  "merge_insert params p ht k v =
     (if k = KInt 0 then
        (case next_insert ht v of None \<Rightarrow> None | Some (ht', k') \<Rightarrow> Some (store params p (zarr ht'), p @ [k']))
      else Some (store params p (zarr (zend_hash_update ht k v)), p @ [k]))"

fun merge_loop :: "hashtable \<Rightarrow> zkey list \<Rightarrow> zval \<Rightarrow> (hashtable \<times> zkey list) option" where
  "merge_loop params p (ZArr n ((k, test) # es)) =
     (case deref params p of
        None \<Rightarrow> None
      | Some v \<Rightarrow>
          if is_arr test \<and> is_arr v then
            (case zend_hash_find (convert_to_array v) k of
               Some _ \<Rightarrow> merge_loop params (p @ [k]) test
             | None \<Rightarrow> merge_insert params p (convert_to_array v) k test)
          else merge_insert params p (if is_arr v then convert_to_array v else zend_hash_init) k test)"
| "merge_loop params p _ = Some (params, p)"

definition new_param :: "zkey \<Rightarrow> zval \<Rightarrow> hashtable" where
  "new_param k v = zend_hash_update (zend_hash_update zend_hash_init k v) (KStr ''arguments'') (zarr zend_hash_init)"

text \<open>\<open>merge_param\<close>: the parameters, the current value and, if it changes, the current arguments.\<close>

definition merge_param :: "hashtable \<Rightarrow> hashtable \<Rightarrow> (hashtable \<times> zkey list \<times> zkey list option) option" where
  "merge_param params zdata =
     (case snd zdata of
        [] \<Rightarrow> None
      | (hkey, v) # _ \<Rightarrow>
          (case zend_hash_find params hkey of
             None \<Rightarrow>
               let tmp = zarr (new_param (KStr ''value'') v) in
               Some (zend_hash_update params hkey tmp, hkey # first_leaf tmp, Some [hkey, KStr ''arguments''])
           | Some old \<Rightarrow>
               (case (if is_arr old
                      then case zend_hash_find (convert_to_array old) (KStr ''value'') of
                             None \<Rightarrow> None
                           | Some _ \<Rightarrow> merge_loop params [hkey, KStr ''value''] v
                      else Some (params, [hkey])) of
                  None \<Rightarrow> None
                | Some (params', p) \<Rightarrow>
                    (case deref params' p of
                       None \<Rightarrow> None
                     | Some w \<Rightarrow> Some (params', p @ first_leaf w, None)))))"

definition slice :: "bytes \<Rightarrow> nat \<Rightarrow> nat \<Rightarrow> bytes" where
  "slice m a b = take (b - a) (drop a m)"

definition rfc5987_key :: bytes where "rfc5987_key = ''*rfc5987*''"

definition push_val ::
  "params_env \<Rightarrow> php_http_params_opts \<Rightarrow> hashtable \<Rightarrow> php_http_params_state \<Rightarrow> nat \<Rightarrow> (hashtable \<times> php_http_params_state) option" where
  "push_val env opts params st v =
     (case ps_cval st of
        None \<Rightarrow> Some (params, st)
      | Some p \<Rightarrow>
          (case (if v < ps_pos st
                 then sanitize_value env (opts_flags opts) (slice (opts_input opts) v (ps_pos st)) (ps_rfc5987 st)
                 else Some (ZStr [])) of
             None \<Rightarrow> None
           | Some w \<Rightarrow> Some (store params p w, st\<lparr>ps_rfc5987 := False\<rparr>)))"

definition push_arg ::
  "params_env \<Rightarrow> php_http_params_opts \<Rightarrow> hashtable \<Rightarrow> php_http_params_state \<Rightarrow> nat \<Rightarrow> (hashtable \<times> php_http_params_state) option" where
  "push_arg env opts params st a =
     (if a < ps_pos st then
        (case sanitize_key env (opts_flags opts) (slice (opts_input opts) a (ps_pos st)) of
           None \<Rightarrow> None
         | Some (key, rfc5987) \<Rightarrow>
             (case key of
                ZStr s \<Rightarrow>
                  if s = [] then Some (params, st\<lparr>ps_rfc5987 := rfc5987\<rparr>)
                  else (case ps_cargs st of
                     None \<Rightarrow> None
                   | Some p \<Rightarrow>
                       (case deref_arr params p of
                          None \<Rightarrow> None
                        | Some args \<Rightarrow>
                            if rfc5987 then
                              (case zend_hash_find args (KStr rfc5987_key) of
                                 Some rfc \<Rightarrow>
                                   if is_arr rfc
                                   then Some (store params (p @ [KStr rfc5987_key])
                                                (zarr (zend_hash_update (convert_to_array rfc) (symtable_key s) (ZBool True))),
                                              st\<lparr>ps_rfc5987 := True, ps_cval := Some (p @ [KStr rfc5987_key, symtable_key s])\<rparr>)
                                   else None
                               | None \<Rightarrow>
                                   Some (store params p (zarr (zend_hash_update args (KStr rfc5987_key)
                                           (zarr (zend_hash_update zend_hash_init (symtable_key s) (ZBool True))))),
                                         st\<lparr>ps_rfc5987 := True, ps_cval := Some (p @ [KStr rfc5987_key, symtable_key s])\<rparr>))
                            else Some (store params p (zarr (zend_hash_update args (symtable_key s) (ZBool True))),
                                       st\<lparr>ps_rfc5987 := False, ps_cval := Some (p @ [symtable_key s])\<rparr>)))
              | _ \<Rightarrow> Some (params, st\<lparr>ps_rfc5987 := rfc5987\<rparr>)))
      else Some (params, st))"

definition push_new ::
  "params_env \<Rightarrow> php_http_params_opts \<Rightarrow> hashtable \<Rightarrow> php_http_params_state \<Rightarrow> nat \<Rightarrow> (hashtable \<times> php_http_params_state) option" where
  "push_new env opts params st a =
     (if a < ps_pos st then
        (let str = slice (opts_input opts) a (ps_pos st); link = (opts_flags opts AND PHP_HTTP_PARAMS_RFC5988 \<noteq> 0) in
         case (if link then Some (ZStr (sanitize_rfc5988 env str), False)
               else sanitize_key env (opts_flags opts) str) of
           None \<Rightarrow> None
         | Some (key, rfc5987) \<Rightarrow>
             let st1 = (if link then st else st\<lparr>ps_rfc5987 := rfc5987\<rparr>) in
             (case key of
                ZArr n es \<Rightarrow>
                  (case merge_param params (n, es) of
                     None \<Rightarrow> None
                   | Some (params', cval, cargs) \<Rightarrow>
                       Some (params', st1\<lparr>ps_cval := Some cval, ps_cargs := (if cargs = None then ps_cargs st1 else cargs)\<rparr>))
              | ZStr s \<Rightarrow>
                  if s = [] then Some (params, st1)
                  else let v = (case opts_defval opts of Some d \<Rightarrow> d | None \<Rightarrow> ZBool True);
                           k = KStr (if rfc5987 \<and> opts_flags opts AND PHP_HTTP_PARAMS_RFC5987 \<noteq> 0 then rfc5987_key else ''value'');
                           sk = symtable_key s
                       in Some (zend_hash_update params sk (zarr (new_param k v)),
                                st1\<lparr>ps_cval := Some [sk, k], ps_cargs := Some [sk, KStr ''arguments'']\<rparr>)
              | _ \<Rightarrow> Some (params, st1)))
      else Some (params, st))"

definition push_param ::
  "params_env \<Rightarrow> php_http_params_opts \<Rightarrow> hashtable \<Rightarrow> php_http_params_state \<Rightarrow> (hashtable \<times> php_http_params_state) option" where
  "push_param env opts params st =
     (case ps_val st of
        Some v \<Rightarrow> push_val env opts params st v
      | None \<Rightarrow>
          (case ps_arg st of
             Some a \<Rightarrow> push_arg env opts params st a
           | None \<Rightarrow>
               (case ps_param st of
                  Some p \<Rightarrow> push_new env opts params st p
                | None \<Rightarrow> Some (params, st))))"

section \<open>The parser\<close>

definition check_str :: "bytes \<Rightarrow> bytes \<Rightarrow> bool" where
  "check_str chk sep \<longleftrightarrow> sep \<noteq> [] \<and> take (length sep) chk = sep"

definition check_sep :: "php_http_params_state \<Rightarrow> bytes \<Rightarrow> bytes list \<Rightarrow> nat" where
  "check_sep st input separators =
     (if ps_quotes st \<or> ps_escape st then 0
      else case find (check_str (drop (ps_pos st) input)) separators of Some sep \<Rightarrow> length sep | None \<Rightarrow> 0)"

text \<open>\<open>skip_sep\<close>: the bytes in front of the position are skipped, then all separators behind it.\<close>

lemma check_str_shorter: "check_str chk sep \<Longrightarrow> length (drop (length sep) chk) < length chk"
  by (cases chk) (auto simp: check_str_def)

function skip_loop :: "bytes list \<Rightarrow> bytes \<Rightarrow> bytes" where
  "skip_loop seps input =
     (case find (check_str input) seps of None \<Rightarrow> input | Some sep \<Rightarrow> skip_loop seps (drop (length sep) input))"
  by pat_completeness auto
termination
  by (relation "measure (\<lambda>(seps, input). length input)")
    (auto simp: find_Some_iff dest!: check_str_shorter)

declare skip_loop.simps [simp del]

definition skip_sep :: "nat \<Rightarrow> php_http_params_state \<Rightarrow> bytes \<Rightarrow> bytes list \<Rightarrow> php_http_params_state" where
  "skip_sep skip st input seps =
     (let st1 = st\<lparr>ps_pos := ps_pos st + skip\<rparr> in
      if ps_quotes st \<or> ps_escape st then st1
      else st1\<lparr>ps_pos := length input - length (skip_loop seps (drop (ps_pos st1) input))\<rparr>)"

text \<open>Quotes and escapes at the next character.\<close>

definition params_track :: "32 word \<Rightarrow> char \<Rightarrow> php_http_params_state \<Rightarrow> php_http_params_state" where
  "params_track flags c st =
     (if flags AND PHP_HTTP_PARAMS_RFC5988 \<noteq> 0 \<and> ps_arg st = None then
        (if c = CHR ''<'' then st\<lparr>ps_quotes := True\<rparr> else if c = CHR ''>'' then st\<lparr>ps_quotes := False\<rparr> else st)
      else if c = DQUOTE \<and> \<not> ps_escape st then st\<lparr>ps_quotes := \<not> ps_quotes st\<rparr>
      else st\<lparr>ps_escape := (c = BSLASH)\<rparr>)"

text \<open>One round of the loop.\<close>

definition params_next :: "bytes \<Rightarrow> php_http_params_state \<Rightarrow> php_http_params_state" where
  "params_next input st = (if ps_pos st < length input then st\<lparr>ps_pos := ps_pos st + 1\<rparr> else st)"

definition params_step ::
  "params_env \<Rightarrow> php_http_params_opts \<Rightarrow> hashtable \<Rightarrow> php_http_params_state \<Rightarrow> (hashtable \<times> php_http_params_state) option" where
  "params_step env opts params st0 =
     (let input = opts_input opts;
          st = params_track (opts_flags opts) (input ! ps_pos st0) st0;
          psep = check_sep st input (opts_param opts);
          asep = check_sep st input (opts_arg opts);
          vsep = check_sep st input (opts_val opts)
      in
      if ps_param st = None then
        let st1 = skip_sep 0 st input (opts_param opts @ opts_arg opts @ opts_val opts)
        in Some (params, params_next input (st1\<lparr>ps_param := Some (ps_pos st1)\<rparr>))
      else if 0 < psep then
        (case push_param env opts params st of
           None \<Rightarrow> None
         | Some (params', st1) \<Rightarrow>
             let st2 = skip_sep psep st1 input (opts_param opts @ opts_arg opts @ opts_val opts)
             in Some (params', st2\<lparr>ps_param := Some (ps_pos st2), ps_arg := None, ps_val := None\<rparr>))
      else if 0 < asep then
        (case push_param env opts params st of
           None \<Rightarrow> None
         | Some (params', st1) \<Rightarrow>
             let st2 = skip_sep asep st1 input (opts_arg opts @ opts_val opts)
             in Some (params', st2\<lparr>ps_arg := Some (ps_pos st2), ps_val := None\<rparr>))
      else if 0 < vsep \<and> ps_val st = None then
        (case push_param env opts params st of
           None \<Rightarrow> None
         | Some (params', st1) \<Rightarrow>
             let st2 = skip_sep vsep st1 input (opts_val opts)
             in Some (params', st2\<lparr>ps_val := Some (ps_pos st2)\<rparr>))
      else Some (params, params_next input st))"

lemma push_param_pos:
  assumes "push_param env opts params st = Some (params', st')"
  shows "ps_pos st' = ps_pos st"
  using assms by (auto simp: push_param_def push_val_def push_arg_def push_new_def Let_def
      split: option.splits zval.splits if_splits)

lemma skip_loop_length: "length (skip_loop seps input) \<le> length input"
proof (induction seps input rule: skip_loop.induct)
  case (1 seps input)
  show ?case
  proof (cases "find (check_str input) seps")
    case (Some sep)
    then show ?thesis using 1 [OF Some] by (subst skip_loop.simps) simp
  qed (simp add: skip_loop.simps)
qed

lemma skip_sep_pos: "ps_pos st + skip \<le> length input \<Longrightarrow> ps_pos st + skip \<le> ps_pos (skip_sep skip st input seps)"
  using skip_loop_length [of seps "drop (ps_pos st + skip) input"] by (auto simp: skip_sep_def Let_def)

lemma check_sep_length: "ps_pos st \<le> length input \<Longrightarrow> ps_pos st + check_sep st input seps \<le> length input"
  by (auto simp: check_sep_def check_str_def find_Some_iff split: option.splits)
    (metis add_le_cancel_left le_add_diff_inverse length_drop length_take min.absorb_iff2 min.commute)

lemma params_track_pos [simp]: "ps_pos (params_track flags c st) = ps_pos st"
  by (simp add: params_track_def)

lemma push_skip_progress:
  assumes "push_param env opts params st = Some (params', st1)" "0 < check_sep st input sp" "ps_pos st < length input"
  shows "ps_pos st < ps_pos (skip_sep (check_sep st input sp) st1 input seps)"
proof -
  have "ps_pos st1 + check_sep st input sp \<le> length input"
    using check_sep_length [of st input sp] assms(3) push_param_pos [OF assms(1)] by simp
  from skip_sep_pos [OF this] show ?thesis using push_param_pos [OF assms(1)] assms(2) by (metis less_add_same_cancel1 less_le_trans)
qed

lemma params_next_pos: "ps_pos st < length input \<Longrightarrow> ps_pos st < ps_pos (params_next input st)"
  by (simp add: params_next_def)

lemma first_skip_progress:
  assumes "ps_pos st < length input"
  shows "ps_pos st < ps_pos (params_next input ((skip_sep 0 st input seps)\<lparr>ps_param := p\<rparr>))"
  using assms skip_sep_pos [of st 0 input seps] by (auto simp: params_next_def)

lemma params_step_progress:
  assumes "ps_pos st < length (opts_input opts)" "params_step env opts params st = Some (params', st')"
  shows "ps_pos st < ps_pos st'"
proof -
  let ?st = "params_track (opts_flags opts) (opts_input opts ! ps_pos st) st"
  have "ps_pos ?st < length (opts_input opts)" using assms(1) by simp
  then have "ps_pos ?st < ps_pos st'"
    using assms(2) unfolding params_step_def Let_def
    by (auto simp: push_skip_progress params_next_pos first_skip_progress simp del: params_track_pos split: if_splits option.splits prod.splits)
  then show ?thesis by simp
qed

function params_loop ::
  "params_env \<Rightarrow> php_http_params_opts \<Rightarrow> hashtable \<Rightarrow> php_http_params_state \<Rightarrow> (hashtable \<times> php_http_params_state) option" where
  "params_loop env opts params st =
     (if ps_pos st < length (opts_input opts) then
        (case params_step env opts params st of
           None \<Rightarrow> None
         | Some (params', st') \<Rightarrow> params_loop env opts params' st')
      else Some (params, st))"
  by pat_completeness auto
termination
  by (relation "measure (\<lambda>(env, opts, params, st). length (opts_input opts) - ps_pos st)")
    (auto dest: params_step_progress intro!: diff_less_mono2)

declare params_loop.simps [simp del]

definition php_http_params_parse :: "params_env \<Rightarrow> hashtable option \<Rightarrow> php_http_params_opts \<Rightarrow> hashtable option" where
  "php_http_params_parse env params opts =
     (case params_loop env opts (case params of Some ht \<Rightarrow> ht | None \<Rightarrow> zend_hash_init) params_state_init of
        None \<Rightarrow> None
      | Some (params', st) \<Rightarrow> map_option fst (push_param env opts params' st))"

section \<open>Printing\<close>

definition escaped_chars :: bytes where
  "escaped_chars = NUL # ''..'' @ [CHR 0x1F, CHR 0x7B, BSLASH, DQUOTE]"

definition special_chars :: bytes where
  "special_chars = ''()<>@,;:'' @ DQUOTE # ''[]?={} ''"

definition quote_string :: "params_env \<Rightarrow> bytes \<Rightarrow> bool \<Rightarrow> bytes" where
  "quote_string env s force =
     (let zs = pe_addcslashes env s escaped_chars in
      if force \<or> length s \<noteq> length zs \<or> (\<exists>c\<in>set (cstr zs). c \<in> set special_chars) then DQUOTE # zs @ [DQUOTE] else zs)"

definition prepare_key :: "params_env \<Rightarrow> 32 word \<Rightarrow> bytes \<Rightarrow> bytes" where
  "prepare_key env flags key =
     (let s = (if flags AND PHP_HTTP_PARAMS_URLENCODED \<noteq> 0 then pe_raw_url_encode env key else key) in
      if flags AND PHP_HTTP_PARAMS_ESCAPED \<noteq> 0 \<and> flags AND PHP_HTTP_PARAMS_RFC5988 = 0 then quote_string env s False else s)"

definition prepare_value :: "params_env \<Rightarrow> 32 word \<Rightarrow> bytes \<Rightarrow> bytes" where
  "prepare_value env flags v =
     (let s = (if flags AND PHP_HTTP_PARAMS_URLENCODED \<noteq> 0 then pe_raw_url_encode env v else v) in
      if flags AND PHP_HTTP_PARAMS_ESCAPED \<noteq> 0 then quote_string env s False else s)"

definition shift_key :: "params_env \<Rightarrow> bytes \<Rightarrow> bytes \<Rightarrow> bytes \<Rightarrow> 32 word \<Rightarrow> bytes" where
  "shift_key env buf key ass flags = buf @ (if buf \<noteq> [] then ass else []) @ prepare_key env flags key"

text \<open>The first element of the table: its key is the language. Formatting stops at a NUL.\<close>

definition shift_rfc5987 :: "params_env \<Rightarrow> bytes \<Rightarrow> (zkey \<times> zval) list \<Rightarrow> bytes \<Rightarrow> 32 word \<Rightarrow> bytes" where
  "shift_rfc5987 env buf es vss flags =
     (case es of
        [] \<Rightarrow> buf
      | (k, v) # _ \<Rightarrow>
          buf @ ''*'' @ cstr vss @ ''utf-8'' @ SQUOTE # cstr (php_http_arrkey_stringify k) @ SQUOTE #
          prepare_value env (flags OR PHP_HTTP_PARAMS_URLENCODED) (zval_get_string v))"

definition shift_rfc5988 :: "params_env \<Rightarrow> bytes \<Rightarrow> bytes \<Rightarrow> bytes \<Rightarrow> 32 word \<Rightarrow> bytes" where
  "shift_rfc5988 env buf key ass flags = buf @ (if buf \<noteq> [] then ass else []) @ ''<'' @ prepare_key env flags key @ ''>''"

definition shift_rfc5988_val :: "params_env \<Rightarrow> bytes \<Rightarrow> zval \<Rightarrow> bytes \<Rightarrow> bytes" where
  "shift_rfc5988_val env buf v vss = buf @ vss @ quote_string env (zval_get_string v) True"

definition shift_val :: "params_env \<Rightarrow> bytes \<Rightarrow> zval \<Rightarrow> bytes \<Rightarrow> 32 word \<Rightarrow> bytes" where
  "shift_val env buf v vss flags =
     (case v of
        ZBool True \<Rightarrow> buf
      | ZBool False \<Rightarrow> buf @ vss @ ''0''
      | _ \<Rightarrow> buf @ vss @ prepare_value env flags (zval_get_string v))"

text \<open>Names of arguments whose values have to be quoted in links.\<close>

definition link_arg :: "32 word \<Rightarrow> bytes \<Rightarrow> bool" where
  "link_arg flags key \<longleftrightarrow>
     flags AND PHP_HTTP_PARAMS_RFC5988 \<noteq> 0 \<and> length key \<in> {3, 5, 6} \<and>
     0 \<le> php_http_select_str (Some (cstr key)) [''rel'', ''title'', ''anchor'']"

fun shift_arg :: "params_env \<Rightarrow> bytes \<Rightarrow> bytes \<Rightarrow> 32 word \<Rightarrow> bytes \<Rightarrow> bytes \<Rightarrow> zval \<Rightarrow> bytes"
  and shift_args :: "params_env \<Rightarrow> bytes \<Rightarrow> bytes \<Rightarrow> 32 word \<Rightarrow> bool \<Rightarrow> bytes \<Rightarrow> (zkey \<times> zval) list \<Rightarrow> bytes" where
  "shift_arg env ass vss flags buf key v =
     (case v of
        ZArr n es \<Rightarrow>
          let rfc5987 = (cstr key = rfc5987_key) in
          shift_args env ass vss flags rfc5987 (if rfc5987 then buf else shift_key env buf key ass flags) es
      | _ \<Rightarrow>
          if link_arg flags key then shift_rfc5988_val env (shift_key env buf key ass flags) v vss
          else shift_val env (shift_key env buf key ass flags) v vss flags)"
| "shift_args env ass vss flags rfc5987 buf [] = buf"
| "shift_args env ass vss flags rfc5987 buf ((k, v) # es) =
     (let key = php_http_arrkey_stringify k in
      shift_args env ass vss flags rfc5987
        (if v = ZUndef then buf
         else if rfc5987 \<and> is_arr v
         then shift_rfc5987 env (shift_key env buf key ass flags) (snd (convert_to_array v)) vss flags
         else shift_arg env ass vss flags buf key v) es)"

text \<open>\<open>prepare_dimension\<close>; properties that are not public start with a NUL.\<close>

definition dim_prefix :: "bytes \<Rightarrow> zkey \<Rightarrow> bytes" where
  "dim_prefix keybuf k = keybuf @ ''['' @ (case k of KStr s \<Rightarrow> s | KInt h \<Rightarrow> dec (nat (h mod 2 ^ 64))) @ '']''"

definition dim_hidden :: "zkey \<Rightarrow> bool" where
  "dim_hidden k = (case k of KStr s \<Rightarrow> s = [] \<or> hd s = NUL | KInt _ \<Rightarrow> False)"

fun prepare_dimension :: "params_env \<Rightarrow> bytes \<Rightarrow> bytes \<Rightarrow> 32 word \<Rightarrow> bytes \<Rightarrow> bytes \<Rightarrow> (zkey \<times> zval) list \<Rightarrow> bytes"
  and prepare_dim :: "params_env \<Rightarrow> bytes \<Rightarrow> bytes \<Rightarrow> 32 word \<Rightarrow> bytes \<Rightarrow> bytes \<Rightarrow> zval \<Rightarrow> bytes" where
  "prepare_dimension env pss vss flags buf keybuf [] = buf"
| "prepare_dimension env pss vss flags buf keybuf ((k, v) # es) =
     prepare_dimension env pss vss flags
       (if dim_hidden k \<or> v = ZUndef then buf else prepare_dim env pss vss flags buf (dim_prefix keybuf k) v) keybuf es"
| "prepare_dim env pss vss flags buf prefix v =
     (case v of
        ZArr n es \<Rightarrow> prepare_dimension env pss vss flags buf prefix es
      | _ \<Rightarrow> shift_val env (shift_key env buf prefix pss flags) (ZStr (zval_get_string v)) vss flags)"

definition shift_param ::
  "params_env \<Rightarrow> bytes \<Rightarrow> bytes \<Rightarrow> bytes \<Rightarrow> 32 word \<Rightarrow> bool \<Rightarrow> bytes \<Rightarrow> bytes \<Rightarrow> zval \<Rightarrow> bytes" where
  "shift_param env pss ass vss flags rfc5987 buf key v =
     (case v of
        ZArr n es \<Rightarrow>
          if flags AND PHP_HTTP_PARAMS_DIMENSION \<noteq> 0 then prepare_dimension env pss vss flags buf key es
          else if rfc5987 then shift_rfc5987 env (shift_key env buf key pss flags) es vss flags
          else shift_arg env ass vss flags buf key v
      | _ \<Rightarrow>
          shift_val env
            (if flags AND PHP_HTTP_PARAMS_RFC5988 \<noteq> 0 then shift_rfc5988 env buf key pss flags
             else shift_key env buf key pss flags) v vss flags)"

text \<open>
  One parameter: the buffer, and whether an extended value was met (the flag is never reset). The
  arguments are the element \<open>arguments\<close>, or all elements but \<open>value\<close> of an array with a value.
\<close>

definition to_string_param ::
  "params_env \<Rightarrow> bytes \<Rightarrow> bytes \<Rightarrow> bytes \<Rightarrow> 32 word \<Rightarrow> zkey \<times> zval \<Rightarrow> bytes \<times> bool \<Rightarrow> bytes \<times> bool" where
  "to_string_param env pss ass vss flags = (\<lambda>(k, zparam) (buf, rfc5987).
     let key = php_http_arrkey_stringify k in
     case zparam of
       ZArr n es \<Rightarrow>
         let value = map_of es (KStr ''value''); ext = map_of es (KStr rfc5987_key);
             rfc = (rfc5987 \<or> (value = None \<and> ext \<noteq> None));
             zvalue = (case value of Some v \<Rightarrow> v | None \<Rightarrow> (case ext of Some v \<Rightarrow> v | None \<Rightarrow> zparam));
             buf1 = shift_param env pss ass vss flags rfc buf key zvalue
         in
         (case map_of es (KStr ''arguments'') of
            Some (ZArr _ as) \<Rightarrow> (shift_args env ass vss flags False buf1 as, rfc)
          | Some _ \<Rightarrow> (buf1, rfc)
          | None \<Rightarrow>
              if value = None \<and> ext = None then (buf1, rfc)
              else (shift_args env ass vss flags False buf1 (filter (\<lambda>e. fst e \<noteq> KStr ''value'') es), rfc))
     | _ \<Rightarrow> (shift_param env pss ass vss flags rfc5987 buf key zparam, rfc5987))"

definition php_http_params_to_string ::
  "params_env \<Rightarrow> bytes \<Rightarrow> hashtable \<Rightarrow> bytes \<Rightarrow> bytes \<Rightarrow> bytes \<Rightarrow> 32 word \<Rightarrow> bytes" where
  "php_http_params_to_string env buf params pss ass vss flags =
     fst (fold (to_string_param env pss ass vss flags) (live params) (buf, False))"

definition php_http_params_separator_init :: "zval option \<Rightarrow> bytes list" where
  "php_http_params_separator_init zv =
     (case zv of None \<Rightarrow> []
      | Some v \<Rightarrow> filter (\<lambda>s. s \<noteq> []) (map (\<lambda>(k, sep). zval_get_string sep) (snd (convert_to_array v))))"

end
