(* ===== verification/Http_Cookie.thy ===== *)
theory Http_Cookie
  imports Http_Params
begin

unbundle bit_operations_syntax

text \<open>
  Cookie lists (\<open>php_http_cookie.c\<close>): parsing with the parser of parameter lists, printing, conversion
  from and to arrays, and the methods of \<open>http\Cookie\<close> on the list of the object. Domain and path are C
  strings. Outside of the sources are URL decoding, the conversions of dates and of strings to numbers.
\<close>

section \<open>State\<close>

record cookie_env =
  ce_params :: params_env
  ce_raw_url_decode :: "bytes \<Rightarrow> bytes"
  ce_parse_date :: "bytes \<Rightarrow> int"
  ce_format_date :: "int \<Rightarrow> bytes"
  ce_str_long :: "bytes \<Rightarrow> int"
  ce_is_numeric :: "bytes \<Rightarrow> int option"

record php_http_cookie_list =
  cl_cookies :: hashtable
  cl_extras :: hashtable
  cl_flags :: "64 word"
  cl_path :: "bytes option"
  cl_domain :: "bytes option"
  cl_expires :: int
  cl_max_age :: int

definition PHP_HTTP_COOKIE_SECURE :: "64 word" where "PHP_HTTP_COOKIE_SECURE = 0x10"
definition PHP_HTTP_COOKIE_HTTPONLY :: "64 word" where "PHP_HTTP_COOKIE_HTTPONLY = 0x20"
definition PHP_HTTP_COOKIE_PARSE_RAW :: "64 word" where "PHP_HTTP_COOKIE_PARSE_RAW = 0x01"

definition php_http_cookie_list_init :: php_http_cookie_list where
  "php_http_cookie_list_init =
     \<lparr>cl_cookies = zend_hash_init, cl_extras = zend_hash_init, cl_flags = 0, cl_path = None, cl_domain = None,
      cl_expires = -1, cl_max_age = -1\<rparr>"

definition php_http_cookie_list_copy :: "php_http_cookie_list \<Rightarrow> php_http_cookie_list" where
  "php_http_cookie_list_copy from_list =
     \<lparr>cl_cookies = array_copy (cl_cookies from_list) zend_hash_init, cl_extras = array_copy (cl_extras from_list) zend_hash_init,
      cl_flags = cl_flags from_list, cl_path = map_option cstr (cl_path from_list), cl_domain = map_option cstr (cl_domain from_list),
      cl_expires = cl_expires from_list, cl_max_age = cl_max_age from_list\<rparr>"

section \<open>Entries\<close>

definition string_entry :: "hashtable \<Rightarrow> bytes \<Rightarrow> bytes option" where
  "string_entry ht name = (case zend_hash_find ht (symtable_key name) of Some (ZStr s) \<Rightarrow> Some s | _ \<Rightarrow> None)"

definition php_http_cookie_list_get_cookie :: "php_http_cookie_list \<Rightarrow> bytes \<Rightarrow> bytes option" where
  "php_http_cookie_list_get_cookie l name = string_entry (cl_cookies l) name"

definition php_http_cookie_list_get_extra :: "php_http_cookie_list \<Rightarrow> bytes \<Rightarrow> bytes option" where
  "php_http_cookie_list_get_extra l name = string_entry (cl_extras l) name"

definition php_http_cookie_list_add_cookie :: "php_http_cookie_list \<Rightarrow> bytes \<Rightarrow> bytes \<Rightarrow> php_http_cookie_list" where
  "php_http_cookie_list_add_cookie l name v = l\<lparr>cl_cookies := zend_hash_update (cl_cookies l) (symtable_key name) (ZStr v)\<rparr>"

definition php_http_cookie_list_add_extra :: "php_http_cookie_list \<Rightarrow> bytes \<Rightarrow> bytes \<Rightarrow> php_http_cookie_list" where
  "php_http_cookie_list_add_extra l name v = l\<lparr>cl_extras := zend_hash_update (cl_extras l) (symtable_key name) (ZStr v)\<rparr>"

definition php_http_cookie_list_del_cookie :: "php_http_cookie_list \<Rightarrow> bytes \<Rightarrow> php_http_cookie_list" where
  "php_http_cookie_list_del_cookie l name = l\<lparr>cl_cookies := zend_hash_del (cl_cookies l) (symtable_key name)\<rparr>"

definition php_http_cookie_list_del_extra :: "php_http_cookie_list \<Rightarrow> bytes \<Rightarrow> php_http_cookie_list" where
  "php_http_cookie_list_del_extra l name = l\<lparr>cl_extras := zend_hash_del (cl_extras l) (symtable_key name)\<rparr>"

section \<open>Parsing\<close>

definition KEY_IS :: "zkey \<Rightarrow> bytes \<Rightarrow> bool" where
  "KEY_IS key s = (case key of KStr k \<Rightarrow> length k = length s \<and> strcaseeq k s | KInt _ \<Rightarrow> False)"

definition allowed_extra :: "bytes list \<Rightarrow> bytes \<Rightarrow> bool" where
  "allowed_extra extras key \<longleftrightarrow> (\<exists>ae\<in>set extras. strncaseeq ae key (length key))"

definition add_entry :: "cookie_env \<Rightarrow> bytes list \<Rightarrow> 64 word \<Rightarrow> zkey \<times> zval \<Rightarrow> php_http_cookie_list \<Rightarrow> php_http_cookie_list" where
  "add_entry env allowed flags = (\<lambda>(key, val) l.
     let s = zval_get_string val;
         arg = (if flags AND PHP_HTTP_COOKIE_PARSE_RAW = 0 then ce_raw_url_decode env s else s);
         name = php_http_arrkey_stringify key
     in
     if KEY_IS key ''path'' then l\<lparr>cl_path := Some arg\<rparr>
     else if KEY_IS key ''domain'' then l\<lparr>cl_domain := Some arg\<rparr>
     else if KEY_IS key ''expires'' then l\<lparr>cl_expires := ce_parse_date env (cstr arg)\<rparr>
     else if KEY_IS key ''max-age'' then l\<lparr>cl_max_age := zval_get_long (ce_str_long env) val\<rparr>
     else if KEY_IS key ''secure'' then l\<lparr>cl_flags := cl_flags l OR PHP_HTTP_COOKIE_SECURE\<rparr>
     else if KEY_IS key ''httpOnly'' then l\<lparr>cl_flags := cl_flags l OR PHP_HTTP_COOKIE_HTTPONLY\<rparr>
     else if allowed_extra allowed name then php_http_cookie_list_add_extra l name arg
     else php_http_cookie_list_add_cookie l name arg)"

definition add_param :: "cookie_env \<Rightarrow> bytes list \<Rightarrow> 64 word \<Rightarrow> zkey \<times> zval \<Rightarrow> php_http_cookie_list \<Rightarrow> php_http_cookie_list" where
  "add_param env allowed flags = (\<lambda>(k, param) l.
     case param of
       ZArr _ es \<Rightarrow>
         let l1 = (case map_of es (KStr ''value'') of Some val \<Rightarrow> add_entry env [] flags (k, val) l | None \<Rightarrow> l)
         in (case map_of es (KStr ''arguments'') of
               Some (ZArr n as) \<Rightarrow> fold (add_entry env allowed flags) (live (n, as)) l1
             | _ \<Rightarrow> l1)
     | _ \<Rightarrow> l)"

text \<open>The result \<^const>\<open>None\<close> is undefined behaviour in the parser of parameters.\<close>

definition php_http_cookie_list_parse ::
  "cookie_env \<Rightarrow> bytes \<Rightarrow> 64 word \<Rightarrow> bytes list \<Rightarrow> php_http_cookie_list option" where
  "php_http_cookie_list_parse env str flags allowed =
     (case php_http_params_parse (ce_params env) (Some zend_hash_init)
             (php_http_params_opts_default_get\<lparr>opts_input := str, opts_param := []\<rparr>) of
        None \<Rightarrow> None
      | Some params \<Rightarrow> Some (fold (add_param env allowed flags) (live params) php_http_cookie_list_init))"

section \<open>Arrays\<close>

definition str_update :: "bytes \<Rightarrow> zval \<Rightarrow> hashtable \<Rightarrow> hashtable" where
  "str_update k v ht = zend_hash_update ht (symtable_key k) v"

definition php_http_cookie_list_to_struct :: "php_http_cookie_list \<Rightarrow> hashtable \<Rightarrow> hashtable" where
  "php_http_cookie_list_to_struct l ht =
     str_update ''domain'' (ZStr (case cl_domain l of Some s \<Rightarrow> cstr s | None \<Rightarrow> []))
      (str_update ''path'' (ZStr (case cl_path l of Some s \<Rightarrow> cstr s | None \<Rightarrow> []))
       (str_update ''max-age'' (ZLong (cl_max_age l))
        (str_update ''expires'' (ZLong (cl_expires l))
         (str_update ''flags'' (ZLong (sint (cl_flags l)))
          (str_update ''extras'' (zarr (array_copy (cl_extras l) zend_hash_init))
           (str_update ''cookies'' (zarr (array_copy (cl_cookies l) zend_hash_init)) ht))))))"

text \<open>\<open>sub_array\<close>: a copy of an element that is an array; \<open>numeric\<close>: a number or a string that holds one.\<close>

definition sub_array :: "hashtable \<Rightarrow> bytes \<Rightarrow> hashtable" where
  "sub_array ht k =
     (case zend_hash_find ht (KStr k) of Some (ZArr n es) \<Rightarrow> array_copy (n, es) zend_hash_init | _ \<Rightarrow> zend_hash_init)"

definition numeric :: "cookie_env \<Rightarrow> (bytes \<Rightarrow> int) \<Rightarrow> zval option \<Rightarrow> int" where
  "numeric env fallback v =
     (case v of
        None \<Rightarrow> -1
      | Some (ZLong i) \<Rightarrow> i
      | Some w \<Rightarrow> (case ce_is_numeric env (zval_get_string w) of Some i \<Rightarrow> i | None \<Rightarrow> fallback (zval_get_string w)))"

definition php_http_cookie_list_from_struct :: "cookie_env \<Rightarrow> hashtable \<Rightarrow> php_http_cookie_list" where
  "php_http_cookie_list_from_struct env ht =
     \<lparr>cl_cookies = sub_array ht ''cookies'', cl_extras = sub_array ht ''extras'',
      cl_flags = (case zend_hash_find ht (KStr ''flags'') of Some v \<Rightarrow> word_of_int (zval_get_long (ce_str_long env) v) | None \<Rightarrow> 0),
      cl_path = map_option zval_get_string (zend_hash_find ht (KStr ''path'')),
      cl_domain = map_option zval_get_string (zend_hash_find ht (KStr ''domain'')),
      cl_expires = numeric env (\<lambda>s. ce_parse_date env (cstr s)) (zend_hash_find ht (KStr ''expires'')),
      cl_max_age = numeric env (\<lambda>s. -1) (zend_hash_find ht (KStr ''max-age''))\<rparr>"

section \<open>Printing\<close>

definition append_encoded :: "cookie_env \<Rightarrow> bytes \<Rightarrow> bytes \<Rightarrow> bytes" where
  "append_encoded env key val =
     pe_raw_url_encode (ce_params env) key @ ''='' @ pe_raw_url_encode (ce_params env) val @ ''; ''"

definition entries_to_string :: "cookie_env \<Rightarrow> hashtable \<Rightarrow> bytes" where
  "entries_to_string env ht =
     concat (map (\<lambda>(k, v). append_encoded env (php_http_arrkey_stringify k) (zval_get_string v)) (live ht))"

definition nonempty_string :: "bytes option \<Rightarrow> bytes option" where
  "nonempty_string s = (case s of Some t \<Rightarrow> if cstr t = [] then None else Some (cstr t) | None \<Rightarrow> None)"

definition attribute :: "bytes \<Rightarrow> bytes option \<Rightarrow> bytes" where
  "attribute name v = (case v of Some s \<Rightarrow> name @ ''='' @ s @ ''; '' | None \<Rightarrow> [])"

definition php_http_cookie_list_to_string :: "cookie_env \<Rightarrow> php_http_cookie_list \<Rightarrow> bytes" where
  "php_http_cookie_list_to_string env l =
     entries_to_string env (cl_cookies l) @
     attribute ''domain'' (nonempty_string (cl_domain l)) @
     attribute ''path'' (nonempty_string (cl_path l)) @
     attribute ''expires'' (if 0 \<le> cl_expires l then Some (cstr (ce_format_date env (cl_expires l))) else None) @
     attribute ''max-age'' (if 0 \<le> cl_max_age l then Some (print_long (cl_max_age l)) else None) @
     entries_to_string env (cl_extras l) @
     (if cl_flags l AND PHP_HTTP_COOKIE_SECURE \<noteq> 0 then ''secure; '' else []) @
     (if cl_flags l AND PHP_HTTP_COOKIE_HTTPONLY \<noteq> 0 then ''httpOnly; '' else [])"

section \<open>Methods\<close>

text \<open>
  The methods of the class act on the list of the object, which they create when it is missing
  (\<open>PHP_HTTP_COOKIE_OBJECT_INIT\<close>). The constructor takes an array or something that is read as a string.
\<close>

definition PHP_HTTP_COOKIE_OBJECT_INIT :: "php_http_cookie_list option \<Rightarrow> php_http_cookie_list" where
  "PHP_HTTP_COOKIE_OBJECT_INIT l = (case l of Some l \<Rightarrow> l | None \<Rightarrow> php_http_cookie_list_init)"

definition cookie_construct ::
  "cookie_env \<Rightarrow> zval option \<Rightarrow> 64 word \<Rightarrow> hashtable option \<Rightarrow> php_http_cookie_list option" where
  "cookie_construct env zcookie flags allowed =
     (case zcookie of
        None \<Rightarrow> Some php_http_cookie_list_init
      | Some (ZArr n es) \<Rightarrow> Some (php_http_cookie_list_from_struct env (n, es))
      | Some v \<Rightarrow>
          php_http_cookie_list_parse env (zval_get_string v) flags
            (case allowed of Some ht \<Rightarrow> map (\<lambda>(k, v). cstr (zval_get_string v)) (live ht) | None \<Rightarrow> []))"

definition cookie_getCookies :: "php_http_cookie_list \<Rightarrow> hashtable" where
  "cookie_getCookies l = array_copy (cl_cookies l) zend_hash_init"

definition cookie_setCookies :: "hashtable option \<Rightarrow> php_http_cookie_list \<Rightarrow> php_http_cookie_list" where
  "cookie_setCookies cookies l =
     l\<lparr>cl_cookies := (case cookies of Some ht \<Rightarrow> array_copy_strings ht zend_hash_init | None \<Rightarrow> zend_hash_init)\<rparr>"

definition cookie_addCookies :: "hashtable \<Rightarrow> php_http_cookie_list \<Rightarrow> php_http_cookie_list" where
  "cookie_addCookies cookies l =
     l\<lparr>cl_cookies := array_join cookies (cl_cookies l) True (ARRAY_JOIN_STRONLY OR ARRAY_JOIN_STRINGIFY)\<rparr>"

definition cookie_getExtras :: "php_http_cookie_list \<Rightarrow> hashtable" where
  "cookie_getExtras l = array_copy (cl_extras l) zend_hash_init"

definition cookie_setExtras :: "hashtable option \<Rightarrow> php_http_cookie_list \<Rightarrow> php_http_cookie_list" where
  "cookie_setExtras extras l =
     l\<lparr>cl_extras := (case extras of Some ht \<Rightarrow> array_copy_strings ht zend_hash_init | None \<Rightarrow> zend_hash_init)\<rparr>"

definition cookie_addExtras :: "hashtable \<Rightarrow> php_http_cookie_list \<Rightarrow> php_http_cookie_list" where
  "cookie_addExtras extras l =
     l\<lparr>cl_extras := array_join extras (cl_extras l) True (ARRAY_JOIN_STRONLY OR ARRAY_JOIN_STRINGIFY)\<rparr>"

definition cookie_getCookie :: "bytes \<Rightarrow> php_http_cookie_list \<Rightarrow> zval" where
  "cookie_getCookie name l = (case php_http_cookie_list_get_cookie l name of Some s \<Rightarrow> ZStr s | None \<Rightarrow> ZNull)"

definition cookie_setCookie :: "bytes \<Rightarrow> bytes option \<Rightarrow> php_http_cookie_list \<Rightarrow> php_http_cookie_list" where
  "cookie_setCookie name v l =
     (case v of None \<Rightarrow> php_http_cookie_list_del_cookie l name | Some s \<Rightarrow> php_http_cookie_list_add_cookie l name s)"

definition cookie_addCookie :: "bytes \<Rightarrow> bytes \<Rightarrow> php_http_cookie_list \<Rightarrow> php_http_cookie_list" where
  "cookie_addCookie name v l = php_http_cookie_list_add_cookie l name v"

definition cookie_getExtra :: "bytes \<Rightarrow> php_http_cookie_list \<Rightarrow> zval" where
  "cookie_getExtra name l = (case php_http_cookie_list_get_extra l name of Some s \<Rightarrow> ZStr s | None \<Rightarrow> ZNull)"

definition cookie_setExtra :: "bytes \<Rightarrow> bytes option \<Rightarrow> php_http_cookie_list \<Rightarrow> php_http_cookie_list" where
  "cookie_setExtra name v l =
     (case v of None \<Rightarrow> php_http_cookie_list_del_extra l name | Some s \<Rightarrow> php_http_cookie_list_add_extra l name s)"

definition cookie_addExtra :: "bytes \<Rightarrow> bytes \<Rightarrow> php_http_cookie_list \<Rightarrow> php_http_cookie_list" where
  "cookie_addExtra name v l = php_http_cookie_list_add_extra l name v"

definition cookie_getDomain :: "php_http_cookie_list \<Rightarrow> zval" where
  "cookie_getDomain l = (case cl_domain l of Some s \<Rightarrow> ZStr (cstr s) | None \<Rightarrow> ZNull)"

definition cookie_setDomain :: "bytes option \<Rightarrow> php_http_cookie_list \<Rightarrow> php_http_cookie_list" where
  "cookie_setDomain v l = l\<lparr>cl_domain := v\<rparr>"

definition cookie_getPath :: "php_http_cookie_list \<Rightarrow> zval" where
  "cookie_getPath l = (case cl_path l of Some s \<Rightarrow> ZStr (cstr s) | None \<Rightarrow> ZNull)"

definition cookie_setPath :: "bytes option \<Rightarrow> php_http_cookie_list \<Rightarrow> php_http_cookie_list" where
  "cookie_setPath v l = l\<lparr>cl_path := v\<rparr>"

definition cookie_setExpires :: "int \<Rightarrow> php_http_cookie_list \<Rightarrow> php_http_cookie_list" where
  "cookie_setExpires ts l = l\<lparr>cl_expires := ts\<rparr>"

definition cookie_setMaxAge :: "int \<Rightarrow> php_http_cookie_list \<Rightarrow> php_http_cookie_list" where
  "cookie_setMaxAge ma l = l\<lparr>cl_max_age := ma\<rparr>"

definition cookie_setFlags :: "64 word \<Rightarrow> php_http_cookie_list \<Rightarrow> php_http_cookie_list" where
  "cookie_setFlags flags l = l\<lparr>cl_flags := flags\<rparr>"

definition cookie_toArray :: "php_http_cookie_list \<Rightarrow> hashtable" where
  "cookie_toArray l = php_http_cookie_list_to_struct l zend_hash_init"

end
