(* ===== verification/Http_Params_Loop.thy ===== *)
theory Http_Params_Loop
  imports Http_Params
begin

text \<open>
  The rounds of the parser of parameter lists for separators that are single bytes: quotes and escapes
  are tracked, bytes that are no separators are passed over, and a separator pushes the pending token.
\<close>

section \<open>Quotes and separators\<close>

text \<open>Quotes and escapes while reading, as a pair.\<close>

definition track :: "char \<Rightarrow> bool \<times> bool \<Rightarrow> bool \<times> bool" where
  "track c = (\<lambda>(q, e). if c = DQUOTE \<and> \<not> e then (\<not> q, e) else (q, c = BSLASH))"

text \<open>Bytes in which no separator of \<open>S\<close> is visible.\<close>

fun inert :: "bytes \<Rightarrow> bytes \<Rightarrow> bool \<times> bool \<Rightarrow> bool" where
  "inert S [] s = True"
| "inert S (c # r) s = (let s' = track c s in (fst s' \<or> snd s' \<or> c \<notin> set S) \<and> inert S r s')"

lemma inert_append: "inert S (a @ b) s = (inert S a s \<and> inert S b (fold track a s))"
  by (induction a arbitrary: s) (simp_all add: Let_def)

text \<open>Bytes that hide their separators and leave no quote open.\<close>

definition closed :: "bytes \<Rightarrow> bytes \<Rightarrow> bool" where
  "closed S X \<longleftrightarrow> inert S X (False, False) \<and> fold track X (False, False) = (False, False)"

lemma plain_closed:
  assumes "\<forall>c\<in>set X. c \<notin> {DQUOTE, BSLASH} \<union> set S"
  shows "closed S X"
  using assms unfolding closed_def by (induction X) (auto simp: track_def Let_def)

section \<open>Rounds\<close>

text \<open>Options whose separators are single bytes, without links.\<close>

definition char_opts :: "php_http_params_opts \<Rightarrow> bytes \<Rightarrow> bytes \<Rightarrow> bytes \<Rightarrow> bool" where
  "char_opts opts ps as vs \<longleftrightarrow>
     opts_param opts = map (\<lambda>c. [c]) ps \<and> opts_arg opts = map (\<lambda>c. [c]) as \<and> opts_val opts = map (\<lambda>c. [c]) vs \<and>
     opts_flags opts AND PHP_HTTP_PARAMS_RFC5988 = 0 \<and> set (ps @ as @ vs) \<inter> {DQUOTE, BSLASH} = {}"

definition clean :: "php_http_params_state \<Rightarrow> bool" where
  "clean st \<longleftrightarrow> \<not> ps_quotes st \<and> \<not> ps_escape st \<and> \<not> ps_rfc5987 st"

text \<open>No separator of \<open>S\<close> at the beginning.\<close>

definition sep_free :: "bytes \<Rightarrow> bytes \<Rightarrow> bool" where
  "sep_free S s \<longleftrightarrow> s = [] \<or> hd s \<notin> set S"

lemma sep_free_Nil [simp]: "sep_free [] s" "sep_free S []"
  by (simp_all add: sep_free_def)

lemma find_chars: "find (check_str s) (map (\<lambda>c. [c]) S) = (if s \<noteq> [] \<and> hd s \<in> set S then Some [hd s] else None)"
  by (induction S) (cases s; auto simp: check_str_def)+

lemma check_sep_char:
  assumes "ps_pos st < length input"
  shows "check_sep st input (map (\<lambda>c. [c]) S) = (if ps_quotes st \<or> ps_escape st then 0 else if input ! ps_pos st \<in> set S then 1 else 0)"
  using assms by (simp add: check_sep_def find_chars hd_drop_conv_nth)

lemma skip_free:
  assumes "sep_free S s"
  shows "skip_loop (map (\<lambda>c. [c]) S) s = s"
  using assms by (subst skip_loop.simps) (auto simp: find_chars sep_free_def)

lemma skip_sep_free:
  assumes "\<not> ps_quotes st" "\<not> ps_escape st" "ps_pos st + n \<le> length input" "sep_free S (drop (ps_pos st + n) input)"
  shows "skip_sep n st input (map (\<lambda>c. [c]) S) = st\<lparr>ps_pos := ps_pos st + n\<rparr>"
  using assms by (simp add: skip_sep_def skip_free Let_def)

lemma track_default:
  "flags AND PHP_HTTP_PARAMS_RFC5988 = 0 \<Longrightarrow> params_track flags c st =
     st\<lparr>ps_quotes := fst (track c (ps_quotes st, ps_escape st)), ps_escape := snd (track c (ps_quotes st, ps_escape st))\<rparr>"
  by (auto simp: params_track_def track_def)

text \<open>What the parser relies on when it meets separators: they are single bytes and no quotes.\<close>

locale char_separators =
  fixes opts :: php_http_params_opts and ps as vs S :: bytes
  assumes char_opts: "char_opts opts ps as vs" and S: "set S = set (ps @ as @ vs)"
begin

lemma opts_seps:
  "opts_param opts = map (\<lambda>c. [c]) ps" "opts_arg opts = map (\<lambda>c. [c]) as" "opts_val opts = map (\<lambda>c. [c]) vs"
  "opts_flags opts AND PHP_HTTP_PARAMS_RFC5988 = 0"
  using char_opts by (simp_all add: char_opts_def)

lemma loop_char:
  assumes "ps_pos st < length (opts_input opts)" "ps_param st \<noteq> None"
    "track (opts_input opts ! ps_pos st) (ps_quotes st, ps_escape st) = (q, e)" "q \<or> e \<or> opts_input opts ! ps_pos st \<notin> set S"
  shows "params_loop env opts P st = params_loop env opts P (st\<lparr>ps_pos := ps_pos st + 1, ps_quotes := q, ps_escape := e\<rparr>)"
proof -
  obtain p where p: "ps_param st = Some p" using assms(2) by blast
  have "params_step env opts P st = Some (P, st\<lparr>ps_pos := ps_pos st + 1, ps_quotes := q, ps_escape := e\<rparr>)"
    using assms(1,3,4) p S opts_seps(4) by (auto simp: params_step_def track_default check_sep_char params_next_def opts_seps(1-3) Let_def split: if_splits)
  then show ?thesis using assms(1) by (subst params_loop.simps) simp
qed

lemma loop_run:
  assumes "opts_input opts = A @ X @ B" "ps_pos st = length A" "ps_param st \<noteq> None" "inert S X (ps_quotes st, ps_escape st)"
    "fold track X (ps_quotes st, ps_escape st) = (q, e)"
  shows "params_loop env opts P st = params_loop env opts P (st\<lparr>ps_pos := length (A @ X), ps_quotes := q, ps_escape := e\<rparr>)"
  using assms
proof (induction X arbitrary: A st)
  case (Cons c X)
  obtain q' e' where t: "track c (ps_quotes st, ps_escape st) = (q', e')" by force
  have "params_loop env opts P st = params_loop env opts P (st\<lparr>ps_pos := ps_pos st + 1, ps_quotes := q', ps_escape := e'\<rparr>)"
    using Cons.prems t by (intro loop_char) (auto simp: Let_def)
  also have "\<dots> = params_loop env opts P
      (st\<lparr>ps_pos := ps_pos st + 1, ps_quotes := q', ps_escape := e'\<rparr>\<lparr>ps_pos := length ((A @ [c]) @ X), ps_quotes := q, ps_escape := e\<rparr>)"
    using Cons.prems t by (intro Cons.IH) (auto simp: Let_def)
  finally show ?case by simp
next
  case Nil
  then have "st\<lparr>ps_pos := length (A @ []), ps_quotes := q, ps_escape := e\<rparr> = st" by (cases st) simp
  then show ?case by simp
qed

lemma loop_closed:
  assumes "opts_input opts = A @ X @ B" "ps_pos st = length A" "ps_param st \<noteq> None" "clean st" "closed S X"
  shows "params_loop env opts P st = params_loop env opts P (st\<lparr>ps_pos := length (A @ X)\<rparr>)"
proof -
  have "params_loop env opts P st = params_loop env opts P (st\<lparr>ps_pos := length (A @ X), ps_quotes := False, ps_escape := False\<rparr>)"
    using assms by (intro loop_run) (auto simp: clean_def closed_def)
  moreover have "st\<lparr>ps_pos := n, ps_quotes := False, ps_escape := False\<rparr> = st\<lparr>ps_pos := n\<rparr>" for n
    using assms(4) by (cases st) (simp add: clean_def)
  ultimately show ?thesis by simp
qed

lemma track_clean: "clean st \<Longrightarrow> c \<in> set S \<Longrightarrow> params_track (opts_flags opts) c st = st"
  using char_opts S opts_seps(4) by (cases st) (auto simp: track_default track_def clean_def char_opts_def split: if_splits)

text \<open>What a separator does once the pending token has been pushed.\<close>

lemma loop_sep:
  assumes "opts_input opts = A @ c # B" "ps_pos st = length A" "ps_param st \<noteq> None" "clean st"
    "push_param env opts P st = Some (Q, st2)" "clean st2" "ps_pos st2 = length A"
  shows "c \<in> set ps \<Longrightarrow> sep_free S B \<Longrightarrow> params_loop env opts P st =
           params_loop env opts Q (st2\<lparr>ps_pos := length A + 1, ps_param := Some (length A + 1), ps_arg := None, ps_val := None\<rparr>)"
    and "c \<in> set as - set ps \<Longrightarrow> sep_free (as @ vs) B \<Longrightarrow> params_loop env opts P st =
           params_loop env opts Q (st2\<lparr>ps_pos := length A + 1, ps_arg := Some (length A + 1), ps_val := None\<rparr>)"
    and "c \<in> set vs - set as - set ps \<Longrightarrow> sep_free vs B \<Longrightarrow> ps_val st = None \<Longrightarrow> params_loop env opts P st =
           params_loop env opts Q (st2\<lparr>ps_pos := length A + 1, ps_val := Some (length A + 1)\<rparr>)"
proof -
  have skip: "skip_sep (Suc 0) st2 (opts_input opts) (map (\<lambda>c. [c]) sp) = st2\<lparr>ps_pos := length A + 1\<rparr>" if "sep_free sp B" for sp
    using assms that skip_sep_free [of st2 1 "opts_input opts" sp] by (simp add: clean_def)
  note step = params_step_def Let_def check_sep_char skip opts_seps(1-3) map_append [symmetric]
  have at: "opts_input opts ! length A = c" "length A < length (opts_input opts)" using assms(1) by auto
  obtain p where p: "ps_param st = Some p" using assms(3) by blast
  have tracks: "params_track (opts_flags opts) d st = st" if "d \<in> set (ps @ as @ vs)" for d
    using track_clean [OF assms(4), of d] that S by simp
  note given = at p assms(2,4,5) assms(4) [unfolded clean_def]
  have S': "sep_free S B \<Longrightarrow> sep_free (ps @ as @ vs) B" using S by (auto simp: sep_free_def)
  show "c \<in> set ps \<Longrightarrow> sep_free S B \<Longrightarrow> params_loop env opts P st =
           params_loop env opts Q (st2\<lparr>ps_pos := length A + 1, ps_param := Some (length A + 1), ps_arg := None, ps_val := None\<rparr>)"
    using given S' by (subst params_loop.simps) (simp add: step tracks del: map_append)
  show "c \<in> set as - set ps \<Longrightarrow> sep_free (as @ vs) B \<Longrightarrow> params_loop env opts P st =
           params_loop env opts Q (st2\<lparr>ps_pos := length A + 1, ps_arg := Some (length A + 1), ps_val := None\<rparr>)"
    using given by (subst params_loop.simps) (simp add: step tracks del: map_append)
  show "c \<in> set vs - set as - set ps \<Longrightarrow> sep_free vs B \<Longrightarrow> ps_val st = None \<Longrightarrow> params_loop env opts P st =
           params_loop env opts Q (st2\<lparr>ps_pos := length A + 1, ps_val := Some (length A + 1)\<rparr>)"
    using given by (subst params_loop.simps) (simp add: step tracks del: map_append)
qed

text \<open>The first round.\<close>

lemma loop_first:
  assumes "opts_input opts = input" "input \<noteq> []" "track (hd input) (False, False) = (q, e)" "q \<or> e \<or> hd input \<notin> set S"
  shows "params_loop env opts P params_state_init = params_loop env opts P (params_state_init\<lparr>ps_param := Some 0\<rparr>)"
proof -
  have pos: "input ! 0 = hd input" "0 < length input" using assms(2) by (simp_all add: hd_conv_nth)
  let ?st = "params_state_init\<lparr>ps_quotes := q, ps_escape := e\<rparr>"
  have "skip_sep 0 ?st input (map (\<lambda>c. [c]) (ps @ as @ vs)) = ?st"
  proof (cases "q \<or> e")
    case True
    then show ?thesis by (simp add: skip_sep_def params_state_init_def Let_def)
  next
    case False
    then have "skip_sep 0 ?st input (map (\<lambda>c. [c]) (ps @ as @ vs)) = ?st\<lparr>ps_pos := ps_pos ?st + 0\<rparr>"
      using assms(4) S by (intro skip_sep_free) (auto simp: params_state_init_def sep_free_def)
    then show ?thesis by simp
  qed
  then have "params_step env opts P params_state_init = Some (P, ?st\<lparr>ps_param := Some 0, ps_pos := 1\<rparr>)"
    using assms(1,3) pos opts_seps by (simp add: params_step_def track_default params_state_init_def params_next_def Let_def)
  then have "params_loop env opts P params_state_init = params_loop env opts P (?st\<lparr>ps_param := Some 0, ps_pos := 1\<rparr>)"
    using assms(1) pos(2) by (subst params_loop.simps) (simp add: params_state_init_def)
  also have "\<dots> = params_loop env opts P (params_state_init\<lparr>ps_param := Some 0\<rparr>)"
    using loop_char [of "params_state_init\<lparr>ps_param := Some 0\<rparr>" q e env P] pos assms by (simp add: params_state_init_def)
  finally show ?thesis .
qed

end

end
