(* ===== verification/Http_Params_Read.thy ===== *)
theory Http_Params_Read
  imports Http_Params_Loop
begin

text \<open>
  How the parser of parameter lists reads a text: the positions at which it stops, what is pending there,
  and the table it has filled. The texts of names and values are any bytes that hide separators and that
  are sanitised to the name or value; printed parameters and cookies are instances.
\<close>

section \<open>Tables of parameters\<close>

type_synonym arg = "bytes \<times> bytes option"

definition val_zval :: "bytes option \<Rightarrow> zval" where
  "val_zval v = (case v of None \<Rightarrow> ZBool True | Some s \<Rightarrow> ZStr s)"

definition args_table :: "arg list \<Rightarrow> hashtable" where
  "args_table as = fold (\<lambda>(k, v) ht. zend_hash_update ht (symtable_key k) (val_zval v)) as zend_hash_init"

definition param_table :: "bytes option \<Rightarrow> arg list \<Rightarrow> hashtable" where
  "param_table v as =
     zend_hash_update (zend_hash_update zend_hash_init (KStr ''value'') (val_zval v)) (KStr ''arguments'') (zarr (args_table as))"

definition params_table :: "(arg \<times> arg list) list \<Rightarrow> hashtable" where
  "params_table ps =
     fold (\<lambda>((k, v), as) ht. zend_hash_update ht (symtable_key k) (zarr (param_table v as))) ps zend_hash_init"

section \<open>Keys\<close>

lemma isdigit_chr:
  assumes "isdigit c"
  obtains d where "d < 10" "c = digit_chr d" "digit_val c = Some d"
proof
  have r: "48 \<le> uchar c" "uchar c \<le> 57" using assms by (auto simp: isdigit_def)
  then show lt: "uchar c - 48 < 10" by simp
  show "digit_val c = Some (uchar c - 48)" using assms by (simp add: digit_val_def)
  show "c = digit_chr (uchar c - 48)" using r lt by (simp add: digit_chr_def)
qed

lemma digits_val_dec:
  assumes "ds \<noteq> []" "\<forall>c\<in>set ds. isdigit c" "hd ds = CHR ''0'' \<longrightarrow> ds = ''0''"
  shows "dec (digits_val 10 ds) = ds"
  using assms
proof (induction ds rule: rev_induct)
  case (snoc c ds)
  from snoc.prems(2) obtain d where d: "d < 10" "c = digit_chr d" "digit_val c = Some d" by (auto elim: isdigit_chr)
  have v: "digits_val 10 (ds @ [c]) = digits_val 10 ds * 10 + d" by (simp add: digits_val_def d(3))
  show ?case
  proof (cases ds)
    case Nil
    then show ?thesis using d by (subst print_num.simps) (simp add: digits_val_def)
  next
    case (Cons e r)
    then have hd: "hd ds \<noteq> CHR ''0''" using snoc.prems(3) by auto
    have ds: "dec (digits_val 10 ds) = ds" using snoc Cons hd by simp
    have "digits_val 10 ds \<noteq> 0"
    proof
      assume "digits_val 10 ds = 0"
      then have "ds = [digit_chr 0]" using ds by (simp add: print_num.simps)
      then show False using hd by (simp add: digit_chr_0)
    qed
    then show ?thesis unfolding v using d ds by (subst print_num.simps) simp
  qed
qed simp

lemma stringify_symtable [simp]: "php_http_arrkey_stringify (symtable_key s) = s"
proof (cases "numeric_key s")
  case None
  then show ?thesis by (simp add: symtable_key_def php_http_arrkey_stringify_def)
next
  case (Some i)
  define neg where "neg = (s \<noteq> [] \<and> hd s = CHR ''-'')"
  define ds where "ds = (if neg then tl s else s)"
  have ds: "ds \<noteq> []" "\<forall>c\<in>set ds. isdigit c" "hd ds = CHR ''0'' \<longrightarrow> ds = ''0'' \<and> \<not> neg"
    and i: "i = (if neg then - int (digits_val 10 ds) else int (digits_val 10 ds))"
    using Some unfolding numeric_key_def Let_def neg_def [symmetric] ds_def [symmetric] by (auto split: if_splits)
  have dec: "dec (digits_val 10 ds) = ds" using ds by (intro digits_val_dec) auto
  show ?thesis
  proof (cases neg)
    case True
    then have "0 < digits_val 10 ds"
      using dec ds(3) by (cases "digits_val 10 ds = 0") (auto simp: print_num.simps digit_chr_0)
    moreover have "s = CHR ''-'' # ds" using True by (cases s) (auto simp: ds_def neg_def)
    ultimately show ?thesis using Some i dec True
      by (simp add: symtable_key_def php_http_arrkey_stringify_def print_long_def)
  next
    case False
    then show ?thesis using Some i dec ds_def by (simp add: symtable_key_def php_http_arrkey_stringify_def print_long_def)
  qed
qed

lemma symtable_key_inject [simp]: "symtable_key s = symtable_key t \<longleftrightarrow> s = t"
  by (metis stringify_symtable)

lemma distinct_symtable_keys: "distinct (map (symtable_key \<circ> f) xs) = distinct (map f xs)"
  by (auto simp: distinct_map inj_on_def)

section \<open>Default options\<close>

text \<open>The separators, with or without the comma between parameters.\<close>

definition seps :: "bool \<Rightarrow> bytes" where
  "seps comma = (if comma then '',;='' else '';='')"

definition dopts :: "bool \<Rightarrow> bytes \<Rightarrow> php_http_params_opts" where
  "dopts comma input = php_http_params_opts_default_get\<lparr>opts_input := input, opts_param := (if comma then ['',''] else [])\<rparr>"

lemma dopts_simps [simp]:
  "opts_input (dopts comma input) = input" "opts_param (dopts comma input) = (if comma then ['',''] else [])" "opts_arg (dopts comma input) = ['';'']"
  "opts_val (dopts comma input) = [''='']" "opts_defval (dopts comma input) = None" "opts_flags (dopts comma input) = PHP_HTTP_PARAMS_DEFAULT"
  by (simp_all add: dopts_def php_http_params_opts_default_get_def)

lemma default_flags [simp]:
  "PHP_HTTP_PARAMS_DEFAULT AND PHP_HTTP_PARAMS_ESCAPED \<noteq> 0" "PHP_HTTP_PARAMS_DEFAULT AND PHP_HTTP_PARAMS_RFC5987 \<noteq> 0"
  "PHP_HTTP_PARAMS_DEFAULT AND PHP_HTTP_PARAMS_URLENCODED = 0" "PHP_HTTP_PARAMS_DEFAULT AND PHP_HTTP_PARAMS_DIMENSION = 0"
  "PHP_HTTP_PARAMS_DEFAULT AND PHP_HTTP_PARAMS_RFC5988 = 0"
  by code_simp+

interpretation dopts: char_separators "dopts comma input" "if comma then '','' else []" "'';''" "''=''" "seps comma" for comma input
  by unfold_locales (auto simp: char_opts_def seps_def)

lemmas dopts_closed = dopts.loop_closed [unfolded dopts_simps]
lemmas dopts_sep = dopts.loop_sep [unfolded dopts_simps]

section \<open>Items\<close>

text \<open>Texts that are read as the name \<open>k\<close>, as the value \<open>s\<close>, and as an item of both.\<close>

definition reads_key :: "params_env \<Rightarrow> bool \<Rightarrow> bytes \<Rightarrow> bytes \<Rightarrow> bool" where
  "reads_key env comma X k \<longleftrightarrow> closed (seps comma) X \<and> X \<noteq> [] \<and> hd X \<notin> set '',;='' \<and>
     sanitize_key env PHP_HTTP_PARAMS_DEFAULT X = Some (ZStr k, False) \<and> k \<noteq> []"

definition reads_val :: "params_env \<Rightarrow> bool \<Rightarrow> bytes \<Rightarrow> bytes \<Rightarrow> bool" where
  "reads_val env comma X s \<longleftrightarrow> closed (seps comma) X \<and>
     (if X = [] then s = [] else hd X \<noteq> CHR ''='' \<and> sanitize_value env PHP_HTTP_PARAMS_DEFAULT X False = Some (ZStr s))"

definition reads :: "params_env \<Rightarrow> bool \<Rightarrow> bytes \<Rightarrow> arg \<Rightarrow> bool" where
  "reads env comma T a \<longleftrightarrow> (case a of (k, v) \<Rightarrow>
     (case v of None \<Rightarrow> reads_key env comma T k
      | Some s \<Rightarrow> \<exists>X Y. T = X @ CHR ''='' # Y \<and> reads_key env comma X k \<and> reads_val env comma Y s))"

lemma readsE:
  assumes "reads env comma T (k, v)"
  obtains X Y where "reads_key env comma X k"
    "T = X @ (case v of None \<Rightarrow> [] | Some s \<Rightarrow> CHR ''='' # Y)" "\<And>s. v = Some s \<Longrightarrow> reads_val env comma Y s"
  using assms by (cases v) (auto simp: reads_def)

lemma slice_mid: "input = A @ X @ B \<Longrightarrow> slice input (length A) (length (A @ X)) = X"
  by (simp add: slice_def)

text \<open>
  A state in which a token is pending: pushing it gives the table \<open>Q\<close>, and the arguments that follow
  belong to the parameter \<open>K\<close>.
\<close>

definition pending ::
  "params_env \<Rightarrow> bool \<Rightarrow> bytes \<Rightarrow> hashtable \<Rightarrow> php_http_params_state \<Rightarrow> nat \<Rightarrow> hashtable \<Rightarrow> zkey \<Rightarrow> bool" where
  "pending env comma input P st n Q K \<longleftrightarrow> clean st \<and> ps_param st \<noteq> None \<and> ps_pos st = n \<and>
     (\<exists>st2. push_param env (dopts comma input) P st = Some (Q, st2) \<and> clean st2 \<and> ps_pos st2 = n \<and> ps_param st2 \<noteq> None \<and>
        ps_cargs st2 = Some [K, KStr ''arguments''])"

lemma push_val_read:
  assumes "reads_val env comma X s" "input = A @ X @ B" "ps_val st = Some (length A)" "ps_pos st = length (A @ X)"
    "clean st" "ps_cval st = Some p"
  shows "push_param env (dopts comma input) P st = Some (store P p (ZStr s), st)"
proof -
  have same: "st\<lparr>ps_rfc5987 := False\<rparr> = st" using assms(5) by (cases st) (simp add: clean_def)
  have "length A < ps_pos st \<longleftrightarrow> X \<noteq> []" using assms(4) by simp
  then show ?thesis
    using assms(1,3-6) same slice_mid [OF assms(2)]
    by (cases "X = []") (simp_all add: push_param_def push_val_def clean_def reads_val_def)
qed

lemma item_read:
  assumes key: "reads_key env comma X k" and val: "\<And>s. v = Some s \<Longrightarrow> reads_val env comma Y s"
    and T: "T = X @ (case v of None \<Rightarrow> [] | Some s \<Rightarrow> CHR ''='' # Y)" and input: "input = A @ T @ B"
    and B: "B = [] \<or> hd B \<in> {CHR '','', CHR '';''}"
    and st: "clean st" "ps_param st \<noteq> None" "ps_pos st = length A" "ps_val st = None"
    and push: "push_param env (dopts comma input) P (st\<lparr>ps_pos := length (A @ X)\<rparr>) =
                 Some (P', st\<lparr>ps_pos := length (A @ X), ps_cval := Some p, ps_cargs := Some [K, KStr ''arguments'']\<rparr>)"
  shows "\<exists>P1 st1. params_loop env (dopts comma input) P st = params_loop env (dopts comma input) P1 st1 \<and>
           pending env comma input P1 st1 (length (A @ T)) (case v of None \<Rightarrow> P' | Some s \<Rightarrow> store P' p (ZStr s)) K"
proof -
  let ?st = "st\<lparr>ps_pos := length (A @ X)\<rparr>"
  let ?st2 = "st\<lparr>ps_pos := length (A @ X), ps_cval := Some p, ps_cargs := Some [K, KStr ''arguments'']\<rparr>"
  have closed: "closed (seps comma) X" using key by (simp add: reads_key_def)
  have run: "params_loop env (dopts comma input) P st = params_loop env (dopts comma input) P ?st"
    using input st closed T by (intro dopts_closed) auto
  show ?thesis
  proof (cases v)
    case None
    have "pending env comma input P ?st (length (A @ T)) P' K"
      using None push st T by (simp add: pending_def clean_def)
    then show ?thesis using run unfolding None option.case by blast
  next
    case (Some s)
    let ?A = "A @ X"
    let ?st3 = "?st2\<lparr>ps_pos := length ?A + 1, ps_val := Some (length ?A + 1)\<rparr>"
    let ?st4 = "?st3\<lparr>ps_pos := length ((?A @ ''='') @ Y)\<rparr>"
    have Y: "closed (seps comma) Y" "Y = [] \<or> hd Y \<noteq> CHR ''=''" using val [OF Some] by (auto simp: reads_val_def split: if_splits)
    have split: "input = ?A @ CHR ''='' # Y @ B" using input Some T by simp
    have free: "sep_free ''='' (Y @ B)"
      using Y(2) B by (cases "Y = []") (auto simp: sep_free_def)
    have "params_loop env (dopts comma input) P ?st = params_loop env (dopts comma input) P' ?st3"
      using st by (intro dopts_sep(3) [OF split _ _ _ push _ _ _ free]) (auto simp: clean_def)
    also have "\<dots> = params_loop env (dopts comma input) P' ?st4"
      using st Y(1) split by (intro dopts_closed) (auto simp: clean_def)
    finally have loop: "params_loop env (dopts comma input) P st = params_loop env (dopts comma input) P' ?st4" using run by simp
    have "push_param env (dopts comma input) P' ?st4 = Some (store P' p (ZStr s), ?st4)"
      using st split by (intro push_val_read [OF val [OF Some], where A = "?A @ ''=''" and B = B]) (auto simp: clean_def)
    then have "pending env comma input P' ?st4 (length (A @ T)) (store P' p (ZStr s)) K"
      using st Some T by (simp add: pending_def clean_def)
    then show ?thesis using loop unfolding Some option.case by blast
  qed
qed

section \<open>Tables behind pointers\<close>

lemma assoc_update_twice [simp]: "assoc_update k y (assoc_update k x es) = assoc_update k y es"
  by (induction es) auto

lemma store_update:
  "store (zend_hash_update P K x) (K # p) w = zend_hash_update P K (zv_put x p w)"
  by (simp add: store_def zarr_def zend_hash_update_def map_of_assoc_update convert_to_array_def)

lemma deref_arr_update:
  "deref_arr (zend_hash_update P K x) (K # p) = (case zv_at x p of Some (ZArr n es) \<Rightarrow> Some (n, es) | _ \<Rightarrow> None)"
  by (simp add: deref_arr_def deref_def zarr_def zend_hash_update_def map_of_assoc_update)

lemma new_param_table: "new_param (KStr ''value'') (ZBool True) = param_table None []"
  by (simp add: new_param_def param_table_def val_zval_def args_table_def)

lemma put_value:
  "zv_put (zarr (param_table v as)) [KStr ''value''] (val_zval v') = zarr (param_table v' as)"
  by (simp add: param_table_def zarr_def zend_hash_update_def zend_hash_init_def)

lemma put_arguments:
  "zv_put (zarr (param_table v as)) (KStr ''arguments'' # p) w =
     zarr (zend_hash_update (zend_hash_update zend_hash_init (KStr ''value'') (val_zval v)) (KStr ''arguments'')
       (zv_put (zarr (args_table as)) p w))"
  by (simp add: param_table_def zarr_def zend_hash_update_def zend_hash_init_def)

lemma at_arguments: "zv_at (zarr (param_table v as)) [KStr ''arguments''] = Some (zarr (args_table as))"
  by (simp add: param_table_def zarr_def zend_hash_update_def zend_hash_init_def)

lemma args_table_snoc: "args_table (as @ [(k, v)]) = zend_hash_update (args_table as) (symtable_key k) (val_zval v)"
  by (simp add: args_table_def)

lemma put_argument:
  "zv_put (zarr (args_table (as @ [(k, v)]))) [symtable_key k] (val_zval v') = zarr (args_table (as @ [(k, v')]))"
  by (simp add: args_table_snoc zarr_def zend_hash_update_def map_of_assoc_update)

lemma store_value:
  "store (zend_hash_update P K (zarr (param_table None []))) [K, KStr ''value''] (ZStr s) =
     zend_hash_update P K (zarr (param_table (Some s) []))"
  using put_value [of None "[]" "Some s"] by (simp add: store_update val_zval_def del: zv_put.simps)

lemma store_arguments:
  "store (zend_hash_update P K (zarr (param_table v as))) [K, KStr ''arguments''] (zarr (args_table as')) =
     zend_hash_update P K (zarr (param_table v as'))"
  using put_arguments [of v as "[]"] by (simp add: store_update param_table_def del: zv_put.simps(2))

lemma store_argument:
  "store (zend_hash_update P K (zarr (param_table v (as @ [(k, None)])))) [K, KStr ''arguments'', symtable_key k] (ZStr s) =
     zend_hash_update P K (zarr (param_table v (as @ [(k, Some s)])))"
  using put_arguments [of v "as @ [(k, None)]" "[symtable_key k]"] put_argument [of as k None "Some s"]
  by (simp add: store_update val_zval_def param_table_def del: zv_put.simps)

section \<open>Parameters with arguments\<close>

lemma push_new_read:
  assumes "reads_key env comma X k" "input = A @ X @ B" "ps_param st = Some (length A)" "ps_arg st = None"
    "ps_val st = None" "clean st" "ps_pos st = length (A @ X)"
  shows "push_param env (dopts comma input) P st =
           Some (zend_hash_update P (symtable_key k) (zarr (param_table None [])),
                 st\<lparr>ps_cval := Some [symtable_key k, KStr ''value''], ps_cargs := Some [symtable_key k, KStr ''arguments'']\<rparr>)"
proof -
  have same: "st\<lparr>ps_rfc5987 := False\<rparr> = st" using assms(6) by (cases st) (simp add: clean_def)
  show ?thesis
    using assms(1,3-5,7) same slice_mid [OF assms(2)]
    by (simp add: push_param_def push_new_def new_param_table reads_key_def Let_def)
qed

lemma param_read:
  assumes "reads env comma T (k, v)" "input = A @ T @ B" "B = [] \<or> hd B \<in> {CHR '','', CHR '';''}"
    "clean st" "ps_param st = Some (length A)" "ps_arg st = None" "ps_val st = None" "ps_pos st = length A"
  shows "\<exists>P1 st1. params_loop env (dopts comma input) P st = params_loop env (dopts comma input) P1 st1 \<and>
           pending env comma input P1 st1 (length (A @ T)) (zend_hash_update P (symtable_key k) (zarr (param_table v []))) (symtable_key k)"
proof -
  from assms(1) obtain X Y where XY: "reads_key env comma X k"
    "T = X @ (case v of None \<Rightarrow> [] | Some s \<Rightarrow> CHR ''='' # Y)" "\<And>s. v = Some s \<Longrightarrow> reads_val env comma Y s"
    by (rule readsE) blast
  have "push_param env (dopts comma input) P (st\<lparr>ps_pos := length (A @ X)\<rparr>) =
           Some (zend_hash_update P (symtable_key k) (zarr (param_table None [])),
                 st\<lparr>ps_pos := length (A @ X), ps_cval := Some [symtable_key k, KStr ''value''],
                    ps_cargs := Some [symtable_key k, KStr ''arguments'']\<rparr>)"
    using push_new_read [OF XY(1), of input A "drop (length (A @ X)) input" "st\<lparr>ps_pos := length (A @ X)\<rparr>" P] assms XY(2)
    by (auto simp: clean_def)
  moreover have "ps_param st \<noteq> None" using assms(5) by simp
  ultimately have "\<exists>P1 st1. params_loop env (dopts comma input) P st = params_loop env (dopts comma input) P1 st1 \<and>
           pending env comma input P1 st1 (length (A @ T))
             (case v of None \<Rightarrow> zend_hash_update P (symtable_key k) (zarr (param_table None []))
              | Some s \<Rightarrow> store (zend_hash_update P (symtable_key k) (zarr (param_table None []))) [symtable_key k, KStr ''value''] (ZStr s))
             (symtable_key k)"
    by (intro item_read [OF XY(1,3,2) assms(2-4) _ assms(8,7)])
  then show ?thesis by (cases v) (simp_all only: option.case store_value)
qed

lemma push_arg_read:
  assumes "reads_key env comma X k" "input = A @ X @ B" "ps_arg st = Some (length A)"
    "ps_val st = None" "clean st" "ps_pos st = length (A @ X)" "ps_cargs st = Some [K, KStr ''arguments'']"
  shows "push_param env (dopts comma input) (zend_hash_update P K (zarr (param_table w as))) st =
           Some (zend_hash_update P K (zarr (param_table w (as @ [(k, None)]))),
                 st\<lparr>ps_cval := Some [K, KStr ''arguments'', symtable_key k]\<rparr>)"
proof -
  have same: "st\<lparr>ps_rfc5987 := False, ps_cval := c\<rparr> = st\<lparr>ps_cval := c\<rparr>" for c
    using assms(5) by (cases st) (simp add: clean_def)
  have args: "deref_arr (zend_hash_update P K (zarr (param_table w as))) [K, KStr ''arguments''] = Some (args_table as)"
    unfolding deref_arr_update at_arguments by (simp add: zarr_def)
  have new: "zend_hash_update (args_table as) (symtable_key k) (ZBool True) = args_table (as @ [(k, None)])"
    by (simp add: args_table_snoc val_zval_def)
  show ?thesis
    using assms(1,3,4,6,7) same slice_mid [OF assms(2)]
    by (simp add: push_param_def push_arg_def args new store_arguments reads_key_def)
qed

lemma arg_read:
  assumes "reads env comma T (k, v)" "input = A @ T @ B" "B = [] \<or> hd B \<in> {CHR '','', CHR '';''}"
    "clean st" "ps_param st \<noteq> None" "ps_pos st = length A" "ps_val st = None" "ps_arg st = Some (length A)"
    "ps_cargs st = Some [K, KStr ''arguments'']"
  shows "\<exists>P1 st1. params_loop env (dopts comma input) (zend_hash_update P K (zarr (param_table w as))) st = params_loop env (dopts comma input) P1 st1 \<and>
           pending env comma input P1 st1 (length (A @ T)) (zend_hash_update P K (zarr (param_table w (as @ [(k, v)])))) K"
proof -
  let ?P = "zend_hash_update P K (zarr (param_table w as))"
    and ?P' = "zend_hash_update P K (zarr (param_table w (as @ [(k, None)])))"
  from assms(1) obtain X Y where XY: "reads_key env comma X k"
    "T = X @ (case v of None \<Rightarrow> [] | Some s \<Rightarrow> CHR ''='' # Y)" "\<And>s. v = Some s \<Longrightarrow> reads_val env comma Y s"
    by (rule readsE) blast
  have "push_param env (dopts comma input) ?P (st\<lparr>ps_pos := length (A @ X)\<rparr>) =
      Some (?P', st\<lparr>ps_pos := length (A @ X), ps_cval := Some [K, KStr ''arguments'', symtable_key k]\<rparr>)"
    using push_arg_read [OF XY(1), of input A "drop (length (A @ X)) input" "st\<lparr>ps_pos := length (A @ X)\<rparr>" K P w as] assms XY(2)
    by (auto simp: clean_def)
  also have "st\<lparr>ps_pos := length (A @ X), ps_cval := Some [K, KStr ''arguments'', symtable_key k]\<rparr> =
      st\<lparr>ps_pos := length (A @ X), ps_cval := Some [K, KStr ''arguments'', symtable_key k], ps_cargs := Some [K, KStr ''arguments'']\<rparr>"
    using assms(9) by (cases st) simp
  finally have "\<exists>P1 st1. params_loop env (dopts comma input) ?P st = params_loop env (dopts comma input) P1 st1 \<and>
           pending env comma input P1 st1 (length (A @ T))
             (case v of None \<Rightarrow> ?P' | Some s \<Rightarrow> store ?P' [K, KStr ''arguments'', symtable_key k] (ZStr s)) K"
    by (intro item_read [OF XY(1,3,2) assms(2-7)])
  then show ?thesis by (cases v) (simp_all only: option.case store_argument)
qed

text \<open>Lists of arguments and parameters.\<close>

definition args_text :: "bytes list \<Rightarrow> bytes" where
  "args_text Ts = concat (map (\<lambda>T. CHR '';'' # T) Ts)"

definition params_text :: "(bytes \<times> bytes list) list \<Rightarrow> bytes" where
  "params_text Ts = concat (map (\<lambda>(T, Us). CHR '','' # T @ args_text Us) Ts)"

abbreviation reads_args :: "params_env \<Rightarrow> bool \<Rightarrow> bytes list \<Rightarrow> arg list \<Rightarrow> bool" where
  "reads_args env comma \<equiv> list_all2 (reads env comma)"

lemma reads_free:
  assumes "reads env comma T a"
  shows "T \<noteq> []" "hd (T @ r) \<notin> set '',;=''" "sep_free '',;='' (T @ r)" "sep_free '';='' (T @ r)"
proof -
  show 1: "T \<noteq> []" using assms by (auto simp: reads_def reads_key_def split: prod.splits option.splits)
  show "hd (T @ r) \<notin> set '',;=''" using assms by (auto simp: reads_def reads_key_def split: prod.splits option.splits)
  then show "sep_free '',;='' (T @ r)" "sep_free '';='' (T @ r)"
    by (auto simp: sep_free_def)
qed

lemma args_text_hd: "B = [] \<or> hd B \<in> {CHR '','', CHR '';''} \<Longrightarrow> args_text Ts @ B = [] \<or> hd (args_text Ts @ B) \<in> {CHR '','', CHR '';''}"
  by (cases Ts) (auto simp: args_text_def)

lemma args_read:
  assumes "reads_args env comma Ts as2" "input = A @ args_text Ts @ B" "B = [] \<or> hd B \<in> {CHR '','', CHR '';''}"
    "pending env comma input P1 st1 (length A) (zend_hash_update P K (zarr (param_table w as))) K"
  shows "\<exists>P2 st2. params_loop env (dopts comma input) P1 st1 = params_loop env (dopts comma input) P2 st2 \<and>
           pending env comma input P2 st2 (length (A @ args_text Ts)) (zend_hash_update P K (zarr (param_table w (as @ as2)))) K"
  using assms
proof (induction as2 arbitrary: Ts A P1 st1 as rule: list.induct)
  case Nil
  have "Ts = []" using Nil.prems(1) by simp
  then have "args_text Ts = []" by (simp add: args_text_def)
  then show ?case using Nil.prems(4) by (metis append_Nil2)
next
  case (Cons a as2)
  obtain k v where a: "a = (k, v)" by (cases a)
  from Cons.prems(1) obtain T Us where Ts: "Ts = T # Us" "reads env comma T a" "reads_args env comma Us as2"
    by (auto simp: list_all2_Cons2)
  let ?Q = "zend_hash_update P K (zarr (param_table w as))"
  from Cons.prems(4) obtain st2 where st2: "push_param env (dopts comma input) P1 st1 = Some (?Q, st2)" "clean st2"
      "ps_pos st2 = length A" "ps_param st2 \<noteq> None" "ps_cargs st2 = Some [K, KStr ''arguments'']"
    and st1: "clean st1" "ps_param st1 \<noteq> None" "ps_pos st1 = length A"
    by (auto simp: pending_def)
  have input: "input = A @ CHR '';'' # T @ args_text Us @ B"
    using Cons.prems(2) Ts(1) by (simp add: args_text_def)
  let ?st = "st2\<lparr>ps_pos := length A + 1, ps_arg := Some (length A + 1), ps_val := None\<rparr>"
  have 1: "params_loop env (dopts comma input) P1 st1 = params_loop env (dopts comma input) ?Q ?st"
    using reads_free(4) [OF Ts(2)] by (intro dopts_sep(2) [OF input st1(3,2,1) st2(1-3)]) auto
  have "\<exists>P3 st3. params_loop env (dopts comma input) ?Q ?st = params_loop env (dopts comma input) P3 st3 \<and>
      pending env comma input P3 st3 (length ((A @ '';'') @ T)) (zend_hash_update P K (zarr (param_table w (as @ [(k, v)])))) K"
    using input st2 args_text_hd [OF Cons.prems(3)]
    by (intro arg_read [OF Ts(2) [unfolded a], where B = "args_text Us @ B"]) (auto simp: clean_def)
  then obtain P3 st3 where 3: "params_loop env (dopts comma input) ?Q ?st = params_loop env (dopts comma input) P3 st3"
      "pending env comma input P3 st3 (length (A @ CHR '';'' # T)) (zend_hash_update P K (zarr (param_table w (as @ [a])))) K"
    using a by auto
  have "\<exists>P2 st2. params_loop env (dopts comma input) P3 st3 = params_loop env (dopts comma input) P2 st2 \<and>
      pending env comma input P2 st2 (length ((A @ CHR '';'' # T) @ args_text Us)) (zend_hash_update P K (zarr (param_table w ((as @ [a]) @ as2)))) K"
    using Cons.prems(3) input by (intro Cons.IH [OF Ts(3) _ _ 3(2)]) auto
  then show ?case unfolding 1 3(1) Ts(1) by (simp add: args_text_def)
qed

lemma params_table_snoc:
  "params_table (ps @ [((k, v), as)]) = zend_hash_update (params_table ps) (symtable_key k) (zarr (param_table v as))"
  by (simp add: params_table_def)

text \<open>One parameter together with its arguments, from the state at its first byte.\<close>

lemma param_args_read:
  assumes "reads env comma T (k, v)" "reads_args env comma Us as" "input = A @ T @ args_text Us @ B"
    "B = [] \<or> hd B \<in> {CHR '','', CHR '';''}"
    "clean st" "ps_param st = Some (length A)" "ps_arg st = None" "ps_val st = None" "ps_pos st = length A"
  shows "\<exists>P1 st1. params_loop env (dopts comma input) P st = params_loop env (dopts comma input) P1 st1 \<and>
           pending env comma input P1 st1 (length (A @ T @ args_text Us))
             (zend_hash_update P (symtable_key k) (zarr (param_table v as))) (symtable_key k)"
proof -
  from param_read [OF assms(1,3) args_text_hd [OF assms(4)] assms(5-9)]
  obtain P1 st1 where 1: "params_loop env (dopts comma input) P st = params_loop env (dopts comma input) P1 st1"
    "pending env comma input P1 st1 (length (A @ T)) (zend_hash_update P (symtable_key k) (zarr (param_table v []))) (symtable_key k)"
    by blast
  from args_read [OF assms(2) _ assms(4) 1(2)] assms(3)
  show ?thesis unfolding 1(1) by auto
qed

definition reads_param :: "params_env \<Rightarrow> bool \<Rightarrow> bytes \<times> bytes list \<Rightarrow> arg \<times> arg list \<Rightarrow> bool" where
  "reads_param env comma T p \<longleftrightarrow> reads env comma (fst T) (fst p) \<and> reads_args env comma (snd T) (snd p)"

lemma params_read:
  assumes "list_all2 (reads_param env True) Ts ps2" "input = A @ params_text Ts"
    "pending env True input P1 st1 (length A) (params_table ps) K"
  shows "\<exists>P2 st2 K. params_loop env (dopts True input) P1 st1 = params_loop env (dopts True input) P2 st2 \<and>
           pending env True input P2 st2 (length input) (params_table (ps @ ps2)) K"
  using assms
proof (induction ps2 arbitrary: Ts A P1 st1 ps K rule: list.induct)
  case Nil
  have "Ts = []" using Nil.prems(1) by simp
  then have "params_text Ts = []" by (simp add: params_text_def)
  then show ?case using Nil.prems(2,3) by (metis append_Nil2)
next
  case (Cons p ps2)
  obtain k v as where p: "p = ((k, v), as)" by (metis prod.exhaust)
  from Cons.prems(1) p obtain T Us Ts' where Ts: "Ts = (T, Us) # Ts'" "reads env True T (k, v)" "reads_args env True Us as"
      "list_all2 (reads_param env True) Ts' ps2"
    by (auto simp: list_all2_Cons2 reads_param_def [of env True _ "(_, _)"])
  from Cons.prems(3) obtain st2 where st2: "push_param env (dopts True input) P1 st1 = Some (params_table ps, st2)" "clean st2"
      "ps_pos st2 = length A"
    and st1: "clean st1" "ps_param st1 \<noteq> None" "ps_pos st1 = length A"
    by (auto simp: pending_def)
  have input: "input = A @ CHR '','' # T @ args_text Us @ params_text Ts'"
    using Cons.prems(2) by (simp add: params_text_def Ts(1))
  let ?st = "st2\<lparr>ps_pos := length A + 1, ps_param := Some (length A + 1), ps_arg := None, ps_val := None\<rparr>"
  have 1: "params_loop env (dopts True input) P1 st1 = params_loop env (dopts True input) (params_table ps) ?st"
    using reads_free(3) [OF Ts(2)] by (intro dopts_sep(1) [OF input st1(3,2,1) st2(1-3)]) (auto simp: seps_def)
  have "params_text Ts' = [] \<or> hd (params_text Ts') \<in> {CHR '','', CHR '';''}"
    by (cases Ts') (auto simp: params_text_def)
  then have "\<exists>P3 st3. params_loop env (dopts True input) (params_table ps) ?st = params_loop env (dopts True input) P3 st3 \<and>
      pending env True input P3 st3 (length ((A @ '','') @ T @ args_text Us))
        (zend_hash_update (params_table ps) (symtable_key k) (zarr (param_table v as))) (symtable_key k)"
    using input st2 by (intro param_args_read [OF Ts(2,3), where B = "params_text Ts'"]) (auto simp: clean_def)
  then obtain P3 st3 where 3: "params_loop env (dopts True input) (params_table ps) ?st = params_loop env (dopts True input) P3 st3"
      "pending env True input P3 st3 (length (A @ CHR '','' # T @ args_text Us)) (params_table (ps @ [p])) (symtable_key k)"
    by (auto simp: p params_table_snoc)
  from Cons.IH [OF Ts(4) _ 3(2)] input
  show ?case unfolding 1 3(1) by auto
qed

section \<open>From the start of the input\<close>

lemma start_read:
  assumes "reads env comma T (k, v)" "reads_args env comma Us as" "input = T @ args_text Us @ B"
    "B = [] \<or> hd B \<in> {CHR '','', CHR '';''}"
  shows "\<exists>P1 st1. params_loop env (dopts comma input) zend_hash_init params_state_init = params_loop env (dopts comma input) P1 st1 \<and>
           pending env comma input P1 st1 (length (T @ args_text Us)) (params_table [((k, v), as)]) (symtable_key k)"
proof -
  obtain q e where qe: "track (hd input) (False, False) = (q, e)" by force
  have free: "q \<or> e \<or> hd input \<notin> set '',;=''" "input \<noteq> []"
    using reads_free(1,2) [OF assms(1)] assms(3) by auto
  let ?st = "params_state_init\<lparr>ps_param := Some 0\<rparr>"
  have "\<exists>P1 st1. params_loop env (dopts comma input) zend_hash_init ?st = params_loop env (dopts comma input) P1 st1 \<and>
      pending env comma input P1 st1 (length ([] @ T @ args_text Us)) (zend_hash_update zend_hash_init (symtable_key k) (zarr (param_table v as))) (symtable_key k)"
    using assms(3,4) by (intro param_args_read [OF assms(1,2), where B = B]) (auto simp: clean_def params_state_init_def)
  moreover have "q \<or> e \<or> hd input \<notin> set (seps comma)" using free(1) by (auto simp: seps_def)
  note dopts.loop_first [OF dopts_simps(1) free(2) qe this]
  ultimately show ?thesis by (simp add: params_table_def)
qed

lemma parse_pending:
  assumes "params_loop env (dopts comma input) zend_hash_init params_state_init = params_loop env (dopts comma input) P st"
    "pending env comma input P st (length input) Q K"
  shows "php_http_params_parse env None (dopts comma input) = Some Q"
proof -
  from assms(2) obtain st2 where st: "ps_pos st = length input" "push_param env (dopts comma input) P st = Some (Q, st2)"
    by (auto simp: pending_def)
  have "params_loop env (dopts comma input) P st = Some (P, st)"
    using st(1) by (subst params_loop.simps) simp
  then show ?thesis using assms(1) st(2) by (simp add: php_http_params_parse_def)
qed

lemma parse_params_text:
  assumes "reads_param env True T p" "list_all2 (reads_param env True) Ts ps"
  shows "php_http_params_parse env None (dopts True (fst T @ args_text (snd T) @ params_text Ts)) = Some (params_table (p # ps))"
proof -
  let ?A = "fst T @ args_text (snd T)"
  let ?input = "?A @ params_text Ts"
  obtain k v as where p: "p = ((k, v), as)" by (metis prod.exhaust)
  have "params_text Ts = [] \<or> hd (params_text Ts) \<in> {CHR '','', CHR '';''}"
    by (cases Ts) (auto simp: params_text_def)
  then have "\<exists>P1 st1. params_loop env (dopts True ?input) zend_hash_init params_state_init = params_loop env (dopts True ?input) P1 st1 \<and>
      pending env True ?input P1 st1 (length ?A) (params_table [((k, v), as)]) (symtable_key k)"
    using assms(1) p by (intro start_read [where B = "params_text Ts"]) (auto simp: reads_param_def)
  then obtain P1 st1 where 1: "params_loop env (dopts True ?input) zend_hash_init params_state_init = params_loop env (dopts True ?input) P1 st1"
      "pending env True ?input P1 st1 (length ?A) (params_table [p]) (symtable_key k)"
    using p by auto
  from params_read [OF assms(2) refl 1(2)] obtain P2 st2 K
    where "params_loop env (dopts True ?input) P1 st1 = params_loop env (dopts True ?input) P2 st2"
      "pending env True ?input P2 st2 (length ?input) (params_table (p # ps)) K"
    by auto
  then show ?thesis using 1(1) parse_pending [of env True ?input P2 st2] by simp
qed

end
