(* ===== verification/Http_Host.thy ===== *)
theory Http_Host
  imports Http_Params
begin

text \<open>
  Functions of the host as its manual describes them: \<open>addcslashes\<close> and \<open>stripcslashes\<close>, the encoding and
  decoding of URLs, \<open>trim\<close>. The theorems hold for all hosts that obey laws they state; these functions
  obey the laws and instantiate them.
\<close>

section \<open>C-style escapes\<close>

definition octal3 :: "nat \<Rightarrow> bytes" where
  "octal3 n = [digit_chr (n div 64), digit_chr (n div 8 mod 8), digit_chr (n mod 8)]"

definition control_letters :: "(char \<times> char) list" where
  "control_letters =
     [(CHR 0x07, CHR ''a''), (CHR 0x08, CHR ''b''), (CHR 0x09, CHR ''t''), (CHR 0x0A, CHR ''n''), (CHR 0x0B, CHR ''v''),
      (CHR 0x0C, CHR ''f''), (CHR 0x0D, CHR ''r'')]"

definition escape_char :: "char \<Rightarrow> bytes" where
  "escape_char c =
     (if uchar c < 32 then BSLASH # (case map_of control_letters c of Some l \<Rightarrow> [l] | None \<Rightarrow> octal3 (uchar c))
      else if c \<in> {CHR 0x7B, BSLASH, DQUOTE} then [BSLASH, c] else [c])"

abbreviation escape :: "bytes \<Rightarrow> bytes" where "escape s \<equiv> concat (map escape_char s)"

definition trim_chars :: bytes where "trim_chars = [SP, LF, CR, TAB, CHR 0x0B, NUL]"

fun unescape :: "bytes \<Rightarrow> bytes" where
  "unescape [] = []"
| "unescape (c # r) =
     (if c \<noteq> BSLASH then c # unescape r
      else case r of
        [] \<Rightarrow> [c]
      | d # r1 \<Rightarrow>
          (case map_of (map prod.swap control_letters) d of
             Some l \<Rightarrow> l # unescape r1
           | None \<Rightarrow>
               (case r1 of
                  e # f # r2 \<Rightarrow>
                    if isdigit d then char_of (the (digit_val d) * 64 + the (digit_val e) * 8 + the (digit_val f)) # unescape r2
                    else d # unescape r1
                | _ \<Rightarrow> d # unescape r1)))"

lemma unescape_control:
  assumes "uchar c < 32"
  shows "unescape (escape_char c @ r) = c # unescape r"
proof (cases "map_of control_letters c")
  case (Some l)
  then have "(c, l) \<in> set control_letters" by (rule map_of_SomeD)
  then show ?thesis by (auto simp: escape_char_def control_letters_def)
next
  case None
  let ?e = "uchar c div 8" and ?f = "uchar c mod 8"
  have "escape_char c = [BSLASH, CHR ''0'', digit_chr ?e, digit_chr ?f]"
    using None assms by (simp add: escape_char_def octal3_def digit_chr_0)
  moreover have "digit_val (digit_chr ?e) = Some ?e" "digit_val (digit_chr ?f) = Some ?f"
    using assms by (simp_all add: digit_val_chr)
  moreover have "digit_val CHR ''0'' = Some 0" "isdigit CHR ''0''" "map_of (map prod.swap control_letters) CHR ''0'' = None"
    by code_simp+
  ultimately show ?thesis by simp
qed

lemma unescape_escape: "unescape (escape s) = s"
proof (induction s)
  case (Cons c s)
  have "unescape (escape_char c @ r) = c # unescape r" for r
  proof (cases "uchar c < 32")
    case False
    then show ?thesis
      by (auto simp: escape_char_def control_letters_def ctype_simps split: list.split)
  qed (rule unescape_control)
  then show ?case using Cons by simp
qed simp

section \<open>URLs\<close>

definition unreserved :: "char \<Rightarrow> bool" where
  "unreserved c \<longleftrightarrow> isalnum c \<or> c \<in> set ''-._~''"

fun url_decode :: "bytes \<Rightarrow> bytes" where
  "url_decode (c # d # e # r) =
     (if c = CHR ''%'' \<and> is_digit_in 16 d \<and> is_digit_in 16 e
      then char_of (the (digit_val d) * 16 + the (digit_val e)) # url_decode r
      else (if c = CHR ''+'' then SP else c) # url_decode (d # e # r))"
| "url_decode (c # r) = (if c = CHR ''+'' then SP else c) # url_decode r"
| "url_decode [] = []"

definition raw_url_encode :: "bytes \<Rightarrow> bytes" where
  "raw_url_encode s = concat (map (\<lambda>c.
     if isalnum c \<or> c \<in> set ''-._~'' then [c]
     else [CHR ''%'', toupper (digit_chr (uchar c div 16)), toupper (digit_chr (uchar c mod 16))]) s)"

fun raw_url_decode :: "bytes \<Rightarrow> bytes" where
  "raw_url_decode [] = []"
| "raw_url_decode (c # r) =
     (if c \<noteq> CHR ''%'' then c # raw_url_decode r
      else case r of
        d # e # r1 \<Rightarrow>
          if is_digit_in 16 d \<and> is_digit_in 16 e
          then char_of (the (digit_val d) * 16 + the (digit_val e)) # raw_url_decode r1
          else c # raw_url_decode r
      | _ \<Rightarrow> c # raw_url_decode r)"

lemma hex_upper:
  assumes "n < 16"
  shows "is_digit_in 16 (toupper (digit_chr n)) \<and> digit_val (toupper (digit_chr n)) = Some n"
proof -
  have "n \<in> set [0..<16]" using assms by simp
  moreover have "list_all (\<lambda>n. is_digit_in 16 (toupper (digit_chr n)) \<and> digit_val (toupper (digit_chr n)) = Some n) [0..<16]"
    by code_simp
  ultimately show ?thesis unfolding list_all_iff by blast
qed

lemma raw_url_decode_encode: "raw_url_decode (raw_url_encode s) = s"
proof (induction s)
  case (Cons c s)
  have "uchar c div 16 < 16" "uchar c mod 16 < 16" using less_mult_imp_div_less [of "uchar c" 16 16] by auto
  note hex = hex_upper [OF this(1)] hex_upper [OF this(2)]
  show ?case
  proof (cases "isalnum c \<or> c \<in> set ''-._~''")
    case True
    then have "c \<noteq> CHR ''%''" by (auto simp: ctype_simps)
    then show ?thesis using True Cons by (simp add: raw_url_encode_def)
  next
    case False
    then show ?thesis using Cons hex by (simp add: raw_url_encode_def)
  qed
qed (simp add: raw_url_encode_def)

lemma raw_url_decode_plain: "CHR ''%'' \<notin> set s \<Longrightarrow> raw_url_decode s = s"
  by (induction s) auto

lemma url_decode_other: "c \<noteq> CHR ''%'' \<Longrightarrow> c \<noteq> CHR ''+'' \<Longrightarrow> url_decode (c # r) = c # url_decode r"
  by (cases r; cases "tl r") auto

lemma url_decode_encode: "url_decode (raw_url_encode s) = s"
proof (induction s)
  case (Cons c s)
  have "uchar c div 16 < 16" "uchar c mod 16 < 16" using less_mult_imp_div_less [of "uchar c" 16 16] by auto
  note hex = hex_upper [OF this(1)] hex_upper [OF this(2)]
  show ?case
  proof (cases "isalnum c \<or> c \<in> set ''-._~''")
    case True
    then have "c \<noteq> CHR ''%''" "c \<noteq> CHR ''+''" by (auto simp: ctype_simps)
    then show ?thesis using True Cons by (simp add: raw_url_encode_def url_decode_other)
  next
    case False
    then show ?thesis using Cons hex by (simp add: raw_url_encode_def)
  qed
qed (simp add: raw_url_encode_def)

lemma raw_url_encode_chars:
  assumes "c \<in> set (raw_url_encode s)"
  shows "unreserved c \<or> c = CHR ''%''"
proof -
  have "unreserved (toupper (digit_chr n))" if "n < 16" for n
  proof -
    have "n \<in> set [0..<16]" using that by simp
    moreover have "list_all (\<lambda>n. unreserved (toupper (digit_chr n))) [0..<16]" by code_simp
    ultimately show ?thesis unfolding list_all_iff by blast
  qed
  moreover have "uchar d div 16 < 16" "uchar d mod 16 < 16" for d using less_mult_imp_div_less [of "uchar d" 16 16] by auto
  ultimately have hex: "unreserved (toupper (digit_chr (uchar d div 16)))" "unreserved (toupper (digit_chr (uchar d mod 16)))" for d
    by blast+
  from assms obtain d where "c \<in> set (if isalnum d \<or> d \<in> set ''-._~'' then [d]
      else [CHR ''%'', toupper (digit_chr (uchar d div 16)), toupper (digit_chr (uchar d mod 16))])"
    unfolding raw_url_encode_def set_concat set_map by blast
  then have "c = d \<and> (isalnum d \<or> d \<in> set ''-._~'') \<or> c = CHR ''%'' \<or>
      c = toupper (digit_chr (uchar d div 16)) \<or> c = toupper (digit_chr (uchar d mod 16))"
    by (simp split: if_splits)
  then show ?thesis using hex [of d] by (auto simp: unreserved_def)
qed

section \<open>The sample host\<close>

definition sample_params_env :: params_env where
  "sample_params_env =
     \<lparr>pe_trim = (\<lambda>cs s. let cs = (case cs of None \<Rightarrow> trim_chars | Some cs \<Rightarrow> cs); ws = (\<lambda>c. c \<in> set cs) in
        rev (dropWhile ws (rev (dropWhile ws s)))),
      pe_stripcslashes = unescape, pe_addcslashes = (\<lambda>s cs. escape s), pe_url_decode = url_decode,
      pe_raw_url_encode = raw_url_encode, pe_max_input_nesting_level = 64\<rparr>"

lemma sample_trim:
  assumes "s = [] \<or> hd s \<notin> set trim_chars \<and> last s \<notin> set trim_chars"
  shows "pe_trim sample_params_env None s = s"
proof (cases "s = []")
  case False
  then have "dropWhile (\<lambda>c. c \<in> set trim_chars) s = s" "dropWhile (\<lambda>c. c \<in> set trim_chars) (rev s) = rev s"
    using assms by (simp_all add: dropWhile_eq_self_iff hd_rev)
  then show ?thesis by (simp add: sample_params_env_def)
qed (simp add: sample_params_env_def)

end
