(* ===== verification/Http_Params_Roundtrip.thy ===== *)
theory Http_Params_Roundtrip
  imports Http_Params_Read Http_Host
begin

text \<open>
  Results on parameter lists: what is printed with the default separators and flags is read back, and
  the inputs on which the code goes wrong.
\<close>

section \<open>The functions of the host\<close>

text \<open>
  What the code relies on: \<open>trim\<close> keeps a string without white space at its ends; \<open>addcslashes\<close> writes a
  control character as a letter or three octal digits behind a backslash and puts a backslash in front of
  the other listed characters; \<open>stripcslashes\<close> is its inverse.
\<close>

definition params_env_ok :: "params_env \<Rightarrow> bool" where
  "params_env_ok env \<longleftrightarrow>
     (\<forall>s. s = [] \<or> hd s \<notin> set trim_chars \<and> last s \<notin> set trim_chars \<longrightarrow> pe_trim env None s = s) \<and>
     (\<forall>s. pe_addcslashes env s escaped_chars = escape s) \<and>
     (\<forall>s. pe_stripcslashes env (escape s) = s)"

text \<open>
  Names are not empty and do not end in an asterisk, which marks extended names; neither names nor values
  end in a backslash.
\<close>

definition arg_ok :: "arg \<Rightarrow> bool" where
  "arg_ok a = (case a of (k, v) \<Rightarrow>
     k \<noteq> [] \<and> last k \<notin> {CHR ''*'', BSLASH} \<and> (case v of Some s \<Rightarrow> s = [] \<or> last s \<noteq> BSLASH | None \<Rightarrow> True))"

definition params_ok :: "(arg \<times> arg list) list \<Rightarrow> bool" where
  "params_ok ps \<longleftrightarrow> distinct (map (fst \<circ> fst) ps) \<and>
     (\<forall>(p, as)\<in>set ps. arg_ok p \<and> list_all arg_ok as \<and> distinct (map fst as))"

section \<open>Tokens\<close>

lemma escape_char_cases:
  obtains (control) w where "escape_char c = BSLASH # w" "w \<noteq> []" "\<forall>x\<in>set w. isalnum x" "uchar c < 32"
  | (listed) "escape_char c = [BSLASH, c]" "c \<in> {CHR 0x7B, BSLASH, DQUOTE}"
  | (plain) "escape_char c = [c]" "32 \<le> uchar c" "c \<notin> {CHR 0x7B, BSLASH, DQUOTE}"
proof (cases "uchar c < 32")
  case True
  have digit: "isalnum (digit_chr d)" if "d < 8" for d
    using that by (simp add: digit_chr_def ctype_simps)
  have "\<forall>x\<in>set (octal3 (uchar c)). isalnum x"
    using True by (auto simp: octal3_def intro!: digit)
  moreover have "isalnum l" if "map_of control_letters c = Some l" for l
    using that by (auto simp: control_letters_def ctype_simps split: if_splits)
  ultimately show ?thesis
    using True control [of "case map_of control_letters c of Some l \<Rightarrow> [l] | None \<Rightarrow> octal3 (uchar c)"]
    by (auto simp: escape_char_def octal3_def split: option.splits)
next
  case False
  then show ?thesis using listed plain by (auto simp: escape_char_def split: if_splits)
qed

lemma alnum_track: "\<forall>x\<in>set w. isalnum x \<Longrightarrow> w \<noteq> [] \<Longrightarrow> inert (seps comma) w (True, e) \<and> fold track w (True, e) = (True, False)"
proof (induction w arbitrary: e)
  case (Cons x w)
  have x: "x \<noteq> DQUOTE" "x \<noteq> BSLASH" using Cons.prems(1) by (auto simp: ctype_simps)
  then show ?case using Cons.IH [of False] Cons.prems by (cases "w = []") (auto simp: track_def)
qed simp

lemma escape_char_track:
  "inert (seps comma) (escape_char c) (True, e) \<and> fold track (escape_char c) (True, e) = (True, c = BSLASH)"
proof (cases c rule: escape_char_cases)
  case (control w)
  then show ?thesis using alnum_track [of w comma True] by (auto simp: track_def)
qed (auto simp: track_def)

lemma escape_track:
  "inert (seps comma) (escape s) (True, False) \<and> fold track (escape s) (True, False) = (True, s \<noteq> [] \<and> last s = BSLASH)"
proof (induction s rule: rev_induct)
  case (snoc c s)
  then show ?case using escape_char_track [of comma c "s \<noteq> [] \<and> last s = BSLASH"] by (simp add: inert_append)
qed simp

definition token :: "bytes \<Rightarrow> bytes" where
  "token s =
     (if length s \<noteq> length (escape s) \<or> (\<exists>c\<in>set (escape s). c \<in> set special_chars) then DQUOTE # escape s @ [DQUOTE] else s)"

lemma escape_no_NUL: "NUL \<notin> set (escape s)"
proof -
  have "NUL \<notin> set (escape_char c)" for c
    by (cases c rule: escape_char_cases) (auto simp: ctype_simps)
  then show ?thesis by auto
qed

lemma escape_char_length: "1 \<le> length (escape_char c)" "length (escape_char c) = 1 \<Longrightarrow> escape_char c = [c] \<and> 32 \<le> uchar c \<and> c \<noteq> BSLASH \<and> c \<noteq> DQUOTE"
  by (cases c rule: escape_char_cases; auto)+

lemma escape_length: "length s \<le> length (escape s)"
proof (induction s)
  case (Cons c s)
  then show ?case using escape_char_length(1) [of c] by simp
qed simp

lemma escape_same:
  "length s = length (escape s) \<Longrightarrow> escape s = s \<and> (\<forall>c\<in>set s. 32 \<le> uchar c \<and> c \<noteq> BSLASH \<and> c \<noteq> DQUOTE)"
proof (induction s)
  case (Cons c s)
  have "length (escape_char c) = 1" "length s = length (escape s)"
    using Cons.prems escape_char_length(1) [of c] escape_length [of s] by auto
  then show ?case using Cons.IH escape_char_length(2) [of c] by auto
qed simp

lemma quote_string_token:
  assumes "params_env_ok env"
  shows "quote_string env s False = token s"
  using assms escape_no_NUL [of s] escape_same [of s]
  by (auto simp: quote_string_def token_def params_env_ok_def Let_def)

lemma token_plain:
  assumes "token s \<noteq> DQUOTE # escape s @ [DQUOTE]"
  shows "token s = s" "escape s = s" "\<forall>c\<in>set s. 32 \<le> uchar c \<and> c \<notin> {BSLASH, DQUOTE} \<and> c \<notin> set special_chars"
proof -
  have *: "length s = length (escape s)" "\<forall>c\<in>set (escape s). c \<notin> set special_chars"
    using assms by (auto simp: token_def split: if_splits)
  show "token s = s" using * by (simp add: token_def)
  show "escape s = s" using escape_same [OF *(1)] by blast
  then show "\<forall>c\<in>set s. 32 \<le> uchar c \<and> c \<notin> {BSLASH, DQUOTE} \<and> c \<notin> set special_chars"
    using escape_same [OF *(1)] *(2) by auto
qed

lemma plain_track:
  "\<forall>c\<in>set s. c \<notin> {BSLASH, DQUOTE} \<and> c \<notin> set special_chars \<Longrightarrow>
     inert (seps comma) s (False, False) \<and> fold track s (False, False) = (False, False)"
  by (induction s) (auto simp: track_def special_chars_def seps_def)

lemma token_closed:
  assumes "s = [] \<or> last s \<noteq> BSLASH"
  shows "closed (seps comma) (token s)"
proof -
  have "inert (seps comma) (token s) (False, False) \<and> fold track (token s) (False, False) = (False, False)"
  proof (cases "token s = DQUOTE # escape s @ [DQUOTE]")
    case True
    then show ?thesis using escape_track [of comma s] assms by (auto simp: track_def inert_append seps_def)
  next
    case False
    then show ?thesis using token_plain [OF False] plain_track [of s comma] by auto
  qed
  then show ?thesis by (simp add: closed_def)
qed

lemma token_nonempty [simp]: "token s = [] \<longleftrightarrow> s = []"
  by (auto simp: token_def special_chars_def)

lemma token_Nil [simp]: "token [] = []"
  by simp

lemma token_hd:
  assumes "s \<noteq> []"
  shows "hd (token s) \<notin> set '',;=''"
proof (cases "token s = DQUOTE # escape s @ [DQUOTE]")
  case False
  then show ?thesis using token_plain [OF False] assms hd_in_set [OF assms] by (auto simp: special_chars_def)
qed simp

text \<open>Reading a token gives the string.\<close>

lemma token_trim:
  assumes "params_env_ok env"
  shows "pe_trim env None (token s) = token s"
proof -
  have "token s = [] \<or> hd (token s) \<notin> set trim_chars \<and> last (token s) \<notin> set trim_chars"
  proof (cases "token s = DQUOTE # escape s @ [DQUOTE]")
    case False
    note p = token_plain [OF False]
    have "c = SP \<or> uchar c < 32" if "c \<in> set trim_chars" for c
      using that by (auto simp: trim_chars_def)
    moreover have "SP \<in> set special_chars" by (simp add: special_chars_def)
    ultimately have "c \<notin> set trim_chars" if "c \<in> set s" for c
      using p(3) that by force
    then show ?thesis unfolding p(1) using hd_in_set [of s] last_in_set [of s] by blast
  qed (simp add: trim_chars_def)
  then show ?thesis using assms unfolding params_env_ok_def by blast
qed

lemma token_sanitize:
  assumes "params_env_ok env"
  shows "sanitize_escaped env (token s) = Some s"
proof -
  have strip: "pe_stripcslashes env (escape s) = s" using assms by (simp add: params_env_ok_def)
  show ?thesis
  proof (cases "token s = DQUOTE # escape s @ [DQUOTE]")
    case True
    then show ?thesis using strip by (simp add: sanitize_escaped_def)
  next
    case False
    note p = token_plain [OF False]
    have "s \<noteq> [] \<Longrightarrow> hd s \<noteq> DQUOTE" using p(3) by force
    then show ?thesis unfolding p(1) using p(2) strip by (auto simp: sanitize_escaped_def)
  qed
qed

lemma token_reads_key:
  assumes "params_env_ok env" "k \<noteq> []" "last k \<notin> {CHR ''*'', BSLASH}"
  shows "reads_key env comma (token k) k"
  using assms token_closed [of k comma] token_hd [of k]
  by (simp add: reads_key_def sanitize_key_def token_trim token_sanitize)

lemma token_reads_val:
  assumes "params_env_ok env" "s = [] \<or> last s \<noteq> BSLASH"
  shows "reads_val env comma (token s) s"
  using assms token_closed [of s comma] token_hd [of s]
  by (simp add: reads_val_def sanitize_value_def token_trim token_sanitize)

definition item :: "arg \<Rightarrow> bytes" where
  "item a = (case a of (k, v) \<Rightarrow> token k @ (case v of None \<Rightarrow> [] | Some s \<Rightarrow> CHR ''='' # token s))"

lemma item_reads:
  assumes "params_env_ok env" "arg_ok a"
  shows "reads env comma (item a) a"
proof -
  obtain k v where a: "a = (k, v)" by (cases a)
  have "reads_key env comma (token k) k"
    using assms a by (intro token_reads_key) (auto simp: arg_ok_def)
  moreover have "reads_val env comma (token s) s" if "v = Some s" for s
    using assms a that by (intro token_reads_val) (auto simp: arg_ok_def)
  ultimately show ?thesis by (auto simp: reads_def item_def a split: option.split)
qed

lemma items_read:
  assumes "params_env_ok env" "list_all arg_ok as"
  shows "reads_args env comma (map item as) as"
  using assms by (simp add: list_all2_conv_all_nth list_all_length item_reads)

section \<open>Printing\<close>

definition param_text :: "arg \<times> arg list \<Rightarrow> bytes \<times> bytes list" where
  "param_text p = (item (fst p), map item (snd p))"

lemma shift_item:
  assumes "params_env_ok env"
  shows "shift_val env (shift_key env buf k sep PHP_HTTP_PARAMS_DEFAULT) (val_zval v) ''='' PHP_HTTP_PARAMS_DEFAULT =
           buf @ (if buf \<noteq> [] then sep else []) @ item (k, v)"
  by (simp add: shift_val_def shift_key_def prepare_key_def prepare_value_def quote_string_token [OF assms] item_def val_zval_def
      zval_get_string_def split: option.split)

lemma val_zval_defined [simp]: "val_zval v \<noteq> ZUndef"
  by (cases v) (auto simp: val_zval_def)

lemma val_zval_scalar: "val_zval v = ZBool True \<or> (\<exists>s. val_zval v = ZStr s)"
  by (cases v) (auto simp: val_zval_def)

lemma shift_arg_item:
  assumes "params_env_ok env"
  shows "shift_arg env '';'' ''='' PHP_HTTP_PARAMS_DEFAULT buf k (val_zval v) = buf @ (if buf \<noteq> [] then '';'' else []) @ item (k, v)"
  using shift_item [OF assms, of buf k "'';''" v] val_zval_scalar [of v] by (auto simp: link_arg_def)

lemma shift_args_text:
  assumes "params_env_ok env" "buf \<noteq> []"
  shows "shift_args env '';'' ''='' PHP_HTTP_PARAMS_DEFAULT False buf (map (\<lambda>(k, v). (symtable_key k, val_zval v)) as) =
           buf @ args_text (map item as)"
  using assms(2)
proof (induction as arbitrary: buf)
  case (Cons a as)
  then show ?case using shift_arg_item [OF assms(1)] by (cases a) (simp add: args_text_def del: shift_arg.simps)
qed (simp add: args_text_def)

lemma table_entries:
  assumes "distinct (map fst es)" "fst ` set es \<inter> fst ` set (snd ht) = {}"
  shows "snd (fold (\<lambda>(k, v) ht. zend_hash_update ht k v) es ht) = snd ht @ es"
  using assms
proof (induction es arbitrary: ht)
  case (Cons e es)
  obtain k v where e: "e = (k, v)" by (cases e)
  have "snd (zend_hash_update ht k v) = snd ht @ [e]"
    using Cons.prems e by (simp add: zend_hash_update_def assoc_update_fresh)
  then show ?case using Cons.IH [of "zend_hash_update ht k v"] Cons.prems e by auto
qed simp

lemma args_table_entries:
  assumes "distinct (map fst as)"
  shows "snd (args_table as) = map (\<lambda>(k, v). (symtable_key k, val_zval v)) as"
proof -
  have "args_table as = fold (\<lambda>(k, v) ht. zend_hash_update ht k v) (map (\<lambda>(k, v). (symtable_key k, val_zval v)) as) zend_hash_init"
    unfolding args_table_def fold_map by (intro fold_cong) auto
  moreover have "distinct (map fst (map (\<lambda>(k, v). (symtable_key k, val_zval v)) as))"
    using assms distinct_symtable_keys [of fst as] by (simp add: comp_def case_prod_beta)
  ultimately show ?thesis by (simp add: table_entries zend_hash_init_def)
qed

lemma params_table_entries:
  assumes "distinct (map (fst \<circ> fst) ps)"
  shows "snd (params_table ps) = map (\<lambda>((k, v), as). (symtable_key k, zarr (param_table v as))) ps"
proof -
  have "params_table ps = fold (\<lambda>(k, v) ht. zend_hash_update ht k v)
      (map (\<lambda>((k, v), as). (symtable_key k, zarr (param_table v as))) ps) zend_hash_init"
    unfolding params_table_def fold_map by (intro fold_cong) auto
  moreover have "distinct (map fst (map (\<lambda>((k, v), as). (symtable_key k, zarr (param_table v as))) ps))"
    using assms distinct_symtable_keys [of "fst \<circ> fst" ps] by (simp add: comp_def case_prod_beta)
  ultimately show ?thesis by (simp add: table_entries zend_hash_init_def)
qed

lemma update_live:
  assumes "ZUndef \<notin> snd ` set (snd ht)" "v \<noteq> ZUndef"
  shows "ZUndef \<notin> snd ` set (snd (zend_hash_update ht k v))"
proof -
  have "list_all (\<lambda>e. snd e \<noteq> ZUndef) es \<Longrightarrow> list_all (\<lambda>e. snd e \<noteq> ZUndef) (assoc_update k v es)" for es
    using assms(2) by (induction es) auto
  then show ?thesis using assms(1) by (force simp: zend_hash_update_def list_all_iff)
qed

lemma params_table_live: "live (params_table ps) = snd (params_table ps)"
proof -
  have "ZUndef \<notin> snd ` set (snd (params_table ps))"
  proof (induction ps rule: rev_induct)
    case (snoc p ps)
    obtain k v as where "p = ((k, v), as)" by (metis prod.exhaust)
    then show ?case using update_live [OF snoc] by (simp add: params_table_snoc zarr_def)
  qed (simp add: params_table_def zend_hash_init_def)
  then show ?thesis by (auto simp: live_def filter_id_conv image_iff)
qed

lemma item_nonempty: "arg_ok a \<Longrightarrow> item a \<noteq> []"
  by (auto simp: item_def arg_ok_def split: prod.splits)

lemma to_string_param_text:
  assumes "params_env_ok env" "arg_ok (k, v)" "distinct (map fst as)"
  shows "to_string_param env '','' '';'' ''='' PHP_HTTP_PARAMS_DEFAULT (symtable_key k, zarr (param_table v as)) (buf, False) =
           (buf @ (if buf \<noteq> [] then '','' else []) @ item (k, v) @ args_text (map item as), False)"
proof -
  have es: "snd (param_table v as) = [(KStr ''value'', val_zval v), (KStr ''arguments'', zarr (args_table as))]"
    by (simp add: param_table_def zend_hash_update_def zend_hash_init_def)
  have val: "shift_param env '','' '';'' ''='' PHP_HTTP_PARAMS_DEFAULT False buf k (val_zval v) =
      buf @ (if buf \<noteq> [] then '','' else []) @ item (k, v)"
    using shift_item [OF assms(1), of buf k "'',''" v] val_zval_scalar [of v] by (auto simp: shift_param_def)
  show ?thesis
    using shift_args_text [OF assms(1), of "buf @ (if buf \<noteq> [] then '','' else []) @ item (k, v)" as] item_nonempty [OF assms(2)]
    by (simp add: to_string_param_def zarr_def es val args_table_entries [OF assms(3)] Let_def)
qed

lemma params_to_string_text:
  assumes "params_env_ok env" "\<forall>(p, as)\<in>set ps. arg_ok p \<and> distinct (map fst as)" "buf \<noteq> []"
  shows "fold (to_string_param env '','' '';'' ''='' PHP_HTTP_PARAMS_DEFAULT)
           (map (\<lambda>((k, v), as). (symtable_key k, zarr (param_table v as))) ps) (buf, False) = (buf @ params_text (map param_text ps), False)"
  using assms(2,3)
proof (induction ps arbitrary: buf)
  case (Cons p ps)
  obtain k v as where p: "p = ((k, v), as)" by (metis prod.exhaust)
  have "to_string_param env '','' '';'' ''='' PHP_HTTP_PARAMS_DEFAULT (symtable_key k, zarr (param_table v as)) (buf, False) =
      (buf @ '','' @ item (k, v) @ args_text (map item as), False)"
    using to_string_param_text [OF assms(1), of k v as buf] Cons.prems p by auto
  then show ?case using Cons.IH [of "buf @ '','' @ item (k, v) @ args_text (map item as)"] Cons.prems p by (simp add: params_text_def param_text_def)
qed (simp add: params_text_def param_text_def)

section \<open>Round trip\<close>

text \<open>
  C4. What is printed with the default separators and flags is read back: parsing gives the table of
  parameters with their values and arguments again, quoted and escaped strings included, if no name is
  empty or ends in an asterisk or a backslash, and no value ends in a backslash.
\<close>

theorem params_print_parse:
  assumes "params_env_ok env" "params_ok ps"
  shows "php_http_params_parse env None
           (php_http_params_opts_default_get
              \<lparr>opts_input := php_http_params_to_string env [] (params_table ps) '','' '';'' ''='' PHP_HTTP_PARAMS_DEFAULT\<rparr>) =
         Some (params_table ps)"
proof (cases ps)
  case Nil
  then show ?thesis
    by (simp add: php_http_params_to_string_def live_def params_table_def php_http_params_parse_def zend_hash_init_def params_loop.simps
        push_param_def params_state_init_def)
next
  case (Cons p ps')
  obtain k v as where p: "p = ((k, v), as)" by (metis prod.exhaust)
  have ok: "arg_ok (k, v)" "distinct (map fst as)" and ok': "\<forall>(p, as)\<in>set ps'. arg_ok p \<and> distinct (map fst as)"
    and dist: "distinct (map (fst \<circ> fst) ps)" and read: "\<forall>(p, as)\<in>set ps. arg_ok p \<and> list_all arg_ok as"
    using assms(2) Cons p by (auto simp: params_ok_def)
  let ?A = "item (k, v) @ args_text (map item as)"
  let ?input = "?A @ params_text (map param_text ps')"
  have "php_http_params_to_string env [] (params_table ps) '','' '';'' ''='' PHP_HTTP_PARAMS_DEFAULT = ?input"
    using to_string_param_text [OF assms(1) ok, of "[]"] params_to_string_text [OF assms(1) ok', of ?A] item_nonempty [OF ok(1)]
    unfolding php_http_params_to_string_def params_table_live params_table_entries [OF dist] by (simp add: Cons p)
  then have opts: "php_http_params_opts_default_get
      \<lparr>opts_input := php_http_params_to_string env [] (params_table ps) '','' '';'' ''='' PHP_HTTP_PARAMS_DEFAULT\<rparr> = dopts True ?input"
    by (simp add: dopts_def php_http_params_opts_default_get_def)
  have "reads_param env True (param_text q) q" if "q \<in> set ps" for q
    using that read item_reads [OF assms(1)] items_read [OF assms(1)] by (auto simp: reads_param_def param_text_def)
  then have "reads_param env True (param_text p) p" "list_all2 (reads_param env True) (map param_text ps') ps'"
    using Cons by (auto simp: list_all2_conv_all_nth)
  from parse_params_text [OF this] show ?thesis unfolding opts using Cons p by (simp add: param_text_def)
qed

section \<open>A sample\<close>

lemma sample_params_env_ok: "params_env_ok sample_params_env"
  unfolding params_env_ok_def using sample_trim by (simp add: sample_params_env_def unescape_escape)

definition sample_params :: "(arg \<times> arg list) list" where
  "sample_params =
     [((''text/html'', None), [(''q'', Some ''0.5''), (''a b'', Some [CHR ''x'', DQUOTE, CHR '','', LF])]), ((''7'', Some []), [])]"

lemma sample_params_ok: "params_ok sample_params"
  by (simp add: params_ok_def sample_params_def arg_ok_def)

theorem params_print_parse_witness:
  "php_http_params_parse sample_params_env None
     (php_http_params_opts_default_get
        \<lparr>opts_input := php_http_params_to_string sample_params_env [] (params_table sample_params) '','' '';'' ''='' PHP_HTTP_PARAMS_DEFAULT\<rparr>) =
   Some (params_table sample_params)"
  by (rule params_print_parse [OF sample_params_env_ok sample_params_ok])

section \<open>Inputs on which the code goes wrong\<close>

definition sample_opts :: "32 word \<Rightarrow> bytes \<Rightarrow> php_http_params_opts" where
  "sample_opts flags input = php_http_params_opts_default_get\<lparr>opts_input := input, opts_flags := flags\<rparr>"

definition sample_query :: "bytes \<Rightarrow> php_http_params_opts" where
  "sample_query input =
     \<lparr>opts_input = input, opts_param = [''&''], opts_arg = [], opts_val = [''=''], opts_defval = None, opts_flags = PHP_HTTP_PARAMS_QUERY\<rparr>"

text \<open>A token that is a single quote is unquoted to a text of length \<open>- 1\<close>.\<close>

lemma params_single_quote:
  "php_http_params_parse sample_params_env None (sample_opts PHP_HTTP_PARAMS_DEFAULT (''a='' @ [DQUOTE])) = None"
  by code_simp

text \<open>An argument behind an empty parameter is stored through a null pointer.\<close>

lemma params_argument_first:
  "php_http_params_parse sample_params_env None (sample_opts PHP_HTTP_PARAMS_DEFAULT '' ;x'') = None"
  by code_simp

text \<open>Appending to an array whose last index is the largest integer fails; the result is followed.\<close>

lemma params_index_overflow:
  "php_http_params_parse sample_params_env None (sample_query ''a[9223372036854775807]=1&a[]=2'') = None"
  by code_simp

text \<open>Decoded data behind a NUL is written behind the end of the block it is converted in.\<close>

lemma params_latin1_overflow:
  "php_http_params_parse sample_params_env None
     (sample_opts PHP_HTTP_PARAMS_DEFAULT (''a;b*=iso-8859-1'' @ SQUOTE # ''de'' @ SQUOTE # ''%00overflow'')) = None"
  by code_simp

text \<open>Dimensions of a parameter that was stored as an extended one are looked up in a null pointer.\<close>

lemma params_mixed_dimensions:
  "php_http_params_parse sample_params_env None
     (sample_opts (PHP_HTTP_PARAMS_DIMENSION OR PHP_HTTP_PARAMS_RFC5987) ''a*=1,a[x]=2'') = None"
  by code_simp

text \<open>A printed value that ends in a backslash swallows the next parameter when it is read.\<close>

lemma params_final_backslash:
  "php_http_params_to_string sample_params_env [] (params_table [((''a'', Some [CHR ''x'', BSLASH]), []), ((''b'', None), [])])
     '','' '';'' ''='' PHP_HTTP_PARAMS_DEFAULT = ''a='' @ [DQUOTE, CHR ''x'', BSLASH, BSLASH, DQUOTE] @ '',b''"
  "map_option (map fst \<circ> snd) (php_http_params_parse sample_params_env None
     (sample_opts PHP_HTTP_PARAMS_DEFAULT (''a='' @ [DQUOTE, CHR ''x'', BSLASH, BSLASH, DQUOTE] @ '',b''))) = Some [KStr ''a'']"
  by code_simp+

text \<open>Index \<open>0\<close> behind another index is taken for the next free one.\<close>

lemma params_index_zero:
  "php_http_params_parse sample_params_env None (sample_query ''a[1]=x&a[0]=y'') =
   php_http_params_parse sample_params_env None (sample_query ''a[1]=x&a[2]=y'')"
  by code_simp

text \<open>Once an extended value was printed, later arrays are printed as extended values, too.\<close>

lemma params_extended_sticks:
  "php_http_params_to_string sample_params_env []
     (zend_hash_update (zend_hash_update zend_hash_init (KStr ''a'') (zarr (new_param (KStr rfc5987_key) (zarr (args_table [(''de'', Some ''x'')])))))
        (KStr ''b'') (zarr (new_param (KStr ''value'') (zarr (args_table [(''k'', Some ''v'')])))))
     '','' '';'' ''='' PHP_HTTP_PARAMS_DEFAULT = ''a*=utf-8'' @ SQUOTE # ''de'' @ SQUOTE # ''x,b*=utf-8'' @ SQUOTE # ''k'' @ SQUOTE # ''v''"
  by code_simp

text \<open>A quote behind a separator at the start of the input is not seen.\<close>

lemma params_leading_separator:
  "map_option (map fst \<circ> snd) (php_http_params_parse sample_params_env None
     (sample_opts PHP_HTTP_PARAMS_DEFAULT ('','' @ DQUOTE # ''a,b'' @ [DQUOTE]))) = Some [KStr (DQUOTE # ''a''), KStr (CHR ''b'' # [DQUOTE])]"
  by code_simp

end
