(* ===== verification/Http_Cookie_Roundtrip.thy ===== *)
theory Http_Cookie_Roundtrip
  imports Http_Cookie Http_Params_Roundtrip
begin

unbundle bit_operations_syntax

text \<open>
  Cookie lists are read back from their printed form: the composition of the printer with the parser of
  parameter lists and the distribution of its results. Then inputs on which the code goes wrong.
\<close>

section \<open>The functions of the host\<close>

text \<open>
  What the code relies on: URL encoding yields unreserved characters and percent signs only, keeps
  unreserved characters, and decoding inverts it; a printed date is read back; leading spaces are trimmed.
\<close>

definition date_char :: "char \<Rightarrow> bool" where
  "date_char c \<longleftrightarrow> isalnum c \<or> c \<in> set '' ,:+-''"

definition cookie_env_ok :: "cookie_env \<Rightarrow> bool" where
  "cookie_env_ok env \<longleftrightarrow>
     params_env_ok (ce_params env) \<and>
     (\<forall>s. pe_trim (ce_params env) None (SP # s) = pe_trim (ce_params env) None s) \<and>
     (\<forall>s. \<forall>c\<in>set (pe_raw_url_encode (ce_params env) s). unreserved c \<or> c = CHR ''%'') \<and>
     (\<forall>s. (\<forall>c\<in>set s. unreserved c) \<longrightarrow> pe_raw_url_encode (ce_params env) s = s) \<and>
     (\<forall>s. ce_raw_url_decode env (pe_raw_url_encode (ce_params env) s) = s) \<and>
     (\<forall>s. CHR ''%'' \<notin> set s \<longrightarrow> ce_raw_url_decode env s = s) \<and>
     (\<forall>t\<ge>0. let d = ce_format_date env t in
        d \<noteq> [] \<and> (\<forall>c\<in>set d. date_char c) \<and> isalnum (hd d) \<and> isalnum (last d) \<and> ce_parse_date env d = t) \<and>
     (\<forall>i\<ge>0. i < 2 ^ 63 \<longrightarrow> ce_str_long env (print_long i) = i)"

section \<open>Lists that can be printed\<close>

definition plain_char :: "char \<Rightarrow> bool" where
  "plain_char c \<longleftrightarrow> 32 \<le> uchar c \<and> c \<notin> {CHR 0x7B, BSLASH, DQUOTE, CHR '';'', CHR ''=''}"

definition plain_val :: "bytes \<Rightarrow> bool" where
  "plain_val s \<longleftrightarrow> (\<forall>c\<in>set s. plain_char c) \<and> (s = [] \<or> hd s \<noteq> SP \<and> last s \<noteq> SP)"

definition cookie_name :: "bytes \<Rightarrow> bool" where
  "cookie_name k \<longleftrightarrow> k \<noteq> [] \<and> (\<forall>c\<in>set k. unreserved c)"

definition attribute_names :: "bytes list" where
  "attribute_names = [''path'', ''domain'', ''expires'', ''max-age'', ''secure'', ''httpOnly'']"

definition reserved :: "bytes \<Rightarrow> bool" where
  "reserved k \<longleftrightarrow> (\<exists>r\<in>set attribute_names. strcaseeq k r)"

definition attribute_ok :: "bytes option \<Rightarrow> bool" where
  "attribute_ok v = (case v of Some s \<Rightarrow> s \<noteq> [] \<and> plain_val s \<and> CHR ''%'' \<notin> set s | None \<Rightarrow> True)"

definition entries_table :: "(bytes \<times> bytes) list \<Rightarrow> hashtable" where
  "entries_table cs = args_table (map (\<lambda>(k, v). (k, Some v)) cs)"

definition cookies_ok :: "bytes list \<Rightarrow> (bytes \<times> bytes) list \<Rightarrow> (bytes \<times> bytes) list \<Rightarrow> php_http_cookie_list \<Rightarrow> bool" where
  "cookies_ok allowed cs es l \<longleftrightarrow>
     cl_cookies l = entries_table cs \<and> cl_extras l = entries_table es \<and> cs \<noteq> [] \<and>
     distinct (map fst cs) \<and> distinct (map fst es) \<and>
     (\<forall>k\<in>fst ` set (cs @ es). cookie_name k \<and> \<not> reserved k) \<and>
     (\<forall>k\<in>fst ` set (tl cs). \<not> allowed_extra allowed k) \<and> (\<forall>k\<in>fst ` set es. allowed_extra allowed k) \<and>
     attribute_ok (cl_path l) \<and> attribute_ok (cl_domain l) \<and> -1 \<le> cl_expires l \<and> -1 \<le> cl_max_age l \<and> cl_max_age l < 2 ^ 63 \<and>
     cl_flags l AND (PHP_HTTP_COOKIE_SECURE OR PHP_HTTP_COOKIE_HTTPONLY) = cl_flags l"

section \<open>Texts that are read\<close>

lemma unreserved_plain: "unreserved c \<Longrightarrow> plain_char c" "unreserved c \<Longrightarrow> c \<noteq> SP"
  by (auto simp: unreserved_def plain_char_def ctype_simps)

lemma plain_escape: "\<forall>c\<in>set s. plain_char c \<Longrightarrow> escape s = s"
  by (induction s) (auto simp: plain_char_def escape_char_def)

lemma plain_text_closed: "\<forall>c\<in>set s. plain_char c \<Longrightarrow> closed (seps False) s"
proof -
  have "\<forall>c\<in>set s. plain_char c \<Longrightarrow> inert (seps False) s (False, False) \<and> fold track s (False, False) = (False, False)"
    by (induction s) (auto simp: track_def plain_char_def seps_def)
  then show "\<forall>c\<in>set s. plain_char c \<Longrightarrow> closed (seps False) s" by (simp add: closed_def)
qed

lemma plain_trim:
  assumes "params_env_ok env" "plain_val s"
  shows "pe_trim env None s = s"
proof -
  have "c \<notin> set trim_chars" if "plain_char c" "c \<noteq> SP" for c
  proof -
    have "d = SP \<or> uchar d < 32" if "d \<in> set trim_chars" for d
      using that by (auto simp: trim_chars_def)
    then show ?thesis using that unfolding plain_char_def by (metis not_le)
  qed
  moreover have "s = [] \<or> plain_char (hd s) \<and> hd s \<noteq> SP \<and> plain_char (last s) \<and> last s \<noteq> SP"
    using assms(2) by (auto simp: plain_val_def)
  ultimately have "s = [] \<or> hd s \<notin> set trim_chars \<and> last s \<notin> set trim_chars"
    by blast
  then show ?thesis using assms(1) unfolding params_env_ok_def by blast
qed

lemma plain_sanitize:
  assumes "params_env_ok env" "plain_val s"
  shows "sanitize_escaped env s = Some s"
proof -
  have "pe_stripcslashes env (escape s) = s" using assms(1) by (simp add: params_env_ok_def)
  then have "pe_stripcslashes env s = s" using plain_escape [of s] assms(2) by (simp add: plain_val_def)
  moreover have "s \<noteq> [] \<Longrightarrow> hd s \<noteq> DQUOTE"
    using assms(2) hd_in_set [of s] by (auto simp: plain_val_def plain_char_def)
  ultimately show ?thesis by (auto simp: sanitize_escaped_def)
qed

lemma plain_reads_val:
  assumes "params_env_ok env" "plain_val s"
  shows "reads_val env False s s"
proof -
  have "closed (seps False) s" using assms(2) by (intro plain_text_closed) (simp add: plain_val_def)
  moreover have "s \<noteq> [] \<Longrightarrow> hd s \<noteq> CHR ''=''"
    using assms(2) hd_in_set [of s] by (auto simp: plain_val_def plain_char_def)
  ultimately show ?thesis
    by (simp add: reads_val_def sanitize_value_def plain_trim [OF assms] plain_sanitize [OF assms])
qed

lemma name_plain: "cookie_name k \<Longrightarrow> plain_val k"
  using hd_in_set [of k] last_in_set [of k] unreserved_plain by (auto simp: cookie_name_def plain_val_def)

lemma name_reads_key:
  assumes "params_env_ok env" "cookie_name k" "X = k \<or> X = SP # k \<and> (\<forall>s. pe_trim env None (SP # s) = pe_trim env None s)"
  shows "reads_key env False X k"
proof -
  have plain: "plain_val k" using assms(2) by (rule name_plain)
  have k: "k \<noteq> []" "\<forall>c\<in>set k. unreserved c" using assms(2) by (auto simp: cookie_name_def)
  have ends: "unreserved (hd k)" "unreserved (last k)" using k by simp_all
  then have "last k \<noteq> CHR ''*''" by (auto simp: unreserved_def ctype_simps)
  moreover have "plain_char SP" by (simp add: plain_char_def)
  then have "\<forall>c\<in>set X. plain_char c" using assms(3) k(2) unreserved_plain(1) by fastforce
  then have "closed (seps False) X" by (rule plain_text_closed)
  moreover have "hd k \<notin> set '',;=''" using ends by (auto simp: unreserved_def ctype_simps)
  then have "X \<noteq> []" "hd X \<notin> set '',;=''" using assms(3) k(1) by auto
  moreover have "pe_trim env None X = k" using assms(3) plain_trim [OF assms(1) plain] by auto
  ultimately show ?thesis
    using k(1) by (simp add: reads_key_def sanitize_key_def plain_sanitize [OF assms(1) plain])
qed

definition cookie_item :: "arg \<Rightarrow> bytes" where
  "cookie_item a = (case a of (k, v) \<Rightarrow> k @ (case v of None \<Rightarrow> [] | Some s \<Rightarrow> CHR ''='' # s))"

definition cookie_arg :: "arg \<Rightarrow> bool" where
  "cookie_arg a = (case a of (k, v) \<Rightarrow> cookie_name k \<and> (case v of None \<Rightarrow> True | Some s \<Rightarrow> plain_val s))"

lemma cookie_item_reads:
  assumes "params_env_ok env" "\<forall>s. pe_trim env None (SP # s) = pe_trim env None s" "cookie_arg a"
  shows "reads env False (cookie_item a) a" "reads env False (SP # cookie_item a) a"
proof -
  obtain k v where a: "a = (k, v)" by (cases a)
  have key: "reads_key env False k k" "reads_key env False (SP # k) k"
    using assms a by (auto intro!: name_reads_key simp: cookie_arg_def)
  have val: "reads_val env False s s" if "v = Some s" for s
    using assms(1,3) a that by (intro plain_reads_val) (auto simp: cookie_arg_def)
  show "reads env False (cookie_item a) a" using key(1) val by (auto simp: reads_def cookie_item_def a split: option.split)
  show "reads env False (SP # cookie_item a) a"
    using key(2) val by (auto simp: reads_def cookie_item_def a split: option.split) (metis append_Cons)
qed

lemma cookie_text:
  "concat (map (\<lambda>a. cookie_item a @ ''; '') (a # as)) = cookie_item a @ args_text (map (\<lambda>a. SP # cookie_item a) as) @ ''; ''"
  by (induction as arbitrary: a) (simp_all add: args_text_def)

text \<open>The text of a list of items is read as one parameter with arguments.\<close>

lemma cookie_items_parse:
  assumes "params_env_ok env" "\<forall>s. pe_trim env None (SP # s) = pe_trim env None s" "cookie_arg (k, v)" "list_all cookie_arg as"
  shows "php_http_params_parse env None (dopts False (concat (map (\<lambda>a. cookie_item a @ ''; '') ((k, v) # as)))) =
           Some (params_table [((k, v), as)])"
proof -
  let ?A = "cookie_item (k, v) @ args_text (map (\<lambda>a. SP # cookie_item a) as)"
  let ?input = "?A @ ''; ''"
  have "reads_args env False (map (\<lambda>a. SP # cookie_item a) as) as"
    using assms(4) cookie_item_reads(2) [OF assms(1,2)] by (auto simp: list_all2_conv_all_nth list_all_length)
  then have "\<exists>P st. params_loop env (dopts False ?input) zend_hash_init params_state_init = params_loop env (dopts False ?input) P st \<and>
      pending env False ?input P st (length ?A) (params_table [((k, v), as)]) (symtable_key k)"
    by (intro start_read [OF cookie_item_reads(1) [OF assms(1-3)], where B = "''; ''"]) auto
  then obtain P st where 1: "params_loop env (dopts False ?input) zend_hash_init params_state_init = params_loop env (dopts False ?input) P st"
    "pending env False ?input P st (length ?A) (params_table [((k, v), as)]) (symtable_key k)"
    by blast
  let ?Q = "params_table [((k, v), as)]"
  from 1(2) obtain st2 where st: "clean st" "ps_param st \<noteq> None" "ps_pos st = length ?A"
    and st2: "push_param env (dopts False ?input) P st = Some (?Q, st2)" "clean st2" "ps_pos st2 = length ?A" "ps_param st2 \<noteq> None"
    by (auto simp: pending_def)
  let ?st3 = "st2\<lparr>ps_pos := length ?A + 1, ps_arg := Some (length ?A + 1), ps_val := None\<rparr>"
  let ?st4 = "?st3\<lparr>ps_pos := length ((?A @ '';'') @ '' '')\<rparr>"
  have "params_loop env (dopts False ?input) P st = params_loop env (dopts False ?input) ?Q ?st3"
    by (rule dopts_sep(2) [of ?input ?A _ "'' ''", OF _ st(3,2,1) st2(1-3)]) (simp_all add: sep_free_def)
  also have "\<dots> = params_loop env (dopts False ?input) ?Q ?st4"
    using st2 by (intro dopts_closed [where B = "[]"]) (auto simp: clean_def closed_def track_def seps_def)
  also have "\<dots> = Some (?Q, ?st4)"
    by (subst params_loop.simps) simp
  finally have "params_loop env (dopts False ?input) zend_hash_init params_state_init = Some (?Q, ?st4)"
    using 1(1) by simp
  moreover have "pe_trim env None '' '' = []"
  proof -
    have "pe_trim env None [SP] = pe_trim env None []" using assms(2) by blast
    also have "\<dots> = []" using assms(1) by (simp add: params_env_ok_def)
    finally show ?thesis .
  qed
  then have "sanitize_key env PHP_HTTP_PARAMS_DEFAULT '' '' = Some (ZStr [], False)"
    using plain_sanitize [OF assms(1), of "[]"] by (simp add: sanitize_key_def plain_val_def)
  then have "push_param env (dopts False ?input) ?Q ?st4 = Some (?Q, ?st4\<lparr>ps_rfc5987 := False\<rparr>)"
    by (simp add: push_param_def push_arg_def slice_def)
  ultimately show ?thesis unfolding cookie_text php_http_params_parse_def by simp
qed

section \<open>Distribution of the entries\<close>

lemma attribute_keys:
  "symtable_key ''path'' = KStr ''path''" "symtable_key ''domain'' = KStr ''domain''" "symtable_key ''expires'' = KStr ''expires''"
  "symtable_key ''max-age'' = KStr ''max-age''" "symtable_key ''secure'' = KStr ''secure''" "symtable_key ''httpOnly'' = KStr ''httpOnly''"
  by code_simp+

lemma not_reserved:
  assumes "\<not> reserved k" "r \<in> set attribute_names"
  shows "\<not> KEY_IS (symtable_key k) r"
proof (cases "symtable_key k")
  case (KStr t)
  then have "t = k" by (simp add: symtable_key_def split: option.splits)
  then show ?thesis using assms KStr by (auto simp: KEY_IS_def reserved_def)
qed (simp add: KEY_IS_def)

lemma add_entry_other:
  assumes "\<not> reserved k"
  shows "add_entry env allowed flags (symtable_key k, v) l =
           (let arg = (if flags AND PHP_HTTP_COOKIE_PARSE_RAW = 0 then ce_raw_url_decode env (zval_get_string v) else zval_get_string v) in
            if allowed_extra allowed k then php_http_cookie_list_add_extra l k arg else php_http_cookie_list_add_cookie l k arg)"
  using not_reserved [OF assms] by (simp add: add_entry_def attribute_names_def Let_def)

definition enc_items :: "cookie_env \<Rightarrow> (bytes \<times> bytes) list \<Rightarrow> arg list" where
  "enc_items env cs = map (\<lambda>(k, v). (k, Some (pe_raw_url_encode (ce_params env) v))) cs"

abbreviation entry_of :: "arg \<Rightarrow> zkey \<times> zval" where
  "entry_of \<equiv> \<lambda>(k, v). (symtable_key k, val_zval v)"

definition add_entries :: "(bytes \<times> bytes) list \<Rightarrow> hashtable \<Rightarrow> hashtable" where
  "add_entries cs ht = fold (\<lambda>(k, v) d. zend_hash_update d (symtable_key k) (ZStr v)) cs ht"

lemma entries_table_fold: "entries_table cs = add_entries cs zend_hash_init"
  unfolding entries_table_def args_table_def add_entries_def fold_map
  by (intro fold_cong) (auto simp: val_zval_def)

lemma fold_enc_cookies:
  assumes "cookie_env_ok env" "flags AND PHP_HTTP_COOKIE_PARSE_RAW = 0"
    "\<forall>k\<in>fst ` set cs. \<not> reserved k \<and> \<not> allowed_extra allowed k"
  shows "fold (add_entry env allowed flags) (map entry_of (enc_items env cs)) l = l\<lparr>cl_cookies := add_entries cs (cl_cookies l)\<rparr>"
  using assms(3)
proof (induction cs arbitrary: l)
  case (Cons c cs)
  obtain k v where c: "c = (k, v)" by (cases c)
  have "ce_raw_url_decode env (pe_raw_url_encode (ce_params env) v) = v" using assms(1) by (simp add: cookie_env_ok_def)
  then show ?case
    using Cons c assms(2)
    by (simp add: enc_items_def add_entry_other add_entries_def php_http_cookie_list_add_cookie_def val_zval_def zval_get_string_def)
qed (simp add: enc_items_def add_entries_def)

lemma fold_enc_extras:
  assumes "cookie_env_ok env" "flags AND PHP_HTTP_COOKIE_PARSE_RAW = 0"
    "\<forall>k\<in>fst ` set es. \<not> reserved k \<and> allowed_extra allowed k"
  shows "fold (add_entry env allowed flags) (map entry_of (enc_items env es)) l = l\<lparr>cl_extras := add_entries es (cl_extras l)\<rparr>"
  using assms(3)
proof (induction es arbitrary: l)
  case (Cons c es)
  obtain k v where c: "c = (k, v)" by (cases c)
  have "ce_raw_url_decode env (pe_raw_url_encode (ce_params env) v) = v" using assms(1) by (simp add: cookie_env_ok_def)
  then show ?case
    using Cons c assms(2)
    by (simp add: enc_items_def add_entry_other add_entries_def php_http_cookie_list_add_extra_def val_zval_def zval_get_string_def)
qed (simp add: enc_items_def add_entries_def)

text \<open>The attributes between and behind the entries.\<close>

definition opt_item :: "bytes \<Rightarrow> bytes option \<Rightarrow> arg list" where
  "opt_item name v = (case v of Some s \<Rightarrow> [(name, Some s)] | None \<Rightarrow> [])"

definition date_text :: "cookie_env \<Rightarrow> php_http_cookie_list \<Rightarrow> bytes option" where
  "date_text env l = (if 0 \<le> cl_expires l then Some (ce_format_date env (cl_expires l)) else None)"

definition age_text :: "php_http_cookie_list \<Rightarrow> bytes option" where
  "age_text l = (if 0 \<le> cl_max_age l then Some (print_long (cl_max_age l)) else None)"

definition attribute_items :: "cookie_env \<Rightarrow> php_http_cookie_list \<Rightarrow> arg list" where
  "attribute_items env l =
     opt_item ''domain'' (cl_domain l) @ opt_item ''path'' (cl_path l) @ opt_item ''expires'' (date_text env l) @
     opt_item ''max-age'' (age_text l)"

definition flag_items :: "php_http_cookie_list \<Rightarrow> arg list" where
  "flag_items l =
     (if cl_flags l AND PHP_HTTP_COOKIE_SECURE \<noteq> 0 then [(''secure'', None)] else []) @
     (if cl_flags l AND PHP_HTTP_COOKIE_HTTPONLY \<noteq> 0 then [(''httpOnly'', None)] else [])"

lemma flags_rebuilt:
  fixes w :: "64 word"
  assumes "w AND (PHP_HTTP_COOKIE_SECURE OR PHP_HTTP_COOKIE_HTTPONLY) = w"
  shows "(if w AND PHP_HTTP_COOKIE_SECURE \<noteq> 0 then PHP_HTTP_COOKIE_SECURE else 0) OR
         (if w AND PHP_HTTP_COOKIE_HTTPONLY \<noteq> 0 then PHP_HTTP_COOKIE_HTTPONLY else 0) = w"
proof -
  have bit: "w AND (push_bit n 1) = (if bit w n then push_bit n 1 else 0)" for n :: nat
    by (rule bit_eqI) (auto simp: bit_simps)
  have c: "PHP_HTTP_COOKIE_SECURE = push_bit 4 1" "PHP_HTTP_COOKIE_HTTPONLY = push_bit 5 1"
    by (simp_all add: PHP_HTTP_COOKIE_SECURE_def PHP_HTTP_COOKIE_HTTPONLY_def)
  have "w = (w AND push_bit 4 1) OR (w AND push_bit 5 1)"
    using assms unfolding c bit.conj_disj_distrib by (rule sym)
  then show ?thesis unfolding c bit by (auto split: if_splits)
qed

lemma KEY_IS_literal:
  "KEY_IS (KStr ''path'') ''path''" "\<not> KEY_IS (KStr ''domain'') ''path''" "KEY_IS (KStr ''domain'') ''domain''"
  "\<not> KEY_IS (KStr ''expires'') ''path''" "\<not> KEY_IS (KStr ''expires'') ''domain''" "KEY_IS (KStr ''expires'') ''expires''"
  "\<not> KEY_IS (KStr ''max-age'') ''path''" "\<not> KEY_IS (KStr ''max-age'') ''domain''" "\<not> KEY_IS (KStr ''max-age'') ''expires''"
  "KEY_IS (KStr ''max-age'') ''max-age''"
  "\<not> KEY_IS (KStr ''secure'') ''path''" "\<not> KEY_IS (KStr ''secure'') ''domain''" "\<not> KEY_IS (KStr ''secure'') ''expires''"
  "\<not> KEY_IS (KStr ''secure'') ''max-age''" "KEY_IS (KStr ''secure'') ''secure''"
  "\<not> KEY_IS (KStr ''httpOnly'') ''path''" "\<not> KEY_IS (KStr ''httpOnly'') ''domain''" "\<not> KEY_IS (KStr ''httpOnly'') ''expires''"
  "\<not> KEY_IS (KStr ''httpOnly'') ''max-age''" "\<not> KEY_IS (KStr ''httpOnly'') ''secure''" "KEY_IS (KStr ''httpOnly'') ''httpOnly''"
  by code_simp+

lemma fold_attributes:
  assumes env: "cookie_env_ok env" and raw: "flags AND PHP_HTTP_COOKIE_PARSE_RAW = 0"
  shows "attribute_ok v \<Longrightarrow> fold (add_entry env allowed flags) (map entry_of (opt_item ''domain'' v)) m =
           (case v of Some d \<Rightarrow> m\<lparr>cl_domain := Some d\<rparr> | None \<Rightarrow> m)"
    and "attribute_ok v \<Longrightarrow> fold (add_entry env allowed flags) (map entry_of (opt_item ''path'' v)) m =
           (case v of Some d \<Rightarrow> m\<lparr>cl_path := Some d\<rparr> | None \<Rightarrow> m)"
    and "fold (add_entry env allowed flags) (map entry_of (opt_item ''expires'' (date_text env l))) m =
           (if 0 \<le> cl_expires l then m\<lparr>cl_expires := cl_expires l\<rparr> else m)"
    and "cl_max_age l < 2 ^ 63 \<Longrightarrow> fold (add_entry env allowed flags) (map entry_of (opt_item ''max-age'' (age_text l))) m =
           (if 0 \<le> cl_max_age l then m\<lparr>cl_max_age := cl_max_age l\<rparr> else m)"
    and "fold (add_entry env allowed flags) (map entry_of (flag_items l)) m =
           m\<lparr>cl_flags := cl_flags m OR
              ((if cl_flags l AND PHP_HTTP_COOKIE_SECURE \<noteq> 0 then PHP_HTTP_COOKIE_SECURE else 0) OR
               (if cl_flags l AND PHP_HTTP_COOKIE_HTTPONLY \<noteq> 0 then PHP_HTTP_COOKIE_HTTPONLY else 0))\<rparr>"
proof -
  note step = opt_item_def attribute_keys add_entry_def KEY_IS_literal raw val_zval_def zval_get_string_def Let_def
  have plain: "ce_raw_url_decode env s = s" if "CHR ''%'' \<notin> set s" for s
    using env that unfolding cookie_env_ok_def by blast
  show "attribute_ok v \<Longrightarrow> fold (add_entry env allowed flags) (map entry_of (opt_item ''domain'' v)) m =
           (case v of Some d \<Rightarrow> m\<lparr>cl_domain := Some d\<rparr> | None \<Rightarrow> m)"
    by (cases v) (simp_all add: step plain attribute_ok_def)
  show "attribute_ok v \<Longrightarrow> fold (add_entry env allowed flags) (map entry_of (opt_item ''path'' v)) m =
           (case v of Some d \<Rightarrow> m\<lparr>cl_path := Some d\<rparr> | None \<Rightarrow> m)"
    by (cases v) (simp_all add: step plain attribute_ok_def)
  show "fold (add_entry env allowed flags) (map entry_of (opt_item ''expires'' (date_text env l))) m =
           (if 0 \<le> cl_expires l then m\<lparr>cl_expires := cl_expires l\<rparr> else m)"
  proof (cases "0 \<le> cl_expires l")
    case True
    let ?d = "ce_format_date env (cl_expires l)"
    have d: "\<forall>c\<in>set ?d. date_char c" "ce_parse_date env ?d = cl_expires l"
      using env True by (auto simp: cookie_env_ok_def Let_def)
    have "\<not> date_char CHR ''%''" "\<not> date_char NUL" by (simp_all add: date_char_def ctype_simps)
    then have "CHR ''%'' \<notin> set ?d" "NUL \<notin> set ?d" using d(1) by blast+
    then show ?thesis using True d(2) by (simp add: step date_text_def plain)
  qed (simp add: date_text_def opt_item_def)
  show "cl_max_age l < 2 ^ 63 \<Longrightarrow> fold (add_entry env allowed flags) (map entry_of (opt_item ''max-age'' (age_text l))) m =
           (if 0 \<le> cl_max_age l then m\<lparr>cl_max_age := cl_max_age l\<rparr> else m)"
    using env by (simp add: step age_text_def zval_get_long_def cookie_env_ok_def)
  show "fold (add_entry env allowed flags) (map entry_of (flag_items l)) m =
           m\<lparr>cl_flags := cl_flags m OR
              ((if cl_flags l AND PHP_HTTP_COOKIE_SECURE \<noteq> 0 then PHP_HTTP_COOKIE_SECURE else 0) OR
               (if cl_flags l AND PHP_HTTP_COOKIE_HTTPONLY \<noteq> 0 then PHP_HTTP_COOKIE_HTTPONLY else 0))\<rparr>"
    by (simp add: step flag_items_def or.assoc)
qed

section \<open>Printing\<close>

definition cookie_args :: "cookie_env \<Rightarrow> (bytes \<times> bytes) list \<Rightarrow> (bytes \<times> bytes) list \<Rightarrow> php_http_cookie_list \<Rightarrow> arg list" where
  "cookie_args env cs es l = enc_items env cs @ attribute_items env l @ enc_items env es @ flag_items l"

lemma live_args_table:
  assumes "distinct (map fst as)"
  shows "live (args_table as) = map entry_of as"
  by (simp add: live_def args_table_entries [OF assms] filter_id_conv split: prod.splits)

lemma entries_text:
  assumes "cookie_env_ok env" "distinct (map fst cs)" "\<forall>k\<in>fst ` set cs. cookie_name k"
  shows "entries_to_string env (entries_table cs) = concat (map (\<lambda>a. cookie_item a @ ''; '') (enc_items env cs))"
proof -
  have "map fst (map (\<lambda>(k, v). (k, Some v)) cs) = map fst cs" by (induction cs) auto
  then have "distinct (map fst (map (\<lambda>(k, v). (k, Some v)) cs))" using assms(2) by (simp only:)
  then have "live (entries_table cs) = map entry_of (map (\<lambda>(k, v). (k, Some v)) cs)"
    unfolding entries_table_def by (rule live_args_table)
  moreover have "pe_raw_url_encode (ce_params env) k = k" if "cookie_name k" for k
    using assms(1) that unfolding cookie_env_ok_def cookie_name_def by blast
  then have "append_encoded env k v = cookie_item (k, Some (pe_raw_url_encode (ce_params env) v)) @ ''; ''" if "cookie_name k" for k v
    using that by (simp add: append_encoded_def cookie_item_def)
  ultimately show ?thesis
    using assms(3) by (fastforce simp: entries_to_string_def enc_items_def val_zval_def zval_get_string_def comp_def split: prod.splits
        intro!: arg_cong [where f = concat])
qed

lemma attribute_text:
  "attribute name v = concat (map (\<lambda>a. cookie_item a @ ''; '') (opt_item name v))"
  by (simp add: attribute_def opt_item_def cookie_item_def split: option.split)

lemma attribute_ok_nonempty: "attribute_ok v \<Longrightarrow> nonempty_string v = v"
proof (cases v)
  case (Some s)
  assume "attribute_ok v"
  then have "\<forall>c\<in>set s. plain_char c" "s \<noteq> []" using Some by (auto simp: attribute_ok_def plain_val_def)
  moreover have "\<not> plain_char NUL" by (simp add: plain_char_def)
  ultimately have "cstr s = s" "s \<noteq> []" by (auto intro!: cstr_no_NUL)
  then show ?thesis using Some by (simp add: nonempty_string_def)
qed (simp add: nonempty_string_def)

lemma cookie_list_text:
  assumes env: "cookie_env_ok env" and ok: "cookies_ok allowed cs es l"
  shows "php_http_cookie_list_to_string env l = concat (map (\<lambda>a. cookie_item a @ ''; '') (cookie_args env cs es l))"
proof -
  have "cstr (ce_format_date env (cl_expires l)) = ce_format_date env (cl_expires l)" if "0 \<le> cl_expires l"
  proof -
    have "\<forall>c\<in>set (ce_format_date env (cl_expires l)). date_char c"
      using env that by (auto simp: cookie_env_ok_def Let_def)
    moreover have "\<not> date_char NUL" by (simp add: date_char_def ctype_simps)
    ultimately show ?thesis by (intro cstr_no_NUL) blast
  qed
  then have date: "(if 0 \<le> cl_expires l then Some (cstr (ce_format_date env (cl_expires l))) else None) = date_text env l"
    by (simp add: date_text_def)
  have entries: "entries_to_string env (cl_cookies l) = concat (map (\<lambda>a. cookie_item a @ ''; '') (enc_items env cs))"
    "entries_to_string env (cl_extras l) = concat (map (\<lambda>a. cookie_item a @ ''; '') (enc_items env es))"
    using ok by (auto simp: cookies_ok_def intro!: entries_text [OF env])
  have attrs: "nonempty_string (cl_path l) = cl_path l" "nonempty_string (cl_domain l) = cl_domain l"
    using ok by (auto simp: cookies_ok_def intro!: attribute_ok_nonempty)
  show ?thesis
    unfolding php_http_cookie_list_to_string_def date entries attrs attribute_text cookie_args_def attribute_items_def flag_items_def
    by (simp add: age_text_def cookie_item_def)
qed

section \<open>Round trip\<close>

lemma cookie_args_ok:
  assumes env: "cookie_env_ok env" and ok: "cookies_ok allowed cs es l"
  shows "list_all cookie_arg (cookie_args env cs es l)"
proof -
  have enc: "plain_val (pe_raw_url_encode (ce_params env) v)" for v
  proof -
    have "plain_char c \<and> c \<noteq> SP" if "c \<in> set (pe_raw_url_encode (ce_params env) v)" for c
    proof -
      have "unreserved c \<or> c = CHR ''%''" using env that unfolding cookie_env_ok_def by blast
      moreover have "plain_char CHR ''%''" by (simp add: plain_char_def)
      ultimately show ?thesis using unreserved_plain [of c] by auto
    qed
    then show ?thesis unfolding plain_val_def using hd_in_set last_in_set by blast
  qed
  have entries: "list_all cookie_arg (enc_items env xs)" if "\<forall>k\<in>fst ` set xs. cookie_name k" for xs
    using that enc by (auto simp: enc_items_def cookie_arg_def list_all_iff)
  have names: "cookie_name ''domain''" "cookie_name ''path''" "cookie_name ''expires''" "cookie_name ''max-age''"
    "cookie_name ''secure''" "cookie_name ''httpOnly''"
    by (simp_all add: cookie_name_def unreserved_def ctype_simps)
  have date: "plain_val s" if "date_text env l = Some s" for s
  proof -
    have d: "s \<noteq> []" "\<forall>c\<in>set s. date_char c" "isalnum (hd s)" "isalnum (last s)"
      using env that by (auto simp: date_text_def cookie_env_ok_def Let_def split: if_splits)
    have "plain_char c" if "date_char c" for c
      using that by (auto simp: date_char_def plain_char_def ctype_simps)
    moreover have "\<not> isalnum SP" by (simp add: ctype_simps)
    ultimately show ?thesis using d by (auto simp: plain_val_def)
  qed
  have age: "plain_val s" if "age_text l = Some s" for s
  proof -
    have s: "s = dec (nat (cl_max_age l))" using that by (auto simp: age_text_def print_long_def split: if_splits)
    have "\<forall>c\<in>set s. plain_char c \<and> c \<noteq> SP"
      using dec_isdigit [of "nat (cl_max_age l)"] unfolding s by (auto simp: plain_char_def ctype_simps)
    then show ?thesis unfolding plain_val_def by (metis hd_in_set last_in_set)
  qed
  have "list_all cookie_arg (attribute_items env l)"
    using ok names date age by (auto simp: attribute_items_def opt_item_def cookie_arg_def cookies_ok_def attribute_ok_def split: option.splits)
  moreover have "list_all cookie_arg (flag_items l)"
    using names by (auto simp: flag_items_def cookie_arg_def)
  ultimately show ?thesis
    using ok entries by (auto simp: cookie_args_def cookies_ok_def)
qed

lemma literal_reserved: "reserved r" if "r \<in> set attribute_names" for r
  using that by (auto simp: reserved_def strcaseeq_def)

lemma cookie_args_distinct:
  assumes "cookies_ok allowed cs es l"
  shows "distinct (map fst (enc_items env (tl cs) @ attribute_items env l @ enc_items env es @ flag_items l))"
proof -
  have keys: "map fst (enc_items env xs) = map fst xs" for xs by (simp add: enc_items_def comp_def case_prod_beta)
  have attrs: "set (map fst (attribute_items env l)) \<subseteq> {''domain'', ''path'', ''expires'', ''max-age''}"
    "distinct (map fst (attribute_items env l))"
    by (auto simp: attribute_items_def opt_item_def split: option.split)
  have flags: "set (map fst (flag_items l)) \<subseteq> {''secure'', ''httpOnly''}" "distinct (map fst (flag_items l))"
    by (auto simp: flag_items_def)
  have names: "r \<in> set attribute_names" if "r \<in> {''domain'', ''path'', ''expires'', ''max-age''} \<union> {''secure'', ''httpOnly''}" for r
    using that by (auto simp: attribute_names_def)
  have cs: "distinct (map fst (tl cs))" "distinct (map fst es)" "set (map fst (tl cs)) \<inter> set (map fst es) = {}"
    using assms by (cases cs; fastforce simp: cookies_ok_def)+
  have free: "set (map fst (tl cs)) \<union> set (map fst es) \<subseteq> {k. \<not> reserved k}"
    using assms by (cases cs) (auto simp: cookies_ok_def)
  have "set (map fst (attribute_items env l)) \<union> set (map fst (flag_items l)) \<subseteq> {k. reserved k}"
    using attrs(1) flags(1) names literal_reserved by blast
  moreover have "set (map fst (attribute_items env l)) \<inter> set (map fst (flag_items l)) = {}"
  proof -
    have "{''domain'', ''path'', ''expires'', ''max-age''} \<inter> {''secure'', ''httpOnly''} = {}" by simp
    then show ?thesis using attrs(1) flags(1) by blast
  qed
  ultimately show ?thesis
    unfolding map_append keys distinct_append set_append using cs free attrs(2) flags(2) by blast
qed


section \<open>A sample host\<close>

definition sample_cookie_env :: cookie_env where
  "sample_cookie_env =
     \<lparr>ce_params = sample_params_env, ce_raw_url_decode = raw_url_decode, ce_parse_date = (\<lambda>s. int (digits_val 10 s)),
      ce_format_date = print_long, ce_str_long = (\<lambda>s. int (digits_val 10 s)),
      ce_is_numeric = (\<lambda>s. if s \<noteq> [] \<and> list_all isdigit s then Some (int (digits_val 10 s)) else None)\<rparr>"

lemma sample_cookie_env_ok: "cookie_env_ok sample_cookie_env"
proof -
  have ce: "ce_params sample_cookie_env = sample_params_env" "ce_raw_url_decode sample_cookie_env = raw_url_decode"
    by (simp_all add: sample_cookie_env_def)
  have encode: "pe_raw_url_encode sample_params_env = raw_url_encode" by (simp add: sample_params_env_def)
  have 1: "pe_trim sample_params_env None (SP # s) = pe_trim sample_params_env None s" for s
    by (simp add: sample_params_env_def trim_chars_def)
  have 2: "unreserved c \<or> c = CHR ''%''" if "c \<in> set (raw_url_encode s)" for s c
    using that by (rule raw_url_encode_chars)
  have 3: "raw_url_encode s = s" if "\<forall>c\<in>set s. unreserved c" for s
    using that by (induction s) (auto simp: raw_url_encode_def unreserved_def)
  have nat: "0 \<le> t \<Longrightarrow> print_long t = dec (nat t)" for t by (simp add: print_long_def)
  have digits: "\<forall>c\<in>set (dec n). isalnum c" for n
    using dec_isdigit [of n] by (auto simp: isalnum_def)
  have 4: "let d = ce_format_date sample_cookie_env t in d \<noteq> [] \<and> (\<forall>c\<in>set d. date_char c) \<and> isalnum (hd d) \<and> isalnum (last d) \<and>
      ce_parse_date sample_cookie_env d = t" if "0 \<le> t" for t
    using that digits [of "nat t"] by (simp add: sample_cookie_env_def nat date_char_def digits_val_print_num)
  have 5: "ce_str_long sample_cookie_env (print_long i) = i" if "0 \<le> i" for i
    using that by (simp add: sample_cookie_env_def nat digits_val_print_num)
  show ?thesis
    unfolding cookie_env_ok_def ce encode
    using sample_params_env_ok 1 2 3 4 5 raw_url_decode_encode raw_url_decode_plain by blast
qed

definition sample_cookies :: php_http_cookie_list where
  "sample_cookies =
     \<lparr>cl_cookies = entries_table [(''sid'', ''a;b=c''), (''7'', [])], cl_extras = entries_table [(''comment'', ''no more'')],
      cl_flags = PHP_HTTP_COOKIE_SECURE, cl_path = Some ''/a'', cl_domain = None, cl_expires = 86400, cl_max_age = -1\<rparr>"

lemma sample_cookies_ok: "cookies_ok [''comment''] [(''sid'', ''a;b=c''), (''7'', [])] [(''comment'', ''no more'')] sample_cookies"
proof -
  have "list_all (\<lambda>k. cookie_name k \<and> \<not> reserved k) [''sid'', ''7'', ''comment'']" by code_simp
  moreover have "\<not> allowed_extra [''comment''] ''7''" "allowed_extra [''comment''] ''comment''" by code_simp+
  moreover have "attribute_ok (Some ''/a'')" "attribute_ok None" by (simp_all add: attribute_ok_def plain_val_def plain_char_def)
  moreover have "PHP_HTTP_COOKIE_SECURE AND (PHP_HTTP_COOKIE_SECURE OR PHP_HTTP_COOKIE_HTTPONLY) = PHP_HTTP_COOKIE_SECURE" by code_simp
  ultimately show ?thesis by (simp add: cookies_ok_def sample_cookies_def)
qed


section \<open>Inputs on which the code goes wrong\<close>

text \<open>Names are encoded when a list is printed, but not decoded when it is read.\<close>

lemma cookie_name_not_decoded:
  "map_option (map fst \<circ> snd \<circ> cl_cookies)
     (php_http_cookie_list_parse sample_cookie_env
        (php_http_cookie_list_to_string sample_cookie_env (cookie_setCookie ''a b'' (Some ''x'') php_http_cookie_list_init)) 0 []) =
   Some [KStr ''a%20b'']"
  by code_simp

text \<open>Adding a cookie that exists makes a list of both values, which cannot be read and is printed as \<open>Array\<close>.\<close>

lemma add_cookies_twice:
  "let l = cookie_addCookies (0, [(KStr ''a'', ZStr ''2'')]) (cookie_setCookie ''a'' (Some ''1'') php_http_cookie_list_init) in
   cookie_getCookie ''a'' l = ZNull \<and> php_http_cookie_list_to_string sample_cookie_env l = ''a=Array; ''"
  by code_simp

text \<open>Path and domain are printed as they are, so that they may bring attributes of their own.\<close>

lemma cookie_path_injects:
  "map_option (\<lambda>l. cl_flags l AND PHP_HTTP_COOKIE_SECURE \<noteq> 0)
     (php_http_cookie_list_parse sample_cookie_env
        (php_http_cookie_list_to_string sample_cookie_env
           (cookie_setPath (Some ''/; secure'') (cookie_setCookie ''a'' (Some ''1'') php_http_cookie_list_init))) 0 []) = Some True"
  by code_simp

text \<open>A cookie whose name ends in an asterisk is stored as the text \<open>Array\<close> under another name.\<close>

lemma cookie_extended_name:
  "map_option (snd \<circ> cl_cookies) (php_http_cookie_list_parse sample_cookie_env ''a=1; b*=2'' 0 []) =
     Some [(KStr ''a'', ZStr ''1''), (KStr ''*rfc5987*'', ZStr ''Array'')]"
  by code_simp

text \<open>A name is taken for an extra if it is the beginning of the name of an allowed one.\<close>

lemma cookie_extra_prefix:
  "map_option (snd \<circ> cl_extras) (php_http_cookie_list_parse sample_cookie_env ''a=1; c=2'' 0 [''comment'']) = Some [(KStr ''c'', ZStr ''2'')]"
  by code_simp

end
