(* ===== verification/Http_Querystring.thy ===== *)
theory Http_Querystring
  imports Http_Params
begin

unbundle bit_operations_syntax

text \<open>
  Query strings (\<open>php_http_querystring.c\<close>): the property \<open>queryArray\<close> of \<open>http\QueryString\<close> and the methods
  that read, update and print it, with the hash encoder of \<open>php_http_url.c\<close>. The state of an object is the
  value of its property. Values are no objects, except that a query string may be given as parameters.

  A result \<^const>\<open>None\<close> is undefined behaviour in the parser of parameters. Outside of the sources are the two
  settings for separators, \<open>iconv\<close>, and the conversion of a value to a type.
\<close>

section \<open>State\<close>

record query_env =
  qe_params :: params_env
  qe_arg_separator_input :: bytes
  qe_arg_separator_output :: bytes
  qe_iconv :: "bytes \<Rightarrow> bytes \<Rightarrow> bytes \<Rightarrow> bytes option"
  qe_convert_to_explicit_type :: "zval \<Rightarrow> int \<Rightarrow> zval"
  qe_IS_BOOL :: int

definition QS_MERGE :: "32 word" where "QS_MERGE = 1"

text \<open>What a method gets as parameters: a value, or a query string with the value of its property.\<close>

datatype query_params = Params zval | QueryString zval

section \<open>Encoding\<close>

definition php_http_url_argsep :: "query_env \<Rightarrow> bytes" where
  "php_http_url_argsep env = (if qe_arg_separator_output env = [] then ''&'' else qe_arg_separator_output env)"

definition php_http_url_encode_hash_ex :: "params_env \<Rightarrow> hashtable \<Rightarrow> bytes \<Rightarrow> bytes \<Rightarrow> bytes \<Rightarrow> bytes \<Rightarrow> bytes" where
  "php_http_url_encode_hash_ex env hash qstr arg_sep val_sep pre_encoded =
     php_http_params_to_string env (qstr @ pre_encoded) hash arg_sep [] val_sep PHP_HTTP_PARAMS_QUERY"

definition php_http_url_encode_hash :: "query_env \<Rightarrow> hashtable \<Rightarrow> bytes \<Rightarrow> bytes" where
  "php_http_url_encode_hash env hash pre_encoded =
     php_http_url_encode_hash_ex (qe_params env) hash [] (php_http_url_argsep env) ''='' pre_encoded"

section \<open>Parsing\<close>

text \<open>Each byte of the setting is a separator.\<close>

definition query_separators :: "query_env \<Rightarrow> bytes list" where
  "query_separators env =
     (case qe_arg_separator_input env of
        [] \<Rightarrow> [''&'']
      | c # r \<Rightarrow>
          php_http_params_separator_init
            (Some (zarr (fold (\<lambda>c ht. zend_hash_next_index_insert ht (ZStr [c])) (c # cstr r) zend_hash_init))))"

definition query_opts :: "query_env \<Rightarrow> bytes \<Rightarrow> php_http_params_opts" where
  "query_opts env str =
     \<lparr>opts_input = str, opts_param = query_separators env, opts_arg = [], opts_val = [''=''],
      opts_defval = Some (ZBool True), opts_flags = PHP_HTTP_PARAMS_QUERY\<rparr>"

definition apply_querystring :: "zval \<Rightarrow> zval" where
  "apply_querystring v =
     (case v of ZArr n es \<Rightarrow> (case map_of es (KStr ''value'') of Some w \<Rightarrow> w | None \<Rightarrow> v) | _ \<Rightarrow> v)"

definition php_http_querystring_parse :: "query_env \<Rightarrow> hashtable \<Rightarrow> bytes \<Rightarrow> hashtable option" where
  "php_http_querystring_parse env ht str =
     map_option (\<lambda>(n, es). (n, map (\<lambda>(k, v). (k, apply_querystring v)) es))
       (php_http_params_parse (qe_params env) (Some ht) (query_opts env str))"

section \<open>Updating\<close>

text \<open>Removal of null values and of arrays that are empty, at all depths.\<close>

fun apply_querystring_filter :: "zval \<Rightarrow> zval option"
  and filter_elements :: "(zkey \<times> zval) list \<Rightarrow> (zkey \<times> zval) list" where
  "apply_querystring_filter v =
     (case v of
        ZNull \<Rightarrow> None
      | ZArr n es \<Rightarrow> (let es' = filter_elements es in if es' = [] then None else Some (ZArr n es'))
      | _ \<Rightarrow> Some v)"
| "filter_elements [] = []"
| "filter_elements ((k, v) # es) =
     (case apply_querystring_filter v of Some w \<Rightarrow> (k, w) # filter_elements es | None \<Rightarrow> filter_elements es)"

definition filter_table :: "hashtable \<Rightarrow> hashtable" where
  "filter_table ht = (fst ht, filter_elements (snd ht))"

text \<open>A duplicate of a value: elements without a value are left out.\<close>

definition zval_dup :: "zval \<Rightarrow> zval" where
  "zval_dup v = (case v of ZArr n es \<Rightarrow> ZArr n (live (n, es)) | _ \<Rightarrow> v)"

definition add_zval :: "hashtable \<Rightarrow> zkey \<Rightarrow> zval \<Rightarrow> hashtable" where
  "add_zval ht k v = zend_hash_update ht (case k of KStr s \<Rightarrow> symtable_key s | KInt h \<Rightarrow> KInt h) v"

text \<open>
  The loop over the parameters. The updated value is stored without a value (\<open>tmp\<close>) when the old and the
  new one are identical.
\<close>

fun update_loop :: "hashtable \<Rightarrow> (zkey \<times> zval) list \<Rightarrow> hashtable" where
  "update_loop qarray [] = qarray"
| "update_loop qarray ((key, params_entry) # r) =
     update_loop
       (if params_entry = ZUndef \<or> dim_hidden key then qarray
        else if params_entry = ZNull then zend_hash_del qarray key
        else case zend_hash_find qarray key of
               Some qarray_entry \<Rightarrow>
                 zend_hash_update qarray key
                   (case params_entry of
                      ZArr n es \<Rightarrow> zarr (filter_table (update_loop (convert_to_array (zval_dup qarray_entry)) es))
                    | _ \<Rightarrow> if qarray_entry = params_entry then ZUndef else params_entry)
             | None \<Rightarrow> add_zval qarray key params_entry) r"

definition php_http_querystring_update :: "query_env \<Rightarrow> zval \<Rightarrow> query_params option \<Rightarrow> hashtable option" where
  "php_http_querystring_update env qarray params =
     (case params of
        None \<Rightarrow> Some (filter_table (convert_to_array qarray))
      | Some p \<Rightarrow>
          map_option (\<lambda>ht. filter_table (update_loop (convert_to_array qarray) (snd ht)))
            (case p of
               QueryString qa \<Rightarrow> Some (convert_to_array qa)
             | Params (ZArr n es) \<Rightarrow> Some (n, es)
             | Params v \<Rightarrow> php_http_querystring_parse env zend_hash_init (zval_get_string v)))"

definition php_http_querystring_set :: "query_env \<Rightarrow> zval \<Rightarrow> query_params option \<Rightarrow> 32 word \<Rightarrow> zval option" where
  "php_http_querystring_set env queryArray params flags =
     (let qa = (if flags AND QS_MERGE \<noteq> 0
                then (case queryArray of ZArr n es \<Rightarrow> array_copy (n, es) zend_hash_init | _ \<Rightarrow> zend_hash_init)
                else zend_hash_init)
      in map_option zarr (php_http_querystring_update env (zarr qa) params))"

text \<open>The string, and the property: printing removes what the filter removes.\<close>

definition php_http_querystring_str :: "query_env \<Rightarrow> zval \<Rightarrow> bytes \<times> zval" where
  "php_http_querystring_str env queryArray =
     (case queryArray of
        ZArr n es \<Rightarrow> (let ht = filter_table (n, es) in (php_http_url_encode_hash env ht [], zarr ht))
      | _ \<Rightarrow> ([], queryArray))"

section \<open>Reading\<close>

definition Z_TYPE :: "zval \<Rightarrow> int" where
  "Z_TYPE v = (case v of ZUndef \<Rightarrow> 0 | ZNull \<Rightarrow> 1 | ZBool b \<Rightarrow> (if b then 3 else 2) | ZLong _ \<Rightarrow> 4 | ZStr _ \<Rightarrow> 6 | ZArr _ _ \<Rightarrow> 7)"

definition PHP_HTTP_QUERYSTRING_TYPE_BOOL :: "query_env \<Rightarrow> int" where "PHP_HTTP_QUERYSTRING_TYPE_BOOL env = qe_IS_BOOL env"
definition PHP_HTTP_QUERYSTRING_TYPE_INT :: int where "PHP_HTTP_QUERYSTRING_TYPE_INT = 4"
definition PHP_HTTP_QUERYSTRING_TYPE_FLOAT :: int where "PHP_HTTP_QUERYSTRING_TYPE_FLOAT = 5"
definition PHP_HTTP_QUERYSTRING_TYPE_STRING :: int where "PHP_HTTP_QUERYSTRING_TYPE_STRING = 6"
definition PHP_HTTP_QUERYSTRING_TYPE_ARRAY :: int where "PHP_HTTP_QUERYSTRING_TYPE_ARRAY = 7"
definition PHP_HTTP_QUERYSTRING_TYPE_OBJECT :: int where "PHP_HTTP_QUERYSTRING_TYPE_OBJECT = 8"

definition php_http_querystring_get ::
  "query_env \<Rightarrow> zval \<Rightarrow> int \<Rightarrow> bytes \<Rightarrow> zval option \<Rightarrow> bool \<Rightarrow> (zval \<times> zval) option" where
  "php_http_querystring_get env queryArray type name defval del =
     (case (case queryArray of ZArr n es \<Rightarrow> zend_hash_find (n, es) (symtable_key name) | _ \<Rightarrow> None) of
        Some arrval \<Rightarrow>
          (let r = (if type \<noteq> 0 \<and> type \<noteq> Z_TYPE arrval then qe_convert_to_explicit_type env (zval_dup arrval) type else arrval) in
           if del then
             map_option (Pair r)
               (php_http_querystring_set env queryArray
                  (Some (Params (zarr (zend_hash_update zend_hash_init (symtable_key name) ZNull)))) QS_MERGE)
           else Some (r, queryArray))
      | None \<Rightarrow> Some (case defval of Some d \<Rightarrow> d | None \<Rightarrow> ZNull, queryArray))"

section \<open>Character sets\<close>

text \<open>\<open>php_http_querystring_xlate\<close>; \<^const>\<open>None\<close> is the failure of a conversion. Values of other types are left out.\<close>

fun php_http_querystring_xlate :: "query_env \<Rightarrow> bytes \<Rightarrow> bytes \<Rightarrow> hashtable \<Rightarrow> (zkey \<times> zval) list \<Rightarrow> hashtable option" where
  "php_http_querystring_xlate env ie oe dst [] = Some dst"
| "php_http_querystring_xlate env ie oe dst ((key, entry) # r) =
     (if entry = ZUndef then php_http_querystring_xlate env ie oe dst r
      else case (case key of KStr s \<Rightarrow> map_option symtable_key (qe_iconv env ie oe s) | KInt h \<Rightarrow> Some (KInt h)) of
        None \<Rightarrow> None
      | Some xkey \<Rightarrow>
          (case entry of
             ZStr s \<Rightarrow>
               (case qe_iconv env ie oe s of
                  None \<Rightarrow> None
                | Some xstr \<Rightarrow> php_http_querystring_xlate env ie oe (zend_hash_update dst xkey (ZStr xstr)) r)
           | ZArr n es \<Rightarrow>
               (case php_http_querystring_xlate env ie oe zend_hash_init es of
                  None \<Rightarrow> None
                | Some subarray \<Rightarrow> php_http_querystring_xlate env ie oe (zend_hash_update dst xkey (zarr subarray)) r)
           | _ \<Rightarrow> php_http_querystring_xlate env ie oe dst r))"

section \<open>Methods\<close>

text \<open>Methods that update the object give the value of the property afterwards.\<close>

definition query_construct :: "query_env \<Rightarrow> query_params option \<Rightarrow> zval option" where
  "query_construct env params = php_http_querystring_set env ZNull params 0"

definition query_toString :: "query_env \<Rightarrow> zval \<Rightarrow> bytes \<times> zval" where
  "query_toString env queryArray = php_http_querystring_str env queryArray"

definition query_toArray :: "zval \<Rightarrow> zval" where
  "query_toArray queryArray = queryArray"

definition query_type :: "query_env \<Rightarrow> zval option \<Rightarrow> int" where
  "query_type env ztype =
     (case ztype of
        Some (ZLong i) \<Rightarrow> i
      | Some (ZStr s) \<Rightarrow>
          (case s of
             [] \<Rightarrow> 0
           | c # _ \<Rightarrow>
               if c \<in> {CHR ''B'', CHR ''b''} then PHP_HTTP_QUERYSTRING_TYPE_BOOL env
               else if c \<in> {CHR ''L'', CHR ''l'', CHR ''I'', CHR ''i''} then PHP_HTTP_QUERYSTRING_TYPE_INT
               else if c \<in> {CHR ''d'', CHR ''D'', CHR ''F'', CHR ''f''} then PHP_HTTP_QUERYSTRING_TYPE_FLOAT
               else if c \<in> {CHR ''S'', CHR ''s''} then PHP_HTTP_QUERYSTRING_TYPE_STRING
               else if c \<in> {CHR ''A'', CHR ''a''} then PHP_HTTP_QUERYSTRING_TYPE_ARRAY
               else if c \<in> {CHR ''O'', CHR ''o''} then PHP_HTTP_QUERYSTRING_TYPE_OBJECT
               else 0)
      | _ \<Rightarrow> 0)"

definition query_get :: "query_env \<Rightarrow> zval \<Rightarrow> bytes \<Rightarrow> zval option \<Rightarrow> zval option \<Rightarrow> bool \<Rightarrow> (zval \<times> zval) option" where
  "query_get env queryArray name ztype defval del =
     (if name \<noteq> [] then php_http_querystring_get env queryArray (query_type env ztype) name defval del
      else case php_http_querystring_str env queryArray of (s, qa) \<Rightarrow> Some (ZStr s, qa))"

definition query_set :: "query_env \<Rightarrow> zval \<Rightarrow> query_params \<Rightarrow> zval option" where
  "query_set env queryArray params = php_http_querystring_set env queryArray (Some params) QS_MERGE"

text \<open>\<open>mod\<close> gives the property of the clone.\<close>

definition query_mod :: "query_env \<Rightarrow> zval \<Rightarrow> query_params \<Rightarrow> zval option" where
  "query_mod env queryArray params = php_http_querystring_set env queryArray (Some params) QS_MERGE"

definition query_getInt :: "query_env \<Rightarrow> zval \<Rightarrow> bytes \<Rightarrow> zval option \<Rightarrow> bool \<Rightarrow> (zval \<times> zval) option" where
  "query_getInt env queryArray name defval del =
     php_http_querystring_get env queryArray PHP_HTTP_QUERYSTRING_TYPE_INT name defval del"

definition query_getBool :: "query_env \<Rightarrow> zval \<Rightarrow> bytes \<Rightarrow> zval option \<Rightarrow> bool \<Rightarrow> (zval \<times> zval) option" where
  "query_getBool env queryArray name defval del =
     php_http_querystring_get env queryArray (PHP_HTTP_QUERYSTRING_TYPE_BOOL env) name defval del"

definition query_getFloat :: "query_env \<Rightarrow> zval \<Rightarrow> bytes \<Rightarrow> zval option \<Rightarrow> bool \<Rightarrow> (zval \<times> zval) option" where
  "query_getFloat env queryArray name defval del =
     php_http_querystring_get env queryArray PHP_HTTP_QUERYSTRING_TYPE_FLOAT name defval del"

definition query_getString :: "query_env \<Rightarrow> zval \<Rightarrow> bytes \<Rightarrow> zval option \<Rightarrow> bool \<Rightarrow> (zval \<times> zval) option" where
  "query_getString env queryArray name defval del =
     php_http_querystring_get env queryArray PHP_HTTP_QUERYSTRING_TYPE_STRING name defval del"

definition query_getArray :: "query_env \<Rightarrow> zval \<Rightarrow> bytes \<Rightarrow> zval option \<Rightarrow> bool \<Rightarrow> (zval \<times> zval) option" where
  "query_getArray env queryArray name defval del =
     php_http_querystring_get env queryArray PHP_HTTP_QUERYSTRING_TYPE_ARRAY name defval del"

definition query_getObject :: "query_env \<Rightarrow> zval \<Rightarrow> bytes \<Rightarrow> zval option \<Rightarrow> bool \<Rightarrow> (zval \<times> zval) option" where
  "query_getObject env queryArray name defval del =
     php_http_querystring_get env queryArray PHP_HTTP_QUERYSTRING_TYPE_OBJECT name defval del"

text \<open>\<open>xlate\<close>: the property, and the exception if a conversion failed.\<close>

datatype query_error = bad_conversion

definition query_xlate :: "query_env \<Rightarrow> zval \<Rightarrow> bytes \<Rightarrow> bytes \<Rightarrow> (zval \<times> query_error option) option" where
  "query_xlate env queryArray ie oe =
     (let qa = convert_to_array queryArray in
      case php_http_querystring_xlate env ie oe zend_hash_init (snd qa) of
        None \<Rightarrow> Some (zarr qa, Some bad_conversion)
      | Some na \<Rightarrow> map_option (\<lambda>v. (v, None)) (php_http_querystring_set env (zarr qa) (Some (Params (zarr na))) 0))"

definition query_serialize :: "query_env \<Rightarrow> zval \<Rightarrow> bytes \<times> zval" where
  "query_serialize env queryArray = php_http_querystring_str env queryArray"

definition query_unserialize :: "query_env \<Rightarrow> zval \<Rightarrow> zval \<Rightarrow> zval option" where
  "query_unserialize env queryArray serialized =
     (case serialized of
        ZStr s \<Rightarrow> php_http_querystring_set env queryArray (Some (Params (ZStr s))) 0
      | _ \<Rightarrow> Some queryArray)"

definition query_magic_unserialize :: "query_env \<Rightarrow> hashtable \<Rightarrow> zval option" where
  "query_magic_unserialize env qa = php_http_querystring_set env ZNull (Some (Params (zarr qa))) 0"

definition query_offsetGet :: "zval \<Rightarrow> bytes \<Rightarrow> zval" where
  "query_offsetGet queryArray offset =
     (case queryArray of
        ZArr n es \<Rightarrow> (case zend_hash_find (n, es) (symtable_key offset) of Some v \<Rightarrow> v | None \<Rightarrow> ZNull)
      | _ \<Rightarrow> ZNull)"

definition query_offsetUnset :: "query_env \<Rightarrow> zval \<Rightarrow> bytes \<Rightarrow> zval option" where
  "query_offsetUnset env queryArray offset =
     php_http_querystring_set env queryArray
       (Some (Params (zarr (zend_hash_update zend_hash_init (symtable_key offset) ZNull)))) QS_MERGE"

definition query_offsetSet :: "query_env \<Rightarrow> zval \<Rightarrow> bytes \<Rightarrow> zval \<Rightarrow> zval option" where
  "query_offsetSet env queryArray offset v =
     (let param = zend_hash_update zend_hash_init (symtable_key offset) ZNull in
      case php_http_querystring_set env queryArray (Some (Params (zarr param))) QS_MERGE of
        None \<Rightarrow> None
      | Some qa \<Rightarrow>
          php_http_querystring_set env qa (Some (Params (zarr (zend_hash_update param (symtable_key offset) v)))) QS_MERGE)"

definition query_offsetExists :: "zval \<Rightarrow> bytes \<Rightarrow> bool" where
  "query_offsetExists queryArray offset =
     (case queryArray of
        ZArr n es \<Rightarrow> (case zend_hash_find (n, es) (symtable_key offset) of Some v \<Rightarrow> v \<noteq> ZNull | None \<Rightarrow> False)
      | _ \<Rightarrow> False)"

end
