(* ===== verification/Http_Querystring_Tree.thy ===== *)
theory Http_Querystring_Tree
  imports Http_Querystring Http_Params_Read
begin

text \<open>
  Nested arrays as trees: the paths to their leaves, and the reconstruction of an array by storing one
  leaf after the other. The parser of parameters stores the value of a name with dimensions in this way.
\<close>

section \<open>Storing at a path\<close>

fun put_path :: "zval \<Rightarrow> zkey list \<Rightarrow> zval \<Rightarrow> zval" where
  "put_path v [] w = w"
| "put_path v (k # p) w =
     (case v of
        ZArr n es \<Rightarrow>
          (case map_of es k of
             Some x \<Rightarrow> ZArr n (assoc_update k (put_path x p w) es)
           | None \<Rightarrow> ZArr (next_free k n) (es @ [(k, put_path ZNull p w)]))
      | _ \<Rightarrow> ZArr (next_free k 0) [(k, put_path ZNull p w)])"

text \<open>
  The path leaves the existing value at a key that is missing there and is not the integer 0, which stands
  for the next free index.
\<close>

fun fresh :: "zval \<Rightarrow> zkey list \<Rightarrow> bool" where
  "fresh (ZArr n es) (k # p) = (case map_of es k of None \<Rightarrow> k \<noteq> KInt 0 | Some x \<Rightarrow> fresh x p)"
| "fresh _ _ = False"

fun put_all :: "zval \<Rightarrow> (zkey list \<times> bytes) list \<Rightarrow> zval" where
  "put_all v [] = v"
| "put_all v ((p, s) # r) = put_all (put_path v p (ZStr s)) r"

fun fresh_all :: "zval \<Rightarrow> (zkey list \<times> bytes) list \<Rightarrow> bool" where
  "fresh_all v [] = True"
| "fresh_all v ((p, s) # r) = (fresh v p \<and> fresh_all (put_path v p (ZStr s)) r)"

text \<open>All leaves but the first one are fresh when they are stored.\<close>

definition fresh_rest :: "(zkey list \<times> bytes) list \<Rightarrow> bool" where
  "fresh_rest items = (case items of [] \<Rightarrow> False | (p, s) # r \<Rightarrow> fresh_all (put_path ZNull p (ZStr s)) r)"

fun leaves :: "zval \<Rightarrow> (zkey list \<times> bytes) list"
  and leaves_of :: "(zkey \<times> zval) list \<Rightarrow> (zkey list \<times> bytes) list" where
  "leaves (ZStr s) = [([], s)]"
| "leaves (ZArr n es) = leaves_of es"
| "leaves _ = []"
| "leaves_of [] = []"
| "leaves_of ((k, v) # es) = map (\<lambda>(p, s). (k # p, s)) (leaves v) @ leaves_of es"

abbreviation under :: "zkey \<Rightarrow> (zkey list \<times> bytes) list \<Rightarrow> (zkey list \<times> bytes) list" where
  "under k items \<equiv> map (\<lambda>(p, s). (k # p, s)) items"

text \<open>Trees with strings at their leaves; the integer 0 may only be the first key of an array.\<close>

fun tree_ok :: "zval \<Rightarrow> bool" where
  "tree_ok (ZStr s) = True"
| "tree_ok (ZArr n es) \<longleftrightarrow> es \<noteq> [] \<and> distinct (map fst es) \<and> n = fold next_free (map fst es) 0 \<and>
     KInt 0 \<notin> set (map fst (tl es)) \<and> list_all (\<lambda>e. tree_ok (snd e)) es"
| "tree_ok _ = False"

lemma assoc_update_same: "map_of es k = Some x \<Longrightarrow> assoc_update k x es = es"
  by (induction es) auto

lemma assoc_update_last: "k \<notin> fst ` set es \<Longrightarrow> assoc_update k y (es @ [(k, x)]) = es @ [(k, y)]"
  by (induction es) auto

lemma put_all_append: "put_all v (a @ b) = put_all (put_all v a) b"
  by (induction a arbitrary: v) auto

lemma fresh_all_append: "fresh_all v (a @ b) = (fresh_all v a \<and> fresh_all (put_all v a) b)"
  by (induction a arbitrary: v) auto

lemma under_present:
  assumes "map_of es k = Some x"
  shows "put_all (ZArr n es) (under k items) = ZArr n (assoc_update k (put_all x items) es)"
    and "fresh_all (ZArr n es) (under k items) = fresh_all x items"
  using assms by (induction items arbitrary: es x) (auto simp: assoc_update_same map_of_assoc_update)

lemma under_new:
  assumes "map_of es k = None" "fresh_rest items"
  shows "put_all (ZArr n es) (under k items) = ZArr (next_free k n) (es @ [(k, put_all ZNull items)])"
    and "k \<noteq> KInt 0 \<Longrightarrow> fresh_all (ZArr n es) (under k items)"
proof -
  obtain p s r where items: "items = (p, s) # r" "fresh_all (put_path ZNull p (ZStr s)) r"
    using assms(2) by (auto simp: fresh_rest_def split: list.splits)
  have k: "k \<notin> fst ` set es" "map_of (es @ [(k, y)]) k = Some y" for y
    using assms(1) by (simp add: map_of_eq_None_iff, simp add: map_add_def)
  show "put_all (ZArr n es) (under k items) = ZArr (next_free k n) (es @ [(k, put_all ZNull items)])"
    using assms(1) k by (simp add: items(1) under_present(1) assoc_update_last)
  show "k \<noteq> KInt 0 \<Longrightarrow> fresh_all (ZArr n es) (under k items)"
    using assms(1) k items(2) by (simp add: items(1) under_present(2))
qed

definition rebuilds :: "zval \<Rightarrow> bool" where
  "rebuilds t \<longleftrightarrow> fresh_rest (leaves t) \<and> put_all ZNull (leaves t) = t"

lemma leaves_of_rebuild:
  assumes "list_all (\<lambda>e. rebuilds (snd e)) es" "distinct (map fst (es0 @ es))"
  shows "put_all (ZArr n es0) (leaves_of es) = ZArr (fold next_free (map fst es) n) (es0 @ es) \<and>
         (KInt 0 \<notin> set (map fst es) \<longrightarrow> fresh_all (ZArr n es0) (leaves_of es))"
  using assms
proof (induction es arbitrary: n es0)
  case (Cons e es)
  obtain k t where e: "e = (k, t)" by force
  have None: "map_of es0 k = None" using Cons.prems by (auto simp: e map_of_eq_None_iff)
  have t: "fresh_rest (leaves t)" "put_all ZNull (leaves t) = t" using Cons.prems by (simp_all add: e rebuilds_def)
  note new = under_new [OF None t(1)]
  have "put_all (ZArr (next_free k n) (es0 @ [(k, t)])) (leaves_of es) =
        ZArr (fold next_free (map fst es) (next_free k n)) ((es0 @ [(k, t)]) @ es) \<and>
      (KInt 0 \<notin> set (map fst es) \<longrightarrow> fresh_all (ZArr (next_free k n) (es0 @ [(k, t)])) (leaves_of es))"
    using Cons.prems by (intro Cons.IH) (simp_all add: e)
  then show ?case using new t(2) by (auto simp: e put_all_append fresh_all_append)
qed simp

lemma tree_rebuilds: "tree_ok v \<Longrightarrow> rebuilds v"
proof (induction v)
  case (ZArr n es)
  obtain k t r where es: "es = (k, t) # r" using ZArr.prems by (cases es) auto
  have el: "list_all (\<lambda>e. rebuilds (snd e)) es"
    using ZArr by (force simp: list_all_iff)
  then have t: "fresh_rest (leaves t)" "put_all ZNull (leaves t) = t" by (simp_all add: es rebuilds_def)
  obtain p s q where items: "leaves t = (p, s) # q" "fresh_all (put_path ZNull p (ZStr s)) q"
    using t(1) by (auto simp: fresh_rest_def split: list.splits)
  let ?c = "ZArr (next_free k 0) [(k, put_path ZNull p (ZStr s))]"
  have c: "put_all ?c (under k q) = ZArr (next_free k 0) [(k, t)]" "fresh_all ?c (under k q)"
    using items t(2) by (simp_all add: under_present)
  have rest: "put_all (ZArr (next_free k 0) [(k, t)]) (leaves_of r) = ZArr (fold next_free (map fst r) (next_free k 0)) ([(k, t)] @ r)"
    "fresh_all (ZArr (next_free k 0) [(k, t)]) (leaves_of r)"
    using leaves_of_rebuild [of r "[(k, t)]"] el ZArr.prems by (simp_all add: es)
  have "leaves (ZArr n es) = (k # p, s) # under k q @ leaves_of r" by (simp add: es items)
  then show ?case
    using c rest ZArr.prems by (simp add: rebuilds_def fresh_rest_def fresh_all_append put_all_append es)
qed (simp_all add: rebuilds_def fresh_rest_def)

end
