(* ===== verification/Http_Querystring_Laws.thy ===== *)
theory Http_Querystring_Laws
  imports Http_Querystring Http_Params_Read Http_Host
begin

unbundle bit_operations_syntax

text \<open>
  What updates of a query string do: the filter leaves no null value and no empty array, an update is
  described element by element, and the methods of \<open>ArrayAccess\<close> behave like a map. The interface that
  clients of \<open>ArrayAccess\<close> rely on is the locale \<open>array_access\<close>.
\<close>

section \<open>The filter\<close>

declare apply_querystring_filter.simps [simp del]

lemma filter_simps [simp]:
  "apply_querystring_filter ZUndef = Some ZUndef" "apply_querystring_filter ZNull = None"
  "apply_querystring_filter (ZBool b) = Some (ZBool b)" "apply_querystring_filter (ZLong i) = Some (ZLong i)"
  "apply_querystring_filter (ZStr s) = Some (ZStr s)"
  "apply_querystring_filter (ZArr n es) = (if filter_elements es = [] then None else Some (ZArr n (filter_elements es)))"
  by (simp_all add: apply_querystring_filter.simps Let_def)

text \<open>No null value and no empty array at any depth.\<close>

fun tidy :: "zval \<Rightarrow> bool" where
  "tidy ZNull = False"
| "tidy (ZArr n es) = (es \<noteq> [] \<and> list_all (\<lambda>e. tidy (snd e)) es)"
| "tidy _ = True"

definition tidy_table :: "hashtable \<Rightarrow> bool" where
  "tidy_table ht = list_all (\<lambda>e. tidy (snd e)) (snd ht)"

lemma filter_tidy:
  "apply_querystring_filter v = Some w \<Longrightarrow> tidy w"
  "list_all (\<lambda>e. tidy (snd e)) (filter_elements es)"
proof (induction v and es arbitrary: w rule: apply_querystring_filter_filter_elements.induct)
  case (1 v)
  then show ?case by (cases v) (auto split: if_splits)
next
  case (3 k v es)
  then show ?case by (auto split: option.splits)
qed simp

lemma tidy_filter:
  "tidy v \<Longrightarrow> apply_querystring_filter v = Some v"
  "list_all (\<lambda>e. tidy (snd e)) es \<Longrightarrow> filter_elements es = es"
proof (induction v and es rule: apply_querystring_filter_filter_elements.induct)
  case (1 v)
  then show ?case by (cases v) auto
qed auto

lemma filter_idem: "apply_querystring_filter v = Some w \<Longrightarrow> apply_querystring_filter w = Some w"
  using filter_tidy(1) tidy_filter(1) by blast

lemma filter_keys: "fst ` set (filter_elements es) \<subseteq> fst ` set es"
proof (induction es)
  case (Cons e es)
  then show ?case by (cases e) (auto simp: subset_iff image_iff split: option.splits)
qed simp

lemma filter_distinct: "distinct (map fst es) \<Longrightarrow> distinct (map fst (filter_elements es))"
proof (induction es)
  case (Cons e es)
  then have "fst e \<notin> fst ` set (filter_elements es)" using filter_keys [of es] by auto
  then show ?case using Cons by (cases e) (auto split: option.splits)
qed simp

lemma map_of_filter_elements:
  "distinct (map fst es) \<Longrightarrow> map_of (filter_elements es) k = Option.bind (map_of es k) apply_querystring_filter"
proof (induction es)
  case (Cons e es)
  obtain k' v where e: "e = (k', v)" by force
  have "k' \<notin> fst ` set (filter_elements es)" using Cons(2) filter_keys [of es] by (auto simp: e)
  then have "map_of (filter_elements es) k' = None" by (simp add: map_of_eq_None_iff)
  then show ?case using Cons by (auto simp: e split: option.splits)
qed simp

lemma filter_table_inv: "ht_inv ht \<Longrightarrow> ht_inv (filter_table ht)"
  using filter_keys [of "snd ht"] by (auto simp: ht_inv_def filter_table_def filter_distinct)

lemma filter_table_find:
  "ht_inv ht \<Longrightarrow> zend_hash_find (filter_table ht) k = Option.bind (zend_hash_find ht k) apply_querystring_filter"
  by (simp add: ht_inv_def filter_table_def zend_hash_find_def map_of_filter_elements)

lemma filter_table_tidy: "tidy_table (filter_table ht)"
  by (simp add: tidy_table_def filter_table_def filter_tidy(2))

section \<open>Updates\<close>

text \<open>The element of an updated table, from the old element and the one of the parameters.\<close>

definition merge_entry :: "zkey \<Rightarrow> zval option \<Rightarrow> zval option \<Rightarrow> zval option" where
  "merge_entry k old new =
     (if dim_hidden k then old
      else case new of
        None \<Rightarrow> old
      | Some v \<Rightarrow>
          if v = ZUndef then old
          else if v = ZNull then None
          else case old of
            None \<Rightarrow> Some v
          | Some e \<Rightarrow>
              Some (case v of
                  ZArr n es \<Rightarrow> zarr (filter_table (update_loop (convert_to_array (zval_dup e)) es))
                | _ \<Rightarrow> if e = v then ZUndef else v))"

definition symtable_keys :: "(zkey \<times> zval) list \<Rightarrow> bool" where
  "symtable_keys es = list_all (\<lambda>e. case fst e of KStr s \<Rightarrow> symtable_key s = KStr s | KInt _ \<Rightarrow> True) es"

lemma symtable_keys_code: "symtable_keys (e # es) = ((case fst e of KStr s \<Rightarrow> symtable_key s = KStr s | KInt _ \<Rightarrow> True) \<and> symtable_keys es)"
  by (simp add: symtable_keys_def)

lemma add_zval_symtable:
  "(case k of KStr s \<Rightarrow> symtable_key s = KStr s | KInt _ \<Rightarrow> True) \<Longrightarrow> add_zval ht k v = zend_hash_update ht k v"
  by (auto simp: add_zval_def split: zkey.splits)

lemma update_loop_find:
  assumes "ht_inv q" "distinct (map fst ps)" "symtable_keys ps"
  shows "ht_inv (update_loop q ps) \<and> zend_hash_find (update_loop q ps) k = merge_entry k (zend_hash_find q k) (map_of ps k)"
  using assms
proof (induction ps arbitrary: q)
  case (Cons e ps)
  obtain key v where e: "e = (key, v)" by force
  define q1 where "q1 =
     (if v = ZUndef \<or> dim_hidden key then q else if v = ZNull then zend_hash_del q key
      else case zend_hash_find q key of
             Some old \<Rightarrow> zend_hash_update q key
               (case v of ZArr n es \<Rightarrow> zarr (filter_table (update_loop (convert_to_array (zval_dup old)) es))
                | _ \<Rightarrow> if old = v then ZUndef else v)
           | None \<Rightarrow> add_zval q key v)"
  have loop: "update_loop q (e # ps) = update_loop q1 ps" by (simp add: e q1_def)
  have add: "add_zval q key v = zend_hash_update q key v"
    using Cons.prems(3) by (intro add_zval_symtable) (simp add: symtable_keys_def e)
  have inv: "ht_inv q1"
    using Cons.prems(1) by (auto simp: q1_def add zht.inv_upd zht.inv_del split: option.splits)
  have here: "zend_hash_find q1 key = merge_entry key (zend_hash_find q key) (Some v)"
    using Cons.prems(1) by (auto simp: q1_def add merge_entry_def zht.find_upd zht.find_del split: option.splits)
  have other: "zend_hash_find q1 k = zend_hash_find q k" if "k \<noteq> key"
    using Cons.prems(1) that by (auto simp: q1_def add zht.find_upd zht.find_del split: option.splits)
  have "key \<notin> fst ` set ps" using Cons.prems(2) by (simp add: e)
  then have None: "map_of ps key = None" by (simp add: map_of_eq_None_iff)
  have "ht_inv (update_loop q1 ps) \<and> zend_hash_find (update_loop q1 ps) k = merge_entry k (zend_hash_find q1 k) (map_of ps k)"
    using Cons.prems inv by (intro Cons.IH) (simp_all add: symtable_keys_def)
  moreover have "merge_entry k (zend_hash_find q1 k) (map_of ps k) = merge_entry k (zend_hash_find q k) (map_of (e # ps) k)"
    using here other None by (cases "k = key") (simp_all add: e merge_entry_def)
  ultimately show ?case by (simp add: loop)
qed (simp add: merge_entry_def)

lemma live_find:
  "distinct (map fst (snd ht)) \<Longrightarrow>
     map_of (live ht) k = (case zend_hash_find ht k of Some v \<Rightarrow> if v = ZUndef then None else Some v | None \<Rightarrow> None)"
proof (induction "snd ht" arbitrary: ht)
  case (Cons e es)
  have IH: "map_of (filter (\<lambda>e. snd e \<noteq> ZUndef) es) k = (case map_of es k of Some v \<Rightarrow> if v = ZUndef then None else Some v | None \<Rightarrow> None)"
    using Cons(1) [of "(0, es)"] Cons(2,3) by (simp add: live_def zend_hash_find_def flip: Cons(2))
  obtain k' v where e: "e = (k', v)" by force
  have "k' \<notin> fst ` set es" using Cons(3) by (simp add: e flip: Cons(2))
  then have "map_of es k' = None" "map_of (filter (\<lambda>e. snd e \<noteq> ZUndef) es) k' = None" by (auto simp: map_of_eq_None_iff)
  then show ?case using IH by (auto simp: live_def zend_hash_find_def e simp flip: Cons(2))
qed (simp add: live_def zend_hash_find_def)

lemma map_of_rev_distinct: "distinct (map fst es) \<Longrightarrow> map_of (rev es) k = map_of es k"
proof (induction es)
  case (Cons e es)
  then have "map_of es (fst e) = None" by (simp add: map_of_eq_None_iff)
  then show ?case using Cons by (cases e) (auto simp: map_add_def split: option.splits)
qed simp

lemma array_copy_find:
  assumes "ht_inv ht"
  shows "ht_inv (array_copy ht zend_hash_init)"
    and "zend_hash_find (array_copy ht zend_hash_init) k =
           (case zend_hash_find ht k of Some v \<Rightarrow> if v = ZUndef then None else Some v | None \<Rightarrow> None)"
proof -
  show "ht_inv (array_copy ht zend_hash_init)" unfolding array_copy_def by (intro zht.upd_all(1)) simp
  have d: "distinct (map fst (snd ht))" using assms by (simp add: ht_inv_def)
  then have "distinct (map fst (live ht))" unfolding live_def by (rule distinct_map_filter)
  then have "map_of (rev (live ht)) k = map_of (live ht) k"
    by (rule map_of_rev_distinct)
  moreover have "zend_hash_find zend_hash_init k = None" by (simp add: zend_hash_find_def zend_hash_init_def)
  ultimately have "zend_hash_find (array_copy ht zend_hash_init) k = map_of (live ht) k"
    unfolding array_copy_def by (subst zht.upd_all(2)) (auto split: option.splits)
  then show "zend_hash_find (array_copy ht zend_hash_init) k =
           (case zend_hash_find ht k of Some v \<Rightarrow> if v = ZUndef then None else Some v | None \<Rightarrow> None)"
    using live_find [OF d] by simp
qed


section \<open>Setting parameters\<close>

lemma convert_zarr [simp]: "convert_to_array (zarr ht) = ht"
  by (simp add: convert_to_array_def zarr_def)

lemma QS_MERGE_set [simp]: "QS_MERGE AND QS_MERGE \<noteq> 0"
  by (simp add: QS_MERGE_def)

text \<open>The elements of a property that reading and updating see.\<close>

definition live_entry :: "hashtable \<Rightarrow> zkey \<Rightarrow> zval option" where
  "live_entry q k = (case zend_hash_find q k of Some v \<Rightarrow> if v = ZUndef then None else Some v | None \<Rightarrow> None)"

lemma set_params:
  "php_http_querystring_set env (zarr q) (Some (Params (zarr ps))) QS_MERGE =
     Some (zarr (filter_table (update_loop (array_copy q zend_hash_init) (snd ps))))"
  by (simp add: php_http_querystring_set_def php_http_querystring_update_def zarr_def convert_to_array_def Let_def QS_MERGE_def)

lemma set_find:
  assumes "ht_inv q" "ht_inv ps" "symtable_keys (snd ps)"
  defines "q' \<equiv> filter_table (update_loop (array_copy q zend_hash_init) (snd ps))"
  shows "ht_inv q' \<and> tidy_table q' \<and>
         zend_hash_find q' k = Option.bind (merge_entry k (live_entry q k) (zend_hash_find ps k)) apply_querystring_filter"
proof -
  let ?u = "update_loop (array_copy q zend_hash_init) (snd ps)"
  have "distinct (map fst (snd ps))" using assms(2) by (simp add: ht_inv_def)
  then have u: "ht_inv ?u" "zend_hash_find ?u k = merge_entry k (live_entry q k) (zend_hash_find ps k)"
    using update_loop_find [OF array_copy_find(1) [OF assms(1)] _ assms(3), of k] array_copy_find(2) [OF assms(1), of k]
    by (simp_all add: live_entry_def zend_hash_find_def)
  then show ?thesis unfolding q'_def by (simp add: filter_table_inv filter_table_tidy filter_table_find)
qed


definition sample_query_env :: query_env where
  "sample_query_env =
     \<lparr>qe_params = sample_params_env, qe_arg_separator_input = ''&;'', qe_arg_separator_output = [],
      qe_iconv = (\<lambda>ie oe s. Some s), qe_convert_to_explicit_type = (\<lambda>v t. if t = 6 then ZStr (zval_get_string v) else v), qe_IS_BOOL = 17\<rparr>"

definition sample_property :: hashtable where
  "sample_property = (0, [(KStr ''a'', ZStr ''1''), (KStr ''b'', zarr (1, [(KInt 0, ZStr ''2'')])), (KStr ''c'', ZStr ''3'')])"

definition sample_update :: hashtable where
  "sample_update = (0, [(KStr ''b'', zarr (2, [(KInt 1, ZStr ''4'')])), (KStr ''c'', ZNull), (KStr ''d'', ZLong 5)])"


section \<open>ArrayAccess\<close>

text \<open>
  What a client of \<open>ArrayAccess\<close> relies on: reading after writing and unsetting, for names and values the
  class accepts.
\<close>

locale array_access =
  fixes ok :: "'s \<Rightarrow> bool" and name_ok :: "'n \<Rightarrow> bool" and val_ok :: "'v \<Rightarrow> bool"
    and get :: "'s \<Rightarrow> 'n \<Rightarrow> 'v option" and offset_set :: "'s \<Rightarrow> 'n \<Rightarrow> 'v \<Rightarrow> 's option" and unset :: "'s \<Rightarrow> 'n \<Rightarrow> 's option"
  assumes set_get: "ok s \<Longrightarrow> name_ok n \<Longrightarrow> val_ok v \<Longrightarrow>
      \<exists>s'. offset_set s n v = Some s' \<and> ok s' \<and> (\<forall>m. get s' m = (if m = n then Some v else get s m))"
    and unset_get: "ok s \<Longrightarrow> name_ok n \<Longrightarrow>
      \<exists>s'. unset s n = Some s' \<and> ok s' \<and> (\<forall>m. get s' m = (if m = n then None else get s m))"
begin

fun run :: "'s \<Rightarrow> ('n \<times> 'v option) list \<Rightarrow> 's option" where
  "run s [] = Some s"
| "run s ((n, v) # r) =
     Option.bind (case v of Some w \<Rightarrow> offset_set s n w | None \<Rightarrow> unset s n) (\<lambda>s'. run s' r)"

lemma run_get:
  assumes "ok s" "list_all (\<lambda>(n, v). name_ok n \<and> (case v of Some w \<Rightarrow> val_ok w | None \<Rightarrow> True)) ops"
  shows "\<exists>s'. run s ops = Some s' \<and> ok s' \<and>
           (\<forall>m. get s' m = (case map_of (rev ops) m of Some v \<Rightarrow> v | None \<Rightarrow> get s m))"
  using assms
proof (induction ops arbitrary: s)
  case (Cons e ops)
  obtain n v where e: "e = (n, v)" by force
  obtain s1 where s1: "(case v of Some w \<Rightarrow> offset_set s n w | None \<Rightarrow> unset s n) = Some s1" "ok s1"
    "\<And>m. get s1 m = (if m = n then v else get s m)"
  proof (cases v)
    case None
    then show ?thesis using that unset_get [of s n] Cons.prems by (auto simp: e)
  next
    case (Some w)
    then show ?thesis using that set_get [of s n w] Cons.prems by (auto simp: e)
  qed
  obtain s' where "run s1 ops = Some s'" "ok s'"
    "\<And>m. get s' m = (case map_of (rev ops) m of Some v \<Rightarrow> v | None \<Rightarrow> get s1 m)"
    using Cons.IH [OF s1(2)] Cons.prems(2) by auto
  then show ?case using s1 by (intro exI [of _ s']) (auto simp: e map_add_def split: option.splits)
qed simp

end


text \<open>The class: properties as updates leave them, when no value was lost.\<close>

definition query_ok :: "zval \<Rightarrow> bool" where
  "query_ok s \<longleftrightarrow> (\<exists>q. s = zarr q \<and> ht_inv q \<and> tidy_table q \<and> (\<forall>k. zend_hash_find q k \<noteq> Some ZUndef))"

definition query_name :: "bytes \<Rightarrow> bool" where
  "query_name n \<longleftrightarrow> \<not> dim_hidden (symtable_key n)"

definition query_value :: "zval \<Rightarrow> bool" where
  "query_value v \<longleftrightarrow> tidy v \<and> v \<noteq> ZUndef"

definition query_entry :: "zval \<Rightarrow> bytes \<Rightarrow> zval option" where
  "query_entry s n = zend_hash_find (convert_to_array s) (symtable_key n)"

lemma tidy_find: "tidy_table q \<Longrightarrow> zend_hash_find q k = Some v \<Longrightarrow> apply_querystring_filter v = Some v"
  by (intro tidy_filter(1)) (auto simp: tidy_table_def zend_hash_find_def list_all_iff dest!: map_of_SomeD)

lemma symtable_keys_one: "symtable_keys [(symtable_key n, v)]"
  by (auto simp: symtable_keys_def symtable_key_def split: option.splits)

text \<open>Setting one parameter, that is null or not there yet.\<close>

lemma set_one:
  assumes s: "query_ok s" and key: "query_name n" "key = symtable_key n" and ps: "ht_inv ps" "snd ps = [(key, v)]"
    and v: "v = ZNull \<or> query_value v \<and> zend_hash_find (convert_to_array s) key = None"
  shows "\<exists>q'. php_http_querystring_set env s (Some (Params (zarr ps))) QS_MERGE = Some (zarr q') \<and> query_ok (zarr q') \<and>
           (\<forall>k. zend_hash_find q' k = (if k = key then if v = ZNull then None else Some v else zend_hash_find (convert_to_array s) k))"
proof -
  obtain q where q: "s = zarr q" "ht_inv q" "tidy_table q" "\<And>k. zend_hash_find q k \<noteq> Some ZUndef"
    using s by (auto simp: query_ok_def)
  have live: "live_entry q k = zend_hash_find q k" for k
    using q(4) [of k] by (auto simp: live_entry_def split: option.splits)
  have keys: "symtable_keys (snd ps)" using ps(2) key(2) symtable_keys_one by simp
  let ?q' = "filter_table (update_loop (array_copy q zend_hash_init) (snd ps))"
  have find_ps: "zend_hash_find ps k = (if k = key then Some v else None)" for k
    using ps(2) by (simp add: zend_hash_find_def)
  have filter: "Option.bind (zend_hash_find q k) apply_querystring_filter = zend_hash_find q k" for k
    using tidy_find [OF q(3)] by (cases "zend_hash_find q k") auto
  have "zend_hash_find ?q' k = (if k = key then if v = ZNull then None else Some v else zend_hash_find q k)" for k
  proof -
    have "\<not> dim_hidden key" using key by (simp add: query_name_def)
    then have "merge_entry k (live_entry q k) (zend_hash_find ps k) =
        (if k = key then if v = ZNull then None else Some v else zend_hash_find q k)"
      using v q(1) by (auto simp: merge_entry_def live find_ps query_value_def)
    then show ?thesis
      using set_find [OF q(2) ps(1) keys, of k] filter v tidy_filter(1) by (auto simp: query_value_def)
  qed
  moreover from this have "zend_hash_find ?q' k \<noteq> Some ZUndef" for k
    using q(4) [of k] v by (auto simp: query_value_def)
  then have "query_ok (zarr ?q')"
    using set_find [OF q(2) ps(1) keys] unfolding query_ok_def by blast
  ultimately show ?thesis using q(1) by (intro exI [of _ ?q']) (simp add: set_params)
qed

lemma one_table: "ht_inv (zend_hash_update zend_hash_init k v)" "snd (zend_hash_update zend_hash_init k v) = [(k, v)]"
  by (simp_all add: zht.inv_upd) (simp add: zend_hash_update_def zend_hash_init_def)

interpretation query: array_access query_ok query_name query_value query_entry "query_offsetSet env" "query_offsetUnset env" for env
proof unfold_locales
  fix s n v
  assume s: "query_ok s" and n: "query_name n"
  let ?del = "zend_hash_update zend_hash_init (symtable_key n) ZNull"
  from set_one [OF s n refl one_table [of _ ZNull], of env] obtain q1 where
    q1: "php_http_querystring_set env s (Some (Params (zarr ?del))) QS_MERGE = Some (zarr q1)" "query_ok (zarr q1)"
      "\<And>k. zend_hash_find q1 k = (if k = symtable_key n then None else zend_hash_find (convert_to_array s) k)"
    by auto
  show "\<exists>s'. query_offsetUnset env s n = Some s' \<and> query_ok s' \<and>
      (\<forall>m. query_entry s' m = (if m = n then None else query_entry s m))"
    using q1 by (intro exI [of _ "zarr q1"]) (simp add: query_offsetUnset_def query_entry_def)
  assume v: "query_value v"
  let ?set = "zend_hash_update ?del (symtable_key n) v"
  have "ht_inv ?set" "snd ?set = [(symtable_key n, v)]"
    using one_table by (simp_all add: zht.inv_upd) (simp add: zend_hash_update_def zend_hash_init_def)
  moreover have "v \<noteq> ZNull" using v by (auto simp: query_value_def)
  ultimately obtain q2 where
    q2: "php_http_querystring_set env (zarr q1) (Some (Params (zarr ?set))) QS_MERGE = Some (zarr q2)" "query_ok (zarr q2)"
      "\<And>k. zend_hash_find q2 k = (if k = symtable_key n then Some v else zend_hash_find q1 k)"
    using set_one [OF q1(2) n refl, of ?set v env] v q1(3) by auto
  show "\<exists>s'. query_offsetSet env s n v = Some s' \<and> query_ok s' \<and>
      (\<forall>m. query_entry s' m = (if m = n then Some v else query_entry s m))"
    using q1 q2 by (intro exI [of _ "zarr q2"]) (simp add: query_offsetSet_def query_entry_def)
qed

text \<open>Assignments and removals by \<open>ArrayAccess\<close>, one after the other.\<close>

fun query_assign :: "query_env \<Rightarrow> zval \<Rightarrow> (bytes \<times> zval option) list \<Rightarrow> zval option" where
  "query_assign env s [] = Some s"
| "query_assign env s ((n, v) # r) =
     Option.bind (case v of Some w \<Rightarrow> query_offsetSet env s n w | None \<Rightarrow> query_offsetUnset env s n) (\<lambda>s'. query_assign env s' r)"

lemma query_assign_run: "query_assign env s ops = query.run env s ops"
proof (induction ops arbitrary: s)
  case (Cons e ops)
  then show ?case by (cases e) (simp add: query.run.simps)
qed (simp add: query.run.simps)

lemma query_offsetGet_entry: "query_ok s \<Longrightarrow> query_offsetGet s n = (case query_entry s n of Some v \<Rightarrow> v | None \<Rightarrow> ZNull)"
  by (auto simp: query_offsetGet_def query_entry_def query_ok_def convert_to_array_def zarr_def)

lemma query_offsetExists_entry: "query_ok s \<Longrightarrow> query_offsetExists s n \<longleftrightarrow> query_entry s n \<noteq> None"
proof -
  assume "query_ok s"
  then obtain q where q: "s = zarr q" "tidy_table q" by (auto simp: query_ok_def)
  then show ?thesis
    using tidy_find [OF q(2), of "symtable_key n"]
    by (auto simp: query_offsetExists_def query_entry_def zarr_def convert_to_array_def split: option.splits)
qed

text \<open>
  The methods of \<open>ArrayAccess\<close>: after any sequence of assignments and removals (of values that hold
  no null and no empty array, under names that are not empty and do not start with a NUL) reading a name
  gives the last value assigned to it, null if it was removed, and the old value if the sequence does
  not mention it; the existence test agrees.
\<close>

theorem query_array_access:
  assumes "query_ok s" "list_all (\<lambda>(n, v). query_name n \<and> (case v of Some w \<Rightarrow> query_value w | None \<Rightarrow> True)) ops"
  shows "\<exists>s'. query_assign env s ops = Some s' \<and> query_ok s' \<and>
           (\<forall>m. query_offsetGet s' m =
                (case map_of (rev ops) m of None \<Rightarrow> query_offsetGet s m | Some None \<Rightarrow> ZNull | Some (Some v) \<Rightarrow> v)) \<and>
           (\<forall>m. query_offsetExists s' m =
                (case map_of (rev ops) m of None \<Rightarrow> query_offsetExists s m | Some v \<Rightarrow> v \<noteq> None))"
proof -
  from query.run_get [OF assms] obtain s' where s': "query.run env s ops = Some s'" "query_ok s'"
    "\<And>m. query_entry s' m = (case map_of (rev ops) m of Some v \<Rightarrow> v | None \<Rightarrow> query_entry s m)"
    by blast
  then show ?thesis
    using assms(1) by (intro exI [of _ s'])
      (auto simp: query_assign_run query_offsetGet_entry query_offsetExists_entry split: option.splits)
qed

lemma sample_property_ok: "query_ok (zarr sample_property)"
proof -
  have "ht_inv sample_property" by (simp add: sample_property_def ht_inv_def)
  moreover have "tidy_table sample_property" by code_simp
  moreover have "zend_hash_find sample_property k \<noteq> Some ZUndef" for k
    by (auto simp: sample_property_def zend_hash_find_def zarr_def split: if_splits)
  ultimately show ?thesis unfolding query_ok_def by blast
qed

theorem query_array_access_witness:
  "let ops = [(''x'', Some (ZStr ''1'')), (''a'', Some (ZStr ''2'')), (''x'', Some (ZStr ''3'')), (''c'', None)] in
   \<exists>s'. query_assign sample_query_env (zarr sample_property) ops = Some s' \<and> query_ok s' \<and>
     (\<forall>m. query_offsetGet s' m =
        (case map_of (rev ops) m of None \<Rightarrow> query_offsetGet (zarr sample_property) m | Some None \<Rightarrow> ZNull | Some (Some v) \<Rightarrow> v)) \<and>
     (\<forall>m. query_offsetExists s' m =
        (case map_of (rev ops) m of None \<Rightarrow> query_offsetExists (zarr sample_property) m | Some v \<Rightarrow> v \<noteq> None))"
proof -
  have "list_all (\<lambda>(n, v). query_name n \<and> (case v of Some w \<Rightarrow> query_value w | None \<Rightarrow> True))
      [(''x'', Some (ZStr ''1'')), (''a'', Some (ZStr ''2'')), (''x'', Some (ZStr ''3'')), (''c'', None)]"
    by code_simp
  from query_array_access [OF sample_property_ok this] show ?thesis unfolding Let_def .
qed

section \<open>Inputs on which the code goes wrong\<close>

text \<open>Setting a parameter to the value it has takes its value away.\<close>

lemma query_set_identical:
  "query_set env (zarr (0, [(KStr ''a'', ZStr ''1'')])) (Params (zarr (0, [(KStr ''a'', ZStr ''1'')]))) =
     Some (zarr (0, [(KStr ''a'', ZUndef)]))"
  by (simp add: query_set_def set_params array_copy_def live_def zend_hash_update_def zend_hash_init_def next_free_def
      dim_hidden_def zend_hash_find_def filter_table_def)

text \<open>Conversion to another character set drops what is no string and no array.\<close>

lemma query_xlate_drops:
  assumes "\<And>s. qe_iconv env ie oe s = Some s"
  shows "query_xlate env (zarr (0, [(KStr ''a'', ZBool True), (KStr ''b'', ZStr ''1'')])) ie oe =
     Some (zarr (0, [(KStr ''b'', ZStr ''1'')]), None)"
proof -
  have "symtable_key ''a'' = KStr ''a''" "symtable_key ''b'' = KStr ''b''" by code_simp+
  then show ?thesis
    using assms by (simp add: query_xlate_def php_http_querystring_set_def php_http_querystring_update_def Let_def zarr_def
        convert_to_array_def zend_hash_update_def zend_hash_init_def next_free_def dim_hidden_def zend_hash_find_def
        filter_table_def add_zval_def)
qed

text \<open>The empty name can be neither written nor removed.\<close>

lemma query_empty_name:
  "query_offsetUnset env (zarr (0, [(KStr [], ZStr ''1'')])) [] = Some (zarr (0, [(KStr [], ZStr ''1'')]))"
proof -
  have "symtable_key [] = KStr []" by code_simp
  then show ?thesis
    by (simp add: query_offsetUnset_def set_params array_copy_def live_def zend_hash_update_def zend_hash_init_def next_free_def
        dim_hidden_def filter_table_def)
qed

end
