(* ===== verification/Http_Querystring_Roundtrip.thy ===== *)
theory Http_Querystring_Roundtrip
  imports Http_Querystring_Tree Http_Querystring_Laws
begin

unbundle bit_operations_syntax

text \<open>
  Query strings that are printed are read back, nested arrays included. Each leaf of the array is
  printed as its path and its value; the parser decodes the path, merges it into what it has read, and
  stores the value there.
\<close>

section \<open>Names with dimensions\<close>

definition dims_text :: "zkey list \<Rightarrow> bytes" where
  "dims_text ks = concat (map (\<lambda>k. ''['' @ php_http_arrkey_stringify k @ '']'') ks)"

lemma dims_text_simps [simp]:
  "dims_text [] = []" "dims_text (k # ks) = CHR ''['' # php_http_arrkey_stringify k @ CHR '']'' # dims_text ks"
  by (simp_all add: dims_text_def)

text \<open>Keys that a name can spell, as a symbol table has them.\<close>

definition key_ok :: "zkey \<Rightarrow> bool" where
  "key_ok k = (let s = php_http_arrkey_stringify k in
     symtable_key s = k \<and> s \<noteq> [] \<and> hd s \<notin> {NUL, CHR ''-''} \<and> CHR ''['' \<notin> set s \<and> CHR '']'' \<notin> set s)"

lemma dim_plain:
  "CHR ''['' \<notin> set w \<Longrightarrow> CHR '']'' \<notin> set w \<Longrightarrow> dim_loop env (w @ r) var level arr cur = dim_loop env r (var @ w) level arr cur"
  by (induction w arbitrary: var) auto

lemma at_path: "zv_at (put_path ZNull p w) p = Some w"
  by (induction p) auto

lemma put_at_path: "zv_put (put_path ZNull p w) p (put_path ZNull q u) = put_path ZNull (p @ q) u"
  by (induction p) auto

lemma dim_enter_path:
  assumes "key_ok k"
  shows "dim_enter (put_path ZNull cur ZNull) cur (php_http_arrkey_stringify k) = (put_path ZNull (cur @ [k]) ZNull, cur @ [k])"
proof -
  have "zarr (zend_hash_update zend_hash_init k ZNull) = put_path ZNull [k] ZNull"
    by (simp add: zarr_def zend_hash_update_def zend_hash_init_def)
  then show ?thesis
    using assms put_at_path [of cur ZNull "[k]" ZNull] by (simp add: dim_enter_def at_path key_ok_def convert_to_array_def Let_def)
qed

lemma dim_first:
  assumes "key_ok k"
  shows "dim_enter (zarr zend_hash_init) [] (php_http_arrkey_stringify k) = (put_path ZNull [k] ZNull, [k])"
  using assms by (simp add: dim_enter_def key_ok_def Let_def zarr_def zend_hash_update_def zend_hash_init_def convert_to_array_def)

lemma dims_loop:
  assumes "list_all key_ok ks" "level + int (length ks) \<le> pe_max_input_nesting_level env"
  shows "dim_loop env (dims_text ks) [] level (put_path ZNull cur ZNull) cur = Some (put_path ZNull (cur @ ks) ZNull)"
  using assms
proof (induction ks arbitrary: level cur)
  case (Cons k ks)
  then have k: "key_ok k" and "CHR ''['' \<notin> set (php_http_arrkey_stringify k)" "CHR '']'' \<notin> set (php_http_arrkey_stringify k)"
    by (auto simp: key_ok_def Let_def)
  then show ?case using Cons by (simp add: dim_plain dim_enter_path)
qed simp

lemma sanitize_dimension_text:
  assumes "list_all key_ok (k # ks)" "int (length ks) \<le> pe_max_input_nesting_level env"
  shows "sanitize_dimension env (php_http_arrkey_stringify k @ dims_text ks) =
           (if ks = [] then ZStr (php_http_arrkey_stringify k) else put_path ZNull (k # ks) ZNull)"
proof -
  let ?s = "php_http_arrkey_stringify k"
  have s: "key_ok k" "CHR ''['' \<notin> set ?s" "CHR '']'' \<notin> set ?s" "?s \<noteq> []"
    using assms(1) by (auto simp: key_ok_def Let_def)
  show ?thesis
  proof (cases ks)
    case Nil
    then show ?thesis
      using dim_plain [OF s(2,3), of env "[]" "[]" 0 "zarr zend_hash_init" "[]"] s(2-4)
      by (simp add: sanitize_dimension_def zend_hash_num_elements_def zend_hash_init_def)
  next
    case (Cons j js)
    have j: "key_ok j" "CHR ''['' \<notin> set (php_http_arrkey_stringify j)" "CHR '']'' \<notin> set (php_http_arrkey_stringify j)"
      using assms(1) by (auto simp: key_ok_def Let_def Cons)
    have "dim_loop env (?s @ dims_text ks) [] 0 (zarr zend_hash_init) [] = Some (put_path ZNull (k # ks) ZNull)"
      using assms s dims_loop [of js 1 env "[k, j]"] dim_enter_path [OF j(1), of "[k]"]
      by (simp add: dim_plain Cons dim_first j)
    then show ?thesis
      by (simp add: sanitize_dimension_def zend_hash_num_elements_def Cons convert_to_array_def)
  qed
qed

section \<open>Merging\<close>

lemma zv_at_append: "zv_at v p = Some x \<Longrightarrow> zv_at v (p @ q) = zv_at x q"
  by (induction p arbitrary: v) (auto split: zval.splits option.splits)

lemma zv_put_append: "zv_at v p = Some x \<Longrightarrow> zv_put v (p @ q) w = zv_put v p (zv_put x q w)"
  by (induction p arbitrary: v) (auto split: zval.splits option.splits)

lemma zv_at_put: "zv_at v p = Some x \<Longrightarrow> zv_at (zv_put v p w) p = Some w"
  by (induction p arbitrary: v) (auto simp: map_of_assoc_update split: zval.splits option.splits)

lemma zv_put_put: "zv_at v p = Some x \<Longrightarrow> zv_put (zv_put v p w) p u = zv_put v p u"
  by (induction p arbitrary: v) (auto simp: map_of_assoc_update split: zval.splits option.splits)

lemma zarr_store: "p \<noteq> [] \<Longrightarrow> zarr (store P p w) = zv_put (zarr P) p w"
  by (cases p) (auto simp: store_def zarr_def convert_to_array_def split: option.splits)

lemma store_append: "deref P p = Some x \<Longrightarrow> store P (p @ q) w = store P p (zv_put x q w)"
  by (simp add: store_def deref_def zv_put_append)

lemma deref_store: "p \<noteq> [] \<Longrightarrow> deref P p = Some x \<Longrightarrow> deref (store P p w) p = Some w"
  by (simp add: deref_def zarr_store zv_at_put)

lemma deref_append: "deref P p = Some x \<Longrightarrow> deref P (p @ q) = zv_at x q"
  by (simp add: deref_def zv_at_append)

lemma store_store: "p \<noteq> [] \<Longrightarrow> deref P p = Some x \<Longrightarrow> store (store P p w) p u = store P p u"
  by (simp add: store_def [of "store P p w"] zarr_store deref_def zv_put_put) (simp add: store_def)

lemma assoc_update_new: "map_of es k = None \<Longrightarrow> assoc_update k y (es @ [(k, x)]) = es @ [(k, y)]"
  by (simp add: map_of_eq_None_iff assoc_update_last)

lemma put_path_put: "zv_put (put_path v ks ZNull) ks w = put_path v ks w"
  by (induction ks arbitrary: v) (auto simp: map_of_assoc_update map_add_def assoc_update_new split: zval.splits option.splits)

lemma put_path_leaf: "first_leaf (put_path ZNull ks ZNull) = ks"
  by (induction ks) auto

lemma put_path_array: "is_arr (put_path ZNull ks ZNull) = (ks \<noteq> [])"
  by (cases ks) (auto simp: is_arr_def)


lemma merge_insert_store:
  assumes "p \<noteq> []" "deref P p = Some v" "k \<noteq> KInt 0"
  shows "merge_insert P p ht k w = Some (store P p (zarr (zend_hash_update ht k w)), p @ [k])"
    and "deref (store P p (zarr (zend_hash_update ht k w))) (p @ [k]) = Some w"
  using assms deref_append [OF deref_store [OF assms(1,2)], of _ "[k]"]
  by (simp_all add: merge_insert_def zarr_def zend_hash_update_def map_of_assoc_update)

lemma update_new: "map_of es k = None \<Longrightarrow> zarr (zend_hash_update (n, es) k w) = ZArr (next_free k n) (es @ [(k, w)])"
  by (simp add: zarr_def zend_hash_update_def assoc_update_fresh map_of_eq_None_iff)

lemma merge_loop_path:
  assumes "p \<noteq> []" "deref P p = Some v" "fresh v ks"
  shows "\<exists>p' w. merge_loop P p (put_path ZNull ks ZNull) = Some (store P p (put_path v ks ZNull), p') \<and>
           deref (store P p (put_path v ks ZNull)) p' = Some w \<and> p' @ first_leaf w = p @ ks"
  using assms
proof (induction ks arbitrary: p v)
  case (Cons k ks)
  obtain n es where v: "v = ZArr n es" using Cons.prems(3) by (cases v) auto
  have arr: "is_arr v" "convert_to_array v = (n, es)" by (simp_all add: v is_arr_def convert_to_array_def)
  show ?case
  proof (cases "map_of es k")
    case None
    then have k: "k \<noteq> KInt 0" using Cons.prems(3) by (simp add: v)
    let ?w = "put_path ZNull ks ZNull"
    have "merge_loop P p (put_path ZNull (k # ks) ZNull) = merge_insert P p (n, es) k ?w"
      using Cons.prems(2) arr None by (simp add: zend_hash_find_def)
    then show ?thesis
      using merge_insert_store [OF Cons.prems(1,2) k, of "(n, es)" ?w] None put_path_leaf [of ks]
      by (intro exI [of _ "p @ [k]"] exI [of _ ?w]) (simp add: v update_new)
  next
    case (Some x)
    have ks: "ks \<noteq> []" using Cons.prems(3) Some by (cases ks; cases x) (auto simp: v)
    have x: "deref P (p @ [k]) = Some x" using deref_append [OF Cons.prems(2)] Some by (simp add: v)
    have "merge_loop P p (put_path ZNull (k # ks) ZNull) = merge_loop P (p @ [k]) (put_path ZNull ks ZNull)"
      using Cons.prems(2) arr Some ks by (simp add: zend_hash_find_def put_path_array)
    moreover have "store P (p @ [k]) (put_path x ks ZNull) = store P p (put_path v (k # ks) ZNull)"
      using store_append [OF Cons.prems(2)] Some by (simp add: v)
    ultimately show ?thesis
      using Cons.IH [of "p @ [k]" x] x Cons.prems(3) Some by (simp add: v)
  qed
qed (cases v; simp)

section \<open>Names that are read\<close>

text \<open>The table of the parser for a table of plain values.\<close>

definition wrap_value :: "zval \<Rightarrow> zval" where
  "wrap_value v = zarr (new_param (KStr ''value'') v)"

definition wrap :: "hashtable \<Rightarrow> hashtable" where
  "wrap ht = (fst ht, map (\<lambda>(k, v). (k, wrap_value v)) (snd ht))"

lemma wrap_find: "zend_hash_find (wrap ht) k = map_option wrap_value (zend_hash_find ht k)"
proof -
  have "map_of (map (\<lambda>(k, v). (k, wrap_value v)) es) k = map_option wrap_value (map_of es k)" for es
    by (induction es) auto
  then show ?thesis by (simp add: wrap_def zend_hash_find_def)
qed

lemma wrap_update: "wrap (zend_hash_update ht k v) = zend_hash_update (wrap ht) k (wrap_value v)"
proof -
  have "map (\<lambda>(k, v). (k, wrap_value v)) (assoc_update k v es) =
      assoc_update k (wrap_value v) (map (\<lambda>(k, v). (k, wrap_value v)) es)" for es
    by (induction es) auto
  then show ?thesis by (simp add: wrap_def zend_hash_update_def)
qed

lemma wrap_unwrap: "map (\<lambda>(k, v). (k, apply_querystring v)) (snd (wrap ht)) = snd ht"
proof -
  have "apply_querystring (wrap_value v) = v" for v
    by (simp add: apply_querystring_def wrap_value_def new_param_def zarr_def zend_hash_update_def zend_hash_init_def)
  then show ?thesis by (cases ht) (simp add: wrap_def case_prod_beta' map_idI)
qed

text \<open>What reading one item does to the table of plain values.\<close>

definition top_put :: "hashtable \<Rightarrow> zkey \<Rightarrow> zkey list \<Rightarrow> bytes \<Rightarrow> hashtable" where
  "top_put T k ks s =
     zend_hash_update T k (put_path (case zend_hash_find T k of Some x \<Rightarrow> x | None \<Rightarrow> ZNull) ks (ZStr s))"

definition top_fresh :: "hashtable \<Rightarrow> zkey \<Rightarrow> zkey list \<Rightarrow> bool" where
  "top_fresh T k ks = (case zend_hash_find T k of None \<Rightarrow> True | Some x \<Rightarrow> fresh x ks)"

lemma put_wrapped: "zv_put (wrap_value v) (KStr ''value'' # ks) w = wrap_value (zv_put v ks w)"
  by (simp add: wrap_value_def new_param_def zarr_def zend_hash_update_def zend_hash_init_def)

lemma at_wrapped: "zv_at (wrap_value v) (KStr ''value'' # ks) = zv_at v ks"
  by (simp add: wrap_value_def new_param_def zarr_def zend_hash_update_def zend_hash_init_def)

lemma store_wrapped:
  "store (zend_hash_update P k (wrap_value v)) (k # KStr ''value'' # ks) w = zend_hash_update P k (wrap_value (zv_put v ks w))"
  unfolding store_update put_wrapped ..

lemma deref_wrapped: "deref (zend_hash_update P k (wrap_value v)) (k # KStr ''value'' # ks) = zv_at v ks"
proof -
  have "deref (zend_hash_update P k (wrap_value v)) [k] = Some (wrap_value v)"
    by (simp add: deref_def zarr_def zend_hash_update_def map_of_assoc_update)
  from deref_append [OF this, of "KStr ''value'' # ks"] show ?thesis using at_wrapped [of v ks] by simp
qed

lemma update_present:
  assumes "ht_inv T" "zend_hash_find T k = Some x"
  shows "zend_hash_update T k x = T"
proof -
  have "(k, x) \<in> set (snd T)" using assms(2) by (simp add: zend_hash_find_def map_of_SomeD)
  then have "k \<in> fst ` set (snd T)" by (rule rev_image_eqI) simp
  then have "\<And>i. k = KInt i \<Longrightarrow> i < fst T" using assms(1) unfolding ht_inv_def by blast
  then have "next_free k (fst T) = fst T" by (cases k) (fastforce simp: next_free_def)+
  then show ?thesis using assms(2) by (cases T) (simp add: zend_hash_update_def zend_hash_find_def assoc_update_same)
qed

text \<open>Merging a name with dimensions; its leaf is stored at once.\<close>

lemma merge_param_path:
  assumes "ht_inv T" "top_fresh T k ks" "ks \<noteq> []"
  shows "\<exists>P' c. merge_param (wrap T) (next_free k 0, [(k, put_path ZNull ks ZNull)]) = Some (P', k # KStr ''value'' # ks, c) \<and>
           store P' (k # KStr ''value'' # ks) (ZStr s) = wrap (top_put T k ks s)"
proof (cases "zend_hash_find T k")
  case None
  let ?tmp = "wrap_value (put_path ZNull ks ZNull)"
  have "first_leaf ?tmp = KStr ''value'' # ks"
    using put_path_leaf [of ks] by (simp add: wrap_value_def new_param_def zarr_def zend_hash_update_def zend_hash_init_def)
  then have "merge_param (wrap T) (next_free k 0, [(k, put_path ZNull ks ZNull)]) =
      Some (zend_hash_update (wrap T) k ?tmp, k # KStr ''value'' # ks, Some [k, KStr ''arguments''])"
    using None by (simp add: merge_param_def wrap_find wrap_value_def Let_def)
  moreover have "store (zend_hash_update (wrap T) k ?tmp) (k # KStr ''value'' # ks) (ZStr s) = wrap (top_put T k ks s)"
    unfolding store_wrapped put_path_put using None by (simp add: top_put_def wrap_update)
  ultimately show ?thesis by blast
next
  case (Some x)
  let ?P = "wrap T"
  have P: "zend_hash_update ?P k (wrap_value x) = ?P"
    using update_present [OF assms(1) Some] by (simp flip: wrap_update)
  have found: "zend_hash_find ?P k = Some (wrap_value x)" using Some by (simp add: wrap_find)
  have at: "deref ?P [k, KStr ''value''] = Some x" using deref_wrapped [of ?P k x "[]"] unfolding P by simp
  have "fresh x ks" using assms(2) Some by (simp add: top_fresh_def)
  from merge_loop_path [OF _ at this] obtain p' w where
    m: "merge_loop ?P [k, KStr ''value''] (put_path ZNull ks ZNull) = Some (store ?P [k, KStr ''value''] (put_path x ks ZNull), p')"
      "deref (store ?P [k, KStr ''value''] (put_path x ks ZNull)) p' = Some w" "p' @ first_leaf w = [k, KStr ''value''] @ ks"
    by auto
  have store: "store ?P (k # KStr ''value'' # q) u = zend_hash_update ?P k (wrap_value (zv_put x q u))" for q u
    using store_wrapped [of ?P k x q u] unfolding P .
  have "is_arr (wrap_value x)" "zend_hash_find (convert_to_array (wrap_value x)) (KStr ''value'') = Some x"
    by (simp_all add: wrap_value_def is_arr_def zarr_def convert_to_array_def new_param_def zend_hash_update_def zend_hash_init_def zend_hash_find_def)
  then have "merge_param ?P (next_free k 0, [(k, put_path ZNull ks ZNull)]) =
      Some (store ?P [k, KStr ''value''] (put_path x ks ZNull), k # KStr ''value'' # ks, None)"
    using found m by (simp add: merge_param_def)
  moreover have "store (store ?P [k, KStr ''value''] (put_path x ks ZNull)) (k # KStr ''value'' # ks) (ZStr s) = wrap (top_put T k ks s)"
    unfolding store zv_put.simps(1) store_wrapped put_path_put using Some by (simp add: top_put_def wrap_update)
  ultimately show ?thesis by blast
qed

section \<open>Items that are read\<close>

text \<open>
  What the code relies on: \<open>trim\<close> keeps a string without white space at its ends, URL encoding yields
  unreserved characters and percent signs, and decoding is its inverse. The separator that is printed
  is one of those that are recognised, and no separator occurs in encoded text.
\<close>

definition sep_chars :: "query_env \<Rightarrow> bytes" where
  "sep_chars env = (case qe_arg_separator_input env of [] \<Rightarrow> ''&'' | c # r \<Rightarrow> c # cstr r)"

definition query_env_ok :: "query_env \<Rightarrow> bool" where
  "query_env_ok env \<longleftrightarrow> (let pe = qe_params env in
     (\<forall>s. s = [] \<or> hd s \<notin> set trim_chars \<and> last s \<notin> set trim_chars \<longrightarrow> pe_trim pe None s = s) \<and>
     (\<forall>s. \<forall>c\<in>set (pe_raw_url_encode pe s). unreserved c \<or> c = CHR ''%'') \<and>
     (\<forall>s. pe_url_decode pe (pe_raw_url_encode pe s) = s) \<and> pe_raw_url_encode pe [] = [] \<and>
     length (php_http_url_argsep env) = 1 \<and> set (php_http_url_argsep env) \<subseteq> set (sep_chars env) \<and>
     (\<forall>c\<in>set (sep_chars env). \<not> unreserved c \<and> c \<notin> {CHR ''%'', CHR ''='', DQUOTE, BSLASH}))"

lemma query_separators_chars: "query_separators env = map (\<lambda>c. [c]) (sep_chars env)"
proof -
  have "map snd (snd (fold (\<lambda>c ht. zend_hash_next_index_insert ht (ZStr [c])) cs ht)) = map snd (snd ht) @ map (\<lambda>c. ZStr [c]) cs"
    if "ht_inv ht" for cs ht
    using that
  proof (induction cs arbitrary: ht)
    case (Cons c cs)
    then have "ht_inv (zend_hash_next_index_insert ht (ZStr [c]))" by (simp add: zend_hash_next_index_insert_def zht.inv_upd)
    then show ?case using Cons by (simp add: next_index_insert_appends)
  qed simp
  from this [OF ht_inv_init] have table: "map snd (snd (fold (\<lambda>c ht. zend_hash_next_index_insert ht (ZStr [c])) cs zend_hash_init)) = map (\<lambda>c. ZStr [c]) cs" for cs
    by (simp add: zend_hash_init_def)
  have init: "php_http_params_separator_init (Some (zarr ht)) = filter (\<lambda>s. s \<noteq> []) (map zval_get_string (map snd (snd ht)))" for ht
    by (simp add: php_http_params_separator_init_def case_prod_beta' comp_def)
  have strings: "filter (\<lambda>s. s \<noteq> []) (map (zval_get_string \<circ> (\<lambda>c. ZStr [c])) cs) = map (\<lambda>c. [c]) cs" for cs
    by (induction cs) (simp_all add: zval_get_string_def)
  show ?thesis
    unfolding query_separators_def sep_chars_def init table map_map
    using strings by (cases "qe_arg_separator_input env") (simp_all add: zval_get_string_def)
qed

definition enc :: "query_env \<Rightarrow> bytes \<Rightarrow> bytes" where
  "enc env s = pe_raw_url_encode (qe_params env) s"

lemma env_okD:
  assumes "query_env_ok env"
  shows "c \<in> set (enc env s) \<Longrightarrow> unreserved c \<or> c = CHR ''%''"
    and "pe_url_decode (qe_params env) (pe_trim (qe_params env) None (enc env s)) = s"
    and "pe_trim (qe_params env) None (enc env s) = enc env s"
    and "enc env s = [] \<longleftrightarrow> s = []"
    and "c \<in> set (enc env s) \<Longrightarrow> c \<notin> {CHR ''='', DQUOTE, BSLASH} \<union> set (sep_chars env)"
proof -
  have chars: "unreserved c \<or> c = CHR ''%''" if "c \<in> set (enc env s)" for c s
    using assms that by (auto simp: query_env_ok_def enc_def Let_def)
  then show "c \<in> set (enc env s) \<Longrightarrow> unreserved c \<or> c = CHR ''%''" .
  have dec: "pe_url_decode (qe_params env) (enc env s) = s" for s
    using assms by (simp add: query_env_ok_def enc_def Let_def)
  have nil: "enc env [] = []" using assms by (simp add: query_env_ok_def enc_def Let_def)
  then show "enc env s = [] \<longleftrightarrow> s = []" using dec [of s] dec [of "[]"] by auto
  have "list_all (\<lambda>c. \<not> unreserved c \<and> c \<noteq> CHR ''%'') trim_chars" by code_simp
  then have edge: "unreserved c \<or> c = CHR ''%'' \<Longrightarrow> c \<notin> set trim_chars" for c
    unfolding list_all_iff by blast
  have ends: "enc env s = [] \<or> hd (enc env s) \<notin> set trim_chars \<and> last (enc env s) \<notin> set trim_chars"
    using chars edge by (metis hd_in_set last_in_set)
  have "\<forall>t. t = [] \<or> hd t \<notin> set trim_chars \<and> last t \<notin> set trim_chars \<longrightarrow> pe_trim (qe_params env) None t = t"
    using assms unfolding query_env_ok_def Let_def by (elim conjE)
  from mp [OF spec [OF this] ends] show trim: "pe_trim (qe_params env) None (enc env s) = enc env s" .
  then show "pe_url_decode (qe_params env) (pe_trim (qe_params env) None (enc env s)) = s" by (simp add: dec)
  assume c: "c \<in> set (enc env s)"
  have "\<forall>c\<in>set (sep_chars env). \<not> unreserved c \<and> c \<noteq> CHR ''%''"
    using assms by (auto simp: query_env_ok_def Let_def)
  then have "c \<notin> set (sep_chars env)" using chars [OF c] by blast
  moreover have "\<not> unreserved (CHR ''='')" "\<not> unreserved DQUOTE" "\<not> unreserved BSLASH" by code_simp+
  then have "c \<notin> {CHR ''='', DQUOTE, BSLASH}" using chars [OF c] by auto
  ultimately show "c \<notin> {CHR ''='', DQUOTE, BSLASH} \<union> set (sep_chars env)" by blast
qed

abbreviation all_seps :: "query_env \<Rightarrow> bytes" where "all_seps env \<equiv> sep_chars env @ ''=''"

lemma query_opts_simps [simp]:
  "opts_input (query_opts env input) = input" "opts_arg (query_opts env input) = []" "opts_val (query_opts env input) = [''='']"
  "opts_defval (query_opts env input) = Some (ZBool True)" "opts_flags (query_opts env input) = PHP_HTTP_PARAMS_QUERY"
  by (simp_all add: query_opts_def)

lemma query_flags [simp]:
  "PHP_HTTP_PARAMS_QUERY AND PHP_HTTP_PARAMS_ESCAPED = 0" "PHP_HTTP_PARAMS_QUERY AND PHP_HTTP_PARAMS_RFC5987 = 0"
  "PHP_HTTP_PARAMS_QUERY AND PHP_HTTP_PARAMS_URLENCODED \<noteq> 0" "PHP_HTTP_PARAMS_QUERY AND PHP_HTTP_PARAMS_DIMENSION \<noteq> 0"
  "PHP_HTTP_PARAMS_QUERY AND PHP_HTTP_PARAMS_RFC5988 = 0"
  by code_simp+

lemma query_char_separators:
  assumes "query_env_ok env"
  shows "char_separators (query_opts env input) (sep_chars env) [] ''='' (all_seps env)"
proof -
  have "opts_param (query_opts env input) = map (\<lambda>c. [c]) (sep_chars env)"
    by (simp add: query_opts_def query_separators_chars)
  moreover have "set (sep_chars env) \<inter> {DQUOTE, BSLASH} = {}" using assms by (auto simp: query_env_ok_def Let_def)
  ultimately show ?thesis by unfold_locales (auto simp: char_opts_def)
qed

lemma enc_closed: "query_env_ok env \<Longrightarrow> closed (all_seps env) (enc env s)"
  using env_okD(5) [of env _ s] by (intro plain_closed) auto

text \<open>An item: a path with its value. Its text is the encoded name, and the encoded value.\<close>

definition name_text :: "zkey list \<Rightarrow> bytes" where
  "name_text p = (case p of [] \<Rightarrow> [] | k # ks \<Rightarrow> php_http_arrkey_stringify k @ dims_text ks)"

definition item_text :: "query_env \<Rightarrow> zkey list \<times> bytes \<Rightarrow> bytes" where
  "item_text env i = enc env (name_text (fst i)) @ CHR ''='' # enc env (snd i)"

definition path_ok :: "query_env \<Rightarrow> zkey list \<Rightarrow> bool" where
  "path_ok env p \<longleftrightarrow> p \<noteq> [] \<and> list_all key_ok p \<and> int (length p) \<le> pe_max_input_nesting_level (qe_params env) + 1"

lemma name_text_Cons: "name_text (k # ks) = php_http_arrkey_stringify k @ dims_text ks"
  by (simp add: name_text_def)

lemma name_not_empty: "path_ok env p \<Longrightarrow> name_text p \<noteq> []"
  by (cases p) (auto simp: path_ok_def key_ok_def name_text_Cons Let_def)

lemma sanitize_name:
  assumes "query_env_ok env" "path_ok env (k # ks)"
  shows "sanitize_key (qe_params env) PHP_HTTP_PARAMS_QUERY (enc env (name_text (k # ks))) =
           Some (if ks = [] then ZStr (php_http_arrkey_stringify k) else put_path ZNull (k # ks) ZNull, False)"
proof -
  have "enc env (name_text (k # ks)) \<noteq> []" using name_not_empty [OF assms(2)] env_okD(4) [OF assms(1)] by simp
  moreover have "sanitize_dimension (qe_params env) (name_text (k # ks)) =
      (if ks = [] then ZStr (php_http_arrkey_stringify k) else put_path ZNull (k # ks) ZNull)"
    using assms(2) sanitize_dimension_text [of k ks "qe_params env"] by (simp add: path_ok_def name_text_Cons)
  moreover have "pe_url_decode (qe_params env) (enc env (name_text (k # ks))) = name_text (k # ks)"
    using env_okD(2,3) [OF assms(1), of "name_text (k # ks)"] by simp
  ultimately show ?thesis
    using env_okD(3) [OF assms(1), of "name_text (k # ks)"] by (simp add: sanitize_key_def Let_def del: put_path.simps)
qed

definition waiting :: "php_http_params_state \<Rightarrow> nat \<Rightarrow> bool" where
  "waiting st n \<longleftrightarrow> clean st \<and> ps_param st = Some n \<and> ps_arg st = None \<and> ps_val st = None \<and> ps_pos st = n"

lemma push_name:
  assumes "query_env_ok env" "path_ok env (k # ks)" "ht_inv T" "top_fresh T k ks" "ks = [] \<longrightarrow> zend_hash_find T k = None"
    "input = A @ enc env (name_text (k # ks)) @ B" "clean st" "ps_param st = Some (length A)" "ps_arg st = None" "ps_val st = None"
    "ps_pos st = length (A @ enc env (name_text (k # ks)))"
  shows "\<exists>P' c. push_param (qe_params env) (query_opts env input) (wrap T) st =
             Some (P', st\<lparr>ps_cval := Some (k # KStr ''value'' # ks), ps_cargs := c\<rparr>) \<and>
           store P' (k # KStr ''value'' # ks) (ZStr s) = wrap (top_put T k ks s)"
proof -
  define X where "X = enc env (name_text (k # ks))"
  have X: "X \<noteq> []" using name_not_empty [OF assms(2)] env_okD(4) [OF assms(1)] by (simp add: X_def)
  have pos: "ps_pos st = length A + length X" using assms(11) by (simp add: X_def)
  have same: "st\<lparr>ps_rfc5987 := False\<rparr> = st" "st\<lparr>ps_rfc5987 := False, ps_cval := d\<rparr> = st\<lparr>ps_cval := d\<rparr>" for d
    using assms(7) by (cases st; simp add: clean_def)+
  have key: "symtable_key (php_http_arrkey_stringify k) = k" "php_http_arrkey_stringify k \<noteq> []"
    using assms(2) by (auto simp: path_ok_def key_ok_def Let_def)
  have push: "push_param (qe_params env) (query_opts env input) (wrap T) st = push_new (qe_params env) (query_opts env input) (wrap T) st (length A)"
    using assms(8-10) by (simp add: push_param_def)
  have "slice input (length A) (length A + length X) = X" using slice_mid [OF assms(6)] by (simp add: X_def)
  note new = push_new_def this sanitize_name [OF assms(1,2), folded X_def] Let_def pos
  show ?thesis
  proof (cases "ks = []")
    case True
    let ?P = "zend_hash_update (wrap T) k (wrap_value (ZBool True))"
    have "push_param (qe_params env) (query_opts env input) (wrap T) st =
        Some (?P, st\<lparr>ps_cval := Some [k, KStr ''value''], ps_cargs := Some [k, KStr ''arguments'']\<rparr>)"
      using True X key same by (simp add: push new wrap_value_def)
    moreover have "store ?P [k, KStr ''value''] (ZStr s) = wrap (top_put T k ks s)"
      using True store_wrapped [of "wrap T" k "ZBool True" "[]" "ZStr s"] by (simp add: top_put_def wrap_update)
    ultimately show ?thesis using True by blast
  next
    case False
    from merge_param_path [OF assms(3,4) False, of s] obtain P' c where
      m: "merge_param (wrap T) (next_free k 0, [(k, put_path ZNull ks ZNull)]) = Some (P', k # KStr ''value'' # ks, c)"
        "store P' (k # KStr ''value'' # ks) (ZStr s) = wrap (top_put T k ks s)"
      by blast
    have "push_param (qe_params env) (query_opts env input) (wrap T) st =
        Some (P', st\<lparr>ps_cval := Some (k # KStr ''value'' # ks), ps_cargs := (if c = None then ps_cargs st else c)\<rparr>)"
      using False X same m(1) by (simp add: push new)
    then show ?thesis using m(2) by blast
  qed
qed

text \<open>A state in which pushing the pending value gives the table \<open>T\<close>.\<close>

definition holds :: "query_env \<Rightarrow> bytes \<Rightarrow> hashtable \<Rightarrow> php_http_params_state \<Rightarrow> nat \<Rightarrow> hashtable \<Rightarrow> bool" where
  "holds env input P st n T \<longleftrightarrow> clean st \<and> ps_param st \<noteq> None \<and> ps_pos st = n \<and>
     (\<exists>st2. push_param (qe_params env) (query_opts env input) P st = Some (wrap T, st2) \<and> clean st2 \<and> ps_pos st2 = n)"

lemma query_item_read:
  assumes env: "query_env_ok env" and path: "path_ok env (k # ks)"
    and T: "ht_inv T" "top_fresh T k ks" "ks = [] \<longrightarrow> zend_hash_find T k = None"
    and input: "input = A @ item_text env (k # ks, s) @ B" and B: "B = [] \<or> hd B \<in> set (sep_chars env)"
    and st: "waiting st (length A)"
  shows "\<exists>P1 st1. params_loop (qe_params env) (query_opts env input) (wrap T) st =
             params_loop (qe_params env) (query_opts env input) P1 st1 \<and>
           holds env input P1 st1 (length (A @ item_text env (k # ks, s))) (top_put T k ks s)"
proof -
  let ?X = "enc env (name_text (k # ks))" and ?Y = "enc env s" and ?loop = "params_loop (qe_params env) (query_opts env input)"
  note seps = query_char_separators [OF env, of input]
  note closed = char_separators.loop_closed [OF seps, unfolded query_opts_simps]
  note sep = char_separators.loop_sep(3) [OF seps, unfolded query_opts_simps]
  let ?st1 = "st\<lparr>ps_pos := length (A @ ?X)\<rparr>"
  have st': "clean st" "ps_param st = Some (length A)" "ps_arg st = None" "ps_val st = None" "ps_pos st = length A"
    using st by (auto simp: waiting_def)
  have split1: "input = A @ ?X @ CHR ''='' # ?Y @ B" using input by (simp add: item_text_def)
  have 1: "?loop (wrap T) st = ?loop (wrap T) ?st1"
    using split1 st' enc_closed [OF env] by (intro closed) auto
  have "clean ?st1" using st'(1) by (simp add: clean_def)
  then obtain P' c where P': "push_param (qe_params env) (query_opts env input) (wrap T) ?st1 =
        Some (P', ?st1\<lparr>ps_cval := Some (k # KStr ''value'' # ks), ps_cargs := c\<rparr>)"
      "store P' (k # KStr ''value'' # ks) (ZStr s) = wrap (top_put T k ks s)"
    using push_name [OF env path T split1, of ?st1 s] st' by auto
  let ?A = "A @ ?X"
  let ?st2 = "?st1\<lparr>ps_cval := Some (k # KStr ''value'' # ks), ps_cargs := c\<rparr>"
  let ?st3 = "?st2\<lparr>ps_pos := length ?A + 1, ps_val := Some (length ?A + 1)\<rparr>"
  let ?st4 = "?st3\<lparr>ps_pos := length ((?A @ ''='') @ ?Y)\<rparr>"
  have split: "input = ?A @ CHR ''='' # ?Y @ B" using split1 by simp
  have no_eq: "CHR ''='' \<notin> set (sep_chars env)" using env by (auto simp: query_env_ok_def Let_def)
  have "sep_free ''='' (?Y @ B)"
    using env_okD(5) [OF env, of _ s] B no_eq by (cases ?Y; cases B) (auto simp: sep_free_def)
  then have 2: "?loop (wrap T) ?st1 = ?loop P' ?st3"
    using st' no_eq by (intro sep [OF split _ _ _ P'(1)]) (auto simp: clean_def)
  have 3: "?loop P' ?st3 = ?loop P' ?st4"
    using st' split enc_closed [OF env] by (intro closed) (auto simp: clean_def)
  have same: "?st4\<lparr>ps_rfc5987 := False\<rparr> = ?st4" using st'(1) by (cases st) (simp add: clean_def)
  have "pe_url_decode (qe_params env) (enc env s) = s" using env_okD(2,3) [OF env, of s] by simp
  then have "sanitize_value (qe_params env) PHP_HTTP_PARAMS_QUERY ?Y False = Some (ZStr s)"
    using env_okD(3) [OF env, of s] by (simp add: sanitize_value_def Let_def)
  moreover have "slice input (length (?A @ ''='')) (length ((?A @ ''='') @ ?Y)) = ?Y"
    using slice_mid [of input "?A @ ''=''" ?Y B] split by simp
  ultimately have "push_param (qe_params env) (query_opts env input) P' ?st4 = Some (wrap (top_put T k ks s), ?st4)"
    using P'(2) same env_okD(4) [OF env, of s] st'(1)
    by (cases "?Y = []") (simp_all add: push_param_def push_val_def clean_def)
  then have "holds env input P' ?st4 (length (A @ item_text env (k # ks, s))) (top_put T k ks s)"
    using st' by (simp add: holds_def clean_def item_text_def)
  then show ?thesis using 1 2 3 by metis
qed

section \<open>Query strings that are read\<close>

lemma top_put_path:
  assumes "ht_inv T"
  shows "zarr (top_put T k ks s) = put_path (zarr T) (k # ks) (ZStr s)" and "ht_inv (top_put T k ks s)"
proof -
  show "ht_inv (top_put T k ks s)" using assms by (simp add: top_put_def zht.inv_upd)
  show "zarr (top_put T k ks s) = put_path (zarr T) (k # ks) (ZStr s)"
  proof (cases "zend_hash_find T k")
    case None
    then show ?thesis
      using update_new [of "snd T" k "fst T"] by (simp add: top_put_def zarr_def zend_hash_find_def)
  next
    case (Some x)
    have "next_free k (fst T) = fst T" using update_present [OF assms Some] by (cases T) (simp add: zend_hash_update_def)
    then show ?thesis using Some by (simp add: top_put_def zarr_def zend_hash_update_def zend_hash_find_def)
  qed
qed

lemma fresh_top: "fresh (zarr T) (k # ks) \<Longrightarrow> top_fresh T k ks \<and> (ks = [] \<longrightarrow> zend_hash_find T k = None)"
  by (cases ks) (auto simp: zarr_def top_fresh_def zend_hash_find_def split: option.splits)

definition items_text :: "query_env \<Rightarrow> (zkey list \<times> bytes) list \<Rightarrow> bytes" where
  "items_text env items = concat (map (\<lambda>i. php_http_url_argsep env @ item_text env i) items)"

lemma items_text_simps [simp]:
  "items_text env [] = []" "items_text env (i # r) = php_http_url_argsep env @ item_text env i @ items_text env r"
  by (simp_all add: items_text_def)

lemma argsep_char:
  assumes "query_env_ok env"
  obtains c where "php_http_url_argsep env = [c]" "c \<in> set (sep_chars env)"
  using assms by (auto simp: query_env_ok_def Let_def length_Suc_conv)

lemma items_text_hd: "query_env_ok env \<Longrightarrow> items_text env items = [] \<or> hd (items_text env items) \<in> set (sep_chars env)"
  by (cases items) (auto elim: argsep_char)

lemma item_text_hd:
  assumes "query_env_ok env" "path_ok env p"
  shows "item_text env (p, s) \<noteq> []" "hd (item_text env (p, s) @ r) \<notin> {DQUOTE, BSLASH} \<union> set (all_seps env)"
proof -
  have ne: "enc env (name_text p) \<noteq> []" using assms name_not_empty env_okD(4) by blast
  then have "hd (item_text env (p, s) @ r) \<in> set (enc env (name_text p))" by (simp add: item_text_def)
  then show "hd (item_text env (p, s) @ r) \<notin> {DQUOTE, BSLASH} \<union> set (all_seps env)"
    using env_okD(5) [OF assms(1)] by fastforce
  show "item_text env (p, s) \<noteq> []" by (simp add: item_text_def)
qed

lemma query_items_read:
  assumes "query_env_ok env" "list_all (\<lambda>i. path_ok env (fst i)) items" "ht_inv T" "fresh_all (zarr T) items"
    "input = A @ items_text env items" "holds env input P1 st1 (length A) T"
  shows "\<exists>P2 st2 T'. params_loop (qe_params env) (query_opts env input) P1 st1 = params_loop (qe_params env) (query_opts env input) P2 st2 \<and>
           holds env input P2 st2 (length input) T' \<and> zarr T' = put_all (zarr T) items"
  using assms
proof (induction items arbitrary: A P1 st1 T)
  case Nil
  then show ?case by (intro exI [of _ P1] exI [of _ st1] exI [of _ T]) simp
next
  case (Cons i items)
  let ?loop = "params_loop (qe_params env) (query_opts env input)"
  obtain p s where i: "i = (p, s)" by force
  obtain k ks where p: "p = k # ks" using Cons.prems(2) by (cases p) (auto simp: i path_ok_def)
  have path: "path_ok env (k # ks)" using Cons.prems(2) by (simp add: i p)
  obtain c where c: "php_http_url_argsep env = [c]" "c \<in> set (sep_chars env)" using Cons.prems(1) by (rule argsep_char)
  obtain st2 where st1: "clean st1" "ps_param st1 \<noteq> None" "ps_pos st1 = length A"
    and st2: "push_param (qe_params env) (query_opts env input) P1 st1 = Some (wrap T, st2)" "clean st2" "ps_pos st2 = length A"
    using Cons.prems(6) by (auto simp: holds_def)
  let ?st3 = "st2\<lparr>ps_pos := length A + 1, ps_param := Some (length A + 1), ps_arg := None, ps_val := None\<rparr>"
  have split: "input = A @ c # item_text env i @ items_text env items" using Cons.prems(5) c(1) by simp
  have "sep_free (all_seps env) (item_text env i @ items_text env items)"
    using item_text_hd(2) [OF Cons.prems(1) path] by (simp add: sep_free_def i p)
  from char_separators.loop_sep(1) [OF query_char_separators [OF Cons.prems(1), of input], unfolded query_opts_simps,
      OF split st1(3,2,1) st2 c(2) this]
  have 1: "?loop P1 st1 = ?loop (wrap T) ?st3" .
  have fresh: "fresh (zarr T) (k # ks)" "fresh_all (put_path (zarr T) (k # ks) (ZStr s)) items"
    using Cons.prems(4) by (simp_all add: i p)
  have "waiting ?st3 (length (A @ [c]))" using st2(2) by (simp add: waiting_def clean_def)
  moreover have "input = (A @ [c]) @ item_text env (k # ks, s) @ items_text env items" using split by (simp add: i p)
  ultimately obtain P4 st4 where 4: "?loop (wrap T) ?st3 = ?loop P4 st4"
    "holds env input P4 st4 (length ((A @ [c]) @ item_text env (k # ks, s))) (top_put T k ks s)"
    using query_item_read [OF Cons.prems(1) path Cons.prems(3)] fresh_top [OF fresh(1)] items_text_hd [OF Cons.prems(1)] by blast
  have "\<exists>P2 st2 T'. ?loop P4 st4 = ?loop P2 st2 \<and> holds env input P2 st2 (length input) T' \<and>
      zarr T' = put_all (zarr (top_put T k ks s)) items"
    using Cons.prems(1,2) split 4(2) fresh(2) top_put_path [OF Cons.prems(3), of k ks s]
    by (intro Cons.IH [of _ "(A @ [c]) @ item_text env (k # ks, s)"]) (auto simp: i p)
  then show ?case using 1 4(1) top_put_path(1) [OF Cons.prems(3)] by (simp add: i p)
qed

lemma parse_items:
  assumes env: "query_env_ok env" and paths: "list_all (\<lambda>i. path_ok env (fst i)) (i # items)" and fresh: "fresh_rest (i # items)"
  shows "\<exists>T. php_http_querystring_parse env zend_hash_init (item_text env i @ items_text env items) = Some T \<and>
           zarr T = put_all ZNull (i # items)"
proof -
  define input where "input = item_text env i @ items_text env items"
  let ?loop = "params_loop (qe_params env) (query_opts env input)" and ?st = "params_state_init\<lparr>ps_param := Some 0\<rparr>"
  obtain p s where i: "i = (p, s)" by force
  obtain k ks where p: "p = k # ks" using paths by (cases p) (auto simp: i path_ok_def)
  have path: "path_ok env (k # ks)" using paths by (simp add: i p)
  note hd = item_text_hd [OF env path, of s]
  have wrap_init: "wrap zend_hash_init = zend_hash_init" by (simp add: wrap_def zend_hash_init_def)
  have "input \<noteq> []" "track (hd input) (False, False) = (False, False)" "hd input \<notin> set (all_seps env)"
    using hd(1) hd(2) [of "items_text env items"] by (auto simp: input_def i p track_def)
  then have 1: "?loop zend_hash_init params_state_init = ?loop (wrap zend_hash_init) ?st"
    using char_separators.loop_first [OF query_char_separators [OF env, of input], unfolded query_opts_simps, of input False False]
    by (simp add: wrap_init)
  have "waiting ?st (length [])" by (simp add: waiting_def clean_def params_state_init_def)
  moreover have "top_fresh zend_hash_init k ks" "zend_hash_find zend_hash_init k = None"
    by (simp_all add: top_fresh_def zend_hash_find_def zend_hash_init_def)
  moreover have "input = [] @ item_text env (k # ks, s) @ items_text env items" by (simp add: input_def i p)
  ultimately obtain P1 st1 where 2: "?loop (wrap zend_hash_init) ?st = ?loop P1 st1"
    "holds env input P1 st1 (length ([] @ item_text env (k # ks, s))) (top_put zend_hash_init k ks s)"
    using query_item_read [OF env path ht_inv_init] items_text_hd [OF env] by blast
  note top = top_put_path [OF ht_inv_init, of k ks s]
  have new: "zarr (top_put zend_hash_init k ks s) = put_path ZNull (k # ks) (ZStr s)"
    unfolding top(1) by (simp add: zarr_def zend_hash_init_def)
  have "\<exists>P2 st2 T'. ?loop P1 st1 = ?loop P2 st2 \<and> holds env input P2 st2 (length input) T' \<and>
      zarr T' = put_all (zarr (top_put zend_hash_init k ks s)) items"
    using paths fresh 2(2) top(2)
    by (intro query_items_read [OF env, where A = "item_text env (k # ks, s)"]) (auto simp: new input_def i p fresh_rest_def)
  then obtain P2 st2 T where 3: "?loop P1 st1 = ?loop P2 st2" "holds env input P2 st2 (length input) T"
    "zarr T = put_all ZNull (i # items)"
    by (auto simp: new i p)
  obtain st3 where st3: "ps_pos st2 = length input" "push_param (qe_params env) (query_opts env input) P2 st2 = Some (wrap T, st3)"
    using 3(2) by (auto simp: holds_def)
  have "?loop P2 st2 = Some (P2, st2)" using st3(1) by (subst params_loop.simps) simp
  then have "php_http_params_parse (qe_params env) (Some zend_hash_init) (query_opts env input) = Some (wrap T)"
    using 1 2(1) 3(1) st3(2) by (simp add: php_http_params_parse_def)
  then have "php_http_querystring_parse env zend_hash_init input = Some T"
    using wrap_unwrap [of T] by (cases T) (simp add: php_http_querystring_parse_def wrap_def)
  then show ?thesis using 3(3) unfolding input_def by blast
qed

section \<open>Query strings that are printed\<close>

fun tree_keys :: "zval \<Rightarrow> bool" where
  "tree_keys (ZArr n es) = list_all (\<lambda>e. key_ok (fst e) \<and> tree_keys (snd e)) es"
| "tree_keys _ = True"

definition add_text :: "query_env \<Rightarrow> bytes \<Rightarrow> bytes \<Rightarrow> bytes" where
  "add_text env T buf = buf @ (if buf = [] then [] else php_http_url_argsep env) @ T"

lemma shift_leaf:
  "shift_val (qe_params env) (shift_key (qe_params env) buf prefix (php_http_url_argsep env) PHP_HTTP_PARAMS_QUERY) (ZStr s) ''='' PHP_HTTP_PARAMS_QUERY =
     add_text env (enc env prefix @ CHR ''='' # enc env s) buf"
  by (simp add: shift_val_def shift_key_def prepare_key_def prepare_value_def add_text_def enc_def zval_get_string_def)

lemma dim_prefix_key:
  assumes "key_ok k"
  shows "dim_prefix prefix k = prefix @ CHR ''['' # php_http_arrkey_stringify k @ '']''" and "\<not> dim_hidden k"
proof -
  show "\<not> dim_hidden k"
    using assms by (auto simp: key_ok_def dim_hidden_def php_http_arrkey_stringify_def Let_def split: zkey.splits)
  show "dim_prefix prefix k = prefix @ CHR ''['' # php_http_arrkey_stringify k @ '']''"
  proof (cases k)
    case (KInt h)
    have num: "numeric_key (print_long h) = Some h" and pos: "hd (print_long h) \<noteq> CHR ''-''"
      using assms by (auto simp: KInt key_ok_def php_http_arrkey_stringify_def symtable_key_def Let_def split: option.splits)
    have "h \<le> 2 ^ 63 - 1" using num by (auto simp: numeric_key_def Let_def split: if_splits)
    moreover have "0 \<le> h" using pos by (auto simp: print_long_def split: if_splits)
    ultimately have "h mod 2 ^ 64 = h" "print_long h = dec (nat h)" by (simp_all add: print_long_def)
    then show ?thesis by (simp add: KInt dim_prefix_def php_http_arrkey_stringify_def)
  qed (simp add: dim_prefix_def php_http_arrkey_stringify_def)
qed

declare prepare_dim.simps [simp del]

abbreviation add_items :: "query_env \<Rightarrow> bytes \<Rightarrow> (zkey list \<times> bytes) list \<Rightarrow> bytes \<Rightarrow> bytes" where
  "add_items env prefix items buf \<equiv>
     fold (\<lambda>i. add_text env (enc env (prefix @ dims_text (fst i)) @ CHR ''='' # enc env (snd i))) items buf"

lemma add_items_under:
  "add_items env prefix (under k items) buf = add_items env (prefix @ CHR ''['' # php_http_arrkey_stringify k @ '']'') items buf"
  by (simp add: fold_map comp_def case_prod_beta')

lemma print_elements:
  assumes "list_all (\<lambda>e. snd e \<noteq> ZUndef \<and> key_ok (fst e) \<and> (\<forall>prefix buf.
      prepare_dim (qe_params env) (php_http_url_argsep env) ''='' PHP_HTTP_PARAMS_QUERY buf prefix (snd e) =
        add_items env prefix (leaves (snd e)) buf)) es"
  shows "prepare_dimension (qe_params env) (php_http_url_argsep env) ''='' PHP_HTTP_PARAMS_QUERY buf prefix es =
           add_items env prefix (leaves_of es) buf"
  using assms
proof (induction es arbitrary: buf)
  case (Cons e es)
  obtain k v where e: "e = (k, v)" by force
  show ?case using Cons dim_prefix_key [of k] add_items_under [of env prefix k "leaves v" buf] by (simp add: e)
qed simp

lemma print_tree:
  "tree_ok v \<Longrightarrow> tree_keys v \<Longrightarrow>
     prepare_dim (qe_params env) (php_http_url_argsep env) ''='' PHP_HTTP_PARAMS_QUERY buf prefix v = add_items env prefix (leaves v) buf"
proof (induction v arbitrary: buf prefix)
  case (ZArr n es)
  have "snd e \<noteq> ZUndef \<and> key_ok (fst e) \<and> (\<forall>prefix buf.
      prepare_dim (qe_params env) (php_http_url_argsep env) ''='' PHP_HTTP_PARAMS_QUERY buf prefix (snd e) =
        add_items env prefix (leaves (snd e)) buf)" if "e \<in> set es" for e
    using ZArr that by (cases e) (fastforce simp: list_all_iff)
  then show ?case using print_elements [of env es buf prefix] by (simp add: list_all_iff prepare_dim.simps)
qed (simp_all add: prepare_dim.simps zval_get_string_def shift_leaf)

text \<open>
  An array at the top is printed as such when it has none of the keys that stand for the parts of a
  parameter.
\<close>

definition plain_array :: "zval \<Rightarrow> bool" where
  "plain_array v = (case v of ZArr n es \<Rightarrow> {KStr ''value'', KStr ''arguments'', KStr rfc5987_key} \<inter> set (map fst es) = {} | _ \<Rightarrow> True)"

lemma print_param:
  assumes "tree_ok v" "tree_keys v" "plain_array v" "key_ok k"
  shows "to_string_param (qe_params env) (php_http_url_argsep env) [] ''='' PHP_HTTP_PARAMS_QUERY (k, v) (buf, False) =
           (fold (\<lambda>i. add_text env (item_text env i)) (under k (leaves v)) buf, False)"
proof -
  have items: "fold (\<lambda>i. add_text env (item_text env i)) (under k items) buf = add_items env (php_http_arrkey_stringify k) items buf" for items
    by (simp add: fold_map comp_def case_prod_beta' item_text_def name_text_Cons)
  show ?thesis
  proof (cases v)
    case (ZArr n es)
    have none: "map_of es (KStr ''value'') = None" "map_of es (KStr ''arguments'') = None" "map_of es (KStr rfc5987_key) = None"
      using assms(3) by (auto simp: plain_array_def ZArr map_of_eq_None_iff)
    have "prepare_dimension (qe_params env) (php_http_url_argsep env) ''='' PHP_HTTP_PARAMS_QUERY buf (php_http_arrkey_stringify k) es =
        add_items env (php_http_arrkey_stringify k) (leaves v) buf"
      using print_tree [OF assms(1,2), of env buf "php_http_arrkey_stringify k"] by (simp add: ZArr prepare_dim.simps)
    then show ?thesis by (simp add: to_string_param_def none shift_param_def ZArr items Let_def)
  next
    case (ZStr s)
    then show ?thesis
      by (simp add: to_string_param_def shift_param_def shift_leaf item_text_def name_text_Cons Let_def)
  qed (use assms(1) in simp_all)
qed

lemma query_print_table:
  assumes "list_all (\<lambda>e. tree_ok (snd e) \<and> tree_keys (snd e) \<and> plain_array (snd e) \<and> key_ok (fst e)) es"
  shows "fold (to_string_param (qe_params env) (php_http_url_argsep env) [] ''='' PHP_HTTP_PARAMS_QUERY) es (buf, False) =
           (fold (\<lambda>i. add_text env (item_text env i)) (leaves_of es) buf, False)"
  using assms
proof (induction es arbitrary: buf)
  case (Cons e es)
  then show ?case by (cases e) (simp add: print_param del: fold_map)
qed simp

lemma add_texts:
  "buf \<noteq> [] \<Longrightarrow> fold (\<lambda>i. add_text env (item_text env i)) items buf = buf @ items_text env items"
  by (induction items arbitrary: buf) (simp_all add: add_text_def)

section \<open>Results\<close>

definition query_array_ok :: "query_env \<Rightarrow> hashtable \<Rightarrow> bool" where
  "query_array_ok env q \<longleftrightarrow> tree_ok (zarr q) \<and> tree_keys (zarr q) \<and> list_all (\<lambda>e. plain_array (snd e)) (snd q) \<and>
     list_all (\<lambda>i. int (length (fst i)) \<le> pe_max_input_nesting_level (qe_params env) + 1) (leaves (zarr q))"

lemma tree_tidy: "tree_ok v \<Longrightarrow> tidy v"
  by (induction v rule: tree_ok.induct) (auto simp: list_all_iff)

lemma tree_paths: "tree_keys v \<Longrightarrow> list_all (\<lambda>i. list_all key_ok (fst i)) (leaves v)"
proof (induction v)
  case (ZArr n es)
  have "list_all (\<lambda>i. list_all key_ok (fst i)) (leaves_of xs)"
    if "list_all (\<lambda>e. key_ok (fst e) \<and> list_all (\<lambda>i. list_all key_ok (fst i)) (leaves (snd e))) xs" for xs
    using that by (induction xs rule: list.induct) (auto simp: list_all_iff)
  moreover have "list_all (\<lambda>e. key_ok (fst e) \<and> list_all (\<lambda>i. list_all key_ok (fst i)) (leaves (snd e))) es"
    using ZArr by (fastforce simp: list_all_iff)
  ultimately show ?case by simp
qed simp_all

lemma leaves_of_paths: "list_all (\<lambda>i. fst i \<noteq> []) (leaves_of es)"
  by (induction es) (auto simp: list_all_iff)

lemma update_loop_new:
  assumes "distinct (map fst (es0 @ es))" "list_all (\<lambda>e. key_ok (fst e) \<and> snd e \<notin> {ZUndef, ZNull}) es"
  shows "update_loop (n, es0) es = (fold next_free (map fst es) n, es0 @ es)"
  using assms
proof (induction es arbitrary: n es0)
  case (Cons e es)
  obtain k v where e: "e = (k, v)" by force
  have None: "map_of es0 k = None" using Cons.prems(1) by (auto simp: e map_of_eq_None_iff)
  have k: "key_ok k" "v \<noteq> ZUndef" "v \<noteq> ZNull" using Cons.prems(2) by (simp_all add: e)
  have "add_zval (n, es0) k v = (next_free k n, es0 @ [(k, v)])"
  proof -
    have "add_zval (n, es0) k v = zend_hash_update (n, es0) k v"
      using k(1) by (intro add_zval_symtable) (auto simp: key_ok_def php_http_arrkey_stringify_def Let_def split: zkey.splits)
    then show ?thesis using None by (simp add: zend_hash_update_def assoc_update_fresh map_of_eq_None_iff)
  qed
  then have "update_loop (n, es0) (e # es) = update_loop (next_free k n, es0 @ [(k, v)]) es"
    using k dim_prefix_key(2) [OF k(1)] None by (simp add: e zend_hash_find_def)
  then show ?case using Cons.IH [of "es0 @ [(k, v)]"] Cons.prems by (simp add: e)
qed simp

text \<open>
  C6. A query string that is printed is read back: constructing an object from the string of another
  one gives the same array. The array consists of strings and nested arrays that are not empty; its keys
  are as a symbol table has them, contain no brackets and do not begin with a minus or NUL; the integer 0
  is only the first key of an array; arrays at the top have none of the keys \<open>value\<close>, \<open>arguments\<close> and
  \<open>*rfc5987*\<close>; and it is not nested deeper than the host allows.
\<close>

theorem query_print_parse:
  assumes "query_env_ok env" "query_array_ok env q"
  shows "query_construct env (Some (Params (ZStr (fst (query_toString env (zarr q)))))) = Some (zarr q)"
proof -
  obtain n es where q: "q = (n, es)" by force
  have tree: "tree_ok (ZArr n es)" and keys: "tree_keys (ZArr n es)"
    using assms(2) by (simp_all add: query_array_ok_def q zarr_def)
  have tidy: "list_all (\<lambda>e. tidy (snd e)) es" using tree_tidy [OF tree] by simp
  have filter: "filter_table (m, es) = (m, es)" for m using tidy_filter(2) [OF tidy] by (simp add: filter_table_def)
  have no_undef: "list_all (\<lambda>e. snd e \<notin> {ZUndef, ZNull}) es" using tree by (auto simp: list_all_iff)
  then have live: "live (n, es) = es" by (auto simp: live_def list_all_iff intro!: filter_True)
  have paths: "list_all (\<lambda>i. path_ok env (fst i)) (leaves_of es)"
    using assms(2) tree_paths [OF keys] leaves_of_paths [of es] by (simp add: path_ok_def query_array_ok_def q zarr_def list_all_iff)
  have rebuild: "fresh_rest (leaves_of es)" "put_all ZNull (leaves_of es) = ZArr n es"
    using tree_rebuilds [OF tree] by (simp_all add: rebuilds_def)
  obtain i items where items: "leaves_of es = i # items" using rebuild(1) by (cases "leaves_of es") (auto simp: fresh_rest_def)
  have "item_text env i \<noteq> []" by (simp add: item_text_def)
  then have joined: "fold (\<lambda>i. add_text env (item_text env i)) (leaves_of es) [] = item_text env i @ items_text env items"
    using add_texts [of "item_text env i" env items] by (simp add: items add_text_def)
  have "list_all (\<lambda>e. tree_ok (snd e) \<and> tree_keys (snd e) \<and> plain_array (snd e) \<and> key_ok (fst e)) es"
    using assms(2) tree keys by (simp add: query_array_ok_def q list_all_iff)
  then have string: "fst (query_toString env (zarr q)) = item_text env i @ items_text env items"
    using query_print_table [of es env "[]"] joined
    by (simp add: query_toString_def php_http_querystring_str_def q zarr_def filter php_http_url_encode_hash_def
        php_http_url_encode_hash_ex_def php_http_params_to_string_def live Let_def)
  obtain T where T: "php_http_querystring_parse env zend_hash_init (item_text env i @ items_text env items) = Some T" "zarr T = ZArr n es"
    using parse_items [OF assms(1) paths [unfolded items] rebuild(1) [unfolded items]] rebuild(2) by (auto simp: items)
  have "T = (n, es)" using T(2) by (cases T) (simp add: zarr_def)
  have "list_all (\<lambda>e. key_ok (fst e) \<and> snd e \<notin> {ZUndef, ZNull}) es" using keys no_undef by (simp add: list_all_iff)
  then have "update_loop zend_hash_init es = (n, es)"
    using update_loop_new [of "[]" es 0] tree by (simp add: zend_hash_init_def)
  then show ?thesis
    using T(1) \<open>T = (n, es)\<close> filter
    by (simp add: query_construct_def php_http_querystring_set_def php_http_querystring_update_def string [unfolded q] q zval_get_string_def Let_def)
qed

lemma sample_query_env_ok: "query_env_ok sample_query_env"
proof -
  have env: "qe_params sample_query_env = sample_params_env" "pe_raw_url_encode sample_params_env = raw_url_encode"
    "pe_url_decode sample_params_env = url_decode"
    by (simp_all add: sample_query_env_def sample_params_env_def)
  have 1: "\<forall>s. s = [] \<or> hd s \<notin> set trim_chars \<and> last s \<notin> set trim_chars \<longrightarrow> pe_trim sample_params_env None s = s"
    using sample_trim by blast
  have 2: "\<forall>s. \<forall>c\<in>set (raw_url_encode s). unreserved c \<or> c = CHR ''%''" using raw_url_encode_chars by blast
  have 3: "\<forall>s. url_decode (raw_url_encode s) = s" by (simp add: url_decode_encode)
  have 4: "raw_url_encode [] = []" by (simp add: raw_url_encode_def)
  have 5: "length (php_http_url_argsep sample_query_env) = 1" "set (php_http_url_argsep sample_query_env) \<subseteq> set (sep_chars sample_query_env)"
    by (simp_all add: php_http_url_argsep_def sep_chars_def sample_query_env_def)
  have "list_all (\<lambda>c. \<not> unreserved c \<and> c \<notin> {CHR ''%'', CHR ''='', DQUOTE, BSLASH}) (sep_chars sample_query_env)" by code_simp
  note 6 = this [unfolded list_all_iff]
  show ?thesis unfolding query_env_ok_def env Let_def by (intro conjI 1 2 3 4 5 6)
qed

definition nested_query :: hashtable where
  "nested_query =
     (8, [(KStr ''a b'', ZStr ''x&y=z''), (KInt 7, ZStr []),
          (KStr ''list'', ZArr 2 [(KInt 0, ZStr ''1''), (KInt 1, ZArr 0 [(KStr ''deep'', ZStr ''%''), (KStr ''er'', ZStr ''[]'')])])])"

lemma nested_query_ok: "query_array_ok sample_query_env nested_query"
  by code_simp

theorem query_print_parse_witness:
  "query_construct sample_query_env (Some (Params (ZStr (fst (query_toString sample_query_env (zarr nested_query)))))) = Some (zarr nested_query)"
  by (rule query_print_parse [OF sample_query_env_ok nested_query_ok])

text \<open>An element \<open>value\<close> of an array at the top is printed as the value of the array, and the other elements are lost.\<close>

lemma query_value_key:
  "fst (query_toString sample_query_env (zarr (0, [(KStr ''a'', zarr (0, [(KStr ''value'', ZStr ''1'')]))]))) = ''a=1''"
  by code_simp

end
