(* ===== verification/Http_Negotiate.thy ===== *)
theory Http_Negotiate
  imports Complex_Main Http_Params
begin

unbundle bit_operations_syntax

text \<open>
  Content negotiation (\<open>php_http_negotiate.c\<close>, \<open>php_http_negotiate.h\<close>) and the methods built on it: the
  alternatives of an \<open>Accept\<close> header are matched with the supported values, which are returned in the order of
  their qualities. Qualities are rational numbers: the rounding of \<open>double\<close> is not modelled. Conversion
  of strings to numbers and sorting are functions of the host.

  A result \<^const>\<open>None\<close> is undefined behaviour in the parser of parameters; the inner \<^const>\<open>None\<close> is the null
  pointer.
\<close>

section \<open>State\<close>

type_synonym quality_table = "(bytes \<times> rat) list"

record negotiate_env =
  ne_params :: params_env
  ne_str_double :: "bytes \<Rightarrow> rat"
  ne_sort :: "(bytes \<times> rat \<Rightarrow> bytes \<times> rat \<Rightarrow> int) \<Rightarrow> quality_table \<Rightarrow> quality_table"

definition php_http_negotiate_sort :: "bytes \<times> rat \<Rightarrow> bytes \<times> rat \<Rightarrow> int" where
  "php_http_negotiate_sort b1 b2 =
     (let result = (if snd b2 < snd b1 then 1 else if snd b1 < snd b2 then -1 else (0 :: int)) in
      if 0 < result then -1 else if result < 0 then 1 else 0)"

section \<open>Matching\<close>

definition M_PRI :: "32 word" where "M_PRI = 5"
definition M_SEC :: "32 word" where "M_SEC = 2"
definition M_ANY :: "32 word" where "M_ANY = -1"
definition M_NOT :: "32 word" where "M_NOT = 0"
definition M_ALL :: "32 word" where "M_ALL = NOT 0"

text \<open>An empty separator stands for none.\<close>

definition php_http_negotiate_match :: "bytes \<Rightarrow> bytes \<Rightarrow> bytes \<Rightarrow> 32 word" where
  "php_http_negotiate_match param supported sep =
     (if length param = length supported \<and> strncaseeq param supported (length param) then M_ALL
      else if sep \<noteq> [] then
        let param_sec = memnstr param sep;
            param_pri_len = (case param_sec of Some i \<Rightarrow> i | None \<Rightarrow> length param);
            supported_sec = memnstr supported sep;
            supported_pri_len = (case supported_sec of Some i \<Rightarrow> i | None \<Rightarrow> length supported);
            cmp_len = min param_pri_len supported_pri_len;
            star = CHR ''*'';
            param_star = (case param_sec of Some i \<Rightarrow> rd param (i + length sep) = star | None \<Rightarrow> False);
            supported_star = (case supported_sec of Some i \<Rightarrow> rd supported (i + length sep) = star | None \<Rightarrow> False);
            pri = (rd param 0 = star \<or> rd supported 0 = star \<or>
                   param_pri_len = supported_pri_len \<and> strncaseeq param supported param_pri_len \<or>
                   (param_sec = None \<or> supported_sec = None) \<and> cmp_len \<noteq> 0 \<and> strncaseeq param supported cmp_len);
            sec = (case (param_sec, supported_sec) of
                     (Some i, Some j) \<Rightarrow>
                       param_star \<or> supported_star \<or> strcaseeq (cstr (drop i param)) (cstr (drop j supported))
                   | _ \<Rightarrow> False);
            any = (param_star \<or> supported_star \<or> rd param 0 = star \<or> rd supported 0 = star)
        in M_NOT + (if pri then M_PRI else 0) + (if sec then M_SEC else 0) + (if any then M_ANY else 0)
      else M_NOT)"

text \<open>The loop over the parameters: the best match so far with its quality.\<close>

definition reduce_step :: "bytes \<Rightarrow> bytes \<Rightarrow> zkey \<times> rat \<Rightarrow> 32 word \<times> rat \<Rightarrow> 32 word \<times> rat" where
  "reduce_step supported sep = (\<lambda>(key, value) (best_match, q).
     let match = php_http_negotiate_match (php_http_arrkey_stringify key) supported sep in
     if best_match < match then (match, value - 1 / 10 / of_nat (unat match)) else (best_match, q))"

definition php_http_negotiate_reduce :: "(zkey \<times> rat) list \<Rightarrow> bytes \<Rightarrow> zval \<Rightarrow> quality_table \<Rightarrow> quality_table" where
  "php_http_negotiate_reduce params sep p result =
     (let supported = zval_get_string p; q = snd (fold (reduce_step supported sep) params (0, 0)) in
      if 0 < q then assoc_update supported q result else result)"

section \<open>Negotiation\<close>

definition zval_get_double :: "negotiate_env \<Rightarrow> zval \<Rightarrow> rat" where
  "zval_get_double env v =
     (case v of ZUndef \<Rightarrow> 0 | ZNull \<Rightarrow> 0 | ZBool b \<Rightarrow> (if b then 1 else 0) | ZLong i \<Rightarrow> of_int i | ZStr s \<Rightarrow> ne_str_double env s
      | ZArr _ es \<Rightarrow> (if es = [] then 0 else 1))"

definition explicit_quality :: "negotiate_env \<Rightarrow> zval \<Rightarrow> rat option" where
  "explicit_quality env val =
     (case zend_hash_find (convert_to_array val) (KStr ''arguments'') of
        Some (ZArr n es) \<Rightarrow> map_option (zval_get_double env) (zend_hash_find (n, es) (KStr ''q''))
      | _ \<Rightarrow> None)"

text \<open>Alternatives without a quality are numbered, so that earlier ones are preferred.\<close>

definition quality_step :: "negotiate_env \<Rightarrow> zkey \<times> zval \<Rightarrow> (zkey \<times> rat) list \<times> nat \<Rightarrow> (zkey \<times> rat) list \<times> nat" where
  "quality_step env = (\<lambda>(key, val) (arr, i).
     let k = (case key of KStr s \<Rightarrow> symtable_key s | KInt h \<Rightarrow> KInt h) in
     case explicit_quality env val of
       Some q \<Rightarrow> (assoc_update k q arr, i)
     | None \<Rightarrow> (assoc_update k (1 - of_nat (i + 1) / 100) arr, i + 1))"

definition negotiate_opts :: "bytes \<Rightarrow> php_http_params_opts" where
  "negotiate_opts input =
     php_http_params_opts_default_get
       \<lparr>opts_input := input, opts_flags := opts_flags php_http_params_opts_default_get AND NOT PHP_HTTP_PARAMS_RFC5987\<rparr>"

definition php_http_negotiate :: "negotiate_env \<Rightarrow> bytes \<Rightarrow> hashtable \<Rightarrow> bytes \<Rightarrow> quality_table option option" where
  "php_http_negotiate env input supported sep =
     (if input = [] then Some None
      else case php_http_params_parse (ne_params env) (Some zend_hash_init) (negotiate_opts input) of
        None \<Rightarrow> None
      | Some params \<Rightarrow>
          let arr = fst (fold (quality_step env) (live params) ([], 0)) in
          Some (Some (ne_sort env php_http_negotiate_sort
            (fold (\<lambda>(k, p). php_http_negotiate_reduce arr sep p) (live supported) []))))"

text \<open>The value of the request header is an argument, \<^const>\<open>None\<close> if there is none.\<close>

definition negotiate_header :: "negotiate_env \<Rightarrow> bytes option \<Rightarrow> hashtable \<Rightarrow> bytes \<Rightarrow> quality_table option option" where
  "negotiate_header env header supported sep =
     (case header of None \<Rightarrow> Some None | Some v \<Rightarrow> php_http_negotiate env v supported sep)"

definition php_http_negotiate_language :: "negotiate_env \<Rightarrow> hashtable \<Rightarrow> bytes option \<Rightarrow> quality_table option option" where
  "php_http_negotiate_language env supported header = negotiate_header env header supported ''-''"

definition php_http_negotiate_encoding :: "negotiate_env \<Rightarrow> hashtable \<Rightarrow> bytes option \<Rightarrow> quality_table option option" where
  "php_http_negotiate_encoding env supported header = negotiate_header env header supported []"

definition php_http_negotiate_charset :: "negotiate_env \<Rightarrow> hashtable \<Rightarrow> bytes option \<Rightarrow> quality_table option option" where
  "php_http_negotiate_charset env supported header = negotiate_header env header supported []"

definition php_http_negotiate_content_type :: "negotiate_env \<Rightarrow> hashtable \<Rightarrow> bytes option \<Rightarrow> quality_table option option" where
  "php_http_negotiate_content_type env supported header = negotiate_header env header supported ''/''"

section \<open>Results of the methods\<close>

text \<open>The returned value, and the array of results.\<close>

definition PHP_HTTP_DO_NEGOTIATE_DEFAULT :: "hashtable \<Rightarrow> zval" where
  "PHP_HTTP_DO_NEGOTIATE_DEFAULT supported = (case live supported of [] \<Rightarrow> ZNull | (k, v) # _ \<Rightarrow> v)"

definition PHP_HTTP_DO_NEGOTIATE_HANDLE_DEFAULT :: "hashtable \<Rightarrow> zval \<times> (zkey \<times> rat) list" where
  "PHP_HTTP_DO_NEGOTIATE_HANDLE_DEFAULT supported =
     (PHP_HTTP_DO_NEGOTIATE_DEFAULT supported,
      fold (\<lambda>(k, v). assoc_update (symtable_key (zval_get_string v)) 1) (live supported) [])"

definition PHP_HTTP_DO_NEGOTIATE_HANDLE_RESULT :: "quality_table \<Rightarrow> hashtable \<Rightarrow> zval \<times> (zkey \<times> rat) list" where
  "PHP_HTTP_DO_NEGOTIATE_HANDLE_RESULT result supported =
     (case result of [] \<Rightarrow> PHP_HTTP_DO_NEGOTIATE_DEFAULT supported | (s, q) # _ \<Rightarrow> ZStr s,
      map (\<lambda>(s, q). (KStr s, q)) result)"

definition PHP_HTTP_DO_NEGOTIATE :: "quality_table option option \<Rightarrow> hashtable \<Rightarrow> (zval \<times> (zkey \<times> rat) list) option" where
  "PHP_HTTP_DO_NEGOTIATE result supported =
     map_option (\<lambda>r. case r of Some rs \<Rightarrow> PHP_HTTP_DO_NEGOTIATE_HANDLE_RESULT rs supported
                           | None \<Rightarrow> PHP_HTTP_DO_NEGOTIATE_HANDLE_DEFAULT supported) result"

definition env_negotiateLanguage :: "negotiate_env \<Rightarrow> bytes option \<Rightarrow> hashtable \<Rightarrow> (zval \<times> (zkey \<times> rat) list) option" where
  "env_negotiateLanguage env header supported = PHP_HTTP_DO_NEGOTIATE (php_http_negotiate_language env supported header) supported"

definition env_negotiateCharset :: "negotiate_env \<Rightarrow> bytes option \<Rightarrow> hashtable \<Rightarrow> (zval \<times> (zkey \<times> rat) list) option" where
  "env_negotiateCharset env header supported = PHP_HTTP_DO_NEGOTIATE (php_http_negotiate_charset env supported header) supported"

definition env_negotiateEncoding :: "negotiate_env \<Rightarrow> bytes option \<Rightarrow> hashtable \<Rightarrow> (zval \<times> (zkey \<times> rat) list) option" where
  "env_negotiateEncoding env header supported = PHP_HTTP_DO_NEGOTIATE (php_http_negotiate_encoding env supported header) supported"

definition env_negotiateContentType :: "negotiate_env \<Rightarrow> bytes option \<Rightarrow> hashtable \<Rightarrow> (zval \<times> (zkey \<times> rat) list) option" where
  "env_negotiateContentType env header supported = PHP_HTTP_DO_NEGOTIATE (php_http_negotiate_content_type env supported header) supported"

definition env_negotiate :: "negotiate_env \<Rightarrow> bytes \<Rightarrow> hashtable \<Rightarrow> bytes \<Rightarrow> (zval \<times> (zkey \<times> rat) list) option" where
  "env_negotiate env input supported sep = PHP_HTTP_DO_NEGOTIATE (php_http_negotiate env input supported sep) supported"

text \<open>The method of \<open>http\Header\<close>: the separator depends on the name of the header.\<close>

definition header_negotiate :: "negotiate_env \<Rightarrow> zval \<Rightarrow> zval \<Rightarrow> hashtable \<Rightarrow> (zval \<times> (zkey \<times> rat) list) option" where
  "header_negotiate env name input supported =
     (let zs = zval_get_string name;
          sep = (if zs = ''Accept'' then ''/'' else if zs = ''Accept-Language'' then ''-'' else [])
      in PHP_HTTP_DO_NEGOTIATE (php_http_negotiate env (zval_get_string input) supported sep) supported)"

end
