(* ===== verification/Http_Negotiate_Laws.thy ===== *)
theory Http_Negotiate_Laws
  imports "HOL-Library.Multiset" Http_Negotiate Http_Host
begin

unbundle bit_operations_syntax

text \<open>
  What negotiation promises: the results are the supported values that match, ordered by their quality,
  and the chosen value is the best one.
\<close>

section \<open>Qualities\<close>

text \<open>What the code relies on: the sort of the host yields a permutation that the comparison orders.\<close>

definition sort_ok :: "negotiate_env \<Rightarrow> bool" where
  "sort_ok env \<longleftrightarrow> (\<forall>xs. mset (ne_sort env php_http_negotiate_sort xs) = mset xs \<and>
     sorted_wrt (\<lambda>a b. php_http_negotiate_sort a b \<le> 0) (ne_sort env php_http_negotiate_sort xs))"

lemma negotiate_sort_le: "php_http_negotiate_sort a b \<le> 0 \<longleftrightarrow> snd b \<le> snd a"
  by (auto simp: php_http_negotiate_sort_def)

text \<open>
  The quality of a supported value: the one of the first parameter that matches best, less a tenth
  divided by the match, and 0 if no parameter matches.
\<close>

definition match_of :: "bytes \<Rightarrow> bytes \<Rightarrow> zkey \<times> rat \<Rightarrow> 32 word" where
  "match_of s sep e = php_http_negotiate_match (php_http_arrkey_stringify (fst e)) s sep"

definition best_match :: "bytes \<Rightarrow> bytes \<Rightarrow> (zkey \<times> rat) list \<Rightarrow> 32 word" where
  "best_match s sep params = fold max (map (match_of s sep) params) 0"

definition quality :: "bytes \<Rightarrow> bytes \<Rightarrow> (zkey \<times> rat) list \<Rightarrow> rat" where
  "quality s sep params =
     (let m = best_match s sep params in
      case find (\<lambda>e. match_of s sep e = m) params of
        Some e \<Rightarrow> if m = 0 then 0 else snd e - 1 / 10 / of_nat (unat m)
      | None \<Rightarrow> 0)"

lemma reduce_step_match:
  "reduce_step s sep e (m, q) = (if m < match_of s sep e then (match_of s sep e, snd e - 1 / 10 / of_nat (unat (match_of s sep e))) else (m, q))"
  by (cases e) (simp add: reduce_step_def match_of_def Let_def)

lemma best_match_snoc: "best_match s sep (ps @ [e]) = max (match_of s sep e) (best_match s sep ps)"
  by (simp add: best_match_def)

lemma best_match_le: "e \<in> set ps \<Longrightarrow> match_of s sep e \<le> best_match s sep ps"
  by (induction ps rule: rev_induct) (auto simp: best_match_snoc le_max_iff_disj)

lemma best_match_found: "best_match s sep ps = 0 \<or> (\<exists>e\<in>set ps. match_of s sep e = best_match s sep ps)"
  by (induction ps rule: rev_induct) (auto simp: best_match_snoc max_def best_match_def)

lemma find_append_one: "find P (xs @ [x]) = (case find P xs of Some y \<Rightarrow> Some y | None \<Rightarrow> if P x then Some x else None)"
  by (induction xs) auto

lemma reduce_fold: "fold (reduce_step s sep) ps (0, 0) = (best_match s sep ps, quality s sep ps)"
proof (induction ps rule: rev_induct)
  case (snoc e ps)
  show ?case
  proof (cases "best_match s sep ps < match_of s sep e")
    case True
    then have best: "best_match s sep (ps @ [e]) = match_of s sep e" by (simp add: best_match_snoc max.absorb1 order_less_imp_le)
    have "find (\<lambda>e'. match_of s sep e' = match_of s sep e) ps = None"
      using best_match_le [of _ ps s sep] True unfolding find_None_iff by (metis leD)
    moreover have "match_of s sep e \<noteq> 0" using True word_zero_le [of "best_match s sep ps"] by (metis leD)
    ultimately show ?thesis
      using True snoc.IH by (simp add: reduce_step_match best quality_def find_append_one)
  next
    case False
    then have best: "best_match s sep (ps @ [e]) = best_match s sep ps" by (simp add: best_match_snoc max.absorb2 not_less)
    have "quality s sep (ps @ [e]) = quality s sep ps"
    proof (cases "best_match s sep ps = 0")
      case True
      then show ?thesis by (simp add: quality_def best Let_def split: option.splits)
    next
      case False
      then obtain e' where "find (\<lambda>e. match_of s sep e = best_match s sep ps) ps = Some e'"
        using best_match_found [of s sep ps] by (metis (mono_tags, lifting) find_None_iff option.exhaust)
      then show ?thesis by (simp add: quality_def best find_append_one)
    qed
    then show ?thesis using False snoc.IH by (simp add: reduce_step_match best)
  qed
qed (simp add: best_match_def quality_def)

section \<open>Results\<close>

definition strings :: "hashtable \<Rightarrow> bytes list" where
  "strings supported = map (\<lambda>(k, v). zval_get_string v) (live supported)"

definition qualities :: "negotiate_env \<Rightarrow> hashtable \<Rightarrow> (zkey \<times> rat) list" where
  "qualities env params = fst (fold (quality_step env) (live params) ([], 0))"

lemma reduce_one:
  "php_http_negotiate_reduce arr sep p r =
     (if 0 < quality (zval_get_string p) sep arr then assoc_update (zval_get_string p) (quality (zval_get_string p) sep arr) r else r)"
  by (simp add: php_http_negotiate_reduce_def reduce_fold Let_def)

lemma reduce_all:
  assumes "distinct (map fst r)"
  shows "distinct (map fst (fold (\<lambda>(k, p). php_http_negotiate_reduce arr sep p) es r)) \<and>
         map_of (fold (\<lambda>(k, p). php_http_negotiate_reduce arr sep p) es r) s =
           (if s \<in> set (map (zval_get_string \<circ> snd) es) \<and> 0 < quality s sep arr then Some (quality s sep arr) else map_of r s)"
  using assms
proof (induction es arbitrary: r)
  case (Cons e es)
  obtain k p where e: "e = (k, p)" by force
  have "distinct (map fst (php_http_negotiate_reduce arr sep p r))"
    using Cons.prems by (simp add: reduce_one keys_assoc_update)
  from Cons.IH [OF this] show ?case by (auto simp: e reduce_one map_of_assoc_update)
qed simp

text \<open>What negotiation returns for an input that is parsed.\<close>

lemma negotiate_table:
  assumes "sort_ok env" "input \<noteq> []" "php_http_params_parse (ne_params env) (Some zend_hash_init) (negotiate_opts input) = Some params"
  shows "\<exists>r. php_http_negotiate env input supported sep = Some (Some r) \<and> distinct (map fst r) \<and> sorted_wrt (\<lambda>a b. snd b \<le> snd a) r \<and>
           (\<forall>s q. (s, q) \<in> set r \<longleftrightarrow> s \<in> set (strings supported) \<and> 0 < q \<and> q = quality s sep (qualities env params))"
proof -
  let ?arr = "qualities env params"
  let ?r = "fold (\<lambda>(k, p). php_http_negotiate_reduce ?arr sep p) (live supported) []"
  let ?s = "ne_sort env php_http_negotiate_sort ?r"
  have result: "php_http_negotiate env input supported sep = Some (Some ?s)"
    using assms(2,3) by (simp add: php_http_negotiate_def qualities_def)
  have perm: "mset ?s = mset ?r" and sorted: "sorted_wrt (\<lambda>a b. snd b \<le> snd a) ?s"
    using assms(1) unfolding sort_ok_def negotiate_sort_le by blast+
  note all = reduce_all [of "[]" ?arr sep "live supported"]
  have d: "distinct (map fst ?r)" using all by simp
  have "set (map (zval_get_string \<circ> snd) (live supported)) = set (strings supported)"
    by (simp add: strings_def comp_def case_prod_beta')
  then have "(s, q) \<in> set ?r \<longleftrightarrow> s \<in> set (strings supported) \<and> 0 < q \<and> q = quality s sep ?arr" for s q
    using all map_of_eq_Some_iff [OF d, of s q] by (auto split: if_splits)
  moreover have "set ?s = set ?r" using perm by (rule mset_eq_setD)
  moreover have "distinct (map fst ?s)" using d mset_eq_imp_distinct_iff [of "map fst ?s" "map fst ?r"] perm by simp
  ultimately show ?thesis using result sorted by blast
qed

text \<open>
  C17. Negotiation chooses the best supported value. For an input that is parsed, the array of results
  holds exactly the supported values whose quality is positive, each once, with their qualities in
  descending order, where the quality of a value is that of the parameter that matches it best; the
  chosen value has the highest quality of all supported ones, and it is the first supported value if none matches.
\<close>

theorem negotiate_choice:
  assumes "sort_ok env" "input \<noteq> []" "php_http_params_parse (ne_params env) (Some zend_hash_init) (negotiate_opts input) = Some params"
  shows "\<exists>v rs. env_negotiate env input supported sep = Some (v, rs) \<and> distinct (map fst rs) \<and> sorted_wrt (\<lambda>a b. snd b \<le> snd a) rs \<and>
           (\<forall>k q. (k, q) \<in> set rs \<longleftrightarrow>
              (\<exists>s\<in>set (strings supported). k = KStr s \<and> 0 < q \<and> q = quality s sep (qualities env params))) \<and>
           (if \<exists>s\<in>set (strings supported). 0 < quality s sep (qualities env params)
            then \<exists>s\<in>set (strings supported). v = ZStr s \<and>
                   (\<forall>t\<in>set (strings supported). quality t sep (qualities env params) \<le> quality s sep (qualities env params))
            else v = PHP_HTTP_DO_NEGOTIATE_DEFAULT supported)"
proof -
  let ?quality = "\<lambda>s. quality s sep (qualities env params)"
  from negotiate_table [OF assms, of supported sep] obtain r where
    r: "php_http_negotiate env input supported sep = Some (Some r)" "distinct (map fst r)" "sorted_wrt (\<lambda>a b. snd b \<le> snd a) r"
      "\<And>s q. (s, q) \<in> set r \<longleftrightarrow> s \<in> set (strings supported) \<and> 0 < q \<and> q = ?quality s"
    by blast
  let ?rs = "map (\<lambda>(s, q). (KStr s, q)) r" and ?v = "case r of [] \<Rightarrow> PHP_HTTP_DO_NEGOTIATE_DEFAULT supported | (s, q) # _ \<Rightarrow> ZStr s"
  have "env_negotiate env input supported sep = Some (?v, ?rs)"
    by (simp add: env_negotiate_def PHP_HTTP_DO_NEGOTIATE_def PHP_HTTP_DO_NEGOTIATE_HANDLE_RESULT_def r(1))
  moreover have "distinct (map fst ?rs)"
  proof -
    have "map fst ?rs = map KStr (map fst r)" by (simp add: case_prod_beta')
    then show ?thesis using r(2) distinct_map [of KStr "map fst r"] by (simp add: inj_on_def del: map_map)
  qed
  moreover have "sorted_wrt (\<lambda>a b. snd b \<le> snd a) ?rs" using r(3) by (simp add: sorted_wrt_map case_prod_beta')
  moreover have "(k, q) \<in> set ?rs \<longleftrightarrow> (\<exists>s\<in>set (strings supported). k = KStr s \<and> 0 < q \<and> q = ?quality s)" for k q
  proof -
    have "(k, q) \<in> set ?rs \<longleftrightarrow> (\<exists>s. k = KStr s \<and> (s, q) \<in> set r)" by (simp add: image_iff split_beta) force
    then show ?thesis unfolding r(4) by blast
  qed
  moreover have "if \<exists>s\<in>set (strings supported). 0 < ?quality s
      then \<exists>s\<in>set (strings supported). ?v = ZStr s \<and> (\<forall>t\<in>set (strings supported). ?quality t \<le> ?quality s)
      else ?v = PHP_HTTP_DO_NEGOTIATE_DEFAULT supported"
  proof (cases r)
    case Nil
    then show ?thesis using r(4) by auto
  next
    case (Cons e r')
    obtain s q where e: "e = (s, q)" by force
    have s: "s \<in> set (strings supported)" "0 < q" "q = ?quality s" using r(4) [of s q] by (auto simp: Cons e)
    have "?quality t \<le> ?quality s" if "t \<in> set (strings supported)" for t
    proof (cases "0 < ?quality t")
      case True
      then have "(t, ?quality t) \<in> set r" using r(4) that by blast
      then show ?thesis using r(3) s(3) by (auto simp: Cons e)
    next
      case False
      then show ?thesis using s(2,3) by simp
    qed
    then show ?thesis using s by (auto simp: Cons e)
  qed
  ultimately show ?thesis by blast
qed

section \<open>A sample host\<close>

fun insert_by :: "('a \<Rightarrow> 'a \<Rightarrow> int) \<Rightarrow> 'a \<Rightarrow> 'a list \<Rightarrow> 'a list" where
  "insert_by cmp x [] = [x]"
| "insert_by cmp x (y # ys) = (if cmp x y \<le> 0 then x # y # ys else y # insert_by cmp x ys)"

definition decimal :: "bytes \<Rightarrow> rat" where
  "decimal s =
     (let a = takeWhile isdigit s; r = drop (length a) s; b = (if r \<noteq> [] \<and> hd r = CHR ''.'' then takeWhile isdigit (tl r) else [])
      in of_nat (digits_val 10 (a @ b)) / of_nat (10 ^ length b))"

definition sample_negotiate_env :: negotiate_env where
  "sample_negotiate_env =
     \<lparr>ne_params = sample_params_env, ne_str_double = decimal, ne_sort = (\<lambda>cmp xs. foldr (insert_by cmp) xs [])\<rparr>"

lemma sample_sort_ok: "sort_ok sample_negotiate_env"
proof -
  have mset: "mset (insert_by cmp x xs) = add_mset x (mset xs)" for cmp :: "'a \<Rightarrow> 'a \<Rightarrow> int" and x xs
    by (induction xs) auto
  then have set: "set (insert_by cmp x xs) = insert x (set xs)" for cmp :: "'a \<Rightarrow> 'a \<Rightarrow> int" and x xs
    by (metis set_mset_add_mset_insert set_mset_mset)
  have "sorted_wrt (\<lambda>a b. php_http_negotiate_sort a b \<le> 0) (insert_by php_http_negotiate_sort x xs)"
    if "sorted_wrt (\<lambda>a b. php_http_negotiate_sort a b \<le> 0) xs" for x xs
    using that unfolding negotiate_sort_le by (induction xs) (auto simp: set negotiate_sort_le)
  then have "sorted_wrt (\<lambda>a b. php_http_negotiate_sort a b \<le> 0) (foldr (insert_by php_http_negotiate_sort) xs [])" for xs
    by (induction xs) simp_all
  moreover have "mset (foldr (insert_by php_http_negotiate_sort) xs []) = mset xs" for xs
    by (induction xs) (simp_all add: mset)
  ultimately show ?thesis by (simp add: sort_ok_def sample_negotiate_env_def)
qed

definition list_table :: "bytes list \<Rightarrow> hashtable" where
  "list_table ss = fold (\<lambda>s ht. zend_hash_next_index_insert ht (ZStr s)) ss zend_hash_init"

definition sample_languages :: bytes where "sample_languages = ''de;q=0.5, en-US, fr;q=0.9''"

lemma sample_languages_parsed:
  "php_http_params_parse (ne_params sample_negotiate_env) (Some zend_hash_init) (negotiate_opts sample_languages) \<noteq> None"
  by code_simp

theorem negotiate_choice_witness:
  "let supported = list_table [''de'', ''fr'', ''en'', ''it''] in
   \<exists>v rs. env_negotiate sample_negotiate_env sample_languages supported ''-'' = Some (v, rs) \<and> distinct (map fst rs) \<and>
     sorted_wrt (\<lambda>a b. snd b \<le> snd a) rs"
proof -
  obtain params where params:
    "php_http_params_parse (ne_params sample_negotiate_env) (Some zend_hash_init) (negotiate_opts sample_languages) = Some params"
    using sample_languages_parsed by blast
  have "sample_languages \<noteq> []" by (simp add: sample_languages_def)
  from negotiate_choice [OF sample_sort_ok this params, of "list_table [''de'', ''fr'', ''en'', ''it'']" "''-''"]
  show ?thesis unfolding Let_def by blast
qed

text \<open>The chosen language and the order of the results for that input.\<close>

lemma negotiate_sample:
  "map_option (\<lambda>(v, rs). (v, map fst rs))
     (env_negotiate sample_negotiate_env sample_languages (list_table [''de'', ''fr'', ''en'', ''it'']) ''-'') =
   Some (ZStr ''en'', [KStr ''en'', KStr ''fr'', KStr ''de''])"
  by code_simp

section \<open>Inputs on which the code goes wrong\<close>

text \<open>A language with a wildcard matches a different language without a region: 0 - 1 is the largest match.\<close>

lemma negotiate_wildcard_wraps:
  "php_http_negotiate_match ''en-*'' ''de'' ''-'' = M_ALL"
  by code_simp

text \<open>A wildcard for subtypes matches other types.\<close>

lemma negotiate_wildcard_other_type:
  "map_option fst (env_negotiateContentType sample_negotiate_env (Some ''text/*'') (list_table [''image/png'', ''text/html''])) = Some (ZStr ''text/html'')"
  "map_option (map fst \<circ> snd) (env_negotiateContentType sample_negotiate_env (Some ''text/*'') (list_table [''image/png'', ''text/html''])) =
     Some [KStr ''text/html'', KStr ''image/png'']"
  by code_simp+

text \<open>The general wildcard matches as well as one for subtypes, so that the first one decides.\<close>

lemma negotiate_wildcards_equal:
  "php_http_negotiate_match ''*/*'' ''text/html'' ''/'' = php_http_negotiate_match ''text/*'' ''text/html'' ''/''"
  by code_simp

text \<open>The wildcard for encodings and character sets is not recognised.\<close>

lemma negotiate_encoding_wildcard:
  "map_option snd (env_negotiateEncoding sample_negotiate_env (Some ''*'') (list_table [''gzip''])) = Some []"
  by code_simp

text \<open>A language is matched by the beginning of its name.\<close>

lemma negotiate_prefix:
  "map_option fst (env_negotiateLanguage sample_negotiate_env (Some ''d'') (list_table [''en'', ''de''])) = Some (ZStr ''de'')"
  by code_simp

end
