(* ===== verification/Http_Options.thy ===== *)
theory Http_Options
  imports Http_Zend
begin

text \<open>
  Registries of options (\<open>php_http_options.c\<close>, \<open>php_http_options.h\<close>). Getters and setters are function
  pointers: they are names here, and what a name stands for is looked up in an environment. A call may
  change the user data. A null pointer that is called has the result \<^const>\<open>None\<close>. The values are those of
  the host language, floating point numbers included, of which only the zero is used.
\<close>

section \<open>State\<close>

datatype 'd opt_zval = OZval zval | ODouble 'd

datatype opt_type = IS_NULL | IS_FALSE | IS_TRUE | IS_LONG | IS_DOUBLE | IS_STRING | IS_ARRAY | IS_OBJECT

datatype ('g, 's, 'd) php_http_options =
    Options (options: "(bytes \<times> ('g, 's, 'd) php_http_option) list") (getter: "'g option") (setter: "'s option")
      (reg_persistent: bool)
and ('g, 's, 'd) php_http_option =
    Option (suboptions: "('g, 's, 'd) php_http_options") (opt_name: bytes) (opt_option: "64 word") (opt_type: opt_type)
      (opt_flags: "32 word") (defval: "'d opt_zval") (opt_setter: "'s option") (opt_persistent: bool)

record ('g, 's, 'd, 'u) options_env =
  oe_get :: "'g \<Rightarrow> ('g, 's, 'd) php_http_option \<Rightarrow> (zkey \<times> 'd opt_zval) list option \<Rightarrow> 'u \<Rightarrow> 'd opt_zval option \<times> 'u"
  oe_set :: "'s \<Rightarrow> ('g, 's, 'd) php_http_option \<Rightarrow> 'd opt_zval \<Rightarrow> 'u \<Rightarrow> bool \<times> 'u"

section \<open>Operations\<close>

definition php_http_options_init :: "bool \<Rightarrow> ('g, 's, 'd) php_http_options" where
  "php_http_options_init persistent = Options [] None None persistent"

fun options_apply_loop ::
  "('g, 's, 'd, 'u) options_env \<Rightarrow> 'g option \<Rightarrow> 's option \<Rightarrow> (bytes \<times> ('g, 's, 'd) php_http_option) list \<Rightarrow>
     (zkey \<times> 'd opt_zval) list option \<Rightarrow> 'u \<Rightarrow> (bool \<times> 'u) option" where
  "options_apply_loop env reg_get reg_set [] opts u = Some (True, u)"
| "options_apply_loop env reg_get reg_set ((_, opt) # entries) opts u =
     (case reg_get of
        None \<Rightarrow> None
      | Some get \<Rightarrow>
          let (v, u) = oe_get env get opt opts u;
              v = (case v of None \<Rightarrow> defval opt | Some v \<Rightarrow> v)
          in (case reg_set of
                Some put \<Rightarrow>
                  (case oe_set env put opt v u of
                     (False, u) \<Rightarrow> Some (False, u)
                   | (True, u) \<Rightarrow> options_apply_loop env reg_get reg_set entries opts u)
              | None \<Rightarrow>
                  (case opt_setter opt of
                     None \<Rightarrow> Some (False, u)
                   | Some put \<Rightarrow>
                       (case oe_set env put opt v u of
                          (False, u) \<Rightarrow> Some (False, u)
                        | (True, u) \<Rightarrow> options_apply_loop env reg_get reg_set entries opts u))))"

definition php_http_options_apply ::
  "('g, 's, 'd, 'u) options_env \<Rightarrow> ('g, 's, 'd) php_http_options \<Rightarrow> (zkey \<times> 'd opt_zval) list option \<Rightarrow> 'u \<Rightarrow> (bool \<times> 'u) option" where
  "php_http_options_apply env registry opts u =
     options_apply_loop env (getter registry) (setter registry) (options registry) opts u"

definition type_default :: "opt_type \<Rightarrow> 'd::zero opt_zval" where
  "type_default type =
     (case type of
        IS_TRUE \<Rightarrow> OZval (ZBool True) | IS_FALSE \<Rightarrow> OZval (ZBool False) | IS_LONG \<Rightarrow> OZval (ZLong 0)
      | IS_DOUBLE \<Rightarrow> ODouble 0 | _ \<Rightarrow> OZval ZNull)"

text \<open>The suboptions of a new option have the getter and the setter of the registry.\<close>

definition php_http_option_register ::
  "('g, 's, 'd::zero) php_http_options \<Rightarrow> bytes \<Rightarrow> 64 word \<Rightarrow> opt_type \<Rightarrow>
     ('g, 's, 'd) php_http_option \<times> ('g, 's, 'd) php_http_options" where
  "php_http_option_register registry name option type =
     (let sub = (case php_http_options_init (reg_persistent registry) of
                   Options es _ _ p \<Rightarrow> Options es (getter registry) (setter registry) p);
          opt = Option sub name option type 0 (type_default type) None (reg_persistent registry)
      in (opt, Options (assoc_update name opt (options registry)) (getter registry) (setter registry) (reg_persistent registry)))"

definition php_http_option_get :: "('g, 's, 'd) php_http_option \<Rightarrow> (zkey \<times> 'd opt_zval) list option \<Rightarrow> 'd opt_zval option" where
  "php_http_option_get opt opts = (case opts of Some es \<Rightarrow> map_of es (KStr (opt_name opt)) | None \<Rightarrow> None)"

section \<open>Facts\<close>

text \<open>
  The specification: the setter that is responsible for an option, and the steps for a list of options
  one after the other, up to the first that fails.
\<close>

definition option_step ::
  "('g, 's, 'd, 'u) options_env \<Rightarrow> 'g \<Rightarrow> 's option \<Rightarrow> (zkey \<times> 'd opt_zval) list option \<Rightarrow> ('g, 's, 'd) php_http_option \<Rightarrow> 'u \<Rightarrow> bool \<times> 'u" where
  "option_step env get reg_set opts opt u =
     (let (v, u) = oe_get env get opt opts u in
      case (if reg_set \<noteq> None then reg_set else opt_setter opt) of
        None \<Rightarrow> (False, u)
      | Some put \<Rightarrow> oe_set env put opt (case v of None \<Rightarrow> defval opt | Some v \<Rightarrow> v) u)"

definition steps_ok :: "('o \<Rightarrow> 'u \<Rightarrow> bool \<times> 'u) \<Rightarrow> 'o list \<Rightarrow> 'u \<Rightarrow> bool" where
  "steps_ok step os u \<longleftrightarrow> (\<forall>i<length os. fst (step (os ! i) (fold (\<lambda>x u. snd (step x u)) (take i os) u)))"

lemma steps_ok_Nil [simp]: "steps_ok step [] u"
  by (simp add: steps_ok_def)

lemma steps_ok_Cons: "steps_ok step (x # os) u \<longleftrightarrow> fst (step x u) \<and> steps_ok step os (snd (step x u))"
  unfolding steps_ok_def by (auto simp: nth_Cons' less_Suc_eq_0_disj split: nat.splits)

lemma options_apply_loop_step:
  "options_apply_loop env (Some get) reg_set (e # entries) opts u =
     (case option_step env get reg_set opts (snd e) u of
        (False, u) \<Rightarrow> Some (False, u)
      | (True, u) \<Rightarrow> options_apply_loop env (Some get) reg_set entries opts u)"
  by (cases e) (auto simp: option_step_def Let_def split: option.splits prod.splits bool.splits)

lemma options_apply_loop_result:
  "options_apply_loop env (Some get) reg_set entries opts u = Some (ok, u') \<longleftrightarrow>
     (if ok
      then steps_ok (option_step env get reg_set opts) (map snd entries) u \<and>
           u' = fold (\<lambda>x u. snd (option_step env get reg_set opts x u)) (map snd entries) u
      else \<exists>pre x post. map snd entries = pre @ x # post \<and> steps_ok (option_step env get reg_set opts) pre u \<and>
           option_step env get reg_set opts x (fold (\<lambda>x u. snd (option_step env get reg_set opts x u)) pre u) = (False, u'))"
    (is "?apply entries u \<longleftrightarrow> ?spec entries u")
proof (induction entries arbitrary: u)
  case Nil
  show ?case by (cases ok) auto
next
  case (Cons e entries)
  let ?st = "option_step env get reg_set opts"
  obtain b w where st: "?st (snd e) u = (b, w)" by (cases "?st (snd e) u")
  show ?case
  proof (cases b)
    case False
    have "\<exists>pre x post. snd e # map snd entries = pre @ x # post \<and> steps_ok ?st pre u \<and>
        ?st x (fold (\<lambda>x u. snd (?st x u)) pre u) = (False, u')" if "w = u'"
      using that st False by (intro exI [of _ "[]"]) auto
    moreover have "w = u'" if "snd e # map snd entries = pre @ x # post" "steps_ok ?st pre u"
        "?st x (fold (\<lambda>x u. snd (?st x u)) pre u) = (False, u')" for pre x post
      using that st False by (cases pre) (auto simp: steps_ok_Cons)
    ultimately show ?thesis
      using st False by (auto simp: options_apply_loop_step steps_ok_Cons)
  next
    case True
    have "?apply (e # entries) u \<longleftrightarrow> ?apply entries w" using st True by (simp add: options_apply_loop_step)
    also have "\<dots> \<longleftrightarrow> ?spec entries w" by (rule Cons.IH)
    also have "\<dots> \<longleftrightarrow> ?spec (e # entries) u"
    proof (cases ok)
      case True
      then show ?thesis using st \<open>b\<close> by (simp add: steps_ok_Cons)
    next
      case nok: False
      have "(\<exists>pre x post. map snd entries = pre @ x # post \<and> steps_ok ?st pre w \<and>
              ?st x (fold (\<lambda>x u. snd (?st x u)) pre w) = (False, u')) \<longleftrightarrow>
            (\<exists>pre x post. snd e # map snd entries = pre @ x # post \<and> steps_ok ?st pre u \<and>
              ?st x (fold (\<lambda>x u. snd (?st x u)) pre u) = (False, u'))" (is "?L \<longleftrightarrow> ?R")
      proof
        assume ?L
        then obtain pre o' post where "map snd entries = pre @ o' # post" "steps_ok ?st pre w"
          "?st o' (fold (\<lambda>x u. snd (?st x u)) pre w) = (False, u')" by blast
        then show ?R using st \<open>b\<close>
          by (intro exI [of _ "snd e # pre"] exI [of _ o'] exI [of _ post]) (simp add: steps_ok_Cons)
      next
        assume ?R
        then obtain pre o' post where R: "snd e # map snd entries = pre @ o' # post" "steps_ok ?st pre u"
          "?st o' (fold (\<lambda>x u. snd (?st x u)) pre u) = (False, u')" by blast
        then show ?L using st \<open>b\<close> by (cases pre) (auto simp: steps_ok_Cons)
      qed
      with nok show ?thesis by simp
    qed
    finally show ?thesis .
  qed
qed

section \<open>Results\<close>

text \<open>
  C16. Applying a registry is fail fast: the options are looked up and set in the order of registration, an
  option that is not given with its default; the first setter that fails, or option without
  setter, ends it with a failure and the user data as left at that point, and no later setter is called.
  It succeeds exactly if every step does. Only a registry that has options and no getter calls a null
  pointer.
\<close>

theorem options_apply_fails_fast:
  "(case getter registry of
      Some get \<Rightarrow>
        (\<exists>r. php_http_options_apply env registry opts u = Some r) \<and>
        (php_http_options_apply env registry opts u = Some (True, u') \<longleftrightarrow>
           steps_ok (option_step env get (setter registry) opts) (map snd (options registry)) u \<and>
           u' = fold (\<lambda>x u. snd (option_step env get (setter registry) opts x u)) (map snd (options registry)) u) \<and>
        (php_http_options_apply env registry opts u = Some (False, u') \<longleftrightarrow>
           (\<exists>pre x post. map snd (options registry) = pre @ x # post \<and>
              steps_ok (option_step env get (setter registry) opts) pre u \<and>
              option_step env get (setter registry) opts x
                (fold (\<lambda>x u. snd (option_step env get (setter registry) opts x u)) pre u) = (False, u')))
    | None \<Rightarrow> php_http_options_apply env registry opts u = (if options registry = [] then Some (True, u) else None))"
proof (cases "getter registry")
  case None
  then show ?thesis by (cases "options registry") (auto simp: php_http_options_apply_def)
next
  case (Some get)
  have "\<exists>r. options_apply_loop env (Some get) reg_set entries opts u = Some r" for reg_set entries
    by (induction entries arbitrary: u) (auto simp: options_apply_loop_step split: prod.splits bool.splits)
  then show ?thesis
    using Some options_apply_loop_result [of env get "setter registry" "options registry" opts u True u']
      options_apply_loop_result [of env get "setter registry" "options registry" opts u False u']
    by (simp add: php_http_options_apply_def)
qed

text \<open>Options registered under different names are applied in the order of their registration, with the values given or the defaults of their types.\<close>

lemma register_fresh:
  "name \<notin> fst ` set (options reg) \<Longrightarrow>
   snd (php_http_option_register reg name option type) =
     Options (options reg @ [(name, fst (php_http_option_register reg name option type))]) (getter reg) (setter reg) (reg_persistent reg)"
  by (simp add: php_http_option_register_def assoc_update_fresh Let_def)

lemma registered_step:
  assumes "oe_get env get = (\<lambda>opt opts u. (php_http_option_get opt opts, u))"
  shows "option_step env get (Some put) opts (fst (php_http_option_register reg name option type)) u =
     oe_set env put (fst (php_http_option_register reg name option type))
       (case (case opts of Some es \<Rightarrow> map_of es (KStr name) | None \<Rightarrow> None) of Some v \<Rightarrow> v | None \<Rightarrow> type_default type) u"
  by (simp add: option_step_def assms php_http_option_get_def php_http_option_register_def Let_def split: option.splits)

end
