(* ===== verification/Http_Env.thy ===== *)
theory Http_Env
  imports Http_Header Http_Message_Body Http_Message Http_Range
begin

text \<open>
  The environment of a script (\<open>php_http_env.c\<close>): headers, body and method of the current request, byte
  ranges, and the headers of the response. The request comes from the server variables of the host and
  is cached; the response headers are written by an operation of the host (\<open>sapi_header_op\<close>), which is
  an argument with a state of its own. A request message, where one is given, takes the place of the
  server variables.
\<close>

section \<open>State\<close>

text \<open>
  The globals of the module (\<open>PHP_HTTP_G->env\<close>), and what the host provides: \<open>$_SERVER\<close> where it is an
  array, the input, and the method of the request.
\<close>

record env_globals =
  env_headers :: "hashtable option"
  env_body :: "php_http_message_body option"
  env_server_var :: "zval option"

record env_host =
  host_server :: "hashtable option"
  host_input :: bytes
  host_method :: "bytes option"

datatype sapi_op = SAPI_HEADER_REPLACE | SAPI_HEADER_ADD | SAPI_HEADER_DELETE | SAPI_HEADER_SET_STATUS

type_synonym 's sapi_header_op = "sapi_op \<Rightarrow> bytes \<Rightarrow> int \<Rightarrow> 's \<Rightarrow> bool \<times> 's"

section \<open>Request\<close>

definition php_http_env_reset :: "env_globals \<Rightarrow> env_globals" where
  "php_http_env_reset g = g\<lparr>env_headers := None, env_body := None, env_server_var := None\<rparr>"

definition http_PRSHUTDOWN_env :: "env_globals \<Rightarrow> bool \<times> env_globals" where
  "http_PRSHUTDOWN_env g = (True, php_http_env_reset g)"

text \<open>The name of the header a server variable stands for.\<close>

definition server_header :: "zkey \<Rightarrow> bytes option" where
  "server_header key =
     (case key of
        KInt _ \<Rightarrow> None
      | KStr k \<Rightarrow>
          if 5 < length k \<and> take 5 k = ''HTTP_'' then Some (php_http_pretty_key (drop 5 k) True True)
          else if 8 < length k \<and> take 8 k = ''CONTENT_'' then Some (php_http_pretty_key k True True)
          else None)"

definition request_header_step :: "zkey \<times> zval \<Rightarrow> hashtable \<Rightarrow> hashtable" where
  "request_header_step = (\<lambda>(key, header) headers.
     case server_header key of
       None \<Rightarrow> headers
     | Some key_str \<Rightarrow> zend_hash_update headers (symtable_key key_str) header)"

definition load_request_headers :: "env_host \<Rightarrow> env_globals \<Rightarrow> env_globals" where
  "load_request_headers host g =
     (case env_headers g of
        Some _ \<Rightarrow> g
      | None \<Rightarrow>
          g\<lparr>env_headers := Some (case host_server host of
               None \<Rightarrow> zend_hash_init
             | Some hsv \<Rightarrow> fold request_header_step (live hsv) zend_hash_init)\<rparr>)"

definition php_http_env_get_request_headers :: "env_host \<Rightarrow> hashtable option \<Rightarrow> env_globals \<Rightarrow> hashtable option \<times> env_globals" where
  "php_http_env_get_request_headers host headers g =
     (let g = load_request_headers host g
      in (map_option (array_copy (the (env_headers g))) headers, g))"

text \<open>The table a header is looked up in: the headers of the message, or those of the environment.\<close>

definition request_table :: "env_host \<Rightarrow> php_http_message option \<Rightarrow> env_globals \<Rightarrow> hashtable \<times> env_globals" where
  "request_table host request g =
     (case request of
        Some m \<Rightarrow> (msg_hdrs m, g)
      | None \<Rightarrow> let g = snd (php_http_env_get_request_headers host None g) in (the (env_headers g), g))"

definition php_http_env_get_request_header ::
  "env_host \<Rightarrow> bytes \<Rightarrow> php_http_message option \<Rightarrow> env_globals \<Rightarrow> bytes option \<times> env_globals" where
  "php_http_env_get_request_header host name request g =
     (let key = php_http_pretty_key name True True;
          (request_headers, g) = request_table host request g
      in (map_option zval_get_string (zend_hash_find request_headers (symtable_key key)), g))"

definition php_http_env_got_request_header ::
  "env_host \<Rightarrow> bytes \<Rightarrow> php_http_message option \<Rightarrow> env_globals \<Rightarrow> bool \<times> env_globals" where
  "php_http_env_got_request_header host name request g =
     (let key = php_http_pretty_key name True True;
          (request_headers, g) = request_table host request g
      in (zend_hash_find request_headers (symtable_key key) \<noteq> None, g))"

text \<open>With \<open>check\<close>, only a string that is not empty counts.\<close>

definition php_http_env_get_server_var :: "env_host \<Rightarrow> bytes \<Rightarrow> bool \<Rightarrow> zval option" where
  "php_http_env_get_server_var host key check =
     (case host_server host of
        None \<Rightarrow> None
      | Some hsv \<Rightarrow>
          (case zend_hash_find hsv (symtable_key key) of
             None \<Rightarrow> None
           | Some var \<Rightarrow>
               if check \<and> \<not> (case var of ZStr s \<Rightarrow> s \<noteq> [] | _ \<Rightarrow> False) then None else Some var))"

definition php_http_env_get_request_body :: "env_host \<Rightarrow> env_globals \<Rightarrow> php_http_message_body \<times> env_globals" where
  "php_http_env_get_request_body host g =
     (case env_body g of
        Some body \<Rightarrow> (body, g)
      | None \<Rightarrow> let body = php_http_message_body_init\<lparr>body_data := host_input host\<rparr> in (body, g\<lparr>env_body := Some body\<rparr>))"

definition php_http_env_get_request_method :: "env_host \<Rightarrow> php_http_message option \<Rightarrow> bytes" where
  "php_http_env_get_request_method host request =
     (let m = (case request of
                 Some msg \<Rightarrow> if msg_type msg = PHP_HTTP_REQUEST then request_method msg else host_method host
               | None \<Rightarrow> host_method host)
      in case m of Some m \<Rightarrow> m | None \<Rightarrow> ''GET'')"

text \<open>The ranges of the request, with the header looked up.\<close>

definition env_request_ranges ::
  "env_host \<Rightarrow> size_t \<Rightarrow> php_http_message option \<Rightarrow> env_globals \<Rightarrow> ((php_http_range_status \<times> (int \<times> int) list) option) \<times> env_globals" where
  "env_request_ranges host len request g =
     (let (range, g) = php_http_env_get_request_header host ''Range'' request g
      in (php_http_env_get_request_ranges len range, g))"

section \<open>Response\<close>

text \<open>The text of the header lines of the response, for the header parser.\<close>

definition grab_headers :: "bytes \<Rightarrow> bytes \<Rightarrow> bytes" where
  "grab_headers header buf = buf @ cstr header @ [CR, LF]"

definition php_http_env_get_response_headers ::
  "url_env \<Rightarrow> bytes list \<Rightarrow> hashtable \<Rightarrow> (bool \<times> hashtable option) option" where
  "php_http_env_get_response_headers env sapi_headers headers_ht =
     map_option (\<lambda>(status, ht, _). (status, ht))
       (php_http_header_parse env (fold grab_headers sapi_headers []) (Some headers_ht) None ())"

text \<open>The last line with the name counts; names are compared with regard to case.\<close>

definition grab_header :: "bytes \<Rightarrow> bytes \<Rightarrow> bytes option \<Rightarrow> bytes option" where
  "grab_header name header found =
     (if length name < length header \<and> header ! length name = CHR '':'' \<and>
         cstr (take (length name) header) = cstr name
      then Some (dropWhile isspace (cstr (drop (length name + 1) header)))
      else found)"

definition php_http_env_get_response_header :: "bytes list \<Rightarrow> bytes \<Rightarrow> bytes option" where
  "php_http_env_get_response_header sapi_headers name =
     fold (grab_header (php_http_pretty_key name True True)) sapi_headers None"

definition php_http_env_get_response_code :: "int \<Rightarrow> int" where
  "php_http_env_get_response_code http_response_code = (if http_response_code \<noteq> 0 then http_response_code else 200)"

definition response_codes :: "(nat \<times> bytes) list" where
  "response_codes =
    [(100, ''Continue''), (101, ''Switching Protocols''), (102, ''Processing''), (200, ''OK''), (201, ''Created''),
     (202, ''Accepted''), (203, ''Non-Authoritative Information''), (204, ''No Content''), (205, ''Reset Content''),
     (206, ''Partial Content''), (207, ''Multi-Status''), (208, ''Already Reported''), (226, ''IM Used''),
     (300, ''Multiple Choices''), (301, ''Moved Permanently''), (302, ''Found''), (303, ''See Other''),
     (304, ''Not Modified''), (305, ''Use Proxy''), (307, ''Temporary Redirect''), (308, ''Permanent Redirect''),
     (400, ''Bad Request''), (401, ''Unauthorized''), (402, ''Payment Required''), (403, ''Forbidden''),
     (404, ''Not Found''), (405, ''Method Not Allowed''), (406, ''Not Acceptable''),
     (407, ''Proxy Authentication Required''), (408, ''Request Timeout''), (409, ''Conflict''), (410, ''Gone''),
     (411, ''Length Required''), (412, ''Precondition Failed''), (413, ''Request Entity Too Large''),
     (414, ''Request URI Too Long''), (415, ''Unsupported Media Type''), (416, ''Requested Range Not Satisfiable''),
     (417, ''Expectation Failed''), (422, ''Unprocessible Entity''), (423, ''Locked''), (424, ''Failed Dependency''),
     (426, ''Upgrade Required''), (428, ''Precondition Required''), (429, ''Too Many Requests''),
     (431, ''Request Header Fields Too Large''), (500, ''Internal Server Error''), (501, ''Not Implemented''),
     (502, ''Bad Gateway''), (503, ''Service Unavailable''), (504, ''Gateway Timeout''),
     (505, ''HTTP Version Not Supported''), (506, ''Variant Also Negotiates''), (507, ''Insufficient Storage''),
     (508, ''Loop Detected''), (510, ''Not Extended''), (511, ''Network Authentication Required'')]"

definition php_http_env_get_response_status_for_code :: "32 word \<Rightarrow> bytes option" where
  "php_http_env_get_response_status_for_code code = map_of response_codes (unat code)"

text \<open>A string argument of \<open>%s\<close>, which may be the null pointer.\<close>

definition fmt_str :: "bytes option \<Rightarrow> bytes" where
  "fmt_str s = (case s of Some s \<Rightarrow> cstr s | None \<Rightarrow> ''(null)'')"

definition status_line :: "php_http_version \<Rightarrow> int \<Rightarrow> bytes" where
  "status_line v code =
     ''HTTP/'' @ dec (unat (ver_major v)) @ ''.'' @ dec (unat (ver_minor v)) @ '' '' @ print_long code @ '' '' @
       fmt_str (php_http_env_get_response_status_for_code (word_of_int code))"

definition php_http_env_set_response_code :: "'s sapi_header_op \<Rightarrow> int \<Rightarrow> 's \<Rightarrow> bool \<times> 's" where
  "php_http_env_set_response_code sapi http_code s = sapi SAPI_HEADER_SET_STATUS [] http_code s"

definition php_http_env_set_response_status_line :: "'s sapi_header_op \<Rightarrow> int \<Rightarrow> php_http_version \<Rightarrow> 's \<Rightarrow> bool \<times> 's" where
  "php_http_env_set_response_status_line sapi code v s = sapi SAPI_HEADER_REPLACE (status_line v code) 0 s"

definition php_http_env_set_response_protocol_version :: "'s sapi_header_op \<Rightarrow> int \<Rightarrow> php_http_version \<Rightarrow> 's \<Rightarrow> bool \<times> 's" where
  "php_http_env_set_response_protocol_version sapi http_response_code v s =
     php_http_env_set_response_status_line sapi (php_http_env_get_response_code http_response_code) v s"

definition php_http_env_set_response_header :: "'s sapi_header_op \<Rightarrow> int \<Rightarrow> bytes \<Rightarrow> bool \<Rightarrow> 's \<Rightarrow> bool \<times> 's" where
  "php_http_env_set_response_header sapi http_code header replace s =
     sapi (if replace then SAPI_HEADER_REPLACE else SAPI_HEADER_ADD) header http_code s"

text \<open>The formatted line is the argument.\<close>

definition php_http_env_set_response_header_va :: "'s sapi_header_op \<Rightarrow> int \<Rightarrow> bool \<Rightarrow> bytes \<Rightarrow> 's \<Rightarrow> bool \<times> 's" where
  "php_http_env_set_response_header_va sapi http_code replace line s =
     (if line \<noteq> [] then sapi (if replace then SAPI_HEADER_REPLACE else SAPI_HEADER_ADD) line http_code s else (False, s))"

fun php_http_env_set_response_header_value ::
    "'s sapi_header_op \<Rightarrow> int \<Rightarrow> bytes \<Rightarrow> zval \<Rightarrow> bool \<Rightarrow> 's \<Rightarrow> bool \<times> 's"
  and response_header_values ::
    "'s sapi_header_op \<Rightarrow> int \<Rightarrow> bytes \<Rightarrow> (zkey \<times> zval) list \<Rightarrow> bool \<Rightarrow> 's \<Rightarrow> bool \<times> 's" where
  "php_http_env_set_response_header_value sapi http_code name (ZArr n es) replace s =
     response_header_values sapi http_code name es replace s"
| "php_http_env_set_response_header_value sapi http_code name v replace s =
     (let dat = zval_get_string v in
      if dat = [] then sapi SAPI_HEADER_DELETE name http_code s
      else if 2 ^ 31 - 1 < length name then (False, s)
      else sapi (if replace then SAPI_HEADER_REPLACE else SAPI_HEADER_ADD) (cstr name @ '': '' @ cstr dat) http_code s)"
| "response_header_values sapi http_code name [] first s = (True, s)"
| "response_header_values sapi http_code name ((k, v) # es) first s =
     (if v = ZUndef then response_header_values sapi http_code name es first s
      else case php_http_env_set_response_header_value sapi http_code name v first s of
             (False, s) \<Rightarrow> (False, s)
           | (True, s) \<Rightarrow> response_header_values sapi http_code name es False s)"

text \<open>A null pointer as the value deletes.\<close>

definition env_set_response_header_opt ::
  "'s sapi_header_op \<Rightarrow> int \<Rightarrow> bytes \<Rightarrow> zval option \<Rightarrow> bool \<Rightarrow> 's \<Rightarrow> bool \<times> 's" where
  "env_set_response_header_opt sapi http_code name v replace s =
     (case v of None \<Rightarrow> sapi SAPI_HEADER_DELETE name http_code s
              | Some v \<Rightarrow> php_http_env_set_response_header_value sapi http_code name v replace s)"

section \<open>Methods\<close>

text \<open>The methods of \<open>http\<close>\<open>\<backslash>\<close>\<open>Env\<close>; no value returned is null.\<close>

definition env_getRequestHeader :: "env_host \<Rightarrow> bytes option \<Rightarrow> env_globals \<Rightarrow> zval \<times> env_globals" where
  "env_getRequestHeader host header_name g =
     (if header_name \<noteq> None \<and> header_name \<noteq> Some []
      then let (v, g) = php_http_env_get_request_header host (the header_name) None g
           in (case v of Some s \<Rightarrow> ZStr s | None \<Rightarrow> ZNull, g)
      else let (ht, g) = php_http_env_get_request_headers host (Some zend_hash_init) g in (zarr (the ht), g))"

definition env_getRequestBody :: "env_host \<Rightarrow> env_globals \<Rightarrow> php_http_message_body \<times> env_globals" where
  "env_getRequestBody host g = php_http_env_get_request_body host g"

definition env_getResponseStatusForCode :: "int \<Rightarrow> zval" where
  "env_getResponseStatusForCode code =
     (case php_http_env_get_response_status_for_code (word_of_int code) of Some s \<Rightarrow> ZStr s | None \<Rightarrow> ZNull)"

definition env_getResponseStatusForAllCodes :: zval where
  "env_getResponseStatusForAllCodes =
     zarr (fold (\<lambda>(c, s) ht. zend_hash_update ht (KInt (int c)) (ZStr s)) response_codes zend_hash_init)"

definition env_getResponseHeader :: "url_env \<Rightarrow> bytes list \<Rightarrow> bytes option \<Rightarrow> zval option" where
  "env_getResponseHeader env sapi_headers header_name =
     (if header_name \<noteq> None \<and> header_name \<noteq> Some []
      then Some (case php_http_env_get_response_header sapi_headers (the header_name) of Some s \<Rightarrow> ZStr s | None \<Rightarrow> ZNull)
      else map_option (\<lambda>(_, ht). case ht of Some ht \<Rightarrow> zarr ht | None \<Rightarrow> zarr zend_hash_init)
             (php_http_env_get_response_headers env sapi_headers zend_hash_init))"

definition env_getResponseCode :: "int \<Rightarrow> zval" where
  "env_getResponseCode http_response_code = ZLong (php_http_env_get_response_code http_response_code)"

definition env_setResponseHeader ::
  "'s sapi_header_op \<Rightarrow> bytes \<Rightarrow> zval option \<Rightarrow> int \<Rightarrow> bool \<Rightarrow> 's \<Rightarrow> zval \<times> 's" where
  "env_setResponseHeader sapi header_name header_value code replace_header s =
     map_prod ZBool id (env_set_response_header_opt sapi code header_name header_value replace_header s)"

definition env_setResponseCode :: "'s sapi_header_op \<Rightarrow> int \<Rightarrow> 's \<Rightarrow> zval \<times> 's" where
  "env_setResponseCode sapi code s = map_prod ZBool id (php_http_env_set_response_code sapi code s)"

definition env_reset :: "env_globals \<Rightarrow> env_globals" where
  "env_reset g = php_http_env_reset g"

section \<open>Facts\<close>

text \<open>The server variables as header fields.\<close>

definition header_vars :: "hashtable \<Rightarrow> (zkey \<times> zval) list" where
  "header_vars hsv = concat (map (\<lambda>(k, v). case server_header k of None \<Rightarrow> [] | Some h \<Rightarrow> [(symtable_key h, v)]) (live hsv))"

lemma load_headers_fold:
  "fold request_header_step es ht =
     fold (\<lambda>(k, v) m. zend_hash_update m k v)
       (concat (map (\<lambda>(k, v). case server_header k of None \<Rightarrow> [] | Some h \<Rightarrow> [(symtable_key h, v)]) es)) ht"
  by (induction es arbitrary: ht) (auto simp: request_header_step_def split: option.splits)

lemma loaded_header:
  "zend_hash_find (fold request_header_step (live hsv) zend_hash_init) k = map_of (rev (header_vars hsv)) k"
  unfolding load_headers_fold header_vars_def zht.upd_all(2) [OF ht_inv_init]
  by (auto simp: zend_hash_find_def zend_hash_init_def split: option.splits)

lemma request_header_none:
  "php_http_env_get_request_header host name None g =
     (map_option zval_get_string
        (zend_hash_find (the (env_headers (load_request_headers host g))) (symtable_key (php_http_pretty_key name True True))),
      load_request_headers host g)"
  by (simp add: php_http_env_get_request_header_def request_table_def php_http_env_get_request_headers_def Let_def)

lemma got_request_header_iff:
  "php_http_env_got_request_header host name request g =
     map_prod (\<lambda>v. v \<noteq> None) id (php_http_env_get_request_header host name request g)"
  by (simp add: php_http_env_get_request_header_def php_http_env_got_request_header_def Let_def split_beta)

lemma load_cached: "env_headers (load_request_headers host g) \<noteq> None"
  "load_request_headers host' (load_request_headers host g) = load_request_headers host g"
  by (auto simp: load_request_headers_def split: option.splits)

text \<open>The operations on the response that a header value stands for.\<close>

fun value_ops :: "bytes \<Rightarrow> zval \<Rightarrow> bool \<Rightarrow> (sapi_op \<times> bytes) list"
  and values_ops :: "bytes \<Rightarrow> (zkey \<times> zval) list \<Rightarrow> bool \<Rightarrow> (sapi_op \<times> bytes) list" where
  "value_ops name (ZArr n es) replace = values_ops name es replace"
| "value_ops name v replace =
     (if zval_get_string v = [] then [(SAPI_HEADER_DELETE, name)]
      else [(if replace then SAPI_HEADER_REPLACE else SAPI_HEADER_ADD, cstr name @ '': '' @ cstr (zval_get_string v))])"
| "values_ops name [] first = []"
| "values_ops name ((k, v) # es) first =
     (if v = ZUndef then values_ops name es first else value_ops name v first @ values_ops name es False)"

fun run_ops :: "'s sapi_header_op \<Rightarrow> int \<Rightarrow> (sapi_op \<times> bytes) list \<Rightarrow> 's \<Rightarrow> bool \<times> 's" where
  "run_ops sapi code [] s = (True, s)"
| "run_ops sapi code ((p, line) # ops) s =
     (case sapi p line code s of (False, s) \<Rightarrow> (False, s) | (True, s) \<Rightarrow> run_ops sapi code ops s)"

lemma run_ops_append:
  "run_ops sapi code (xs @ ys) s = (case run_ops sapi code xs s of (False, s) \<Rightarrow> (False, s) | (True, s) \<Rightarrow> run_ops sapi code ys s)"
  by (induction xs arbitrary: s) (auto split: prod.splits bool.splits)

lemma run_ops_single: "run_ops sapi code [(p, line)] s = sapi p line code s"
  by (auto split: prod.splits bool.splits)

section \<open>Results\<close>

text \<open>
  A request header is read from the server variables without regard to the case of its name: the first
  look-up finds the value of the last variable that stands for that header, as a string, and every later
  one, whatever has become of the server variables and in whatever case the name is written, finds
  the same until the environment is reset.
\<close>

theorem request_header_cached:
  assumes "env_headers g = None" "host_server host = Some hsv" "php_http_pretty_key name True True = php_http_pretty_key name' True True"
  shows "fst (php_http_env_get_request_header host name None g) =
           map_option zval_get_string (map_of (rev (header_vars hsv)) (symtable_key (php_http_pretty_key name True True))) \<and>
         php_http_env_get_request_header host' name' None (snd (php_http_env_get_request_header host name'' None g)) =
           php_http_env_get_request_header host name None g"
proof -
  have tab: "the (env_headers (load_request_headers host g)) = fold request_header_step (live hsv) zend_hash_init"
    using assms(1,2) by (simp add: load_request_headers_def)
  show ?thesis
    by (simp add: request_header_none load_cached(2) tab loaded_header assms(3))
qed

text \<open>
  Setting a response header runs one operation per value, nested arrays flattened: the first
  replaces (if asked to), the others add, a value without text deletes; it stops at the
  first operation that fails and reports the failure.
\<close>

theorem response_header_ops:
  assumes "length name < 2 ^ 31"
  shows "php_http_env_set_response_header_value sapi code name v replace s = run_ops sapi code (value_ops name v replace) s"
    (is "?A v replace s")
proof -
  have "?A v replace s \<and> True" and "response_header_values sapi code name es first s' = run_ops sapi code (values_ops name es first) s'" for es first s'
    using assms
    by (induction sapi code name v replace s and sapi code name es first s'
        rule: php_http_env_set_response_header_value_response_header_values.induct)
      (simp_all add: Let_def run_ops_append run_ops_single del: run_ops.simps(2) split: prod.splits bool.splits)
  then show ?thesis by simp
qed

theorem request_header_cached_witness:
  "fst (php_http_env_get_request_header
     \<lparr>host_server = Some (1, [(KStr ''HTTP_IF_RANGE'', ZStr ''x'')]), host_input = [], host_method = None\<rparr> ''if-range'' None
     \<lparr>env_headers = None, env_body = None, env_server_var = None\<rparr>) =
     map_option zval_get_string (map_of (rev (header_vars (1, [(KStr ''HTTP_IF_RANGE'', ZStr ''x'')])))
       (symtable_key (php_http_pretty_key ''if-range'' True True))) \<and>
   php_http_env_get_request_header \<lparr>host_server = None, host_input = [], host_method = None\<rparr> ''IF-RANGE'' None
     (snd (php_http_env_get_request_header
       \<lparr>host_server = Some (1, [(KStr ''HTTP_IF_RANGE'', ZStr ''x'')]), host_input = [], host_method = None\<rparr> ''host'' None
       \<lparr>env_headers = None, env_body = None, env_server_var = None\<rparr>)) =
   php_http_env_get_request_header
     \<lparr>host_server = Some (1, [(KStr ''HTTP_IF_RANGE'', ZStr ''x'')]), host_input = [], host_method = None\<rparr> ''if-range'' None
     \<lparr>env_headers = None, env_body = None, env_server_var = None\<rparr>"
proof -
  have "php_http_pretty_key ''if-range'' True True = php_http_pretty_key ''IF-RANGE'' True True" by code_simp
  then show ?thesis by (intro request_header_cached) simp_all
qed

theorem response_header_ops_witness:
  "php_http_env_set_response_header_value (\<lambda>p line code s. (p \<noteq> SAPI_HEADER_DELETE, s @ [line])) 0 ''Vary''
     (ZArr 2 [(KInt 0, ZStr ''a''), (KInt 1, ZStr ''b'')]) True [] =
   run_ops (\<lambda>p line code s. (p \<noteq> SAPI_HEADER_DELETE, s @ [line])) 0
     (value_ops ''Vary'' (ZArr 2 [(KInt 0, ZStr ''a''), (KInt 1, ZStr ''b'')]) True) []"
  by (rule response_header_ops) simp

text \<open>A header that a request message has several times is read as the word \<open>Array\<close>.\<close>

lemma repeated_request_header:
  "fst (php_http_env_get_request_header host ''if-none-match''
     (Some (php_http_message_init PHP_HTTP_REQUEST None
        \<lparr>msg_hdrs := (0, [(KStr ''If-None-Match'', ZArr 2 [(KInt 0, ZStr ''a''), (KInt 1, ZStr ''b'')])])\<rparr>)) g) = Some ''Array''"
proof -
  have "symtable_key (php_http_pretty_key ''if-none-match'' True True) = KStr ''If-None-Match''" by code_simp
  then show ?thesis
    by (simp add: php_http_env_get_request_header_def request_table_def zend_hash_find_def zval_get_string_def)
qed

text \<open>A response header that was sent with a name in lower case is not found.\<close>

lemma response_header_case:
  "php_http_env_get_response_header [''etag: abc''] ''etag'' = None"
  "php_http_env_get_response_header [''Etag: abc''] ''etag'' = Some ''abc''"
  by code_simp+

text \<open>An empty array in front takes the place of the value that replaces: the old header stays.\<close>

lemma empty_array_no_replace:
  "value_ops ''X'' (ZArr 2 [(KInt 0, ZArr 0 []), (KInt 1, ZStr ''v'')]) True = [(SAPI_HEADER_ADD, ''X: v'')]"
  by code_simp

end
