(* ===== verification/Http_Etag.thy ===== *)
theory Http_Etag
  imports Http_Message_Body
begin

text \<open>
  Entity tags (\<open>php_http_etag.c\<close>, \<open>php_http_etag.h\<close>) and the tag of a message body
  (\<open>php_http_message_body_etag\<close> in \<open>php_http_message_body.c\<close>). The hash algorithms belong to the host
  language: an algorithm is a record of its operations, and \<open>php_hash_fetch_ops\<close> is a function from the
  name of the mode. Whether the stream of a body is a file or a temporary buffer, and the result of
  \<open>php_stream_stat\<close> for a file, are an argument.
\<close>

section \<open>State and operations\<close>

record 'c php_hash_ops =
  hash_init :: 'c
  hash_update :: "'c \<Rightarrow> bytes \<Rightarrow> 'c"
  hash_final :: "'c \<Rightarrow> bytes"
  digest_size :: nat

record 'c php_http_etag =
  etag_ops :: "'c php_hash_ops"
  etag_ctx :: 'c

definition php_http_etag_init :: "(bytes \<Rightarrow> 'c php_hash_ops option) \<Rightarrow> bytes \<Rightarrow> 'c php_http_etag option" where
  "php_http_etag_init fetch mode =
     (case fetch (cstr mode) of
        None \<Rightarrow> None
      | Some eho \<Rightarrow> Some \<lparr>etag_ops = eho, etag_ctx = hash_init eho\<rparr>)"

definition hexdigits :: bytes where "hexdigits = ''0123456789abcdef''"

definition php_http_etag_digest :: "bytes \<Rightarrow> nat \<Rightarrow> bytes" where
  "php_http_etag_digest digest len =
     concat (map (\<lambda>i. [hexdigits ! (of_char (digest ! i) div 16), hexdigits ! (of_char (digest ! i) mod 16)]) [0..<len])"

text \<open>The digest is written to the front of a buffer of 128 zero bytes.\<close>

definition php_http_etag_finish :: "'c php_http_etag \<Rightarrow> bytes" where
  "php_http_etag_finish e =
     (let d = hash_final (etag_ops e) (etag_ctx e); digest = d @ replicate (128 - length d) NUL
      in php_http_etag_digest digest (digest_size (etag_ops e)))"

definition php_http_etag_update :: "'c php_http_etag pass_func" where
  "php_http_etag_update e dat = (of_nat (length dat), e\<lparr>etag_ctx := hash_update (etag_ops e) (etag_ctx e) dat\<rparr>)"

text \<open>
  The tag of a body. The first argument is the file behind the stream: \<^const>\<open>None\<close> for a temporary or
  memory stream, else inode, time of modification and size. The result is \<^const>\<open>None\<close> where the loop over
  the contents does not end, else the tag if there is one.
\<close>

record statbuf =
  st_ino :: "64 word"
  st_mtime :: "64 word"
  st_size :: "64 word"

definition php_http_message_body_etag ::
  "(bytes \<Rightarrow> 'c php_hash_ops option) \<Rightarrow> bytes \<Rightarrow> statbuf option \<Rightarrow> (nat \<Rightarrow> bool) \<Rightarrow> php_http_message_body \<Rightarrow> bytes option option" where
  "php_http_message_body_etag fetch etag_mode file eof body =
     (let content =
        (case php_http_etag_init fetch etag_mode of
           Some etag \<Rightarrow>
             map_option (\<lambda>(_, etag). Some (php_http_etag_finish etag))
               (php_http_message_body_to_callback eof body php_http_etag_update etag 0 0)
         | None \<Rightarrow> Some None)
      in case file of
           Some ssb \<Rightarrow>
             if st_mtime ssb \<noteq> 0
             then Some (Some (hex (unat (st_ino ssb)) @ ''-'' @ hex (unat (st_mtime ssb)) @ ''-'' @ hex (unat (st_size ssb))))
             else content
         | None \<Rightarrow> content)"

section \<open>Interface of a consumer\<close>

text \<open>
  What it takes for a consumer of data not to see where the data was cut: two pieces one after the other
  are their concatenation, and an empty piece changes nothing.
\<close>

locale sink =
  fixes put :: "'o \<Rightarrow> bytes \<Rightarrow> 'o"
  assumes put_append: "put c (a @ b) = put (put c a) b"
    and put_empty: "put c [] = c"
begin

lemma pieces: "fold (\<lambda>p c. put c p) ps c = put c (concat ps)"
  by (induction ps arbitrary: c) (simp_all add: put_append put_empty)

lemma same_contents: "concat ps = concat qs \<Longrightarrow> fold (\<lambda>p c. put c p) ps c = fold (\<lambda>p c. put c p) qs c"
  by (simp add: pieces)

end

text \<open>Message bodies are such consumers.\<close>

interpretation body_sink: sink "\<lambda>body p. php_http_message_body_append p body"
  by unfold_locales (simp_all add: php_http_message_body_append_def)

text \<open>The documented behaviour of a hash: it does not see the pieces, and a digest has the announced size.\<close>

definition is_hash :: "'c php_hash_ops \<Rightarrow> bool" where
  "is_hash ops \<longleftrightarrow> sink (hash_update ops) \<and> (\<forall>c. length (hash_final ops c) = digest_size ops)"

section \<open>Digests\<close>

lemma etag_digest_map:
  "n \<le> length d \<Longrightarrow>
   php_http_etag_digest (d @ zs) n = concat (map (\<lambda>c. [hexdigits ! (of_char c div 16), hexdigits ! (of_char c mod 16)]) (take n d))"
proof -
  assume n: "n \<le> length d"
  have "map (\<lambda>i. [hexdigits ! (of_char ((d @ zs) ! i) div 16), hexdigits ! (of_char ((d @ zs) ! i) mod 16)]) [0..<n] =
     map (\<lambda>c. [hexdigits ! (of_char c div 16), hexdigits ! (of_char c mod 16)]) (take n d)"
    by (rule nth_equalityI) (use n in \<open>simp_all add: nth_append\<close>)
  then show ?thesis by (simp add: php_http_etag_digest_def)
qed

lemma hexdigits_inj:
  assumes "i < 16" "j < 16" "hexdigits ! i = hexdigits ! j"
  shows "i = j"
proof -
  have "distinct hexdigits" "length hexdigits = 16" by (code_simp, code_simp)
  then show ?thesis using assms by (simp add: nth_eq_iff_index_eq)
qed

lemma byte_hex_inj:
  assumes "hexdigits ! (of_char (c :: char) div 16) = hexdigits ! (of_char d div 16)"
    "hexdigits ! (of_char c mod 16) = hexdigits ! (of_char d mod 16)"
  shows "c = d"
proof -
  have b: "of_char c < (256 :: nat)" "of_char d < (256 :: nat)" by simp_all
  have "of_char c div 16 = (of_char d div 16 :: nat)" "of_char c mod 16 = (of_char d mod 16 :: nat)"
    using assms b by (simp_all add: hexdigits_inj less_mult_imp_div_less)
  then have "of_char c = (of_char d :: nat)" by (metis div_mult_mod_eq)
  then show ?thesis by (simp add: of_char_eq_iff)
qed

text \<open>Different digests of one size have different tags.\<close>

lemma etag_digest_inj:
  assumes "length d = length d'" "php_http_etag_digest d (length d) = php_http_etag_digest d' (length d')"
  shows "d = d'"
proof -
  let ?h = "\<lambda>c :: char. [hexdigits ! (of_char c div 16), hexdigits ! (of_char c mod 16)]"
  have "concat (map ?h d) = concat (map ?h d')"
    using assms etag_digest_map [of "length d" d "[]"] etag_digest_map [of "length d'" d' "[]"] by simp
  with assms(1) show ?thesis
    by (induction d d' rule: list_induct2) (auto dest: byte_hex_inj)
qed

lemma etag_digest_length: "length (php_http_etag_digest d n) = 2 * n"
proof -
  have "length (concat (map (\<lambda>i. [f i, g i]) ns)) = 2 * length ns" for f g :: "nat \<Rightarrow> char" and ns
    by (induction ns) auto
  then show ?thesis by (simp add: php_http_etag_digest_def)
qed

lemma etag_digest_buffer: "length d = n \<Longrightarrow> php_http_etag_digest (d @ zs) n = php_http_etag_digest d n"
  using etag_digest_map [of n d zs] etag_digest_map [of n d "[]"] by simp

text \<open>A body handed over as a whole.\<close>

lemma body_to_callback_delivers_all:
  assumes "\<And>a p. length p \<le> 4096 \<Longrightarrow> fst (cb a p) \<noteq> - 1" "\<And>p. eof p \<Longrightarrow> length (body_data body) \<le> p" "length (body_data body) < 2 ^ 64"
  shows "\<exists>ps. php_http_message_body_to_callback eof body cb arg 0 0 = Some (True, fold (\<lambda>p a. snd (cb a p)) ps arg) \<and>
           concat ps = body_data body"
proof -
  have "unat (- 1 :: size_t) = 2 ^ 64 - 1" by (simp add: unsigned_minus_1_eq_mask mask_eq_exp_minus_1)
  then have all: "take (unat (- 1 :: size_t)) (body_data body) = body_data body" using assms(3) by simp
  have "\<exists>ps. body_callback_loop eof (body_data body) 0 (- 1) cb arg = Some (True, fold (\<lambda>p a. snd (cb a p)) ps arg) \<and>
      concat ps = take (unat (- 1 :: size_t)) (drop 0 (body_data body)) \<and> (\<forall>p\<in>set ps. p \<noteq> [] \<and> length p \<le> 0x1000)"
    by (rule body_callback_loop_delivers) (use assms in simp_all)
  then show ?thesis
    unfolding drop_0 all by (auto simp: php_http_message_body_to_callback_def forlen_of_def)
qed

lemma etag_updates:
  "fold (\<lambda>p e. snd (php_http_etag_update e p)) ps e =
     e\<lparr>etag_ctx := fold (\<lambda>p c. hash_update (etag_ops e) c p) ps (etag_ctx e)\<rparr>"
  by (induction ps arbitrary: e) (simp_all add: php_http_etag_update_def)

section \<open>Results\<close>

text \<open>The tag of a body that is not a file is the digest of its contents.\<close>

lemma body_etag_content:
  assumes "fetch (cstr mode) = Some ops" "is_hash ops"
    "\<And>p. eof p \<Longrightarrow> length (body_data body) \<le> p" "length (body_data body) < 2 ^ 64"
  shows "php_http_message_body_etag fetch mode None eof body =
     Some (Some (php_http_etag_digest (hash_final ops (hash_update ops (hash_init ops) (body_data body))) (digest_size ops)))"
proof -
  define e where "e = \<lparr>etag_ops = ops, etag_ctx = hash_init ops\<rparr>"
  have "fst (php_http_etag_update a p) \<noteq> - 1" if "length p \<le> 4096" for a :: "'a php_http_etag" and p
    using small_not_failure [OF that] by (simp add: php_http_etag_update_def)
  from body_to_callback_delivers_all [where cb = php_http_etag_update, OF this assms(3,4), where arg = e]
  obtain ps where ps: "php_http_message_body_to_callback eof body php_http_etag_update e 0 0 =
      Some (True, fold (\<lambda>p a. snd (php_http_etag_update a p)) ps e)" "concat ps = body_data body" by blast
  have fin: "php_http_etag_finish (fold (\<lambda>p a. snd (php_http_etag_update a p)) ps e) =
      php_http_etag_digest (hash_final ops (hash_update ops (hash_init ops) (body_data body))) (digest_size ops)"
    using assms(2) ps(2)
    by (simp add: etag_updates e_def php_http_etag_finish_def is_hash_def sink.pieces etag_digest_buffer)
  show ?thesis
    by (simp add: php_http_message_body_etag_def php_http_etag_init_def assms(1) ps(1) fin flip: e_def)
qed

text \<open>
  The tag of a body that is not a file is the digest of its whole contents in hexadecimal, two
  digits a byte: the loop that hands over the contents ends, and neither the pieces nor the end of
  the stream show in it. Two bodies have the same tag exactly if their contents have the same digest.
\<close>

theorem body_etag_identifies:
  assumes "fetch (cstr mode) = Some ops" "is_hash ops"
    "\<And>p. eof p \<Longrightarrow> length (body_data body) \<le> p" "length (body_data body) < 2 ^ 64"
    "\<And>p. eof' p \<Longrightarrow> length (body_data body') \<le> p" "length (body_data body') < 2 ^ 64"
  shows "php_http_message_body_etag fetch mode None eof body \<notin> {None, Some None} \<and>
     (php_http_message_body_etag fetch mode None eof body = php_http_message_body_etag fetch mode None eof' body' \<longleftrightarrow>
        hash_final ops (hash_update ops (hash_init ops) (body_data body)) =
        hash_final ops (hash_update ops (hash_init ops) (body_data body')))"
proof -
  have len: "length (hash_final ops c) = digest_size ops" for c using assms(2) by (simp add: is_hash_def)
  have tag: "php_http_message_body_etag fetch mode None eof body =
      Some (Some (php_http_etag_digest (hash_final ops (hash_update ops (hash_init ops) (body_data body))) (digest_size ops)))"
    by (rule body_etag_content) fact+
  have tag': "php_http_message_body_etag fetch mode None eof' body' =
      Some (Some (php_http_etag_digest (hash_final ops (hash_update ops (hash_init ops) (body_data body'))) (digest_size ops)))"
    by (rule body_etag_content) fact+
  show ?thesis
    unfolding tag tag' using etag_digest_inj [of "hash_final ops c" "hash_final ops c'" for c c'] len by auto
qed

text \<open>A checksum of one byte, the sum of all bytes.\<close>

definition sample_hash :: "nat php_hash_ops" where
  "sample_hash = \<lparr>hash_init = 0, hash_update = (\<lambda>c d. c + sum_list (map of_char d)), hash_final = (\<lambda>c. [char_of c]), digest_size = 1\<rparr>"

lemma sample_hash_is_hash: "is_hash sample_hash"
  by (auto simp: is_hash_def sample_hash_def sink_def)

theorem body_etag_identifies_witness:
  "php_http_message_body_etag (\<lambda>_. Some sample_hash) ''sum'' None (\<lambda>p. 2 \<le> p) \<lparr>body_data = ''ad'', body_boundary = None, body_filtered = False\<rparr> \<notin> {None, Some None} \<and>
   (php_http_message_body_etag (\<lambda>_. Some sample_hash) ''sum'' None (\<lambda>p. 2 \<le> p) \<lparr>body_data = ''ad'', body_boundary = None, body_filtered = False\<rparr> =
    php_http_message_body_etag (\<lambda>_. Some sample_hash) ''sum'' None (\<lambda>p. 2 < p) \<lparr>body_data = ''bc'', body_boundary = None, body_filtered = False\<rparr> \<longleftrightarrow>
    hash_final sample_hash (hash_update sample_hash (hash_init sample_hash) ''ad'') =
    hash_final sample_hash (hash_update sample_hash (hash_init sample_hash) ''bc''))"
  using body_etag_identifies [of "\<lambda>_. Some sample_hash" "''sum''" sample_hash "\<lambda>p. 2 \<le> p"
      "\<lparr>body_data = ''ad'', body_boundary = None, body_filtered = False\<rparr>" "\<lambda>p. 2 < p"
      "\<lparr>body_data = ''bc'', body_boundary = None, body_filtered = False\<rparr>"]
  by (simp add: sample_hash_is_hash)

end
