(* ===== verification/Http_Env_Response.thy ===== *)
theory Http_Env_Response
  imports Http_Env Http_Etag Http_Cookie Http_Negotiate Http_Encoding
begin

text \<open>
  Responses of a script (\<open>php_http_env_response.c\<close>): options, caching by entity tag and by date, byte
  ranges, throttled and encoded output. The response writes through a table of operations
  (\<open>php_http_env_response_ops_t\<close>) with a state of its own; \<open>Http_Env_Stream\<close> has the one for streams.
  What belongs to the host (conversion of objects and floating point numbers, dates, files, the
  compression library, the boundary) is a record of functions. The result of a C function that may not
  return, or that leaves defined behaviour in the range parser, is \<^const>\<open>None\<close>.
\<close>

section \<open>Options\<close>

text \<open>
  Option values: the values of \<open>Http_Zend\<close>, floating point numbers, the objects the options hold, and
  arrays that may hold objects. The options are an object, whose properties are declared and null
  where nothing was set (the properties of the message, which its read handlers compute, are in the table
  with their values), or an array; other values make \<open>get_option\<close> abort and are not represented.
\<close>

datatype oval =
    OV zval
  | OD rat
  | OBody php_http_message_body
  | OMsg php_http_message
  | OCookie php_http_cookie_list
  | OArr int "(zkey \<times> oval) list"

datatype response_options = OptObject "(bytes \<times> oval) list" | OptArray int "(zkey \<times> oval) list"

definition set_option :: "bytes \<Rightarrow> oval option \<Rightarrow> response_options \<Rightarrow> response_options" where
  "set_option name value_ptr options =
     (let v = (case value_ptr of Some v \<Rightarrow> v | None \<Rightarrow> OV ZNull) in
      case options of
        OptObject t \<Rightarrow> OptObject (assoc_update name v t)
      | OptArray n es \<Rightarrow> OptArray (next_free (symtable_key name) n) (assoc_update (symtable_key name) v es))"

definition get_option :: "bytes \<Rightarrow> response_options \<Rightarrow> oval option" where
  "get_option name options =
     (case options of
        OptObject t \<Rightarrow> Some (case map_of t name of Some v \<Rightarrow> v | None \<Rightarrow> OV ZNull)
      | OptArray n es \<Rightarrow> map_of es (symtable_key name))"

definition get_body :: "response_options \<Rightarrow> php_http_message_body option" where
  "get_body options = (case get_option ''body'' options of Some (OBody b) \<Rightarrow> Some b | _ \<Rightarrow> None)"

definition get_request :: "response_options \<Rightarrow> php_http_message option" where
  "get_request options = (case get_option ''request'' options of Some (OMsg m) \<Rightarrow> Some m | _ \<Rightarrow> None)"

text \<open>The cookie list is stored under each of its cookies' names.\<close>

definition set_cookie :: "php_http_cookie_list \<Rightarrow> response_options \<Rightarrow> response_options" where
  "set_cookie zcookie_new options =
     (let (n, tmp) =
        (case get_option ''cookies'' options of
           Some (OArr _ es) \<Rightarrow> fold (\<lambda>(k, v) (n, t). (next_free k n, assoc_update k v t)) es (0, [])
         | Some (OV (ZArr n es)) \<Rightarrow> fold (\<lambda>(k, v) (n, t). (next_free k n, assoc_update k (OV v) t)) (live (n, es)) (0, [])
         | _ \<Rightarrow> (0, []));
        (n, tmp) =
          fold (\<lambda>(k, _) (n, t). let k = (case k of KStr s \<Rightarrow> symtable_key s | KInt i \<Rightarrow> KInt i)
                                 in (next_free k n, assoc_update k (OCookie zcookie_new) t))
            (live (cl_cookies zcookie_new)) (n, tmp)
      in set_option ''cookies'' (Some (OArr n tmp)) options)"

section \<open>State\<close>

record ('h, 'e) response_env =
  re_host :: env_host
  re_string :: "oval \<Rightarrow> bytes"
  re_long :: "oval \<Rightarrow> int"
  re_str_long :: "bytes \<Rightarrow> int"
  re_double :: "oval \<Rightarrow> rat"
  re_hash_ops :: "bytes \<Rightarrow> 'h php_hash_ops option"
  re_etag_mode :: bytes
  re_file :: "php_http_message_body \<Rightarrow> statbuf option"
  re_mtime :: "php_http_message_body \<Rightarrow> int"
  re_eof :: "php_http_message_body \<Rightarrow> nat \<Rightarrow> bool"
  re_parse_date :: "bytes \<Rightarrow> int"
  re_format_date :: "int \<Rightarrow> bytes"
  re_cookie :: cookie_env
  re_negotiate :: negotiate_env
  re_boundary :: bytes
  re_realloc :: realloc
  re_deflate :: "'e php_http_encoding_stream_ops"
  re_result :: "bool \<Rightarrow> size_t"

definition oval_string :: "('h, 'e) response_env \<Rightarrow> oval \<Rightarrow> bytes" where
  "oval_string env v = (case v of OV z \<Rightarrow> zval_get_string z | _ \<Rightarrow> re_string env v)"

definition oval_long :: "('h, 'e) response_env \<Rightarrow> oval \<Rightarrow> int" where
  "oval_long env v = (case v of OV z \<Rightarrow> zval_get_long (re_str_long env) z | _ \<Rightarrow> re_long env v)"

record 'x response_ops =
  ro_get_status :: "'x \<Rightarrow> int"
  ro_set_status :: "int \<Rightarrow> 'x \<Rightarrow> bool \<times> 'x"
  ro_set_protocol_version :: "php_http_version \<Rightarrow> 'x \<Rightarrow> bool \<times> 'x"
  ro_set_header :: "bytes \<Rightarrow> 'x \<Rightarrow> bool \<times> 'x"
  ro_add_header :: "bytes \<Rightarrow> 'x \<Rightarrow> bool \<times> 'x"
  ro_del_header :: "bytes \<Rightarrow> 'x \<Rightarrow> bool \<times> 'x"
  ro_write :: "bytes \<Rightarrow> 'x \<Rightarrow> bool \<times> 'x"
  ro_flush :: "'x \<Rightarrow> bool \<times> 'x"
  ro_finish :: "'x \<Rightarrow> bool \<times> 'x"

record ('x, 'e) php_http_env_response =
  r_ctx :: 'x
  r_globals :: env_globals
  r_buffer :: "php_http_buffer option"
  r_options :: response_options
  r_chunk :: size_t
  r_delay :: rat
  r_range_status :: php_http_range_status
  r_range_values :: "(int \<times> int) list"
  r_range_boundary :: bytes
  r_length :: size_t
  r_type :: "bytes option"
  r_encoding :: "bytes option"
  r_encoder :: "'e php_http_encoding_stream option"
  r_done :: bool

definition php_http_env_response_init ::
  "('h, 'e) response_env \<Rightarrow> response_options \<Rightarrow> env_globals \<Rightarrow> (response_options \<Rightarrow> 'x option) \<Rightarrow> ('x, 'e) php_http_env_response option" where
  "php_http_env_response_init env options g ops_init =
     (case ops_init options of
        None \<Rightarrow> None
      | Some ctx \<Rightarrow> Some
          \<lparr>r_ctx = ctx, r_globals = g, r_buffer = Some (php_http_buffer_init (re_realloc env)), r_options = options,
           r_chunk = 0, r_delay = 0, r_range_status = PHP_HTTP_RANGE_NO, r_range_values = [], r_range_boundary = [],
           r_length = 0, r_type = None, r_encoding = None, r_encoder = None, r_done = False\<rparr>)"

section \<open>Caching\<close>

datatype php_http_cache_status = PHP_HTTP_CACHE_NO | PHP_HTTP_CACHE_HIT | PHP_HTTP_CACHE_MISS

definition php_http_env_is_response_cached_by_etag ::
  "('h, 'e) response_env \<Rightarrow> response_options \<Rightarrow> bytes \<Rightarrow> php_http_message option \<Rightarrow> env_globals \<Rightarrow>
     (php_http_cache_status \<times> response_options \<times> env_globals) option" where
  "php_http_env_is_response_cached_by_etag env options header request g =
     (case get_body options of
        None \<Rightarrow> Some (PHP_HTTP_CACHE_NO, options, g)
      | Some body \<Rightarrow>
          let etag = (case get_option ''etag'' options of
                        Some zetag \<Rightarrow> if zetag \<noteq> OV ZNull then Some (oval_string env zetag) else None
                      | None \<Rightarrow> None) in do {
            (etag, options) \<leftarrow>
              (case etag of
                 Some e \<Rightarrow> Some (Some e, options)
               | None \<Rightarrow> do {
                   etag \<leftarrow> php_http_message_body_etag (re_hash_ops env) (re_etag_mode env) (re_file env body) (re_eof env body) body;
                   Some (etag, case etag of Some e \<Rightarrow> set_option ''etag'' (Some (OV (ZStr e))) options | None \<Rightarrow> options)
                 });
            (case etag of
               None \<Rightarrow> Some (PHP_HTTP_CACHE_NO, options, g)
             | Some e \<Rightarrow>
                 let (hdr, g) = php_http_env_get_request_header (re_host env) header request g in
                 (case hdr of
                    None \<Rightarrow> Some (PHP_HTTP_CACHE_NO, options, g)
                  | Some h \<Rightarrow>
                      Some (if php_http_match (Some (cstr h)) (Some (cstr e)) PHP_HTTP_MATCH_WORD
                            then PHP_HTTP_CACHE_HIT else PHP_HTTP_CACHE_MISS, options, g)))
          })"

definition php_http_env_is_response_cached_by_last_modified ::
  "('h, 'e) response_env \<Rightarrow> response_options \<Rightarrow> bytes \<Rightarrow> php_http_message option \<Rightarrow> env_globals \<Rightarrow>
     php_http_cache_status \<times> response_options \<times> env_globals" where
  "php_http_env_is_response_cached_by_last_modified env options header request g =
     (case get_body options of
        None \<Rightarrow> (PHP_HTTP_CACHE_NO, options, g)
      | Some body \<Rightarrow>
          let lm = (case get_option ''lastModified'' options of Some zlm \<Rightarrow> oval_long env zlm | None \<Rightarrow> 0);
              (lm, options) =
                (if lm \<le> 0 then (re_mtime env body, set_option ''lastModified'' (Some (OV (ZLong (re_mtime env body)))) options)
                 else (lm, options));
              (hdr, g) = php_http_env_get_request_header (re_host env) header request g
          in (case hdr of
                None \<Rightarrow> PHP_HTTP_CACHE_NO
              | Some h \<Rightarrow>
                  let ums = re_parse_date env (cstr h) in
                  if 0 < ums \<and> lm \<le> ums then PHP_HTTP_CACHE_HIT else PHP_HTTP_CACHE_MISS, options, g))"

text \<open>\<open>status / 100 \<noteq> 2\<close> is written as the interval.\<close>

definition php_http_env_response_is_cacheable ::
  "('h, 'e) response_env \<Rightarrow> 'x response_ops \<Rightarrow> php_http_message option \<Rightarrow> ('x, 'e) php_http_env_response \<Rightarrow>
     bool \<times> ('x, 'e) php_http_env_response" where
  "php_http_env_response_is_cacheable env ops request r =
     (let status = ro_get_status ops (r_ctx r) in
      if status \<noteq> 0 \<and> \<not> (200 \<le> status \<and> status < 300) then (False, r)
      else let (got, g) = php_http_env_got_request_header (re_host env) ''Authorization'' request (r_globals r);
               r = r\<lparr>r_globals := g\<rparr>
           in if got then (False, r)
              else if php_http_select_str (Some (cstr (php_http_env_get_request_method (re_host env) request))) [''HEAD'', ''GET''] = -1
              then (False, r)
              else (True, r))"

section \<open>Output\<close>

definition PHP_HTTP_SENDBUF_SIZE :: size_t where "PHP_HTTP_SENDBUF_SIZE = 40960"
definition PHP_HTTP_DIFFSEC :: rat where "PHP_HTTP_DIFFSEC = 1 / 1000"

text \<open>Sleeping is not represented.\<close>

definition response_output :: "'x response_ops \<Rightarrow> ('x, 'e) php_http_env_response pass_func" where
  "response_output ops r buf =
     (case ro_write ops buf (r_ctx r) of
        (False, x) \<Rightarrow> (- 1, r\<lparr>r_ctx := x\<rparr>)
      | (True, x) \<Rightarrow>
          let x = (if PHP_HTTP_DIFFSEC \<le> r_delay r then snd (ro_flush ops x) else x)
          in (of_nat (length buf), r\<lparr>r_ctx := x\<rparr>))"

text \<open>A null pointer as the data (\<^const>\<open>None\<close>) ends the output.\<close>

definition php_http_env_response_send_data ::
  "('h, 'e) response_env \<Rightarrow> 'x response_ops \<Rightarrow> ('x, 'e) php_http_env_response \<Rightarrow> bytes option \<Rightarrow>
     (bool \<times> ('x, 'e) php_http_env_response) option" where
  "php_http_env_response_send_data env ops r buf =
     (let chunk = (if r_chunk r \<noteq> 0 then r_chunk r else PHP_HTTP_SENDBUF_SIZE);
          chunked = (\<lambda>r dat. map_option (\<lambda>(chunks_sent, s, r). (chunks_sent \<noteq> - 1, r\<lparr>r_buffer := s\<rparr>))
              (php_http_buffer_chunked_output (re_realloc env) (r_buffer r) dat (if buf \<noteq> None then chunk else 0) (response_output ops) r))
      in case r_encoder r of
           Some encoder \<Rightarrow>
             let (ok, enc_str, encoder) =
               (case buf of Some b \<Rightarrow> php_http_encoding_stream_update (re_deflate env) encoder b
                          | None \<Rightarrow> php_http_encoding_stream_finish (re_deflate env) encoder);
               r = r\<lparr>r_encoder := Some encoder\<rparr>
             in if \<not> ok then Some (False, r)
                else (case enc_str of None \<Rightarrow> Some (True, r) | Some e \<Rightarrow> chunked r e)
         | None \<Rightarrow> chunked r (case buf of Some b \<Rightarrow> b | None \<Rightarrow> []))"

definition php_http_env_response_send_done ::
  "('h, 'e) response_env \<Rightarrow> 'x response_ops \<Rightarrow> ('x, 'e) php_http_env_response \<Rightarrow> (bool \<times> ('x, 'e) php_http_env_response) option" where
  "php_http_env_response_send_done env ops r = php_http_env_response_send_data env ops r None"

section \<open>Head\<close>

text \<open>
  The steps of \<open>php_http_env_response_send_head\<close>. Between two steps the code returns when the
  result so far is a failure.
\<close>

type_synonym ('x, 'e) head_step = "('x, 'e) php_http_env_response \<Rightarrow> (bool \<times> ('x, 'e) php_http_env_response) option"

definition and_then :: "('x, 'e) head_step \<Rightarrow> ('x, 'e) head_step \<Rightarrow> ('x, 'e) head_step" where
  "and_then a b r = (case a r of None \<Rightarrow> None | Some (False, r) \<Rightarrow> Some (False, r) | Some (True, r) \<Rightarrow> b r)"

text \<open>A call of an operation, on the context of the response.\<close>

definition ctx_op :: "('x \<Rightarrow> bool \<times> 'x) \<Rightarrow> ('x, 'e) php_http_env_response \<Rightarrow> bool \<times> ('x, 'e) php_http_env_response" where
  "ctx_op f r = (let (ok, x) = f (r_ctx r) in (ok, r\<lparr>r_ctx := x\<rparr>))"

definition head_headers :: "'x response_ops \<Rightarrow> ('x, 'e) head_step" where
  "head_headers ops r =
     (case get_option ''headers'' (r_options r) of
        Some (OV (ZArr n es)) \<Rightarrow>
          Some (True, fold (\<lambda>line r. snd (ctx_op (ro_set_header ops line) r)) (php_http_header_to_callback (n, es) False) r)
      | _ \<Rightarrow> Some (True, r))"

definition head_status :: "('h, 'e) response_env \<Rightarrow> 'x response_ops \<Rightarrow> ('x, 'e) head_step" where
  "head_status env ops r =
     (case get_option ''responseCode'' (r_options r) of
        None \<Rightarrow> Some (True, r)
      | Some zoption \<Rightarrow>
          let rc = oval_long env zoption in
          Some (if 0 < rc then ctx_op (ro_set_status ops rc) r else (True, r)))"

definition head_version :: "('h, 'e) response_env \<Rightarrow> 'x response_ops \<Rightarrow> ('x, 'e) head_step" where
  "head_version env ops r =
     (case get_option ''httpVersion'' (r_options r) of
        None \<Rightarrow> Some (True, r)
      | Some zoption \<Rightarrow>
          let zs = oval_string env zoption in
          (case (if zs \<noteq> [] then php_http_version_parse (cstr zs) else None) of
             None \<Rightarrow> Some (True, r)
           | Some v \<Rightarrow> Some (ctx_op (ro_set_protocol_version ops v) r)))"

fun send_cookies :: "('h, 'e) response_env \<Rightarrow> 'x response_ops \<Rightarrow> oval list \<Rightarrow> ('x, 'e) head_step" where
  "send_cookies env ops [] r = Some (True, r)"
| "send_cookies env ops (OCookie l # vs) r =
     (case ctx_op (ro_add_header ops (''Set-Cookie: '' @ cstr (php_http_cookie_list_to_string (re_cookie env) l))) r of
        (False, r) \<Rightarrow> Some (False, r)
      | (True, r) \<Rightarrow> send_cookies env ops vs r)"
| "send_cookies env ops (_ # vs) r = send_cookies env ops vs r"

definition head_cookies :: "('h, 'e) response_env \<Rightarrow> 'x response_ops \<Rightarrow> ('x, 'e) head_step" where
  "head_cookies env ops r =
     (case get_option ''cookies'' (r_options r) of
        Some (OArr n es) \<Rightarrow> send_cookies env ops (map snd es) r
      | _ \<Rightarrow> Some (True, r))"

definition head_content_type :: "('h, 'e) response_env \<Rightarrow> 'x response_ops \<Rightarrow> ('x, 'e) head_step" where
  "head_content_type env ops r =
     (case get_option ''contentType'' (r_options r) of
        None \<Rightarrow> Some (True, r)
      | Some zoption \<Rightarrow>
          let zs = oval_string env zoption in
          if zs \<noteq> [] \<and> CHR ''/'' \<in> set (cstr zs) then
            (case ctx_op (ro_set_header ops (''Content-Type: '' @ cstr zs)) r of
               (False, r) \<Rightarrow> Some (False, r)
             | (True, r) \<Rightarrow> Some (True, r\<lparr>r_type := Some zs\<rparr>))
          else Some (True, r))"

definition content_range :: "int \<Rightarrow> int \<Rightarrow> size_t \<Rightarrow> bytes" where
  "content_range begin fin len =
     ''Content-Range: bytes '' @ print_long begin @ ''-'' @ print_long fin @ ''/'' @ dec (unat len)"

definition head_range :: "('h, 'e) response_env \<Rightarrow> 'x response_ops \<Rightarrow> ('x, 'e) head_step" where
  "head_range env ops r =
     (case r_range_values r of
        [(begin, fin)] \<Rightarrow>
          (case ctx_op (ro_set_status ops 206) r of
             (False, r) \<Rightarrow> Some (False, r)
           | (True, r) \<Rightarrow> Some (ctx_op (ro_set_header ops (content_range begin fin (r_length r))) r))
      | _ \<Rightarrow>
          let r = r\<lparr>r_range_boundary := re_boundary env\<rparr> in
          (case ctx_op (ro_set_status ops 206) r of
             (False, r) \<Rightarrow> Some (False, r)
           | (True, r) \<Rightarrow>
               Some (ctx_op (ro_set_header ops (''Content-Type: multipart/byteranges; boundary='' @ cstr (r_range_boundary r))) r)))"

definition head_cache_control :: "('h, 'e) response_env \<Rightarrow> 'x response_ops \<Rightarrow> ('x, 'e) head_step" where
  "head_cache_control env ops r =
     (case get_option ''cacheControl'' (r_options r) of
        None \<Rightarrow> Some (True, r)
      | Some zoption \<Rightarrow>
          let zs = oval_string env zoption in
          Some (if zs \<noteq> [] then ctx_op (ro_set_header ops (''Cache-Control: '' @ cstr zs)) r else (True, r)))"

definition head_disposition :: "('h, 'e) response_env \<Rightarrow> 'x response_ops \<Rightarrow> ('x, 'e) head_step" where
  "head_disposition env ops r =
     (case get_option ''contentDisposition'' (r_options r) of
        Some (OV (ZArr n es)) \<Rightarrow>
          let buf = php_http_params_to_string (ce_params (re_cookie env)) [] (n, es) '','' '';'' ''='' PHP_HTTP_PARAMS_DEFAULT
          in Some (if buf \<noteq> [] then ctx_op (ro_set_header ops (''Content-Disposition: '' @ cstr buf)) r else (True, r))
      | _ \<Rightarrow> Some (True, r))"

definition PHP_HTTP_CONTENT_ENCODING_GZIP :: int where "PHP_HTTP_CONTENT_ENCODING_GZIP = 1"
definition PHP_HTTP_DEFLATE_TYPE_ZLIB :: "32 word" where "PHP_HTTP_DEFLATE_TYPE_ZLIB = 0"
definition PHP_HTTP_DEFLATE_TYPE_GZIP :: "32 word" where "PHP_HTTP_DEFLATE_TYPE_GZIP = 0x10"

definition supported_encodings :: hashtable where
  "supported_encodings =
     fold (\<lambda>s ht. zend_hash_next_index_insert ht (ZStr s)) [''none'', ''gzip'', ''deflate''] zend_hash_init"

definition start_encoder ::
  "('h, 'e) response_env \<Rightarrow> 'x response_ops \<Rightarrow> bytes \<Rightarrow> 32 word \<Rightarrow> ('x, 'e) php_http_env_response \<Rightarrow>
     bool \<times> ('x, 'e) php_http_env_response" where
  "start_encoder env ops key type r =
     (case php_http_encoding_stream_init (Some (re_deflate env)) type of
        None \<Rightarrow> (False, r\<lparr>r_encoder := None\<rparr>)
      | Some s \<Rightarrow>
          (case ctx_op (ro_set_header ops (''Content-Encoding: '' @ key)) (r\<lparr>r_encoder := Some s\<rparr>) of
             (False, r) \<Rightarrow> (False, r)
           | (True, r) \<Rightarrow> (True, r\<lparr>r_encoding := Some key\<rparr>)))"

definition head_encoding :: "('h, 'e) response_env \<Rightarrow> 'x response_ops \<Rightarrow> php_http_message option \<Rightarrow> ('x, 'e) head_step" where
  "head_encoding env ops request r =
     (case get_option ''contentEncoding'' (r_options r) of
        None \<Rightarrow> Some (True, r)
      | Some zoption \<Rightarrow>
          if oval_long env zoption = PHP_HTTP_CONTENT_ENCODING_GZIP then
            let (accept, g) = php_http_env_get_request_header (re_host env) ''Accept-Encoding'' request (r_globals r);
                r = r\<lparr>r_globals := g\<rparr> in
            (case php_http_negotiate_encoding (re_negotiate env) supported_encodings accept of
               None \<Rightarrow> None
             | Some None \<Rightarrow> Some (True, r)
             | Some (Some []) \<Rightarrow> Some (True, r)
             | Some (Some ((key, _) # _)) \<Rightarrow>
                 let (ok, r) =
                   (if key = ''gzip'' then start_encoder env ops key PHP_HTTP_DEFLATE_TYPE_GZIP r
                    else if key = ''deflate'' then start_encoder env ops key PHP_HTTP_DEFLATE_TYPE_ZLIB r
                    else ctx_op (ro_del_header ops ''Content-Encoding'') r)
                 in Some (if ok then ctx_op (ro_add_header ops ''Vary: Accept-Encoding'') r else (False, r)))
          else Some (ctx_op (ro_del_header ops ''Content-Encoding'') r))"

text \<open>The result of this step is the one of the last header that was set.\<close>

definition head_etag :: "('h, 'e) response_env \<Rightarrow> 'x response_ops \<Rightarrow> bool \<Rightarrow> ('x, 'e) php_http_env_response \<Rightarrow> bool \<times> ('x, 'e) php_http_env_response" where
  "head_etag env ops ret r =
     (case get_option ''etag'' (r_options r) of
        None \<Rightarrow> (ret, r)
      | Some zoption \<Rightarrow>
          let zs = cstr (oval_string env zoption) in
          ctx_op (ro_set_header ops
            (if rd zs 0 \<noteq> CHR 0x22 \<and> take 3 zs \<noteq> ''W/'' @ [CHR 0x22] then ''ETag: '' @ CHR 0x22 # zs @ [CHR 0x22]
             else ''ETag: '' @ zs)) r)"

definition head_last_modified :: "('h, 'e) response_env \<Rightarrow> 'x response_ops \<Rightarrow> bool \<Rightarrow> ('x, 'e) php_http_env_response \<Rightarrow> bool \<times> ('x, 'e) php_http_env_response" where
  "head_last_modified env ops ret r =
     (case get_option ''lastModified'' (r_options r) of
        None \<Rightarrow> (ret, r)
      | Some zoption \<Rightarrow>
          let lm = oval_long env zoption in
          if lm \<noteq> 0 then ctx_op (ro_set_header ops (''Last-Modified: '' @ cstr (re_format_date env lm))) r else (ret, r))"

text \<open>Whether the client has the current version, by its tag or else by its date.\<close>

definition cache_hit ::
  "('h, 'e) response_env \<Rightarrow> php_http_message option \<Rightarrow> ('x, 'e) php_http_env_response \<Rightarrow> (bool \<times> ('x, 'e) php_http_env_response) option" where
  "cache_hit env request r =
     (case php_http_env_is_response_cached_by_etag env (r_options r) ''If-None-Match'' request (r_globals r) of
        None \<Rightarrow> None
      | Some (status, opts, g) \<Rightarrow>
          let r = r\<lparr>r_options := opts, r_globals := g\<rparr> in
          (case status of
             PHP_HTTP_CACHE_MISS \<Rightarrow> Some (False, r)
           | PHP_HTTP_CACHE_HIT \<Rightarrow> Some (True, r)
           | PHP_HTTP_CACHE_NO \<Rightarrow>
               let (status, opts, g) =
                 php_http_env_is_response_cached_by_last_modified env (r_options r) ''If-Modified-Since'' request (r_globals r)
               in Some (status = PHP_HTTP_CACHE_HIT, r\<lparr>r_options := opts, r_globals := g\<rparr>)))"

definition caching_headers ::
  "('h, 'e) response_env \<Rightarrow> 'x response_ops \<Rightarrow> bool \<Rightarrow> ('x, 'e) php_http_env_response \<Rightarrow> bool \<times> ('x, 'e) php_http_env_response" where
  "caching_headers env ops hit r =
     (let (ret, r) = (if hit then let (ok, r) = ctx_op (ro_set_status ops 304) r in (ok, r\<lparr>r_done := True\<rparr>) else (True, r));
          (ret, r) = head_etag env ops ret r
      in head_last_modified env ops ret r)"

definition head_caching :: "('h, 'e) response_env \<Rightarrow> 'x response_ops \<Rightarrow> php_http_message option \<Rightarrow> ('x, 'e) head_step" where
  "head_caching env ops request r =
     (case php_http_env_response_is_cacheable env ops request r of
        (False, r) \<Rightarrow> Some (True, r)
      | (True, r) \<Rightarrow> map_option (\<lambda>(hit, r). caching_headers env ops hit r) (cache_hit env request r))"

definition php_http_env_response_send_head ::
  "('h, 'e) response_env \<Rightarrow> 'x response_ops \<Rightarrow> php_http_message option \<Rightarrow> ('x, 'e) head_step" where
  "php_http_env_response_send_head env ops request r =
     (if r_done r then Some (True, r)
      else and_then (head_headers ops) (and_then (head_status env ops) (and_then (head_version env ops)
             (and_then (head_cookies env ops) (and_then (head_content_type env ops)
               (\<lambda>r. if r_range_status r = PHP_HTTP_RANGE_OK then head_range env ops r
                    else and_then (head_cache_control env ops) (and_then (head_disposition env ops)
                           (and_then (head_encoding env ops request) (head_caching env ops request))) r))))) r)"

section \<open>Body\<close>

text \<open>
  The loop over the body calls \<open>php_http_env_response_send_data\<close> as a function with a result of type
  \<open>size_t\<close>; what it reads where the function returned a \<open>zend_result\<close> is \<open>re_result\<close>.
\<close>

definition body_pass ::
  "('h, 'e) response_env \<Rightarrow> 'x response_ops \<Rightarrow> ('x, 'e) php_http_env_response option pass_func" where
  "body_pass env ops r buf =
     (case r of
        None \<Rightarrow> (- 1, None)
      | Some r \<Rightarrow>
          (case php_http_env_response_send_data env ops r (Some buf) of
             None \<Rightarrow> (- 1, None)
           | Some (ok, r) \<Rightarrow> (re_result env ok, Some r)))"

definition send_slice ::
  "('h, 'e) response_env \<Rightarrow> 'x response_ops \<Rightarrow> php_http_message_body \<Rightarrow> size_t \<Rightarrow> size_t \<Rightarrow> ('x, 'e) head_step" where
  "send_slice env ops body offset forlen r =
     (case php_http_message_body_to_callback (re_eof env body) body (body_pass env ops) (Some r) offset forlen of
        Some (ok, Some r) \<Rightarrow> Some (ok, r)
      | _ \<Rightarrow> None)"

text \<open>Formatted output into the buffer of the response.\<close>

definition buffer_text :: "('h, 'e) response_env \<Rightarrow> bytes \<Rightarrow> ('x, 'e) php_http_env_response \<Rightarrow> ('x, 'e) php_http_env_response option" where
  "buffer_text env txt r =
     (case r_buffer r of
        None \<Rightarrow> None
      | Some b \<Rightarrow> map_option (\<lambda>(_, b). r\<lparr>r_buffer := Some b\<rparr>) (php_http_buffer_append (re_realloc env) b txt))"

definition part_head :: "('x, 'e) php_http_env_response \<Rightarrow> int \<Rightarrow> int \<Rightarrow> bytes" where
  "part_head r begin fin =
     [CR, LF] @ ''--'' @ cstr (r_range_boundary r) @ [CR, LF] @
     ''Content-Type: '' @ (case r_type r of Some t \<Rightarrow> cstr t | None \<Rightarrow> ''application/octet-stream'') @ [CR, LF] @
     content_range begin fin (r_length r) @ [CR, LF, CR, LF]"

text \<open>The result of the loop is the one of the last range.\<close>

fun send_parts ::
  "('h, 'e) response_env \<Rightarrow> 'x response_ops \<Rightarrow> php_http_message_body \<Rightarrow> (int \<times> int) list \<Rightarrow> bool \<Rightarrow> ('x, 'e) head_step" where
  "send_parts env ops body [] ret r = Some (ret, r)"
| "send_parts env ops body ((begin, fin) # rs) ret r =
     (case buffer_text env (part_head r begin fin) r of
        None \<Rightarrow> None
      | Some r \<Rightarrow>
          (case send_slice env ops body (word_of_int begin) (word_of_int (fin - begin + 1)) r of
             None \<Rightarrow> None
           | Some (ret, r) \<Rightarrow> send_parts env ops body rs ret r))"

definition throttle :: "('h, 'e) response_env \<Rightarrow> ('x, 'e) php_http_env_response \<Rightarrow> ('x, 'e) php_http_env_response" where
  "throttle env r =
     (let r = (case get_option ''throttleDelay'' (r_options r) of Some z \<Rightarrow> r\<lparr>r_delay := re_double env z\<rparr> | None \<Rightarrow> r)
      in case get_option ''throttleChunk'' (r_options r) of Some z \<Rightarrow> r\<lparr>r_chunk := word_of_int (oval_long env z)\<rparr> | None \<Rightarrow> r)"

definition php_http_env_response_send_body ::
  "('h, 'e) response_env \<Rightarrow> 'x response_ops \<Rightarrow> ('x, 'e) head_step" where
  "php_http_env_response_send_body env ops r =
     (if r_done r then Some (True, r)
      else case get_body (r_options r) of
        None \<Rightarrow> Some (True, r)
      | Some body \<Rightarrow>
          let r = throttle env r in
          if r_range_status r = PHP_HTTP_RANGE_OK then
            (case r_range_values r of
               [(begin, fin)] \<Rightarrow>
                 and_then (send_slice env ops body (word_of_int begin) (word_of_int (fin - begin + 1)))
                   (php_http_env_response_send_done env ops) r
             | rs \<Rightarrow>
                 and_then (send_parts env ops body rs True)
                   (\<lambda>r. case buffer_text env ([CR, LF] @ ''--'' @ cstr (r_range_boundary r) @ ''--'') r of
                          None \<Rightarrow> None
                        | Some r \<Rightarrow> php_http_env_response_send_done env ops r) r)
          else and_then (send_slice env ops body 0 0) (php_http_env_response_send_done env ops) r)"

section \<open>Sending\<close>

text \<open>A check of the range conditions by tag or date: whether it is a miss, with the options it leaves.\<close>

definition misses_etag ::
  "('h, 'e) response_env \<Rightarrow> bytes \<Rightarrow> php_http_message option \<Rightarrow> ('x, 'e) php_http_env_response \<Rightarrow>
     (bool \<times> ('x, 'e) php_http_env_response) option" where
  "misses_etag env header request r =
     map_option (\<lambda>(status, opts, g). (status = PHP_HTTP_CACHE_MISS, r\<lparr>r_options := opts, r_globals := g\<rparr>))
       (php_http_env_is_response_cached_by_etag env (r_options r) header request (r_globals r))"

definition misses_date ::
  "('h, 'e) response_env \<Rightarrow> bytes \<Rightarrow> php_http_message option \<Rightarrow> ('x, 'e) php_http_env_response \<Rightarrow>
     (bool \<times> ('x, 'e) php_http_env_response) option" where
  "misses_date env header request r =
     (let (status, opts, g) = php_http_env_is_response_cached_by_last_modified env (r_options r) header request (r_globals r)
      in Some (status = PHP_HTTP_CACHE_MISS, r\<lparr>r_options := opts, r_globals := g\<rparr>))"

text \<open>The operator \<open>||\<close> on such checks.\<close>

definition or_else ::
  "('r \<Rightarrow> (bool \<times> 'r) option) \<Rightarrow> ('r \<Rightarrow> (bool \<times> 'r) option) \<Rightarrow> 'r \<Rightarrow> (bool \<times> 'r) option" where
  "or_else a b r = (case a r of None \<Rightarrow> None | Some (True, r) \<Rightarrow> Some (True, r) | Some (False, r) \<Rightarrow> b r)"

definition check_ranges ::
  "('h, 'e) response_env \<Rightarrow> 'x response_ops \<Rightarrow> php_http_message option \<Rightarrow> ('x, 'e) head_step" where
  "check_ranges env ops request r =
     (let (ranges, g) = env_request_ranges (re_host env) (r_length r) request (r_globals r); r = r\<lparr>r_globals := g\<rparr> in
      case ranges of
        None \<Rightarrow> None
      | Some (PHP_HTTP_RANGE_NO, _) \<Rightarrow> Some (True, r\<lparr>r_range_status := PHP_HTTP_RANGE_NO, r_range_values := []\<rparr>)
      | Some (PHP_HTTP_RANGE_ERR, _) \<Rightarrow>
          let r = r\<lparr>r_range_status := PHP_HTTP_RANGE_ERR, r_range_values := []\<rparr>;
              (got, g) = php_http_env_got_request_header (re_host env) ''If-Range'' request (r_globals r);
              r = r\<lparr>r_globals := g\<rparr> in
          if got then Some (True, r\<lparr>r_range_status := PHP_HTTP_RANGE_NO\<rparr>)
          else (case ctx_op (ro_set_status ops 416) (r\<lparr>r_done := True\<rparr>) of
                  (False, r) \<Rightarrow> Some (False, r)
                | (True, r) \<Rightarrow>
                    Some (ctx_op (ro_set_header ops (''Content-Range: bytes */'' @ dec (unat (r_length r)))) r))
      | Some (PHP_HTTP_RANGE_OK, vs) \<Rightarrow>
          (case or_else (misses_etag env ''If-Range'' request) (misses_date env ''If-Range'' request)
                  (r\<lparr>r_range_status := PHP_HTTP_RANGE_OK, r_range_values := vs\<rparr>) of
             None \<Rightarrow> None
           | Some (True, r) \<Rightarrow> Some (True, r\<lparr>r_range_status := PHP_HTTP_RANGE_NO, r_range_values := []\<rparr>)
           | Some (False, r) \<Rightarrow>
               (case or_else (misses_etag env ''If-Match'' request)
                       (or_else (misses_date env ''If-Unmodified-Since'' request) (misses_date env ''Unless-Modified-Since'' request)) r of
                  None \<Rightarrow> None
                | Some (True, r) \<Rightarrow> Some (ctx_op (ro_set_status ops 412) (r\<lparr>r_done := True, r_range_values := []\<rparr>))
                | Some (False, r) \<Rightarrow> Some (True, r))))"

definition send_ranges ::
  "('h, 'e) response_env \<Rightarrow> 'x response_ops \<Rightarrow> php_http_message option \<Rightarrow> ('x, 'e) head_step" where
  "send_ranges env ops request r =
     (case get_body (r_options r) of
        None \<Rightarrow> Some (True, r)
      | Some body \<Rightarrow>
          let r = r\<lparr>r_length := php_http_message_body_size body\<rparr> in
          (case ctx_op (ro_set_header ops ''Accept-Ranges: bytes'') r of
             (False, r) \<Rightarrow> Some (False, r)
           | (True, r) \<Rightarrow> check_ranges env ops request r))"

definition php_http_env_response_send :: "('h, 'e) response_env \<Rightarrow> 'x response_ops \<Rightarrow> ('x, 'e) head_step" where
  "php_http_env_response_send env ops r =
     (let request = get_request (r_options r) in
      and_then (send_ranges env ops request)
        (and_then (php_http_env_response_send_head env ops request)
          (and_then (php_http_env_response_send_body env ops)
            (\<lambda>r. Some (ctx_op (ro_finish ops) r)))) r)"

section \<open>Methods\<close>

text \<open>
  The methods of \<open>http\<close>\<open>\<backslash>\<close>\<open>Env\<close>\<open>\<backslash>\<close>\<open>Response\<close> that set options or ask for the cache state; the
  options are those of the object. A missing argument is \<^const>\<open>None\<close>.
\<close>

definition response_setEnvRequest :: "php_http_message option \<Rightarrow> response_options \<Rightarrow> response_options" where
  "response_setEnvRequest env_req opts = set_option ''request'' (map_option OMsg env_req) opts"

definition response_setContentType :: "bytes option \<Rightarrow> response_options \<Rightarrow> response_options" where
  "response_setContentType ct opts = set_option ''contentType'' (map_option (OV \<circ> ZStr) ct) opts"

definition response_setContentDisposition :: "hashtable \<Rightarrow> response_options \<Rightarrow> response_options" where
  "response_setContentDisposition zdisposition opts = set_option ''contentDisposition'' (Some (OV (zarr zdisposition))) opts"

definition response_setContentEncoding :: "int \<Rightarrow> response_options \<Rightarrow> response_options" where
  "response_setContentEncoding ce opts = set_option ''contentEncoding'' (Some (OV (ZLong ce))) opts"

definition response_setCacheControl :: "bytes option \<Rightarrow> response_options \<Rightarrow> response_options" where
  "response_setCacheControl cc opts = set_option ''cacheControl'' (map_option (OV \<circ> ZStr) cc) opts"

definition response_setLastModified :: "int \<Rightarrow> response_options \<Rightarrow> response_options" where
  "response_setLastModified lm opts = set_option ''lastModified'' (Some (OV (ZLong lm))) opts"

definition response_setEtag :: "bytes option \<Rightarrow> response_options \<Rightarrow> response_options" where
  "response_setEtag etag opts = set_option ''etag'' (map_option (OV \<circ> ZStr) etag) opts"

definition response_setThrottleRate :: "int \<Rightarrow> rat option \<Rightarrow> response_options \<Rightarrow> response_options" where
  "response_setThrottleRate chunk_size delay opts =
     set_option ''throttleChunk'' (Some (OV (ZLong chunk_size)))
       (set_option ''throttleDelay'' (Some (OD (case delay of Some d \<Rightarrow> d | None \<Rightarrow> 1))) opts)"

definition response_isCachedByLastModified ::
  "('h, 'e) response_env \<Rightarrow> bytes option \<Rightarrow> response_options \<Rightarrow> env_globals \<Rightarrow>
     php_http_cache_status \<times> response_options \<times> env_globals" where
  "response_isCachedByLastModified env header_name opts g =
     php_http_env_is_response_cached_by_last_modified env opts
       (if header_name = None \<or> header_name = Some [] then ''If-Modified-Since'' else the header_name) (get_request opts) g"

definition response_isCachedByEtag ::
  "('h, 'e) response_env \<Rightarrow> bytes option \<Rightarrow> response_options \<Rightarrow> env_globals \<Rightarrow>
     (php_http_cache_status \<times> response_options \<times> env_globals) option" where
  "response_isCachedByEtag env header_name opts g =
     php_http_env_is_response_cached_by_etag env opts
       (if header_name = None \<or> header_name = Some [] then ''If-None-Match'' else the header_name) (get_request opts) g"

text \<open>
  The argument of \<open>setCookie\<close>: a cookie object, an array with the parts of one, or a value whose string
  is parsed. The result \<^const>\<open>None\<close> is a parser that does not return.
\<close>

datatype cookie_source = CookieObject php_http_cookie_list | CookieArray hashtable | CookieString bytes

definition response_setCookie :: "('h, 'e) response_env \<Rightarrow> cookie_source \<Rightarrow> response_options \<Rightarrow> response_options option" where
  "response_setCookie env zcookie_new opts =
     (case zcookie_new of
        CookieObject l \<Rightarrow> Some (set_cookie l opts)
      | CookieArray ht \<Rightarrow> Some (set_cookie (php_http_cookie_list_from_struct (re_cookie env) ht) opts)
      | CookieString s \<Rightarrow> map_option (\<lambda>l. set_cookie l opts) (php_http_cookie_list_parse (re_cookie env) s 0 []))"

text \<open>The object as an output handler: what is written becomes the body, a cleaning call empties it.\<close>

definition PHP_OUTPUT_HANDLER_CLEAN :: "64 word" where "PHP_OUTPUT_HANDLER_CLEAN = 0x02"

definition response_invoke :: "bytes \<Rightarrow> 64 word \<Rightarrow> response_options \<Rightarrow> response_options" where
  "response_invoke ob_str ob_flags opts =
     (let body = (case get_body opts of Some b \<Rightarrow> b | None \<Rightarrow> php_http_message_body_init);
          body = (if ob_flags AND PHP_OUTPUT_HANDLER_CLEAN \<noteq> 0 then body\<lparr>body_data := []\<rparr>
                  else php_http_message_body_append ob_str body)
      in set_option ''body'' (Some (OBody body)) opts)"

end
