(* ===== verification/Http_Filter.thy ===== *)
theory Http_Filter
  imports Http_Encoding Http_Zend
begin

text \<open>
  The stream filters (\<open>php_http_filter.c\<close>). A filter is called with the buckets that arrived and with
  flags; its result is a status and the buckets it hands on. Whether the call closes the filter
  (\<open>PHP_HTTP_FILTER_IS_CLOSING\<close>: the flag, or the end of the stream) is an argument. The buffer of the chunk
  decoder is the byte string it holds (\<open>Http_Buffer\<close> shows that its buffer is one); memory is not
  exhausted.
\<close>

section \<open>Chunk encoder\<close>

definition http_filter_chunked_encode :: "bool \<Rightarrow> bytes list \<Rightarrow> bytes list" where
  "http_filter_chunked_encode closing buckets_in =
     map (\<lambda>ptr. hex (length ptr) @ [CR, LF] @ ptr @ [CR, LF]) buckets_in @
     (if closing then [''0'' @ [CR, LF, CR, LF]] else [])"

section \<open>Chunk decoder\<close>

datatype psfs = PSFS_PASS_ON | PSFS_FEED_ME | PSFS_ERR_FATAL

record chunked_decode_buffer =
  cd_buffer :: bytes
  cd_hexlen :: nat

lemma drop_shorter: "buf \<noteq> [] \<Longrightarrow> 0 < n \<Longrightarrow> length (drop n (dropWhile P buf)) < length buf"
proof -
  assume "buf \<noteq> []" "0 < n"
  moreover have "length (dropWhile P buf) \<le> length buf" by (rule length_dropWhile_le)
  ultimately show ?thesis by (cases buf) auto
qed

text \<open>The loop over the buffer; \<^const>\<open>None\<close> is the fatal error.\<close>

function decode_filter_loop :: "bool \<Rightarrow> bytes \<Rightarrow> nat \<Rightarrow> bytes list \<Rightarrow> (bytes \<times> nat \<times> bytes list) option" where
  "decode_filter_loop flush_inc buf hexlen out =
     (if buf = [] then Some (buf, hexlen, out)
      else if hexlen \<noteq> 0 then
        (if length buf < hexlen then
           (if flush_inc then decode_filter_loop flush_inc [] (hexlen - length buf) (out @ [buf])
            else Some (buf, hexlen, out))
         else decode_filter_loop flush_inc (drop hexlen buf) 0 (out @ [take hexlen buf]))
      else
        let buf = dropWhile is_eol buf in
        if buf = [] then Some (buf, hexlen, out)
        else case php_http_locate_bin_eol buf NUL of
               None \<Rightarrow> Some (buf, hexlen, out)
             | Some (eolstr, eollen) \<Rightarrow>
                 let (n, stop) = strtoul 16 buf in
                 if stop = 0 then None
                 else if n = 0 then Some (drop (eolstr + eollen) buf, 0, out)
                 else decode_filter_loop flush_inc (drop (eolstr + eollen) buf) n out)"
  by pat_completeness auto

termination
proof (relation "measure (\<lambda>(f, buf, h, out). length buf)", goal_cases)
  case (4 flush_inc buf hexlen out buf' p eolstr eollen st n stop)
  then have "0 < eolstr + eollen" using locate_bin_eol_SomeD(4) [of "dropWhile is_eol buf" NUL eolstr eollen] by auto
  with 4 drop_shorter [of buf "eolstr + eollen" is_eol] show ?case by (simp del: length_drop)
qed auto

declare decode_filter_loop.simps [simp del]

definition http_filter_chunked_decode ::
  "bool \<Rightarrow> bool \<Rightarrow> bytes list \<Rightarrow> chunked_decode_buffer \<Rightarrow> psfs \<times> bytes list \<times> chunked_decode_buffer" where
  "http_filter_chunked_decode closing flush_inc buckets_in b =
     (case decode_filter_loop flush_inc (cd_buffer b @ concat buckets_in) (cd_hexlen b) [] of
        None \<Rightarrow> (PSFS_ERR_FATAL, [], b)
      | Some (buf, hexlen, out) \<Rightarrow>
          let (buf, hexlen, out) =
            (if closing \<and> hexlen \<noteq> 0 \<and> buf \<noteq> [] then ([], 0, out @ [buf]) else (buf, hexlen, out))
          in (if out \<noteq> [] then PSFS_PASS_ON else PSFS_FEED_ME, out, \<lparr>cd_buffer = buf, cd_hexlen = hexlen\<rparr>))"

section \<open>Filters around an encoding stream\<close>

definition nonempty_bucket :: "bytes option \<Rightarrow> bytes list" where
  "nonempty_bucket encoded = (case encoded of None \<Rightarrow> [] | Some e \<Rightarrow> if e = [] then [] else [e])"

fun stream_filter_update ::
  "'c php_http_encoding_stream_ops \<Rightarrow> bytes list \<Rightarrow> 'c php_http_encoding_stream \<Rightarrow> bytes list \<Rightarrow>
     bool \<times> bytes list \<times> 'c php_http_encoding_stream" where
  "stream_filter_update ops [] s out = (True, out, s)"
| "stream_filter_update ops (ptr # ps) s out =
     (case php_http_encoding_stream_update ops s ptr of
        (False, _, s) \<Rightarrow> (False, out, s)
      | (True, encoded, s) \<Rightarrow> stream_filter_update ops ps s (out @ nonempty_bucket encoded))"

definition http_filter_stream ::
  "'c php_http_encoding_stream_ops \<Rightarrow> bool \<Rightarrow> bool \<Rightarrow> bytes list \<Rightarrow> 'c php_http_encoding_stream \<Rightarrow>
     psfs \<times> bytes list \<times> 'c php_http_encoding_stream" where
  "http_filter_stream ops closing flush_inc buckets_in s =
     (case stream_filter_update ops buckets_in s [] of
        (False, out, s) \<Rightarrow> (PSFS_ERR_FATAL, out, s)
      | (True, out, s) \<Rightarrow>
          let (ok, encoded, s) = (if flush_inc then php_http_encoding_stream_flush ops s else (True, None, s));
              out = (if ok then out @ nonempty_bucket encoded else out)
          in if \<not> ok then (PSFS_ERR_FATAL, out, s)
             else let (ok, encoded, s) = (if closing then php_http_encoding_stream_finish ops s else (True, None, s));
                      out = (if ok then out @ nonempty_bucket encoded else out)
                  in if \<not> ok then (PSFS_ERR_FATAL, out, s) else (PSFS_PASS_ON, out, s))"

section \<open>Creation\<close>

text \<open>
  The filters by name. The streams of the compression libraries are made by their \<open>init\<close>, which is an
  argument; allocation succeeds.
\<close>

datatype 'e http_filter =
    ChunkedDecode chunked_decode_buffer
  | ChunkedEncode
  | StreamFilter bytes "'e php_http_encoding_stream"

definition filter_flags :: "(bytes \<Rightarrow> int) \<Rightarrow> zval option \<Rightarrow> bool \<Rightarrow> 32 word" where
  "filter_flags str_long params p =
     (let flags = (if p then PHP_HTTP_ENCODING_STREAM_PERSISTENT else 0);
          tmp = (case params of
                   None \<Rightarrow> None
                 | Some (ZArr n es) \<Rightarrow> zend_hash_find (n, es) (KStr ''flags'')
                 | Some v \<Rightarrow> Some v)
      in case tmp of
           None \<Rightarrow> flags
         | Some v \<Rightarrow> flags OR (word_of_int (zval_get_long str_long v) AND 0x0fffffff))"

definition http_filter_create ::
  "(bytes \<Rightarrow> int) \<Rightarrow> (bytes \<Rightarrow> 'e php_http_encoding_stream_ops option) \<Rightarrow> bytes \<Rightarrow> zval option \<Rightarrow> bool \<Rightarrow> 'e http_filter option" where
  "http_filter_create str_long codecs name params p =
     (let flags = filter_flags str_long params p; lname = map tolower (cstr name) in
      if lname = ''http.chunked_decode'' then Some (ChunkedDecode \<lparr>cd_buffer = [], cd_hexlen = 0\<rparr>)
      else if lname = ''http.chunked_encode'' then Some ChunkedEncode
      else if lname \<in> {''http.inflate'', ''http.deflate'', ''http.brotli_encode'', ''http.brotli_decode''} then
        (case codecs lname of
           None \<Rightarrow> None
         | Some ops \<Rightarrow> map_option (StreamFilter lname) (php_http_encoding_stream_init (Some ops) flags))
      else None)"

section \<open>Facts\<close>

lemma decode_filter_done [simp]: "decode_filter_loop f [] h out = Some ([], h, out)"
  by (subst decode_filter_loop.simps) simp

lemma hex_char_not_eol: "c \<in> set (hex n) \<Longrightarrow> \<not> is_eol c"
  using print_num_digits [of 16 n] is_eol_not_digit by fastforce

lemma hex_starts: "dropWhile is_eol (hex n @ r) = hex n @ r"
  using hex_char_not_eol [of "hd (hex n)" n] by (cases "hex n") auto

lemma dropWhile_CRLF [simp]: "dropWhile is_eol (CR # LF # r) = dropWhile is_eol r"
  by (simp add: is_eol_def)

text \<open>One chunk, with the line end of the chunk before it still in front.\<close>

lemma decode_filter_chunk:
  assumes "c \<noteq> []" "length c \<le> ulong_max" "dropWhile is_eol pre = []"
  shows "decode_filter_loop f (pre @ hex (length c) @ CR # LF # c @ CR # LF # r) 0 out =
     decode_filter_loop f (CR # LF # r) 0 (out @ [c])"
proof -
  let ?s = "hex (length c) @ CR # LF # c @ CR # LF # r"
  have pre: "\<forall>x\<in>set pre. is_eol x" using assms(3) by (simp add: dropWhile_eq_Nil_conv)
  then have dw: "dropWhile is_eol (pre @ ?s) = ?s"
    by (simp add: dropWhile_append2 hex_starts)
  have eol: "php_http_locate_bin_eol ?s NUL = Some (length (hex (length c)), 2)"
    by (rule locate_bin_eol_line) (simp add: hex_char_not_eol)
  have num: "strtoul 16 ?s = (length c, length (hex (length c)))"
    using assms by (intro strtoul_hex) (simp_all add: ends_number_def)
  have "decode_filter_loop f (pre @ ?s) 0 out = decode_filter_loop f (c @ CR # LF # r) (length c) out"
    using assms(1) by (subst decode_filter_loop.simps) (simp add: dw eol num Let_def)
  also have "\<dots> = decode_filter_loop f (CR # LF # r) 0 (out @ [c])"
    using assms(1) by (subst decode_filter_loop.simps) simp
  finally show ?thesis .
qed

lemma decode_filter_coding:
  assumes "\<forall>c\<in>set cs. c \<noteq> [] \<and> length c \<le> ulong_max" "dropWhile is_eol pre = []"
  shows "decode_filter_loop f (pre @ chunk_coding cs) 0 out = Some ([CR, LF], 0, out @ cs)"
  using assms
proof (induction cs arbitrary: pre out)
  case Nil
  have pre: "\<forall>x\<in>set pre. is_eol x" using Nil.prems by (simp add: dropWhile_eq_Nil_conv)
  have dw: "dropWhile is_eol (pre @ hex 0 @ [CR, LF, CR, LF]) = hex 0 @ [CR, LF, CR, LF]"
    using pre by (simp add: dropWhile_append2 hex_starts)
  have eol: "php_http_locate_bin_eol (hex 0 @ [CR, LF, CR, LF]) NUL = Some (length (hex 0), 2)"
    by (rule locate_bin_eol_line) (simp add: hex_char_not_eol)
  have num: "strtoul 16 (hex 0 @ [CR, LF, CR, LF]) = (0, length (hex 0))"
    by (intro strtoul_hex) (simp_all add: ends_number_def)
  show ?case
    unfolding chunk_coding_Nil by (subst decode_filter_loop.simps) (simp add: dw eol num Let_def)
next
  case (Cons c cs)
  have "decode_filter_loop f (pre @ chunk_coding (c # cs)) 0 out =
      decode_filter_loop f ([CR, LF] @ chunk_coding cs) 0 (out @ [c])"
    using Cons.prems by (simp add: chunk_coding_Cons decode_filter_chunk [where r = "chunk_coding cs"])
  also have "\<dots> = Some ([CR, LF], 0, (out @ [c]) @ cs)"
    using Cons.prems by (intro Cons.IH) (simp_all add: is_eol_def)
  finally show ?case by simp
qed

text \<open>What the encoder writes for the buckets of a stream, its last call closing, is their chunked coding.\<close>

lemma encode_filter_coding: "concat (http_filter_chunked_encode True ps) = chunk_coding ps"
  by (simp add: http_filter_chunked_encode_def chunk_coding_def)

lemma encode_filter_parts:
  "concat (map (\<lambda>p. concat (http_filter_chunked_encode False [p])) ps) @ concat (http_filter_chunked_encode True []) = chunk_coding ps"
  by (simp add: http_filter_chunked_encode_def chunk_coding_def)

section \<open>Results\<close>

text \<open>
  C15. The decoding filter inverts the encoding filter: what the encoder writes for any buckets
  that are not empty, closing, comes out of the decoder, in whatever buckets it arrives within
  one call, as exactly these buckets, and no byte of it is left to be delivered.
\<close>

theorem filter_decode_encode:
  assumes "\<forall>c\<in>set cs. c \<noteq> [] \<and> length c \<le> ulong_max" "cs \<noteq> []" "concat bs = concat (http_filter_chunked_encode True cs)"
  shows "http_filter_chunked_decode closing flush_inc bs \<lparr>cd_buffer = [], cd_hexlen = 0\<rparr> =
           (PSFS_PASS_ON, cs, \<lparr>cd_buffer = [CR, LF], cd_hexlen = 0\<rparr>)"
  using decode_filter_coding [OF assms(1), of "[]" flush_inc "[]"] assms(2,3)
  by (simp add: http_filter_chunked_decode_def encode_filter_coding)

theorem filter_decode_encode_witness:
  "http_filter_chunked_decode False False [''5'', [CR, LF] @ ''hel'', ''lo'' @ [CR, LF] @ ''0'' @ [CR, LF, CR, LF]]
     \<lparr>cd_buffer = [], cd_hexlen = 0\<rparr> = (PSFS_PASS_ON, [''hello''], \<lparr>cd_buffer = [CR, LF], cd_hexlen = 0\<rparr>)"
proof -
  have "concat (http_filter_chunked_encode True [''hello'']) = ''5'' @ [CR, LF] @ ''hello'' @ [CR, LF] @ ''0'' @ [CR, LF, CR, LF]"
    by code_simp
  then show ?thesis by (intro filter_decode_encode) (simp_all add: ulong_max_def)
qed

text \<open>A size line whose line end is cut in two loses the line feed to the data of the chunk.\<close>

lemma decode_filter_cut_line_end:
  "(let (st, out, b) = http_filter_chunked_decode False False [''5'' @ [CR]] \<lparr>cd_buffer = [], cd_hexlen = 0\<rparr>
    in (st, out, fst (snd (http_filter_chunked_decode False False [[LF] @ ''abcde'' @ [CR, LF]] b)))) =
   (PSFS_FEED_ME, [], [[LF] @ ''abcd''])"
  by code_simp

text \<open>Where the stream reports its end, every bucket is followed by the end of the coding.\<close>

lemma encode_filter_early_end:
  "concat (http_filter_chunked_encode True [''a'']) @ concat (http_filter_chunked_encode True [''b'']) =
   chunk_coding [''a''] @ chunk_coding [''b'']"
  by (simp add: encode_filter_coding)

end
