(* ===== verification/Http_Env_Stream.thy ===== *)
theory Http_Env_Stream
  imports Http_Env_Response Http_Filter
begin

text \<open>
  Responses that are written to a stream: \<open>php_http_env_response_stream_ops\<close> of
  \<open>php_http_env_response.c\<close>. The stream of the host is a record of functions on a state: a write answers
  the number of bytes (\<open>-1\<close> for an error). The filters on a stream are part of the context: their number,
  as all of them are chunk encoders. A write through filters hands the data on as one bucket.
\<close>

section \<open>Streams with filters\<close>

record 'o stream_host =
  sh_write :: "bytes \<Rightarrow> 'o \<Rightarrow> int \<times> 'o"
  sh_flush :: "'o \<Rightarrow> bool \<times> 'o"
  sh_eof :: "'o \<Rightarrow> bool"
  sh_filter :: bool

fun write_buckets :: "'o stream_host \<Rightarrow> bytes list \<Rightarrow> 'o \<Rightarrow> bool \<times> 'o" where
  "write_buckets sh [] s = (True, s)"
| "write_buckets sh (b # bs) s =
     (let (n, s) = sh_write sh b s; (ok, s) = write_buckets sh bs s in (ok \<and> 0 \<le> n, s))"

definition php_stream_write :: "'o stream_host \<Rightarrow> nat \<Rightarrow> bytes \<Rightarrow> 'o \<Rightarrow> int \<times> 'o" where
  "php_stream_write sh filters dat s =
     (if dat = [] then (0, s)
      else if filters = 0 then sh_write sh dat s
      else let (ok, s) = write_buckets sh ((http_filter_chunked_encode (sh_eof sh s) ^^ filters) [dat]) s
           in (if ok then int (length dat) else - 1, s))"

text \<open>Flushing runs the filters without data.\<close>

definition php_stream_flush :: "'o stream_host \<Rightarrow> nat \<Rightarrow> 'o \<Rightarrow> bool \<times> 'o" where
  "php_stream_flush sh filters s =
     sh_flush sh (if filters = 0 then s
                  else snd (write_buckets sh ((http_filter_chunked_encode (sh_eof sh s) ^^ filters) []) s))"

section \<open>State\<close>

record 'o php_http_env_response_stream_ctx =
  sc_header :: hashtable
  sc_version :: php_http_version
  sc_status_code :: int
  sc_stream :: 'o
  sc_filters :: nat
  sc_chunked_filter :: bool
  sc_request :: "php_http_message option"
  sc_started :: bool
  sc_finished :: bool
  sc_chunked :: bool

abbreviation "closed_head ctx \<equiv> sc_started ctx \<or> sc_finished ctx"

definition php_http_env_response_stream_init :: "'o \<Rightarrow> response_options \<Rightarrow> 'o php_http_env_response_stream_ctx" where
  "php_http_env_response_stream_init stream options =
     (let request = get_request options in
      \<lparr>sc_header = zend_hash_init,
       sc_version = \<lparr>ver_major = 1, ver_minor =
         (if (case request of Some m \<Rightarrow> info_version (msg_info m) = \<lparr>ver_major = 1, ver_minor = 0\<rparr> | None \<Rightarrow> False) then 0 else 1)\<rparr>,
       sc_status_code = 200, sc_stream = stream, sc_filters = 0, sc_chunked_filter = False, sc_request = request,
       sc_started = False, sc_finished = False, sc_chunked = True\<rparr>)"

text \<open>What is left of the stream; the filter is removed from it.\<close>

definition php_http_env_response_stream_dtor :: "'o php_http_env_response_stream_ctx \<Rightarrow> 'o \<times> nat" where
  "php_http_env_response_stream_dtor ctx =
     (sc_stream ctx, if sc_chunked_filter ctx then sc_filters ctx - 1 else sc_filters ctx)"

section \<open>Head\<close>

text \<open>The header lines; an explicit length turns the chunked coding off.\<close>

fun stream_header_val :: "zval \<Rightarrow> bool \<times> bytes \<Rightarrow> bool \<times> bytes"
  and php_http_env_response_stream_header :: "(zkey \<times> zval) list \<Rightarrow> bool \<times> bytes \<Rightarrow> bool \<times> bytes" where
  "stream_header_val (ZArr n es) st = php_http_env_response_stream_header es st"
| "stream_header_val v (chunked, buf) =
     (let zs = zval_get_string v in
      (if chunked \<and> strncaseeq zs ''Content-Length:'' 15 then False else chunked, buf @ zs @ [CR, LF]))"
| "php_http_env_response_stream_header [] st = st"
| "php_http_env_response_stream_header ((k, v) # es) st =
     php_http_env_response_stream_header es (if v = ZUndef then st else stream_header_val v st)"

text \<open>Whether the chunked coding is possible; a request without method counts as none.\<close>

definition chunked_allowed :: "'o php_http_env_response_stream_ctx \<Rightarrow> bool" where
  "chunked_allowed ctx =
     (if sc_version ctx = \<lparr>ver_major = 1, ver_minor = 0\<rparr> then False
      else if sc_status_code ctx = 204 \<or> (100 \<le> sc_status_code ctx \<and> sc_status_code ctx < 200) then False
      else if (case sc_request ctx of None \<Rightarrow> False
               | Some m \<Rightarrow> 200 \<le> sc_status_code ctx \<and> sc_status_code ctx < 300 \<and>
                   (case request_method m of None \<Rightarrow> False | Some meth \<Rightarrow> strcaseeq (cstr meth) ''CONNECT''))
      then False
      else sc_chunked ctx)"

definition stream_head :: "'o php_http_env_response_stream_ctx \<Rightarrow> bool \<times> bytes" where
  "stream_head ctx =
     (let (chunked, buf) = php_http_env_response_stream_header (snd (sc_header ctx))
            (chunked_allowed ctx, status_line (sc_version ctx) (sc_status_code ctx) @ [CR, LF])
      in (chunked, buf @ (if chunked then ''Transfer-Encoding: chunked'' @ [CR, LF] else []) @ [CR, LF]))"

definition php_http_env_response_stream_start ::
  "'o stream_host \<Rightarrow> 'o php_http_env_response_stream_ctx \<Rightarrow> bool \<times> 'o php_http_env_response_stream_ctx" where
  "php_http_env_response_stream_start sh ctx =
     (if closed_head ctx then (False, ctx)
      else let (chunked, buf) = stream_head ctx;
               (n, s) = php_stream_write sh (sc_filters ctx) buf (sc_stream ctx);
               started = (int (length buf) = n);
               (_, s) = php_stream_flush sh (sc_filters ctx) s;
               ctx = ctx\<lparr>sc_chunked := chunked, sc_stream := s, sc_started := started\<rparr>;
               ctx = (if chunked
                      then ctx\<lparr>sc_chunked_filter := sh_filter sh,
                               sc_filters := (if sh_filter sh then sc_filters ctx + 1 else sc_filters ctx)\<rparr>
                      else ctx)
           in (started, ctx))"

section \<open>Operations\<close>

definition php_http_env_response_stream_get_status :: "'o php_http_env_response_stream_ctx \<Rightarrow> int" where
  "php_http_env_response_stream_get_status ctx = sc_status_code ctx"

definition php_http_env_response_stream_set_status ::
  "int \<Rightarrow> 'o php_http_env_response_stream_ctx \<Rightarrow> bool \<times> 'o php_http_env_response_stream_ctx" where
  "php_http_env_response_stream_set_status http_code ctx =
     (if closed_head ctx then (False, ctx) else (True, ctx\<lparr>sc_status_code := http_code\<rparr>))"

definition php_http_env_response_stream_set_protocol_version ::
  "php_http_version \<Rightarrow> 'o php_http_env_response_stream_ctx \<Rightarrow> bool \<times> 'o php_http_env_response_stream_ctx" where
  "php_http_env_response_stream_set_protocol_version v ctx =
     (if closed_head ctx then (False, ctx) else (True, ctx\<lparr>sc_version := v\<rparr>))"

definition php_http_env_response_stream_set_header_ex ::
  "bool \<Rightarrow> bytes \<Rightarrow> 'o php_http_env_response_stream_ctx \<Rightarrow> bool \<times> 'o php_http_env_response_stream_ctx" where
  "php_http_env_response_stream_set_header_ex replace header_str ctx =
     (if closed_head ctx then (False, ctx)
      else if CHR '':'' \<notin> set (cstr header_str) then (False, ctx)
      else let header_key = KStr (takeWhile (\<lambda>c. c \<noteq> CHR '':'') header_str) in
        case (if replace then None else zend_hash_find (sc_header ctx) header_key) of
          Some zheader \<Rightarrow>
            (True, ctx\<lparr>sc_header := zend_hash_update (sc_header ctx) header_key
               (zarr (zend_hash_next_index_insert (convert_to_array zheader) (ZStr header_str)))\<rparr>)
        | None \<Rightarrow> (True, ctx\<lparr>sc_header := zend_hash_update (sc_header ctx) header_key (ZStr header_str)\<rparr>))"

definition php_http_env_response_stream_set_header ::
  "bytes \<Rightarrow> 'o php_http_env_response_stream_ctx \<Rightarrow> bool \<times> 'o php_http_env_response_stream_ctx" where
  "php_http_env_response_stream_set_header line ctx = php_http_env_response_stream_set_header_ex True line ctx"

definition php_http_env_response_stream_add_header ::
  "bytes \<Rightarrow> 'o php_http_env_response_stream_ctx \<Rightarrow> bool \<times> 'o php_http_env_response_stream_ctx" where
  "php_http_env_response_stream_add_header line ctx = php_http_env_response_stream_set_header_ex False line ctx"

definition php_http_env_response_stream_del_header ::
  "bytes \<Rightarrow> 'o php_http_env_response_stream_ctx \<Rightarrow> bool \<times> 'o php_http_env_response_stream_ctx" where
  "php_http_env_response_stream_del_header header_str ctx =
     (if closed_head ctx then (False, ctx) else (True, ctx\<lparr>sc_header := zend_hash_del (sc_header ctx) (KStr header_str)\<rparr>))"

definition start_if_needed ::
  "'o stream_host \<Rightarrow> 'o php_http_env_response_stream_ctx \<Rightarrow> bool \<times> 'o php_http_env_response_stream_ctx" where
  "start_if_needed sh ctx = (if sc_started ctx then (True, ctx) else php_http_env_response_stream_start sh ctx)"

definition php_http_env_response_stream_write ::
  "'o stream_host \<Rightarrow> bytes \<Rightarrow> 'o php_http_env_response_stream_ctx \<Rightarrow> bool \<times> 'o php_http_env_response_stream_ctx" where
  "php_http_env_response_stream_write sh dat ctx =
     (if sc_finished ctx then (False, ctx)
      else case start_if_needed sh ctx of
        (False, ctx) \<Rightarrow> (False, ctx)
      | (True, ctx) \<Rightarrow>
          let (n, s) = php_stream_write sh (sc_filters ctx) dat (sc_stream ctx)
          in (int (length dat) = n, ctx\<lparr>sc_stream := s\<rparr>))"

definition php_http_env_response_stream_flush ::
  "'o stream_host \<Rightarrow> 'o php_http_env_response_stream_ctx \<Rightarrow> bool \<times> 'o php_http_env_response_stream_ctx" where
  "php_http_env_response_stream_flush sh ctx =
     (if sc_finished ctx then (False, ctx)
      else case start_if_needed sh ctx of
        (False, ctx) \<Rightarrow> (False, ctx)
      | (True, ctx) \<Rightarrow>
          let (ok, s) = php_stream_flush sh (sc_filters ctx) (sc_stream ctx) in (ok, ctx\<lparr>sc_stream := s\<rparr>))"

text \<open>The last filter is closed and removed.\<close>

definition php_http_env_response_stream_finish ::
  "'o stream_host \<Rightarrow> 'o php_http_env_response_stream_ctx \<Rightarrow> bool \<times> 'o php_http_env_response_stream_ctx" where
  "php_http_env_response_stream_finish sh ctx =
     (if sc_finished ctx then (False, ctx)
      else case start_if_needed sh ctx of
        (False, ctx) \<Rightarrow> (False, ctx)
      | (True, ctx) \<Rightarrow>
          let (_, s) = php_stream_flush sh (sc_filters ctx) (sc_stream ctx);
              ctx = ctx\<lparr>sc_stream := s\<rparr>;
              ctx = (if sc_chunked ctx \<and> sc_chunked_filter ctx
                     then ctx\<lparr>sc_stream := snd (write_buckets sh (http_filter_chunked_encode True []) s),
                              sc_filters := sc_filters ctx - 1, sc_chunked_filter := False\<rparr>
                     else ctx)
          in (True, ctx\<lparr>sc_finished := True\<rparr>))"

definition php_http_env_response_stream_ops :: "'o stream_host \<Rightarrow> 'o php_http_env_response_stream_ctx response_ops" where
  "php_http_env_response_stream_ops sh =
     \<lparr>ro_get_status = php_http_env_response_stream_get_status,
      ro_set_status = php_http_env_response_stream_set_status,
      ro_set_protocol_version = php_http_env_response_stream_set_protocol_version,
      ro_set_header = php_http_env_response_stream_set_header,
      ro_add_header = php_http_env_response_stream_add_header,
      ro_del_header = php_http_env_response_stream_del_header,
      ro_write = php_http_env_response_stream_write sh,
      ro_flush = php_http_env_response_stream_flush sh,
      ro_finish = php_http_env_response_stream_finish sh\<rparr>"

text \<open>The \<open>send\<close> method with a stream.\<close>

definition response_send ::
  "('h, 'e) response_env \<Rightarrow> 'o stream_host \<Rightarrow> 'o \<Rightarrow> response_options \<Rightarrow> env_globals \<Rightarrow>
     (bool \<times> ('o php_http_env_response_stream_ctx, 'e) php_http_env_response) option" where
  "response_send env sh stream options g =
     (case php_http_env_response_init env options g (\<lambda>options. Some (php_http_env_response_stream_init stream options)) of
        None \<Rightarrow> None
      | Some r \<Rightarrow> php_http_env_response_send env (php_http_env_response_stream_ops sh) r)"

end
