(* ===== verification/Http_Env_Send.thy ===== *)
theory Http_Env_Send
  imports Http_Env_Laws
begin

text \<open>
  Sending the body. The interface \<open>response_sink\<close> extends the one for heads: pieces are taken one by one,
  and finishing ends the response. Output goes through the buffer of the response, which
  keeps back less than a chunk until the end; \<open>staged\<close> says that what was handed over so far is what was
  written together with what is kept back.
\<close>

section \<open>Staged output\<close>

definition chunk_of :: "('x, 'e) php_http_env_response \<Rightarrow> size_t" where
  "chunk_of r = (if r_chunk r \<noteq> 0 then r_chunk r else PHP_HTTP_SENDBUF_SIZE)"

lemma chunk_of_nonzero: "chunk_of r \<noteq> 0"
  by (simp add: chunk_of_def PHP_HTTP_SENDBUF_SIZE_def)

definition staged ::
  "('x \<Rightarrow> bytes list \<Rightarrow> bool) \<Rightarrow> ('x, 'e) php_http_env_response \<Rightarrow> nat \<Rightarrow> ('x, 'e) php_http_env_response \<Rightarrow> bytes \<Rightarrow> bool" where
  "staged sent r0 k r d \<longleftrightarrow>
     (\<exists>b ps. r = r0\<lparr>r_ctx := r_ctx r, r_buffer := Some b\<rparr> \<and> buf_inv b \<and> length (buf_str b) < k \<and>
        sent (r_ctx r) ps \<and> [] \<notin> set ps \<and> concat ps @ buf_str b = d)"

definition plenty :: "realloc \<Rightarrow> bool" where
  "plenty ra \<longleftrightarrow> allocator ra \<and> (\<forall>b n. unat n < 2 ^ 63 \<longrightarrow> ra b n \<noteq> None)"

text \<open>A response that can send: memory, a chunk size below \<open>2 ^ 59\<close>, no encoder, and results that are read right.\<close>

definition can_send :: "('h, 'e) response_env \<Rightarrow> ('x, 'e) php_http_env_response \<Rightarrow> bool" where
  "can_send env r \<longleftrightarrow> plenty (re_realloc env) \<and> unat (chunk_of r) < 2 ^ 59 \<and> r_encoder r = None \<and> re_result env True \<noteq> - 1"

text \<open>The text of the parts, and what a response stands for: the body, the range, or the message of the ranges.\<close>

definition parts_text :: "('x, 'e) php_http_env_response \<Rightarrow> php_http_message_body \<Rightarrow> (int \<times> int) list \<Rightarrow> bytes" where
  "parts_text r body rs =
     concat (map (\<lambda>(b, f). part_head r b f @ php_http_message_body_to_string body (word_of_int b) (word_of_int (f - b + 1))) rs)"

definition representation :: "('x, 'e) php_http_env_response \<Rightarrow> php_http_message_body \<Rightarrow> bytes" where
  "representation r body =
     (if r_range_status r = PHP_HTTP_RANGE_OK then
        (case r_range_values r of
           [(b, f)] \<Rightarrow> php_http_message_body_to_string body (word_of_int b) (word_of_int (f - b + 1))
         | rs \<Rightarrow> parts_text r body rs @ [CR, LF] @ ''--'' @ cstr (r_range_boundary r) @ ''--'')
      else body_data body)"

definition small_parts :: "('x, 'e) php_http_env_response \<Rightarrow> bool" where
  "small_parts r \<longleftrightarrow>
     r_range_status r \<noteq> PHP_HTTP_RANGE_OK \<or> length (r_range_values r) = 1 \<or>
     unat (chunk_of r) + length (concat (map (\<lambda>(b, f). part_head r b f) (r_range_values r))) + length (r_range_boundary r) + 6 \<le> 2 ^ 59"

lemma of_nat_not_minus_1:
  assumes "n < 2 ^ 60"
  shows "(of_nat n :: size_t) \<noteq> - 1"
proof
  assume "(of_nat n :: size_t) = - 1"
  then have "unat (of_nat n :: size_t) = unat (- 1 :: size_t)" by simp
  with assms show False by (simp add: unat_of_nat_size_t unsigned_minus_1_eq_mask mask_eq_exp_minus_1)
qed

locale response_sink = response_head ops is_open
  for ops :: "'x response_ops" and is_open :: "'x \<Rightarrow> bool" +
  fixes sent :: "'x \<Rightarrow> bytes list \<Rightarrow> bool" and ended :: "'x \<Rightarrow> bytes list \<Rightarrow> bool"
  assumes open_sent: "is_open x \<Longrightarrow> sent x []"
    and write_sent: "sent x ps \<Longrightarrow> p \<noteq> [] \<Longrightarrow> \<exists>x'. ro_write ops p x = (True, x') \<and> sent x' (ps @ [p])"
    and flush_sent: "sent x ps \<Longrightarrow> sent (snd (ro_flush ops x)) ps"
    and finish_sent: "sent x ps \<Longrightarrow> \<exists>x'. ro_finish ops x = (True, x') \<and> ended x' ps"
begin

lemma output_sent:
  assumes "sent (r_ctx r) ps" "p \<noteq> []" "length p < 2 ^ 60"
  shows "fst (response_output ops r p) \<noteq> - 1 \<and> sent (r_ctx (snd (response_output ops r p))) (ps @ [p]) \<and>
     snd (response_output ops r p) = r\<lparr>r_ctx := r_ctx (snd (response_output ops r p))\<rparr>"
proof -
  obtain x' where x': "ro_write ops p (r_ctx r) = (True, x')" "sent x' (ps @ [p])" using write_sent [OF assms(1,2)] by blast
  have "(of_nat (length p) :: size_t) \<noteq> - 1" using assms(3) by (rule of_nat_not_minus_1)
  with x' flush_sent [OF x'(2)] show ?thesis by (simp add: response_output_def Let_def)
qed

text \<open>The chunks that leave the buffer.\<close>

lemma send_chunks:
  assumes st: "staged sent r0 k r d" and ok: "can_send env r0" and k: "k \<le> 2 ^ 59" and p: "length p < 2 ^ 59"
  shows "\<exists>r'. php_http_env_response_send_data env ops r (Some p) = Some (True, r') \<and>
     staged sent r0 (unat (chunk_of r0)) r' (d @ p)"
proof -
  obtain b ps where b: "r = r0\<lparr>r_ctx := r_ctx r, r_buffer := Some b\<rparr>" "buf_inv b" "length (buf_str b) < k"
      "sent (r_ctx r) ps" "[] \<notin> set ps" "concat ps @ buf_str b = d"
    using st by (auto simp: staged_def)
  have eq: "r_encoder r = None" "chunk_of r = chunk_of r0" "r_buffer r = Some b"
    by (subst b(1), use ok in \<open>simp add: can_send_def chunk_of_def\<close>)+
  have mm: "allocator (re_realloc env)" "\<And>m n. unat n < 2 ^ 63 \<Longrightarrow> re_realloc env m n \<noteq> None"
    using ok by (auto simp: can_send_def plenty_def)
  define n where "n = chunk_of r0"
  have n: "n \<noteq> 0" "unat n < 2 ^ 59" "0 < unat n"
    using ok chunk_of_nonzero by (auto simp: n_def can_send_def unat_gt_0)
  obtain b1 where app: "php_http_buffer_append (re_realloc env) b p = Some (of_nat (length p), b1)"
      "buf_inv b1" "buf_str b1 = buf_str b @ p"
    using allocator.append_succeeds [OF mm(1) b(2) _ _ mm(2), of p] b(3) k p by auto
  define b1' rs where "b1' = (if p = [] then b else b1)" and "rs = (if p = [] then 0 else of_nat (length p) :: size_t)"
  have st1: "(if p \<noteq> [] then php_http_buffer_append (re_realloc env) b p else Some (0, b)) = Some (rs, b1')"
    "buf_inv b1'" "buf_str b1' = buf_str b @ p"
    using app b(2) by (auto simp: b1'_def rs_def)
  define I where "I = (\<lambda>r' cs. sent (r_ctx r') (ps @ cs) \<and> [] \<notin> set cs \<and> r' = r\<lparr>r_ctx := r_ctx r'\<rparr>)"
  have cb: "fst (response_output ops x c) \<noteq> PHP_HTTP_BUFFER_PASS0 \<and> I (snd (response_output ops x c)) (ds @ [c])"
    if "I x ds" "length c = unat n" for x ds c
  proof -
    have "c \<noteq> []" using that(2) n(3) by auto
    with output_sent [of x "ps @ ds" c] that n(2) show ?thesis
      by (auto simp: I_def PHP_HTTP_BUFFER_NOMEM_def)
        (metis php_http_env_response.surjective php_http_env_response.update_convs(1))
  qed
  have "I r []" using b(4) by (simp add: I_def)
  have "\<exists>b' cs x'. chunked_output_loop (re_realloc env) (response_output ops) n (Some b) p r 0 =
         Some (0 + of_nat (length cs), Some b', x') \<and> I x' ([] @ cs) \<and> buf_inv b' \<and> concat cs @ buf_str b' = buf_str b1' \<and>
         (\<forall>c\<in>set cs. length c = unat n) \<and> length (buf_str b') < unat n"
    by (rule allocator.chunked_output_loop_keeps [where I = I]) (fact mm(1) st1(1,2) n(1) \<open>I r []\<close> | rule cb)+
  then obtain b' cs r' where out: "chunked_output_loop (re_realloc env) (response_output ops) n (Some b) p r 0 =
         Some (of_nat (length cs), Some b', r')" "I r' cs" "buf_inv b'" "concat cs @ buf_str b' = buf_str b @ p"
      "\<forall>c\<in>set cs. length c = unat n" "length (buf_str b') < unat n"
    unfolding st1(3) by auto
  have "length cs \<le> length (concat cs)"
    using out(5) n(3) by (induction cs) (auto simp: Suc_le_eq)
  also have "\<dots> < 2 ^ 60" using arg_cong [OF out(4), of length] b(3) k p by simp
  finally have "length cs < 2 ^ 60" .
  then have "(of_nat (length cs) :: size_t) \<noteq> - 1" by (rule of_nat_not_minus_1)
  then have "php_http_env_response_send_data env ops r (Some p) = Some (True, r'\<lparr>r_buffer := Some b'\<rparr>)"
    using out(1) by (simp add: php_http_env_response_send_data_def eq php_http_buffer_chunked_output_def Let_def
        chunk_of_def [symmetric] n_def)
  moreover have "staged sent r0 (unat n) (r'\<lparr>r_buffer := Some b'\<rparr>) (d @ p)"
  proof -
    have "r'\<lparr>r_buffer := Some b'\<rparr> = r0\<lparr>r_ctx := r_ctx r', r_buffer := Some b'\<rparr>"
      using out(2) b(1) by (cases r0; cases r; cases r') (auto simp: I_def)
    moreover have "concat (ps @ cs) @ buf_str b' = d @ p" using out(4) b(6) by simp
    ultimately show ?thesis
      using out b(5) unfolding staged_def by (intro exI [of _ b'] exI [of _ "ps @ cs"]) (auto simp: I_def)
  qed
  ultimately show ?thesis by (auto simp: n_def)
qed

lemma staged_mono: "staged s r0 k r d \<Longrightarrow> k \<le> k' \<Longrightarrow> staged s r0 k' r d"
  unfolding staged_def by fastforce

text \<open>A slice of the body, handed over piece by piece.\<close>

lemma send_slice_staged:
  assumes st: "staged sent r0 k r d" and ok: "can_send env r0" and k: "unat (chunk_of r0) \<le> k" "k \<le> 2 ^ 59"
    and body: "length (body_data body) < 2 ^ 60" "\<And>p. re_eof env body p \<Longrightarrow> length (body_data body) \<le> p"
  shows "\<exists>r'. send_slice env ops body offset forlen r = Some (True, r') \<and>
     staged sent r0 k r' (d @ php_http_message_body_to_string body offset forlen)"
proof -
  define I where "I = (\<lambda>a ds. \<exists>r'. a = Some r' \<and> staged sent r0 k r' (d @ concat ds))"
  have "\<exists>ps a. body_callback_loop (re_eof env body) (body_data body) (unat offset) (forlen_of forlen) (body_pass env ops) (Some r) = Some (True, a) \<and>
      I a ([] @ ps) \<and> concat ps = take (unat (forlen_of forlen)) (drop (unat offset) (body_data body)) \<and>
      (\<forall>p\<in>set ps. p \<noteq> [] \<and> length p \<le> 0x1000)"
  proof (rule body_callback_loop_keeps)
    fix a ds and p :: bytes
    assume a: "I a ds" "p \<noteq> []" "length p \<le> 0x1000"
    then obtain r1 where r1: "a = Some r1" "staged sent r0 k r1 (d @ concat ds)" by (auto simp: I_def)
    have "length p < 2 ^ 59" using a(3) by simp
    from send_chunks [OF r1(2) ok k(2) this] obtain r2 where
      r2: "php_http_env_response_send_data env ops r1 (Some p) = Some (True, r2)"
        "staged sent r0 (unat (chunk_of r0)) r2 ((d @ concat ds) @ p)" by blast
    from staged_mono [OF r2(2) k(1)] r2(1) ok show "fst (body_pass env ops a p) \<noteq> - 1 \<and> I (snd (body_pass env ops a p)) (ds @ [p])"
      by (simp add: body_pass_def r1(1) I_def can_send_def)
  next
    show "I (Some r) []" using st by (simp add: I_def)
    show "forlen_of forlen \<noteq> 0" by (simp add: forlen_of_def)
  qed (use body in simp_all)
  then show ?thesis
    by (auto simp: send_slice_def php_http_message_body_to_callback_def php_http_message_body_to_string_def I_def)
qed

text \<open>The end: what was kept back is written.\<close>

lemma send_done_staged:
  assumes st: "staged sent r0 k r d" and ok: "can_send env r0" and k: "k \<le> 2 ^ 59"
  shows "\<exists>r' ps. php_http_env_response_send_done env ops r = Some (True, r') \<and> sent (r_ctx r') ps \<and> [] \<notin> set ps \<and>
     concat ps = d \<and> r' = r0\<lparr>r_ctx := r_ctx r', r_buffer := None\<rparr>"
proof -
  obtain b ps where b: "r = r0\<lparr>r_ctx := r_ctx r, r_buffer := Some b\<rparr>" "buf_inv b" "length (buf_str b) < k"
      "sent (r_ctx r) ps" "[] \<notin> set ps" "concat ps @ buf_str b = d"
    using st by (auto simp: staged_def)
  have eq: "r_encoder r = None" "r_buffer r = Some b"
    by (subst b(1), use ok in \<open>simp add: can_send_def\<close>)+
  have ch: "php_http_buffer_chunk_buffer (re_realloc env) (Some b) [] 0 = Some (Some (buf_str b), buf_used b, None)"
    by (simp add: php_http_buffer_chunk_buffer_def data_spec [OF b(2)])
  show ?thesis
  proof (cases "buf_str b = []")
    case True
    then have "buf_used b = 0" using b(2) buf_used_eq by fastforce
    then have "php_http_env_response_send_done env ops r = Some (True, r\<lparr>r_buffer := None\<rparr>)"
      by (simp add: php_http_env_response_send_done_def php_http_env_response_send_data_def eq Let_def
          php_http_buffer_chunked_output_def chunked_output_loop.simps ch)
    moreover have "r\<lparr>r_buffer := None\<rparr> = r0\<lparr>r_ctx := r_ctx r, r_buffer := None\<rparr>" using b(1) by (cases r0; cases r) auto
    ultimately show ?thesis using b True by (intro exI [of _ "r\<lparr>r_buffer := None\<rparr>"] exI [of _ ps]) simp
  next
    case False
    then have "buf_used b \<noteq> 0" using b(2) by (auto simp: buf_str_def)
    moreover have "length (buf_str b) < 2 ^ 60" using b(3) k by simp
    define r1 where "r1 = snd (response_output ops r (buf_str b))"
    note out = output_sent [OF b(4) False \<open>length (buf_str b) < 2 ^ 60\<close>, folded r1_def]
    ultimately have "php_http_env_response_send_done env ops r = Some (True, r1\<lparr>r_buffer := None\<rparr>)"
      by (auto simp: php_http_env_response_send_done_def php_http_env_response_send_data_def eq Let_def
          php_http_buffer_chunked_output_def chunked_output_loop.simps ch PHP_HTTP_BUFFER_NOMEM_def r1_def split: prod.splits)
    moreover have "r1\<lparr>r_buffer := None\<rparr> = r0\<lparr>r_ctx := r_ctx r1, r_buffer := None\<rparr>"
      using b(1) out by (cases r0; cases r; cases r1) auto
    ultimately show ?thesis
      using b(5,6) False out by (intro exI [of _ "r1\<lparr>r_buffer := None\<rparr>"] exI [of _ "ps @ [buf_str b]"]) simp
  qed
qed

lemma buffer_text_staged:
  assumes st: "staged sent r0 k r d" and ok: "can_send env r0" and k: "k + length t \<le> 2 ^ 59"
  shows "\<exists>r'. buffer_text env t r = Some r' \<and> staged sent r0 (k + length t) r' (d @ t)"
proof -
  obtain b ps where b: "r = r0\<lparr>r_ctx := r_ctx r, r_buffer := Some b\<rparr>" "buf_inv b" "length (buf_str b) < k"
      "sent (r_ctx r) ps" "[] \<notin> set ps" "concat ps @ buf_str b = d"
    using st by (auto simp: staged_def)
  have buf: "r_buffer r = Some b" by (subst b(1)) simp
  have mm: "allocator (re_realloc env)" "\<And>m n. unat n < 2 ^ 63 \<Longrightarrow> re_realloc env m n \<noteq> None"
    using ok by (auto simp: can_send_def plenty_def)
  obtain b1 where app: "php_http_buffer_append (re_realloc env) b t = Some (of_nat (length t), b1)"
      "buf_inv b1" "buf_str b1 = buf_str b @ t"
    using allocator.append_succeeds [OF mm(1) b(2) _ _ mm(2), of t] b(3) k by auto
  have "r\<lparr>r_buffer := Some b1\<rparr> = r0\<lparr>r_ctx := r_ctx r, r_buffer := Some b1\<rparr>" using b(1) by (cases r0; cases r) auto
  with app b show ?thesis
    unfolding staged_def
    by (intro exI [of _ "r\<lparr>r_buffer := Some b1\<rparr>"] conjI exI [of _ b1] exI [of _ ps]) (auto simp: buffer_text_def buf)
qed

lemma part_head_staged:
  assumes "staged s r0 k r d"
  shows "part_head r begin fin = part_head r0 begin fin"
proof -
  obtain b where r: "r = r0\<lparr>r_ctx := r_ctx r, r_buffer := Some b\<rparr>" using assms by (auto simp: staged_def)
  show ?thesis by (subst r) (simp add: part_head_def)
qed

lemma boundary_staged:
  assumes "staged s r0 k r d"
  shows "r_range_boundary r = r_range_boundary r0"
proof -
  obtain b where r: "r = r0\<lparr>r_ctx := r_ctx r, r_buffer := Some b\<rparr>" using assms by (auto simp: staged_def)
  show ?thesis by (subst r) simp
qed

text \<open>The parts of a multipart message of ranges.\<close>

lemma send_parts_staged:
  assumes ok: "can_send env r0"
    and body: "length (body_data body) < 2 ^ 60" "\<And>p. re_eof env body p \<Longrightarrow> length (body_data body) \<le> p"
  shows "staged sent r0 k r d \<Longrightarrow> unat (chunk_of r0) \<le> k \<Longrightarrow>
     k + length (concat (map (\<lambda>(b, f). part_head r0 b f) rs)) \<le> 2 ^ 59 \<Longrightarrow>
     \<exists>r'. send_parts env ops body rs True r = Some (True, r') \<and>
       staged sent r0 (k + length (concat (map (\<lambda>(b, f). part_head r0 b f) rs))) r' (d @ parts_text r0 body rs)"
proof (induction rs arbitrary: k r d)
  case Nil
  then show ?case by (simp add: parts_text_def)
next
  case (Cons x rs)
  obtain b f where x: "x = (b, f)" by force
  let ?t = "part_head r0 b f"
  have "k + length ?t \<le> 2 ^ 59" using Cons.prems(3) by (simp add: x)
  from buffer_text_staged [OF Cons.prems(1) ok this] obtain r1 where
    r1: "buffer_text env ?t r = Some r1" "staged sent r0 (k + length ?t) r1 (d @ ?t)" by blast
  have "unat (chunk_of r0) \<le> k + length ?t" using Cons.prems(2) by simp
  from send_slice_staged [OF r1(2) ok this \<open>k + length ?t \<le> 2 ^ 59\<close> body] obtain r2 where
    r2: "send_slice env ops body (word_of_int b) (word_of_int (f - b + 1)) r1 = Some (True, r2)"
      "staged sent r0 (k + length ?t) r2 ((d @ ?t) @ php_http_message_body_to_string body (word_of_int b) (word_of_int (f - b + 1)))"
    by blast
  from Cons.IH [OF r2(2)] Cons.prems(2,3) obtain r3 where
    r3: "send_parts env ops body rs True r2 = Some (True, r3)"
      "staged sent r0 (k + length ?t + length (concat (map (\<lambda>(b, f). part_head r0 b f) rs))) r3
        (((d @ ?t) @ php_http_message_body_to_string body (word_of_int b) (word_of_int (f - b + 1))) @ parts_text r0 body rs)"
    by (auto simp: x)
  show ?case
    using r1(1) r2(1) r3 part_head_staged [OF Cons.prems(1), of b f]
    by (auto simp: x parts_text_def add.assoc)
qed

text \<open>Sending of the body as a whole, from a response whose head is still open.\<close>

lemma send_body_ok:
  assumes r: "\<not> r_done r" "get_body (r_options r) = Some body" "is_open (r_ctx r)"
    and buf: "r_buffer r = Some b" "buf_inv b" "buf_str b = []"
    and ok: "can_send env (throttle env r)" "readable env (r_options r)" "small_parts (throttle env r)"
  shows "\<exists>r' ps. php_http_env_response_send_body env ops r = Some (True, r') \<and> sent (r_ctx r') ps \<and> [] \<notin> set ps \<and>
     concat ps = representation (throttle env r) body \<and> r' = (throttle env r)\<lparr>r_ctx := r_ctx r', r_buffer := None\<rparr>"
proof -
  define r0 where "r0 = throttle env r"
  have body: "length (body_data body) < 2 ^ 60" "\<And>p. re_eof env body p \<Longrightarrow> length (body_data body) \<le> p"
    using ok(2) r(2) by (auto simp: readable_def)
  have r0: "r_ctx r0 = r_ctx r" "r_buffer r0 = Some b" "r_range_status r0 = r_range_status r" "r_range_values r0 = r_range_values r"
    using buf(1) by (auto simp: r0_def throttle_def Let_def split: option.splits)
  note can = ok(1) [folded r0_def]
  let ?k = "unat (chunk_of r0)"
  have k: "?k \<le> 2 ^ 59" "0 < ?k" using can chunk_of_nonzero by (auto simp: can_send_def unat_gt_0)
  have self: "r0 = r0\<lparr>r_ctx := r_ctx r0, r_buffer := Some b\<rparr>" using r0(2) by (cases r0) simp
  have st: "staged sent r0 ?k r0 []"
    unfolding staged_def using self buf k(2) open_sent [OF r(3)] r0(1)
    by (intro exI [of _ b] exI [of _ "[]"]) (simp del: php_http_env_response.update_convs)
  have fin: "\<exists>r' ps. and_then step (php_http_env_response_send_done env ops) r0 = Some (True, r') \<and> sent (r_ctx r') ps \<and> [] \<notin> set ps \<and>
     concat ps = d \<and> r' = r0\<lparr>r_ctx := r_ctx r', r_buffer := None\<rparr>"
    if "\<exists>r1. step r0 = Some (True, r1) \<and> staged sent r0 k r1 d" "k \<le> 2 ^ 59" for step k d
    using that(1) send_done_staged [OF _ can that(2)] by (fastforce simp: and_then_def)
  have slice: "\<exists>r' ps. and_then (send_slice env ops body off len) (php_http_env_response_send_done env ops) r0 = Some (True, r') \<and>
      sent (r_ctx r') ps \<and> [] \<notin> set ps \<and> concat ps = php_http_message_body_to_string body off len \<and>
      r' = r0\<lparr>r_ctx := r_ctx r', r_buffer := None\<rparr>" for off len
  proof (rule fin [where k = "?k"])
    show "\<exists>r1. send_slice env ops body off len r0 = Some (True, r1) \<and>
        staged sent r0 ?k r1 (php_http_message_body_to_string body off len)"
      using send_slice_staged [OF st can order_refl k(1) body, of off len] by simp
  qed (rule k(1))
  consider (whole) "r_range_status r \<noteq> PHP_HTTP_RANGE_OK"
    | (one) x y where "r_range_status r = PHP_HTTP_RANGE_OK" "r_range_values r = [(x, y)]"
    | (many) "r_range_status r = PHP_HTTP_RANGE_OK" "\<nexists>x y. r_range_values r = [(x, y)]" by blast
  then have "\<exists>r' ps. php_http_env_response_send_body env ops r = Some (True, r') \<and> sent (r_ctx r') ps \<and> [] \<notin> set ps \<and>
     concat ps = representation r0 body \<and> r' = r0\<lparr>r_ctx := r_ctx r', r_buffer := None\<rparr>"
  proof cases
    case whole
    have "php_http_message_body_to_string body 0 0 = body_data body"
      using body(1) by (simp add: php_http_message_body_to_string_def forlen_of_def unsigned_minus_1_eq_mask mask_eq_exp_minus_1)
    with slice [of 0 0] whole r show ?thesis
      by (simp add: php_http_env_response_send_body_def r0_def [symmetric] r0(3) representation_def)
  next
    case (one x y)
    with slice [of "word_of_int x" "word_of_int (y - x + 1)"] r show ?thesis
      by (simp add: php_http_env_response_send_body_def r0_def [symmetric] r0(3,4) representation_def)
  next
    case many
    let ?rs = "r_range_values r" and ?t = "[CR, LF] @ ''--'' @ cstr (r_range_boundary r0) @ ''--''"
    let ?h = "length (concat (map (\<lambda>(b, f). part_head r0 b f) ?rs))"
    have len: "length (cstr (r_range_boundary r0)) \<le> length (r_range_boundary r0)" by (simp add: cstr_def length_takeWhile_le)
    then have sm: "?k + ?h \<le> 2 ^ 59" "?k + ?h + length ?t \<le> 2 ^ 59"
      using ok(3) many unfolding r0_def [symmetric] small_parts_def r0(3,4) by (auto simp: length_Suc_conv)
    from send_parts_staged [OF can body st order_refl sm(1)] obtain r1 where
      r1: "send_parts env ops body ?rs True r0 = Some (True, r1)" "staged sent r0 (?k + ?h) r1 (parts_text r0 body ?rs)" by auto
    from buffer_text_staged [OF r1(2) can sm(2)] boundary_staged [OF r1(2)] obtain r2 where
      r2: "buffer_text env ([CR, LF] @ ''--'' @ cstr (r_range_boundary r1) @ ''--'') r1 = Some r2"
        "staged sent r0 (?k + ?h + length ?t) r2 (parts_text r0 body ?rs @ ?t)" by auto
    from send_done_staged [OF r2(2) can sm(2)] obtain r3 ps where
      r3: "php_http_env_response_send_done env ops r2 = Some (True, r3)" "sent (r_ctx r3) ps" "[] \<notin> set ps"
        "concat ps = parts_text r0 body ?rs @ ?t" "r3 = r0\<lparr>r_ctx := r_ctx r3, r_buffer := None\<rparr>" by blast
    have "php_http_env_response_send_body env ops r =
        and_then (send_parts env ops body ?rs True)
          (\<lambda>r. case buffer_text env ([CR, LF] @ ''--'' @ cstr (r_range_boundary r) @ ''--'') r of
                 None \<Rightarrow> None | Some r \<Rightarrow> php_http_env_response_send_done env ops r) r0"
      using many r by (auto simp: php_http_env_response_send_body_def r0_def [symmetric] Let_def r0(3,4) split: list.split)
    also have "\<dots> = Some (True, r3)" using r1(1) r2(1) r3(1) by (simp add: and_then_def)
    finally have "php_http_env_response_send_body env ops r = Some (True, r3)" .
    moreover have "representation r0 body = parts_text r0 body ?rs @ ?t"
      using many by (auto simp: representation_def r0(3,4) split: list.split)
    ultimately show ?thesis using r3 by auto
  qed
  then show ?thesis by (simp add: r0_def)
qed

end

end
