(* ===== verification/Http_Env_Theorems.thy ===== *)
theory Http_Env_Theorems
  imports Http_Env_Send
begin

text \<open>
  Sending a response as a whole, the operations for streams as an instance of the interface, and
  what follows for the text that reaches a stream.
\<close>

section \<open>Ranges\<close>

definition send_frame ::
  "('x \<Rightarrow> bool) \<Rightarrow> ('x, 'e) php_http_env_response \<Rightarrow> ('x, 'e) php_http_env_response \<Rightarrow> bool" where
  "send_frame is_open r r' \<longleftrightarrow>
     is_open (r_ctx r') \<and> r_encoder r' = r_encoder r \<and> r_buffer r' = r_buffer r \<and> r_chunk r' = r_chunk r \<and>
     same_options (r_options r) (r_options r')"

lemma head_send_frame: "head_frame P r r' \<Longrightarrow> send_frame P r r'"
  by (simp add: head_frame_def send_frame_def)

lemma send_frame_trans: "send_frame P a b \<Longrightarrow> send_frame P b c \<Longrightarrow> send_frame P a c"
  by (auto simp: send_frame_def intro: same_options_trans)

text \<open>The range header of the request does not overflow, and names at most one range.\<close>

definition range_header_ok :: "('h, 'e) response_env \<Rightarrow> php_http_message option \<Rightarrow> php_http_message_body \<Rightarrow> bool" where
  "range_header_ok env request body \<longleftrightarrow>
     (\<forall>g. case fst (env_request_ranges (re_host env) (php_http_message_body_size body) request g) of
            None \<Rightarrow> False
          | Some (st, vs) \<Rightarrow> st = PHP_HTTP_RANGE_OK \<longrightarrow> length vs = 1)"

lemma misses_etag_ok:
  assumes "readable env (r_options r)" "P (r_ctx r)"
  shows "\<exists>m r'. misses_etag env header request r = Some (m, r') \<and> send_frame P r r' \<and>
     r_range_status r' = r_range_status r \<and> r_range_values r' = r_range_values r"
  using cached_by_etag_returns [OF assms(1), of header request "r_globals r"] assms(2)
  by (auto simp: misses_etag_def send_frame_def)

lemma misses_date_ok:
  assumes "P (r_ctx r)"
  shows "\<exists>m r'. misses_date env header request r = Some (m, r') \<and> send_frame P r r' \<and>
     r_range_status r' = r_range_status r \<and> r_range_values r' = r_range_values r"
proof -
  obtain st opts g where "php_http_env_is_response_cached_by_last_modified env (r_options r) header request (r_globals r) = (st, opts, g)"
    by (metis prod_cases3)
  with cached_by_date_options [OF this] assms show ?thesis by (auto simp: misses_date_def send_frame_def)
qed

lemma or_else_ok:
  assumes "\<exists>m r'. a r = Some (m, r') \<and> Q r r'" "\<And>r'. Q r r' \<Longrightarrow> \<exists>m r''. b r' = Some (m, r'') \<and> Q r' r''"
    "\<And>r' r''. Q r r' \<Longrightarrow> Q r' r'' \<Longrightarrow> Q r r''"
  shows "\<exists>m r'. or_else a b r = Some (m, r') \<and> Q r r'"
proof -
  obtain m r' where r': "a r = Some (m, r')" "Q r r'" using assms(1) by blast
  obtain m' r'' where r'': "b r' = Some (m', r'')" "Q r' r''" using assms(2) [OF r'(2)] by blast
  show ?thesis using r' r'' assms(3) [OF r'(2) r''(2)] by (cases m) (auto simp: or_else_def)
qed

context response_head
begin

abbreviation "cond_frame r r' \<equiv> send_frame is_open r r' \<and> r_range_status r' = r_range_status r \<and> r_range_values r' = r_range_values r"

lemma check_ranges_ok:
  assumes "is_open (r_ctx r)" "readable env (r_options r)" "get_body (r_options r) = Some body"
    "r_length r = php_http_message_body_size body" "range_header_ok env request body"
  shows "\<exists>r'. check_ranges env ops request r = Some (True, r') \<and> send_frame is_open r r' \<and>
     (r_range_status r' = PHP_HTTP_RANGE_OK \<and> \<not> r_done r' \<longrightarrow> length (r_range_values r') = 1)"
proof -
  obtain ranges g where rg: "env_request_ranges (re_host env) (r_length r) request (r_globals r) = (ranges, g)" by force
  define r0 where "r0 = r\<lparr>r_globals := g\<rparr>"
  have fr0: "send_frame is_open r r0" using assms(1) by (simp add: r0_def send_frame_def)
  have "case ranges of None \<Rightarrow> False | Some (st, vs) \<Rightarrow> st = PHP_HTTP_RANGE_OK \<longrightarrow> length vs = 1"
    using spec [OF assms(5) [unfolded range_header_ok_def], of "r_globals r"] rg by (simp add: assms(4))
  then obtain st vs where st: "ranges = Some (st, vs)" "st = PHP_HTTP_RANGE_OK \<longrightarrow> length vs = 1"
    by (cases ranges) auto
  show ?thesis
  proof (cases st)
    case PHP_HTTP_RANGE_NO
    then show ?thesis using assms(1) by (simp add: check_ranges_def rg st send_frame_def)
  next
    case PHP_HTTP_RANGE_ERR
    define r1 where "r1 = r0\<lparr>r_range_status := PHP_HTTP_RANGE_ERR, r_range_values := []\<rparr>"
    obtain got g' where got: "php_http_env_got_request_header (re_host env) ''If-Range'' request g = (got, g')" by force
    define r2 where "r2 = r1\<lparr>r_globals := g', r_done := True\<rparr>"
    have op: "is_open (r_ctx r2)" using assms(1) by (simp add: r2_def r1_def r0_def)
    have l: "CHR '':'' \<in> set (cstr (''Content-Range: bytes */'' @ dec (unat (r_length r2))))" by (simp add: cstr_def)
    from status_then_header [OF frame_self [OF op] l, of 416] obtain r3 r4 where
      r4: "ctx_op (ro_set_status ops 416) r2 = (True, r3)"
        "ctx_op (ro_set_header ops (''Content-Range: bytes */'' @ dec (unat (r_length r2)))) r3 = (True, r4)"
        "head_frame is_open r2 r4" "r_length r3 = r_length r2" by blast
    have eq: "r\<lparr>r_globals := g, r_range_status := PHP_HTTP_RANGE_ERR, r_range_values := [], r_globals := g', r_done := True\<rparr> = r2"
      by (simp add: r2_def r1_def r0_def)
    show ?thesis
      using got r4 assms(1) PHP_HTTP_RANGE_ERR
      by (cases got) (auto simp: check_ranges_def rg st send_frame_def head_frame_def r2_def r1_def r0_def)
  next
    case PHP_HTTP_RANGE_OK
    then have len: "length vs = 1" using st(2) by simp
    define r1 where "r1 = r0\<lparr>r_range_status := PHP_HTTP_RANGE_OK, r_range_values := vs\<rparr>"
    have fr1: "send_frame is_open r r1" using assms(1) by (simp add: r1_def r0_def send_frame_def)
    have tr: "cond_frame a c" if "cond_frame a b" "cond_frame b c" for a b c :: "('x, 'a) php_http_env_response"
      using that by (auto intro: send_frame_trans)
    have rd: "readable env (r_options r')" if "readable env (r_options a)" "cond_frame a r'" for a r' :: "('x, 'a) php_http_env_response"
      using that by (auto simp: send_frame_def intro: readable_same)
    have op: "is_open (r_ctx r')" if "cond_frame a r'" for a r' :: "('x, 'a) php_http_env_response" using that by (simp add: send_frame_def)
    have rd1: "readable env (r_options r1)" and op1: "is_open (r_ctx r1)" using assms(1,2) by (simp_all add: r1_def r0_def)
    have first: "\<exists>m r'. or_else (misses_etag env ''If-Range'' request) (misses_date env ''If-Range'' request) r1 = Some (m, r') \<and> cond_frame r1 r'"
      by (rule or_else_ok) (use misses_etag_ok [OF rd1, of is_open] op1 misses_date_ok op tr in blast)+
    then obtain m r2 where r2: "or_else (misses_etag env ''If-Range'' request) (misses_date env ''If-Range'' request) r1 = Some (m, r2)"
      "cond_frame r1 r2" by blast
    have rd2: "readable env (r_options r2)" using rd [OF rd1 r2(2)] .
    have date2: "\<exists>m r''. or_else (misses_date env ''If-Unmodified-Since'' request) (misses_date env ''Unless-Modified-Since'' request) r' = Some (m, r'') \<and> cond_frame r' r''"
      if "is_open (r_ctx r')" for r' :: "('x, 'a) php_http_env_response"
      by (rule or_else_ok) (use that misses_date_ok op tr in blast)+
    have "\<exists>m r'. or_else (misses_etag env ''If-Match'' request)
          (or_else (misses_date env ''If-Unmodified-Since'' request) (misses_date env ''Unless-Modified-Since'' request)) r2 = Some (m, r') \<and> cond_frame r2 r'"
      by (rule or_else_ok) (use misses_etag_ok [OF rd2, of is_open] op [OF r2(2)] date2 op tr in blast)+
    then obtain m' r3 where r3: "or_else (misses_etag env ''If-Match'' request)
          (or_else (misses_date env ''If-Unmodified-Since'' request) (misses_date env ''Unless-Modified-Since'' request)) r2 = Some (m', r3)"
      "cond_frame r2 r3" by blast
    define r4 where "r4 = r3\<lparr>r_done := True, r_range_values := []\<rparr>"
    have "is_open (r_ctx r4)" using op [OF r3(2)] by (simp add: r4_def)
    from set_status_ok [OF this, of 412] obtain r5 where
      r5: "ctx_op (ro_set_status ops 412) r4 = (True, r5)" "head_frame is_open r4 r5" by blast
    have done5: "r_done r5" using r5(1) by (auto simp: ctx_op_def r4_def split: prod.splits)
    have fr3: "cond_frame r1 r3" using tr [OF r2(2) r3(2)] .
    show ?thesis
    proof (cases m)
      case True
      then show ?thesis
        using r2 fr1 PHP_HTTP_RANGE_OK send_frame_trans [OF fr1, of r2]
        by (auto simp: check_ranges_def rg st r0_def [symmetric] r1_def [symmetric] send_frame_def)
    next
      case False
      show ?thesis
      proof (cases m')
        case True
        have "send_frame is_open r r5"
          using send_frame_trans [OF fr1, of r3] fr3 head_send_frame [OF r5(2)] by (auto simp: r4_def send_frame_def intro: same_options_trans)
        then show ?thesis
          using False True r2(1) r3(1) r5(1) done5 PHP_HTTP_RANGE_OK
          by (simp add: check_ranges_def rg st r0_def [symmetric] r1_def [symmetric] r4_def [symmetric])
      next
        case False
        then show ?thesis
          using \<open>\<not> m\<close> r2(1) r3(1) fr3 send_frame_trans [OF fr1, of r3] PHP_HTTP_RANGE_OK len
          by (simp add: check_ranges_def rg st r0_def [symmetric] r1_def [symmetric]) (simp add: r1_def send_frame_def len)
      qed
    qed
  qed
qed

lemma send_ranges_ok:
  assumes "is_open (r_ctx r)" "readable env (r_options r)" "\<not> r_done r" "r_range_status r \<noteq> PHP_HTTP_RANGE_OK"
    "\<And>body. get_body (r_options r) = Some body \<Longrightarrow> range_header_ok env request body"
  shows "\<exists>r'. send_ranges env ops request r = Some (True, r') \<and> send_frame is_open r r' \<and>
     (r_range_status r' = PHP_HTTP_RANGE_OK \<and> \<not> r_done r' \<longrightarrow> length (r_range_values r') = 1)"
proof (cases "get_body (r_options r)")
  case None
  with assms show ?thesis by (simp add: send_ranges_def send_frame_def)
next
  case (Some body)
  define r1 where "r1 = r\<lparr>r_length := php_http_message_body_size body\<rparr>"
  have fr1: "send_frame is_open r r1" using assms(1) by (simp add: r1_def send_frame_def)
  have "is_open (r_ctx r1)" using assms(1) by (simp add: r1_def)
  from set_header_ok [OF this, of "''Accept-Ranges: bytes''"] obtain r2 where
    r2: "ctx_op (ro_set_header ops ''Accept-Ranges: bytes'') r1 = (True, r2)" "head_frame is_open r1 r2" by (auto simp: cstr_def)
  have fr2: "send_frame is_open r r2" by (rule send_frame_trans [OF fr1 head_send_frame [OF r2(2)]])
  have b2: "get_body (r_options r2) = Some body" using same_options_body [of "r_options r" "r_options r2"] fr2 Some by (simp add: send_frame_def)
  have l2: "r_length r2 = php_http_message_body_size body" using r2(2) by (simp add: head_frame_def r1_def)
  have rd2: "readable env (r_options r2)" using fr2 assms(2) by (auto simp: send_frame_def intro: readable_same)
  from check_ranges_ok [OF frame_open [OF r2(2)] rd2 b2 l2 assms(5) [OF Some]] obtain r3 where
    r3: "check_ranges env ops request r2 = Some (True, r3)" "send_frame is_open r2 r3"
      "r_range_status r3 = PHP_HTTP_RANGE_OK \<and> \<not> r_done r3 \<longrightarrow> length (r_range_values r3) = 1" by blast
  with send_frame_trans [OF fr2 r3(2)] r2(1) show ?thesis
    by (simp add: send_ranges_def Some r1_def [symmetric])
qed

end

section \<open>Sending\<close>

text \<open>What a response that was sent stands for: nothing but its head, or its representation.\<close>

definition payload :: "('x, 'e) php_http_env_response \<Rightarrow> bytes" where
  "payload r = (if r_done r then [] else case get_body (r_options r) of None \<Rightarrow> [] | Some body \<Rightarrow> representation r body)"

text \<open>What sending needs of the environment and the options.\<close>

definition sendable :: "('h, 'e) response_env \<Rightarrow> response_options \<Rightarrow> bool" where
  "sendable env opts \<longleftrightarrow>
     plenty (re_realloc env) \<and> re_result env True \<noteq> - 1 \<and> readable env opts \<and> uncompressed env opts \<and>
     (\<forall>v. get_option ''throttleChunk'' opts = Some v \<longrightarrow> unat (word_of_int (oval_long env v) :: size_t) < 2 ^ 59) \<and>
     (\<forall>body. get_body opts = Some body \<longrightarrow> range_header_ok env (get_request opts) body)"

lemma throttle_fields:
  "r_ctx (throttle env r) = r_ctx r" "r_done (throttle env r) = r_done r" "r_options (throttle env r) = r_options r"
  "r_range_status (throttle env r) = r_range_status r" "r_range_values (throttle env r) = r_range_values r"
  "r_encoder (throttle env r) = r_encoder r" "r_buffer (throttle env r) = r_buffer r"
  by (auto simp: throttle_def Let_def split: option.splits)

lemma representation_frame: "representation (r\<lparr>r_ctx := x, r_buffer := b\<rparr>) body = representation r body"
  by (simp add: representation_def parts_text_def part_head_def cong: list.case_cong)

lemma payload_frame: "payload (r\<lparr>r_ctx := x\<rparr>) = payload r"
  using representation_frame [where r = r and x = x and b = "r_buffer r"] by (simp add: payload_def split: option.split)

context response_sink
begin

text \<open>A response with an open head is sent completely.\<close>

lemma send_ok:
  assumes r: "is_open (r_ctx r)" "\<not> r_done r" "r_range_status r \<noteq> PHP_HTTP_RANGE_OK" "r_encoder r = None" "r_chunk r = 0"
    "r_buffer r = Some b" "buf_inv b" "buf_str b = []" and ok: "sendable env (r_options r)"
  shows "\<exists>r' ps. php_http_env_response_send env ops r = Some (True, r') \<and> ended (r_ctx r') ps \<and> [] \<notin> set ps \<and>
     concat ps = payload r' \<and> same_options (r_options r) (r_options r') \<and>
     (\<exists>r1 r2. send_ranges env ops (get_request (r_options r)) r = Some (True, r1) \<and>
        php_http_env_response_send_head env ops (get_request (r_options r)) r1 = Some (True, r2) \<and>
        r_done r' = r_done r2 \<and> r_range_status r' = r_range_status r2 \<and> r_range_status r2 = r_range_status r1)"
proof -
  let ?req = "get_request (r_options r)"
  note S = ok [unfolded sendable_def]
  from send_ranges_ok [OF r(1) _ r(2,3), of env ?req] S obtain r1 where
    r1: "send_ranges env ops ?req r = Some (True, r1)" "send_frame is_open r r1"
      "r_range_status r1 = PHP_HTTP_RANGE_OK \<and> \<not> r_done r1 \<longrightarrow> length (r_range_values r1) = 1" by blast
  have same1: "same_options (r_options r) (r_options r1)" "is_open (r_ctx r1)" using r1(2) by (simp_all add: send_frame_def)
  have "readable env (r_options r1)" "uncompressed env (r_options r1)"
    using S same1(1) by (auto intro: readable_same uncompressed_same)
  from send_head_ok [OF same1(2) this] obtain r2 where
    r2: "php_http_env_response_send_head env ops ?req r1 = Some (True, r2)" "head_frame is_open r1 r2" by (auto simp: step_ok_def)
  have fr: "send_frame is_open r r2" by (rule send_frame_trans [OF r1(2) head_send_frame [OF r2(2)]])
  then have same2: "same_options (r_options r) (r_options r2)" "is_open (r_ctx r2)" "r_encoder r2 = None" "r_chunk r2 = 0" "r_buffer r2 = Some b"
    using r by (simp_all add: send_frame_def)
  have "\<exists>r3 ps. php_http_env_response_send_body env ops r2 = Some (True, r3) \<and> sent (r_ctx r3) ps \<and> [] \<notin> set ps \<and>
      concat ps = payload r3 \<and> r_options r3 = r_options r2 \<and> r_done r3 = r_done r2 \<and> r_range_status r3 = r_range_status r2"
  proof (cases "r_done r2 \<or> get_body (r_options r2) = None")
    case True
    then have "php_http_env_response_send_body env ops r2 = Some (True, r2)" "payload r2 = []"
      by (auto simp: php_http_env_response_send_body_def payload_def)
    with open_sent [OF same2(2)] show ?thesis by (intro exI [of _ r2] exI [of _ "[]"]) simp
  next
    case False
    then obtain body where body: "\<not> r_done r2" "get_body (r_options r2) = Some body" by blast
    define r0 where "r0 = throttle env r2"
    have "get_option ''throttleChunk'' (r_options r2) = get_option ''throttleChunk'' (r_options r)"
      using same2(1) by (simp add: same_options_get)
    then have "unat (chunk_of r0) < 2 ^ 59"
      using S same2(4) by (auto simp: r0_def chunk_of_def throttle_def Let_def PHP_HTTP_SENDBUF_SIZE_def split: option.splits)
    then have can: "can_send env r0" using S same2(3) by (simp add: can_send_def r0_def throttle_fields)
    have "\<not> r_done r1"
    proof
      assume "r_done r1"
      then have "r2 = r1" using r2(1) by (simp add: php_http_env_response_send_head_def)
      with body(1) \<open>r_done r1\<close> show False by simp
    qed
    then have small: "small_parts r0"
      using r1(3) r2(2) by (auto simp: small_parts_def r0_def throttle_fields head_frame_def)
    have "readable env (r_options r2)" using S same2(1) by (auto intro: readable_same)
    from send_body_ok [OF body same2(2,5) r(7,8) can [unfolded r0_def] this small [unfolded r0_def]] obtain r3 ps where
      r3: "php_http_env_response_send_body env ops r2 = Some (True, r3)" "sent (r_ctx r3) ps" "[] \<notin> set ps"
        "concat ps = representation r0 body" "r3 = r0\<lparr>r_ctx := r_ctx r3, r_buffer := None\<rparr>" unfolding r0_def by blast
    have keep: "r_options r3 = r_options r2" "r_done r3 = r_done r2" "r_range_status r3 = r_range_status r2"
      by (subst r3(5), simp add: r0_def throttle_fields)+
    have "representation r3 body = representation r0 body"
      by (subst r3(5)) (rule representation_frame)
    with r3(1-4) keep body show ?thesis by (auto simp: payload_def)
  qed
  then obtain r3 ps where r3: "php_http_env_response_send_body env ops r2 = Some (True, r3)" "sent (r_ctx r3) ps" "[] \<notin> set ps"
      "concat ps = payload r3" "r_options r3 = r_options r2" "r_done r3 = r_done r2" "r_range_status r3 = r_range_status r2" by blast
  from finish_sent [OF r3(2)] obtain x' where x': "ro_finish ops (r_ctx r3) = (True, x')" "ended x' ps" by blast
  then have "php_http_env_response_send env ops r = Some (True, r3\<lparr>r_ctx := x'\<rparr>)"
    using r1(1) r2(1) r3(1) by (simp add: php_http_env_response_send_def and_then_def ctx_op_def)
  moreover have "payload (r3\<lparr>r_ctx := x'\<rparr>) = payload r3" by (rule payload_frame)
  moreover have "r_range_status r2 = r_range_status r1" using r2(2) by (simp add: head_frame_def)
  ultimately show ?thesis using x'(2) r3(3-7) same2(1) r1(1) r2(1)
    by (intro exI [of _ "r3\<lparr>r_ctx := x'\<rparr>"] exI [of _ ps]) simp
qed

end

section \<open>Unconditional requests\<close>

text \<open>Only a condition of the request ends a response after its head.\<close>

definition unconditional :: "php_http_message \<Rightarrow> bool" where
  "unconditional m \<longleftrightarrow>
     (\<forall>name\<in>{''Range'', ''If-None-Match'', ''If-Modified-Since''}. zend_hash_find (msg_hdrs m) (KStr name) = None)"

lemma unconditional_header:
  assumes "unconditional m"
  shows "php_http_env_get_request_header host ''Range'' (Some m) g = (None, g)"
    "php_http_env_get_request_header host ''If-None-Match'' (Some m) g = (None, g)"
    "php_http_env_get_request_header host ''If-Modified-Since'' (Some m) g = (None, g)"
proof -
  have "symtable_key (php_http_pretty_key ''Range'' True True) = KStr ''Range''"
    "symtable_key (php_http_pretty_key ''If-None-Match'' True True) = KStr ''If-None-Match''"
    "symtable_key (php_http_pretty_key ''If-Modified-Since'' True True) = KStr ''If-Modified-Since''" by code_simp+
  with assms show "php_http_env_get_request_header host ''Range'' (Some m) g = (None, g)"
    "php_http_env_get_request_header host ''If-None-Match'' (Some m) g = (None, g)"
    "php_http_env_get_request_header host ''If-Modified-Since'' (Some m) g = (None, g)"
    by (simp_all add: unconditional_def php_http_env_get_request_header_def request_table_def)
qed

definition keeps_done :: "('x, 'e) head_step \<Rightarrow> bool" where
  "keeps_done f \<longleftrightarrow> (\<forall>r ok r'. f r = Some (ok, r') \<longrightarrow> r_done r' = r_done r)"

lemma keeps_done_then: "keeps_done a \<Longrightarrow> keeps_done b \<Longrightarrow> keeps_done (and_then a b)"
  unfolding keeps_done_def and_then_def by (fastforce split: option.splits bool.splits)

lemma ctx_op_done [simp]: "r_done (snd (ctx_op f r)) = r_done r"
  by (simp add: ctx_op_def split: prod.split)

lemma ctx_op_doneD: "ctx_op f r = (ok, r') \<Longrightarrow> r_done r' = r_done r"
  using ctx_op_done [of f r] by simp

lemma fold_done: "r_done (fold (\<lambda>l r. snd (ctx_op (f l) r)) ls r) = r_done r"
  by (induction ls arbitrary: r) simp_all

lemma send_cookies_done: "send_cookies env ops vs r = Some (ok, r') \<Longrightarrow> r_done r' = r_done r"
  by (induction env ops vs r rule: send_cookies.induct) (auto dest: ctx_op_doneD split: prod.splits bool.splits)

lemma start_encoder_done: "start_encoder env ops key type r = (ok, r') \<Longrightarrow> r_done r' = r_done r"
  by (auto simp: start_encoder_def dest: ctx_op_doneD split: option.splits prod.splits bool.splits)

lemma head_steps_done:
  "keeps_done (head_headers ops)" "keeps_done (head_status env ops)" "keeps_done (head_version env ops)"
  "keeps_done (head_cookies env ops)" "keeps_done (head_content_type env ops)" "keeps_done (head_range env ops)"
  "keeps_done (head_cache_control env ops)" "keeps_done (head_disposition env ops)"
  by (auto simp: keeps_done_def head_headers_def head_status_def head_version_def head_cookies_def head_content_type_def
      head_range_def head_cache_control_def head_disposition_def Let_def fold_done
      dest!: ctx_op_doneD send_cookies_done split: option.splits oval.splits zval.splits if_splits prod.splits bool.splits list.splits)

lemma head_encoding_done: "keeps_done (head_encoding env ops request)"
  by (auto simp: keeps_done_def head_encoding_def Let_def dest!: ctx_op_doneD start_encoder_done
      split: option.splits if_splits prod.splits list.splits)

lemma no_tag_no_hit:
  assumes "unconditional m"
    "php_http_env_is_response_cached_by_etag env opts ''If-None-Match'' (Some m) g = Some (st, opts', g')"
  shows "st = PHP_HTTP_CACHE_NO"
  using assms(2)
  by (auto simp: php_http_env_is_response_cached_by_etag_def unconditional_header [OF assms(1)] Let_def
      split: option.splits if_splits bind_splits)

lemma cache_no_hit:
  assumes "unconditional m" "cache_hit env (Some m) r = Some (hit, r')"
  shows "\<not> hit \<and> r_done r' = r_done r"
proof -
  obtain st opts g where e: "php_http_env_is_response_cached_by_etag env (r_options r) ''If-None-Match'' (Some m) (r_globals r) =
      Some (st, opts, g)" using assms(2) by (auto simp: cache_hit_def split: option.splits)
  with no_tag_no_hit [OF assms(1) e] assms(2) show ?thesis
    by (auto simp: cache_hit_def php_http_env_is_response_cached_by_last_modified_def unconditional_header [OF assms(1)] Let_def
        split: option.splits if_splits)
qed

lemma caching_headers_done: "caching_headers env ops False r = (ok, r') \<Longrightarrow> r_done r' = r_done r"
  by (auto simp: caching_headers_def head_etag_def head_last_modified_def Let_def dest!: ctx_op_doneD
      split: option.splits if_splits prod.splits)

lemma cacheable_done: "php_http_env_response_is_cacheable env ops request r = (b, r') \<Longrightarrow> r_done r' = r_done r"
  by (auto simp: php_http_env_response_is_cacheable_def Let_def split: if_splits prod.splits)

lemma head_caching_done:
  assumes "unconditional m"
  shows "keeps_done (head_caching env ops (Some m))"
  unfolding keeps_done_def
proof (intro allI impI)
  fix r ok r'
  assume r': "head_caching env ops (Some m) r = Some (ok, r')"
  obtain b r0 where c: "php_http_env_response_is_cacheable env ops (Some m) r = (b, r0)" by fastforce
  show "r_done r' = r_done r"
  proof (cases b)
    case False
    with r' cacheable_done [OF c] show ?thesis by (simp add: head_caching_def c)
  next
    case True
    then obtain hit r1 where h: "cache_hit env (Some m) r0 = Some (hit, r1)" "caching_headers env ops hit r1 = (ok, r')"
      using r' by (auto simp: head_caching_def c)
    with cache_no_hit [OF assms h(1)] caching_headers_done cacheable_done [OF c] show ?thesis by fastforce
  qed
qed

lemma keeps_done_if: "keeps_done a \<Longrightarrow> keeps_done b \<Longrightarrow> keeps_done (\<lambda>r. if P r then a r else b r)"
  by (simp add: keeps_done_def)

lemma send_head_done:
  assumes "unconditional m"
  shows "keeps_done (php_http_env_response_send_head env ops (Some m))"
proof -
  have "keeps_done (and_then (head_headers ops) (and_then (head_status env ops) (and_then (head_version env ops)
        (and_then (head_cookies env ops) (and_then (head_content_type env ops)
          (\<lambda>r. if r_range_status r = PHP_HTTP_RANGE_OK then head_range env ops r
               else and_then (head_cache_control env ops) (and_then (head_disposition env ops)
                      (and_then (head_encoding env ops (Some m)) (head_caching env ops (Some m)))) r))))))"
    by (intro keeps_done_then keeps_done_if head_steps_done head_encoding_done head_caching_done assms)
  then show ?thesis by (auto simp: keeps_done_def php_http_env_response_send_head_def)
qed

lemma send_ranges_done:
  assumes "unconditional m" "r_range_status r \<noteq> PHP_HTTP_RANGE_OK" "send_ranges env ops (Some m) r = Some (ok, r')"
  shows "r_done r' = r_done r \<and> (ok \<longrightarrow> r_range_status r' \<noteq> PHP_HTTP_RANGE_OK)"
  using assms(2,3)
  by (auto simp: send_ranges_def check_ranges_def env_request_ranges_def unconditional_header [OF assms(1)]
      php_http_env_get_request_ranges_def Let_def dest!: ctx_op_doneD split: option.splits prod.splits bool.splits)

end
