(* ===== verification/Http_Env_Final.thy ===== *)
theory Http_Env_Final
  imports Http_Env_Theorems Http_Env_Stream Http_Cookie_Roundtrip Http_Negotiate_Laws
begin

text \<open>
  The operations for streams as an instance of the interface of sending, on every host whose stream takes
  what it is given, and what follows for the text that reaches the stream.
\<close>

section \<open>Streams as sinks\<close>

text \<open>A stream that takes all data: \<open>out\<close> is the text it got.\<close>

definition accepts :: "'o stream_host \<Rightarrow> ('o \<Rightarrow> bytes) \<Rightarrow> bool" where
  "accepts sh out \<longleftrightarrow> sh_filter sh \<and> (\<forall>s. \<not> sh_eof sh s) \<and> (\<forall>s. out (snd (sh_flush sh s)) = out s) \<and>
     (\<forall>d s. d \<noteq> [] \<longrightarrow> fst (sh_write sh d s) = int (length d) \<and> out (snd (sh_write sh d s)) = out s @ d)"

text \<open>The head that is or will be written, with its coding; and the text of pieces in that coding, without its end.\<close>

definition head_of :: "'o php_http_env_response_stream_ctx \<Rightarrow> bool \<times> bytes" where
  "head_of ctx = stream_head (ctx\<lparr>sc_chunked := True\<rparr>)"

definition coded :: "bool \<Rightarrow> bytes list \<Rightarrow> bytes" where
  "coded chunked ps = (if chunked then concat (map (\<lambda>p. concat (http_filter_chunked_encode False [p])) ps) else concat ps)"

definition stream_open ::
  "'o stream_host \<Rightarrow> ('o \<Rightarrow> bytes) \<Rightarrow> bytes \<Rightarrow> 'o php_http_env_response_stream_ctx \<Rightarrow> bool" where
  "stream_open sh out pre ctx \<longleftrightarrow>
     accepts sh out \<and> \<not> closed_head ctx \<and> sc_filters ctx = 0 \<and> \<not> sc_chunked_filter ctx \<and> sc_chunked ctx \<and> out (sc_stream ctx) = pre"

definition stream_started ::
  "'o stream_host \<Rightarrow> ('o \<Rightarrow> bytes) \<Rightarrow> bytes \<Rightarrow> 'o php_http_env_response_stream_ctx \<Rightarrow> bytes list \<Rightarrow> bool" where
  "stream_started sh out pre ctx ps \<longleftrightarrow>
     accepts sh out \<and> sc_started ctx \<and> \<not> sc_finished ctx \<and> sc_chunked ctx = fst (head_of ctx) \<and>
     sc_chunked_filter ctx = fst (head_of ctx) \<and> sc_filters ctx = (if fst (head_of ctx) then 1 else 0) \<and>
     out (sc_stream ctx) = pre @ snd (head_of ctx) @ coded (fst (head_of ctx)) ps"

definition stream_sent ::
  "'o stream_host \<Rightarrow> ('o \<Rightarrow> bytes) \<Rightarrow> bytes \<Rightarrow> 'o php_http_env_response_stream_ctx \<Rightarrow> bytes list \<Rightarrow> bool" where
  "stream_sent sh out pre ctx ps \<longleftrightarrow> stream_open sh out pre ctx \<and> ps = [] \<or> stream_started sh out pre ctx ps"

definition stream_ended ::
  "'o stream_host \<Rightarrow> ('o \<Rightarrow> bytes) \<Rightarrow> bytes \<Rightarrow> 'o php_http_env_response_stream_ctx \<Rightarrow> bytes list \<Rightarrow> bool" where
  "stream_ended sh out pre ctx ps \<longleftrightarrow>
     sc_finished ctx \<and>
     out (sc_stream ctx) = pre @ snd (head_of ctx) @ (if fst (head_of ctx) then chunk_coding ps else concat ps)"

lemma head_of_frame [simp]:
  "head_of (ctx\<lparr>sc_stream := s\<rparr>) = head_of ctx" "head_of (ctx\<lparr>sc_started := b\<rparr>) = head_of ctx"
  "head_of (ctx\<lparr>sc_filters := n\<rparr>) = head_of ctx" "head_of (ctx\<lparr>sc_chunked_filter := b\<rparr>) = head_of ctx"
  "head_of (ctx\<lparr>sc_chunked := b\<rparr>) = head_of ctx" "head_of (ctx\<lparr>sc_finished := b\<rparr>) = head_of ctx"
  by (simp_all add: head_of_def stream_head_def chunked_allowed_def cong: option.case_cong)

lemma head_not_empty: "snd (stream_head ctx) \<noteq> []"
  by (auto simp: stream_head_def Let_def split: prod.splits)

lemma stream_write_takes:
  assumes "accepts sh out" "d \<noteq> []" "n \<le> 1"
  shows "\<exists>s'. php_stream_write sh n d s = (int (length d), s') \<and> out s' = out s @ coded (n = 1) [d]"
proof -
  have w: "\<exists>s'. sh_write sh e s = (int (length e), s') \<and> out s' = out s @ e" if "e \<noteq> []" for e
    using assms(1) that by (metis accepts_def prod.collapse)
  have eof: "\<not> sh_eof sh s" using assms(1) by (simp add: accepts_def)
  show ?thesis
  proof (cases "n = 1")
    case True
    let ?c = "hex (length d) @ [CR, LF] @ d @ [CR, LF]"
    obtain s' where "sh_write sh ?c s = (int (length ?c), s')" "out s' = out s @ ?c" using w [of ?c] by auto
    then show ?thesis
      using True assms(2) eof by (simp add: php_stream_write_def http_filter_chunked_encode_def coded_def)
  next
    case False
    then have "n = 0" using assms(3) by simp
    with w [OF assms(2)] assms(2) show ?thesis by (auto simp: php_stream_write_def coded_def)
  qed
qed

lemma stream_flush_keeps: "accepts sh out \<Longrightarrow> n \<le> 1 \<Longrightarrow> out (snd (php_stream_flush sh n s)) = out s"
  by (cases "n = 0") (auto simp: php_stream_flush_def accepts_def http_filter_chunked_encode_def le_Suc_eq)

text \<open>Starting writes the head and puts the filter on the stream.\<close>

lemma start_open:
  assumes "stream_open sh out pre ctx"
  shows "\<exists>ctx'. php_http_env_response_stream_start sh ctx = (True, ctx') \<and> stream_started sh out pre ctx' []"
proof -
  have acc: "accepts sh out" and c: "\<not> closed_head ctx" "sc_filters ctx = 0" "sc_chunked ctx" "out (sc_stream ctx) = pre"
      "\<not> sc_chunked_filter ctx"
    using assms by (simp_all add: stream_open_def)
  have hd: "head_of ctx = stream_head ctx" using c(3) by (cases ctx) (simp add: head_of_def)
  obtain ch buf where h: "stream_head ctx = (ch, buf)" "buf \<noteq> []" using head_not_empty [of ctx] by (cases "stream_head ctx") auto
  obtain s1 where s1: "php_stream_write sh 0 buf (sc_stream ctx) = (int (length buf), s1)" "out s1 = pre @ buf"
    using stream_write_takes [OF acc h(2), of 0 "sc_stream ctx"] c(4) by (auto simp: coded_def)
  obtain ok s2 where s2: "php_stream_flush sh 0 s1 = (ok, s2)" by force
  then have "out s2 = pre @ buf" using stream_flush_keeps [OF acc, of 0 s1] s1(2) by simp
  with acc c hd h s1(1) s2 show ?thesis
    by (auto simp: php_http_env_response_stream_start_def stream_started_def Let_def coded_def accepts_def)
qed

lemma start_sent:
  assumes "stream_sent sh out pre ctx ps"
  shows "\<not> sc_finished ctx \<and> (\<exists>ctx'. start_if_needed sh ctx = (True, ctx') \<and> stream_started sh out pre ctx' ps)"
proof (cases "sc_started ctx")
  case True
  with assms show ?thesis by (auto simp: stream_sent_def start_if_needed_def stream_open_def stream_started_def)
next
  case False
  then have "stream_open sh out pre ctx" "ps = []" using assms by (auto simp: stream_sent_def stream_started_def)
  with start_open False show ?thesis by (fastforce simp: start_if_needed_def stream_open_def)
qed

lemma coded_snoc: "coded c (ps @ [p]) = coded c ps @ coded c [p]"
  by (simp add: coded_def)

lemma stream_write_sent:
  assumes "stream_sent sh out pre ctx ps" "p \<noteq> []"
  shows "\<exists>ctx'. php_http_env_response_stream_write sh p ctx = (True, ctx') \<and> stream_sent sh out pre ctx' (ps @ [p])"
proof -
  obtain c1 where c1: "start_if_needed sh ctx = (True, c1)" "stream_started sh out pre c1 ps" "\<not> sc_finished ctx"
    using start_sent [OF assms(1)] by blast
  have acc: "accepts sh out" and n: "sc_filters c1 \<le> 1" "sc_filters c1 = 1 \<longleftrightarrow> fst (head_of c1)"
    using c1(2) by (auto simp: stream_started_def)
  obtain s' where s': "php_stream_write sh (sc_filters c1) p (sc_stream c1) = (int (length p), s')"
      "out s' = out (sc_stream c1) @ coded (fst (head_of c1)) [p]"
    using stream_write_takes [OF acc assms(2) n(1)] n(2) by auto
  then have "php_http_env_response_stream_write sh p ctx = (True, c1\<lparr>sc_stream := s'\<rparr>)"
    using c1 by (simp add: php_http_env_response_stream_write_def)
  moreover have "stream_started sh out pre (c1\<lparr>sc_stream := s'\<rparr>) (ps @ [p])"
    using c1(2) s'(2) coded_snoc [of _ ps p] by (simp add: stream_started_def)
  ultimately show ?thesis by (auto simp: stream_sent_def)
qed

lemma stream_flush_sent:
  assumes "stream_sent sh out pre ctx ps"
  shows "stream_sent sh out pre (snd (php_http_env_response_stream_flush sh ctx)) ps"
proof -
  obtain c1 where c1: "start_if_needed sh ctx = (True, c1)" "stream_started sh out pre c1 ps" "\<not> sc_finished ctx"
    using start_sent [OF assms] by blast
  obtain ok s' where s': "php_stream_flush sh (sc_filters c1) (sc_stream c1) = (ok, s')" by force
  have "out s' = out (sc_stream c1)"
    using stream_flush_keeps [of sh out "sc_filters c1" "sc_stream c1"] s' c1(2) by (simp add: stream_started_def)
  with c1 s' show ?thesis
    by (simp add: php_http_env_response_stream_flush_def stream_sent_def stream_started_def)
qed

lemma coded_end: "coded True ps @ concat (http_filter_chunked_encode True []) = chunk_coding ps"
  using encode_filter_parts [of ps] by (simp add: coded_def)

lemma stream_finish_sent:
  assumes "stream_sent sh out pre ctx ps"
  shows "\<exists>ctx'. php_http_env_response_stream_finish sh ctx = (True, ctx') \<and> stream_ended sh out pre ctx' ps"
proof -
  obtain c1 where c1: "start_if_needed sh ctx = (True, c1)" "stream_started sh out pre c1 ps" "\<not> sc_finished ctx"
    using start_sent [OF assms] by blast
  obtain ok s1 where s1: "php_stream_flush sh (sc_filters c1) (sc_stream c1) = (ok, s1)" by force
  have acc: "accepts sh out" using c1(2) by (simp add: stream_started_def)
  have out1: "out s1 = pre @ snd (head_of c1) @ coded (fst (head_of c1)) ps"
    using stream_flush_keeps [of sh out "sc_filters c1" "sc_stream c1"] s1 c1(2) by (simp add: stream_started_def)
  have e: "http_filter_chunked_encode True [] = [''0'' @ [CR, LF, CR, LF]]" by (simp add: http_filter_chunked_encode_def)
  obtain s2 where s2: "sh_write sh (''0'' @ [CR, LF, CR, LF]) s1 = (5, s2)" "out s2 = out s1 @ ''0'' @ [CR, LF, CR, LF]"
    using stream_write_takes [OF acc, of "''0'' @ [CR, LF, CR, LF]" 0 s1] by (auto simp: php_stream_write_def coded_def)
  show ?thesis
  proof (cases "fst (head_of c1)")
    case True
    then have "sc_chunked c1" "sc_chunked_filter c1" using c1(2) by (simp_all add: stream_started_def)
    with c1 s1 s2 e out1 True coded_end [of ps] show ?thesis
      by (simp add: php_http_env_response_stream_finish_def stream_ended_def Let_def)
  next
    case False
    then have "\<not> sc_chunked c1" using c1(2) by (simp add: stream_started_def)
    with c1 s1 out1 False show ?thesis
      by (simp add: php_http_env_response_stream_finish_def stream_ended_def Let_def coded_def)
  qed
qed

lemmas stream_ops_defs = php_http_env_response_stream_ops_def php_http_env_response_stream_set_status_def
  php_http_env_response_stream_set_protocol_version_def php_http_env_response_stream_set_header_def
  php_http_env_response_stream_add_header_def php_http_env_response_stream_set_header_ex_def
  php_http_env_response_stream_del_header_def

interpretation stream_sink: response_sink "php_http_env_response_stream_ops sh" "stream_open sh out pre"
    "stream_sent sh out pre" "stream_ended sh out pre" for sh :: "'o stream_host" and out pre
proof (unfold_locales, goal_cases)
  case (8 x ps p)
  then show ?case using stream_write_sent by (simp add: php_http_env_response_stream_ops_def)
next
  case (9 x ps)
  then show ?case using stream_flush_sent by (simp add: php_http_env_response_stream_ops_def)
next
  case (10 x ps)
  then show ?case using stream_finish_sent by (simp add: php_http_env_response_stream_ops_def)
qed (auto simp: stream_ops_defs stream_open_def stream_sent_def Let_def split: option.splits)

section \<open>Results\<close>

text \<open>A response to a stream that takes all data, before it is sent.\<close>

lemma response_send_works:
  assumes "accepts sh out" "sendable env options"
  shows "\<exists>r ps r1 r2. response_send env sh stream options g = Some (True, r) \<and>
     stream_ended sh out (out stream) (r_ctx r) ps \<and> [] \<notin> set ps \<and> concat ps = payload r \<and> same_options options (r_options r) \<and>
     (\<exists>r0. \<not> r_done r0 \<and> r_range_status r0 \<noteq> PHP_HTTP_RANGE_OK \<and>
        send_ranges env (php_http_env_response_stream_ops sh) (get_request options) r0 = Some (True, r1)) \<and>
     php_http_env_response_send_head env (php_http_env_response_stream_ops sh) (get_request options) r1 = Some (True, r2) \<and>
     r_done r = r_done r2 \<and> r_range_status r = r_range_status r2 \<and> r_range_status r2 = r_range_status r1"
proof -
  define r0 :: "('a php_http_env_response_stream_ctx, 'c) php_http_env_response" where "r0 =
    \<lparr>r_ctx = php_http_env_response_stream_init stream options, r_globals = g,
     r_buffer = Some (php_http_buffer_init (re_realloc env)), r_options = options, r_chunk = 0, r_delay = 0,
     r_range_status = PHP_HTTP_RANGE_NO, r_range_values = [], r_range_boundary = [], r_length = 0, r_type = None,
     r_encoding = None, r_encoder = None, r_done = False\<rparr>"
  have init: "response_send env sh stream options g = php_http_env_response_send env (php_http_env_response_stream_ops sh) r0"
    by (simp add: response_send_def php_http_env_response_init_def r0_def)
  have op: "stream_open sh out (out stream) (r_ctx r0)"
    using assms(1) by (simp add: r0_def stream_open_def php_http_env_response_stream_init_def Let_def)
  have "\<exists>r ps. php_http_env_response_send env (php_http_env_response_stream_ops sh) r0 = Some (True, r) \<and>
      stream_ended sh out (out stream) (r_ctx r) ps \<and> [] \<notin> set ps \<and> concat ps = payload r \<and> same_options (r_options r0) (r_options r) \<and>
     (\<exists>r1 r2. send_ranges env (php_http_env_response_stream_ops sh) (get_request (r_options r0)) r0 = Some (True, r1) \<and>
        php_http_env_response_send_head env (php_http_env_response_stream_ops sh) (get_request (r_options r0)) r1 = Some (True, r2) \<and>
        r_done r = r_done r2 \<and> r_range_status r = r_range_status r2 \<and> r_range_status r2 = r_range_status r1)"
    by (rule stream_sink.send_ok [OF op, where b = "php_http_buffer_init (re_realloc env)"])
      (use assms(2) in \<open>simp_all add: r0_def buf_inv_init\<close>)
  moreover have "r_options r0 = options" "\<not> r_done r0" "r_range_status r0 \<noteq> PHP_HTTP_RANGE_OK" by (simp_all add: r0_def)
  ultimately show ?thesis unfolding init by metis
qed



section \<open>A sample host\<close>

text \<open>A stream that is a byte string, an environment with memory for everything, and the request of a range.\<close>

definition sample_stream_host :: "bytes stream_host" where
  "sample_stream_host =
     \<lparr>sh_write = (\<lambda>d s. (int (length d), s @ d)), sh_flush = (\<lambda>s. (True, s)), sh_eof = (\<lambda>_. False), sh_filter = True\<rparr>"

definition sample_response_env :: "(nat, unit) response_env" where
  "sample_response_env =
     \<lparr>re_host = \<lparr>host_server = None, host_input = [], host_method = None\<rparr>, re_string = (\<lambda>_. []), re_long = (\<lambda>_. 0),
      re_str_long = (\<lambda>s. int (digits_val 10 s)), re_double = (\<lambda>_. 0), re_hash_ops = (\<lambda>_. Some sample_hash),
      re_etag_mode = ''sum'', re_file = (\<lambda>_. None), re_mtime = (\<lambda>_. 86400), re_eof = (\<lambda>b p. length (body_data b) \<le> p),
      re_parse_date = (\<lambda>s. int (digits_val 10 s)), re_format_date = print_long, re_cookie = sample_cookie_env,
      re_negotiate = sample_negotiate_env, re_boundary = ''x'', re_realloc = zend_mm (2 ^ 64),
      re_deflate = \<lparr>op_init = (\<lambda>_. None), op_copy = None, op_update = None, op_flush = None, op_done = None, op_finish = None, op_dtor = None\<rparr>,
      re_result = (\<lambda>ok. if ok then 0 else - 1)\<rparr>"

definition sample_body :: php_http_message_body where
  "sample_body = \<lparr>body_data = ''hello'', body_boundary = None, body_filtered = False\<rparr>"

definition sample_get :: "hashtable \<Rightarrow> php_http_message" where
  "sample_get hdrs =
     \<lparr>msg_info = \<lparr>info_type = PHP_HTTP_REQUEST, info_version = \<lparr>ver_major = 1, ver_minor = 1\<rparr>, info_data = InfoRequest (Some ''GET'') None\<rparr>,
      msg_hdrs = hdrs, msg_body = php_http_message_body_init\<rparr>"

definition sample_response_options :: "hashtable \<Rightarrow> response_options" where
  "sample_response_options hdrs = OptArray 0 [(KStr ''request'', OMsg (sample_get hdrs)), (KStr ''body'', OBody sample_body)]"

definition sample_env_globals :: env_globals where
  "sample_env_globals = \<lparr>env_headers = None, env_body = None, env_server_var = None\<rparr>"

lemma sample_accepts: "accepts sample_stream_host id"
  by (simp add: accepts_def sample_stream_host_def)

lemma sample_options_get:
  "get_body (sample_response_options hdrs) = Some sample_body" "get_request (sample_response_options hdrs) = Some (sample_get hdrs)"
  "get_option ''throttleChunk'' (sample_response_options hdrs) = None" "get_option ''contentEncoding'' (sample_response_options hdrs) = None"
proof -
  have k: "symtable_key ''request'' = KStr ''request''" "symtable_key ''body'' = KStr ''body''"
    "symtable_key ''throttleChunk'' = KStr ''throttleChunk''" "symtable_key ''contentEncoding'' = KStr ''contentEncoding''" by code_simp+
  show "get_body (sample_response_options hdrs) = Some sample_body" "get_request (sample_response_options hdrs) = Some (sample_get hdrs)"
    "get_option ''throttleChunk'' (sample_response_options hdrs) = None" "get_option ''contentEncoding'' (sample_response_options hdrs) = None"
    by (simp_all add: get_body_def get_request_def get_option_def sample_response_options_def k)
qed

lemma sample_sendable:
  assumes "\<And>g. fst (env_request_ranges (re_host sample_response_env) 5 (Some (sample_get hdrs)) g) = Some (st, vs)"
    "st = PHP_HTTP_RANGE_OK \<Longrightarrow> length vs = 1"
  shows "sendable sample_response_env (sample_response_options hdrs)"
proof -
  have "plenty (zend_mm (2 ^ 64))"
    unfolding plenty_def using zmm.allocator_axioms by (auto simp: zend_mm_def)
  moreover have "php_http_message_body_size sample_body = 5"
    by (simp add: php_http_message_body_size_def sample_body_def)
  ultimately show ?thesis
    using assms
    by (auto simp: sendable_def readable_def uncompressed_def sample_options_get range_header_ok_def)
      (simp_all add: sample_response_env_def sample_body_def)
qed

definition sample_range :: hashtable where "sample_range = (0, [(KStr ''Range'', ZStr ''bytes=1-3'')])"


lemma sample_unconditional: "unconditional (sample_get zend_hash_init)"
  by (simp add: unconditional_def sample_get_def zend_hash_init_def zend_hash_find_def)

lemma sample_unconditional_sendable: "sendable sample_response_env (sample_response_options zend_hash_init)"
proof -
  have "fst (env_request_ranges (re_host sample_response_env) 5 (Some (sample_get zend_hash_init)) g) = Some (PHP_HTTP_RANGE_NO, [])" for g
    by (simp add: env_request_ranges_def unconditional_header [OF sample_unconditional] php_http_env_get_request_ranges_def)
  then show ?thesis by (intro sample_sendable [where st = PHP_HTTP_RANGE_NO and vs = "[]"]) simp_all
qed


section \<open>Responses in full\<close>

definition sent_text :: "hashtable \<Rightarrow> (bool \<times> bytes) option" where
  "sent_text hdrs =
     map_option (\<lambda>(ok, r). (ok, sc_stream (r_ctx r)))
       (response_send sample_response_env sample_stream_host [] (sample_response_options hdrs) sample_env_globals)"

definition sample_head :: "bytes \<Rightarrow> bytes list \<Rightarrow> bytes" where
  "sample_head status ls = concat (map (\<lambda>l. l @ [CR, LF]) ((''HTTP/1.1 '' @ status) # ''Accept-Ranges: bytes'' # ls @ [''Transfer-Encoding: chunked'', []]))"

lemma range_in_full:
  "sent_text sample_range =
   Some (True, sample_head ''206 Partial Content'' [''Content-Range: bytes 1-3/5''] @ chunk_coding [''ell''])"
  by code_simp

text \<open>A response that is not modified has a body: the end of the chunked coding.\<close>

lemma not_modified_with_body:
  "sent_text (0, [(KStr ''If-None-Match'', ZStr ''14'')]) =
   Some (True, sample_head ''304 Not Modified'' [''ETag: '' @ CHR 0x22 # ''14'' @ [CHR 0x22]] @ chunk_coding [])"
  by code_simp

text \<open>A condition on the range that holds: the tag is the one of the body, and yet the whole body is sent.\<close>

lemma if_range_not_honoured:
  "sent_text (0, [(KStr ''Range'', ZStr ''bytes=1-3''), (KStr ''If-Range'', ZStr ''14'')]) =
   Some (True, sample_head ''200 OK'' [''ETag: '' @ CHR 0x22 # ''14'' @ [CHR 0x22], ''Last-Modified: 86400''] @ chunk_coding [''hello''])"
  by code_simp

text \<open>The tag is looked for as a word of the condition: a longer tag around it hits.\<close>

lemma tag_in_longer_tag:
  "sent_text (0, [(KStr ''If-None-Match'', ZStr (CHR 0x22 # ''14-2'' @ [CHR 0x22]))]) =
   Some (True, sample_head ''304 Not Modified'' [''ETag: '' @ CHR 0x22 # ''14'' @ [CHR 0x22]] @ chunk_coding [])"
  by code_simp

end
