(* ===== verification/Http_Env_Sapi.thy ===== *)
theory Http_Env_Sapi
  imports Http_Env_Final
begin

text \<open>
  Responses that are written to the server: \<open>php_http_env_response_sapi_ops\<close> of
  \<open>php_http_env_response.c\<close>. The server interface of the host is a record of functions on a state, and a second
  instance of the interface of sending, for servers that accept headers and take what is written.
\<close>

section \<open>Operations\<close>

record 's server_host =
  sv_header_op :: "'s sapi_header_op"
  sv_response_code :: "'s \<Rightarrow> int"
  sv_write :: "bytes \<Rightarrow> 's \<Rightarrow> int \<times> 's"
  sv_output_level :: "'s \<Rightarrow> nat"
  sv_output_flush_all :: "'s \<Rightarrow> 's"
  sv_implicit_flush :: "'s \<Rightarrow> bool"
  sv_flush :: "'s \<Rightarrow> 's"

definition php_http_env_response_sapi_get_status :: "'s server_host \<Rightarrow> 's \<Rightarrow> int" where
  "php_http_env_response_sapi_get_status sv s = php_http_env_get_response_code (sv_response_code sv s)"

definition php_http_env_response_sapi_set_status :: "'s server_host \<Rightarrow> int \<Rightarrow> 's \<Rightarrow> bool \<times> 's" where
  "php_http_env_response_sapi_set_status sv http_code s = php_http_env_set_response_code (sv_header_op sv) http_code s"

definition php_http_env_response_sapi_set_protocol_version :: "'s server_host \<Rightarrow> php_http_version \<Rightarrow> 's \<Rightarrow> bool \<times> 's" where
  "php_http_env_response_sapi_set_protocol_version sv v s =
     php_http_env_set_response_protocol_version (sv_header_op sv) (sv_response_code sv s) v s"

definition php_http_env_response_sapi_set_header :: "'s server_host \<Rightarrow> bytes \<Rightarrow> 's \<Rightarrow> bool \<times> 's" where
  "php_http_env_response_sapi_set_header sv line s = php_http_env_set_response_header_va (sv_header_op sv) 0 True line s"

definition php_http_env_response_sapi_add_header :: "'s server_host \<Rightarrow> bytes \<Rightarrow> 's \<Rightarrow> bool \<times> 's" where
  "php_http_env_response_sapi_add_header sv line s = php_http_env_set_response_header_va (sv_header_op sv) 0 False line s"

definition php_http_env_response_sapi_del_header :: "'s server_host \<Rightarrow> bytes \<Rightarrow> 's \<Rightarrow> bool \<times> 's" where
  "php_http_env_response_sapi_del_header sv header_str s = env_set_response_header_opt (sv_header_op sv) 0 header_str None True s"

text \<open>A write counts as done when some bytes were taken.\<close>

definition php_http_env_response_sapi_write :: "'s server_host \<Rightarrow> bytes \<Rightarrow> 's \<Rightarrow> bool \<times> 's" where
  "php_http_env_response_sapi_write sv dat s = (let (n, s) = sv_write sv dat s in (0 < n, s))"

definition php_http_env_response_sapi_flush :: "'s server_host \<Rightarrow> 's \<Rightarrow> bool \<times> 's" where
  "php_http_env_response_sapi_flush sv s =
     (let s = (if sv_output_level sv s \<noteq> 0 then sv_output_flush_all sv s else s);
          s = (if \<not> sv_implicit_flush sv s then sv_flush sv s else s)
      in (True, s))"

definition php_http_env_response_sapi_finish :: "'s \<Rightarrow> bool \<times> 's" where
  "php_http_env_response_sapi_finish s = (True, s)"

definition php_http_env_response_sapi_ops :: "'s server_host \<Rightarrow> 's response_ops" where
  "php_http_env_response_sapi_ops sv =
     \<lparr>ro_get_status = php_http_env_response_sapi_get_status sv,
      ro_set_status = php_http_env_response_sapi_set_status sv,
      ro_set_protocol_version = php_http_env_response_sapi_set_protocol_version sv,
      ro_set_header = php_http_env_response_sapi_set_header sv,
      ro_add_header = php_http_env_response_sapi_add_header sv,
      ro_del_header = php_http_env_response_sapi_del_header sv,
      ro_write = php_http_env_response_sapi_write sv,
      ro_flush = php_http_env_response_sapi_flush sv,
      ro_finish = php_http_env_response_sapi_finish\<rparr>"

text \<open>The \<open>send\<close> method without a stream; the operations have no \<open>init\<close>.\<close>

definition response_send_sapi ::
  "('h, 'e) response_env \<Rightarrow> 's server_host \<Rightarrow> 's \<Rightarrow> response_options \<Rightarrow> env_globals \<Rightarrow> (bool \<times> ('s, 'e) php_http_env_response) option" where
  "response_send_sapi env sv s options g =
     (case php_http_env_response_init env options g (\<lambda>_. Some s) of
        None \<Rightarrow> None
      | Some r \<Rightarrow> php_http_env_response_send env (php_http_env_response_sapi_ops sv) r)"

section \<open>Servers as sinks\<close>

text \<open>
  A server that accepts headers and takes all data: \<open>out\<close> is the body it got. Headers, status and flushing
  leave the body alone. A length of data fits the result of a write.
\<close>

definition serves :: "'s server_host \<Rightarrow> ('s \<Rightarrow> bytes) \<Rightarrow> bool" where
  "serves sv out \<longleftrightarrow>
     (\<forall>op l code s. fst (sv_header_op sv op l code s) \<and> out (snd (sv_header_op sv op l code s)) = out s) \<and>
     (\<forall>s. out (sv_output_flush_all sv s) = out s \<and> out (sv_flush sv s) = out s) \<and>
     (\<forall>d s. d \<noteq> [] \<longrightarrow> fst (sv_write sv d s) = int (length d) \<and> out (snd (sv_write sv d s)) = out s @ d)"

lemma serves_header:
  assumes "serves sv out"
  shows "\<exists>s'. sv_header_op sv op l code s = (True, s') \<and> out s' = out s"
proof -
  obtain ok s' where "sv_header_op sv op l code s = (ok, s')" by force
  moreover have "fst (sv_header_op sv op l code s) \<and> out (snd (sv_header_op sv op l code s)) = out s"
    using assms unfolding serves_def by blast
  ultimately show ?thesis by simp
qed

definition server_got :: "'s server_host \<Rightarrow> ('s \<Rightarrow> bytes) \<Rightarrow> bytes \<Rightarrow> 's \<Rightarrow> bytes list \<Rightarrow> bool" where
  "server_got sv out pre s ps \<longleftrightarrow> serves sv out \<and> out s = pre @ concat ps"

lemmas sapi_ops_defs = php_http_env_response_sapi_ops_def php_http_env_response_sapi_set_status_def
  php_http_env_response_sapi_set_protocol_version_def php_http_env_response_sapi_set_header_def
  php_http_env_response_sapi_add_header_def php_http_env_response_sapi_del_header_def php_http_env_set_response_code_def
  php_http_env_set_response_protocol_version_def php_http_env_set_response_status_line_def
  php_http_env_set_response_header_va_def env_set_response_header_opt_def

lemma colon_not_empty: "CHR '':'' \<in> set (cstr l) \<Longrightarrow> l \<noteq> []"
  by (auto simp: cstr_def)

lemma sapi_write_sent:
  assumes "server_got sv out pre s ps" "p \<noteq> []"
  shows "\<exists>s'. php_http_env_response_sapi_write sv p s = (True, s') \<and> server_got sv out pre s' (ps @ [p])"
proof -
  obtain n s' where w: "sv_write sv p s = (n, s')" by force
  have "fst (sv_write sv p s) = int (length p) \<and> out (snd (sv_write sv p s)) = out s @ p"
    using assms unfolding server_got_def serves_def by blast
  with assms w show ?thesis by (simp add: php_http_env_response_sapi_write_def server_got_def)
qed

interpretation server_sink: response_sink "php_http_env_response_sapi_ops sv" "\<lambda>s. server_got sv out pre s []"
    "server_got sv out pre" "server_got sv out pre" for sv :: "'s server_host" and out pre
proof (unfold_locales, goal_cases)
  case (1 s code)
  then show ?case using serves_header [of sv out SAPI_HEADER_SET_STATUS "[]" code s] by (auto simp: sapi_ops_defs server_got_def)
next
  case (2 s v)
  then show ?case
    using serves_header [of sv out SAPI_HEADER_REPLACE "status_line v (php_http_env_get_response_code (sv_response_code sv s))" 0 s]
    by (auto simp: sapi_ops_defs server_got_def)
next
  case (3 s l)
  then show ?case
    using serves_header [of sv out SAPI_HEADER_REPLACE l 0 s] colon_not_empty [of l] by (auto simp: sapi_ops_defs server_got_def)
next
  case (4 s l)
  then show ?case using serves_header [of sv out SAPI_HEADER_REPLACE l 0 s] by (auto simp: sapi_ops_defs server_got_def)
next
  case (5 s l)
  then show ?case
    using serves_header [of sv out SAPI_HEADER_ADD l 0 s] colon_not_empty [of l] by (auto simp: sapi_ops_defs server_got_def)
next
  case (6 s l)
  then show ?case using serves_header [of sv out SAPI_HEADER_DELETE l 0 s] by (auto simp: sapi_ops_defs server_got_def)
next
  case (8 s ps p)
  then show ?case using sapi_write_sent by (simp add: php_http_env_response_sapi_ops_def)
next
  case (9 s ps)
  then show ?case
    by (simp add: php_http_env_response_sapi_ops_def php_http_env_response_sapi_flush_def server_got_def serves_def Let_def)
next
  case (10 s ps)
  then show ?case by (simp add: php_http_env_response_sapi_ops_def php_http_env_response_sapi_finish_def)
qed simp

section \<open>Results\<close>

text \<open>
  C9. Sending to a server that takes everything ends with success, and the body the server got is
  the payload of the response.
\<close>

theorem server_response_delivers:
  assumes "serves sv out" "sendable env options"
  shows "\<exists>r. response_send_sapi env sv s options g = Some (True, r) \<and> out (r_ctx r) = out s @ payload r"
proof -
  define r0 :: "('a, 'c) php_http_env_response" where "r0 =
    \<lparr>r_ctx = s, r_globals = g, r_buffer = Some (php_http_buffer_init (re_realloc env)), r_options = options, r_chunk = 0, r_delay = 0,
     r_range_status = PHP_HTTP_RANGE_NO, r_range_values = [], r_range_boundary = [], r_length = 0, r_type = None,
     r_encoding = None, r_encoder = None, r_done = False\<rparr>"
  have init: "response_send_sapi env sv s options g = php_http_env_response_send env (php_http_env_response_sapi_ops sv) r0"
    by (simp add: response_send_sapi_def php_http_env_response_init_def r0_def)
  have op: "server_got sv out (out s) (r_ctx r0) []" using assms(1) by (simp add: r0_def server_got_def)
  have "\<exists>r ps. php_http_env_response_send env (php_http_env_response_sapi_ops sv) r0 = Some (True, r) \<and>
      server_got sv out (out s) (r_ctx r) ps \<and> [] \<notin> set ps \<and> concat ps = payload r \<and> same_options (r_options r0) (r_options r) \<and>
     (\<exists>r1 r2. send_ranges env (php_http_env_response_sapi_ops sv) (get_request (r_options r0)) r0 = Some (True, r1) \<and>
        php_http_env_response_send_head env (php_http_env_response_sapi_ops sv) (get_request (r_options r0)) r1 = Some (True, r2) \<and>
        r_done r = r_done r2 \<and> r_range_status r = r_range_status r2 \<and> r_range_status r2 = r_range_status r1)"
    by (rule server_sink.send_ok [OF op, where b = "php_http_buffer_init (re_realloc env)"])
      (use assms(2) in \<open>simp_all add: r0_def buf_inv_init\<close>)
  then show ?thesis unfolding init server_got_def by metis
qed

text \<open>A server that records what it is told: the header operations and the body.\<close>

definition sample_server :: "((sapi_op \<times> bytes \<times> int) list \<times> bytes) server_host" where
  "sample_server =
     \<lparr>sv_header_op = (\<lambda>op l code (hs, b). (True, hs @ [(op, l, code)], b)), sv_response_code = (\<lambda>_. 0),
      sv_write = (\<lambda>d (hs, b). (int (length d), hs, b @ d)), sv_output_level = (\<lambda>_. 0), sv_output_flush_all = id,
      sv_implicit_flush = (\<lambda>_. False), sv_flush = id\<rparr>"

lemma sample_serves: "serves sample_server snd"
  by (simp add: serves_def sample_server_def split: prod.splits)

theorem server_response_delivers_witness:
  "\<exists>r. response_send_sapi sample_response_env sample_server ([], ''>'') (sample_response_options zend_hash_init) sample_env_globals =
       Some (True, r) \<and> snd (r_ctx r) = snd ([] :: (sapi_op \<times> bytes \<times> int) list, ''>'') @ payload r"
  by (rule server_response_delivers [OF sample_serves sample_unconditional_sendable])

lemma server_in_full:
  "map_option (\<lambda>(ok, r). (ok, r_ctx r))
     (response_send_sapi sample_response_env sample_server ([], []) (sample_response_options sample_range) sample_env_globals) =
   Some (True, [(SAPI_HEADER_REPLACE, ''Accept-Ranges: bytes'', 0), (SAPI_HEADER_SET_STATUS, [], 206),
     (SAPI_HEADER_REPLACE, ''Content-Range: bytes 1-3/5'', 0)], ''ell'')"
  by code_simp

end
