(* ===== verification/Http_Client_Options.thy ===== *)
theory Http_Client_Options
  imports Http_Zend
begin

text \<open>
  The options of clients and requests: \<open>php_http_client_options_*\<close> and \<open>combined_options\<close> of
  \<open>php_http_client.c\<close>, with the methods that use them, and the registry of drivers. The properties
  of an object that the options concern are a record. Arrays are values: that removing an option with
  null changes other copies of the array, too, is not represented.
\<close>

section \<open>Drivers\<close>

record driver =
  driver_name :: bytes
  client_name :: bytes
  request_name :: bytes

type_synonym drivers = "(bytes \<times> driver) list"

text \<open>Adding fails when the name is taken.\<close>

definition php_http_client_driver_add :: "driver \<Rightarrow> drivers \<Rightarrow> bool \<times> drivers" where
  "php_http_client_driver_add d ds =
     (if driver_name d \<in> fst ` set ds then (False, ds) else (True, ds @ [(driver_name d, d)]))"

text \<open>The driver of the name, or the first one.\<close>

definition php_http_client_driver_get :: "bytes option \<Rightarrow> drivers \<Rightarrow> driver option" where
  "php_http_client_driver_get name ds =
     (case (case name of Some n \<Rightarrow> map_of ds n | None \<Rightarrow> None) of
        Some d \<Rightarrow> Some d
      | None \<Rightarrow> (case ds of [] \<Rightarrow> None | (_, d) # _ \<Rightarrow> Some d))"

definition php_http_client_driver_list :: "drivers \<Rightarrow> hashtable \<Rightarrow> hashtable" where
  "php_http_client_driver_list ds ht = fold (\<lambda>(_, d) ht. zend_hash_next_index_insert ht (ZStr (driver_name d))) ds ht"

section \<open>Options\<close>

record options_object =
  oo_is_client :: bool
  oo_options :: zval
  oo_recordHistory :: zval
  oo_responseMessageClass :: zval

text \<open>A copy of the options, empty where there are none.\<close>

definition options_copy :: "options_object \<Rightarrow> hashtable" where
  "options_copy ob = (case oo_options ob of ZArr n es \<Rightarrow> array_copy (n, es) zend_hash_init | _ \<Rightarrow> zend_hash_init)"

definition has_elements :: "hashtable option \<Rightarrow> bool" where
  "has_elements opts = (case opts of Some ht \<Rightarrow> zend_hash_num_elements ht \<noteq> 0 | None \<Rightarrow> False)"

text \<open>
  One option that is an array. The entry that is joined is taken for an array without a test; where it is none,
  memory of another type is read as a table (\<^const>\<open>None\<close>).
\<close>

definition php_http_client_options_set_subr ::
  "bytes \<Rightarrow> hashtable option \<Rightarrow> bool \<Rightarrow> options_object \<Rightarrow> options_object option" where
  "php_http_client_options_set_subr key opts overwrite ob =
     (if overwrite \<or> has_elements opts then
        let new_opts = options_copy ob; k = symtable_key key in
        map_option (\<lambda>new_opts. ob\<lparr>oo_options := zarr new_opts\<rparr>)
          (if overwrite then
             Some (if has_elements opts then zend_hash_update new_opts k (zarr (the opts)) else zend_hash_del new_opts k)
           else if has_elements opts then
             (case zend_hash_find new_opts k of
                Some (ZArr n es) \<Rightarrow> Some (zend_hash_update new_opts k (zarr (array_join (the opts) (n, es) False 0)))
              | Some _ \<Rightarrow> None
              | None \<Rightarrow> Some (zend_hash_update new_opts k (zarr (the opts))))
           else Some new_opts)
      else Some ob)"

text \<open>The loop over the new options; the second part of the state are the ones that are simply added.\<close>

definition options_set_step ::
  "zkey \<times> zval \<Rightarrow> options_object \<times> hashtable \<Rightarrow> (options_object \<times> hashtable) option" where
  "options_set_step = (\<lambda>(key, opt) (ob, add_opts).
     case key of
       KInt _ \<Rightarrow> Some (ob, add_opts)
     | KStr s \<Rightarrow>
         if (\<exists>n es. opt = ZArr n es) \<and> (s = ''ssl'' \<or> s = ''cookies'') then
           (case opt of ZArr n es \<Rightarrow> map_option (\<lambda>ob. (ob, add_opts)) (php_http_client_options_set_subr s (Some (n, es)) False ob)
                      | _ \<Rightarrow> None)
         else if oo_is_client ob \<and> s = ''recordHistory'' then Some (ob\<lparr>oo_recordHistory := opt\<rparr>, add_opts)
         else if oo_is_client ob \<and> s = ''responseMessageClass'' then Some (ob\<lparr>oo_responseMessageClass := opt\<rparr>, add_opts)
         else if opt = ZNull then
           Some (case oo_options ob of
                   ZArr n es \<Rightarrow> ob\<lparr>oo_options := zarr (zend_hash_del (n, es) (symtable_key s))\<rparr>
                 | _ \<Rightarrow> ob, add_opts)
         else Some (ob, zend_hash_update add_opts (symtable_key s) opt))"

lemma options_set_step_code [code]:
  "options_set_step e st =
     (case e of (key, opt) \<Rightarrow> case st of (ob, add_opts) \<Rightarrow>
       (case key of
          KInt _ \<Rightarrow> Some (ob, add_opts)
        | KStr s \<Rightarrow>
            if (case opt of ZArr _ _ \<Rightarrow> True | _ \<Rightarrow> False) \<and> (s = ''ssl'' \<or> s = ''cookies'') then
              (case opt of ZArr n es \<Rightarrow> map_option (\<lambda>ob. (ob, add_opts)) (php_http_client_options_set_subr s (Some (n, es)) False ob)
                         | _ \<Rightarrow> None)
            else if oo_is_client ob \<and> s = ''recordHistory'' then Some (ob\<lparr>oo_recordHistory := opt\<rparr>, add_opts)
            else if oo_is_client ob \<and> s = ''responseMessageClass'' then Some (ob\<lparr>oo_responseMessageClass := opt\<rparr>, add_opts)
            else if opt = ZNull then
              Some (case oo_options ob of
                      ZArr n es \<Rightarrow> ob\<lparr>oo_options := zarr (zend_hash_del (n, es) (symtable_key s))\<rparr>
                    | _ \<Rightarrow> ob, add_opts)
            else Some (ob, zend_hash_update add_opts (symtable_key s) opt)))"
  by (cases e; cases st) (auto simp: options_set_step_def split: zkey.splits zval.splits)

fun options_set_loop ::
  "(zkey \<times> zval) list \<Rightarrow> options_object \<times> hashtable \<Rightarrow> (options_object \<times> hashtable) option" where
  "options_set_loop [] st = Some st"
| "options_set_loop (e # es) st = (case options_set_step e st of None \<Rightarrow> None | Some st \<Rightarrow> options_set_loop es st)"

definition php_http_client_options_set :: "hashtable option \<Rightarrow> options_object \<Rightarrow> options_object option" where
  "php_http_client_options_set opts ob =
     (if \<not> has_elements opts then Some (ob\<lparr>oo_options := zarr zend_hash_init\<rparr>)
      else map_option (\<lambda>(ob, add_opts). ob\<lparr>oo_options := zarr (array_join add_opts (options_copy ob) False 0)\<rparr>)
             (options_set_loop (live (the opts)) (ob, zend_hash_init)))"

text \<open>No value is null.\<close>

definition php_http_client_options_get_subr :: "bytes \<Rightarrow> options_object \<Rightarrow> zval" where
  "php_http_client_options_get_subr key ob =
     (case oo_options ob of
        ZArr n es \<Rightarrow> (case zend_hash_find (n, es) (symtable_key key) of Some v \<Rightarrow> v | None \<Rightarrow> ZNull)
      | _ \<Rightarrow> ZNull)"

text \<open>The options of a request that is enqueued: those of the client, with what its \<open>getOptions\<close> gives joined.\<close>

definition combined_options :: "options_object \<Rightarrow> zval \<Rightarrow> hashtable" where
  "combined_options client roptions =
     (case roptions of ZArr n es \<Rightarrow> array_join (n, es) (options_copy client) False 0 | _ \<Rightarrow> options_copy client)"

section \<open>Methods\<close>

text \<open>Of clients and requests alike; the first ones are for clients only.\<close>

definition client_setCookies :: "hashtable option \<Rightarrow> options_object \<Rightarrow> options_object option" where
  "client_setCookies opts ob = php_http_client_options_set_subr ''cookies'' opts True ob"

definition client_addCookies :: "hashtable option \<Rightarrow> options_object \<Rightarrow> options_object option" where
  "client_addCookies opts ob = php_http_client_options_set_subr ''cookies'' opts False ob"

definition client_getCookies :: "options_object \<Rightarrow> zval" where
  "client_getCookies ob = php_http_client_options_get_subr ''cookies'' ob"

definition client_setOptions :: "hashtable option \<Rightarrow> options_object \<Rightarrow> options_object option" where
  "client_setOptions opts ob = php_http_client_options_set opts ob"

definition client_getOptions :: "options_object \<Rightarrow> zval" where
  "client_getOptions ob = oo_options ob"

definition client_setSslOptions :: "hashtable option \<Rightarrow> options_object \<Rightarrow> options_object option" where
  "client_setSslOptions opts ob = php_http_client_options_set_subr ''ssl'' opts True ob"

definition client_addSslOptions :: "hashtable option \<Rightarrow> options_object \<Rightarrow> options_object option" where
  "client_addSslOptions opts ob = php_http_client_options_set_subr ''ssl'' opts False ob"

definition client_getSslOptions :: "options_object \<Rightarrow> zval" where
  "client_getSslOptions ob = php_http_client_options_get_subr ''ssl'' ob"

definition request_setOptions :: "hashtable option \<Rightarrow> options_object \<Rightarrow> options_object option" where
  "request_setOptions opts ob = php_http_client_options_set opts ob"

definition request_getOptions :: "options_object \<Rightarrow> zval" where
  "request_getOptions ob = oo_options ob"

definition request_setSslOptions :: "hashtable option \<Rightarrow> options_object \<Rightarrow> options_object option" where
  "request_setSslOptions opts ob = php_http_client_options_set_subr ''ssl'' opts True ob"

definition request_addSslOptions :: "hashtable option \<Rightarrow> options_object \<Rightarrow> options_object option" where
  "request_addSslOptions opts ob = php_http_client_options_set_subr ''ssl'' opts False ob"

definition request_getSslOptions :: "options_object \<Rightarrow> zval" where
  "request_getSslOptions ob = php_http_client_options_get_subr ''ssl'' ob"

definition client_getAvailableDrivers :: "drivers \<Rightarrow> zval" where
  "client_getAvailableDrivers ds = zarr (php_http_client_driver_list ds zend_hash_init)"

section \<open>Facts\<close>

text \<open>Tables without undefined values, and options that are such a table.\<close>

definition good_table :: "hashtable \<Rightarrow> bool" where
  "good_table ht \<longleftrightarrow> ht_inv ht \<and> (\<forall>e\<in>set (snd ht). snd e \<noteq> ZUndef)"

definition good_options :: "options_object \<Rightarrow> bool" where
  "good_options ob \<longleftrightarrow> (case oo_options ob of ZArr n es \<Rightarrow> good_table (n, es) | _ \<Rightarrow> True)"

lemma good_init [simp]: "good_table zend_hash_init"
  by (simp add: good_table_def) (simp add: zend_hash_init_def)

lemma assoc_update_values: "e \<in> set (assoc_update k v es) \<Longrightarrow> e = (k, v) \<or> e \<in> set es"
  by (induction es) (auto split: if_splits)

lemma good_update: "good_table ht \<Longrightarrow> v \<noteq> ZUndef \<Longrightarrow> good_table (zend_hash_update ht k v)"
  using zht.inv_upd [of ht k v] by (auto simp: good_table_def zend_hash_update_def dest!: assoc_update_values)

lemma good_del: "good_table ht \<Longrightarrow> good_table (zend_hash_del ht k)"
  using zht.inv_del [of ht k] by (auto simp: good_table_def zend_hash_del_def)

lemma good_fold:
  "good_table d \<Longrightarrow> \<forall>e\<in>set es. snd e \<noteq> ZUndef \<Longrightarrow> good_table (fold (\<lambda>(k, v) d. zend_hash_update d k v) es d)"
proof (induction es arbitrary: d)
  case (Cons e es)
  then show ?case
    by (cases e) (simp add: good_update)
qed simp

lemma live_good: "good_table ht \<Longrightarrow> live ht = snd ht"
  by (simp add: good_table_def live_def)

lemma map_of_rev_table: "good_table ht \<Longrightarrow> map_of (rev (snd ht)) = map_of (snd ht)"
  by (rule map_of_eqI) (auto simp: good_table_def ht_inv_def rev_map [symmetric] dest: map_of_SomeD)

lemma copy_good:
  assumes "good_table ht"
  shows "good_table (array_copy ht zend_hash_init)" "zend_hash_find (array_copy ht zend_hash_init) k = zend_hash_find ht k"
proof -
  show "good_table (array_copy ht zend_hash_init)"
    using assms by (auto simp: array_copy_def live_def intro: good_fold)
  show "zend_hash_find (array_copy ht zend_hash_init) k = zend_hash_find ht k"
    unfolding array_copy_def live_good [OF assms] zht.upd_all(2) [OF ht_inv_init] map_of_rev_table [OF assms]
    by (simp add: zend_hash_find_def zend_hash_init_def split: option.split)
qed

lemma join_good:
  assumes "good_table src" "good_table dst"
  shows "good_table (array_join src dst False 0)"
    "zend_hash_find (array_join src dst False 0) k = (case zend_hash_find src k of Some v \<Rightarrow> Some v | None \<Rightarrow> zend_hash_find dst k)"
proof -
  have id: "join_key 0 k = k" "join_value 0 v = v" "join_skips 0 k = False" for k v
    by (auto simp: join_key_def join_value_def join_skips_def split: zkey.split)
  have eq: "array_join src dst False 0 = fold (\<lambda>(k, v) d. zend_hash_update d k v) (snd src) dst"
    unfolding array_merge_upd_all live_good [OF assms(1)] by (simp add: id case_prod_unfold)
  show "good_table (array_join src dst False 0)"
    unfolding eq by (rule good_fold) (use assms in \<open>auto simp: good_table_def\<close>)
  show "zend_hash_find (array_join src dst False 0) k = (case zend_hash_find src k of Some v \<Rightarrow> Some v | None \<Rightarrow> zend_hash_find dst k)"
    unfolding eq using assms zht.upd_all(2) [of dst "snd src" k] map_of_rev_table [OF assms(1)]
    by (simp add: good_table_def zend_hash_find_def split: option.split)
qed

lemma options_copy_good: "good_options ob \<Longrightarrow> good_table (options_copy ob)"
  by (auto simp: good_options_def options_copy_def copy_good split: zval.splits)

lemma options_copy_zarr:
  "good_table ht \<Longrightarrow> good_options (ob\<lparr>oo_options := zarr ht\<rparr>) \<and>
     zend_hash_find (options_copy (ob\<lparr>oo_options := zarr ht\<rparr>)) k = zend_hash_find ht k"
  using copy_good [of ht] by (auto simp: good_options_def options_copy_def zarr_def)

section \<open>Setting options\<close>

text \<open>What an option is after options were set: \<open>old\<close> is its value before, \<open>given\<close> the new one.\<close>

definition option_after :: "bool \<Rightarrow> bytes \<Rightarrow> zval option \<Rightarrow> zval option \<Rightarrow> zval option" where
  "option_after is_client s given old =
     (case given of
        None \<Rightarrow> old
      | Some v \<Rightarrow>
          if s = ''ssl'' \<or> s = ''cookies'' then
            (case v of
               ZArr n es \<Rightarrow>
                 if \<not> has_elements (Some (n, es)) then old
                 else (case old of Some (ZArr m fs) \<Rightarrow> Some (zarr (array_join (n, es) (m, fs) False 0)) | _ \<Rightarrow> Some v)
             | ZNull \<Rightarrow> None
             | _ \<Rightarrow> Some v)
          else if is_client \<and> (s = ''recordHistory'' \<or> s = ''responseMessageClass'') then old
          else if v = ZNull then None else Some v)"

text \<open>The options that are joined must be arrays before.\<close>

definition joinable :: "options_object \<Rightarrow> bool" where
  "joinable ob \<longleftrightarrow> (\<forall>s\<in>{''ssl'', ''cookies''}. case zend_hash_find (options_copy ob) (KStr s) of None \<Rightarrow> True | Some v \<Rightarrow> \<exists>n es. v = ZArr n es)"

text \<open>The value of an option in the course of the loop.\<close>

definition staged_option :: "options_object \<times> hashtable \<Rightarrow> bytes \<Rightarrow> zval option" where
  "staged_option st s = (case zend_hash_find (snd st) (KStr s) of Some v \<Rightarrow> Some v | None \<Rightarrow> zend_hash_find (options_copy (fst st)) (KStr s))"

lemma staged_option_pair:
  "staged_option (ob, add) s = (case zend_hash_find add (KStr s) of Some v \<Rightarrow> Some v | None \<Rightarrow> zend_hash_find (options_copy ob) (KStr s))"
  unfolding staged_option_def fst_conv snd_conv ..

definition good_stage :: "bool \<Rightarrow> options_object \<times> hashtable \<Rightarrow> bool" where
  "good_stage c st \<longleftrightarrow> good_options (fst st) \<and> good_table (snd st) \<and> joinable (fst st) \<and> oo_is_client (fst st) = c"

lemma special_keys: "symtable_key ''ssl'' = KStr ''ssl''" "symtable_key ''cookies'' = KStr ''cookies''"
  by code_simp+

lemma option_find_update: "good_table ht \<Longrightarrow> zend_hash_find (zend_hash_update ht k v) k' = (if k' = k then Some v else zend_hash_find ht k')"
  by (rule zht.find_upd) (simp add: good_table_def)

lemma option_find_del: "good_table ht \<Longrightarrow> zend_hash_find (zend_hash_del ht k) k' = (if k' = k then None else zend_hash_find ht k')"
  by (rule zht.find_del) (simp add: good_table_def)


lemma find_init [simp]: "zend_hash_find zend_hash_init k = None"
  by (simp add: zend_hash_find_def zend_hash_init_def)

lemma zarr_pair [simp]: "zarr (n, es) = ZArr n es"
  by (simp add: zarr_def)

lemma good_options_zarr [simp]: "good_options (ob\<lparr>oo_options := zarr ht\<rparr>) = good_table ht"
  by (simp add: good_options_def zarr_def)

lemma find_options_zarr [simp]:
  "good_table ht \<Longrightarrow> zend_hash_find (options_copy (ob\<lparr>oo_options := zarr ht\<rparr>)) k = zend_hash_find ht k"
  using options_copy_zarr by blast

text \<open>Joining an array option.\<close>

lemma set_subr_add:
  assumes "good_options ob" "symtable_key key = KStr key"
    and old: "case zend_hash_find (options_copy ob) (KStr key) of None \<Rightarrow> True | Some v \<Rightarrow> \<exists>n es. v = ZArr n es"
  shows "\<exists>ob'. php_http_client_options_set_subr key (Some (n, es)) False ob = Some ob' \<and> good_options ob' \<and>
    oo_is_client ob' = oo_is_client ob \<and>
    (\<forall>k. zend_hash_find (options_copy ob') k =
       (if k = KStr key \<and> has_elements (Some (n, es)) then
          (case zend_hash_find (options_copy ob) k of
             Some (ZArr m fs) \<Rightarrow> Some (zarr (array_join (n, es) (m, fs) False 0)) | _ \<Rightarrow> Some (ZArr n es))
        else zend_hash_find (options_copy ob) k))"
proof (cases "has_elements (Some (n, es))")
  case False
  then show ?thesis
    using assms(1) by (simp add: php_http_client_options_set_subr_def)
next
  case True
  note g = options_copy_good [OF assms(1)]
  have nz: "zarr x \<noteq> ZUndef" for x
    by (simp add: zarr_def)
  show ?thesis
  proof (cases "zend_hash_find (options_copy ob) (KStr key)")
    case None
    then show ?thesis
      using True g nz assms(2) by (simp add: php_http_client_options_set_subr_def Let_def good_update option_find_update)
  next
    case (Some v)
    with old obtain m fs where "v = ZArr m fs"
      by auto
    with Some show ?thesis
      using True g nz assms(2) by (simp add: php_http_client_options_set_subr_def Let_def good_update option_find_update)
  qed
qed


text \<open>One new option changes that option only, in the way \<^const>\<open>option_after\<close> says.\<close>

lemma staged_special:
  assumes "good_stage c (ob, add)" "s = ''ssl'' \<or> s = ''cookies''"
  shows "case zend_hash_find (options_copy ob) (KStr s) of None \<Rightarrow> True | Some v \<Rightarrow> \<exists>n es. v = ZArr n es"
  using assms by (auto simp: good_stage_def joinable_def)

lemma joinable_del:
  "joinable ob \<Longrightarrow> (\<And>k. zend_hash_find (options_copy ob') k \<in> {None, zend_hash_find (options_copy ob) k}) \<Longrightarrow> joinable ob'"
  unfolding joinable_def by (metis (no_types, lifting) insertE option.case(1) singletonD)

lemma options_set_step_ssl:
  assumes "good_stage c (ob, add)" "zend_hash_find add (KStr s) = None" "s = ''ssl'' \<or> s = ''cookies''"
  shows "\<exists>st'. options_set_step (KStr s, ZArr n es) (ob, add) = Some st' \<and> good_stage c st' \<and> snd st' = add \<and>
    (\<forall>t. staged_option st' t = (if t = s then option_after c s (Some (ZArr n es)) (staged_option (ob, add) s) else staged_option (ob, add) t))"
proof -
  have k: "symtable_key s = KStr s"
    using assms(3) special_keys by auto
  note old = staged_special [OF assms(1,3)]
  obtain ob' where *: "php_http_client_options_set_subr s (Some (n, es)) False ob = Some ob'" "good_options ob'"
    "oo_is_client ob' = oo_is_client ob"
    and find: "\<And>k. zend_hash_find (options_copy ob') k =
       (if k = KStr s \<and> has_elements (Some (n, es)) then
          (case zend_hash_find (options_copy ob) k of
             Some (ZArr m fs) \<Rightarrow> Some (zarr (array_join (n, es) (m, fs) False 0)) | _ \<Rightarrow> Some (ZArr n es))
        else zend_hash_find (options_copy ob) k)"
    using set_subr_add [OF _ k old, of n es] assms(1) by (auto simp: good_stage_def)
  have "joinable ob'"
    using assms(1) by (auto simp: joinable_def good_stage_def find zarr_def split: option.splits zval.splits)
  then have "good_stage c (ob', add)"
    using assms(1) * by (simp add: good_stage_def)
  moreover have "options_set_step (KStr s, ZArr n es) (ob, add) = Some (ob', add)"
    using *(1) assms(3) by (simp add: options_set_step_def)
  moreover have "staged_option (ob', add) t = (if t = s then option_after c s (Some (ZArr n es)) (staged_option (ob, add) s) else staged_option (ob, add) t)" for t
    using assms(2,3) old by (auto simp: staged_option_pair option_after_def find split: option.splits zval.splits)
  ultimately show ?thesis
    by auto
qed

lemma option_after_other:
  assumes "v \<noteq> ZNull" "s = ''ssl'' \<or> s = ''cookies'' \<Longrightarrow> \<not> (\<exists>n es. v = ZArr n es)"
    and "\<not> (c \<and> (s = ''recordHistory'' \<or> s = ''responseMessageClass''))"
  shows "option_after c s (Some v) old = Some v"
proof (cases "s = ''ssl'' \<or> s = ''cookies''")
  case True
  then show ?thesis
    using assms(1,2) by (cases v) (auto simp: option_after_def)
next
  case False
  have "(c \<and> (s = ''recordHistory'' \<or> s = ''responseMessageClass'')) = False"
    using assms(3) by blast
  then show ?thesis
    using False assms(1) unfolding option_after_def by (simp only: option.case if_False)
qed

lemma option_after_null:
  "\<not> (c \<and> (s = ''recordHistory'' \<or> s = ''responseMessageClass'')) \<Longrightarrow> option_after c s (Some ZNull) old = None"
  unfolding option_after_def by (simp only: option.case zval.case if_False simp_thms) simp

lemma options_set_step_add:
  assumes "good_stage c (ob, add)" "symtable_key s = KStr s" "v \<noteq> ZUndef" "v \<noteq> ZNull"
    and "s = ''ssl'' \<or> s = ''cookies'' \<Longrightarrow> \<not> (\<exists>n es. v = ZArr n es)"
    and "\<not> (c \<and> (s = ''recordHistory'' \<or> s = ''responseMessageClass''))"
  shows "options_set_step (KStr s, v) (ob, add) = Some (ob, zend_hash_update add (KStr s) v) \<and>
    good_stage c (ob, zend_hash_update add (KStr s) v) \<and>
    (\<forall>t. staged_option (ob, zend_hash_update add (KStr s) v) t =
       (if t = s then option_after c s (Some v) (staged_option (ob, add) s) else staged_option (ob, add) t))"
proof (intro conjI allI)
  have c: "oo_is_client ob = c" and g: "good_table add"
    using assms(1) by (simp_all add: good_stage_def)
  have n1: "((\<exists>n es. v = ZArr n es) \<and> (s = ''ssl'' \<or> s = ''cookies'')) = False"
    and n2: "(c \<and> s = ''recordHistory'') = False" and n3: "(c \<and> s = ''responseMessageClass'') = False"
    using assms(5,6) by blast+
  show "options_set_step (KStr s, v) (ob, add) = Some (ob, zend_hash_update add (KStr s) v)"
    by (simp only: options_set_step_def prod.case zkey.case c n1 n2 n3 assms(2,4) if_False)
  show "good_stage c (ob, zend_hash_update add (KStr s) v)"
    using assms by (simp add: good_stage_def good_update)
  fix t
  have "option_after c s (Some v) old = Some v" for old
    by (rule option_after_other) (use assms(4-) in blast)+
  then show "staged_option (ob, zend_hash_update add (KStr s) v) t =
       (if t = s then option_after c s (Some v) (staged_option (ob, add) s) else staged_option (ob, add) t)"
    by (simp add: staged_option_pair option_find_update [OF g])
qed

lemma options_set_step_null:
  assumes "good_stage c (ob, add)" "symtable_key s = KStr s" "zend_hash_find add (KStr s) = None"
    and "\<not> (c \<and> (s = ''recordHistory'' \<or> s = ''responseMessageClass''))"
  shows "\<exists>st'. options_set_step (KStr s, ZNull) (ob, add) = Some st' \<and> good_stage c st' \<and> snd st' = add \<and>
    (\<forall>t. staged_option st' t = (if t = s then option_after c s (Some ZNull) (staged_option (ob, add) s) else staged_option (ob, add) t))"
proof -
  have c: "oo_is_client ob = c"
    using assms(1) by (simp add: good_stage_def)
  have n: "((\<exists>n es. ZNull = ZArr n es) \<and> (s = ''ssl'' \<or> s = ''cookies'')) = False"
    "(c \<and> s = ''recordHistory'') = False" "(c \<and> s = ''responseMessageClass'') = False"
    using assms(4) by blast+
  have step: "options_set_step (KStr s, ZNull) (ob, add) = Some (case oo_options ob of
                   ZArr n es \<Rightarrow> ob\<lparr>oo_options := zarr (zend_hash_del (n, es) (KStr s))\<rparr> | _ \<Rightarrow> ob, add)"
    by (simp only: options_set_step_def prod.case zkey.case c n assms(2) if_False simp_thms if_True)
  show ?thesis
  proof (cases "\<exists>n es. oo_options ob = ZArr n es")
    case True
    then obtain n es where o: "oo_options ob = ZArr n es"
      by blast
    then have g: "good_table (n, es)"
      using assms(1) by (auto simp: good_stage_def good_options_def)
    let ?ob = "ob\<lparr>oo_options := zarr (zend_hash_del (n, es) (KStr s))\<rparr>"
    have old: "zend_hash_find (options_copy ob) k = zend_hash_find (n, es) k" for k
      using o copy_good [OF g] by (simp add: options_copy_def)
    have new: "zend_hash_find (options_copy ?ob) k = (if k = KStr s then None else zend_hash_find (options_copy ob) k)" for k
      using g by (simp add: good_del option_find_del old)
    have "joinable ?ob"
      using assms(1) by - (rule joinable_del [of ob], auto simp: new good_stage_def)
    then have "good_stage c (?ob, add)"
      using assms(1) g by (simp add: good_stage_def good_del)
    moreover have "options_set_step (KStr s, ZNull) (ob, add) = Some (?ob, add)"
      using o by (simp add: step)
    ultimately show ?thesis
      using assms(3) by (auto simp: staged_option_pair option_after_null [OF assms(4)] new split: option.split)
  next
    case False
    then have "options_copy ob = zend_hash_init"
      by (auto simp: options_copy_def split: zval.splits)
    moreover have "options_set_step (KStr s, ZNull) (ob, add) = Some (ob, add)"
      using False by (auto simp: step split: zval.split)
    ultimately show ?thesis
      using assms(1,3) by (auto simp: staged_option_pair option_after_null [OF assms(4)])
  qed
qed


text \<open>The two options that are properties of a client.\<close>

lemma options_set_step_own:
  assumes "good_stage c (ob, add)" "zend_hash_find add (KStr s) = None"
    and own: "c" "s = ''recordHistory'' \<or> s = ''responseMessageClass''"
  shows "\<exists>ob'. options_set_step (KStr s, v) (ob, add) = Some (ob', add) \<and> good_stage c (ob', add) \<and> options_copy ob' = options_copy ob"
proof -
  have "s \<noteq> ''ssl'' \<and> s \<noteq> ''cookies''"
    using own(2) by auto
  then have n: "((\<exists>n es. v = ZArr n es) \<and> (s = ''ssl'' \<or> s = ''cookies'')) = False"
    by blast
  have c: "oo_is_client ob"
    using assms(1) own(1) by (simp add: good_stage_def)
  have same: "options_copy (ob\<lparr>oo_recordHistory := v\<rparr>) = options_copy ob" "options_copy (ob\<lparr>oo_responseMessageClass := v\<rparr>) = options_copy ob"
    by (simp_all add: options_copy_def)
  have keep: "good_stage c (ob\<lparr>oo_recordHistory := v\<rparr>, add)" "good_stage c (ob\<lparr>oo_responseMessageClass := v\<rparr>, add)"
    using assms(1) by (simp_all add: good_stage_def joinable_def good_options_def same)
  show ?thesis
  proof (cases "s = ''recordHistory''")
    case True
    then show ?thesis
      using keep same c n by (simp add: options_set_step_def)
  next
    case False
    then show ?thesis
      using own(2) keep same c n by (simp add: options_set_step_def)
  qed
qed

lemma options_set_step_spec:
  assumes "good_stage c st" "zend_hash_find (snd st) (KStr s) = None" "symtable_key s = KStr s" "v \<noteq> ZUndef"
  shows "\<exists>st'. options_set_step (KStr s, v) st = Some st' \<and> good_stage c st' \<and>
    (\<forall>k. k \<noteq> KStr s \<longrightarrow> zend_hash_find (snd st') k = zend_hash_find (snd st) k) \<and>
    (\<forall>t. staged_option st' t = (if t = s then option_after c s (Some v) (staged_option st s) else staged_option st t))"
proof -
  obtain ob add where st: "st = (ob, add)"
    by (cases st)
  note a = assms [unfolded st snd_conv]
  have g: "good_table add"
    using a(1) by (simp add: good_stage_def)
  consider (own) "c \<and> (s = ''recordHistory'' \<or> s = ''responseMessageClass'')"
    | (ssl) n es where "v = ZArr n es" "s = ''ssl'' \<or> s = ''cookies''"
    | (null) "v = ZNull" "\<not> (c \<and> (s = ''recordHistory'' \<or> s = ''responseMessageClass''))"
    | (other) "v \<noteq> ZNull" "\<not> (c \<and> (s = ''recordHistory'' \<or> s = ''responseMessageClass''))"
        "s = ''ssl'' \<or> s = ''cookies'' \<Longrightarrow> \<not> (\<exists>n es. v = ZArr n es)"
    by blast
  then show ?thesis
  proof cases
    case own
    then obtain ob' where "options_set_step (KStr s, v) (ob, add) = Some (ob', add)" "good_stage c (ob', add)" "options_copy ob' = options_copy ob"
      using options_set_step_own [OF a(1,2)] by blast
    moreover have "option_after c s (Some v) old = old" for old
      using own unfolding option_after_def by auto
    ultimately show ?thesis
      by (auto simp: st staged_option_pair split: option.split)
  next
    case ssl
    then show ?thesis
      using options_set_step_ssl [OF a(1,2)] by (fastforce simp: st)
  next
    case null
    then show ?thesis
      using options_set_step_null [OF a(1,3,2)] by (fastforce simp: st)
  next
    case other
    then show ?thesis
      using options_set_step_add [OF a(1,3,4) other(1,3,2)] by (simp add: st option_find_update [OF g])
  qed
qed

text \<open>The keys that a table of the engine has: a string that is a number is no key.\<close>

definition engine_keys :: "hashtable \<Rightarrow> bool" where
  "engine_keys ht \<longleftrightarrow> (\<forall>e\<in>set (snd ht). case fst e of KStr s \<Rightarrow> symtable_key s = KStr s | KInt _ \<Rightarrow> True)"

lemma options_set_loop_spec:
  assumes "good_stage c st" "distinct (map fst es)"
    and "\<And>e. e \<in> set es \<Longrightarrow> snd e \<noteq> ZUndef \<and> (case fst e of KStr s \<Rightarrow> symtable_key s = KStr s | KInt _ \<Rightarrow> True)"
    and "\<And>e. e \<in> set es \<Longrightarrow> zend_hash_find (snd st) (fst e) = None"
  shows "\<exists>st'. options_set_loop es st = Some st' \<and> good_stage c st' \<and>
    (\<forall>t. staged_option st' t = option_after c t (map_of es (KStr t)) (staged_option st t))"
  using assms
proof (induction es arbitrary: st)
  case Nil
  then show ?case
    by (simp add: option_after_def)
next
  case (Cons e es)
  obtain k v where e: "e = (k, v)"
    by fastforce
  have rest: "\<And>e. e \<in> set es \<Longrightarrow> snd e \<noteq> ZUndef \<and> (case fst e of KStr s \<Rightarrow> symtable_key s = KStr s | KInt _ \<Rightarrow> True)"
    using Cons.prems(3) by simp
  have notin: "k \<notin> fst ` set es" and d: "distinct (map fst es)"
    using Cons.prems(2) e by simp_all
  show ?case
  proof (cases k)
    case (KInt i)
    then have "options_set_step e st = Some st"
      by (cases st) (simp add: e options_set_step_def)
    then show ?thesis
      using Cons.IH [OF Cons.prems(1) d rest] Cons.prems(4) by (simp add: e KInt)
  next
    case (KStr s)
    have "zend_hash_find (snd st) (KStr s) = None" "symtable_key s = KStr s" "v \<noteq> ZUndef"
      using Cons.prems(3,4) [of e] by (simp_all add: e KStr)
    then obtain st' where st': "options_set_step e st = Some st'" "good_stage c st'"
      and same: "\<And>k. k \<noteq> KStr s \<Longrightarrow> zend_hash_find (snd st') k = zend_hash_find (snd st) k"
      and staged: "\<And>t. staged_option st' t = (if t = s then option_after c s (Some v) (staged_option st s) else staged_option st t)"
      using options_set_step_spec [OF Cons.prems(1)] unfolding e KStr by metis
    have fresh: "\<And>e. e \<in> set es \<Longrightarrow> zend_hash_find (snd st') (fst e) = None"
      using Cons.prems(4) same notin KStr by (metis image_eqI list.set_intros(2))
    obtain st'' where "options_set_loop es st' = Some st''" "good_stage c st''"
      and *: "\<And>t. staged_option st'' t = option_after c t (map_of es (KStr t)) (staged_option st' t)"
      using Cons.IH [OF st'(2) d rest fresh] by blast
    moreover have "map_of es (KStr s) = None"
      using notin KStr by (simp add: map_of_eq_None_iff)
    ultimately show ?thesis
      using st'(1) by (auto simp: e KStr staged option_after_def)
  qed
qed

text \<open>
  C11. Setting options. Each option that is given replaces the old one, null removes it, and the arrays
  \<open>ssl\<close> and \<open>cookies\<close> are joined with the old ones. The options \<open>recordHistory\<close> and
  \<open>responseMessageClass\<close> of a client do not get into the table. Every other option is as before.
\<close>

theorem options_set_lookup:
  assumes "good_table opts" "engine_keys opts" "has_elements (Some opts)" "good_options ob" "joinable ob"
  shows "\<exists>ob'. php_http_client_options_set (Some opts) ob = Some ob' \<and>
    (\<forall>s. zend_hash_find (options_copy ob') (KStr s) =
       option_after (oo_is_client ob) s (zend_hash_find opts (KStr s)) (zend_hash_find (options_copy ob) (KStr s)))"
proof -
  have stage: "good_stage (oo_is_client ob) (ob, zend_hash_init)"
    using assms(4,5) by (simp add: good_stage_def)
  have es: "distinct (map fst (snd opts))"
    "\<And>e. e \<in> set (snd opts) \<Longrightarrow> snd e \<noteq> ZUndef \<and> (case fst e of KStr s \<Rightarrow> symtable_key s = KStr s | KInt _ \<Rightarrow> True)"
    using assms(1,2) by (auto simp: good_table_def ht_inv_def engine_keys_def)
  have "\<And>e. e \<in> set (snd opts) \<Longrightarrow> zend_hash_find (snd (ob, zend_hash_init)) (fst e) = None"
    by simp
  from options_set_loop_spec [OF stage es this] obtain ob' add where
    loop: "options_set_loop (snd opts) (ob, zend_hash_init) = Some (ob', add)"
    and g: "good_stage (oo_is_client ob) (ob', add)"
    and st: "\<And>t. staged_option (ob', add) t =
      option_after (oo_is_client ob) t (map_of (snd opts) (KStr t)) (staged_option (ob, zend_hash_init) t)"
    by auto
  have "good_table add" "good_table (options_copy ob')"
    using g by (simp_all add: good_stage_def options_copy_good)
  note join = join_good [OF this]
  have "php_http_client_options_set (Some opts) ob = Some (ob'\<lparr>oo_options := zarr (array_join add (options_copy ob') False 0)\<rparr>)"
    using assms(3) by (simp add: php_http_client_options_set_def live_good [OF assms(1)] loop)
  moreover have "zend_hash_find (array_join add (options_copy ob') False 0) (KStr t) =
      option_after (oo_is_client ob) t (zend_hash_find opts (KStr t)) (zend_hash_find (options_copy ob) (KStr t))" for t
    using st [of t] by (simp add: join(2) staged_option_pair zend_hash_find_def [of opts])
  ultimately show ?thesis
    using join(1) by simp
qed


lemma options_set_lookup_witness:
  "\<exists>ob'. php_http_client_options_set (Some (0, [(KStr ''timeout'', ZNull), (KStr ''ssl'', ZArr 0 [(KStr ''b'', ZLong 2)]), (KStr ''recordHistory'', ZLong 1)]))
     \<lparr>oo_is_client = True, oo_options = ZArr 0 [(KStr ''timeout'', ZLong 5), (KStr ''ssl'', ZArr 0 [(KStr ''a'', ZLong 1)])],
      oo_recordHistory = ZNull, oo_responseMessageClass = ZNull\<rparr> = Some ob' \<and>
     zend_hash_find (options_copy ob') (KStr ''timeout'') = None \<and>
     zend_hash_find (options_copy ob') (KStr ''recordHistory'') = None \<and>
     zend_hash_find (options_copy ob') (KStr ''ssl'') = Some (ZArr 0 [(KStr ''a'', ZLong 1), (KStr ''b'', ZLong 2)])"
proof -
  let ?opts = "(0, [(KStr ''timeout'', ZNull), (KStr ''ssl'', ZArr 0 [(KStr ''b'', ZLong 2)]), (KStr ''recordHistory'', ZLong 1)]) :: hashtable"
  let ?ob = "\<lparr>oo_is_client = True, oo_options = ZArr 0 [(KStr ''timeout'', ZLong 5), (KStr ''ssl'', ZArr 0 [(KStr ''a'', ZLong 1)])],
      oo_recordHistory = ZNull, oo_responseMessageClass = ZNull\<rparr>"
  have "good_table ?opts" "good_options ?ob"
    by (simp_all add: good_table_def good_options_def ht_inv_def)
  moreover have "engine_keys ?opts" "has_elements (Some ?opts)"
    by code_simp+
  moreover have "joinable ?ob"
    by (simp add: joinable_def options_copy_def array_copy_def live_def zend_hash_update_def zend_hash_find_def zend_hash_init_def)
  ultimately obtain ob' where "php_http_client_options_set (Some ?opts) ?ob = Some ob'"
    and look: "\<And>s. zend_hash_find (options_copy ob') (KStr s) =
       option_after True s (zend_hash_find ?opts (KStr s)) (zend_hash_find (options_copy ?ob) (KStr s))"
    using options_set_lookup [of ?opts ?ob] by auto
  moreover have
    "option_after True ''timeout'' (zend_hash_find ?opts (KStr ''timeout'')) (zend_hash_find (options_copy ?ob) (KStr ''timeout'')) = None"
    "option_after True ''recordHistory'' (zend_hash_find ?opts (KStr ''recordHistory'')) (zend_hash_find (options_copy ?ob) (KStr ''recordHistory'')) = None"
    "option_after True ''ssl'' (zend_hash_find ?opts (KStr ''ssl'')) (zend_hash_find (options_copy ?ob) (KStr ''ssl'')) =
       Some (ZArr 0 [(KStr ''a'', ZLong 1), (KStr ''b'', ZLong 2)])"
    by code_simp+
  ultimately show ?thesis
    by simp
qed

text \<open>The options of a request that is enqueued: its own ones win.\<close>

lemma combined_options_lookup:
  assumes "good_options client" "good_options request"
  shows "zend_hash_find (combined_options client (request_getOptions request)) k =
     (case zend_hash_find (options_copy request) k of Some v \<Rightarrow> Some v | None \<Rightarrow> zend_hash_find (options_copy client) k)"
proof (cases "\<exists>n es. oo_options request = ZArr n es")
  case True
  then obtain n es where o: "oo_options request = ZArr n es"
    by blast
  then have "good_table (n, es)"
    using assms(2) by (simp add: good_options_def)
  from join_good(2) [OF this options_copy_good [OF assms(1)]] copy_good(2) [OF this] show ?thesis
    by (simp add: o combined_options_def request_getOptions_def options_copy_def [of request])
next
  case False
  then show ?thesis
    by (auto simp: combined_options_def request_getOptions_def options_copy_def [of request] split: zval.splits)
qed

text \<open>An option that is joined and was set to a value of another type is taken for an array.\<close>

lemma cookies_not_array:
  "Option.bind (client_setOptions (Some (0, [(KStr ''cookies'', ZStr ''a=b'')]))
       \<lparr>oo_is_client = True, oo_options = ZNull, oo_recordHistory = ZNull, oo_responseMessageClass = ZNull\<rparr>)
     (client_addCookies (Some (0, [(KStr ''c'', ZStr ''d'')]))) = None"
  by code_simp

end
