(* ===== verification/Http_Client.thy ===== *)
theory Http_Client
  imports Http_Client_Options
begin

text \<open>
  The queue of a client: \<open>php_http_client.c\<close> on top of the operations of the curl driver in
  \<open>php_http_client_curl.c\<close>. The callbacks of a script (the observers and the closure of a request)
  run code that calls the client again, so that the calls of a script are data: a list of calls, each with
  the calls that its callbacks make. What libcurl and the factory of resources answer are arguments.
  Memory that is used after it was freed is \<^const>\<open>None\<close>. The history, the messages themselves and
  the event loops are left out.
\<close>

section \<open>State\<close>

text \<open>What an entry of the queue points to: the object of the request, or the handler of the driver.\<close>

datatype opaque = OMessage nat | OHandler nat

datatype destructor = Msg_queue_dtor | Curl_queue_dtor

text \<open>Messages, objects and closures are numbers. The member \<open>request_obj\<close> is not used for anything.\<close>

record enqueue =
  q_request :: nat
  q_options :: hashtable
  q_dtor :: "destructor option"
  q_opaque :: opaque
  q_closure :: "nat option"

text \<open>A handler with the copy of the entry it was made for and its progress. Its easy handle has the same number.\<close>

record handler =
  hnd_queue :: enqueue
  hnd_info :: bytes
  hnd_started :: bool
  hnd_finished :: bool

text \<open>
  The state of a client and of its driver. The handles that were added to the multi handle are \<open>hc_multi\<close>, the handlers
  that are allocated \<open>hc_handlers\<close>; the counters say how many references the queue holds of an object and of a closure.
\<close>

record hclient =
  hc_requests :: "enqueue list"
  hc_responses :: "(nat \<times> nat) list"
  hc_depth :: nat
  hc_multi :: "nat list"
  hc_unfinished :: nat
  hc_handlers :: "nat \<rightharpoonup> handler"
  hc_next :: nat
  hc_persistent :: bool
  hc_object_refs :: "nat \<Rightarrow> nat"
  hc_closure_refs :: "nat \<Rightarrow> nat"

definition php_http_client_init :: "bool \<Rightarrow> hclient" where
  "php_http_client_init persistent =
     \<lparr>hc_requests = [], hc_responses = [], hc_depth = 0, hc_multi = [], hc_unfinished = 0, hc_handlers = Map.empty, hc_next = 0,
      hc_persistent = persistent, hc_object_refs = (\<lambda>_. 0), hc_closure_refs = (\<lambda>_. 0)\<rparr>"

text \<open>
  The effect of the code of a script, and the answers during one operation: whether the URL of the request names something
  (\<open>create_rf\<close>), whether an easy handle could be made, the handler be prepared (\<open>php_http_client_curl_handler_prepare\<close>),
  the easy handle be removed from and added to the multi handle.
\<close>

type_synonym code = "hclient \<Rightarrow> hclient option"

record curl_env =
  env_url :: bool
  env_handle :: bool
  env_prepare :: bool
  env_remove :: bool
  env_add :: bool

text \<open>A callback of a script.\<close>

definition callback :: "code \<Rightarrow> code" where
  "callback code c = map_option (\<lambda>c. c\<lparr>hc_depth := hc_depth c - 1\<rparr>) (code (c\<lparr>hc_depth := Suc (hc_depth c)\<rparr>))"

definition handle_progress :: "code \<Rightarrow> enqueue \<Rightarrow> code" where
  "handle_progress code e c = (case q_opaque e of OMessage _ \<Rightarrow> callback code c | OHandler _ \<Rightarrow> None)"

section \<open>Destructors\<close>

definition object_release :: "nat \<Rightarrow> code" where
  "object_release m c =
     (if hc_object_refs c m = 0 then None else Some (c\<lparr>hc_object_refs := (hc_object_refs c)(m := hc_object_refs c m - 1)\<rparr>))"

definition object_addref :: "nat \<Rightarrow> hclient \<Rightarrow> hclient" where
  "object_addref m c = c\<lparr>hc_object_refs := (hc_object_refs c)(m := Suc (hc_object_refs c m))\<rparr>"

definition closure_release :: "nat option \<Rightarrow> code" where
  "closure_release f c =
     (case f of
        None \<Rightarrow> Some c
      | Some f \<Rightarrow>
          if hc_closure_refs c f = 0 then None
          else Some (c\<lparr>hc_closure_refs := (hc_closure_refs c)(f := hc_closure_refs c f - 1)\<rparr>))"

definition closure_addref :: "nat option \<Rightarrow> hclient \<Rightarrow> hclient" where
  "closure_addref f c =
     (case f of None \<Rightarrow> c | Some f \<Rightarrow> c\<lparr>hc_closure_refs := (hc_closure_refs c)(f := Suc (hc_closure_refs c f))\<rparr>)"

definition msg_queue_dtor :: "enqueue \<Rightarrow> code" where
  "msg_queue_dtor e c =
     (case q_opaque e of
        OMessage m \<Rightarrow> Option.bind (object_release m c) (closure_release (q_closure e))
      | OHandler _ \<Rightarrow> None)"

text \<open>An easy handle that is cleaned up leaves the multi handle; one that goes back to a persistent pool does not.\<close>

definition php_http_client_curl_handler_dtor :: "nat \<Rightarrow> hclient \<Rightarrow> hclient" where
  "php_http_client_curl_handler_dtor ch c =
     c\<lparr>hc_handlers := (hc_handlers c)(ch := None),
       hc_multi := (if hc_persistent c then hc_multi c else filter (\<lambda>h. h \<noteq> ch) (hc_multi c))\<rparr>"

definition curl_queue_dtor :: "enqueue \<Rightarrow> code" where
  "curl_queue_dtor e c =
     (case q_opaque e of
        OMessage _ \<Rightarrow> None
      | OHandler ch \<Rightarrow>
          (case hc_handlers c ch of
             None \<Rightarrow> None
           | Some h \<Rightarrow>
               map_option (php_http_client_curl_handler_dtor ch)
                 (case q_dtor (hnd_queue h) of
                    None \<Rightarrow> Some c
                  | Some Msg_queue_dtor \<Rightarrow> msg_queue_dtor (e\<lparr>q_opaque := q_opaque (hnd_queue h)\<rparr>) c
                  | Some Curl_queue_dtor \<Rightarrow> None)))"

text \<open>The destructor of the list.\<close>

definition queue_dtor :: "enqueue \<Rightarrow> code" where
  "queue_dtor e c =
     (case q_dtor e of
        None \<Rightarrow> Some c
      | Some Msg_queue_dtor \<Rightarrow> msg_queue_dtor e c
      | Some Curl_queue_dtor \<Rightarrow> curl_queue_dtor e c)"

fun llist_clean :: "enqueue list \<Rightarrow> code" where
  "llist_clean [] c = Some (c\<lparr>hc_requests := []\<rparr>)"
| "llist_clean (e # es) c = Option.bind (queue_dtor e c) (llist_clean es)"

text \<open>The first entry whose handler has the handle is removed.\<close>

definition compare_queue :: "nat \<Rightarrow> enqueue \<Rightarrow> bool" where
  "compare_queue ch e \<longleftrightarrow> q_opaque e = OHandler ch"

definition llist_del_element :: "nat \<Rightarrow> code" where
  "llist_del_element ch c =
     (case List.extract (compare_queue ch) (hc_requests c) of
        None \<Rightarrow> Some c
      | Some (xs, e, ys) \<Rightarrow> queue_dtor e (c\<lparr>hc_requests := xs @ ys\<rparr>))"

section \<open>The curl driver\<close>

definition php_http_client_enqueued :: "hclient \<Rightarrow> nat \<Rightarrow> enqueue option" where
  "php_http_client_enqueued c r = List.find (\<lambda>e. q_request e = r) (hc_requests c)"

text \<open>The handler whose progress \<open>php_http_client_curl_getopt\<close> gives.\<close>

definition curl_progress_info :: "hclient \<Rightarrow> nat \<Rightarrow> nat option" where
  "curl_progress_info c r =
     (case php_http_client_enqueued c r of
        Some e \<Rightarrow> (case q_opaque e of OHandler ch \<Rightarrow> Some ch | OMessage _ \<Rightarrow> None)
      | None \<Rightarrow> None)"

definition handler_update :: "nat \<Rightarrow> (handler \<Rightarrow> handler) \<Rightarrow> code" where
  "handler_update ch f c =
     (case hc_handlers c ch of None \<Rightarrow> None | Some h \<Rightarrow> Some (c\<lparr>hc_handlers := (hc_handlers c)(ch \<mapsto> f h)\<rparr>))"

text \<open>The callback when a transfer starts, at the end of enqueueing and requeueing: \<open>ch\<close> is the handler of the entry.\<close>

definition tell_start :: "code \<Rightarrow> nat \<Rightarrow> nat \<Rightarrow> code" where
  "tell_start code r ch c =
     (case curl_progress_info c r of
        None \<Rightarrow> Some c
      | Some p \<Rightarrow>
          Option.bind (handler_update p (hnd_info_update (\<lambda>_. ''start'')) c) (\<lambda>c.
            case hc_handlers c ch of
              None \<Rightarrow> None
            | Some h \<Rightarrow> Option.bind (handle_progress code (hnd_queue h) c) (handler_update p (hnd_started_update (\<lambda>_. True)))))"

text \<open>The result tells success; the entry of the caller is changed, too.\<close>

definition php_http_client_curl_enqueue :: "curl_env \<Rightarrow> code \<Rightarrow> enqueue \<Rightarrow> hclient \<Rightarrow> (bool \<times> enqueue \<times> hclient) option" where
  "php_http_client_curl_enqueue env code e c =
     (if \<not> env_url env \<or> \<not> env_handle env then Some (False, e, c)
      else
        let ch = hc_next c; c = c\<lparr>hc_next := Suc ch\<rparr> in
        if \<not> env_prepare env then Some (False, e, php_http_client_curl_handler_dtor ch c)
        else
          let c = c\<lparr>hc_handlers := (hc_handlers c)(ch \<mapsto> \<lparr>hnd_queue = e, hnd_info = [], hnd_started = False, hnd_finished = False\<rparr>)\<rparr>;
              e = e\<lparr>q_opaque := OHandler ch, q_dtor := Some Curl_queue_dtor\<rparr> in
          if \<not> env_add env then Some (False, e, php_http_client_curl_handler_dtor ch c)
          else
            let c = c\<lparr>hc_multi := hc_multi c @ [ch], hc_requests := hc_requests c @ [e], hc_unfinished := Suc (hc_unfinished c)\<rparr> in
            map_option (\<lambda>c. (True, e, c)) (tell_start code (q_request e) ch c))"

definition php_http_client_curl_requeue :: "curl_env \<Rightarrow> code \<Rightarrow> enqueue \<Rightarrow> hclient \<Rightarrow> (bool \<times> hclient) option" where
  "php_http_client_curl_requeue env code e c =
     (case q_opaque e of
        OMessage _ \<Rightarrow> None
      | OHandler ch \<Rightarrow>
          if hc_handlers c ch = None then None
          else if \<not> env_prepare env \<or> \<not> env_remove env then Some (False, c)
          else
            let c = c\<lparr>hc_multi := filter (\<lambda>h. h \<noteq> ch) (hc_multi c)\<rparr> in
            if \<not> env_add env then map_option (Pair False) (llist_del_element ch c)
            else
              let c = c\<lparr>hc_multi := hc_multi c @ [ch], hc_unfinished := Suc (hc_unfinished c)\<rparr> in
              map_option (Pair True) (tell_start code (q_request e) ch c))"

definition php_http_client_curl_dequeue :: "bool \<Rightarrow> enqueue \<Rightarrow> hclient \<Rightarrow> (bool \<times> hclient) option" where
  "php_http_client_curl_dequeue remove e c =
     (if hc_depth c \<noteq> 0 then Some (False, c)
      else
        case q_opaque e of
          OMessage _ \<Rightarrow> None
        | OHandler ch \<Rightarrow>
            if hc_handlers c ch = None then None
            else if remove then map_option (Pair True) (llist_del_element ch (c\<lparr>hc_multi := filter (\<lambda>h. h \<noteq> ch) (hc_multi c)\<rparr>))
            else Some (False, c))"

text \<open>\<open>keep\<close> are the handles that cannot be removed.\<close>

fun php_http_client_curl_reset :: "nat list \<Rightarrow> enqueue list \<Rightarrow> code" where
  "php_http_client_curl_reset keep [] c = Some c"
| "php_http_client_curl_reset keep (e # es) c =
     Option.bind (php_http_client_curl_dequeue (\<forall>ch\<in>set keep. \<not> compare_queue ch e) e c)
       (\<lambda>(_, c). php_http_client_curl_reset keep es c)"

section \<open>Clients\<close>

text \<open>The operations of a driver.\<close>

record client_ops =
  op_enqueue :: "curl_env \<Rightarrow> code \<Rightarrow> enqueue \<Rightarrow> hclient \<Rightarrow> (bool \<times> enqueue \<times> hclient) option"
  op_requeue :: "curl_env \<Rightarrow> code \<Rightarrow> enqueue \<Rightarrow> hclient \<Rightarrow> (bool \<times> hclient) option"
  op_dequeue :: "bool \<Rightarrow> enqueue \<Rightarrow> hclient \<Rightarrow> (bool \<times> hclient) option"
  op_reset :: "nat list \<Rightarrow> code"

definition php_http_client_curl_ops :: client_ops where
  "php_http_client_curl_ops =
     \<lparr>op_enqueue = php_http_client_curl_enqueue, op_requeue = php_http_client_curl_requeue,
      op_dequeue = php_http_client_curl_dequeue, op_reset = (\<lambda>keep c. php_http_client_curl_reset keep (hc_requests c) c)\<rparr>"

definition php_http_client_enqueue ::
  "client_ops \<Rightarrow> curl_env \<Rightarrow> code \<Rightarrow> enqueue \<Rightarrow> hclient \<Rightarrow> (bool \<times> enqueue \<times> hclient) option" where
  "php_http_client_enqueue ops env code e c =
     (if php_http_client_enqueued c (q_request e) \<noteq> None then Some (False, e, c) else op_enqueue ops env code e c)"

definition php_http_client_dequeue :: "client_ops \<Rightarrow> bool \<Rightarrow> nat \<Rightarrow> hclient \<Rightarrow> (bool \<times> hclient) option" where
  "php_http_client_dequeue ops remove r c =
     (case php_http_client_enqueued c r of None \<Rightarrow> Some (False, c) | Some e \<Rightarrow> op_dequeue ops remove e c)"

definition php_http_client_requeue :: "client_ops \<Rightarrow> curl_env \<Rightarrow> code \<Rightarrow> nat \<Rightarrow> hclient \<Rightarrow> (bool \<times> hclient) option" where
  "php_http_client_requeue ops env code r c =
     (case php_http_client_enqueued c r of None \<Rightarrow> Some (False, c) | Some e \<Rightarrow> op_requeue ops env code e c)"

definition php_http_client_reset :: "client_ops \<Rightarrow> nat list \<Rightarrow> code" where
  "php_http_client_reset ops keep c =
     Option.bind (op_reset ops keep c) (\<lambda>c. map_option (hc_responses_update (\<lambda>_. [])) (llist_clean (hc_requests c) c))"

section \<open>Methods\<close>

datatype outcome = Done | Bad_method_call | Runtime_error

text \<open>An object of a request and its message.\<close>

record request =
  rq_object :: nat
  rq_message :: nat

definition enqueue_init :: "request \<Rightarrow> hashtable \<Rightarrow> nat option \<Rightarrow> enqueue" where
  "enqueue_init rq options f =
     \<lparr>q_request = rq_message rq, q_options = options, q_dtor = Some Msg_queue_dtor, q_opaque = OMessage (rq_object rq), q_closure = f\<rparr>"

text \<open>The part that enqueueing and requeueing share.\<close>

definition enqueue_message ::
  "client_ops \<Rightarrow> curl_env \<Rightarrow> code \<Rightarrow> request \<Rightarrow> hashtable \<Rightarrow> nat option \<Rightarrow> hclient \<Rightarrow> (outcome \<times> hclient) option" where
  "enqueue_message ops env start rq options f c =
     Option.bind (php_http_client_enqueue ops env start (enqueue_init rq options f) (closure_addref f (object_addref (rq_object rq) c)))
       (\<lambda>(ok, q, c). if ok then Some (Done, c) else map_option (Pair Runtime_error) (msg_queue_dtor q c))"

definition client_enqueue ::
  "client_ops \<Rightarrow> curl_env \<Rightarrow> code \<Rightarrow> code \<Rightarrow> request \<Rightarrow> hashtable \<Rightarrow> nat option \<Rightarrow> hclient \<Rightarrow> (outcome \<times> hclient) option" where
  "client_enqueue ops env prepare start rq options f c =
     (if php_http_client_enqueued c (rq_message rq) \<noteq> None then Some (Bad_method_call, c)
      else Option.bind (handle_progress prepare (enqueue_init rq options f) c) (enqueue_message ops env start rq options f))"

definition client_dequeue :: "client_ops \<Rightarrow> bool \<Rightarrow> request \<Rightarrow> hclient \<Rightarrow> (outcome \<times> hclient) option" where
  "client_dequeue ops remove rq c =
     (if php_http_client_enqueued c (rq_message rq) = None then Some (Bad_method_call, c)
      else map_option (map_prod (\<lambda>ok. if ok then Done else Runtime_error) id) (php_http_client_dequeue ops remove (rq_message rq) c))"

text \<open>A change of the first entry of a request.\<close>

fun update_entry :: "nat \<Rightarrow> (enqueue \<Rightarrow> enqueue) \<Rightarrow> enqueue list \<Rightarrow> enqueue list" where
  "update_entry r f [] = []"
| "update_entry r f (e # es) = (if q_request e = r then f e # es else e # update_entry r f es)"

definition client_requeue ::
  "client_ops \<Rightarrow> curl_env \<Rightarrow> code \<Rightarrow> request \<Rightarrow> hashtable \<Rightarrow> nat option \<Rightarrow> hclient \<Rightarrow> (outcome \<times> hclient) option" where
  "client_requeue ops env start rq options f c =
     (case php_http_client_enqueued c (rq_message rq) of
        None \<Rightarrow> enqueue_message ops env start rq options f c
      | Some _ \<Rightarrow>
          Option.bind (php_http_client_requeue ops env start (rq_message rq)
              (c\<lparr>hc_requests := update_entry (rq_message rq) (q_options_update (\<lambda>_. options)) (hc_requests c)\<rparr>))
            (\<lambda>(ok, c).
               if \<not> ok then Some (Runtime_error, c)
               else if f = None then Some (Done, c)
               else
                 case php_http_client_enqueued c (rq_message rq) of
                   None \<Rightarrow> None
                 | Some e \<Rightarrow>
                     map_option (\<lambda>c. (Done, (closure_addref f c)\<lparr>hc_requests :=
                         update_entry (rq_message rq) (q_closure_update (\<lambda>_. f)) (hc_requests c)\<rparr>))
                       (closure_release (q_closure e) c)))"

definition client_count :: "hclient \<Rightarrow> nat" where
  "client_count c = length (hc_requests c)"

text \<open>The response of a request, or the last one, which is taken off.\<close>

definition client_getResponse :: "request option \<Rightarrow> hclient \<Rightarrow> nat option \<times> hclient" where
  "client_getResponse rq c =
     (case rq of
        Some rq \<Rightarrow> (map_option fst (List.find (\<lambda>r. snd r = rq_message rq) (hc_responses c)), c)
      | None \<Rightarrow>
          if hc_responses c = [] then (None, c)
          else (Some (fst (last (hc_responses c))), c\<lparr>hc_responses := butlast (hc_responses c)\<rparr>))"

section \<open>Responses\<close>

text \<open>
  The callback for a response that is complete: \<open>closure\<close> and \<open>dequeue\<close> are the code of the request's closure and whether it
  returns true, \<open>finished\<close> is the code of the observers. The entry is the copy in the handler.
\<close>

definition call_closure :: "code \<Rightarrow> nat \<Rightarrow> handler \<Rightarrow> code" where
  "call_closure closure ch h c =
     (case q_closure (hnd_queue h) of
        None \<Rightarrow> Some c
      | Some f \<Rightarrow> if hc_closure_refs c f = 0 then None else callback closure c)"

definition tell_finished :: "code \<Rightarrow> handler \<Rightarrow> code" where
  "tell_finished finished h c =
     (case curl_progress_info c (q_request (hnd_queue h)) of
        None \<Rightarrow> Some c
      | Some p \<Rightarrow>
          Option.bind (handler_update p (\<lambda>h. h\<lparr>hnd_info := ''finished'', hnd_finished := True\<rparr>) c)
            (handle_progress finished (hnd_queue h)))"

definition handle_response :: "client_ops \<Rightarrow> bool \<Rightarrow> code \<Rightarrow> bool \<Rightarrow> code \<Rightarrow> nat \<Rightarrow> nat \<Rightarrow> code" where
  "handle_response ops remove closure dequeue finished response ch c =
     (case hc_handlers c ch of
        None \<Rightarrow> None
      | Some h \<Rightarrow>
          if (case q_opaque (hnd_queue h) of OHandler _ \<Rightarrow> True | OMessage _ \<Rightarrow> False) then None
          else Option.bind (call_closure closure ch h (c\<lparr>hc_responses := hc_responses c @ [(response, q_request (hnd_queue h))]\<rparr>)) (\<lambda>c.
            case hc_handlers c ch of
              None \<Rightarrow> None
            | Some h' \<Rightarrow>
                Option.bind (tell_finished finished h' c) (\<lambda>c.
                  if dequeue \<and> q_closure (hnd_queue h) \<noteq> None then
                    (case hc_handlers c ch of
                       None \<Rightarrow> None
                     | Some h'' \<Rightarrow> map_option snd (php_http_client_dequeue ops remove (q_request (hnd_queue h'')) c))
                  else Some c)))"

text \<open>One transfer that is done, of those that the loop of the response handler reads; \<open>running\<close> is the number of unfinished ones.\<close>

definition php_http_client_curl_responsehandler :: "client_ops \<Rightarrow> bool \<Rightarrow> code \<Rightarrow> bool \<Rightarrow> code \<Rightarrow> nat \<Rightarrow> nat \<Rightarrow> code" where
  "php_http_client_curl_responsehandler ops remove closure dequeue finished response ch c =
     (if List.find (compare_queue ch) (hc_requests c) = None then Some c
      else handle_response ops remove closure dequeue finished response ch c)"

definition php_http_client_curl_once :: "client_ops \<Rightarrow> bool \<Rightarrow> code \<Rightarrow> bool \<Rightarrow> code \<Rightarrow> nat \<Rightarrow> nat \<Rightarrow> nat \<Rightarrow> code" where
  "php_http_client_curl_once ops remove closure dequeue finished response ch running c =
     (if hc_depth c = 0 then
        php_http_client_curl_responsehandler ops remove closure dequeue finished response ch (c\<lparr>hc_unfinished := running\<rparr>)
      else Some c)"

section \<open>Scripts\<close>

text \<open>The calls of a script. The lists in a call are the calls of the callbacks it runs.\<close>

datatype call =
    Enqueue curl_env request hashtable "nat option" "call list" "call list"
  | Dequeue bool request
  | Requeue curl_env request hashtable "nat option" "call list"
  | Reset "nat list"
  | Get_response "request option"
  | Once bool "call list" bool "call list" nat nat nat

fun run_calls :: "client_ops \<Rightarrow> call list \<Rightarrow> code" where
  "run_calls ops [] c = Some c"
| "run_calls ops (Enqueue env rq options f prepare start # cs) c =
     Option.bind (client_enqueue ops env (\<lambda>c. run_calls ops prepare c) (\<lambda>c. run_calls ops start c) rq options f c)
       (\<lambda>(_, c). run_calls ops cs c)"
| "run_calls ops (Dequeue remove rq # cs) c =
     Option.bind (client_dequeue ops remove rq c) (\<lambda>(_, c). run_calls ops cs c)"
| "run_calls ops (Requeue env rq options f start # cs) c =
     Option.bind (client_requeue ops env (\<lambda>c. run_calls ops start c) rq options f c) (\<lambda>(_, c). run_calls ops cs c)"
| "run_calls ops (Reset keep # cs) c = Option.bind (php_http_client_reset ops keep c) (\<lambda>c. run_calls ops cs c)"
| "run_calls ops (Get_response rq # cs) c = run_calls ops cs (snd (client_getResponse rq c))"
| "run_calls ops (Once remove closure dequeue finished response ch running # cs) c =
     Option.bind (php_http_client_curl_once ops remove (\<lambda>c. run_calls ops closure c) dequeue (\<lambda>c. run_calls ops finished c)
         response ch running c)
       (\<lambda>c. run_calls ops cs c)"

end
