(* ===== verification/Http_Client_Queue.thy ===== *)
theory Http_Client_Queue
  imports Http_Client
begin

text \<open>
  The invariant of the queue of a client, the contract of a driver as a locale, the curl driver as its instance,
  and the scripts that keep the invariant.
\<close>

section \<open>The invariant\<close>

text \<open>An entry and its handler.\<close>

definition linked :: "(nat \<rightharpoonup> handler) \<Rightarrow> enqueue \<Rightarrow> nat \<Rightarrow> handler \<Rightarrow> nat \<Rightarrow> bool" where
  "linked hs e ch h m \<longleftrightarrow>
     q_opaque e = OHandler ch \<and> q_dtor e = Some Curl_queue_dtor \<and> hs ch = Some h \<and>
     q_request (hnd_queue h) = q_request e \<and> q_closure (hnd_queue h) = q_closure e \<and>
     q_dtor (hnd_queue h) = Some Msg_queue_dtor \<and> q_opaque (hnd_queue h) = OMessage m"

definition object_of :: "(nat \<rightharpoonup> handler) \<Rightarrow> enqueue \<Rightarrow> nat option" where
  "object_of hs e =
     (case q_opaque e of
        OMessage m \<Rightarrow> Some m
      | OHandler ch \<Rightarrow>
          (case hs ch of
             None \<Rightarrow> None
           | Some h \<Rightarrow> (case q_opaque (hnd_queue h) of OMessage m \<Rightarrow> Some m | OHandler _ \<Rightarrow> None)))"

definition object_count :: "(nat \<rightharpoonup> handler) \<Rightarrow> enqueue list \<Rightarrow> nat \<Rightarrow> nat" where
  "object_count hs es m = length (filter (\<lambda>e. object_of hs e = Some m) es)"

definition closure_count :: "enqueue list \<Rightarrow> nat \<Rightarrow> nat" where
  "closure_count es f = length (filter (\<lambda>e. q_closure e = Some f) es)"

text \<open>Every entry has a handler of its own, and every handler an entry.\<close>

definition good_queue :: "(nat \<rightharpoonup> handler) \<Rightarrow> enqueue list \<Rightarrow> bool" where
  "good_queue hs es \<longleftrightarrow>
     distinct (map q_request es) \<and> distinct (map q_opaque es) \<and>
     (\<forall>e\<in>set es. \<exists>ch h m. linked hs e ch h m) \<and>
     (\<forall>ch. hs ch \<noteq> None \<longrightarrow> OHandler ch \<in> q_opaque ` set es)"

definition good_multi :: "hclient \<Rightarrow> bool" where
  "good_multi c \<longleftrightarrow>
     dom (hc_handlers c) \<subseteq> set (hc_multi c) \<and> (\<forall>ch\<in>set (hc_multi c). ch < hc_next c) \<and>
     (\<not> hc_persistent c \<longrightarrow> set (hc_multi c) \<subseteq> dom (hc_handlers c))"

text \<open>The queue holds exactly one reference of the object and the closure of each entry.\<close>

definition good_refs :: "hclient \<Rightarrow> enqueue list \<Rightarrow> bool" where
  "good_refs c es \<longleftrightarrow>
     hc_object_refs c = object_count (hc_handlers c) es \<and> hc_closure_refs c = closure_count es"

definition queue_ok :: "hclient \<Rightarrow> bool" where
  "queue_ok c \<longleftrightarrow> good_queue (hc_handlers c) (hc_requests c) \<and> good_multi c \<and> good_refs c (hc_requests c)"

lemma queue_ok_init: "queue_ok (php_http_client_init p)"
  by (simp add: queue_ok_def php_http_client_init_def good_queue_def good_multi_def good_refs_def object_count_def closure_count_def fun_eq_iff)

lemma queue_ok_frame [simp]:
  "queue_ok (c\<lparr>hc_depth := d\<rparr>) = queue_ok c"
  "queue_ok (c\<lparr>hc_responses := rs\<rparr>) = queue_ok c"
  "queue_ok (c\<lparr>hc_unfinished := n\<rparr>) = queue_ok c"
  by (simp_all add: queue_ok_def good_multi_def good_refs_def)

subsection \<open>Handlers\<close>

lemma linked_opaque: "linked hs e ch h m \<Longrightarrow> q_opaque e = OHandler ch"
  by (simp add: linked_def)

lemma object_of_linked: "linked hs e ch h m \<Longrightarrow> object_of hs e = Some m"
  by (simp add: linked_def object_of_def)

lemma linked_other: "linked hs e ch h m \<Longrightarrow> ch \<noteq> ch' \<Longrightarrow> linked (hs(ch' := x)) e ch h m"
  by (simp add: linked_def)

lemma object_of_other: "q_opaque e \<noteq> OHandler ch \<Longrightarrow> object_of (hs(ch := x)) e = object_of hs e"
  by (auto simp: object_of_def split: opaque.split)

lemma object_count_other:
  "OHandler ch \<notin> q_opaque ` set es \<Longrightarrow> object_count (hs(ch := x)) es = object_count hs es"
  by (induction es) (simp_all add: object_count_def fun_eq_iff object_of_other [OF not_sym])

lemma object_count_split [simp]: "object_count hs (xs @ ys) m = object_count hs xs m + object_count hs ys m"
  "object_count hs (e # es) m = (if object_of hs e = Some m then Suc (object_count hs es m) else object_count hs es m)"
  "object_count hs [] m = 0"
  by (simp_all add: object_count_def)

lemma closure_count_split [simp]: "closure_count (xs @ ys) m = closure_count xs m + closure_count ys m"
  "closure_count (e # es) m = (if q_closure e = Some m then Suc (closure_count es m) else closure_count es m)"
  "closure_count [] m = 0"
  by (simp_all add: closure_count_def)

lemma good_queue_remove:
  assumes "good_queue hs (xs @ e # ys)" "q_opaque e = OHandler ch"
  shows "good_queue (hs(ch := None)) (xs @ ys)" "object_count (hs(ch := None)) (xs @ ys) = object_count hs (xs @ ys)"
proof -
  have no: "OHandler ch \<notin> q_opaque ` set (xs @ ys)"
    using assms by (auto simp: good_queue_def)
  then show "object_count (hs(ch := None)) (xs @ ys) = object_count hs (xs @ ys)"
    by (rule object_count_other)
  have "\<exists>ch' h m. linked (hs(ch := None)) e' ch' h m" if "e' \<in> set (xs @ ys)" for e'
  proof -
    have "\<exists>ch' h m. linked hs e' ch' h m"
      using assms(1) that by (auto simp: good_queue_def)
    then obtain ch' h m where l: "linked hs e' ch' h m"
      by blast
    have "ch' \<noteq> ch"
      using no that linked_opaque [OF l] by force
    with linked_other [OF l] show ?thesis
      by blast
  qed
  then show "good_queue (hs(ch := None)) (xs @ ys)"
    using assms by (auto simp: good_queue_def)
qed

lemma good_queue_append:
  assumes "good_queue hs es" "hs ch = None" "q_request e \<notin> q_request ` set es" "linked (hs(ch \<mapsto> h)) e ch h m"
  shows "good_queue (hs(ch \<mapsto> h)) (es @ [e])" "object_count (hs(ch \<mapsto> h)) es = object_count hs es"
proof -
  have no: "OHandler ch \<notin> q_opaque ` set es"
    using assms(1,2) unfolding good_queue_def linked_def by force
  then show "object_count (hs(ch \<mapsto> h)) es = object_count hs es"
    by (rule object_count_other)
  have "\<exists>ch' h' m. linked (hs(ch \<mapsto> h)) e' ch' h' m" if "e' \<in> set es" for e'
  proof -
    have "\<exists>ch' h m. linked hs e' ch' h m"
      using assms(1) that by (auto simp: good_queue_def)
    then obtain ch' h' m where l: "linked hs e' ch' h' m"
      by blast
    have "ch' \<noteq> ch"
      using no that linked_opaque [OF l] by force
    with linked_other [OF l] show ?thesis
      by blast
  qed
  then show "good_queue (hs(ch \<mapsto> h)) (es @ [e])"
    using assms no linked_opaque [OF assms(4)] by (auto simp: good_queue_def)
qed

text \<open>The progress of a handler does not matter.\<close>

lemma linked_progress:
  "hs ch' = Some h' \<Longrightarrow> hnd_queue g = hnd_queue h' \<Longrightarrow> linked hs e ch h m \<Longrightarrow> \<exists>h. linked (hs(ch' \<mapsto> g)) e ch h m"
  by (cases "ch' = ch") (auto simp: linked_def)

lemma object_of_progress: "hs ch = Some h \<Longrightarrow> hnd_queue g = hnd_queue h \<Longrightarrow> object_of (hs(ch \<mapsto> g)) = object_of hs"
  by (rule ext) (auto simp: object_of_def split: opaque.split)

lemma queue_ok_progress:
  assumes "queue_ok c" "hc_handlers c ch = Some h" "hnd_queue g = hnd_queue h"
  shows "queue_ok (c\<lparr>hc_handlers := (hc_handlers c)(ch \<mapsto> g)\<rparr>)"
proof -
  have "good_queue ((hc_handlers c)(ch \<mapsto> g)) (hc_requests c)"
    using assms unfolding queue_ok_def good_queue_def
    by (metis (no_types, lifting) fun_upd_apply linked_progress option.discI)
  moreover have "good_multi (c\<lparr>hc_handlers := (hc_handlers c)(ch \<mapsto> g)\<rparr>)"
    using assms(1,2) by (auto simp: queue_ok_def good_multi_def)
  moreover have "good_refs (c\<lparr>hc_handlers := (hc_handlers c)(ch \<mapsto> g)\<rparr>) (hc_requests c)"
    using assms(1) by (simp add: queue_ok_def good_refs_def object_count_def fun_eq_iff
        object_of_progress [where hs = "hc_handlers c", OF assms(2,3)])
  ultimately show ?thesis
    by (simp add: queue_ok_def)
qed


text \<open>An entry that leaves the list: its destructor frees the handler and gives its references back.\<close>

lemma queue_dtor_linked:
  assumes "good_queue (hc_handlers c) (xs @ e # ys)" "good_refs c (xs @ e # ys)"
  shows "\<exists>ch c'. q_opaque e = OHandler ch \<and> queue_dtor e c = Some (php_http_client_curl_handler_dtor ch c') \<and>
    good_queue ((hc_handlers c)(ch := None)) (xs @ ys) \<and> hc_handlers c ch \<noteq> None \<and>
    hc_object_refs c' = object_count ((hc_handlers c)(ch := None)) (xs @ ys) \<and> hc_closure_refs c' = closure_count (xs @ ys) \<and>
    c'\<lparr>hc_object_refs := hc_object_refs c, hc_closure_refs := hc_closure_refs c\<rparr> = c"
proof -
  have "\<exists>ch h m. linked (hc_handlers c) e ch h m"
    using assms(1) by (auto simp: good_queue_def)
  then obtain ch h m where l: "linked (hc_handlers c) e ch h m"
    by blast
  note o = linked_opaque [OF l]
  note rm = good_queue_remove [OF assms(1) o]
  have om: "object_of (hc_handlers c) e = Some m"
    by (rule object_of_linked [OF l])
  have m: "hc_object_refs c = (object_count (hc_handlers c) (xs @ ys))(m := Suc (object_count (hc_handlers c) (xs @ ys) m))"
    using assms(2) om by (auto simp: good_refs_def fun_eq_iff)
  let ?c1 = "c\<lparr>hc_object_refs := object_count (hc_handlers c) (xs @ ys)\<rparr>"
  have rel: "object_release m c = Some ?c1"
    by (simp add: object_release_def m fun_eq_iff)
  obtain c' where c': "closure_release (q_closure e) ?c1 = Some c'" "hc_closure_refs c' = closure_count (xs @ ys)"
    "c'\<lparr>hc_closure_refs := hc_closure_refs c\<rparr> = ?c1"
  proof (cases "q_closure e")
    case None
    then show ?thesis
      using that [of ?c1] assms(2) by (simp add: closure_release_def good_refs_def fun_eq_iff)
  next
    case (Some f)
    then have "hc_closure_refs c = (closure_count (xs @ ys))(f := Suc (closure_count (xs @ ys) f))"
      using assms(2) by (auto simp: good_refs_def fun_eq_iff)
    then show ?thesis
      using that [of "?c1\<lparr>hc_closure_refs := closure_count (xs @ ys)\<rparr>"] Some by (simp add: closure_release_def fun_eq_iff)
  qed
  have "queue_dtor e c = Some (php_http_client_curl_handler_dtor ch c')"
    using l rel c'(1) by (simp add: queue_dtor_def curl_queue_dtor_def msg_queue_dtor_def linked_def)
  moreover have "hc_object_refs c' = object_count ((hc_handlers c)(ch := None)) (xs @ ys)"
    using arg_cong [OF c'(3), of hc_object_refs] by (simp add: rm(2))
  moreover have "c'\<lparr>hc_object_refs := hc_object_refs c, hc_closure_refs := hc_closure_refs c\<rparr> = c"
    using arg_cong [OF c'(3), of "hc_object_refs_update (\<lambda>_. hc_object_refs c)"] by (cases c') simp
  ultimately show ?thesis
    using o rm(1) c'(2) l by (auto simp: linked_def)
qed


text \<open>The state after a destructor, in terms of the state before.\<close>

lemma refs_only:
  assumes "c'\<lparr>hc_object_refs := hc_object_refs c, hc_closure_refs := hc_closure_refs c\<rparr> = c"
  shows "hc_requests c' = hc_requests c \<and> hc_depth c' = hc_depth c \<and> hc_handlers c' = hc_handlers c \<and> hc_multi c' = hc_multi c \<and>
    hc_next c' = hc_next c \<and> hc_persistent c' = hc_persistent c"
  using arg_cong [OF assms, of hc_requests] arg_cong [OF assms, of hc_depth] arg_cong [OF assms, of hc_handlers]
    arg_cong [OF assms, of hc_multi] arg_cong [OF assms, of hc_next] arg_cong [OF assms, of hc_persistent]
  by simp

lemma handler_dtor_multi:
  assumes "c'\<lparr>hc_object_refs := hc_object_refs c, hc_closure_refs := hc_closure_refs c\<rparr> = c"
    and "dom (hc_handlers c) - {ch} \<subseteq> set (hc_multi c)" "\<forall>h\<in>set (hc_multi c). h < hc_next c"
    and "\<not> hc_persistent c \<longrightarrow> set (hc_multi c) - {ch} \<subseteq> dom (hc_handlers c)"
  shows "good_multi (php_http_client_curl_handler_dtor ch c')"
  using assms(2-) refs_only [OF assms(1)] by (auto simp: good_multi_def php_http_client_curl_handler_dtor_def)

lemma handler_dtor_other:
  assumes "c'\<lparr>hc_object_refs := hc_object_refs c, hc_closure_refs := hc_closure_refs c\<rparr> = c"
  shows "hc_requests (php_http_client_curl_handler_dtor ch c') = hc_requests c"
    "hc_depth (php_http_client_curl_handler_dtor ch c') = hc_depth c"
    "hc_handlers (php_http_client_curl_handler_dtor ch c') = (hc_handlers c)(ch := None)"
    "hc_object_refs (php_http_client_curl_handler_dtor ch c') = hc_object_refs c'"
    "hc_closure_refs (php_http_client_curl_handler_dtor ch c') = hc_closure_refs c'"
  using refs_only [OF assms] by (simp_all add: php_http_client_curl_handler_dtor_def)

text \<open>Emptying the list.\<close>

lemma llist_clean_ok:
  assumes "good_queue (hc_handlers c) es" "good_refs c es" "good_multi c"
  shows "\<exists>c'. llist_clean es c = Some c' \<and> queue_ok c' \<and> hc_requests c' = [] \<and> hc_depth c' = hc_depth c"
  using assms
proof (induction es arbitrary: c)
  case Nil
  then show ?case
    by (simp add: queue_ok_def good_multi_def good_refs_def)
next
  case (Cons e es)
  obtain ch c' where d: "queue_dtor e c = Some (php_http_client_curl_handler_dtor ch c')"
    "good_queue ((hc_handlers c)(ch := None)) es"
    "hc_object_refs c' = object_count ((hc_handlers c)(ch := None)) es" "hc_closure_refs c' = closure_count es"
    and same: "c'\<lparr>hc_object_refs := hc_object_refs c, hc_closure_refs := hc_closure_refs c\<rparr> = c"
    using queue_dtor_linked [of c "[]" e es] Cons.prems(1,2) by auto
  note other = handler_dtor_other [OF same]
  have "good_multi (php_http_client_curl_handler_dtor ch c')"
    using Cons.prems(3) by (intro handler_dtor_multi [OF same]) (auto simp: good_multi_def)
  moreover have "good_queue (hc_handlers (php_http_client_curl_handler_dtor ch c')) es" "good_refs (php_http_client_curl_handler_dtor ch c') es"
    using d by (simp_all add: good_refs_def other)
  ultimately obtain c'' where "llist_clean es (php_http_client_curl_handler_dtor ch c') = Some c''" "queue_ok c''"
    "hc_requests c'' = []" "hc_depth c'' = hc_depth c"
    using Cons.IH [of "php_http_client_curl_handler_dtor ch c'"] other(2) by metis
  then show ?case
    using d(1) by simp
qed

text \<open>Removing the entry of a handle that left the multi handle.\<close>

lemma llist_del_element_ok:
  assumes ok: "queue_ok c" and e: "e \<in> set (hc_requests c)" "q_opaque e = OHandler ch"
  shows "\<exists>c' xs ys. hc_requests c = xs @ e # ys \<and>
    llist_del_element ch (c\<lparr>hc_multi := filter (\<lambda>h. h \<noteq> ch) (hc_multi c)\<rparr>) = Some c' \<and>
    queue_ok c' \<and> hc_requests c' = xs @ ys \<and> hc_depth c' = hc_depth c \<and> hc_handlers c' = (hc_handlers c)(ch := None)"
proof -
  let ?c = "c\<lparr>hc_multi := filter (\<lambda>h. h \<noteq> ch) (hc_multi c)\<rparr>"
  have dist: "distinct (map q_opaque (hc_requests c))"
    using ok by (simp add: queue_ok_def good_queue_def)
  obtain xs ys e' where ex: "List.extract (compare_queue ch) (hc_requests c) = Some (xs, e', ys)"
  proof (cases "List.extract (compare_queue ch) (hc_requests c)")
    case None
    then show ?thesis
      using e by (auto simp: extract_None_iff compare_queue_def)
  next
    case (Some p)
    then show ?thesis
      using that by (cases p) auto
  qed
  from extract_SomeE [OF ex] have split: "hc_requests c = xs @ e' # ys" and "compare_queue ch e'"
    by simp_all
  have "e' = e"
  proof (rule inj_onD)
    show "inj_on q_opaque (set (hc_requests c))"
      using dist by (simp add: distinct_map)
    show "q_opaque e' = q_opaque e"
      using \<open>compare_queue ch e'\<close> e(2) by (simp add: compare_queue_def)
    show "e' \<in> set (hc_requests c)"
      by (simp add: split)
  qed (rule e(1))
  note split = split [unfolded this]
  let ?d = "?c\<lparr>hc_requests := xs @ ys\<rparr>"
  have "good_queue (hc_handlers ?d) (xs @ e # ys)" "good_refs ?d (xs @ e # ys)"
    using ok by (simp_all add: queue_ok_def split good_refs_def)
  from queue_dtor_linked [OF this] e(2) obtain c' where d: "queue_dtor e ?d = Some (php_http_client_curl_handler_dtor ch c')"
    "good_queue ((hc_handlers c)(ch := None)) (xs @ ys)"
    "hc_object_refs c' = object_count ((hc_handlers c)(ch := None)) (xs @ ys)" "hc_closure_refs c' = closure_count (xs @ ys)"
    and same: "c'\<lparr>hc_object_refs := hc_object_refs ?d, hc_closure_refs := hc_closure_refs ?d\<rparr> = ?d"
    by auto
  note other = handler_dtor_other [OF same]
  have "good_multi (php_http_client_curl_handler_dtor ch c')"
    using ok by (intro handler_dtor_multi [OF same]) (auto simp: good_multi_def queue_ok_def)
  then have "queue_ok (php_http_client_curl_handler_dtor ch c')"
    using d by (simp add: queue_ok_def other good_refs_def)
  moreover have "llist_del_element ch ?c = Some (php_http_client_curl_handler_dtor ch c')"
    using d(1) by (simp add: llist_del_element_def ex \<open>e' = e\<close>)
  ultimately show ?thesis
    using split other by auto
qed


section \<open>Code that keeps_handlers the invariant\<close>

text \<open>The handlers of a state live on, with their copies of the entries.\<close>

definition keeps_handlers :: "hclient \<Rightarrow> hclient \<Rightarrow> bool" where
  "keeps_handlers c c' \<longleftrightarrow> (\<forall>ch h. hc_handlers c ch = Some h \<longrightarrow> (\<exists>h'. hc_handlers c' ch = Some h' \<and> hnd_queue h' = hnd_queue h))"

definition kept :: "hclient \<Rightarrow> hclient option \<Rightarrow> bool" where
  "kept c r \<longleftrightarrow> (\<exists>c'. r = Some c' \<and> queue_ok c' \<and> hc_depth c' = hc_depth c \<and> keeps_handlers c c')"

text \<open>Outside of callbacks, entries may leave.\<close>

definition goes :: "hclient \<Rightarrow> hclient option \<Rightarrow> bool" where
  "goes c r \<longleftrightarrow> (\<exists>c'. r = Some c' \<and> queue_ok c' \<and> hc_depth c' = hc_depth c \<and> (hc_depth c \<noteq> 0 \<longrightarrow> keeps_handlers c c'))"

text \<open>The code of a callback.\<close>

definition harmless :: "code \<Rightarrow> bool" where
  "harmless code \<longleftrightarrow> (\<forall>c. queue_ok c \<and> hc_depth c \<noteq> 0 \<longrightarrow> kept c (code c))"

lemma keeps_refl [simp]: "keeps_handlers c c"
  by (simp add: keeps_handlers_def)

lemma keeps_trans: "keeps_handlers a b \<Longrightarrow> keeps_handlers b c \<Longrightarrow> keeps_handlers a c"
  unfolding keeps_handlers_def by metis

lemma keeps_frame [simp]:
  "keeps_handlers (c\<lparr>hc_depth := d\<rparr>) c' = keeps_handlers c c'" "keeps_handlers c (c'\<lparr>hc_depth := d\<rparr>) = keeps_handlers c c'"
  "keeps_handlers (c\<lparr>hc_responses := rs\<rparr>) c' = keeps_handlers c c'" "keeps_handlers (c\<lparr>hc_unfinished := n\<rparr>) c' = keeps_handlers c c'"
  by (simp_all add: keeps_handlers_def)

lemma kept_goes: "kept c r \<Longrightarrow> goes c r"
  by (auto simp: kept_def goes_def)

lemma goes_kept: "goes c r \<Longrightarrow> hc_depth c \<noteq> 0 \<Longrightarrow> kept c r"
  by (auto simp: kept_def goes_def)

lemma kept_Some: "queue_ok c \<Longrightarrow> kept c (Some c)"
  by (simp add: kept_def)

lemma goes_Some: "queue_ok c \<Longrightarrow> goes c (Some c)"
  by (simp add: goes_def)

lemma kept_bind: "kept c r \<Longrightarrow> (\<And>d. queue_ok d \<Longrightarrow> hc_depth d = hc_depth c \<Longrightarrow> keeps_handlers c d \<Longrightarrow> kept d (f d)) \<Longrightarrow> kept c (Option.bind r f)"
  by (fastforce simp: kept_def dest: keeps_trans)

lemma goes_bind: "goes c r \<Longrightarrow> (\<And>d. queue_ok d \<Longrightarrow> hc_depth d = hc_depth c \<Longrightarrow> goes d (f d)) \<Longrightarrow> goes c (Option.bind r f)"
  by (fastforce simp: goes_def dest: keeps_trans)

lemma kept_goes_bind:
  "kept c r \<Longrightarrow> (\<And>d. queue_ok d \<Longrightarrow> hc_depth d = hc_depth c \<Longrightarrow> keeps_handlers c d \<Longrightarrow> goes d (f d)) \<Longrightarrow> goes c (Option.bind r f)"
  by (fastforce simp: goes_def kept_def dest: keeps_trans)

lemma goes_map_snd_bind:
  "goes c (map_option snd r) \<Longrightarrow> (\<And>d. queue_ok d \<Longrightarrow> hc_depth d = hc_depth c \<Longrightarrow> goes d (f d)) \<Longrightarrow>
     goes c (Option.bind r (\<lambda>(_, d). f d))"
  using goes_bind [of c "map_option snd r" f] by (cases r) (simp_all add: case_prod_beta)

lemma callback_kept:
  assumes "harmless code" "queue_ok c"
  shows "kept c (callback code c)"
proof -
  have "kept (c\<lparr>hc_depth := Suc (hc_depth c)\<rparr>) (code (c\<lparr>hc_depth := Suc (hc_depth c)\<rparr>))"
    using assms by (simp add: harmless_def)
  then show ?thesis
    by (auto simp: kept_def callback_def)
qed

lemma progress_kept: "harmless code \<Longrightarrow> queue_ok c \<Longrightarrow> q_opaque e = OMessage m \<Longrightarrow> kept c (handle_progress code e c)"
  by (simp add: handle_progress_def callback_kept)

lemma handler_update_kept:
  assumes "queue_ok c" "hc_handlers c ch \<noteq> None" "\<And>h. hnd_queue (f h) = hnd_queue h"
  shows "kept c (handler_update ch f c)"
  using assms queue_ok_progress [OF assms(1)] by (auto simp: handler_update_def kept_def keeps_handlers_def)

text \<open>An entry of the queue and its handler.\<close>

lemma queued_linked: "queue_ok c \<Longrightarrow> e \<in> set (hc_requests c) \<Longrightarrow> \<exists>ch h m. linked (hc_handlers c) e ch h m"
  by (auto simp: queue_ok_def good_queue_def)

lemma enqueued_SomeD: "php_http_client_enqueued c r = Some e \<Longrightarrow> e \<in> set (hc_requests c) \<and> q_request e = r"
  by (auto simp: php_http_client_enqueued_def find_Some_iff)

lemma handler_entry:
  assumes "queue_ok c" "hc_handlers c ch = Some h"
  shows "\<exists>e m. e \<in> set (hc_requests c) \<and> linked (hc_handlers c) e ch h m"
proof -
  have "OHandler ch \<in> q_opaque ` set (hc_requests c)"
    using assms by (auto simp: queue_ok_def good_queue_def)
  then obtain e where e: "e \<in> set (hc_requests c)" "q_opaque e = OHandler ch"
    by auto
  with queued_linked [OF assms(1) e(1)] assms(2) show ?thesis
    by (auto simp: linked_def)
qed

text \<open>A request that is in the queue is there as long as its handler is.\<close>

lemma keeps_enqueued:
  assumes "queue_ok c" "queue_ok d" "keeps_handlers c d" "php_http_client_enqueued c r \<noteq> None"
  shows "php_http_client_enqueued d r \<noteq> None"
proof -
  obtain e where "e \<in> set (hc_requests c)" "q_request e = r"
    using assms(4) enqueued_SomeD by blast
  then obtain ch h m where "linked (hc_handlers c) e ch h m"
    using queued_linked [OF assms(1)] by blast
  then obtain h' where "hc_handlers d ch = Some h'" "q_request (hnd_queue h') = r"
    using assms(3) \<open>q_request e = r\<close> unfolding keeps_handlers_def linked_def by metis
  with handler_entry [OF assms(2)] obtain e' where "e' \<in> set (hc_requests d)" "q_request e' = r"
    unfolding linked_def by (metis option.inject)
  then show ?thesis
    by (auto simp: php_http_client_enqueued_def find_None_iff)
qed

lemma progress_info_handler:
  assumes "queue_ok c" "curl_progress_info c r = Some p"
  shows "hc_handlers c p \<noteq> None"
proof -
  obtain e where "php_http_client_enqueued c r = Some e" "q_opaque e = OHandler p"
    using assms(2) by (auto simp: curl_progress_info_def split: option.splits opaque.splits)
  then show ?thesis
    using queued_linked [OF assms(1), of e] enqueued_SomeD [of c r e] by (auto simp: linked_def)
qed

lemma keeps_handler: "keeps_handlers c d \<Longrightarrow> hc_handlers c ch \<noteq> None \<Longrightarrow> hc_handlers d ch \<noteq> None"
  by (fastforce simp: keeps_handlers_def)

lemma tell_start_kept:
  assumes "harmless code" "queue_ok c" "hc_handlers c ch \<noteq> None"
  shows "kept c (tell_start code r ch c)"
proof (cases "curl_progress_info c r")
  case None
  then show ?thesis
    using assms(2) by (simp add: tell_start_def kept_Some)
next
  case (Some p)
  note p = progress_info_handler [OF assms(2) Some]
  show ?thesis
    unfolding tell_start_def Some option.case
  proof (rule kept_bind [OF handler_update_kept [OF assms(2) p]], simp)
    fix d
    assume d: "queue_ok d" "keeps_handlers c d"
    then obtain h where h: "hc_handlers d ch = Some h"
      using keeps_handler assms(3) by blast
    obtain m where "q_opaque (hnd_queue h) = OMessage m"
      using handler_entry [OF d(1) h] by (auto simp: linked_def)
    then show "kept d (case hc_handlers d ch of None \<Rightarrow> None
        | Some h \<Rightarrow> Option.bind (handle_progress code (hnd_queue h) d) (handler_update p (hnd_started_update (\<lambda>_. True))))"
      unfolding h option.case
      using d p by (intro kept_bind [OF progress_kept [OF assms(1)]] handler_update_kept) (auto dest: keeps_handler)
  qed
qed


section \<open>The contract of a driver\<close>

text \<open>Adding a handle does not fail.\<close>

definition sound :: "curl_env \<Rightarrow> bool" where
  "sound env \<longleftrightarrow> env_add env"

text \<open>A new entry: its references are counted before the driver gets it, and are still there where it refuses.\<close>

definition entry_refs :: "enqueue \<Rightarrow> nat \<Rightarrow> hclient \<Rightarrow> hclient" where
  "entry_refs e m c = closure_addref (q_closure e) (object_addref m c)"

locale client_driver =
  fixes ops :: client_ops
  assumes enqueue_law:
    "queue_ok c \<Longrightarrow> harmless code \<Longrightarrow> sound env \<Longrightarrow> php_http_client_enqueued c (q_request e) = None \<Longrightarrow>
       q_opaque e = OMessage m \<Longrightarrow> q_dtor e = Some Msg_queue_dtor \<Longrightarrow>
     (\<exists>e' d. op_enqueue ops env code e (entry_refs e m c) = Some (True, e', d) \<and> kept c (Some d)) \<or>
     (\<exists>d. op_enqueue ops env code e (entry_refs e m c) = Some (False, e, entry_refs e m d) \<and> kept c (Some d))"
    and requeue_law:
    "queue_ok c \<Longrightarrow> harmless code \<Longrightarrow> sound env \<Longrightarrow> e \<in> set (hc_requests c) \<Longrightarrow> kept c (map_option snd (op_requeue ops env code e c))"
    and dequeue_law:
    "queue_ok c \<Longrightarrow> e \<in> set (hc_requests c) \<Longrightarrow> goes c (map_option snd (op_dequeue ops remove e c))"
    and reset_law:
    "queue_ok c \<Longrightarrow> goes c (op_reset ops keep c)"
begin

lemma enqueue_op:
  assumes "queue_ok c" "harmless code" "sound env" "q_opaque e = OMessage m" "q_dtor e = Some Msg_queue_dtor"
  shows "(\<exists>e' d. php_http_client_enqueue ops env code e (entry_refs e m c) = Some (True, e', d) \<and> kept c (Some d)) \<or>
     (\<exists>d. php_http_client_enqueue ops env code e (entry_refs e m c) = Some (False, e, entry_refs e m d) \<and> kept c (Some d))"
proof -
  have same: "php_http_client_enqueued (entry_refs e m c) r = php_http_client_enqueued c r" for r
    by (simp add: php_http_client_enqueued_def entry_refs_def closure_addref_def object_addref_def split: option.split)
  show ?thesis
  proof (cases "php_http_client_enqueued c (q_request e) = None")
    case True
    then show ?thesis
      using enqueue_law [OF assms(1,2,3) True assms(4,5)] by (simp add: php_http_client_enqueue_def same)
  next
    case False
    then show ?thesis
      using assms(1) by (auto simp: php_http_client_enqueue_def same kept_Some)
  qed
qed

lemma requeue_op:
  assumes "queue_ok c" "harmless code" "sound env"
  shows "kept c (map_option snd (php_http_client_requeue ops env code r c))"
  using assms requeue_law [OF assms] enqueued_SomeD [of c r]
  by (auto simp: php_http_client_requeue_def kept_Some split: option.split)

lemma dequeue_op:
  assumes "queue_ok c"
  shows "goes c (map_option snd (php_http_client_dequeue ops remove r c))"
  using dequeue_law [OF assms] enqueued_SomeD [of c r] assms
  by (auto simp: php_http_client_dequeue_def goes_Some split: option.split)

text \<open>A reset outside of callbacks leaves an empty queue.\<close>

lemma reset_op:
  assumes "queue_ok c" "hc_depth c = 0"
  shows "\<exists>d. php_http_client_reset ops keep c = Some d \<and> queue_ok d \<and> hc_requests d = [] \<and> hc_responses d = [] \<and> hc_depth d = 0"
proof -
  obtain c1 where c1: "op_reset ops keep c = Some c1" "queue_ok c1" "hc_depth c1 = 0"
    using reset_law [OF assms(1), of keep] assms(2) by (auto simp: goes_def)
  then obtain c2 where "llist_clean (hc_requests c1) c1 = Some c2" "queue_ok c2" "hc_requests c2 = []" "hc_depth c2 = 0"
    using llist_clean_ok [of c1 "hc_requests c1"] by (auto simp: queue_ok_def)
  then show ?thesis
    using c1(1) by (simp add: php_http_client_reset_def)
qed

end

section \<open>The curl driver\<close>

lemma entry_refs_select:
  "hc_requests (entry_refs e m c) = hc_requests c" "hc_depth (entry_refs e m c) = hc_depth c"
  "hc_handlers (entry_refs e m c) = hc_handlers c" "hc_multi (entry_refs e m c) = hc_multi c"
  "hc_next (entry_refs e m c) = hc_next c" "hc_persistent (entry_refs e m c) = hc_persistent c"
  "hc_object_refs (entry_refs e m c) = (hc_object_refs c)(m := Suc (hc_object_refs c m))"
  "hc_closure_refs (entry_refs e m c) f = hc_closure_refs c f + (if q_closure e = Some f then 1 else 0)"
  by (auto simp: entry_refs_def closure_addref_def object_addref_def split: option.split)

lemma entry_refs_next: "(entry_refs e m c)\<lparr>hc_next := n\<rparr> = entry_refs e m (c\<lparr>hc_next := n\<rparr>)"
  by (simp add: entry_refs_def closure_addref_def object_addref_def split: option.split)

lemma handler_dtor_refs:
  "php_http_client_curl_handler_dtor ch (entry_refs e m c) = entry_refs e m (php_http_client_curl_handler_dtor ch c)"
  by (simp add: php_http_client_curl_handler_dtor_def entry_refs_def closure_addref_def object_addref_def split: option.split)

text \<open>A handle that is created and freed.\<close>

lemma next_fresh: "queue_ok c \<Longrightarrow> hc_handlers c (hc_next c) = None \<and> hc_next c \<notin> set (hc_multi c)"
  unfolding queue_ok_def good_multi_def by (meson domIff less_irrefl subsetD)

lemma queue_ok_next: "queue_ok c \<Longrightarrow> queue_ok (c\<lparr>hc_next := Suc (hc_next c)\<rparr>)"
  by (auto simp: queue_ok_def good_multi_def good_refs_def)

lemma handler_dtor_fresh:
  assumes "hc_handlers c ch = None" "ch \<notin> set (hc_multi c)"
  shows "php_http_client_curl_handler_dtor ch c = c"
proof -
  have "filter (\<lambda>h. h \<noteq> ch) (hc_multi c) = hc_multi c"
    using assms(2) by (intro filter_True) auto
  moreover have "(hc_handlers c)(ch := None) = hc_handlers c"
    using assms(1) by (simp add: fun_upd_idem)
  ultimately show ?thesis
    by (simp add: php_http_client_curl_handler_dtor_def)
qed

lemma curl_enqueue_law:
  assumes ok: "queue_ok c" and "harmless code" "sound env" and new: "php_http_client_enqueued c (q_request e) = None"
    and e: "q_opaque e = OMessage m" "q_dtor e = Some Msg_queue_dtor"
  shows "(\<exists>e' d. php_http_client_curl_enqueue env code e (entry_refs e m c) = Some (True, e', d) \<and> kept c (Some d)) \<or>
     (\<exists>d. php_http_client_curl_enqueue env code e (entry_refs e m c) = Some (False, e, entry_refs e m d) \<and> kept c (Some d))"
proof -
  let ?c = "c\<lparr>hc_next := Suc (hc_next c)\<rparr>"
  let ?ch = "hc_next c"
  consider "\<not> env_url env \<or> \<not> env_handle env" | "env_url env" "env_handle env" "\<not> env_prepare env"
    | "env_url env" "env_handle env" "env_prepare env"
    by blast
  then show ?thesis
  proof cases
    case 1
    then show ?thesis
      using ok by (auto simp: php_http_client_curl_enqueue_def kept_Some)
  next
    case 2
    have "php_http_client_curl_enqueue env code e (entry_refs e m c) = Some (False, e, entry_refs e m ?c)"
      using 2 next_fresh [OF ok]
      by (simp add: php_http_client_curl_enqueue_def entry_refs_select entry_refs_next handler_dtor_refs handler_dtor_fresh)
    moreover have "kept c (Some ?c)"
      using queue_ok_next [OF ok] by (simp add: kept_def keeps_handlers_def)
    ultimately show ?thesis
      by blast
  next
    case 3
    let ?h = "\<lparr>hnd_queue = e, hnd_info = [], hnd_started = False, hnd_finished = False\<rparr>"
    let ?e = "e\<lparr>q_opaque := OHandler ?ch, q_dtor := Some Curl_queue_dtor\<rparr>"
    let ?r = "entry_refs e m ?c"
    let ?d = "?r\<lparr>hc_handlers := (hc_handlers c)(?ch \<mapsto> ?h), hc_multi := hc_multi c @ [?ch], hc_requests := hc_requests c @ [?e],
      hc_unfinished := Suc (hc_unfinished ?r)\<rparr>"
    have l: "linked ((hc_handlers c)(?ch \<mapsto> ?h)) ?e ?ch ?h m"
      using e by (simp add: linked_def)
    have "q_request ?e \<notin> q_request ` set (hc_requests c)"
      using new by (auto simp: php_http_client_enqueued_def find_None_iff)
    note q = good_queue_append [OF _ _ this l]
    have "queue_ok ?d"
      using ok next_fresh [OF ok] q object_of_linked [OF l]
      by (auto simp: queue_ok_def good_multi_def good_refs_def entry_refs_select fun_eq_iff)
    moreover have "keeps_handlers c ?d"
      using next_fresh [OF ok] by (auto simp: keeps_handlers_def)
    moreover have "kept ?d (tell_start code (q_request e) ?ch ?d)"
      using assms(2) \<open>queue_ok ?d\<close> by (rule tell_start_kept) simp
    then obtain d where d: "tell_start code (q_request e) ?ch ?d = Some d" "queue_ok d" "hc_depth d = hc_depth ?d" "keeps_handlers ?d d"
      unfolding kept_def by blast
    moreover have "hc_depth ?d = hc_depth c"
      by (simp add: entry_refs_select)
    moreover have "php_http_client_curl_enqueue env code e (entry_refs e m c) =
        map_option (\<lambda>c. (True, ?e, c)) (tell_start code (q_request e) ?ch ?d)"
      using 3 assms(3) by (simp add: php_http_client_curl_enqueue_def sound_def Let_def entry_refs_select entry_refs_next)
    ultimately have "php_http_client_curl_enqueue env code e (entry_refs e m c) = Some (True, ?e, d)" "kept c (Some d)"
      by (simp_all only: kept_def option.map option.inject ex_simps simp_thms) (blast intro: keeps_trans)+
    then show ?thesis
      by blast
  qed
qed


lemma curl_requeue_law:
  assumes ok: "queue_ok c" and "harmless code" "sound env" "e \<in> set (hc_requests c)"
  shows "kept c (map_option snd (php_http_client_curl_requeue env code e c))"
proof -
  obtain ch h m where l: "linked (hc_handlers c) e ch h m"
    using queued_linked [OF ok assms(4)] by blast
  let ?d = "c\<lparr>hc_multi := filter (\<lambda>h. h \<noteq> ch) (hc_multi c) @ [ch], hc_unfinished := Suc (hc_unfinished c)\<rparr>"
  have "queue_ok ?d"
    using ok l by (auto simp: queue_ok_def good_multi_def good_refs_def linked_def)
  moreover have "hc_handlers ?d ch \<noteq> None"
    using l by (simp add: linked_def)
  ultimately have "kept ?d (tell_start code (q_request e) ch ?d)"
    using assms(2) tell_start_kept by blast
  then have "kept c (tell_start code (q_request e) ch ?d)"
    by (simp add: kept_def keeps_handlers_def)
  then show ?thesis
    using l assms(3) kept_Some [OF ok]
    by (auto simp: php_http_client_curl_requeue_def linked_def sound_def Let_def option.map_comp comp_def option.map_ident)
qed

lemma curl_dequeue_law:
  assumes ok: "queue_ok c" and "e \<in> set (hc_requests c)"
  shows "goes c (map_option snd (php_http_client_curl_dequeue remove e c))"
proof -
  obtain ch h m where l: "linked (hc_handlers c) e ch h m"
    using queued_linked [OF assms] by blast
  from llist_del_element_ok [OF assms linked_opaque [OF l]] show ?thesis
    using l goes_Some [OF ok] by (auto simp: php_http_client_curl_dequeue_def linked_def goes_def)
qed

text \<open>What a dequeue does outside of callbacks.\<close>

lemma curl_dequeue_removes:
  assumes "queue_ok c" "e \<in> set (hc_requests c)" "hc_depth c = 0"
  shows "\<exists>d xs ys. hc_requests c = xs @ e # ys \<and> php_http_client_curl_dequeue True e c = Some (True, d) \<and> hc_requests d = xs @ ys \<and> queue_ok d \<and> hc_depth d = 0"
proof -
  obtain ch h m where l: "linked (hc_handlers c) e ch h m"
    using queued_linked [OF assms(1,2)] by blast
  from llist_del_element_ok [OF assms(1,2) linked_opaque [OF l]] show ?thesis
    using l assms(3) by (auto simp: php_http_client_curl_dequeue_def linked_def)
qed

lemma curl_reset_law_entries:
  "queue_ok c \<Longrightarrow> distinct es \<Longrightarrow> set es \<subseteq> set (hc_requests c) \<Longrightarrow> goes c (php_http_client_curl_reset keep es c)"
proof (induction es arbitrary: c)
  case Nil
  then show ?case
    by (simp add: goes_Some)
next
  case (Cons e es)
  let ?r = "\<forall>ch\<in>set keep. \<not> compare_queue ch e"
  have e: "e \<in> set (hc_requests c)"
    using Cons.prems(3) by simp
  obtain ch h m where l: "linked (hc_handlers c) e ch h m"
    using queued_linked [OF Cons.prems(1) e] by blast
  have "\<exists>ok d. php_http_client_curl_dequeue ?r e c = Some (ok, d) \<and> goes c (Some d) \<and> set (hc_requests c) - {e} \<subseteq> set (hc_requests d)"
  proof (cases "hc_depth c = 0 \<and> ?r")
    case True
    then obtain d xs ys where "hc_requests c = xs @ e # ys" "php_http_client_curl_dequeue True e c = Some (True, d)"
      "hc_requests d = xs @ ys" "queue_ok d" "hc_depth d = 0"
      using curl_dequeue_removes [OF Cons.prems(1) e] by blast
    then show ?thesis
      using True by (auto simp: goes_def)
  next
    case False
    have "php_http_client_curl_dequeue ?r e c = Some (False, c)"
    proof (cases "hc_depth c = 0")
      case True
      with False have "?r = False"
        by blast
      then show ?thesis
        using l by (simp only: php_http_client_curl_dequeue_def linked_def) simp
    qed (simp add: php_http_client_curl_dequeue_def)
    then show ?thesis
      using goes_Some [OF Cons.prems(1)] by blast
  qed
  then obtain ok d where d: "php_http_client_curl_dequeue ?r e c = Some (ok, d)" "goes c (Some d)" "set (hc_requests c) - {e} \<subseteq> set (hc_requests d)"
    by blast
  have "queue_ok d"
    using d(2) by (simp add: goes_def)
  moreover have "set es \<subseteq> set (hc_requests d)"
    using Cons.prems(2,3) d(3) by auto
  ultimately have "goes d (php_http_client_curl_reset keep es d)"
    using Cons.prems(2) by (intro Cons.IH) simp_all
  then show ?case
    using d(1,2) by (auto simp: goes_def intro: keeps_trans)
qed

interpretation curl_driver: client_driver php_http_client_curl_ops
proof
  show "goes c (op_reset php_http_client_curl_ops keep c)" if "queue_ok c" for c keep
    using curl_reset_law_entries [OF that _ subset_refl] that
    by (simp add: php_http_client_curl_ops_def queue_ok_def good_queue_def distinct_map)
qed (simp_all add: php_http_client_curl_ops_def curl_enqueue_law curl_requeue_law curl_dequeue_law)


section \<open>Methods and scripts\<close>

lemma map_update_entry: "(\<And>e. q_request e = r \<Longrightarrow> F (f e) = F e) \<Longrightarrow> map F (update_entry r f es) = map F es"
  by (induction es) auto

lemma update_entry_all: "(\<And>e. q_request e = r \<Longrightarrow> P (f e) = P e) \<Longrightarrow> (\<forall>e\<in>set (update_entry r f es). P e) = (\<forall>e\<in>set es. P e)"
  by (induction es) auto

lemma update_entry_count:
  "(\<And>e. q_request e = r \<Longrightarrow> P (f e) = P e) \<Longrightarrow> length (filter P (update_entry r f es)) = length (filter P es)"
  by (induction es) auto

lemma queue_ok_update_options:
  assumes "queue_ok c"
  shows "queue_ok (c\<lparr>hc_requests := update_entry r (q_options_update g) (hc_requests c)\<rparr>)"
proof -
  let ?es = "update_entry r (q_options_update g) (hc_requests c)"
  have maps: "map q_request ?es = map q_request (hc_requests c)" "map q_opaque ?es = map q_opaque (hc_requests c)"
    by (simp_all add: map_update_entry)
  have "q_opaque ` set ?es = q_opaque ` set (hc_requests c)"
    by (simp only: set_map [symmetric] maps)
  moreover have "(\<forall>e\<in>set ?es. \<exists>ch h m. linked (hc_handlers c) e ch h m) = (\<forall>e\<in>set (hc_requests c). \<exists>ch h m. linked (hc_handlers c) e ch h m)"
    by (rule update_entry_all) (simp add: linked_def)
  moreover have "object_count (hc_handlers c) ?es = object_count (hc_handlers c) (hc_requests c)"
    unfolding object_count_def by (rule ext, rule update_entry_count) (simp add: object_of_def)
  moreover have "closure_count ?es = closure_count (hc_requests c)"
    unfolding closure_count_def by (rule ext, rule update_entry_count) simp
  ultimately show ?thesis
    using assms by (simp add: queue_ok_def good_queue_def good_multi_def good_refs_def maps)
qed

lemma msg_queue_dtor_refs: "q_opaque e = OMessage m \<Longrightarrow> msg_queue_dtor e (entry_refs e m d) = Some d"
  by (auto simp: msg_queue_dtor_def object_release_def closure_release_def entry_refs_def closure_addref_def object_addref_def split: option.split)

text \<open>Scripts whose callbacks do not reset the client, do not exchange the closure of a request, and for which adding a handle succeeds.\<close>

fun calm :: "bool \<Rightarrow> call list \<Rightarrow> bool" where
  "calm n [] = True"
| "calm n (Enqueue env rq options f prepare start # cs) = (sound env \<and> calm True prepare \<and> calm True start \<and> calm n cs)"
| "calm n (Dequeue remove rq # cs) = calm n cs"
| "calm n (Requeue env rq options f start # cs) = (sound env \<and> f = None \<and> calm True start \<and> calm n cs)"
| "calm n (Reset keep # cs) = (\<not> n \<and> calm n cs)"
| "calm n (Get_response rq # cs) = calm n cs"
| "calm n (Once remove closure dequeue finished response ch running # cs) = (calm True closure \<and> calm True finished \<and> calm n cs)"

context client_driver begin

lemma enqueue_message_kept:
  assumes "queue_ok c" "harmless start" "sound env"
  shows "kept c (map_option snd (enqueue_message ops env start rq options f c))"
proof -
  let ?e = "enqueue_init rq options f"
  have r: "closure_addref f (object_addref (rq_object rq) c) = entry_refs ?e (rq_object rq) c"
    by (simp add: entry_refs_def enqueue_init_def)
  have o: "q_opaque ?e = OMessage (rq_object rq)" "q_dtor ?e = Some Msg_queue_dtor"
    by (simp_all add: enqueue_init_def)
  show ?thesis
    unfolding enqueue_message_def r using enqueue_op [OF assms o] msg_queue_dtor_refs [OF o(1)] by auto
qed

lemma client_enqueue_kept:
  assumes "queue_ok c" "harmless prepare" "harmless start" "sound env"
  shows "kept c (map_option snd (client_enqueue ops env prepare start rq options f c))"
proof -
  have "kept c (handle_progress prepare (enqueue_init rq options f) c)"
    by (rule progress_kept [OF assms(2,1)]) (simp add: enqueue_init_def)
  then have "kept c (Option.bind (handle_progress prepare (enqueue_init rq options f) c) (\<lambda>c. map_option snd (enqueue_message ops env start rq options f c)))"
    by (rule kept_bind) (use enqueue_message_kept assms(3,4) in blast)
  then show ?thesis
    using kept_Some [OF assms(1)] by (simp add: client_enqueue_def map_option_bind comp_def)
qed

lemma client_dequeue_goes:
  assumes "queue_ok c"
  shows "goes c (map_option snd (client_dequeue ops remove rq c))"
  using dequeue_op [OF assms] goes_Some [OF assms]
  by (simp add: client_dequeue_def option.map_comp comp_def snd_map_prod)

lemma client_requeue_kept:
  assumes "queue_ok c" "harmless start" "sound env"
  shows "kept c (map_option snd (client_requeue ops env start rq options None c))"
proof (cases "php_http_client_enqueued c (rq_message rq)")
  case None
  then show ?thesis
    using enqueue_message_kept [OF assms] by (simp add: client_requeue_def)
next
  case (Some e)
  let ?c = "c\<lparr>hc_requests := update_entry (rq_message rq) (q_options_update (\<lambda>_. options)) (hc_requests c)\<rparr>"
  have "kept ?c (map_option snd (php_http_client_requeue ops env start (rq_message rq) ?c))"
    by (rule requeue_op [OF queue_ok_update_options [OF assms(1)] assms(2,3)])
  then have "kept c (map_option snd (php_http_client_requeue ops env start (rq_message rq) ?c))"
    by (simp add: kept_def keeps_handlers_def)
  then show ?thesis
    by (auto simp: client_requeue_def Some kept_def)
qed

lemma reset_goes: "queue_ok c \<Longrightarrow> hc_depth c = 0 \<Longrightarrow> goes c (php_http_client_reset ops keep c)"
  using reset_op by (auto simp: goes_def)

end

text \<open>Responses.\<close>

lemma call_closure_kept:
  assumes "queue_ok c" "harmless closure" "hc_handlers c ch = Some h"
  shows "kept c (call_closure closure ch h c)"
proof (cases "q_closure (hnd_queue h)")
  case None
  then show ?thesis
    using assms(1) by (simp add: call_closure_def kept_Some)
next
  case (Some f)
  obtain e m where "e \<in> set (hc_requests c)" "linked (hc_handlers c) e ch h m"
    using handler_entry [OF assms(1,3)] by blast
  with Some have "e \<in> set (filter (\<lambda>e. q_closure e = Some f) (hc_requests c))"
    by (simp add: linked_def)
  then have "closure_count (hc_requests c) f \<noteq> 0"
    unfolding closure_count_def by (metis empty_iff empty_set length_0_conv)
  then have "hc_closure_refs c f \<noteq> 0"
    using assms(1) by (simp add: queue_ok_def good_refs_def)
  then show ?thesis
    using callback_kept [OF assms(2,1)] by (simp add: call_closure_def Some)
qed

lemma tell_finished_kept:
  assumes "queue_ok c" "harmless finished" "q_opaque (hnd_queue h) = OMessage m"
  shows "kept c (tell_finished finished h c)"
proof (cases "curl_progress_info c (q_request (hnd_queue h))")
  case None
  then show ?thesis
    using assms(1) by (simp add: tell_finished_def kept_Some)
next
  case (Some p)
  have "kept c (handler_update p (\<lambda>h. h\<lparr>hnd_info := ''finished'', hnd_finished := True\<rparr>) c)"
    using progress_info_handler [OF assms(1) Some] by (intro handler_update_kept assms(1)) simp_all
  then show ?thesis
    unfolding tell_finished_def Some option.case by (rule kept_bind) (use progress_kept [OF assms(2) _ assms(3)] in blast)
qed

context client_driver begin

lemma handle_response_goes:
  assumes "queue_ok c" "harmless closure" "harmless finished" "hc_handlers c ch = Some h"
  shows "goes c (handle_response ops remove closure dequeue finished response ch c)"
proof -
  let ?c = "c\<lparr>hc_responses := hc_responses c @ [(response, q_request (hnd_queue h))]\<rparr>"
  obtain m where m: "q_opaque (hnd_queue h) = OMessage m"
    using handler_entry [OF assms(1,4)] by (auto simp: linked_def)
  let ?rest = "\<lambda>d. case hc_handlers d ch of
              None \<Rightarrow> None
            | Some h' \<Rightarrow>
                Option.bind (tell_finished finished h' d) (\<lambda>c.
                  if dequeue \<and> q_closure (hnd_queue h) \<noteq> None then
                    (case hc_handlers c ch of
                       None \<Rightarrow> None
                     | Some h'' \<Rightarrow> map_option snd (php_http_client_dequeue ops remove (q_request (hnd_queue h'')) c))
                  else Some c)"
  have "goes ?c (Option.bind (call_closure closure ch h ?c) ?rest)"
  proof (rule kept_goes_bind [OF call_closure_kept])
    fix d
    assume d: "queue_ok d" "keeps_handlers ?c d"
    then obtain h' where h': "hc_handlers d ch = Some h'" "hnd_queue h' = hnd_queue h"
      using assms(4) unfolding keeps_handlers_def by auto
    show "goes d (?rest d)"
      unfolding h'(1) option.case
    proof (rule kept_goes_bind [OF tell_finished_kept])
      fix b
      assume b: "queue_ok b" "keeps_handlers d b"
      then obtain h'' where "hc_handlers b ch = Some h''"
        using h'(1) unfolding keeps_handlers_def by blast
      then show "goes b (if dequeue \<and> q_closure (hnd_queue h) \<noteq> None then
                    (case hc_handlers b ch of
                       None \<Rightarrow> None
                     | Some h'' \<Rightarrow> map_option snd (php_http_client_dequeue ops remove (q_request (hnd_queue h'')) b))
                  else Some b)"
        using dequeue_op [OF b(1)] goes_Some [OF b(1)] by simp
    qed (use d assms(3) m h'(2) in simp_all)
  qed (use assms in simp_all)
  then show ?thesis
    using m by (simp add: handle_response_def assms(4) goes_def)
qed

lemma once_goes:
  assumes "queue_ok c" "harmless closure" "harmless finished"
  shows "goes c (php_http_client_curl_once ops remove closure dequeue finished response ch running c)"
proof (cases "hc_depth c = 0 \<and> List.find (compare_queue ch) (hc_requests c) \<noteq> None")
  case True
  let ?c = "c\<lparr>hc_unfinished := running\<rparr>"
  obtain e where "List.find (compare_queue ch) (hc_requests c) = Some e"
    using True by auto
  then have "e \<in> set (hc_requests c)" "q_opaque e = OHandler ch"
    by (auto simp: find_Some_iff compare_queue_def)
  then obtain h where "hc_handlers ?c ch = Some h"
    using queued_linked [OF assms(1)] by (fastforce simp: linked_def)
  then have "goes ?c (handle_response ops remove closure dequeue finished response ch ?c)"
    using assms by (intro handle_response_goes) simp_all
  then show ?thesis
    using True by (auto simp: php_http_client_curl_once_def php_http_client_curl_responsehandler_def goes_def)
next
  case False
  then show ?thesis
    using assms(1) by (auto simp: php_http_client_curl_once_def php_http_client_curl_responsehandler_def goes_def)
qed

lemma run_calls_goes: "calm n cs \<Longrightarrow> queue_ok c \<Longrightarrow> n = (hc_depth c \<noteq> 0) \<Longrightarrow> goes c (run_calls ops cs c)"
proof (induction n cs arbitrary: c rule: calm.induct)
  case (1 n c)
  then show ?case
    by (simp add: goes_Some)
next
  case (2 n env rq options f prepare start cs c)
  have "harmless (\<lambda>c. run_calls ops prepare c)" "harmless (\<lambda>c. run_calls ops start c)"
    using 2 by (auto simp: harmless_def intro!: goes_kept)
  then have "goes c (map_option snd (client_enqueue ops env (\<lambda>c. run_calls ops prepare c) (\<lambda>c. run_calls ops start c) rq options f c))"
    using 2 by (intro kept_goes client_enqueue_kept) simp_all
  then show ?case
    unfolding run_calls.simps by (rule goes_map_snd_bind) (use 2 in simp)
next
  case (3 n remove rq cs c)
  from client_dequeue_goes [OF 3(3)] show ?case
    unfolding run_calls.simps by (rule goes_map_snd_bind) (use 3 in simp)
next
  case (4 n env rq options f start cs c)
  have "harmless (\<lambda>c. run_calls ops start c)"
    using 4 by (auto simp: harmless_def intro!: goes_kept)
  then have "goes c (map_option snd (client_requeue ops env (\<lambda>c. run_calls ops start c) rq options None c))"
    using 4 by (intro kept_goes client_requeue_kept) simp_all
  then have "goes c (map_option snd (client_requeue ops env (\<lambda>c. run_calls ops start c) rq options f c))"
    using 4(3) by simp
  then show ?case
    unfolding run_calls.simps by (rule goes_map_snd_bind) (use 4 in simp)
next
  case (5 n keep cs c)
  then have "goes c (php_http_client_reset ops keep c)"
    by (intro reset_goes) auto
  then show ?case
    unfolding run_calls.simps by (rule goes_bind) (use 5 in auto)
next
  case (6 n rq cs c)
  have "snd (client_getResponse rq c) = c \<or> (\<exists>rs. snd (client_getResponse rq c) = c\<lparr>hc_responses := rs\<rparr>)"
    by (auto simp: client_getResponse_def split: option.split)
  then obtain d where d: "snd (client_getResponse rq c) = d" "queue_ok d" "hc_depth d = hc_depth c" "keeps_handlers c d"
    using 6(3) by (auto simp: keeps_handlers_def)
  then have "goes d (run_calls ops cs d)"
    using 6 by simp
  then show ?case
    using d by (auto simp: goes_def intro: keeps_trans)
next
  case (7 n remove closure dequeue finished response ch running cs c)
  have "harmless (\<lambda>c. run_calls ops closure c)" "harmless (\<lambda>c. run_calls ops finished c)"
    using 7 by (auto simp: harmless_def intro!: goes_kept)
  then have "goes c (php_http_client_curl_once ops remove (\<lambda>c. run_calls ops closure c) dequeue (\<lambda>c. run_calls ops finished c) response ch running c)"
    using 7 by (intro once_goes) simp_all
  then show ?case
    unfolding run_calls.simps by (rule goes_bind) (use 7 in simp)
qed

end

lemma run_calls_append: "run_calls ops (xs @ ys) c = Option.bind (run_calls ops xs c) (run_calls ops ys)"
proof (induction xs arbitrary: c)
  case (Cons x xs)
  have "run_calls ops (xs @ ys) = (\<lambda>c. Option.bind (run_calls ops xs c) (run_calls ops ys))"
    by (rule ext) (rule Cons.IH)
  then show ?case
    by (cases x) (simp_all add: case_prod_unfold)
qed simp




section \<open>Samples\<close>

text \<open>Every call succeeds.\<close>

definition env_fine :: curl_env where
  "env_fine = \<lparr>env_url = True, env_handle = True, env_prepare = True, env_remove = True, env_add = True\<rparr>"

definition request_sample :: "nat \<Rightarrow> request" where
  "request_sample n = \<lparr>rq_object = n, rq_message = n + 100\<rparr>"

text \<open>
  Two requests; the closure of the first one queues the second one again, fails to dequeue, and asks to be dequeued;
  an observer tries to queue a request twice.
\<close>

definition script_sample :: "call list" where
  "script_sample =
     [Enqueue env_fine (request_sample 1) zend_hash_init (Some 7) [] [Enqueue env_fine (request_sample 1) zend_hash_init None [] []],
      Enqueue env_fine (request_sample 2) zend_hash_init None [] [],
      Once True [Requeue env_fine (request_sample 2) zend_hash_init None [], Dequeue True (request_sample 1)] True [] 50 0 1]"



text \<open>A reset in the closure of a request frees the entry that the response handler still uses.\<close>

lemma reset_in_callback:
  "run_calls php_http_client_curl_ops
     [Enqueue env_fine (request_sample 1) zend_hash_init (Some 7) [] [], Once True [Reset []] False [] 50 0 0]
     (php_http_client_init False) = None"
  by code_simp

text \<open>Where libcurl refuses the handle, the handler that was freed is taken for the object of the request.\<close>

lemma add_refused:
  "run_calls php_http_client_curl_ops [Enqueue (env_fine\<lparr>env_add := False\<rparr>) (request_sample 1) zend_hash_init None [] []]
     (php_http_client_init False) = None"
  by code_simp

text \<open>After a closure was exchanged, the old one is called, which the queue holds no reference of.\<close>

lemma old_closure_called:
  "run_calls php_http_client_curl_ops
     [Enqueue env_fine (request_sample 1) zend_hash_init (Some 7) [] [],
      Requeue env_fine (request_sample 1) zend_hash_init (Some 8) [], Once True [] False [] 50 0 0]
     (php_http_client_init False) = None"
  by code_simp

text \<open>A closure that a request gets when it is queued again is not called: the counts of responses are the same, and no callback runs.\<close>

lemma new_closure_not_called:
  "map_option hc_responses (run_calls php_http_client_curl_ops
     [Enqueue env_fine (request_sample 1) zend_hash_init None [] [],
      Requeue env_fine (request_sample 1) zend_hash_init (Some 8) [],
      Once True [Enqueue env_fine (request_sample 2) zend_hash_init None [] []] True [] 50 0 0]
     (php_http_client_init False)) = Some [(50, 101)] \<and>
   map_option client_count (run_calls php_http_client_curl_ops
     [Enqueue env_fine (request_sample 1) zend_hash_init None [] [],
      Requeue env_fine (request_sample 1) zend_hash_init (Some 8) [],
      Once True [Enqueue env_fine (request_sample 2) zend_hash_init None [] []] True [] 50 0 0]
     (php_http_client_init False)) = Some 1"
  by code_simp

text \<open>With a persistent factory, the handle of an entry that is gone is still in the multi handle where removing it failed.\<close>

lemma stale_handle:
  "map_option (\<lambda>c. (hc_multi c, client_count c)) (run_calls php_http_client_curl_ops
     [Enqueue env_fine (request_sample 1) zend_hash_init None [] [], Reset [0]] (php_http_client_init True)) = Some ([0], 0)"
  by code_simp

end
