(* ===== verification/Http_Message_Methods.thy ===== *)
theory Http_Message_Methods
  imports Http_Env Http_Params_Read
begin

text \<open>
  The methods of \<open>http\<close>\<open>\<backslash>\<close>\<open>Message\<close> that concern one message (\<open>php_http_message.c\<close>): headers, start line, body
  and strings. A method that sets something gives the exception it throws, if any, and the message; \<^const>\<open>None\<close> is
  undefined behaviour. Getters give the value. Types other than the three constants are left out.
\<close>

section \<open>Results\<close>

datatype message_exception =
    Ex_invalid_arg | Ex_unexpected_val | Ex_bad_method_call | Ex_bad_header | Ex_bad_message | Ex_bad_url

type_synonym 'a thrown = "(message_exception option \<times> 'a) option"

definition returns :: "'a \<Rightarrow> 'a thrown" where "returns x = Some (None, x)"

definition throws :: "message_exception \<Rightarrow> 'a \<Rightarrow> 'a thrown" where "throws e x = Some (Some e, x)"

section \<open>Headers\<close>

text \<open>The key of a header in the table.\<close>

definition header_key :: "bytes \<Rightarrow> zkey" where
  "header_key name = symtable_key (php_http_pretty_key name True True)"

text \<open>\<open>getHeader\<close> without a class; false where there is none.\<close>

definition message_getHeader :: "bytes \<Rightarrow> php_http_message \<Rightarrow> zval" where
  "message_getHeader header m = (case php_http_message_header m header of Some v \<Rightarrow> v | None \<Rightarrow> ZBool False)"

definition message_getHeaders :: "php_http_message \<Rightarrow> zval" where
  "message_getHeaders m = zarr (array_copy (msg_hdrs m) zend_hash_init)"

text \<open>The value is \<^const>\<open>None\<close> where it is missing or null.\<close>

definition message_setHeader :: "bytes \<Rightarrow> zval option \<Rightarrow> php_http_message \<Rightarrow> php_http_message" where
  "message_setHeader name zvalue m =
     (case zvalue of
        None \<Rightarrow> m\<lparr>msg_hdrs := zend_hash_del (msg_hdrs m) (header_key name)\<rparr>
      | Some v \<Rightarrow> m\<lparr>msg_hdrs := zend_hash_update (msg_hdrs m) (header_key name) v\<rparr>)"

definition message_setHeaders :: "hashtable option \<Rightarrow> php_http_message \<Rightarrow> php_http_message" where
  "message_setHeaders new_headers m =
     (case new_headers of
        None \<Rightarrow> m\<lparr>msg_hdrs := zend_hash_init\<rparr>
      | Some hs \<Rightarrow> m\<lparr>msg_hdrs := array_join hs zend_hash_init False (ARRAY_JOIN_PRETTIFY OR ARRAY_JOIN_STRONLY)\<rparr>)"

definition php_http_message_object_add_header :: "bytes \<Rightarrow> zval \<Rightarrow> php_http_message \<Rightarrow> php_http_message" where
  "php_http_message_object_add_header name_str zvalue m =
     (let name = php_http_pretty_key name_str True True in
      if zvalue = ZNull then m
      else
        let vstr = php_http_header_value_to_string zvalue in
        case (if length name_str \<noteq> length ''Set-Cookie'' \<and> cstr name \<noteq> ''Set-Cookie''
              then php_http_message_header_string m name else None) of
          Some hstr \<Rightarrow>
            m\<lparr>msg_hdrs := zend_hash_update (msg_hdrs m) (symtable_key name) (ZStr (cstr hstr @ '', '' @ cstr vstr))\<rparr>
        | None \<Rightarrow>
            (case php_http_message_header m name of
               Some header \<Rightarrow>
                 m\<lparr>msg_hdrs := zend_hash_update (msg_hdrs m) (symtable_key (php_http_pretty_key name True True))
                     (zarr (zend_hash_next_index_insert (convert_to_array header) (ZStr vstr)))\<rparr>
             | None \<Rightarrow> m\<lparr>msg_hdrs := zend_hash_update (msg_hdrs m) (symtable_key name) (ZStr vstr)\<rparr>))"

definition message_addHeader :: "bytes \<Rightarrow> zval \<Rightarrow> php_http_message \<Rightarrow> php_http_message" where
  "message_addHeader name zvalue m = php_http_message_object_add_header name zvalue m"

definition message_addHeaders :: "hashtable \<Rightarrow> bool \<Rightarrow> php_http_message \<Rightarrow> php_http_message" where
  "message_addHeaders new_headers append_headers m =
     (if append_headers then
        fold (\<lambda>(key, val). php_http_message_object_add_header (php_http_arrkey_stringify key) val) (live new_headers) m
      else m\<lparr>msg_hdrs := array_join new_headers (msg_hdrs m) False (ARRAY_JOIN_PRETTIFY OR ARRAY_JOIN_STRONLY)\<rparr>)"

section \<open>Type and start line\<close>

definition message_getType :: "php_http_message \<Rightarrow> php_http_info_type" where
  "message_getType m = msg_type m"

definition message_setType :: "php_http_info_type \<Rightarrow> php_http_message \<Rightarrow> php_http_message" where
  "message_setType type m = php_http_message_set_type type m"

definition message_getInfo :: "php_http_message \<Rightarrow> bytes" where
  "message_getInfo m = (case php_http_info_to_string (msg_info m) [] of Some s \<Rightarrow> s | None \<Rightarrow> [])"

definition message_setInfo :: "url_env \<Rightarrow> bytes \<Rightarrow> php_http_message \<Rightarrow> php_http_message thrown" where
  "message_setInfo env str m =
     (case php_http_info_parse env php_http_info_init str of
        None \<Rightarrow> None
      | Some (ok, info) \<Rightarrow> if ok then returns (php_http_message_set_info info m) else throws Ex_bad_header m)"

definition message_getHttpVersion :: "php_http_message \<Rightarrow> bytes" where
  "message_getHttpVersion m = php_http_version_to_string (info_version (msg_info m)) None None"

definition message_setHttpVersion :: "bytes \<Rightarrow> php_http_message \<Rightarrow> php_http_message thrown" where
  "message_setHttpVersion v_str m =
     (case php_http_version_parse v_str of
        None \<Rightarrow> throws Ex_unexpected_val m
      | Some v \<Rightarrow> returns (m\<lparr>msg_info := (msg_info m)\<lparr>info_version := v\<rparr>\<rparr>))"

text \<open>False for a message that is no response.\<close>

definition message_getResponseCode :: "php_http_message \<Rightarrow> zval" where
  "message_getResponseCode m =
     (case (msg_type m, info_data (msg_info m)) of
        (PHP_HTTP_RESPONSE, InfoResponse code _) \<Rightarrow> ZLong (uint code)
      | _ \<Rightarrow> ZBool False)"

text \<open>The reason phrase is copied, and copying the null pointer of an unknown code is undefined.\<close>

definition message_setResponseCode :: "int \<Rightarrow> bool \<Rightarrow> php_http_message \<Rightarrow> php_http_message thrown" where
  "message_setResponseCode code strict m =
     (if msg_type m \<noteq> PHP_HTTP_RESPONSE then throws Ex_bad_method_call m
      else if strict \<and> (code < 100 \<or> 599 < code) then throws Ex_invalid_arg m
      else
        case php_http_env_get_response_status_for_code (word_of_int code) of
          None \<Rightarrow> None
        | Some s \<Rightarrow> returns (m\<lparr>msg_info := (msg_info m)\<lparr>info_data := InfoResponse (word_of_int code) (Some s)\<rparr>\<rparr>))"

text \<open>A message of another type gets a warning only: the URL of a request, where it has one, is then read as a string.\<close>

definition message_getResponseStatus :: "php_http_message \<Rightarrow> bytes option" where
  "message_getResponseStatus m =
     (case info_data (msg_info m) of
        InfoResponse _ status \<Rightarrow> Some (case status of Some s \<Rightarrow> cstr s | None \<Rightarrow> [])
      | InfoRequest _ None \<Rightarrow> Some []
      | InfoRequest _ (Some _) \<Rightarrow> None)"

text \<open>
  After the exception the field is set nevertheless: in a request the string takes the place of the URL, which is undefined
  behaviour as soon as the URL is used.
\<close>

definition message_setResponseStatus :: "bytes \<Rightarrow> php_http_message \<Rightarrow> php_http_message thrown" where
  "message_setResponseStatus status m =
     (case (msg_type m, info_data (msg_info m)) of
        (PHP_HTTP_RESPONSE, InfoResponse code _) \<Rightarrow> returns (m\<lparr>msg_info := (msg_info m)\<lparr>info_data := InfoResponse code (Some status)\<rparr>\<rparr>)
      | (PHP_HTTP_NONE, InfoRequest None None) \<Rightarrow> throws Ex_bad_method_call (m\<lparr>msg_info := (msg_info m)\<lparr>info_data := InfoResponse 0 (Some status)\<rparr>\<rparr>)
      | (PHP_HTTP_NONE, InfoResponse code _) \<Rightarrow> throws Ex_bad_method_call (m\<lparr>msg_info := (msg_info m)\<lparr>info_data := InfoResponse code (Some status)\<rparr>\<rparr>)
      | _ \<Rightarrow> None)"

definition message_getRequestMethod :: "php_http_message \<Rightarrow> zval" where
  "message_getRequestMethod m =
     (case (msg_type m, info_data (msg_info m)) of
        (PHP_HTTP_REQUEST, InfoRequest meth _) \<Rightarrow> ZStr (case meth of Some s \<Rightarrow> cstr s | None \<Rightarrow> [])
      | _ \<Rightarrow> ZBool False)"

definition message_setRequestMethod :: "bytes \<Rightarrow> php_http_message \<Rightarrow> php_http_message thrown" where
  "message_setRequestMethod meth m =
     (case (msg_type m, info_data (msg_info m)) of
        (PHP_HTTP_REQUEST, InfoRequest _ url) \<Rightarrow>
          if meth = [] then throws Ex_invalid_arg m
          else returns (m\<lparr>msg_info := (msg_info m)\<lparr>info_data := InfoRequest (Some meth) url\<rparr>\<rparr>)
      | _ \<Rightarrow> throws Ex_bad_method_call m)"

definition message_getRequestUrl :: "php_http_message \<Rightarrow> zval" where
  "message_getRequestUrl m =
     (case (msg_type m, info_data (msg_info m)) of
        (PHP_HTTP_REQUEST, InfoRequest _ url) \<Rightarrow> ZStr (case url of Some u \<Rightarrow> php_http_url_to_string u | None \<Rightarrow> [])
      | _ \<Rightarrow> ZBool False)"

definition php_http_url_from_zval :: "url_env \<Rightarrow> (zval \<Rightarrow> int) \<Rightarrow> zval \<Rightarrow> 32 word \<Rightarrow> php_http_url option" where
  "php_http_url_from_zval env to_long value flags =
     (case value of
        ZArr n es \<Rightarrow> Some (php_http_url_from_struct to_long (n, es))
      | _ \<Rightarrow> php_http_url_parse env (zval_get_string value) (length (zval_get_string value)) flags)"

definition php_http_url_is_empty :: "php_http_url \<Rightarrow> bool" where
  "php_http_url_is_empty url \<longleftrightarrow>
     \<not> (url_scheme url \<noteq> None \<or> url_pass url \<noteq> None \<or> url_user url \<noteq> None \<or> url_host url \<noteq> None \<or> url_port url \<noteq> 0 \<or>
        url_path url \<noteq> None \<or> url_query url \<noteq> None \<or> url_fragment url \<noteq> None)"

text \<open>Where the URL cannot be parsed, the warning is thrown as an exception.\<close>

definition message_setRequestUrl :: "url_env \<Rightarrow> (zval \<Rightarrow> int) \<Rightarrow> zval \<Rightarrow> php_http_message \<Rightarrow> php_http_message thrown" where
  "message_setRequestUrl env to_long zurl m =
     (case (msg_type m, info_data (msg_info m)) of
        (PHP_HTTP_REQUEST, InfoRequest meth _) \<Rightarrow>
          (case php_http_url_from_zval env to_long zurl PHP_HTTP_URL_STDFLAGS of
             None \<Rightarrow> throws Ex_bad_url m
           | Some url \<Rightarrow>
               if php_http_url_is_empty url then throws Ex_invalid_arg m
               else returns (m\<lparr>msg_info := (msg_info m)\<lparr>info_data := InfoRequest meth (Some url)\<rparr>\<rparr>))
      | _ \<Rightarrow> throws Ex_bad_method_call m)"

section \<open>Body and strings\<close>

definition message_addBody :: "(nat \<Rightarrow> bool) \<Rightarrow> php_http_message_body \<Rightarrow> php_http_message \<Rightarrow> php_http_message option" where
  "message_addBody eof new_body m =
     map_option (\<lambda>(_, body). m\<lparr>msg_body := body\<rparr>)
       (php_http_message_body_to_callback eof new_body body_append_pass (msg_body m) 0 0)"

text \<open>The string of the message, or of the whole chain; the headers are updated.\<close>

definition message_toString ::
  "(php_http_message \<Rightarrow> nat \<Rightarrow> bool) \<Rightarrow> bool \<Rightarrow> php_http_message list \<Rightarrow> (bytes \<times> php_http_message list) option" where
  "message_toString eof include_parent msgs =
     (if include_parent then php_http_message_serialize eof msgs
      else case msgs of
             [] \<Rightarrow> None
           | m # ms \<Rightarrow> map_option (\<lambda>(str, m). (str, m # ms)) (php_http_message_to_string (eof m) m))"

definition message_serialize ::
  "(php_http_message \<Rightarrow> nat \<Rightarrow> bool) \<Rightarrow> php_http_message list \<Rightarrow> (bytes \<times> php_http_message list) option" where
  "message_serialize eof msgs = php_http_message_serialize eof msgs"

text \<open>Whether the content is multipart, and the boundary that is found.\<close>

definition multipart_boundary :: "hashtable \<Rightarrow> bytes option" where
  "multipart_boundary args =
     fold (\<lambda>(key, val) b. case key of
         KStr s \<Rightarrow> if length s = length ''boundary'' \<and> strcaseeq s ''boundary'' \<and> zval_get_string val \<noteq> [] then Some (zval_get_string val) else b
       | KInt _ \<Rightarrow> b) (live args) None"

definition php_http_message_is_multipart :: "params_env \<Rightarrow> php_http_message \<Rightarrow> bool \<times> bytes option" where
  "php_http_message_is_multipart env m =
     (case php_http_message_header_string m ''Content-Type'' of
        None \<Rightarrow> (False, None)
      | Some ct \<Rightarrow>
          (case php_http_params_parse env (Some zend_hash_init) (php_http_params_opts_default_get\<lparr>opts_input := ct\<rparr>) of
             None \<Rightarrow> (False, None)
           | Some params \<Rightarrow>
               (case live params of
                  (KStr ct_str, ZArr n es) # _ \<Rightarrow>
                    if php_http_match (Some (cstr ct_str)) (Some ''multipart'') PHP_HTTP_MATCH_WORD
                    then (True, case zend_hash_find (n, es) (KStr ''arguments'') of
                                  Some (ZArr k as) \<Rightarrow> multipart_boundary (k, as)
                                | _ \<Rightarrow> None)
                    else (False, None)
                | _ \<Rightarrow> (False, None))))"

text \<open>\<open>isMultipart\<close>: a boundary that is found replaces the variable of the caller.\<close>

definition message_isMultipart :: "params_env \<Rightarrow> zval option \<Rightarrow> php_http_message \<Rightarrow> bool \<times> zval option" where
  "message_isMultipart env zboundary m =
     (let (r, boundary) = php_http_message_is_multipart env m in
      (r, case (zboundary, boundary) of (Some _, Some b) \<Rightarrow> Some (ZStr (cstr b)) | _ \<Rightarrow> zboundary))"

section \<open>Access to headers\<close>

text \<open>Two names have the same key exactly if they are the same up to case and underscores for hyphens.\<close>

lemma header_key_eq: "header_key a = header_key b \<longleftrightarrow> key_name True a = key_name True b"
  by (simp add: header_key_def pretty_key_canonical)

lemma getHeader_find: "message_getHeader h m = (case zend_hash_find (msg_hdrs m) (header_key h) of Some v \<Rightarrow> v | None \<Rightarrow> ZBool False)"
  by (simp add: message_getHeader_def php_http_message_header_def header_key_def)

lemma setHeader_inv: "ht_inv (msg_hdrs m) \<Longrightarrow> ht_inv (msg_hdrs (message_setHeader n v m))"
  by (auto simp: message_setHeader_def zht.inv_upd zht.inv_del split: option.split)

lemma getHeader_setHeader:
  "ht_inv (msg_hdrs m) \<Longrightarrow> message_getHeader h (message_setHeader n v m) =
     (if key_name True n = key_name True h then (case v of Some v \<Rightarrow> v | None \<Rightarrow> ZBool False) else message_getHeader h m)"
  by (auto simp: getHeader_find message_setHeader_def zht.find_upd zht.find_del header_key_eq split: option.split)

text \<open>
  C14. Headers of a message are a map whose keys are names up to case: after any sequence of setting and removing
  headers, reading a header in any spelling gives the value it was set to last, false if it was removed, and what it
  was before if it was not set.
\<close>

theorem message_header_access:
  assumes "ht_inv (msg_hdrs m)"
  shows "message_getHeader h (fold (\<lambda>(n, v). message_setHeader n v) sets m) =
     (case List.find (\<lambda>(n, _). key_name True n = key_name True h) (rev sets) of
        None \<Rightarrow> message_getHeader h m
      | Some (_, None) \<Rightarrow> ZBool False
      | Some (_, Some v) \<Rightarrow> v)"
proof -
  have "ht_inv (msg_hdrs (fold (\<lambda>(n, v). message_setHeader n v) sets m))" for sets
    by (induction sets rule: rev_induct) (auto simp: assms setHeader_inv split: prod.split)
  then show ?thesis
    by (induction sets rule: rev_induct) (auto simp: getHeader_setHeader split: option.split)
qed

lemma message_header_access_witness:
  "message_getHeader ''user-agent''
     (fold (\<lambda>(n, v). message_setHeader n v) [(''User-Agent'', Some (ZStr ''a'')), (''ACCEPT'', Some (ZStr ''*'')), (''USER_AGENT'', Some (ZStr ''b''))]
       (php_http_message_init PHP_HTTP_REQUEST None)) = ZStr ''b''"
proof -
  have "ht_inv (msg_hdrs (php_http_message_init PHP_HTTP_REQUEST None))"
    by (simp add: php_http_message_init_def Let_def)
  moreover have "List.find (\<lambda>(n, _). key_name True n = key_name True ''user-agent'')
     (rev [(''User-Agent'', Some (ZStr ''a'')), (''ACCEPT'', Some (ZStr ''*'')), (''USER_AGENT'', Some (ZStr ''b''))])
     = Some (''USER_AGENT'', Some (ZStr ''b''))"
    by code_simp
  ultimately show ?thesis
    by (simp only: message_header_access option.case prod.case)
qed

text \<open>A header that is added is appended to the one that is there, where the name does not have ten characters.\<close>

lemma message_addHeader_joins:
  assumes "ht_inv (msg_hdrs m)" "length n \<noteq> 10" "cstr (php_http_pretty_key n True True) \<noteq> ''Set-Cookie''" "zvalue \<noteq> ZNull" "php_http_message_header_string m n = Some old"
  shows "message_getHeader n (message_addHeader n zvalue m) = ZStr (cstr old @ '', '' @ cstr (php_http_header_value_to_string zvalue))"
  using assms by (auto simp: message_addHeader_def php_http_message_object_add_header_def getHeader_find zht.find_upd
      header_key_def php_http_message_header_string_def php_http_message_header_def pretty_key_idempotent Let_def split: option.splits)

section \<open>Samples\<close>

definition response_sample :: php_http_message where
  "response_sample = php_http_message_init PHP_HTTP_RESPONSE None"

text \<open>A name of ten characters is treated as \<open>Set-Cookie\<close>: the values are not joined.\<close>

lemma connection_not_joined:
  "message_getHeader ''connection'' (message_addHeader ''Connection'' (ZStr ''b'') (message_addHeader ''Connection'' (ZStr ''a'') response_sample))
     = ZArr 2 [(KInt 0, ZStr ''a''), (KInt 1, ZStr ''b'')]"
  by code_simp

text \<open>An unknown code, the status of a request.\<close>

lemma unknown_code_undefined: "message_setResponseCode 299 True response_sample = None"
  by code_simp

lemma request_status_undefined:
  "map_option (\<lambda>(e, m). (e, message_getResponseStatus m)) (message_setRequestUrl env (\<lambda>_. 0) (ZArr 0 [(KStr ''path'', ZStr ''/a'')]) (php_http_message_init PHP_HTTP_REQUEST None))
     = Some (None, None)"
  "message_setResponseStatus ''Fine'' (php_http_message_init PHP_HTTP_REQUEST None) = None"
  by (simp_all add: message_setRequestUrl_def message_setResponseStatus_def message_getResponseStatus_def php_http_message_init_def
      php_http_message_set_type_def php_http_info_init_def zero_union_def php_http_url_from_zval_def php_http_url_from_struct_def
      php_http_url_is_empty_def str_part_def zend_hash_find_def returns_def Let_def)

text \<open>After the exception the status of a message without type is set.\<close>

lemma status_set_after_exception:
  "map_option (\<lambda>(e, m). (e, message_getResponseStatus m)) (message_setResponseStatus ''Fine'' (php_http_message_init PHP_HTTP_NONE None))
     = Some (Some Ex_bad_method_call, Some ''Fine'')"
  by code_simp

end
