(* ===== verification/Http_Message_Objects.thy ===== *)
theory Http_Message_Objects
  imports Http_Message_Methods
begin

text \<open>
  The objects of \<open>http\<close>\<open>\<backslash>\<close>\<open>Message\<close> (\<open>php_http_message.c\<close>). An object points to its message and to the object of the
  parent, a message points to its parent message: the two chains have to agree. Messages and objects live in a store, by
  address. The theory has the operations on chains, the invariant, and what the operations do. Body objects and
  reference counts are left out.
\<close>

section \<open>Store\<close>

record message_object =
  mo_message :: nat
  mo_parent :: "nat option"
  mo_iterator :: "nat option"

record message_heap =
  mh_objects :: "nat \<rightharpoonup> message_object"
  mh_messages :: "nat \<rightharpoonup> php_http_message"
  mh_parents :: parents
  mh_next :: nat

definition message_heap_init :: message_heap where
  "message_heap_init = \<lparr>mh_objects = Map.empty, mh_messages = Map.empty, mh_parents = (\<lambda>_. None), mh_next = 0\<rparr>"

definition object_parent :: "message_heap \<Rightarrow> parents" where
  "object_parent h ob = (case mh_objects h ob of Some r \<Rightarrow> mo_parent r | None \<Rightarrow> None)"

definition message_of :: "message_heap \<Rightarrow> nat \<Rightarrow> nat option" where
  "message_of h ob = map_option mo_message (mh_objects h ob)"

definition message_alloc :: "php_http_message \<Rightarrow> nat option \<Rightarrow> message_heap \<Rightarrow> nat \<times> message_heap" where
  "message_alloc m parent h =
     (mh_next h, h\<lparr>mh_messages := (mh_messages h)(mh_next h \<mapsto> m), mh_parents := (mh_parents h)(mh_next h := parent),
       mh_next := Suc (mh_next h)\<rparr>)"

definition object_put :: "nat \<Rightarrow> nat \<Rightarrow> nat option \<Rightarrow> message_heap \<Rightarrow> message_heap" where
  "object_put ob msg parent h =
     h\<lparr>mh_objects := (mh_objects h)(ob \<mapsto> \<lparr>mo_message = msg, mo_parent = parent, mo_iterator = None\<rparr>)\<rparr>"

text \<open>Both parents of an object; \<^const>\<open>None\<close> where there is no object.\<close>

definition set_parents :: "nat \<Rightarrow> nat option \<Rightarrow> nat option \<Rightarrow> message_heap \<Rightarrow> message_heap option" where
  "set_parents ob po pm h =
     (case mh_objects h ob of
        None \<Rightarrow> None
      | Some r \<Rightarrow>
          Some (h\<lparr>mh_objects := (mh_objects h)(ob \<mapsto> r\<lparr>mo_parent := po\<rparr>), mh_parents := (mh_parents h)(mo_message r := pm)\<rparr>))"

section \<open>Construction\<close>

text \<open>Objects for a message and all its parents.\<close>

partial_function (option) php_http_message_object_new_ex :: "nat \<Rightarrow> message_heap \<Rightarrow> (nat \<times> message_heap) option" where
  "php_http_message_object_new_ex msg h =
     (let ob = mh_next h; h = h\<lparr>mh_next := Suc (mh_next h)\<rparr> in
      case mh_parents h msg of
        None \<Rightarrow> Some (ob, object_put ob msg None h)
      | Some p \<Rightarrow>
          Option.bind (php_http_message_object_new_ex p h) (\<lambda>(po, h). Some (ob, object_put ob msg (Some po) h)))"

declare php_http_message_object_new_ex.simps [code]

text \<open>A chain of messages, the first one on top.\<close>

fun alloc_chain :: "php_http_message list \<Rightarrow> message_heap \<Rightarrow> nat option \<times> message_heap" where
  "alloc_chain [] h = (None, h)"
| "alloc_chain (m # ms) h =
     (let (p, h) = alloc_chain ms h; (a, h) = message_alloc m p h in (Some a, h))"

text \<open>
  \<open>__construct\<close> with the chain that the string or stream gives: no message at all is an exception. A missing
  argument is the chain of one empty message.
\<close>

definition message_construct :: "php_http_message list \<Rightarrow> message_heap \<Rightarrow> ((message_exception + nat) \<times> message_heap) option" where
  "message_construct msgs h =
     (case alloc_chain msgs h of
        (None, h) \<Rightarrow> Some (Inl Ex_bad_message, h)
      | (Some msg, h) \<Rightarrow> map_option (\<lambda>(ob, h). (Inr ob, h)) (php_http_message_object_new_ex msg h))"

section \<open>Chains of objects\<close>

partial_function (option) most_parent :: "message_heap \<Rightarrow> nat \<Rightarrow> nat option" where
  "most_parent h ob = (case object_parent h ob of None \<Rightarrow> Some ob | Some p \<Rightarrow> most_parent h p)"

declare most_parent.simps [code]

definition php_http_message_object_prepend :: "nat \<Rightarrow> nat \<Rightarrow> bool \<Rightarrow> message_heap \<Rightarrow> message_heap option" where
  "php_http_message_object_prepend this prepend on_top h =
     Option.bind (if on_top then most_parent h this else Some this) (\<lambda>ob.
       case (mh_objects h ob, mh_objects h prepend) of
         (Some r, Some p) \<Rightarrow>
           Option.bind (set_parents ob (Some prepend) (Some (mo_message p)) h) (\<lambda>h1.
             if on_top then Some h1 else set_parents prepend (mo_parent r) (mh_parents h (mo_message r)) h1)
       | _ \<Rightarrow> None)"

text \<open>The two loops of the safety check.\<close>

partial_function (option) chain_has :: "parents \<Rightarrow> nat \<Rightarrow> nat option \<Rightarrow> bool option" where
  "chain_has par a p =
     (case p of None \<Rightarrow> Some False | Some b \<Rightarrow> if a = b then Some True else chain_has par a (par b))"

partial_function (option) chains_meet :: "parents \<Rightarrow> nat option \<Rightarrow> nat option \<Rightarrow> bool option" where
  "chains_meet par p q =
     (case p of
        None \<Rightarrow> Some False
      | Some a \<Rightarrow>
          (case chain_has par a q of
             None \<Rightarrow> None
           | Some r \<Rightarrow> if r then Some True else chains_meet par (par a) q))"

declare chain_has.simps [code] chains_meet.simps [code]

definition message_prepend :: "nat \<Rightarrow> nat \<Rightarrow> bool \<Rightarrow> message_heap \<Rightarrow> message_heap thrown" where
  "message_prepend this prepend on_top h =
     (case chains_meet (mh_parents h) (message_of h this) (message_of h prepend) of
        None \<Rightarrow> None
      | Some True \<Rightarrow> throws Ex_unexpected_val h
      | Some False \<Rightarrow> map_option (Pair None) (php_http_message_object_prepend this prepend on_top h))"

text \<open>The array of the objects; it has as many places as the chain of messages is long.\<close>

fun collect_objects :: "message_heap \<Rightarrow> nat \<Rightarrow> nat \<Rightarrow> nat list option" where
  "collect_objects h ob 0 = None"
| "collect_objects h ob (Suc n) =
     (case object_parent h ob of None \<Rightarrow> Some [ob] | Some p \<Rightarrow> map_option (Cons ob) (collect_objects h p n))"

fun relink_objects :: "nat list \<Rightarrow> nat \<Rightarrow> message_heap \<Rightarrow> message_heap option" where
  "relink_objects obs 0 h = set_parents (obs ! 0) None None h"
| "relink_objects obs (Suc i) h =
     Option.bind (set_parents (obs ! Suc i) (Some (obs ! i)) (message_of h (obs ! i)) h) (relink_objects obs i)"

definition php_http_message_object_reverse :: "nat \<Rightarrow> message_heap \<Rightarrow> (nat \<times> message_heap) option" where
  "php_http_message_object_reverse this h =
     (case message_of h this of
        None \<Rightarrow> None
      | Some msg \<Rightarrow>
          (case php_http_message_count (mh_parents h) msg of
             None \<Rightarrow> None
           | Some n \<Rightarrow>
               if 1 < n then
                 (case collect_objects h this n of
                    None \<Rightarrow> None
                  | Some obs \<Rightarrow>
                      map_option (Pair (obs ! (length obs - 1))) (relink_objects obs (length obs - 1) h))
               else Some (this, h)))"

definition message_detach :: "nat \<Rightarrow> message_heap \<Rightarrow> (nat \<times> message_heap) option" where
  "message_detach this h =
     (case Option.bind (message_of h this) (mh_messages h) of
        None \<Rightarrow> None
      | Some m \<Rightarrow>
          (case php_http_message_copy_ex [m] False of
             [] \<Rightarrow> None
           | cpy # _ \<Rightarrow> let (a, h) = message_alloc cpy None h in php_http_message_object_new_ex a h))"

text \<open>The message tells whether there is a parent, the object gives it.\<close>

definition message_getParentMessage :: "nat \<Rightarrow> message_heap \<Rightarrow> (message_exception + nat) option" where
  "message_getParentMessage this h =
     (case Option.bind (message_of h this) (mh_parents h) of
        None \<Rightarrow> Some (Inl Ex_unexpected_val)
      | Some _ \<Rightarrow> map_option Inr (object_parent h this))"

definition message_count :: "nat \<Rightarrow> message_heap \<Rightarrow> nat option" where
  "message_count this h = Option.bind (message_of h this) (php_http_message_count (mh_parents h))"

text \<open>\<open>unserialize\<close> with the chain that is parsed from the string; the parent of the object stays.\<close>

definition message_unserialize :: "php_http_message list \<Rightarrow> nat \<Rightarrow> message_heap \<Rightarrow> message_heap option" where
  "message_unserialize msgs this h =
     (case mh_objects h this of
        None \<Rightarrow> None
      | Some r \<Rightarrow>
          let h = h\<lparr>mh_messages := (mh_messages h)(mo_message r := None)\<rparr>;
              msgs = (if msgs = [] then [php_http_message_init PHP_HTTP_NONE None] else msgs) in
          (case alloc_chain msgs h of
             (Some msg, h) \<Rightarrow> Some (h\<lparr>mh_objects := (mh_objects h)(this \<mapsto> r\<lparr>mo_message := msg\<rparr>)\<rparr>)
           | (None, h) \<Rightarrow> None))"

section \<open>Iteration\<close>

definition message_rewind :: "nat \<Rightarrow> message_heap \<Rightarrow> message_heap" where
  "message_rewind this h = h\<lparr>mh_objects := (mh_objects h)(this := map_option (mo_iterator_update (\<lambda>_. Some this)) (mh_objects h this))\<rparr>"

definition message_current :: "nat \<Rightarrow> message_heap \<Rightarrow> nat option" where
  "message_current this h = Option.bind (mh_objects h this) mo_iterator"

definition message_valid :: "nat \<Rightarrow> message_heap \<Rightarrow> bool" where
  "message_valid this h \<longleftrightarrow> message_current this h \<noteq> None"

definition message_next :: "nat \<Rightarrow> message_heap \<Rightarrow> message_heap" where
  "message_next this h =
     (case message_current this h of
        None \<Rightarrow> h
      | Some itr \<Rightarrow>
          h\<lparr>mh_objects := (mh_objects h)(this := map_option (mo_iterator_update (\<lambda>_. object_parent h itr)) (mh_objects h this))\<rparr>)"

section \<open>The invariant\<close>

text \<open>
  Each object has a message of its own; the parent of the message is the message of the parent; and every chain of
  objects ends.
\<close>

definition objects_linked :: "message_heap \<Rightarrow> bool" where
  "objects_linked h \<longleftrightarrow>
     (\<forall>ob m. message_of h ob = Some m \<longrightarrow>
        mh_parents h m = Option.bind (object_parent h ob) (message_of h) \<and>
        (\<forall>p. object_parent h ob = Some p \<longrightarrow> message_of h p \<noteq> None)) \<and>
     (\<forall>a b m. message_of h a = Some m \<and> message_of h b = Some m \<longrightarrow> a = b)"

definition ends :: "parents \<Rightarrow> nat option \<Rightarrow> bool" where
  "ends par p \<longleftrightarrow> (\<exists>xs. is_chain par p xs)"

definition heap_fresh :: "message_heap \<Rightarrow> bool" where
  "heap_fresh h \<longleftrightarrow>
     (\<forall>a. mh_next h \<le> a \<longrightarrow> mh_objects h a = None \<and> mh_parents h a = None) \<and>
     (\<forall>ob m. message_of h ob = Some m \<longrightarrow> m < mh_next h) \<and> (\<forall>a m. mh_parents h a = Some m \<longrightarrow> m < mh_next h)"

definition heap_ok :: "message_heap \<Rightarrow> bool" where
  "heap_ok h \<longleftrightarrow> objects_linked h \<and> (\<forall>p. ends (object_parent h) p) \<and> heap_fresh h"

text \<open>An object, the chain of its parents, and the chain of the messages.\<close>

definition mirrors :: "message_heap \<Rightarrow> nat \<Rightarrow> nat list \<Rightarrow> bool" where
  "mirrors h ob obs \<longleftrightarrow>
     is_chain (object_parent h) (Some ob) obs \<and> is_chain (mh_parents h) (message_of h ob) (map (\<lambda>x. the (message_of h x)) obs) \<and>
     (\<forall>x\<in>set obs. message_of h x \<noteq> None)"


section \<open>Facts on chains\<close>

lemma ends_redirect:
  assumes "\<And>a. a \<notin> S \<Longrightarrow> par' a = par a" "\<And>a. a \<in> S \<Longrightarrow> ends par' (Some a)" "ends par p"
  shows "ends par' p"
proof -
  have "is_chain par p xs \<Longrightarrow> ends par' p" for xs
  proof (induction xs arbitrary: p)
    case Nil
    then show ?case
      by (auto simp: ends_def intro: exI [of _ "[]"])
  next
    case (Cons a xs)
    show ?case
    proof (cases "a \<in> S")
      case True
      then show ?thesis
        using assms(2) Cons.prems by simp
    next
      case False
      then have "ends par' (par' a)"
        using Cons assms(1) by simp
      then obtain ys where "is_chain par' (par' a) ys"
        by (auto simp: ends_def)
      then have "is_chain par' p (a # ys)"
        using Cons.prems by simp
      then show ?thesis
        unfolding ends_def by blast
    qed
  qed
  then show ?thesis
    using assms(3) by (auto simp: ends_def)
qed

lemma chain_append:
  "is_chain par p xs \<Longrightarrow> xs \<noteq> [] \<Longrightarrow> (\<And>a. a \<in> set xs \<Longrightarrow> a \<noteq> last xs \<Longrightarrow> par' a = par a) \<Longrightarrow>
     is_chain par' (par' (last xs)) ys \<Longrightarrow> is_chain par' p (xs @ ys)"
proof (induction xs arbitrary: p)
  case (Cons a xs)
  show ?case
  proof (cases "xs = []")
    case False
    have "a \<noteq> last xs"
      using is_chain_distinct [OF Cons.prems(1)] False by auto
    then show ?thesis
      using Cons False by auto
  qed (use Cons.prems in simp)
qed simp

lemma chain_last: "is_chain par p xs \<Longrightarrow> xs \<noteq> [] \<Longrightarrow> par (last xs) = None"
proof (induction xs arbitrary: p)
  case (Cons a xs)
  then show ?case
    by (cases "xs = []") auto
qed simp

lemma chain_hd: "is_chain par (Some a) xs \<Longrightarrow> \<exists>ys. xs = a # ys \<and> is_chain par (par a) ys"
  by (cases xs) auto

lemma most_parent_chain: "is_chain (object_parent h) (Some ob) xs \<Longrightarrow> most_parent h ob = Some (last xs)"
proof (induction xs arbitrary: ob)
  case (Cons a xs)
  then show ?case
    by (subst most_parent.simps) (cases xs; auto)
qed simp

lemma chain_has_chain: "is_chain par p xs \<Longrightarrow> chain_has par a p = Some (a \<in> set xs)"
proof (induction xs arbitrary: p)
  case Nil
  then show ?case
    by (subst chain_has.simps) simp
next
  case (Cons b xs)
  then show ?case
    by (subst chain_has.simps) auto
qed

lemma chains_meet_chain:
  "is_chain par p xs \<Longrightarrow> is_chain par q ys \<Longrightarrow> chains_meet par p q = Some (set xs \<inter> set ys \<noteq> {})"
proof (induction xs arbitrary: p)
  case Nil
  then show ?case
    by (subst chains_meet.simps) simp
next
  case (Cons b xs)
  then show ?case
    by (subst chains_meet.simps) (auto simp: chain_has_chain)
qed

lemma collect_objects_chain:
  "is_chain (object_parent h) (Some ob) xs \<Longrightarrow> length xs \<le> n \<Longrightarrow> collect_objects h ob n = Some xs"
proof (induction xs arbitrary: ob n)
  case (Cons a xs)
  then obtain k where "n = Suc k"
    by (cases n) auto
  then show ?case
    using Cons by (cases xs) auto
qed simp

section \<open>Facts on the store\<close>

lemma linked_parent:
  assumes "objects_linked h" "message_of h ob = Some m"
  shows "mh_parents h m = Option.bind (object_parent h ob) (message_of h)"
    "object_parent h ob = Some p \<Longrightarrow> message_of h p \<noteq> None"
  using assms unfolding objects_linked_def by blast+

lemma linked_inj: "objects_linked h \<Longrightarrow> message_of h a = Some m \<Longrightarrow> message_of h b = Some m \<Longrightarrow> a = b"
  unfolding objects_linked_def by blast

lemma linked_mirrors:
  assumes "objects_linked h"
  shows "is_chain (object_parent h) (Some ob) obs \<Longrightarrow> message_of h ob \<noteq> None \<Longrightarrow> mirrors h ob obs"
proof (induction obs arbitrary: ob)
  case (Cons a obs)
  have a: "a = ob" and rest: "is_chain (object_parent h) (object_parent h ob) obs"
    using Cons.prems(1) by simp_all
  obtain m where m: "message_of h ob = Some m"
    using Cons.prems(2) by blast
  note par = linked_parent [OF assms m]
  show ?case
  proof (cases "object_parent h ob")
    case None
    then have "obs = []"
      using rest by (cases obs) simp_all
    then show ?thesis
      using None m a par(1) by (simp add: mirrors_def)
  next
    case (Some p)
    then have "mirrors h p obs"
      using rest par(2) by (intro Cons.IH) simp_all
    then show ?thesis
      using Some m a par(1) by (simp add: mirrors_def)
  qed
qed simp

lemma mirrors_exists: "heap_ok h \<Longrightarrow> message_of h ob \<noteq> None \<Longrightarrow> \<exists>obs. mirrors h ob obs"
  using linked_mirrors unfolding heap_ok_def ends_def by blast

text \<open>Messages meet exactly where objects meet.\<close>

lemma mirrors_meet:
  assumes "objects_linked h" "mirrors h a xs" "mirrors h b ys"
  shows "chains_meet (mh_parents h) (message_of h a) (message_of h b) = Some (set xs \<inter> set ys \<noteq> {})"
proof -
  let ?m = "\<lambda>x. the (message_of h x)"
  have some: "message_of h x = Some (?m x)" if "x \<in> set xs \<union> set ys" for x
    using that assms(2,3) by (auto simp: mirrors_def)
  have "?m ` set xs \<inter> ?m ` set ys \<noteq> {} \<longleftrightarrow> set xs \<inter> set ys \<noteq> {}"
  proof
    assume "?m ` set xs \<inter> ?m ` set ys \<noteq> {}"
    then obtain x y where xy: "x \<in> set xs" "y \<in> set ys" "?m x = ?m y"
      by blast
    then have "x = y"
      using linked_inj [OF assms(1) some [of x]] some [of y] by simp
    then show "set xs \<inter> set ys \<noteq> {}"
      using xy by blast
  qed blast
  then show ?thesis
    using assms(2,3) chains_meet_chain [of "mh_parents h" _ "map ?m xs" _ "map ?m ys"] by (simp add: mirrors_def)
qed

text \<open>New parents for an object.\<close>

lemma set_parents_ok:
  assumes "objects_linked h" "message_of h ob \<noteq> None" "pm = Option.bind po (message_of h)" "po \<noteq> None \<Longrightarrow> pm \<noteq> None"
  shows "\<exists>h'. set_parents ob po pm h = Some h' \<and> objects_linked h' \<and> object_parent h' = (object_parent h)(ob := po) \<and>
    message_of h' = message_of h \<and> mh_messages h' = mh_messages h \<and> (heap_fresh h \<longrightarrow> heap_fresh h')"
proof -
  obtain r where r: "mh_objects h ob = Some r"
    using assms(2) by (auto simp: message_of_def)
  let ?h = "h\<lparr>mh_objects := (mh_objects h)(ob \<mapsto> r\<lparr>mo_parent := po\<rparr>), mh_parents := (mh_parents h)(mo_message r := pm)\<rparr>"
  have m: "message_of ?h = message_of h"
    using r by (auto simp: message_of_def)
  have p: "object_parent ?h = (object_parent h)(ob := po)"
    by (auto simp: object_parent_def fun_eq_iff)
  have "objects_linked ?h"
    unfolding objects_linked_def m p
  proof (intro conjI allI impI)
    fix a n
    assume n: "message_of h a = Some n"
    show "mh_parents ?h n = Option.bind (((object_parent h)(ob := po)) a) (message_of h)"
    proof (cases "a = ob")
      case True
      then show ?thesis
        using n r assms(3) by (simp add: message_of_def)
    next
      case False
      then have "n \<noteq> mo_message r"
        using linked_inj [OF assms(1) n] r by (auto simp: message_of_def)
      then show ?thesis
        using False linked_parent(1) [OF assms(1) n] by simp
    qed
    show "message_of h q \<noteq> None" if "((object_parent h)(ob := po)) a = Some q" for q
      using that assms(3,4) linked_parent(2) [OF assms(1) n] by (auto split: if_splits)
  next
    fix a b n
    assume "message_of h a = Some n \<and> message_of h b = Some n"
    then show "a = b"
      using linked_inj [OF assms(1)] by blast
  qed
  moreover have "heap_fresh ?h" if "heap_fresh h"
  proof -
    have "mo_message r < mh_next h"
      using that r unfolding heap_fresh_def message_of_def by (metis option.map(2))
    then show ?thesis
      using that assms(3) r unfolding heap_fresh_def m
      by (auto simp: message_of_def bind_eq_Some_conv split: if_splits)
  qed
  ultimately show ?thesis
    using m p r by (simp add: set_parents_def)
qed

end
