(* ===== verification/Http_Message_Chains.thy ===== *)
theory Http_Message_Chains
  imports Http_Message_Objects
begin

text \<open>
  What the operations on chains of message objects do, on stores where objects and messages agree, and the stores that
  a script can reach.
\<close>

section \<open>Prepending\<close>

lemma heap_ok_set_parents:
  assumes "heap_ok h" "message_of h ob \<noteq> None" "pm = Option.bind po (message_of h)" "po \<noteq> None \<Longrightarrow> pm \<noteq> None"
    and "ends ((object_parent h)(ob := po)) (Some ob)"
  shows "\<exists>h'. set_parents ob po pm h = Some h' \<and> heap_ok h' \<and> object_parent h' = (object_parent h)(ob := po) \<and>
    message_of h' = message_of h"
proof -
  have "objects_linked h" "heap_fresh h" and e: "ends (object_parent h) p" for p
    using assms(1) by (simp_all add: heap_ok_def)
  then obtain h' where h': "set_parents ob po pm h = Some h'" "objects_linked h'" "object_parent h' = (object_parent h)(ob := po)"
    "message_of h' = message_of h" "heap_fresh h'"
    using set_parents_ok [OF _ assms(2-4)] by blast
  have "ends (object_parent h') p" for p
    by (rule ends_redirect [of "{ob}" _ "object_parent h"]) (use assms(5) h'(3) e in auto)
  then show ?thesis
    using h' by (auto simp: heap_ok_def)
qed

lemma mirrors_parts:
  assumes "mirrors h ob xs"
  shows "is_chain (object_parent h) (Some ob) xs" "message_of h ob \<noteq> None" "distinct xs" "hd xs = ob" "xs \<noteq> []" "last xs \<in> set xs"
    "\<And>x. x \<in> set xs \<Longrightarrow> message_of h x \<noteq> None"
proof -
  show c: "is_chain (object_parent h) (Some ob) xs" and m: "\<And>x. x \<in> set xs \<Longrightarrow> message_of h x \<noteq> None"
    using assms by (simp_all add: mirrors_def)
  show "distinct xs"
    by (rule is_chain_distinct [OF c])
  show "hd xs = ob" "xs \<noteq> []" "last xs \<in> set xs"
    using c by (cases xs; simp)+
  then show "message_of h ob \<noteq> None"
    using m by (metis list.set_sel(1))
qed

lemma prepend_top:
  assumes ok: "heap_ok h" and x: "mirrors h this xs" and y: "mirrors h prepend ys" and disj: "set xs \<inter> set ys = {}"
  shows "\<exists>h'. php_http_message_object_prepend this prepend True h = Some h' \<and> heap_ok h' \<and> mirrors h' this (xs @ ys) \<and>
    object_parent h' = (object_parent h)(last xs := Some prepend)"
proof -
  note X = mirrors_parts [OF x] and Y = mirrors_parts [OF y]
  let ?par = "(object_parent h)(last xs := Some prepend)"
  have ny: "last xs \<notin> set ys"
    using disj X(6) by blast
  have cy: "is_chain ?par (Some prepend) ys"
    using Y(1) by (rule is_chain_cong) (use ny in auto)
  then have "is_chain ?par (Some (last xs)) (last xs # ys)"
    by simp
  then have "ends ?par (Some (last xs))"
    unfolding ends_def by blast
  from heap_ok_set_parents [OF ok X(7) [OF X(6)] _ _ this, of "message_of h prepend"] Y(2) obtain h' where
    h': "set_parents (last xs) (Some prepend) (message_of h prepend) h = Some h'" "heap_ok h'" "object_parent h' = ?par"
    "message_of h' = message_of h"
    by auto
  have "is_chain ?par (Some this) (xs @ ys)"
    using X(1,5) by (rule chain_append) (use cy in auto)
  then have "mirrors h' this (xs @ ys)"
    using h'(2,3,4) X(2) by (intro linked_mirrors) (simp_all add: heap_ok_def)
  moreover have "php_http_message_object_prepend this prepend True h = Some h'"
    using h'(1) X(7) [OF X(6)] Y(2)
    by (auto simp: php_http_message_object_prepend_def most_parent_chain [OF X(1)] message_of_def split: option.splits)
  ultimately show ?thesis
    using h'(2,3) by blast
qed

lemma prepend_below:
  assumes ok: "heap_ok h" and x: "mirrors h this xs" and y: "mirrors h prepend ys" and disj: "set xs \<inter> set ys = {}"
  shows "\<exists>h'. php_http_message_object_prepend this prepend False h = Some h' \<and> heap_ok h' \<and> mirrors h' this (this # prepend # tl xs) \<and>
    object_parent h' = (object_parent h)(this := Some prepend, prepend := object_parent h this)"
proof -
  note X = mirrors_parts [OF x] and Y = mirrors_parts [OF y]
  let ?q = "object_parent h this"
  let ?par1 = "(object_parent h)(this := Some prepend)"
  let ?par2 = "?par1(prepend := ?q)"
  obtain zs where xs: "xs = this # zs" and zs: "is_chain (object_parent h) ?q zs"
    using chain_hd [OF X(1)] by blast
  have ny: "this \<notin> set ys" "prepend \<notin> set xs"
    using disj xs Y(1) chain_hd by fastforce+
  have "is_chain ?par1 (Some this) (this # ys)"
    using is_chain_cong [OF Y(1), of ?par1] ny by simp
  then have "ends ?par1 (Some this)"
    unfolding ends_def by blast
  from heap_ok_set_parents [OF ok X(2) _ _ this, of "message_of h prepend"] Y(2) obtain h1 where
    h1: "set_parents this (Some prepend) (message_of h prepend) h = Some h1" "heap_ok h1" "object_parent h1 = ?par1"
    "message_of h1 = message_of h"
    by auto
  obtain r where r: "mh_objects h this = Some r"
    using X(2) by (auto simp: message_of_def)
  have q: "mo_parent r = ?q" "mh_parents h (mo_message r) = Option.bind ?q (message_of h)"
    using r linked_parent(1) [of h this "mo_message r"] ok by (simp_all add: object_parent_def message_of_def heap_ok_def)
  have zs2: "is_chain ?par2 ?q zs"
    using zs by (rule is_chain_cong) (use X(3) xs ny in auto)
  then have "is_chain ?par2 (Some prepend) (prepend # zs)"
    by simp
  then have "ends ((object_parent h1)(prepend := ?q)) (Some prepend)"
    unfolding ends_def h1(3) by blast
  moreover have "message_of h1 prepend \<noteq> None"
    using h1(4) Y(2) by simp
  moreover have "?q \<noteq> None \<Longrightarrow> Option.bind ?q (message_of h) \<noteq> None"
    using linked_parent(2) [of h this "mo_message r"] r ok by (auto simp: message_of_def heap_ok_def)
  ultimately obtain h2 where
    h2: "set_parents prepend ?q (Option.bind ?q (message_of h)) h1 = Some h2" "heap_ok h2" "object_parent h2 = ?par2"
    "message_of h2 = message_of h"
    using heap_ok_set_parents [OF h1(2), of prepend "Option.bind ?q (message_of h)" ?q] h1(3,4) by metis
  have "is_chain ?par2 (Some this) (this # prepend # zs)"
    using zs2 ny xs by simp
  then have "mirrors h2 this (this # prepend # zs)"
    using h2(2,3,4) X(2) by (intro linked_mirrors) (simp_all add: heap_ok_def)
  moreover have "php_http_message_object_prepend this prepend False h = Some h2"
    using h1(1) h2(1) r q Y(2)
    by (auto simp: php_http_message_object_prepend_def message_of_def split: option.splits)
  ultimately show ?thesis
    using h2(2,3) xs by auto
qed

lemma message_prepend_ok:
  assumes "heap_ok h" "mirrors h this xs" "mirrors h prepend ys"
  shows "if set xs \<inter> set ys \<noteq> {} then message_prepend this prepend on_top h = throws Ex_unexpected_val h
    else \<exists>h'. message_prepend this prepend on_top h = returns h' \<and> heap_ok h' \<and>
      mirrors h' this (if on_top then xs @ ys else this # prepend # tl xs) \<and>
      (\<forall>ob. ob \<notin> set xs \<union> set ys \<longrightarrow> object_parent h' ob = object_parent h ob)"
proof -
  note meet = mirrors_meet [OF _ assms(2,3)]
  have linked: "objects_linked h"
    using assms(1) by (simp add: heap_ok_def)
  note X = mirrors_parts [OF assms(2)] and Y = mirrors_parts [OF assms(3)]
  have "this \<in> set xs" "prepend \<in> set ys"
    using X(4,5) Y(4,5) hd_in_set by blast+
  then show ?thesis
    using meet [OF linked] prepend_top [OF assms] prepend_below [OF assms] X(6)
    by (cases on_top) (auto simp: message_prepend_def throws_def returns_def)
qed


section \<open>Reversing\<close>

lemma relink_objects_ok:
  assumes "objects_linked h" "heap_fresh h" "distinct xs" "\<And>x. x \<in> set xs \<Longrightarrow> message_of h x \<noteq> None" "i < length xs"
  shows "\<exists>h'. relink_objects xs i h = Some h' \<and> objects_linked h' \<and> heap_fresh h' \<and> message_of h' = message_of h \<and>
    object_parent h' (xs ! 0) = None \<and> (\<forall>j<i. object_parent h' (xs ! Suc j) = Some (xs ! j)) \<and>
    (\<forall>j. i < j \<and> j < length xs \<longrightarrow> object_parent h' (xs ! j) = object_parent h (xs ! j)) \<and>
    (\<forall>a. a \<notin> set xs \<longrightarrow> object_parent h' a = object_parent h a)"
  using assms
proof (induction i arbitrary: h)
  case 0
  have "xs ! 0 \<in> set xs"
    using 0 by simp
  then have "message_of h (xs ! 0) \<noteq> None"
    using 0 by blast
  then obtain h' where "set_parents (xs ! 0) None None h = Some h'" "objects_linked h'" "object_parent h' = (object_parent h)(xs ! 0 := None)"
    "message_of h' = message_of h" "heap_fresh h'"
    using set_parents_ok [OF 0(1), of "xs ! 0" None None] 0(2) by auto
  then show ?case
    using 0(3,5) by (auto simp: nth_eq_iff_index_eq)
next
  case (Suc i)
  have mem: "xs ! Suc i \<in> set xs" "xs ! i \<in> set xs"
    using Suc.prems(5) by simp_all
  then have m: "message_of h (xs ! Suc i) \<noteq> None" "message_of h (xs ! i) \<noteq> None"
    using Suc.prems(4) by blast+
  have "message_of h (xs ! i) = Option.bind (Some (xs ! i)) (message_of h)"
    by simp
  from set_parents_ok [OF Suc.prems(1) m(1) this m(2)] obtain h1 where
    h1: "set_parents (xs ! Suc i) (Some (xs ! i)) (message_of h (xs ! i)) h = Some h1" "objects_linked h1"
    "object_parent h1 = (object_parent h)(xs ! Suc i := Some (xs ! i))" "message_of h1 = message_of h" "heap_fresh h1"
    using Suc.prems(2) by blast
  obtain h' where h': "relink_objects xs i h1 = Some h'" "objects_linked h'" "heap_fresh h'" "message_of h' = message_of h1"
    "object_parent h' (xs ! 0) = None" "\<forall>j<i. object_parent h' (xs ! Suc j) = Some (xs ! j)"
    and beyond: "\<forall>j. i < j \<and> j < length xs \<longrightarrow> object_parent h' (xs ! j) = object_parent h1 (xs ! j)"
    and other: "\<forall>a. a \<notin> set xs \<longrightarrow> object_parent h' a = object_parent h1 a"
    using Suc.IH [OF h1(2,5) Suc.prems(3)] Suc.prems(4,5) h1(4) by auto
  have "object_parent h' (xs ! Suc i) = Some (xs ! i)"
    using beyond [rule_format, of "Suc i"] Suc.prems(5) h1(3) by simp
  then have "\<forall>j<Suc i. object_parent h' (xs ! Suc j) = Some (xs ! j)"
    using h'(6) by (simp add: less_Suc_eq)
  moreover have "\<forall>j. Suc i < j \<and> j < length xs \<longrightarrow> object_parent h' (xs ! j) = object_parent h (xs ! j)"
    using beyond Suc.prems(3) h1(3) by (simp add: nth_eq_iff_index_eq)
  moreover have "\<forall>a. a \<notin> set xs \<longrightarrow> object_parent h' a = object_parent h a"
    using other mem(1) h1(3) by auto
  ultimately show ?case
    using h1(1,4) h'(1-5) by simp
qed

text \<open>
  Reversing the chain of an object ends, gives the object of the oldest message, and leaves the reversed chain of
  objects and messages behind it; other objects keep their parents.
\<close>

lemma object_reverse_chain:
  assumes "heap_ok h" "mirrors h this xs"
  shows "\<exists>h'. php_http_message_object_reverse this h = Some (last xs, h') \<and> heap_ok h' \<and> mirrors h' (last xs) (rev xs) \<and>
    (\<forall>ob. ob \<notin> set xs \<longrightarrow> object_parent h' ob = object_parent h ob)"
proof -
  note X = mirrors_parts [OF assms(2)]
  have linked: "objects_linked h" and fresh: "heap_fresh h" and e: "ends (object_parent h) p" for p
    using assms(1) by (simp_all add: heap_ok_def)
  obtain m where m: "message_of h this = Some m"
    using X(2) by blast
  have "is_chain (mh_parents h) (Some m) (map (\<lambda>x. the (message_of h x)) xs)"
    using assms(2) m by (simp add: mirrors_def)
  from count_loop_chain [OF this, of 1] have count: "php_http_message_count (mh_parents h) m = Some (length xs)"
    by (simp add: php_http_message_count_def)
  show ?thesis
  proof (cases "1 < length xs")
    case False
    then have "xs = [this]"
      using X(4,5) by (cases xs; cases "tl xs") auto
    then show ?thesis
      using assms m count by (auto simp: php_http_message_object_reverse_def)
  next
    case True
    let ?n = "length xs - 1"
    have "?n < length xs"
      using True by simp
    from relink_objects_ok [OF linked fresh X(3) X(7) this] obtain h' where
      h': "relink_objects xs ?n h = Some h'" "objects_linked h'" "heap_fresh h'" "message_of h' = message_of h"
      "object_parent h' (xs ! 0) = None" "\<forall>j<?n. object_parent h' (xs ! Suc j) = Some (xs ! j)"
      "\<forall>a. a \<notin> set xs \<longrightarrow> object_parent h' a = object_parent h a"
      by blast
    have "hd xs = xs ! 0"
      using X(5) by (simp add: hd_conv_nth)
    then have chain: "is_chain (object_parent h') (Some (last xs)) (rev xs)"
      using h'(5,6) X(5) by (intro is_chain_rev_nth) auto
    have "ends (object_parent h') (Some a)" if a: "a \<in> set xs" for a
    proof -
      obtain as bs where "rev xs = as @ a # bs"
        using a by (metis in_set_conv_decomp set_rev)
      then have "is_chain (object_parent h') (object_parent h' a) bs"
        using chain is_chain_suffix by metis
      then have "is_chain (object_parent h') (Some a) (a # bs)"
        by simp
      then show ?thesis
        unfolding ends_def by blast
    qed
    then have "ends (object_parent h') p" for p
      using ends_redirect [of "set xs" "object_parent h'" "object_parent h"] h'(7) e by blast
    then have ok: "heap_ok h'"
      using h'(2,3) by (simp add: heap_ok_def)
    have "mirrors h' (last xs) (rev xs)"
      using linked_mirrors [OF h'(2) chain] h'(4) X(6,7) by simp
    moreover have "php_http_message_object_reverse this h = Some (last xs, h')"
      using True m count h'(1) collect_objects_chain [OF X(1)] X(5)
      by (simp add: php_http_message_object_reverse_def last_conv_nth)
    ultimately show ?thesis
      using ok h'(7) by blast
  qed
qed

section \<open>Construction\<close>

text \<open>The store with a message, or an object, at the next address.\<close>

lemma heap_ok_alloc:
  assumes "heap_ok h" "case p of None \<Rightarrow> True | Some a \<Rightarrow> a < mh_next h"
  shows "heap_ok (snd (message_alloc m p h))"
proof -
  let ?h = "snd (message_alloc m p h)"
  have par: "object_parent ?h = object_parent h" and msg: "message_of ?h = message_of h"
    by (simp_all add: message_alloc_def object_parent_def message_of_def fun_eq_iff)
  have lt: "n < mh_next h" if "message_of h ob = Some n" for ob n
    using assms(1) that unfolding heap_ok_def heap_fresh_def by blast
  have "objects_linked ?h"
    using assms(1) lt unfolding heap_ok_def objects_linked_def par msg by (auto simp: message_alloc_def)
  moreover have "heap_fresh ?h"
    using assms lt unfolding heap_ok_def heap_fresh_def msg
    by (auto simp: message_alloc_def less_Suc_eq split: option.splits)
  ultimately show ?thesis
    using assms(1) by (simp add: heap_ok_def par)
qed

lemma alloc_chain_ok:
  "heap_ok h \<Longrightarrow> \<exists>p h' as. alloc_chain msgs h = (p, h') \<and> heap_ok h' \<and> is_chain (mh_parents h') p as \<and>
     map (mh_messages h') as = map Some msgs \<and> mh_objects h' = mh_objects h \<and> mh_next h \<le> mh_next h' \<and>
     (\<forall>a\<in>set as. mh_next h \<le> a \<and> a < mh_next h') \<and> (\<forall>a<mh_next h. mh_messages h' a = mh_messages h a \<and> mh_parents h' a = mh_parents h a)"
proof (induction msgs)
  case Nil
  then show ?case
    by (auto intro: exI [of _ "[]"])
next
  case (Cons m ms)
  then obtain p h1 as where c: "alloc_chain ms h = (p, h1)" "heap_ok h1" "is_chain (mh_parents h1) p as"
    "map (mh_messages h1) as = map Some ms" "mh_objects h1 = mh_objects h" "mh_next h \<le> mh_next h1"
    "\<forall>a\<in>set as. mh_next h \<le> a \<and> a < mh_next h1"
    "\<forall>a<mh_next h. mh_messages h1 a = mh_messages h a \<and> mh_parents h1 a = mh_parents h a"
    by blast
  let ?h = "snd (message_alloc m p h1)"
  have "case p of None \<Rightarrow> True | Some a \<Rightarrow> a < mh_next h1"
    using c(3,7) by (cases as) (auto split: option.split)
  then have ok: "heap_ok ?h"
    by (rule heap_ok_alloc [OF c(2)])
  have old: "a \<noteq> mh_next h1" if "a \<in> set as" for a
    using c(7) that by blast
  have "is_chain (mh_parents ?h) (Some (mh_next h1)) (mh_next h1 # as)"
    using is_chain_cong [OF c(3), of "mh_parents ?h"] old by (auto simp: message_alloc_def)
  moreover have "map (mh_messages ?h) (mh_next h1 # as) = map Some (m # ms)"
    using c(4) old by (simp add: message_alloc_def map_eq_conv [symmetric] cong: map_cong)
  moreover have "alloc_chain (m # ms) h = (Some (mh_next h1), ?h)"
    using c(1) by (simp add: message_alloc_def)
  moreover have "mh_objects ?h = mh_objects h" "mh_next h \<le> mh_next ?h"
    "\<forall>a\<in>set (mh_next h1 # as). mh_next h \<le> a \<and> a < mh_next ?h"
    "\<forall>a<mh_next h. mh_messages ?h a = mh_messages h a \<and> mh_parents ?h a = mh_parents h a"
    using c(5-8) by (auto simp: message_alloc_def)
  ultimately show ?case
    using ok by blast
qed


text \<open>The object of a message is put behind the objects of its parents.\<close>

lemma heap_ok_put:
  assumes ok: "heap_ok h" and ob: "mh_objects h ob = None" "ob < mh_next h" and m: "m < mh_next h" "\<And>a. message_of h a \<noteq> Some m"
    and par: "mh_parents h m = Option.bind po (message_of h)" "\<And>p. po = Some p \<Longrightarrow> message_of h p \<noteq> None"
  shows "heap_ok (object_put ob m po h)"
    "object_parent (object_put ob m po h) = (object_parent h)(ob := po)"
    "message_of (object_put ob m po h) = (message_of h)(ob \<mapsto> m)"
proof -
  let ?h = "object_put ob m po h"
  show P: "object_parent ?h = (object_parent h)(ob := po)" and M: "message_of ?h = (message_of h)(ob \<mapsto> m)"
    by (auto simp: object_put_def object_parent_def message_of_def fun_eq_iff)
  have linked: "objects_linked h" and fresh: "heap_fresh h" and e: "ends (object_parent h) p" for p
    using ok by (simp_all add: heap_ok_def)
  have mo: "message_of h ob = None"
    using ob(1) by (simp add: message_of_def)
  have no_ob: "object_parent h a \<noteq> Some ob" for a
  proof (cases "message_of h a")
    case None
    then show ?thesis
      by (simp add: message_of_def object_parent_def)
  next
    case (Some n)
    then show ?thesis
      using linked_parent(2) [OF linked Some] mo by auto
  qed
  have po: "po \<noteq> Some ob"
    using par(2) mo by auto
  have up: "Option.bind q ((message_of h)(ob \<mapsto> m)) = Option.bind q (message_of h)" if "q \<noteq> Some ob" for q
    using that by (cases q) auto
  have mp: "mh_parents ?h = mh_parents h"
    by (simp add: object_put_def)
  have "objects_linked ?h"
    unfolding objects_linked_def P M mp
  proof (intro conjI allI impI)
    fix a n
    assume a: "((message_of h)(ob \<mapsto> m)) a = Some n"
    show "mh_parents h n = Option.bind (((object_parent h)(ob := po)) a) ((message_of h)(ob \<mapsto> m))"
      using a par(1) linked_parent(1) [OF linked, of a n] up [OF po] up [OF no_ob] by (auto split: if_splits)
    show "((message_of h)(ob \<mapsto> m)) q \<noteq> None" if "((object_parent h)(ob := po)) a = Some q" for q
      using a that par(2) linked_parent(2) [OF linked, of a n q] by (auto split: if_splits)
  next
    fix a b n
    assume "((message_of h)(ob \<mapsto> m)) a = Some n \<and> ((message_of h)(ob \<mapsto> m)) b = Some n"
    then show "a = b"
      using m(2) linked_inj [OF linked, of a n b] by (auto split: if_splits)
  qed
  moreover have "heap_fresh ?h"
    using fresh ob m unfolding heap_fresh_def M mp by (auto simp: object_put_def)
  moreover have "ends (object_parent ?h) p" for p
  proof (rule ends_redirect [of "{ob}" _ "object_parent h"])
    obtain xs where xs: "is_chain (object_parent h) po xs"
      using e by (auto simp: ends_def)
    have "ob \<notin> set xs"
    proof
      assume "ob \<in> set xs"
      then obtain as bs where "xs = as @ ob # bs"
        by (auto simp: in_set_conv_decomp)
      then show False
        using xs po no_ob by (cases as rule: rev_cases) (auto dest: is_chain_suffix)
    qed
    then have "is_chain (object_parent ?h) (Some ob) (ob # xs)"
      using is_chain_cong [OF xs, of "object_parent ?h"] by (auto simp: P)
    then show "ends (object_parent ?h) (Some a)" if "a \<in> {ob}" for a
      using that unfolding ends_def by blast
  qed (use e in \<open>auto simp: P\<close>)
  ultimately show "heap_ok ?h"
    by (simp add: heap_ok_def)
qed

lemma heap_ok_next:
  assumes "heap_ok h"
  shows "heap_ok (h\<lparr>mh_next := Suc (mh_next h)\<rparr>)"
proof -
  have "message_of (h\<lparr>mh_next := Suc (mh_next h)\<rparr>) = message_of h" "object_parent (h\<lparr>mh_next := Suc (mh_next h)\<rparr>) = object_parent h"
    by (simp_all add: message_of_def object_parent_def fun_eq_iff)
  then show ?thesis
    using assms unfolding heap_ok_def objects_linked_def heap_fresh_def by (auto intro: less_SucI)
qed

lemma new_ex_ok:
  assumes "heap_ok h" "is_chain (mh_parents h) (Some m) ms" "\<And>n a. n \<in> set ms \<Longrightarrow> n < mh_next h \<and> message_of h a \<noteq> Some n"
  shows "\<exists>ob h' obs. php_http_message_object_new_ex m h = Some (ob, h') \<and> heap_ok h' \<and> mirrors h' ob obs \<and>
    map (message_of h') obs = map Some ms \<and> mh_messages h' = mh_messages h \<and> mh_parents h' = mh_parents h \<and>
    mh_next h \<le> mh_next h' \<and> mh_next h \<le> ob \<and> ob < mh_next h' \<and>
    (\<forall>a<mh_next h. mh_objects h' a = mh_objects h a) \<and>
    (\<forall>a n. message_of h' a = Some n \<longrightarrow> message_of h a = Some n \<or> n \<in> set ms)"
  using assms
proof (induction ms arbitrary: m h)
  case (Cons n ms)
  let ?h0 = "h\<lparr>mh_next := Suc (mh_next h)\<rparr>"
  let ?ob = "mh_next h"
  have n: "n = m" and rest: "is_chain (mh_parents h) (mh_parents h m) ms"
    using Cons.prems(2) by simp_all
  have mo: "message_of ?h0 = message_of h"
    by (simp add: message_of_def fun_eq_iff)
  have none: "mh_objects h ?ob = None"
    using Cons.prems(1) by (simp add: heap_ok_def heap_fresh_def)
  have m: "m < mh_next h" "message_of h a \<noteq> Some m" for a
    using Cons.prems(3) [of m] n by simp_all
  have unfold_new: "php_http_message_object_new_ex m h =
      (case mh_parents h m of None \<Rightarrow> Some (?ob, object_put ?ob m None ?h0)
       | Some p \<Rightarrow> Option.bind (php_http_message_object_new_ex p ?h0) (\<lambda>(po, h). Some (?ob, object_put ?ob m (Some po) h)))"
    by (subst php_http_message_object_new_ex.simps) (simp add: Let_def)
  show ?case
  proof (cases "mh_parents h m")
    case None
    then have ms: "ms = []"
      using rest by (cases ms) simp_all
    note put = heap_ok_put [OF heap_ok_next [OF Cons.prems(1)], of ?ob m None, unfolded mo]
    let ?h = "object_put ?ob m None ?h0"
    have ok: "heap_ok ?h" and P: "object_parent ?h = (object_parent ?h0)(?ob := None)" and M: "message_of ?h = (message_of h)(?ob \<mapsto> m)"
      using put none m None by (simp_all add: less_SucI)
    have "object_parent ?h ?ob = None"
      by (subst P) simp
    then have "mirrors ?h ?ob [?ob]"
      using ok M by (intro linked_mirrors) (simp_all add: heap_ok_def)
    moreover have "php_http_message_object_new_ex m h = Some (?ob, ?h)"
      by (simp add: unfold_new None)
    ultimately show ?thesis
      using ok M n ms by (intro exI [of _ ?ob] exI [of _ ?h] exI [of _ "[?ob]"]) (auto simp: object_put_def split: if_splits)
  next
    case (Some p)
    have "is_chain (mh_parents ?h0) (Some p) ms"
      using rest Some by simp
    moreover have "k < mh_next ?h0 \<and> message_of ?h0 a \<noteq> Some k" if "k \<in> set ms" for k a
      using Cons.prems(3) [of k a] that by (simp add: mo less_SucI)
    ultimately obtain po h1 obs where new: "php_http_message_object_new_ex p ?h0 = Some (po, h1)" "heap_ok h1" "mirrors h1 po obs"
      "map (message_of h1) obs = map Some ms" "mh_messages h1 = mh_messages h" "mh_parents h1 = mh_parents h"
      "Suc (mh_next h) \<le> mh_next h1" "Suc (mh_next h) \<le> po" "po < mh_next h1"
      "\<forall>a<Suc (mh_next h). mh_objects h1 a = mh_objects h a"
      "\<forall>a n. message_of h1 a = Some n \<longrightarrow> message_of h a = Some n \<or> n \<in> set ms"
      using Cons.IH [OF heap_ok_next [OF Cons.prems(1)], of p] by (auto simp: mo)
    have ob1: "mh_objects h1 ?ob = None" "?ob < mh_next h1"
      using new(7,10) none by auto
    have "m \<notin> set ms"
      using is_chain_distinct [OF Cons.prems(2)] n by simp
    then have m1: "m < mh_next h1" "message_of h1 a \<noteq> Some m" for a
      using m new(7,11) by auto
    have po1: "message_of h1 po = Some p"
    proof -
      obtain y ys where ms: "ms = p # ys"
        using rest Some by (cases ms) auto
      then obtain o1 os where "obs = o1 # os"
        using new(4) by (cases obs) auto
      then show ?thesis
        using new(3,4) ms by (simp add: mirrors_def)
    qed
    let ?h = "object_put ?ob m (Some po) h1"
    have par1: "mh_parents h1 m = Option.bind (Some po) (message_of h1)"
      using new(6) Some po1 by simp
    have ex1: "\<And>q. Some po = Some q \<Longrightarrow> message_of h1 q \<noteq> None"
      using po1 by simp
    note put = heap_ok_put [OF new(2) ob1 m1 par1 ex1]
    have obs: "?ob \<notin> set obs"
    proof
      assume "?ob \<in> set obs"
      then have "message_of h1 ?ob \<noteq> None"
        using new(3) unfolding mirrors_def by blast
      then show False
        using ob1(1) by (simp add: message_of_def)
    qed
    have "is_chain (object_parent ?h) (Some ?ob) (?ob # obs)"
      using is_chain_cong [of "object_parent h1" "Some po" obs "object_parent ?h"] new(3) obs by (auto simp: put(2) mirrors_def)
    then have "mirrors ?h ?ob (?ob # obs)"
      using put(1,3) by (intro linked_mirrors) (simp_all add: heap_ok_def)
    moreover have "map ((message_of h1)(?ob \<mapsto> m)) obs = map (message_of h1) obs"
      by (rule map_cong) (use obs in auto)
    then have "map (message_of ?h) (?ob # obs) = map Some (n # ms)"
      using new(4) n by (simp only: put(3) list.map fun_upd_same)
    moreover have "php_http_message_object_new_ex m h = Some (?ob, ?h)"
      by (simp add: unfold_new Some new(1))
    moreover have "mh_messages ?h = mh_messages h" "mh_parents ?h = mh_parents h" "mh_next h \<le> mh_next ?h" "?ob < mh_next ?h"
      "\<forall>a<mh_next h. mh_objects ?h a = mh_objects h a"
      using new(5-7,10) by (auto simp: object_put_def)
    moreover have "\<forall>a k. message_of ?h a = Some k \<longrightarrow> message_of h a = Some k \<or> k \<in> set (n # ms)"
      using new(11) n by (auto simp: put(3) split: if_splits)
    ultimately show ?thesis
      using put(1) by blast
  qed
qed simp


text \<open>
  Constructing an object from a chain of messages makes an object for each message, whose chain of parents has the
  messages in their order; what was in the store before is unchanged.
\<close>

lemma message_construct_chain:
  assumes "heap_ok h" "msgs \<noteq> []"
  shows "\<exists>ob h' obs. message_construct msgs h = Some (Inr ob, h') \<and> heap_ok h' \<and> mirrors h' ob obs \<and>
    map (\<lambda>x. Option.bind (message_of h' x) (mh_messages h')) obs = map Some msgs \<and>
    (\<forall>a<mh_next h. mh_objects h' a = mh_objects h a \<and> mh_messages h' a = mh_messages h a)"
proof -
  obtain p h1 as where c: "alloc_chain msgs h = (p, h1)" "heap_ok h1" "is_chain (mh_parents h1) p as"
    "map (mh_messages h1) as = map Some msgs" "mh_objects h1 = mh_objects h" "mh_next h \<le> mh_next h1"
    "\<forall>a\<in>set as. mh_next h \<le> a \<and> a < mh_next h1"
    "\<forall>a<mh_next h. mh_messages h1 a = mh_messages h a \<and> mh_parents h1 a = mh_parents h a"
    using alloc_chain_ok [OF assms(1)] by blast
  have "as \<noteq> []"
    using c(4) assms(2) by auto
  then obtain m where p: "p = Some m"
    using c(3) by (cases as) auto
  have "message_of h1 = message_of h"
    using c(5) by (simp add: message_of_def fun_eq_iff)
  moreover have "n < mh_next h" if "message_of h a = Some n" for a n
    using assms(1) that unfolding heap_ok_def heap_fresh_def by blast
  ultimately have "n < mh_next h1 \<and> message_of h1 a \<noteq> Some n" if "n \<in> set as" for n a
    using c(7) that by fastforce
  from new_ex_ok [OF c(2) c(3) [unfolded p] this] obtain ob h' obs where
    n: "php_http_message_object_new_ex m h1 = Some (ob, h')" "heap_ok h'" "mirrors h' ob obs" "map (message_of h') obs = map Some as"
    "mh_messages h' = mh_messages h1" "\<forall>a<mh_next h1. mh_objects h' a = mh_objects h1 a"
    by blast
  have "map (\<lambda>x. Option.bind (message_of h' x) (mh_messages h')) obs = map (\<lambda>y. Option.bind y (mh_messages h')) (map (message_of h') obs)"
    by simp
  also have "\<dots> = map Some msgs"
    unfolding n(4,5) using c(4) by (simp add: comp_def)
  finally show ?thesis
    using c(1,5,6,8) n p by (auto simp: message_construct_def)
qed

lemma detach_ok:
  assumes "heap_ok h" "message_detach this h = Some (ob, h')"
  shows "heap_ok h'"
proof -
  obtain x where "Option.bind (message_of h this) (mh_messages h) = Some x"
    using assms(2) by (auto simp: message_detach_def split: option.splits)
  then obtain m where m: "message_detach this h = php_http_message_object_new_ex (mh_next h) (snd (message_alloc (message_copy_one m) None h))"
    by (simp add: message_detach_def php_http_message_copy_ex_def message_alloc_def)
  let ?h = "snd (message_alloc (message_copy_one m) None h)"
  have mo: "message_of ?h = message_of h"
    by (simp add: message_alloc_def message_of_def fun_eq_iff)
  have "n < mh_next h" if "message_of h a = Some n" for a n
    using assms(1) that unfolding heap_ok_def heap_fresh_def by blast
  then have "n < mh_next ?h \<and> message_of ?h a \<noteq> Some n" if "n \<in> set [mh_next h]" for n a
    using that unfolding mo by (fastforce simp: message_alloc_def)
  moreover have "heap_ok ?h"
    by (rule heap_ok_alloc [OF assms(1)]) simp
  moreover have "is_chain (mh_parents ?h) (Some (mh_next h)) [mh_next h]"
    by (simp add: message_alloc_def)
  ultimately show ?thesis
    using new_ex_ok [of ?h "mh_next h" "[mh_next h]"] m assms(2) by force
qed

section \<open>Iteration\<close>

lemma iterator_update_ok:
  assumes "h' = h\<lparr>mh_objects := (mh_objects h)(ob := map_option (mo_iterator_update f) (mh_objects h ob))\<rparr>"
  shows "object_parent h' = object_parent h" "message_of h' = message_of h" "heap_ok h' = heap_ok h"
proof -
  show p: "object_parent h' = object_parent h" and m: "message_of h' = message_of h"
    by (auto simp: assms object_parent_def message_of_def fun_eq_iff option.map_comp comp_def split: option.split)
  have "(\<forall>a. mh_next h \<le> a \<longrightarrow> mh_objects h' a = None) = (\<forall>a. mh_next h \<le> a \<longrightarrow> mh_objects h a = None)"
    by (auto simp: assms)
  then show "heap_ok h' = heap_ok h"
    unfolding heap_ok_def objects_linked_def heap_fresh_def p m by (auto simp: assms)
qed

lemma message_next_parent: "object_parent (message_next this h) = object_parent h" "heap_ok (message_next this h) = heap_ok h"
  using iterator_update_ok [OF refl] by (auto simp: message_next_def split: option.split)

text \<open>A loop over an object visits the object and its parents in turn.\<close>

lemma message_foreach:
  assumes "is_chain (object_parent h) (Some this) obs" "mh_objects h this \<noteq> None"
  shows "message_current this ((message_next this ^^ i) (message_rewind this h)) = (if i < length obs then Some (obs ! i) else None)"
proof -
  let ?h = "\<lambda>i. (message_next this ^^ i) (message_rewind this h)"
  have par: "object_parent (?h i) = object_parent h" for i
    using iterator_update_ok(1) [OF refl, of h this] by (induction i) (simp_all add: message_next_parent message_rewind_def)
  have ob: "mh_objects (?h i) this \<noteq> None" for i
    using assms(2) by (induction i) (auto simp: message_rewind_def message_next_def split: option.split)
  have step: "message_current this (?h (Suc i)) = Option.bind (message_current this (?h i)) (object_parent h)" for i
    using par [of i] ob [of i] by (auto simp: message_next_def message_current_def split: option.split)
  have nth: "object_parent h (obs ! i) = (if Suc i < length obs then Some (obs ! Suc i) else None)" if "i < length obs" for i
    using assms(1) that
  proof (induction obs arbitrary: this i)
    case (Cons a obs)
    then show ?case
      by (cases i; cases obs) auto
  qed simp
  show ?thesis
  proof (induction i)
    case 0
    then show ?case
      using assms by (cases obs) (auto simp: message_current_def message_rewind_def)
  next
    case (Suc i)
    then show ?case
      using nth [of i] by (simp only: step) auto
  qed
qed

section \<open>Stores that a script reaches\<close>

inductive heap_reachable :: "message_heap \<Rightarrow> bool" where
  reach_init: "heap_reachable message_heap_init"
| reach_construct: "heap_reachable h \<Longrightarrow> message_construct msgs h = Some (r, h') \<Longrightarrow> heap_reachable h'"
| reach_prepend: "heap_reachable h \<Longrightarrow> message_of h a \<noteq> None \<Longrightarrow> message_of h b \<noteq> None \<Longrightarrow>
    message_prepend a b on_top h = Some (e, h') \<Longrightarrow> heap_reachable h'"
| reach_reverse: "heap_reachable h \<Longrightarrow> php_http_message_object_reverse a h = Some (r, h') \<Longrightarrow> heap_reachable h'"
| reach_detach: "heap_reachable h \<Longrightarrow> message_detach a h = Some (r, h') \<Longrightarrow> heap_reachable h'"
| reach_rewind: "heap_reachable h \<Longrightarrow> heap_reachable (message_rewind a h)"
| reach_next: "heap_reachable h \<Longrightarrow> heap_reachable (message_next a h)"

lemma heap_ok_init: "heap_ok message_heap_init"
proof -
  have "object_parent message_heap_init = (\<lambda>_. None)" "message_of message_heap_init = (\<lambda>_. None)"
    by (simp_all add: message_heap_init_def object_parent_def message_of_def fun_eq_iff)
  moreover have "ends (\<lambda>_. None) p" for p
  proof (cases p)
    case None
    then have "is_chain (\<lambda>_. None) p []"
      by simp
    then show ?thesis
      unfolding ends_def by blast
  next
    case (Some a)
    then have "is_chain (\<lambda>_. None) p [a]"
      by simp
    then show ?thesis
      unfolding ends_def by blast
  qed
  ultimately show ?thesis
    by (simp add: heap_ok_def objects_linked_def heap_fresh_def) (simp add: message_heap_init_def)
qed

lemma heap_reachable_ok: "heap_reachable h \<Longrightarrow> heap_ok h"
proof (induction rule: heap_reachable.induct)
  case (reach_construct h msgs r h')
  show ?case
  proof (cases "msgs = []")
    case True
    then show ?thesis
      using reach_construct by (simp add: message_construct_def)
  next
    case False
    then show ?thesis
      using message_construct_chain [OF reach_construct.IH False] reach_construct.hyps(2) by auto
  qed
next
  case (reach_prepend h a b on_top e h')
  obtain xs ys where "mirrors h a xs" "mirrors h b ys"
    using mirrors_exists [OF reach_prepend.IH] reach_prepend.hyps(2,3) by blast
  from message_prepend_ok [OF reach_prepend.IH this, of on_top] reach_prepend.hyps(4) reach_prepend.IH show ?case
    by (auto simp: throws_def returns_def split: if_splits)
next
  case (reach_reverse h a r h')
  then have "message_of h a \<noteq> None"
    by (auto simp: php_http_message_object_reverse_def split: option.splits)
  then obtain xs where "mirrors h a xs"
    using mirrors_exists [OF reach_reverse.IH] by blast
  from object_reverse_chain [OF reach_reverse.IH this] reach_reverse.hyps(2) show ?case
    by auto
next
  case (reach_rewind h a)
  then show ?case
    using iterator_update_ok(3) [OF refl, of h a] by (simp add: message_rewind_def)
qed (simp_all add: heap_ok_init detach_ok message_next_parent)

text \<open>
  C13. Prepending a chain of messages to another one is refused exactly where the chains meet. Otherwise the chain of the
  object is followed by the other chain, or the message is put right behind the first one, where its own parents are lost;
  messages and objects agree again and every chain still ends.
\<close>

theorem message_prepend_chain:
  assumes "heap_ok h" "mirrors h this xs" "mirrors h prepend ys"
  shows "if set xs \<inter> set ys \<noteq> {} then message_prepend this prepend on_top h = throws Ex_unexpected_val h
    else \<exists>h'. message_prepend this prepend on_top h = returns h' \<and> heap_ok h' \<and>
      mirrors h' this (if on_top then xs @ ys else this # prepend # tl xs) \<and>
      (\<forall>ob. ob \<notin> set xs \<union> set ys \<longrightarrow> object_parent h' ob = object_parent h ob)"
  by (rule message_prepend_ok [OF assms])


section \<open>Samples\<close>

text \<open>Two chains, of two messages and of one: objects 2 and 3, and object 5.\<close>

definition empty_message :: php_http_message where
  "empty_message = php_http_message_init PHP_HTTP_NONE None"

definition heap_sample :: message_heap where
  "heap_sample = (case message_construct [empty_message, empty_message] message_heap_init of
     Some (_, h) \<Rightarrow> (case message_construct [empty_message] h of Some (_, h) \<Rightarrow> h | None \<Rightarrow> h)
   | None \<Rightarrow> message_heap_init)"


lemma heap_sample_reachable: "heap_reachable heap_sample"
proof -
  have ne: "[empty_message, empty_message] \<noteq> []" "[empty_message] \<noteq> []"
    by simp_all
  obtain a h where h: "message_construct [empty_message, empty_message] message_heap_init = Some (Inr a, h)" "heap_ok h"
    using message_construct_chain [OF heap_ok_init ne(1)] by blast
  obtain b h' where h': "message_construct [empty_message] h = Some (Inr b, h')"
    using message_construct_chain [OF h(2) ne(2)] by blast
  have "heap_reachable h'"
    by (rule reach_construct [OF reach_construct [OF reach_init h(1)] h'])
  then show ?thesis
    using h(1) h' by (simp add: heap_sample_def)
qed

lemma heap_sample_chains: "mirrors heap_sample 2 [2, 3]" "mirrors heap_sample 5 [5]"
  by code_simp+

lemma message_prepend_chain_witness:
  "(\<exists>h'. message_prepend 2 5 True heap_sample = returns h' \<and> heap_ok h' \<and> mirrors h' 2 [2, 3, 5]) \<and>
   message_prepend 2 3 True heap_sample = throws Ex_unexpected_val heap_sample"
proof
  note ok = heap_reachable_ok [OF heap_sample_reachable]
  show "\<exists>h'. message_prepend 2 5 True heap_sample = returns h' \<and> heap_ok h' \<and> mirrors h' 2 [2, 3, 5]"
    using message_prepend_chain [OF ok heap_sample_chains, of True] by auto
  have "mirrors heap_sample 3 [3]"
    by code_simp
  from message_prepend_chain [OF ok heap_sample_chains(1) this, of True]
  show "message_prepend 2 3 True heap_sample = throws Ex_unexpected_val heap_sample"
    by simp
qed


text \<open>Not on top, the parents of the message that is put in between are lost.\<close>

lemma prepend_loses_parents:
  "map_option (\<lambda>(e, h). (e, message_count 5 h)) (message_prepend 5 2 False heap_sample) = Some (None, Some 2)"
  by code_simp

text \<open>After \<open>unserialize\<close> the message has a parent and the object has none: asking for it is undefined.\<close>

lemma unserialize_no_parent:
  "Option.bind (message_unserialize [empty_message, empty_message] 5 heap_sample) (message_getParentMessage 5) = None"
  "Option.bind (message_unserialize [empty_message, empty_message] 5 heap_sample) (message_count 5) = Some 2"
  by code_simp+

text \<open>An object that had a parent keeps it: reversing then writes behind the array.\<close>

lemma unserialize_reverse_overruns:
  "Option.bind (Option.bind (message_prepend 2 5 True heap_sample) (\<lambda>(_, h). message_unserialize [empty_message, empty_message] 2 h))
     (php_http_message_object_reverse 2) = None"
  by code_simp

end
