(* ===== verification/Spec2Isabelle.thy ===== *)
theory Spec2Isabelle
  imports Http_Buffer Http_Encoding Http_Range Http_Message_Roundtrip Http_Cookie_Roundtrip
    Http_Querystring_Roundtrip Http_Negotiate_Laws Http_Options Http_Env_Sapi
    Http_Client_Queue Http_Message_Chains
begin

text \<open>
  A verification development for the PHP extension \<open>pecl/http\<close> (\<open>src/src\<close>), an HTTP toolkit in C.
  Its core turns byte strings into structured data and back: a growing byte buffer carries all
  input and output; parsers for start lines, headers, URLs, parameters and ranges read it; encoding
  streams decode transfer codings; arrays of the host language hold the results.

  \<^bold>\<open>Theories and what they model.\<close>

  \<^item> \<open>Http_Prelude\<close>: machine types, the parts of the C library the sources call (character classes,
    string search, \<open>strtoul\<close>, number printing, block copies), shared lemmas.
  \<^item> \<open>Http_Buffer\<close> (\<open>php_http_buffer.c\<close>): the record \<open>php_http_buffer\<close> keeps the allocated block; the
    operations check every copy against it. The memory manager is a parameter with the laws of the
    locale \<open>allocator\<close>; the locale \<open>byte_buffer\<close> is the interface clients see (append, cut, fix, reset on
    a byte string), interpreted by the buffer for every allocator.
  \<^item> \<open>Http_Misc\<close> (\<open>php_http_misc.c\<close>, \<open>php_http_misc.h\<close>): line ends, matching, canonical header names.
  \<^item> \<open>Http_Zend\<close>: values and ordered hash tables of the host, with the locale \<open>ordered_map\<close> and its
    interpretation; joining of arrays (\<open>php_http_array_apply_*\<close>).
  \<^item> \<open>Http_Version\<close> (\<open>php_http_version.c\<close>): versions.
  \<^item> \<open>Http_Encoding\<close> (\<open>php_http_encoding.c\<close>): the one-shot chunk decoder with its pointers, the generic
    encoding stream over a table of operations, the incremental chunk decoder.
  \<^item> \<open>Http_Range\<close> (\<open>php_http_env.c\<close>): the \<open>Range\<close> header.
  \<^item> \<open>Http_Utf8\<close> (\<open>php_http_utf8.h\<close>): UTF-8 decoding, letter tables and their search, UTF-16.
  \<^item> \<open>Http_Url\<close> (\<open>php_http_url.c\<close>): the URL parser (scheme, authority, path, query, fragment), the
    printer, conversion from and to arrays, combination of URLs and path sanitising. The C locale, the
    IDN library and \<open>inet_pton\<close> are the record \<open>url_env\<close>. \<open>Http_Url_Parse\<close> proves that parsing inverts
    printing.
  \<^item> \<open>Http_Info\<close> (\<open>php_http_info.c\<close>): request and status lines, with the pointer arithmetic of the parser.
  \<^item> \<open>Http_Header_Parser\<close> (\<open>php_http_header_parser.c\<close>): the state machine that reads headers from a buffer,
    its stack of states, the callback for start lines.
  \<^item> \<open>Http_Header\<close> (\<open>php_http_header.c\<close>): tables of headers as strings and back.
  \<^item> \<open>Http_Message_Body\<close> (\<open>php_http_message_body.c\<close>): contents and boundary of a body, delivery to
    callbacks, multipart forms. The stream layer is the record \<open>body_env\<close>.
  \<^item> \<open>Http_Message\<close> (\<open>php_http_message.c\<close>): messages, access to headers, updating of the framing headers,
    printing. A chain of messages is a list; reversing and zipping work on the parent pointers, a map.
  \<^item> \<open>Http_Message_Parser\<close> (\<open>php_http_message_parser.c\<close>): the state machine that reads messages. It
    composes the header parser, the framing rules, the chunk decoder and the inflate stream; the latter
    is part of the record \<open>mp_env\<close>. The loop is a function with a termination proof.
  \<^item> \<open>Http_Message_Roundtrip\<close>: printing of messages composed with the message parser.
  \<^item> \<open>Http_Message_Methods\<close> (\<open>php_http_message.c\<close>): the methods of \<open>http\<close>\<open>\<backslash>\<close>\<open>Message\<close> on one message, with the
    exceptions they throw. \<open>Http_Message_Objects\<close>: the store of message objects, each with its message and the object of the
    parent, and the operations on chains; \<open>Http_Message_Chains\<close> shows that objects and messages stay in step in every store a
    script reaches.
  \<^item> \<open>Http_Params\<close> (\<open>php_http_params.c\<close>): lists of parameters with arguments: the parser with its
    separators, quoting, dimensions and extended values, and the printer. Trimming, escaping and URL
    coding of the host are the record \<open>params_env\<close>. \<open>Http_Params_Loop\<close> describes the rounds of the parser in
    the locale \<open>char_separators\<close>, \<open>Http_Params_Read\<close> what it does with tokens; \<open>Http_Params_Roundtrip\<close> uses them
    to show that parsing inverts printing. \<open>Http_Host\<close> holds functions of a host that instantiate theorems.
  \<^item> \<open>Http_Cookie\<close> (\<open>php_http_cookie.c\<close>): cookie lists on top of the parameters, with the dates of the host
    in the record \<open>cookie_env\<close>; \<open>Http_Cookie_Roundtrip\<close> composes its printer and parser.
  \<^item> \<open>Http_Querystring\<close> (\<open>php_http_querystring.c\<close>): the query array of an object, its update, its methods.
    \<open>Http_Querystring_Laws\<close> describes updates and interprets the locale \<open>array_access\<close>;
    \<open>Http_Querystring_Tree\<close> treats nested arrays as trees of paths, which \<open>Http_Querystring_Roundtrip\<close> uses to
    show that printed query strings are read back.
  \<^item> \<open>Http_Negotiate\<close> (\<open>php_http_negotiate.c\<close>): content negotiation over parsed parameters, with rational
    numbers as qualities; \<open>Http_Negotiate_Laws\<close> characterises the results.
  \<^item> \<open>Http_Options\<close> (\<open>php_http_options.c\<close>): registries of options with getters, setters and defaults; callbacks are
    names that a record of functions interprets. \<open>Http_Etag\<close> (\<open>php_http_etag.c\<close>): tags by the hash functions of
    the host, described by the locale \<open>sink\<close> of what may be fed in pieces. \<open>Http_Filter\<close>
    (\<open>php_http_filter.c\<close>): stream filters that encode and decode chunks or wrap an encoding stream.
  \<^item> \<open>Http_Env\<close> (\<open>php_http_env.c\<close>): headers, body and method of the request a script answers, with the tables
    the module keeps; response headers, codes and status lines, sent through the header operation of the
    server, which is an argument; the methods of \<open>http\<close>\<open>\<backslash>\<close>\<open>Env\<close>.
  \<^item> \<open>Http_Env_Response\<close> (\<open>php_http_env_response.c\<close>): responses: options, caching by tag and date, ranges, the
    steps of the head, the body with throttling and encoding, the methods. A response writes through a table of
    operations with a state of its own (\<open>php_http_env_response_ops_t\<close>). \<open>Http_Env_Stream\<close> has the operations for
    streams, which write through the chunk encoding filter, \<open>Http_Env_Sapi\<close> those for the server.
  \<^item> The interfaces \<open>response_head\<close> and \<open>response_sink\<close> (\<open>Http_Env_Laws\<close>, \<open>Http_Env_Send\<close>) say what
    sending relies on: heads accept headers, bodies take pieces, finishing ends them. \<open>Http_Env_Theorems\<close> proves in
    them that a response is sent; \<open>Http_Env_Final\<close> and \<open>Http_Env_Sapi\<close> interpret them on both tables of operations.
  \<^item> \<open>Http_Client_Options\<close> (\<open>php_http_client.c\<close>, \<open>php_http_client_request.c\<close>): the options of clients and requests and
    the registry of drivers. \<open>Http_Client\<close> (\<open>php_http_client.c\<close>, \<open>php_http_client_curl.c\<close>): the queue of a client on a table
    of operations (\<open>php_http_client_ops_t\<close>), with the curl driver, its handlers, the references the queue holds, and scripts
    as lists of calls that carry the calls of their callbacks. \<open>Http_Client_Queue\<close> has its invariant, the contract of
    a driver (locale \<open>client_driver\<close>) and the curl driver as its instance.

  \<^bold>\<open>Conventions.\<close> A result \<^const>\<open>None\<close> of a function with an \<open>option\<close> type that has no null result in
  C is undefined behaviour or non-termination, so a theorem that gives \<open>Some\<close> proves termination and
  memory safety. Where C returns a null pointer, the theory says so at the definition. Loops are
  recursive functions with termination proofs, or \<open>partial_function (option)\<close> with a proof that they
  return; there is no fuel. Sizes are 64-bit words where they can wrap. Code outside the sources
  (allocator, locale and IDN functions, \<open>inet_pton\<close>, \<open>php_dirname\<close>) is an argument.

  \<^bold>\<open>What is shown.\<close> A serialised chain of messages is read back as the same chain, a chunked body is
  decoded and what follows it stays in the buffer; the message parser keeps the messages it has finished
  and its stack discipline; updating the headers of a message makes them agree with its body; reversing
  and zipping of chains end and keep all messages; chains of message objects mirror those of their messages, and prepending
  joins them or is refused. Header blocks are parsed as an abstract parser of lines
  does, also when they arrive in pieces; headers, start lines, URLs, versions and ranges round-trip.
  A multipart form consists of its fields between boundaries. The buffer refines byte strings and is
  memory safe; chunked output delivers all data; the chunk decoders invert the chunked coding, the
  incremental one for every way of cutting the input that does not separate a carriage return from its
  line feed; the letter search equals a table lookup; UTF-8 decoding inverts encoding; header names have
  canonical spellings; path sanitising equals a normalisation of segments; combination of URLs obeys its
  flags; array merging overrides. Parameters, cookie lists and
  nested query strings are read back as they were printed; query strings behave like maps; negotiation chooses
  the supported value of the highest quality. Sending a response ends, and what reaches the client is the head
  and the body or the range asked for, in the coding the head announces, which the chunk decoder reads back;
  the decoding filter inverts the encoding filter; tags identify contents up to collisions of the digest; a registry of
  options fails fast. Theorems about inputs on which the code misbehaves are stated as such.

  \<^bold>\<open>Not modelled.\<close> Diagnostics (\<open>php_error_docref\<close>), release of memory and reference counts, values that are
  objects of the host, most of the PHP class glue (property handlers, iterators, construction of objects), reading from PHP
  streams. Of the client, what libcurl does is an argument: setting its options and preparing its handles, the transfer
  information, waiting and the event loops (\<open>php_http_client_curl_event.c\<close>, \<open>php_http_client_curl_user.c\<close>) are left out, as are
  the history and the observers. \<open>php_http_env_request.c\<close> fills properties from
  the superglobals. The streams of zlib and brotli are arguments (tables of operations); their wrappers only
  translate calls. Splitting of multipart bodies (\<open>php_http_message_body_split\<close>) rests on the stream layer of the
  host.
\<close>

end
